(* ===== verification/Prelude.thy ===== *)
theory Prelude
  imports Main "HOL-Library.Word"
begin

text \<open>
  Shared vocabulary of the development: the byte and integer types of the Rust sources, the
  result monad that stands for \<open>anyhow::Result\<close> with its \<open>ensure!\<close> guards, transactions
  with rollback, SQL tables as lists of rows with a primary key, and the functions of
  third-party code (SHA-256, NKey signatures) as fields of a parameter record.
\<close>

section \<open>Collections of simplification rules\<close>

named_theorems result_simps \<open>inversion and computation rules of the result monad\<close>
named_theorems table_simps \<open>rules of the SQL table operations\<close>

section \<open>Basic types\<close>

type_synonym byte = "8 word"
type_synonym bytes = "8 word list"
type_synonym u64 = "64 word"
type_synonym u128 = "128 word"

definition I64_MAX :: nat where
  "I64_MAX = 9223372036854775807"

definition U64_MAX :: nat where
  "U64_MAX = 18446744073709551615"

text \<open>A Rust \<open>str\<close> is its list of UTF-8 bytes; a \<open>char\<close> of HOL is one byte.\<close>

definition as_bytes :: "string \<Rightarrow> bytes" where
  "as_bytes s = map of_char s"

definition byte_of :: "char \<Rightarrow> nat" where
  "byte_of c = of_char c"

definition is_ascii_digit :: "char \<Rightarrow> bool" where
  "is_ascii_digit c \<longleftrightarrow> 48 \<le> byte_of c \<and> byte_of c \<le> 57"

definition is_ascii_lowercase :: "char \<Rightarrow> bool" where
  "is_ascii_lowercase c \<longleftrightarrow> 97 \<le> byte_of c \<and> byte_of c \<le> 122"

definition is_hex_lower :: "char \<Rightarrow> bool" where
  "is_hex_lower c \<longleftrightarrow> is_ascii_digit c \<or> (97 \<le> byte_of c \<and> byte_of c \<le> 102)"

definition is_hex_upper :: "char \<Rightarrow> bool" where
  "is_hex_upper c \<longleftrightarrow> is_ascii_digit c \<or> (65 \<le> byte_of c \<and> byte_of c \<le> 70)"

definition to_ascii_upper :: "string \<Rightarrow> string" where
  "to_ascii_upper = map (\<lambda>c. if is_ascii_lowercase c then char_of (byte_of c - 32) else c)"

definition is_ascii_uppercase :: "char \<Rightarrow> bool" where
  "is_ascii_uppercase c \<longleftrightarrow> 65 \<le> byte_of c \<and> byte_of c \<le> 90"

definition to_ascii_lower :: "string \<Rightarrow> string" where
  "to_ascii_lower = map (\<lambda>c. if is_ascii_uppercase c then char_of (byte_of c + 32) else c)"

definition starts_with :: "'a list \<Rightarrow> 'a list \<Rightarrow> bool" where
  "starts_with p xs \<longleftrightarrow> take (length p) xs = p"

text \<open>\<open>str::split(sep)\<close>: the fields between separators; the empty string has one empty field.\<close>

fun split_on :: "'a \<Rightarrow> 'a list \<Rightarrow> 'a list list" where
  "split_on c [] = [[]]"
| "split_on c (x # xs) =
     (if x = c then [] # split_on c xs
      else (case split_on c xs of [] \<Rightarrow> [[x]] | f # fs \<Rightarrow> (x # f) # fs))"

text \<open>\<open>usize::next_power_of_two\<close> by doubling; used on lengths of at least two.\<close>

function next_pow2_from :: "nat \<Rightarrow> nat \<Rightarrow> nat" where
  "next_pow2_from p n = (if p = 0 \<or> n \<le> p then p else next_pow2_from (2 * p) n)"
  by pat_completeness auto
termination
  by (relation "measure (\<lambda>(p, n). n - p)") auto

declare next_pow2_from.simps [simp del]

definition next_power_of_two :: "nat \<Rightarrow> nat" where
  "next_power_of_two n = next_pow2_from 1 n"

section \<open>Errors and results\<close>

text \<open>
  \<open>Protocol\<close> carries \<open>wire::ProtocolError\<close>, \<open>InvalidMessage\<close> is the marker type that
  \<open>process_history\<close> recognises by downcast, \<open>Sql\<close> a failed statement or an absent row,
  \<open>Extern\<close> a failure reported by third-party code, \<open>Anyhow\<close> a message of \<open>ensure!\<close>,
  \<open>bail!\<close> or \<open>context\<close>.
\<close>

datatype protocol_error = InvalidId | Version | Size | Encoding

datatype error =
    Anyhow string
  | Protocol protocol_error
  | InvalidMessage
  | Sql string
  | Extern string

type_synonym 'a result = "error + 'a"

definition bind_r :: "'a result \<Rightarrow> ('a \<Rightarrow> 'b result) \<Rightarrow> 'b result" where
  "bind_r m f = (case m of Inl e \<Rightarrow> Inl e | Inr x \<Rightarrow> f x)"

text \<open>\<open>ensure_e c e k\<close> is \<open>ensure!(c, e)\<close> followed by the rest \<open>k\<close> of the function.\<close>

definition ensure_e :: "bool \<Rightarrow> error \<Rightarrow> 'a result \<Rightarrow> 'a result" where
  "ensure_e c e k = (if c then k else Inl e)"

definition ensure :: "bool \<Rightarrow> string \<Rightarrow> 'a result \<Rightarrow> 'a result" where
  "ensure c msg k = ensure_e c (Anyhow msg) k"

definition or_err :: "'a option \<Rightarrow> error \<Rightarrow> 'a result" where
  "or_err m e = (case m of None \<Rightarrow> Inl e | Some x \<Rightarrow> Inr x)"

definition is_ok :: "'a result \<Rightarrow> bool" where
  "is_ok r = (case r of Inl _ \<Rightarrow> False | Inr _ \<Rightarrow> True)"

text \<open>A transaction commits the new state on success and rolls back on an error.\<close>

definition transaction :: "('s \<Rightarrow> ('a \<times> 's) result) \<Rightarrow> 's \<Rightarrow> 's \<times> 'a result" where
  "transaction f s = (case f s of Inl e \<Rightarrow> (s, Inl e) | Inr (a, s') \<Rightarrow> (s', Inr a))"

text \<open>
  Sequencing of operations on a state that survives errors: the store of the broker, or a
  database outside a transaction.
\<close>

definition bind_s ::
    "'s \<times> 'a result \<Rightarrow> ('a \<Rightarrow> 's \<Rightarrow> 's \<times> 'b result) \<Rightarrow> 's \<times> 'b result" where
  "bind_s m f = (case m of (s, Inl e) \<Rightarrow> (s, Inl e) | (s, Inr x) \<Rightarrow> f x s)"

definition ensure_s :: "bool \<Rightarrow> string \<Rightarrow> 's \<Rightarrow> 's \<times> 'a result \<Rightarrow> 's \<times> 'a result" where
  "ensure_s c msg s k = (if c then k else (s, Inl (Anyhow msg)))"

text \<open>A loop over a list that stops at the first error.\<close>

fun fold_r :: "('a \<Rightarrow> 's \<Rightarrow> 's result) \<Rightarrow> 'a list \<Rightarrow> 's \<Rightarrow> 's result" where
  "fold_r f [] s = Inr s"
| "fold_r f (x # xs) s = bind_r (f x s) (fold_r f xs)"

fun map_r :: "('a \<Rightarrow> 'b result) \<Rightarrow> 'a list \<Rightarrow> 'b list result" where
  "map_r f [] = Inr []"
| "map_r f (x # xs) = bind_r (f x) (\<lambda>y. bind_r (map_r f xs) (\<lambda>ys. Inr (y # ys)))"

section \<open>SQL tables\<close>

text \<open>
  A table is the list of its rows in insertion order. \<open>insert_row\<close> rejects a row whose
  primary key is present; \<open>update_where\<close> and \<open>delete_where\<close> are the \<open>UPDATE\<close> and
  \<open>DELETE\<close> statements with their \<open>WHERE\<close> clause; \<open>select_one\<close> is \<open>query_row(..).optional()\<close>.
\<close>

definition insert_row :: "('r \<Rightarrow> 'k) \<Rightarrow> 'r \<Rightarrow> 'r list \<Rightarrow> 'r list result" where
  "insert_row key r t =
     (if key r \<in> key ` set t then Inl (Sql ''UNIQUE constraint failed'') else Inr (t @ [r]))"

definition update_where :: "('r \<Rightarrow> bool) \<Rightarrow> ('r \<Rightarrow> 'r) \<Rightarrow> 'r list \<Rightarrow> 'r list" where
  "update_where p f t = map (\<lambda>r. if p r then f r else r) t"

definition delete_where :: "('r \<Rightarrow> bool) \<Rightarrow> 'r list \<Rightarrow> 'r list" where
  "delete_where p t = filter (\<lambda>r. \<not> p r) t"

definition select_one :: "('r \<Rightarrow> bool) \<Rightarrow> 'r list \<Rightarrow> 'r option" where
  "select_one p t = find p t"

definition count_where :: "('r \<Rightarrow> bool) \<Rightarrow> 'r list \<Rightarrow> nat" where
  "count_where p t = length (filter p t)"

section \<open>Third-party cryptography as parameters\<close>

text \<open>
  \<open>sha256\<close> is RustCrypto's hash call, \<open>nkey_ok\<close> is \<open>KeyPair::from_public_key\<close>
  succeeding, \<open>nkey_verify pk msg sig\<close> is \<open>verify\<close> on the key built from \<open>pk\<close>.
  A \<open>keypair\<close> is what the code uses of \<open>nkeys::KeyPair\<close>.
\<close>

record crypto =
  sha256 :: "bytes \<Rightarrow> bytes option"
  nkey_ok :: "string \<Rightarrow> bool"
  nkey_verify :: "string \<Rightarrow> bytes \<Rightarrow> bytes \<Rightarrow> bool"

record keypair =
  public_key :: string
  nkey_sign :: "bytes \<Rightarrow> bytes option"

definition verify_with :: "'z crypto_scheme \<Rightarrow> string \<Rightarrow> bytes \<Rightarrow> bytes \<Rightarrow> unit result" where
  "verify_with C pk msg sig =
     ensure_e (nkey_ok C pk) (Extern ''invalid public key'')
       (ensure_e (nkey_verify C pk msg sig) (Extern ''signature verification failed'') (Inr ()))"

definition sign_with :: "keypair \<Rightarrow> bytes \<Rightarrow> bytes result" where
  "sign_with k msg = or_err (nkey_sign k msg) (Extern ''signing failed'')"

text \<open>The documented contract of a signing key: what it signs verifies under its public key.\<close>

definition signs_correctly :: "'z crypto_scheme \<Rightarrow> keypair \<Rightarrow> bool" where
  "signs_correctly C k \<longleftrightarrow> nkey_ok C (public_key k) \<and>
     (\<forall>m s. nkey_sign k m = Some s \<longrightarrow> nkey_verify C (public_key k) m s)"

section \<open>Lemmas on results\<close>

lemma bind_r_simps [simp]:
  "bind_r (Inr x) f = f x" "bind_r (Inl e) f = Inl e"
  by (simp_all add: bind_r_def)

lemma bind_r_eq_Inr [result_simps]:
  "bind_r m f = Inr y \<longleftrightarrow> (\<exists>x. m = Inr x \<and> f x = Inr y)"
  by (cases m) auto

lemma bind_r_eq_Inl [result_simps]:
  "bind_r m f = Inl e \<longleftrightarrow> m = Inl e \<or> (\<exists>x. m = Inr x \<and> f x = Inl e)"
  by (cases m) auto

lemma ensure_e_simps [simp]:
  "ensure_e True e k = k" "ensure_e False e k = Inl e"
  by (simp_all add: ensure_e_def)

lemma ensure_simps [simp]:
  "ensure True msg k = k" "ensure False msg k = Inl (Anyhow msg)"
  by (simp_all add: ensure_def)

lemma ensure_e_eq_Inr [result_simps]: "ensure_e c e k = Inr y \<longleftrightarrow> c \<and> k = Inr y"
  by (simp add: ensure_e_def)

lemma ensure_eq_Inr [result_simps]: "ensure c msg k = Inr y \<longleftrightarrow> c \<and> k = Inr y"
  by (simp add: ensure_def ensure_e_def)

lemma or_err_simps [simp]:
  "or_err None e = Inl e" "or_err (Some x) e = Inr x"
  by (simp_all add: or_err_def)

lemma or_err_eq_Inr [result_simps]: "or_err m e = Inr y \<longleftrightarrow> m = Some y"
  by (cases m) auto

lemma is_ok_simps [simp]: "is_ok (Inr x)" "\<not> is_ok (Inl e)"
  by (simp_all add: is_ok_def)

lemma is_ok_iff: "is_ok r \<longleftrightarrow> (\<exists>x. r = Inr x)"
  by (cases r) auto

lemma bind_s_simps [simp]:
  "bind_s (s, Inr x) f = f x s" "bind_s (s, Inl e) f = (s, Inl e)"
  by (simp_all add: bind_s_def)

lemma bind_s_Inr [result_simps]:
  "bind_s m f = (t, Inr y) \<longleftrightarrow> (\<exists>s x. m = (s, Inr x) \<and> f x s = (t, Inr y))"
  by (auto simp: bind_s_def split: prod.splits sum.splits)

lemma ensure_s_simps [simp]:
  "ensure_s True msg s k = k" "ensure_s False msg s k = (s, Inl (Anyhow msg))"
  by (simp_all add: ensure_s_def)

lemma ensure_s_Inr [result_simps]:
  "ensure_s c msg s k = (t, Inr y) \<longleftrightarrow> c \<and> k = (t, Inr y)"
  by (simp add: ensure_s_def)

text \<open>Rules for a property of the state that every step of a sequence keeps, whether it succeeds or not.\<close>

lemma bind_s_keeps:
  assumes "P (fst m)" "\<And>x s. P s \<Longrightarrow> P (fst (f x s))"
  shows "P (fst (bind_s m f))"
  using assms by (cases m) (auto simp: bind_s_def split: sum.splits)

lemma ensure_s_keeps: "P s \<Longrightarrow> P (fst k) \<Longrightarrow> P (fst (ensure_s c msg s k))"
  by (simp add: ensure_s_def)

lemma pair_keeps: "P s \<Longrightarrow> P (fst (s, x))"
  by simp

lemma if_keeps: "P (fst a) \<Longrightarrow> P (fst b) \<Longrightarrow> P (fst (if c then a else b))"
  by simp

lemma option_keeps: "P (fst a) \<Longrightarrow> (\<And>x. P (fst (f x))) \<Longrightarrow> P (fst (case y of None \<Rightarrow> a | Some x \<Rightarrow> f x))"
  by (simp split: option.split)

lemmas keeps = bind_s_keeps ensure_s_keeps

lemmas keeping = keeps pair_keeps if_keeps option_keeps

lemma verify_with_ok [result_simps]:
  "verify_with C pk m s = Inr u \<longleftrightarrow> nkey_ok C pk \<and> nkey_verify C pk m s"
  by (simp add: verify_with_def result_simps)

lemma sign_with_ok [result_simps]: "sign_with k m = Inr s \<longleftrightarrow> nkey_sign k m = Some s"
  by (simp add: sign_with_def result_simps)

lemma transaction_Inr:
  "transaction f s = (s', Inr a) \<longleftrightarrow> f s = Inr (a, s')"
  by (auto simp: transaction_def split: sum.splits)

lemma transaction_rollback:
  "transaction f s = (s', Inl e) \<Longrightarrow> s' = s \<and> f s = Inl e"
  by (auto simp: transaction_def split: sum.splits prod.splits)

lemma transaction_state:
  "fst (transaction f s) = s \<or> (\<exists>a. f s = Inr (a, fst (transaction f s)))"
  by (auto simp: transaction_def split: sum.splits prod.splits)

lemma fold_r_append [result_simps]:
  "fold_r f (xs @ ys) s = bind_r (fold_r f xs s) (fold_r f ys)"
  by (induction xs arbitrary: s) (auto simp: bind_r_def split: sum.splits)

text \<open>A property kept by each successful step is kept by the whole loop.\<close>

lemma fold_r_inv:
  assumes "fold_r f xs s = Inr s'" and "P s"
    and "\<And>x s s'. x \<in> set xs \<Longrightarrow> P s \<Longrightarrow> f x s = Inr s' \<Longrightarrow> P s'"
  shows "P s'"
  using assms
proof (induction xs arbitrary: s)
  case (Cons x xs)
  from Cons.prems(1) obtain s1 where s1: "f x s = Inr s1" "fold_r f xs s1 = Inr s'"
    by (auto simp: result_simps)
  moreover have "P s1" using Cons.prems s1(1) by auto
  ultimately show ?case using Cons.IH Cons.prems(3) by auto
qed simp

lemma map_r_length: "map_r f xs = Inr ys \<Longrightarrow> length ys = length xs"
  by (induction xs arbitrary: ys) (auto simp: result_simps)

section \<open>Lemmas on lists and tables\<close>

lemma starts_with_append [simp]: "starts_with p (p @ xs)"
  by (simp add: starts_with_def)

lemma starts_with_iff: "starts_with p xs \<longleftrightarrow> (\<exists>ys. xs = p @ ys)"
  by (metis append_take_drop_id starts_with_append starts_with_def)

lemma split_on_nonempty [simp]: "split_on c xs \<noteq> []"
  by (induction xs) (auto split: list.splits)

lemma split_on_append:
  "c \<notin> set f \<Longrightarrow> split_on c (f @ c # xs) = f # split_on c xs"
  by (induction f) auto

lemma split_on_single: "c \<notin> set f \<Longrightarrow> split_on c f = [f]"
  by (induction f) auto

lemma split_on_no_sep: "f \<in> set (split_on c xs) \<Longrightarrow> c \<notin> set f"
  by (induction xs arbitrary: f) (auto split: list.splits if_splits)

lemma next_pow2_from_ge: "0 < p \<Longrightarrow> n \<le> next_pow2_from p n"
  by (induction p n rule: next_pow2_from.induct) (subst next_pow2_from.simps, auto)

lemma next_pow2_from_lt: "0 < p \<Longrightarrow> p < n \<Longrightarrow> next_pow2_from p n < 2 * n"
proof (induction p n rule: next_pow2_from.induct)
  case (1 p n)
  show ?case
  proof (cases "2 * p < n")
    case True
    with 1 show ?thesis by (subst next_pow2_from.simps) auto
  next
    case False
    with 1 show ?thesis
      by (subst next_pow2_from.simps, subst next_pow2_from.simps) auto
  qed
qed

lemma next_pow2_from_even:
  "even p \<Longrightarrow> even (next_pow2_from p n)"
  by (induction p n rule: next_pow2_from.induct) (subst next_pow2_from.simps, auto)

text \<open>The split point of a Merkle node lies strictly inside the list.\<close>

lemma split_point:
  assumes "2 \<le> n"
  shows "0 < next_power_of_two n div 2" "next_power_of_two n div 2 < n"
proof -
  have "n \<le> next_pow2_from 1 n" by (rule next_pow2_from_ge) simp
  moreover have "next_pow2_from 1 n < 2 * n" using assms by (intro next_pow2_from_lt) auto
  ultimately show "0 < next_power_of_two n div 2" "next_power_of_two n div 2 < n"
    using assms by (auto simp: next_power_of_two_def)
qed

lemma insert_row_ok [table_simps]:
  "insert_row key r t = Inr t' \<longleftrightarrow> key r \<notin> key ` set t \<and> t' = t @ [r]"
  by (auto simp: insert_row_def)

lemma distinct_insert_row:
  "insert_row key r t = Inr t' \<Longrightarrow> distinct (map key t) \<Longrightarrow> distinct (map key t')"
  by (auto simp: insert_row_ok)

lemma map_update_where [table_simps]:
  "(\<And>r. key (f r) = key r) \<Longrightarrow> map key (update_where p f t) = map key t"
  by (simp add: update_where_def)

lemma length_update_where [simp]: "length (update_where p f t) = length t"
  by (simp add: update_where_def)

lemma set_update_where [table_simps]:
  "set (update_where p f t) = (\<lambda>r. if p r then f r else r) ` set t"
  by (simp add: update_where_def)

lemma set_delete_where [simp]:
  "set (delete_where p t) = {r \<in> set t. \<not> p r}"
  by (auto simp: delete_where_def)

lemma distinct_delete_where:
  "distinct (map key t) \<Longrightarrow> distinct (map key (delete_where p t))"
  by (simp add: delete_where_def distinct_map_filter)

lemma select_one_Some:
  "select_one p t = Some r \<Longrightarrow> r \<in> set t \<and> p r"
  by (auto simp: select_one_def find_Some_iff in_set_conv_nth)

lemma select_one_None [table_simps]:
  "select_one p t = None \<longleftrightarrow> (\<forall>r \<in> set t. \<not> p r)"
  by (auto simp: select_one_def find_None_iff)

lemma distinct_key_eq:
  "distinct (map key t) \<Longrightarrow> r \<in> set t \<Longrightarrow> r' \<in> set t \<Longrightarrow> key r = key r' \<Longrightarrow> r = r'"
  by (metis distinct_map inj_on_def)

text \<open>Under a primary key a lookup by key finds exactly the row with that key.\<close>

lemma select_one_key:
  assumes "distinct (map key t)" and "r \<in> set t"
  shows "select_one (\<lambda>x. key x = key r) t = Some r"
proof (cases "select_one (\<lambda>x. key x = key r) t")
  case None
  with assms show ?thesis by (auto simp: select_one_None)
next
  case (Some x)
  with select_one_Some[OF Some] assms show ?thesis by (metis distinct_key_eq)
qed

lemma select_one_append [table_simps]:
  "select_one p (xs @ ys) = (case select_one p xs of None \<Rightarrow> select_one p ys | Some r \<Rightarrow> Some r)"
  by (induction xs) (auto simp: select_one_def)

lemma select_one_simps [simp]:
  "select_one p [] = None"
  "select_one p (x # xs) = (if p x then Some x else select_one p xs)"
  by (simp_all add: select_one_def)

lemma select_one_update_where:
  assumes "\<And>r. q (f r) = q r"
  shows "select_one q (update_where p f t) =
    map_option (\<lambda>r. if p r then f r else r) (select_one q t)"
  using assms by (induction t) (auto simp: update_where_def)

lemma count_where_le_length: "count_where p t \<le> length t"
  by (simp add: count_where_def)

end
