(* ===== verification/Wire.thy ===== *)
theory Wire
  imports Prelude
begin

text \<open>
  The wire protocol of \<open>wire.rs\<close>: identifiers, the signed records that travel in an envelope,
  the envelope with its version and size checks, and the registry key of a device. The records
  of \<open>transparency.rs\<close>, \<open>revocation.rs\<close> and \<open>authorization.rs\<close> that the body type mentions
  are declared here too. Postcard and OpenMLS are third-party code and appear as fields of the
  record \<open>externals\<close>.
\<close>

section \<open>Constants\<close>

definition VERSION :: nat where
  "VERSION = 1"

text \<open>The subjects of the control requests.\<close>

definition KEYPACKAGE :: string where
  "KEYPACKAGE = ''epochgrid.v1.identity.keypackage''"

definition REVOCATIONS :: string where
  "REVOCATIONS = ''epochgrid.v1.identity.revocations''"

definition REVOKE :: string where
  "REVOKE = ''epochgrid.v1.identity.revoke''"

definition AUDIT :: string where
  "AUDIT = ''epochgrid.v1.identity.audit''"

definition DEVICES :: string where
  "DEVICES = ''epochgrid.v1.identity.devices''"

definition LOOKUP :: string where
  "LOOKUP = ''epochgrid.v1.identity.lookup''"

definition REGISTER :: string where
  "REGISTER = ''epochgrid.v1.identity.register''"

definition MAX_WIRE :: nat where
  "MAX_WIRE = 65536"

section \<open>Data\<close>

record registration_payload =
  rp_protocol_version :: nat
  rp_user_id :: string
  rp_device_id :: string
  rp_nats_public_key :: string
  rp_mls_credential :: bytes
  rp_mls_key_package :: bytes
  rp_generation :: nat
  rp_created_at :: int

record device_registration =
  dr_payload :: registration_payload
  dr_signature :: bytes

record checkpoint =
  cp_version :: nat
  cp_size :: nat
  cp_root :: bytes
  cp_signer :: string
  cp_signature :: bytes

record snapshot =
  sn_checkpoint :: checkpoint
  sn_entries :: "device_registration list"

record revoke_request =
  rq_version :: nat
  rq_user :: string
  rq_device :: string
  rq_nkey :: string
  rq_author :: string
  rq_signature :: bytes

record revocation =
  rv_request :: revoke_request
  rv_chat_cutoff :: nat

record revocation_log =
  rl_checkpoint :: checkpoint
  rl_entries :: "revocation list"

record policy_member =
  mb_nkey :: string
  mb_leaf :: nat

record policy_update =
  pu_version :: nat
  pu_gid :: string
  pu_expected_generation :: nat
  pu_epoch :: nat
  pu_signer :: string
  pu_members :: "policy_member list"

record signed_policy =
  sp_update :: policy_update
  sp_signature :: bytes

record policy_state =
  ps_generation :: nat
  ps_epoch :: nat
  ps_coordinator :: string
  ps_members :: "policy_member list"

record welcome_relay =
  wr_version :: nat
  wr_gid :: string
  wr_epoch :: nat
  wr_recipient :: string
  wr_sender :: string
  wr_id :: int
  wr_payload :: bytes
  wr_signature :: bytes

datatype body =
    Register device_registration
  | Registered
  | Rejected
  | Lookup string string
  | Found device_registration
  | NotFound
  | ClaimKeyPackage string string string
  | Welcome bytes
  | ListDevices string
  | Devices "device_registration list"
  | Audit
  | AuditLog snapshot
  | RegistrationAudit
  | RevocationAudit
  | RevocationLog revocation_log
  | Revoke revoke_request
  | Revoked
  | Enroll string device_registration
  | GroupPolicy signed_policy
  | PolicyApplied nat
  | PolicyQuery string
  | PolicyState "policy_state option"
  | RelayWelcome welcome_relay
  | WelcomeRelayed

record envelope =
  ev_version :: nat
  ev_body :: body

section \<open>Third-party codecs\<close>

text \<open>
  What the sources use of an MLS KeyPackage: \<open>kp_unverified\<close> is deserialisation followed by
  \<open>unverified_credential\<close> (serialised credential, signature key); \<open>kp_validate\<close> is
  deserialisation followed by \<open>validate\<close>, with the leaf's ciphersuite, serialised credential,
  basic identity and signature key. The \<open>pc_\<close> fields are postcard's serialisers of the named
  values, \<open>pc_take_envelope\<close> is \<open>postcard::take_from_bytes\<close>; \<open>b32_encode\<close> and
  \<open>b32_decode\<close> are \<open>data_encoding::BASE32_NOPAD\<close>.
\<close>

record kp_leaf =
  kl_ciphersuite :: nat
  kl_credential :: bytes
  kl_identity :: "bytes option"
  kl_signature_key :: bytes

record externals = crypto +
  pc_envelope :: "envelope \<Rightarrow> bytes option"
  pc_take_envelope :: "bytes \<Rightarrow> (envelope \<times> bytes) option"
  pc_registration :: "registration_payload \<Rightarrow> bytes option"
  pc_checkpoint :: "nat \<times> nat \<times> bytes \<times> string \<Rightarrow> bytes option"
  pc_revoke :: "nat \<times> string \<times> string \<times> string \<times> string \<Rightarrow> bytes option"
  pc_revocation :: "revocation \<Rightarrow> bytes option"
  pc_policy :: "policy_update \<Rightarrow> bytes option"
  pc_relay :: "nat \<times> string \<times> nat \<times> string \<times> string \<times> int \<times> bytes \<Rightarrow> bytes option"
  pc_fingerprint :: "nat \<times> string \<times> string \<times> string \<times> bytes \<times> bytes \<Rightarrow> bytes option"
  kp_unverified :: "bytes \<Rightarrow> (bytes \<times> bytes) option"
  kp_validate :: "bytes \<Rightarrow> kp_leaf option"
  is_mls_welcome :: "bytes \<Rightarrow> bool option"
  b32_encode :: "bytes \<Rightarrow> string"
  b32_decode :: "string \<Rightarrow> bytes option"
  suite :: nat

definition pc :: "bytes option \<Rightarrow> bytes result" where
  "pc m = or_err m (Protocol Encoding)"

text \<open>Postcard's documented contract: reading back a written envelope leaves what follows it.\<close>

definition postcard_roundtrip :: "'z externals_scheme \<Rightarrow> bool" where
  "postcard_roundtrip E \<longleftrightarrow>
     (\<forall>e b rest. pc_envelope E e = Some b \<longrightarrow> pc_take_envelope E (b @ rest) = Some (e, rest))"

section \<open>Operations\<close>

definition validate_id :: "string \<Rightarrow> unit result" where
  "validate_id i =
     (if i = [] \<or> length i > 32 \<or>
         \<not> list_all (\<lambda>c. is_ascii_lowercase c \<or> is_ascii_digit c \<or> c = CHR ''-'') i
      then Inl (Protocol InvalidId) else Inr ())"

definition signing_bytes :: "'z externals_scheme \<Rightarrow> registration_payload \<Rightarrow> bytes result" where
  "signing_bytes E p =
     bind_r (pc (pc_registration E p))
       (\<lambda>b. Inr (as_bytes ''EpochGrid device registration v1'' @ [0] @ b))"

definition device_key :: "string \<Rightarrow> string \<Rightarrow> string" where
  "device_key user device = ''users.'' @ user @ ''.devices.'' @ device"

definition registration_key :: "registration_payload \<Rightarrow> string" where
  "registration_key p = device_key (rp_user_id p) (rp_device_id p)"

definition encode :: "'z externals_scheme \<Rightarrow> body \<Rightarrow> bytes result" where
  "encode E b =
     bind_r (pc (pc_envelope E \<lparr>ev_version = VERSION, ev_body = b\<rparr>))
       (\<lambda>bs. ensure_e (length bs \<le> MAX_WIRE) (Protocol Size) (Inr bs))"

definition decode :: "'z externals_scheme \<Rightarrow> bytes \<Rightarrow> body result" where
  "decode E bs =
     ensure_e (length bs \<le> MAX_WIRE) (Protocol Size)
       (bind_r (or_err (pc_take_envelope E bs) (Protocol Encoding))
         (\<lambda>(e, remaining).
            ensure_e (remaining = []) (Protocol Encoding)
              (ensure_e (ev_version e = VERSION) (Protocol Version) (Inr (ev_body e)))))"

text \<open>The \<open>let Body::X(v) = body else\<close> patterns of the sources.\<close>

definition as_register :: "body \<Rightarrow> device_registration option" where
  "as_register b = (case b of Register v \<Rightarrow> Some v | _ \<Rightarrow> None)"

definition as_found :: "body \<Rightarrow> device_registration option" where
  "as_found b = (case b of Found v \<Rightarrow> Some v | _ \<Rightarrow> None)"

definition as_audit_log :: "body \<Rightarrow> snapshot option" where
  "as_audit_log b = (case b of AuditLog v \<Rightarrow> Some v | _ \<Rightarrow> None)"

definition as_revocation_log :: "body \<Rightarrow> revocation_log option" where
  "as_revocation_log b = (case b of RevocationLog v \<Rightarrow> Some v | _ \<Rightarrow> None)"

definition as_welcome :: "body \<Rightarrow> bytes option" where
  "as_welcome b = (case b of Welcome v \<Rightarrow> Some v | _ \<Rightarrow> None)"

section \<open>Lemmas\<close>

lemma as_register_Some [result_simps]: "as_register b = Some v \<longleftrightarrow> b = Register v"
  by (cases b) (auto simp: as_register_def)

lemma as_found_Some [result_simps]: "as_found b = Some v \<longleftrightarrow> b = Found v"
  by (cases b) (auto simp: as_found_def)

lemma as_audit_log_Some [result_simps]: "as_audit_log b = Some v \<longleftrightarrow> b = AuditLog v"
  by (cases b) (auto simp: as_audit_log_def)

lemma as_revocation_log_Some [result_simps]: "as_revocation_log b = Some v \<longleftrightarrow> b = RevocationLog v"
  by (cases b) (auto simp: as_revocation_log_def)

lemma as_welcome_Some [result_simps]: "as_welcome b = Some v \<longleftrightarrow> b = Welcome v"
  by (cases b) (auto simp: as_welcome_def)

lemma pc_ok [result_simps]: "pc m = Inr b \<longleftrightarrow> m = Some b"
  by (simp add: pc_def result_simps)

lemma validate_id_ok:
  "validate_id i = Inr u \<longleftrightarrow> i \<noteq> [] \<and> length i \<le> 32 \<and>
     list_all (\<lambda>c. is_ascii_lowercase c \<or> is_ascii_digit c \<or> c = CHR ''-'') i"
  by (auto simp: validate_id_def)

text \<open>A validated identifier contains none of the separators of subjects, keys and labels.\<close>

lemma validated_no_separator:
  assumes "validate_id i = Inr ()"
  shows "CHR ''.'' \<notin> set i" "CHR ''/'' \<notin> set i" "CHR ''*'' \<notin> set i" "CHR ''>'' \<notin> set i"
  using assms
  by (auto simp: validate_id_ok list_all_iff is_ascii_lowercase_def is_ascii_digit_def byte_of_def)

lemma encode_ok:
  "encode E b = Inr bs \<longleftrightarrow>
     pc_envelope E \<lparr>ev_version = VERSION, ev_body = b\<rparr> = Some bs \<and> length bs \<le> MAX_WIRE"
  by (auto simp: encode_def result_simps)

lemma decode_ok:
  "decode E bs = Inr b \<longleftrightarrow> length bs \<le> MAX_WIRE \<and>
     pc_take_envelope E bs = Some (\<lparr>ev_version = VERSION, ev_body = b\<rparr>, [])"
proof -
  have "e = \<lparr>ev_version = VERSION, ev_body = ev_body e\<rparr>" if "ev_version e = VERSION" for e
    using that by (cases e) simp
  then show ?thesis by (auto simp: decode_def result_simps)
qed

lemma decode_encode:
  assumes "postcard_roundtrip E" and "encode E b = Inr bs"
  shows "decode E bs = Inr b"
proof -
  have "pc_take_envelope E (bs @ []) = Some (\<lparr>ev_version = VERSION, ev_body = b\<rparr>, [])"
    using assms unfolding encode_ok postcard_roundtrip_def by blast
  then show ?thesis using assms(2) by (simp add: encode_ok decode_ok)
qed

lemma encode_inj:
  assumes "postcard_roundtrip E" and "encode E a = Inr bs" and "encode E b = Inr bs"
  shows "a = b"
  using decode_encode[OF assms(1,2)] decode_encode[OF assms(1,3)] by simp

lemma as_bytes_append [simp]: "as_bytes (xs @ ys) = as_bytes xs @ as_bytes ys"
  by (simp add: as_bytes_def)

lemma length_as_bytes [simp]: "length (as_bytes s) = length s"
  by (simp add: as_bytes_def)

lemma device_key_fields:
  assumes "CHR ''.'' \<notin> set user" "CHR ''.'' \<notin> set device"
  shows "split_on CHR ''.'' (device_key user device) = [''users'', user, ''devices'', device]"
proof -
  have "device_key user device =
      ''users'' @ CHR ''.'' # user @ CHR ''.'' # ''devices'' @ CHR ''.'' # device"
    by (simp add: device_key_def)
  then show ?thesis
    using assms by (simp only: split_on_append split_on_single) (simp add: split_on_append split_on_single)
qed

lemma device_key_inj:
  assumes "validate_id u = Inr ()" "validate_id d = Inr ()"
    and "validate_id u' = Inr ()" "validate_id d' = Inr ()"
    and "device_key u d = device_key u' d'"
  shows "u = u' \<and> d = d'"
proof -
  note no_sep = assms(1-4)[THEN validated_no_separator(1)]
  have "[''users'', u, ''devices'', d] = split_on CHR ''.'' (device_key u d)"
    by (rule device_key_fields[OF no_sep(1,2), symmetric])
  also have "\<dots> = split_on CHR ''.'' (device_key u' d')" by (rule arg_cong[OF assms(5)])
  also have "\<dots> = [''users'', u', ''devices'', d']" by (rule device_key_fields[OF no_sep(3,4)])
  finally show ?thesis by simp
qed

end
