(* ===== verification/Identity.thy ===== *)
theory Identity
  imports Wire
begin

text \<open>
  Identities and names: verification of a device registration (\<open>identity.rs\<close>), canonical user
  ids and enrollment tokens (\<open>identity_model.rs\<close>), group descriptors and their routing ids
  (\<open>groups.rs\<close>, \<open>authorization.rs\<close>), device listings (\<open>devices.rs\<close>).
\<close>

section \<open>Registrations\<close>

definition verify_signature :: "'z externals_scheme \<Rightarrow> device_registration \<Rightarrow> unit result" where
  "verify_signature E r = (let p = dr_payload r in
     bind_r (validate_id (rp_user_id p)) (\<lambda>_.
     bind_r (validate_id (rp_device_id p)) (\<lambda>_.
     ensure (rp_protocol_version p = VERSION \<and> rp_generation p = 1 \<and> rp_created_at p > 0)
       ''invalid registration version/generation/time''
     (ensure (starts_with ''U'' (rp_nats_public_key p)) ''NATS user key required''
     (ensure_e (nkey_ok E (rp_nats_public_key p)) (Extern ''invalid public key'')
     (bind_r (signing_bytes E p) (\<lambda>msg.
        verify_with E (rp_nats_public_key p) msg (dr_signature r))))))))"

definition verify :: "'z externals_scheme \<Rightarrow> device_registration \<Rightarrow> unit result" where
  "verify E r = (let p = dr_payload r in
     bind_r (verify_signature E r) (\<lambda>_.
     bind_r (or_err (kp_validate E (rp_mls_key_package p)) (Anyhow ''invalid MLS KeyPackage'')) (\<lambda>leaf.
     ensure (kl_ciphersuite leaf = suite E) ''unsupported ciphersuite''
     (ensure (kl_credential leaf = rp_mls_credential p) ''credential mismatch''
     (bind_r (or_err (kl_identity leaf) (Anyhow ''invalid basic credential'')) (\<lambda>identity.
     ensure (identity = as_bytes (rp_user_id p @ ''/'' @ rp_device_id p)) ''MLS identity mismatch''
       (Inr ())))))))"

section \<open>User ids and enrollment tokens\<close>

definition user_id_try_from :: "'z externals_scheme \<Rightarrow> string \<Rightarrow> string result" where
  "user_id_try_from E value =
     ensure (starts_with ''egusr-'' value) ''canonical EpochGrid UserId required''
       (let suffix = drop 6 value in
        bind_r (or_err (b32_decode E (to_ascii_upper suffix)) (Extern ''base32'')) (\<lambda>bs.
        ensure (length bs = 16 \<and> to_ascii_lower (b32_encode E bs) = suffix)
          ''invalid canonical UserId'' (Inr value)))"

definition token_user :: "'z externals_scheme \<Rightarrow> string \<Rightarrow> string result" where
  "token_user E token =
     ensure (length token \<le> 256) ''oversized enrollment token''
       (let fields = split_on CHR ''.'' token in
        ensure (length fields = 3 \<and> fields ! 0 = ''EG1'' \<and> length (fields ! 2) = 52)
          ''invalid enrollment token''
          (user_id_try_from E (fields ! 1)))"

text \<open>
  The documented behaviour of unpadded base32: decoding inverts encoding, \<open>n\<close> bytes become
  \<open>\<lceil>8n / 5\<rceil>\<close> symbols, and the symbols are the letters \<open>A\<close> to \<open>Z\<close> and the digits.
\<close>

definition base32_laws :: "'z externals_scheme \<Rightarrow> bool" where
  "base32_laws E \<longleftrightarrow>
     (\<forall>b. b32_decode E (b32_encode E b) = Some b) \<and>
     (\<forall>b. length (b32_encode E b) = (8 * length b + 4) div 5) \<and>
     (\<forall>b. list_all (\<lambda>c. is_ascii_uppercase c \<or> is_ascii_digit c) (b32_encode E b))"

section \<open>Groups\<close>

record group =
  g_name :: string
  g_gid :: string
  g_mls_id :: string

definition gid_ok :: "string \<Rightarrow> bool" where
  "gid_ok g \<longleftrightarrow> length g = 32 \<and> list_all is_hex_lower g"

definition validate_gid :: "string \<Rightarrow> unit result" where
  "validate_gid gid = ensure (gid_ok gid) ''invalid authorization group ID'' (Inr ())"

text \<open>
  \<open>Group::from_mls_id\<close>; the group id is given as text, since the source first requires it to be
  UTF-8 and strings are UTF-8 byte lists here.
\<close>

definition from_mls_id :: "string \<Rightarrow> group result" where
  "from_mls_id text = (let fields = split_on CHR ''/'' text in
     ensure (length fields = 4 \<and> fields ! 0 = ''epochgrid'' \<and> fields ! 1 = ''v1'')
       ''invalid EpochGrid group ID''
     (bind_r (validate_id (fields ! 2)) (\<lambda>_.
      ensure (gid_ok (fields ! 3)) ''invalid group subject ID''
        (Inr \<lparr>g_name = fields ! 2, g_gid = fields ! 3, g_mls_id = text\<rparr>))))"

definition subject :: "group \<Rightarrow> string \<Rightarrow> string" where
  "subject g kind = ''epochgrid.v1.group.'' @ g_gid g @ ''.'' @ kind"

definition mls_id_text :: "string \<Rightarrow> string \<Rightarrow> string" where
  "mls_id_text name gid = ''epochgrid/v1/'' @ name @ ''/'' @ gid"

section \<open>Device listings\<close>

text \<open>
  The loop of \<open>devices::validate_list\<close>, with the two \<open>BTreeSet\<close>s of device ids and keys seen so
  far as lists.
\<close>

fun validate_listed ::
    "'z externals_scheme \<Rightarrow> string \<Rightarrow> string list \<Rightarrow> string list \<Rightarrow> device_registration list
      \<Rightarrow> unit result" where
  "validate_listed E user devices keys [] = Inr ()"
| "validate_listed E user devices keys (r # rs) =
     bind_r (verify E r) (\<lambda>_.
     ensure (rp_user_id (dr_payload r) = user) ''directory returned a different user''
     (ensure (rp_device_id (dr_payload r) \<notin> set devices \<and>
              rp_nats_public_key (dr_payload r) \<notin> set keys)
        ''directory returned duplicate device identity''
        (validate_listed E user (rp_device_id (dr_payload r) # devices)
           (rp_nats_public_key (dr_payload r) # keys) rs)))"

definition validate_list ::
    "'z externals_scheme \<Rightarrow> string \<Rightarrow> device_registration list \<Rightarrow> unit result" where
  "validate_list E user rs =
     ensure (length rs \<le> 32) ''too many devices in response'' (validate_listed E user [] [] rs)"

section \<open>Lemmas\<close>

lemma verify_signature_ok:
  assumes "verify_signature E r = Inr u"
  shows "validate_id (rp_user_id (dr_payload r)) = Inr ()"
    and "validate_id (rp_device_id (dr_payload r)) = Inr ()"
    and "\<exists>msg. signing_bytes E (dr_payload r) = Inr msg \<and>
           nkey_verify E (rp_nats_public_key (dr_payload r)) msg (dr_signature r)"
    and "rp_generation (dr_payload r) = 1"
  using assms by (auto simp: verify_signature_def Let_def result_simps)

lemma verify_imp_signature: "verify E r = Inr u \<Longrightarrow> verify_signature E r = Inr ()"
  by (auto simp: verify_def Let_def result_simps)

lemma verified_key_inj:
  assumes "verify_signature E r = Inr u" and "verify_signature E r' = Inr u'"
  shows "registration_key (dr_payload r) = registration_key (dr_payload r') \<longleftrightarrow>
    rp_user_id (dr_payload r) = rp_user_id (dr_payload r') \<and>
    rp_device_id (dr_payload r) = rp_device_id (dr_payload r')"
  using verify_signature_ok(1,2)[OF assms(1)] verify_signature_ok(1,2)[OF assms(2)] device_key_inj
  by (auto simp: registration_key_def)

lemma hex_no_slash: "is_hex_lower c \<Longrightarrow> c \<noteq> CHR ''/'' \<and> c \<noteq> CHR ''.''"
  by (auto simp: is_hex_lower_def is_ascii_digit_def byte_of_def)

lemma gid_no_slash: "gid_ok g \<Longrightarrow> CHR ''/'' \<notin> set g \<and> CHR ''.'' \<notin> set g"
  using hex_no_slash by (auto simp: gid_ok_def list_all_iff)

lemma mls_id_fields:
  assumes "CHR ''/'' \<notin> set name" "CHR ''/'' \<notin> set gid"
  shows "split_on CHR ''/'' (mls_id_text name gid) = [''epochgrid'', ''v1'', name, gid]"
proof -
  have "mls_id_text name gid =
      ''epochgrid'' @ CHR ''/'' # ''v1'' @ CHR ''/'' # name @ CHR ''/'' # gid"
    by (simp add: mls_id_text_def)
  then show ?thesis
    using assms by (simp only: split_on_append split_on_single) (simp add: split_on_append split_on_single)
qed

lemma split_on_join:
  "split_on c xs = f # fs \<Longrightarrow> xs = f @ concat (map (\<lambda>g. c # g) fs)"
proof (induction xs arbitrary: f fs)
  case (Cons x xs)
  obtain g gs where g: "split_on c xs = g # gs" by (cases "split_on c xs") auto
  show ?case
  proof (cases "x = c")
    case True
    then show ?thesis using Cons.prems Cons.IH[OF g] g by auto
  next
    case False
    then show ?thesis using Cons.prems Cons.IH[OF g] g by simp
  qed
qed auto

lemma from_mls_id_ok:
  "from_mls_id text = Inr g \<longleftrightarrow>
     validate_id (g_name g) = Inr () \<and> gid_ok (g_gid g) \<and> g_mls_id g = text \<and>
     text = mls_id_text (g_name g) (g_gid g)"
  (is "?l \<longleftrightarrow> ?r")
proof
  assume l: ?l
  then obtain a b c d where f: "split_on CHR ''/'' text = [a, b, c, d]"
    by (auto simp: from_mls_id_def Let_def result_simps numeral_eq_Suc length_Suc_conv)
  with l have "a = ''epochgrid''" "b = ''v1''" "g_name g = c" "g_gid g = d"
      "validate_id c = Inr ()" "gid_ok d" "g_mls_id g = text"
    by (auto simp: from_mls_id_def Let_def result_simps)
  with split_on_join[OF f] show ?r by (simp add: mls_id_text_def)
next
  assume r: ?r
  then have "split_on CHR ''/'' text = [''epochgrid'', ''v1'', g_name g, g_gid g]"
    using mls_id_fields validated_no_separator(2) gid_no_slash by metis
  with r show ?l by (cases g) (simp add: from_mls_id_def Let_def)
qed

lemma lower_upper_char:
  assumes "is_ascii_uppercase c \<or> is_ascii_digit c"
  shows "(if is_ascii_lowercase (if is_ascii_uppercase c then char_of (byte_of c + 32) else c)
      then char_of (byte_of (if is_ascii_uppercase c then char_of (byte_of c + 32) else c) - 32)
      else (if is_ascii_uppercase c then char_of (byte_of c + 32) else c)) = (c :: char)"
    and "is_ascii_lowercase (if is_ascii_uppercase c then char_of (byte_of c + 32) else c) \<or>
      is_ascii_digit (if is_ascii_uppercase c then char_of (byte_of c + 32) else c)"
  using assms
  by (auto simp: is_ascii_uppercase_def is_ascii_lowercase_def is_ascii_digit_def byte_of_def
      of_char_of)

lemma upper_lower_b32:
  "list_all (\<lambda>c. is_ascii_uppercase c \<or> is_ascii_digit c) s \<Longrightarrow>
     to_ascii_upper (to_ascii_lower s) = s \<and>
     list_all (\<lambda>c. is_ascii_lowercase c \<or> is_ascii_digit c) (to_ascii_lower s)"
  using lower_upper_char
  by (induction s) (auto simp: to_ascii_upper_def to_ascii_lower_def)

text \<open>A freshly generated user id (the encoding of 16 random bytes) parses as itself.\<close>

lemma fresh_user_id_ok:
  assumes "base32_laws E" and "length b = 16"
  shows "user_id_try_from E (''egusr-'' @ to_ascii_lower (b32_encode E b)) =
    Inr (''egusr-'' @ to_ascii_lower (b32_encode E b))"
proof -
  have "to_ascii_upper (to_ascii_lower (b32_encode E b)) = b32_encode E b"
    using assms(1) upper_lower_b32 by (auto simp: base32_laws_def)
  then show ?thesis
    using assms by (simp add: user_id_try_from_def base32_laws_def Let_def starts_with_def)
qed

lemma user_id_wire_id:
  assumes "base32_laws E" and "user_id_try_from E v = Inr w"
  shows "validate_id v = Inr () \<and> w = v"
proof -
  obtain b where b: "length b = 16" "v = ''egusr-'' @ to_ascii_lower (b32_encode E b)" "w = v"
    using assms(2)
    by (auto simp: user_id_try_from_def Let_def result_simps starts_with_iff)
  have len: "length (b32_encode E b) = 26"
    using assms(1) b(1) by (simp add: base32_laws_def)
  have "list_all (\<lambda>c. is_ascii_lowercase c \<or> is_ascii_digit c) (to_ascii_lower (b32_encode E b))"
    using assms(1) upper_lower_b32 by (auto simp: base32_laws_def)
  moreover have "length (to_ascii_lower (b32_encode E b)) = 26"
    using len by (simp add: to_ascii_lower_def)
  ultimately show ?thesis
    using b
    by (auto simp: validate_id_ok list_all_iff is_ascii_lowercase_def is_ascii_digit_def byte_of_def)
qed

lemma validate_listed_ok:
  assumes "validate_listed E user ds ks rs = Inr u"
  shows "(\<forall>r \<in> set rs. verify E r = Inr () \<and> rp_user_id (dr_payload r) = user) \<and>
    distinct (map (rp_device_id \<circ> dr_payload) rs) \<and>
    distinct (map (rp_nats_public_key \<circ> dr_payload) rs) \<and>
    set (map (rp_device_id \<circ> dr_payload) rs) \<inter> set ds = {} \<and>
    set (map (rp_nats_public_key \<circ> dr_payload) rs) \<inter> set ks = {}"
  using assms
proof (induction rs arbitrary: ds ks)
  case (Cons r rs)
  let ?d = "rp_device_id (dr_payload r)" and ?k = "rp_nats_public_key (dr_payload r)"
  have r: "verify E r = Inr ()" "rp_user_id (dr_payload r) = user" "?d \<notin> set ds" "?k \<notin> set ks"
    and rest: "validate_listed E user (?d # ds) (?k # ks) rs = Inr u"
    using Cons.prems by (auto simp: result_simps)
  from Cons.IH[OF rest] r show ?case by auto
qed simp

end
