(* ===== verification/Machine.thy ===== *)
theory Machine
  imports Prelude
begin

text \<open>
  Interfaces shared by the stateful components: a step function with an invariant, a step
  function that only moves up in a preorder, and fallible operations that roll back. The
  predicate \<open>adm\<close> restricts the inputs to the ones the environment can supply. The lemmas about
  whole runs are proved here once; each component interprets the locales on its own operations.
\<close>

locale invariant_machine =
  fixes step :: "'s \<Rightarrow> 'o \<Rightarrow> 's"
    and inv :: "'s \<Rightarrow> bool"
    and adm :: "'o \<Rightarrow> bool"
  assumes inv_step: "inv s \<Longrightarrow> adm x \<Longrightarrow> inv (step s x)"
begin

lemma run_inv: "inv s \<Longrightarrow> list_all adm xs \<Longrightarrow> inv (foldl step s xs)"
  by (induction xs arbitrary: s) (auto intro: inv_step)

end

locale monotone_machine = invariant_machine step inv adm
  for step :: "'s \<Rightarrow> 'o \<Rightarrow> 's" and inv :: "'s \<Rightarrow> bool" and adm :: "'o \<Rightarrow> bool" +
  fixes le :: "'s \<Rightarrow> 's \<Rightarrow> bool"
  assumes le_refl: "le s s"
    and le_trans: "le s t \<Longrightarrow> le t u \<Longrightarrow> le s u"
    and le_step: "inv s \<Longrightarrow> adm x \<Longrightarrow> le s (step s x)"
begin

lemma run_le: "inv s \<Longrightarrow> list_all adm xs \<Longrightarrow> le s (foldl step s xs)"
proof (induction xs arbitrary: s)
  case (Cons x xs)
  then have "le s (step s x)" "le (step s x) (foldl step (step s x) xs)"
    by (auto intro: le_step inv_step)
  then show ?case using le_trans by auto
qed (simp add: le_refl)

text \<open>Every state of a run is below every later state of the run.\<close>

lemma run_le_later:
  "inv s \<Longrightarrow> list_all adm (xs @ ys) \<Longrightarrow> le (foldl step s xs) (foldl step s (xs @ ys))"
  using run_le[OF run_inv] by simp

end

text \<open>
  Operations that may fail: a failing operation leaves the state as it was, so the invariant
  needs to be shown for the successful outcomes only.
\<close>

definition commit_step :: "('o \<Rightarrow> 's \<Rightarrow> 's result) \<Rightarrow> 's \<Rightarrow> 'o \<Rightarrow> 's" where
  "commit_step op_r s x = (case op_r x s of Inl e \<Rightarrow> s | Inr s' \<Rightarrow> s')"

locale transactional_machine =
  fixes op_r :: "'o \<Rightarrow> 's \<Rightarrow> 's result"
    and inv :: "'s \<Rightarrow> bool"
    and adm :: "'o \<Rightarrow> bool"
  assumes inv_op: "inv s \<Longrightarrow> adm x \<Longrightarrow> op_r x s = Inr s' \<Longrightarrow> inv s'"
begin

lemma commit_inv: "inv s \<Longrightarrow> adm x \<Longrightarrow> inv (commit_step op_r s x)"
  by (auto simp: commit_step_def intro: inv_op split: sum.splits)

end

sublocale transactional_machine \<subseteq> committed_run: invariant_machine "commit_step op_r" inv adm
  by unfold_locales (rule commit_inv)

end
