(* ===== verification/Capacity.thy ===== *)
theory Capacity
  imports Machine
begin

unbundle bit_operations_syntax

text \<open>
  The capacity policy of \<open>capacity.rs\<close>: the declared limits with their admissible ranges, the
  database high-water check, and the integer token bucket that admits requests. The bucket is
  kept at the width of the source (\<open>u64\<close> state, \<open>u128\<close> intermediate product) and refined to a
  bucket over natural numbers.
\<close>

section \<open>The policy\<close>

record capacity =
  cap_version :: nat
  retained_users :: nat
  retained_devices :: nat
  devices_per_user :: nat
  retained_tokens :: nat
  retained_groups :: nat
  membership_edges :: nat
  groups_per_device :: nat
  pending_messages :: nat
  pending_bytes :: nat
  database_bytes :: nat
  recovery_bytes :: nat
  requests_per_second :: nat
  request_burst :: nat
  chat_bytes :: nat
  mailbox_bytes :: nat
  directory_bytes :: nat
  channels_bytes :: nat
  transparency_bytes :: nat

definition REGISTRATION_BYTES :: nat where
  "REGISTRATION_BYTES = 1536"

definition OUTBOX_BATCH :: nat where
  "OUTBOX_BATCH = 16"

definition default_capacity :: capacity where
  "default_capacity = \<lparr>
     cap_version = 1,
     retained_users = 32,
     retained_devices = 32,
     devices_per_user = 8,
     retained_tokens = 256,
     retained_groups = 32,
     membership_edges = 512,
     groups_per_device = 16,
     pending_messages = 256,
     pending_bytes = 4 * 1024 * 1024,
     database_bytes = 256 * 1024 * 1024,
     recovery_bytes = 16 * 1024 * 1024,
     requests_per_second = 32,
     request_burst = 64,
     chat_bytes = 64 * 1024 * 1024,
     mailbox_bytes = 16 * 1024 * 1024,
     directory_bytes = 1024 * 1024,
     channels_bytes = 1024 * 1024,
     transparency_bytes = 1024 * 1024\<rparr>"

definition ranges_ok :: "capacity \<Rightarrow> bool" where
  "ranges_ok c \<longleftrightarrow> list_all (\<lambda>(v, ceiling). v > 0 \<and> v \<le> ceiling)
     [(retained_users c, 32),
      (retained_devices c, 32),
      (devices_per_user c, 32),
      (retained_tokens c, 4096),
      (retained_groups c, 128),
      (membership_edges c, 4096),
      (groups_per_device c, 16),
      (pending_messages c, 4096),
      (pending_bytes c, 64 * 1024 * 1024),
      (database_bytes c, 16 * 1024 * 1024 * 1024),
      (recovery_bytes c, 1024 * 1024 * 1024),
      (requests_per_second c, 1024),
      (request_burst c, 1024)]"

definition broker_budgets_ok :: "capacity \<Rightarrow> bool" where
  "broker_budgets_ok c \<longleftrightarrow> list_all (\<lambda>b. 262144 \<le> b \<and> b \<le> 1024 * 1024 * 1024 * 1024)
     [chat_bytes c, mailbox_bytes c, directory_bytes c, channels_bytes c, transparency_bytes c]"

definition capacity_validate :: "capacity \<Rightarrow> unit result" where
  "capacity_validate c =
     ensure (cap_version c = 1) ''unsupported capacity version''
     (ensure (ranges_ok c) ''capacity range invalid''
     (ensure (devices_per_user c \<le> retained_devices c) ''device capacity inconsistent''
     (ensure (recovery_bytes c < database_bytes c) ''recovery reserve must fit database budget''
     (ensure (broker_budgets_ok c) ''broker byte budget out of range'' (Inr ())))))"

text \<open>
  \<open>check_database\<close> on the page count and page size SQLite reports (\<open>None\<close> for a page size that
  is not a number). The product is a checked multiplication.
\<close>

definition database_limit :: "capacity \<Rightarrow> bool \<Rightarrow> nat" where
  "database_limit c reserve = database_bytes c - (if reserve then 0 else recovery_bytes c)"

definition check_database :: "capacity \<Rightarrow> nat \<times> nat option \<Rightarrow> bool \<Rightarrow> unit result" where
  "check_database c pager reserve =
     bind_r (or_err (snd pager) (Anyhow ''invalid database page size'')) (\<lambda>size.
     ensure (fst pager * size \<le> U64_MAX \<and> fst pager * size \<le> database_limit c reserve)
       ''capacity exhausted: database; operator storage increase required'' (Inr ()))"

section \<open>The token bucket\<close>

definition sat_add64 :: "u64 \<Rightarrow> u64 \<Rightarrow> u64" where
  "sat_add64 a b = (if unat a + unat b \<ge> 2 ^ 64 then - 1 else a + b)"

definition sat_mul128 :: "u128 \<Rightarrow> u128 \<Rightarrow> u128" where
  "sat_mul128 a b = (if unat a * unat b \<ge> 2 ^ 128 then - 1 else a * b)"

text \<open>Nanoseconds of a duration as \<open>u128\<close>; a representable duration never reaches the cap.\<close>

definition as_nanos :: "nat \<Rightarrow> u128" where
  "as_nanos d = of_nat (min d (2 ^ 128 - 1))"

record rate_limit =
  rt_tokens :: u64
  rt_last :: nat
  rt_rate :: u64
  rt_burst :: u64

definition rate_new :: "32 word \<Rightarrow> 32 word \<Rightarrow> nat \<Rightarrow> rate_limit" where
  "rate_new rate burst now = \<lparr>
     rt_tokens = ucast burst * 1000000000,
     rt_last = now,
     rt_rate = ucast rate,
     rt_burst = ucast burst * 1000000000\<rparr>"

definition allow :: "nat \<Rightarrow> rate_limit \<Rightarrow> rate_limit \<times> bool" where
  "allow now r =
     (let elapsed = as_nanos (now - rt_last r);
          credit = ucast (min (sat_mul128 elapsed (ucast (rt_rate r))) (ucast (rt_burst r))) :: u64;
          tokens = min (sat_add64 (rt_tokens r) credit) (rt_burst r);
          last = max now (rt_last r)
      in if tokens < 1000000000 then (r\<lparr>rt_tokens := tokens, rt_last := last\<rparr>, False)
         else (r\<lparr>rt_tokens := tokens - 1000000000, rt_last := last\<rparr>, True))"

section \<open>The bucket over natural numbers\<close>

record bucket =
  bk_tokens :: nat
  bk_last :: nat
  bk_rate :: nat
  bk_burst :: nat

definition refill :: "nat \<Rightarrow> bucket \<Rightarrow> nat" where
  "refill now b = min (bk_burst b) (bk_tokens b + bk_rate b * (now - bk_last b))"

definition bucket_allow :: "nat \<Rightarrow> bucket \<Rightarrow> bucket \<times> bool" where
  "bucket_allow now b =
     (if refill now b < 1000000000
      then (b\<lparr>bk_tokens := refill now b, bk_last := max now (bk_last b)\<rparr>, False)
      else (b\<lparr>bk_tokens := refill now b - 1000000000, bk_last := max now (bk_last b)\<rparr>, True))"

definition abs_rate :: "rate_limit \<Rightarrow> bucket" where
  "abs_rate r = \<lparr>bk_tokens = unat (rt_tokens r), bk_last = rt_last r,
     bk_rate = unat (rt_rate r), bk_burst = unat (rt_burst r)\<rparr>"

definition rate_ok :: "rate_limit \<Rightarrow> bool" where
  "rate_ok r \<longleftrightarrow> rt_tokens r \<le> rt_burst r"

fun admitted :: "nat list \<Rightarrow> rate_limit \<Rightarrow> rate_limit \<times> nat" where
  "admitted [] r = (r, 0)"
| "admitted (t # ts) r =
     (case allow t r of (r', ok) \<Rightarrow>
        (case admitted ts r' of (r'', n) \<Rightarrow> (r'', (if ok then 1 else 0) + n)))"

section \<open>Lemmas\<close>

lemma capacity_validate_ok:
  "capacity_validate c = Inr u \<longleftrightarrow> cap_version c = 1 \<and> ranges_ok c \<and>
     devices_per_user c \<le> retained_devices c \<and> recovery_bytes c < database_bytes c \<and>
     broker_budgets_ok c"
  by (simp add: capacity_validate_def result_simps)

lemma check_database_ok:
  "check_database c pager reserve = Inr u \<longleftrightarrow> (\<exists>size. snd pager = Some size \<and>
     fst pager * size \<le> U64_MAX \<and> fst pager * size \<le> database_limit c reserve)"
  by (auto simp: check_database_def result_simps)

lemma check_database_mono:
  "check_database c pager False = Inr u \<Longrightarrow> check_database c pager True = Inr u"
  by (auto simp: check_database_ok database_limit_def)

lemma unat_max_word:
  "unat (- 1 :: u64) = 2 ^ 64 - 1" "unat (- 1 :: u128) = 2 ^ 128 - 1"
  by (simp_all add: unsigned_minus_1_eq_mask mask_eq_exp_minus_1)

lemma unat_less_u64: "unat (w :: u64) < 2 ^ 64"
  using unsigned_less[of w, where ?'a = nat] by simp

lemma unat_sat_add64: "unat (sat_add64 a b) = min (unat a + unat b) (2 ^ 64 - 1)"
  by (auto simp: sat_add64_def unat_word_ariths unat_max_word)

lemma unat_sat_mul128: "unat (sat_mul128 a b) = min (unat a * unat b) (2 ^ 128 - 1)"
  by (auto simp: sat_mul128_def unat_word_ariths unat_max_word)

lemma unat_as_nanos: "unat (as_nanos d) = min d (2 ^ 128 - 1)"
  by (simp add: as_nanos_def unat_of_nat)

lemma unat_ucast_64_128: "unat (ucast (w :: u64) :: u128) = unat w"
  using unsigned_less[of w, where ?'a = nat]
  by (simp add: unsigned_ucast_eq take_bit_nat_eq_self_iff)

lemma unat_min: "unat (min a b) = min (unat a) (unat (b :: 'a::len word))"
  by (simp add: min_def word_le_nat_alt)

lemma saturated_credit:
  fixes e rate B M :: nat
  assumes "B \<le> M"
  shows "min (min (min e M * rate) M) B = min (rate * e) B"
proof (cases "e \<le> M")
  case True
  with assms show ?thesis by (simp add: mult.commute min.assoc min.absorb2)
next
  case False
  show ?thesis
  proof (cases "rate = 0")
    case False
    have M: "M \<le> M * rate" using False by (cases rate) auto
    have "B \<le> rate * e" using assms \<open>\<not> e \<le> M\<close> False
      by (metis le_trans linear mult.commute mult_le_mono1 mult_le_mono2 M)
    have "min (min e M * rate) M = M" using M \<open>\<not> e \<le> M\<close> by (simp add: min.absorb2)
    then show ?thesis using assms \<open>B \<le> rate * e\<close> by (simp add: min.absorb2)
  qed simp
qed

lemma unat_credit:
  "unat (ucast (min (sat_mul128 (as_nanos e) (ucast (rate :: u64))) (ucast (burst :: u64))) :: u64) =
     min (unat rate * e) (unat burst)"
proof -
  let ?x = "min (sat_mul128 (as_nanos e) (ucast rate)) (ucast burst) :: u128"
  have "unat ?x = min (min (min e (2 ^ 128 - 1) * unat rate) (2 ^ 128 - 1)) (unat burst)"
    by (simp only: unat_min unat_sat_mul128 unat_as_nanos unat_ucast_64_128)
  also have "\<dots> = min (unat rate * e) (unat burst)"
    using unat_less_u64[of burst] by (intro saturated_credit) simp
  finally have x: "unat ?x = min (unat rate * e) (unat burst)" .
  then have "unat ?x < 2 ^ 64" using unat_less_u64[of burst] by linarith
  then have "unat (ucast ?x :: u64) = unat ?x"
    by (simp add: unsigned_ucast_eq take_bit_nat_eq_self_iff)
  then show ?thesis using x by simp
qed

lemma unat_refilled:
  "unat (min (sat_add64 (rt_tokens r)
      (ucast (min (sat_mul128 (as_nanos (now - rt_last r)) (ucast (rt_rate r))) (ucast (rt_burst r)))))
      (rt_burst r)) = refill now (abs_rate r)"
  using unat_less_u64[of "rt_burst r"]
  by (simp only: unat_min unat_sat_add64 unat_credit) (auto simp: refill_def abs_rate_def min_def)

lemma allow_cases:
  "allow now r =
     (let tokens = min (sat_add64 (rt_tokens r)
        (ucast (min (sat_mul128 (as_nanos (now - rt_last r)) (ucast (rt_rate r))) (ucast (rt_burst r)))))
        (rt_burst r)
      in if refill now (abs_rate r) < 1000000000
         then (r\<lparr>rt_tokens := tokens, rt_last := max now (rt_last r)\<rparr>, False)
         else (r\<lparr>rt_tokens := tokens - 1000000000, rt_last := max now (rt_last r)\<rparr>, True))"
proof -
  have "(min (sat_add64 (rt_tokens r)
      (ucast (min (sat_mul128 (as_nanos (now - rt_last r)) (ucast (rt_rate r))) (ucast (rt_burst r)))))
      (rt_burst r) < 1000000000) = (refill now (abs_rate r) < 1000000000)"
    unfolding unat_refilled[symmetric] by (simp add: word_less_nat_alt)
  then show ?thesis by (simp add: allow_def Let_def)
qed

lemma allow_refines: "map_prod abs_rate id (allow now r) = bucket_allow now (abs_rate r)"
proof (cases "refill now (abs_rate r) < 1000000000")
  case True
  then show ?thesis
    using unat_refilled[of r now] by (simp add: allow_cases bucket_allow_def abs_rate_def Let_def)
next
  case False
  let ?t = "min (sat_add64 (rt_tokens r)
      (ucast (min (sat_mul128 (as_nanos (now - rt_last r)) (ucast (rt_rate r))) (ucast (rt_burst r)))))
      (rt_burst r)"
  have "unat (1000000000 :: u64) \<le> unat ?t" using False unfolding unat_refilled by simp
  then have "unat (?t - 1000000000) = unat ?t - 1000000000"
    by (simp add: unat_sub word_le_nat_alt)
  then have "unat (?t - 1000000000) = refill now (abs_rate r) - 1000000000"
    by (simp only: unat_refilled)
  then show ?thesis using False by (simp add: allow_cases bucket_allow_def abs_rate_def Let_def)
qed

lemma bucket_allow_account:
  assumes "bucket_allow now b = (b', ok)"
  shows "bk_rate b' = bk_rate b \<and> bk_burst b' = bk_burst b \<and> bk_last b \<le> bk_last b' \<and>
    bk_tokens b' \<le> bk_burst b \<and>
    bk_tokens b' + (if ok then 1000000000 else 0) \<le>
      bk_tokens b + bk_rate b * (bk_last b' - bk_last b) \<and>
    bk_last b' = max now (bk_last b)"
proof -
  have "now - bk_last b = max now (bk_last b) - bk_last b" by simp
  then have "refill now b \<le> bk_tokens b + bk_rate b * (max now (bk_last b) - bk_last b)"
    "refill now b \<le> bk_burst b"
    by (simp_all add: refill_def)
  then show ?thesis
    using assms by (auto simp: bucket_allow_def split: if_splits)
qed

lemma allow_account:
  assumes "allow now r = (r', ok)"
  shows "rt_rate r' = rt_rate r" "rt_burst r' = rt_burst r" "rt_last r' = max now (rt_last r)"
    "unat (rt_tokens r') \<le> unat (rt_burst r)"
    "unat (rt_tokens r') + (if ok then 1000000000 else 0) \<le>
       unat (rt_tokens r) + unat (rt_rate r) * (rt_last r' - rt_last r)"
proof -
  have "bucket_allow now (abs_rate r) = (abs_rate r', ok)"
    using allow_refines[of now r] assms by simp
  note acc = bucket_allow_account[OF this, unfolded abs_rate_def, simplified bucket.simps]
  show "rt_last r' = max now (rt_last r)" "unat (rt_tokens r') \<le> unat (rt_burst r)"
    using acc by blast+
  show "unat (rt_tokens r') + (if ok then 1000000000 else 0) \<le>
       unat (rt_tokens r) + unat (rt_rate r) * (rt_last r' - rt_last r)"
    using acc by blast
qed (use assms in \<open>auto simp: allow_def Let_def split: if_splits\<close>)

interpretation rate_machine: monotone_machine "\<lambda>r now. fst (allow now r)" rate_ok "\<lambda>_. True"
  "\<lambda>r r'. rt_last r \<le> rt_last r' \<and> rt_rate r' = rt_rate r \<and> rt_burst r' = rt_burst r"
proof (unfold_locales, goal_cases)
  case (1 s x)
  then show ?case
    using allow_account(2,4)[of x s "fst (allow x s)" "snd (allow x s)"]
    by (simp add: rate_ok_def word_le_nat_alt)
next
  case (4 s x)
  then show ?case using allow_account(1-3)[of x s "fst (allow x s)" "snd (allow x s)"] by simp
qed auto

text \<open>The account of a whole sequence of requests, whatever the clock does.\<close>

lemma admitted_account:
  assumes "admitted ts r = (r', n)"
  shows "rt_rate r' = rt_rate r \<and> rt_last r \<le> rt_last r' \<and>
    n * 1000000000 + unat (rt_tokens r') \<le>
      unat (rt_tokens r) + unat (rt_rate r) * (rt_last r' - rt_last r)"
  using assms
proof (induction ts arbitrary: r r' n)
  case (Cons t ts)
  obtain r1 ok where a: "allow t r = (r1, ok)" by fastforce
  obtain m where m: "admitted ts r1 = (r', m)" "n = (if ok then 1 else 0) + m"
    using Cons.prems a by (auto split: prod.splits)
  note IH = Cons.IH[OF m(1)] and acc = allow_account[OF a]
  have l: "rt_last r \<le> rt_last r1" "rt_last r1 \<le> rt_last r'" using acc(3) IH by auto
  have "unat (rt_rate r) * (rt_last r1 - rt_last r) + unat (rt_rate r) * (rt_last r' - rt_last r1) =
      unat (rt_rate r) * (rt_last r' - rt_last r)"
    using l by (simp flip: distrib_left)
  then show ?case using IH acc l m(2) by (auto split: if_splits)
qed simp

end
