(* ===== verification/AuditLog.thy ===== *)
theory AuditLog
  imports Identity Capacity Machine
begin

text \<open>
  The bounded audit store of \<open>audit.rs\<close>: an append-only event table with a durable state row, a
  reserve that only security-reducing operations may use, explicit retention and pruning, and
  the intent/result records around external effects. The invariant says that the retained
  sequence numbers are contiguous and that the counters of the state row are exact.
\<close>

section \<open>Events\<close>

datatype kind =
    TokenIssued | DeviceEnrolled | DeviceActivated | DeviceRevoked | PolicyCommitted
  | PolicyRejected | Admission | ResponseConstructed | Reconciliation | RegistrationPublication
  | RevocationPublication | AuthorityStarted | WorkerSessionStarted | WorkerSessionEnded
  | AdmissionGate | ObservationLoss | StorageRecovered | Export | Prune | RetentionChanged
  | DenialSummary

datatype stage = Committed | Intent | Result | Observation

datatype outcome = Succeeded | Failed | Unknown | Denied

datatype actor = LocalOperator | VerifiedDevice | BoundWorker | Authority | Unverified

datatype reason =
    Verified | ReasonRejected | ExternalEffect | LocalArtifact | ExplicitPrune
  | CoverageUncertain | IdempotentRetry

record event =
  e_kind :: kind
  e_stage :: stage
  e_outcome :: outcome
  e_reason :: reason
  e_actor :: actor
  e_count :: nat
  e_actor_reference :: "string option"
  e_target_reference :: "string option"
  e_generation :: "nat option"
  e_window_seconds :: "nat option"
  e_sequence_boundary :: "nat option"

definition committed :: "kind \<Rightarrow> event" where
  "committed k = \<lparr>e_kind = k, e_stage = Committed, e_outcome = Succeeded, e_reason = Verified,
     e_actor = Authority, e_count = 1, e_actor_reference = None, e_target_reference = None,
     e_generation = None, e_window_seconds = None, e_sequence_boundary = None\<rparr>"

definition reference_ok :: "string \<Rightarrow> bool" where
  "reference_ok s \<longleftrightarrow> length s = 32 \<and> list_all is_hex_lower s"

definition reference_try_from :: "string \<Rightarrow> string result" where
  "reference_try_from s = ensure (reference_ok s) ''invalid audit reference'' (Inr s)"

datatype timestamp_quality = UntrustedWallClock | Unavailable

record audit_record =
  ar_version :: nat
  ar_store_id :: string
  ar_sequence :: nat
  ar_process_instance :: string
  ar_operation :: string
  ar_wall_seconds :: "int option"
  ar_timestamp_quality :: timestamp_quality
  ar_event :: event

section \<open>The store\<close>

text \<open>
  The \<open>audit_state\<close> row, the \<open>audit_pending\<close> and \<open>audit_events\<close> tables and the schema version.
\<close>

record audit_db =
  ad_schema :: nat
  ad_store_id :: string
  ad_next_sequence :: nat
  ad_retained_from :: nat
  ad_events_count :: nat
  ad_bytes :: nat
  ad_gaps :: bool
  ad_policy_version :: nat
  ad_prune_through :: nat
  ad_degraded :: bool
  ad_pending :: "(string \<times> string) list"
  ad_events :: "(nat \<times> string) list"

definition MAX_EVENTS :: nat where "MAX_EVENTS = 100000"

definition MAX_BYTES :: nat where "MAX_BYTES = 33554432"

definition RESERVE_EVENTS :: nat where "RESERVE_EVENTS = 1024"

definition RESERVE_BYTES :: nat where "RESERVE_BYTES = 2097152"

definition MAX_EVENT_BYTES :: nat where "MAX_EVENT_BYTES = 2048"

text \<open>
  \<open>serde_json\<close> is third-party: writing and reading a record, and writing a kind. The environment
  of one call holds the wall clock, the process instance and the fresh operation id that
  \<open>opaque\<close> draws; each of them may be unavailable.
\<close>

record authority_ext = externals +
  json_record :: "audit_record \<Rightarrow> string option"
  json_parse :: "string \<Rightarrow> audit_record option"
  json_kind :: "kind \<Rightarrow> string option"

record audit_env =
  ae_now :: "int option"
  ae_instance :: "string option"
  ae_opaque :: "string option"

record info =
  in_schema :: nat
  in_store_id :: string
  in_retained_from :: nat
  in_upper_sequence :: nat
  in_events :: nat
  in_bytes :: nat
  in_event_limit :: nat
  in_byte_limit :: nat
  in_known_coverage_gaps :: bool
  in_policy_version :: nat
  in_prune_through :: nat
  in_unresolved_effects :: nat
  in_degraded :: bool

definition audit_info :: "audit_db \<Rightarrow> info result" where
  "audit_info db =
     ensure (ad_schema db = 3) ''unsupported audit schema''
     (ensure_e (1 \<le> ad_next_sequence db) (Sql ''integer out of range'')
     (let st = \<lparr>in_schema = 1, in_store_id = ad_store_id db, in_retained_from = ad_retained_from db,
          in_upper_sequence = ad_next_sequence db - 1, in_events = ad_events_count db,
          in_bytes = ad_bytes db, in_event_limit = MAX_EVENTS, in_byte_limit = MAX_BYTES,
          in_known_coverage_gaps = ad_gaps db,
          in_policy_version = ad_policy_version db, in_prune_through = ad_prune_through db,
          in_unresolved_effects = length (ad_pending db), in_degraded = ad_degraded db\<rparr> in
      bind_r (reference_try_from (in_store_id st)) (\<lambda>_.
      ensure (in_retained_from st > 0 \<and> in_retained_from st \<le> in_upper_sequence st + 1 \<and>
          in_upper_sequence st < I64_MAX \<and> in_events st \<le> MAX_EVENTS \<and> in_bytes st \<le> MAX_BYTES \<and>
          in_policy_version st > 0 \<and> in_prune_through st \<le> in_upper_sequence st \<and>
          in_unresolved_effects st \<le> 256)
        ''invalid audit metadata'' (Inr st))))"

definition event_limit :: "bool \<Rightarrow> nat" where
  "event_limit reserve = MAX_EVENTS - (if reserve then 0 else RESERVE_EVENTS)"

definition byte_limit :: "bool \<Rightarrow> nat" where
  "byte_limit reserve = MAX_BYTES - (if reserve then 0 else RESERVE_BYTES)"

text \<open>
  \<open>append_operation\<close>, always called inside a transaction of the caller. The insertion obeys the
  table's primary key.
\<close>

definition make_record ::
    "audit_env \<Rightarrow> string \<Rightarrow> nat \<Rightarrow> string \<Rightarrow> string \<Rightarrow> event \<Rightarrow> audit_record" where
  "make_record env store sequence instance_id operation ev =
     \<lparr>ar_version = 1, ar_store_id = store, ar_sequence = sequence,
       ar_process_instance = instance_id, ar_operation = operation,
       ar_wall_seconds = ae_now env,
       ar_timestamp_quality = (if ae_now env = None then Unavailable else UntrustedWallClock),
       ar_event = ev\<rparr>"

definition insert_event :: "nat \<Rightarrow> string \<Rightarrow> audit_db \<Rightarrow> audit_db result" where
  "insert_event sequence payload db =
     bind_r (insert_row fst (sequence, payload) (ad_events db)) (\<lambda>events.
     Inr (db\<lparr>ad_events := events, ad_next_sequence := sequence + 1,
       ad_events_count := ad_events_count db + 1, ad_bytes := ad_bytes db + length payload\<rparr>))"

definition append_operation ::
    "'z authority_ext_scheme \<Rightarrow> audit_env \<Rightarrow> event \<Rightarrow> bool \<Rightarrow> string \<Rightarrow> audit_db
      \<Rightarrow> (nat \<times> audit_db) result" where
  "append_operation E env ev reserve operation db =
     bind_r (reference_try_from operation) (\<lambda>_.
     bind_r (audit_info db) (\<lambda>st.
     ensure (reserve \<or> \<not> in_degraded st) ''audit storage requires recovery''
     (let sequence = in_upper_sequence st + 1 in
      ensure (sequence < I64_MAX) ''audit sequence exhausted''
      (bind_r (or_err (ae_instance env) (Anyhow ''audit randomness unavailable'')) (\<lambda>instance_id.
       bind_r (or_err (json_record E (make_record env (in_store_id st) sequence instance_id operation ev))
         (Extern ''serde_json'')) (\<lambda>payload.
       ensure (length payload \<le> MAX_EVENT_BYTES) ''audit event exceeds limit''
       (ensure (in_events st < event_limit reserve \<and>
           in_bytes st + length payload \<le> byte_limit reserve)
         ''audit capacity exhausted''
       (bind_r (insert_event sequence payload db) (\<lambda>db'. Inr (sequence, db'))))))))))"

definition audit_append ::
    "'z authority_ext_scheme \<Rightarrow> audit_env \<Rightarrow> event \<Rightarrow> bool \<Rightarrow> audit_db \<Rightarrow> (nat \<times> audit_db) result" where
  "audit_append E env ev reserve db =
     bind_r (or_err (ae_opaque env) (Anyhow ''audit randomness unavailable'')) (\<lambda>operation.
     append_operation E env ev reserve operation db)"

text \<open>The pager reports page count and page size of the database that holds the given tables.\<close>

type_synonym pager = "audit_db \<Rightarrow> nat \<times> nat option"

text \<open>A failed recording marks the loss of coverage instead of failing the caller.\<close>

definition degrade :: "audit_db \<Rightarrow> audit_db" where
  "degrade db = db\<lparr>ad_gaps := True, ad_degraded := True\<rparr>"

definition repair ::
    "'z authority_ext_scheme \<Rightarrow> audit_env \<Rightarrow> capacity \<Rightarrow> pager \<Rightarrow> event \<Rightarrow> audit_db \<Rightarrow> audit_db" where
  "repair E env c P ev db =
     (case bind_r (audit_append E env ev True db) (\<lambda>(_, db').
             bind_r (check_database c (P db') True) (\<lambda>_. Inr db')) of
        Inl _ \<Rightarrow> degrade db
      | Inr db' \<Rightarrow> db')"

fun audit_batch_loop ::
    "'z authority_ext_scheme \<Rightarrow> audit_env list \<Rightarrow> event list \<Rightarrow> audit_db \<Rightarrow> audit_db result" where
  "audit_batch_loop E envs [] db = Inr db"
| "audit_batch_loop E [] (ev # evs) db = Inl (Anyhow ''audit randomness unavailable'')"
| "audit_batch_loop E (env # envs) (ev # evs) db =
     bind_r (audit_append E env ev False db) (\<lambda>(_, db'). audit_batch_loop E envs evs db')"

text \<open>\<open>audit_batch\<close> draws a fresh environment for each event.\<close>

definition audit_batch ::
    "'z authority_ext_scheme \<Rightarrow> audit_env list \<Rightarrow> capacity \<Rightarrow> pager \<Rightarrow> event list \<Rightarrow> audit_db
      \<Rightarrow> (unit \<times> audit_db) result" where
  "audit_batch E envs c P events db =
     ensure (length events \<le> 256) ''audit batch exceeds bound''
     (bind_r (audit_batch_loop E envs events db) (\<lambda>db'.
      bind_r (check_database c (P db') False) (\<lambda>_. Inr ((), db'))))"

definition audit_correlated ::
    "'z authority_ext_scheme \<Rightarrow> audit_env \<Rightarrow> capacity \<Rightarrow> pager \<Rightarrow> event \<Rightarrow> string \<Rightarrow> audit_db
      \<Rightarrow> (unit \<times> audit_db) result" where
  "audit_correlated E env c P ev operation db =
     bind_r (append_operation E env ev False operation db) (\<lambda>(_, db').
     bind_r (check_database c (P db') False) (\<lambda>_. Inr ((), db')))"

definition audit_event ::
    "'z authority_ext_scheme \<Rightarrow> audit_env \<Rightarrow> capacity \<Rightarrow> pager \<Rightarrow> event \<Rightarrow> audit_db
      \<Rightarrow> (nat \<times> audit_db) result" where
  "audit_event E env c P ev db =
     bind_r (audit_append E env ev False db) (\<lambda>(sequence, db').
     bind_r (check_database c (P db') False) (\<lambda>_. Inr (sequence, db')))"

section \<open>Retention, pruning, recovery\<close>

definition set_retention ::
    "'z authority_ext_scheme \<Rightarrow> audit_env \<Rightarrow> capacity \<Rightarrow> pager \<Rightarrow> nat \<Rightarrow> audit_db
      \<Rightarrow> (unit \<times> audit_db) result" where
  "set_retention E env c P through db =
     bind_r (audit_info db) (\<lambda>st.
     ensure (through \<le> in_upper_sequence st) ''retention boundary exceeds history''
     (let db1 = db\<lparr>ad_prune_through := through, ad_policy_version := ad_policy_version db + 1\<rparr>;
          ev = (committed RetentionChanged)\<lparr>e_actor := LocalOperator,
            e_generation := Some (in_policy_version st + 1), e_sequence_boundary := Some through\<rparr> in
      bind_r (audit_append E env ev True db1) (\<lambda>(_, db2).
      bind_r (check_database c (P db2) True) (\<lambda>_. Inr ((), db2)))))"

record prune_summary =
  pr_eligible :: nat
  pr_deleted :: nat
  pr_retained_from :: nat

text \<open>The rows one invocation removes: the 256 oldest ones up to the boundary.\<close>

definition prune_rows :: "nat \<Rightarrow> audit_db \<Rightarrow> (nat \<times> string) list" where
  "prune_rows through db =
     take 256 (sort_key fst (filter (\<lambda>(q, _). q \<le> through) (ad_events db)))"

definition prune_event :: "nat \<Rightarrow> nat \<Rightarrow> nat \<Rightarrow> event" where
  "prune_event n last_seq policy = (committed Prune)\<lparr>e_reason := ExplicitPrune,
     e_actor := LocalOperator, e_count := n, e_sequence_boundary := Some last_seq,
     e_generation := Some policy\<rparr>"

definition remove_rows :: "nat \<Rightarrow> nat \<Rightarrow> nat \<Rightarrow> audit_db \<Rightarrow> audit_db" where
  "remove_rows last_seq n freed db =
     db\<lparr>ad_events := delete_where (\<lambda>(q, _). q \<le> last_seq) (ad_events db),
       ad_retained_from := last_seq + 1, ad_events_count := ad_events_count db - n,
       ad_bytes := ad_bytes db - freed\<rparr>"

text \<open>The statement in front of the transaction reads the summary, the transaction removes.\<close>

definition prune_tx ::
    "'z authority_ext_scheme \<Rightarrow> audit_env \<Rightarrow> nat \<Rightarrow> nat \<Rightarrow> prune_summary \<Rightarrow> audit_db
      \<Rightarrow> (prune_summary \<times> audit_db) result" where
  "prune_tx E env through policy summary db =
     (let rows = prune_rows through db;
          last_seq = Max (fst ` set rows);
          n = length rows;
          freed = sum_list (map (length \<circ> snd) rows) in
      bind_r (audit_append E env (prune_event n last_seq policy) True (remove_rows last_seq n freed db))
        (\<lambda>(_, db').
      Inr (summary\<lparr>pr_deleted := n, pr_retained_from := last_seq + 1\<rparr>, db')))"

definition prune ::
    "'z authority_ext_scheme \<Rightarrow> audit_env \<Rightarrow> nat \<Rightarrow> bool \<Rightarrow> audit_db \<Rightarrow> (prune_summary \<times> audit_db) result" where
  "prune E env through apply_it db =
     bind_r (audit_info db) (\<lambda>st.
     ensure (through \<le> in_prune_through st) ''prune exceeds explicit retention policy''
     (let eligible = count_where (\<lambda>(q, _). q \<le> through) (ad_events db);
          summary = \<lparr>pr_eligible = eligible, pr_deleted = 0, pr_retained_from = in_retained_from st\<rparr> in
      if \<not> apply_it \<or> eligible = 0 then Inr (summary, db)
      else prune_tx E env through (in_policy_version st) summary db))"

definition recover ::
    "'z authority_ext_scheme \<Rightarrow> audit_env \<Rightarrow> capacity \<Rightarrow> pager \<Rightarrow> audit_db \<Rightarrow> (unit \<times> audit_db) result" where
  "recover E env c P db =
     bind_r (audit_info db) (\<lambda>st.
     ensure (in_events st + 1 < MAX_EVENTS - RESERVE_EVENTS \<and>
         in_bytes st + MAX_EVENT_BYTES \<le> MAX_BYTES - RESERVE_BYTES)
       ''audit ordinary capacity still exhausted''
     (bind_r (audit_append E env ((committed StorageRecovered)\<lparr>e_actor := LocalOperator\<rparr>) True db)
       (\<lambda>(_, db').
      bind_r (check_database c (P db') False) (\<lambda>_. Inr ((), db'\<lparr>ad_degraded := False\<rparr>)))))"

section \<open>Intent and result of external effects\<close>

definition effect_label ::
    "'z authority_ext_scheme \<Rightarrow> kind \<Rightarrow> string option \<Rightarrow> string result" where
  "effect_label E k target =
     bind_r (or_err (json_kind E k) (Extern ''serde_json'')) (\<lambda>j.
     Inr (j @ '':'' @ (case target of None \<Rightarrow> [] | Some r \<Rightarrow> r)))"

definition intent_event :: "kind \<Rightarrow> string option \<Rightarrow> string option \<Rightarrow> event" where
  "intent_event k target who =
     (let ev = (committed k)\<lparr>e_stage := Intent, e_outcome := Unknown, e_reason := ExternalEffect,
            e_target_reference := target\<rparr> in
      if who \<noteq> None then ev\<lparr>e_actor := VerifiedDevice, e_actor_reference := who\<rparr> else ev)"

definition effect_attempt ::
    "'z authority_ext_scheme \<Rightarrow> audit_env \<Rightarrow> capacity \<Rightarrow> pager \<Rightarrow> kind \<Rightarrow> string option \<Rightarrow> bool
      \<Rightarrow> string option \<Rightarrow> audit_db \<Rightarrow> (string \<times> audit_db) result" where
  "effect_attempt E env c P k target reserve who db =
     bind_r (effect_label E k target) (\<lambda>label.
     (case select_one (\<lambda>r. fst r = label) (ad_pending db) of
        Some (_, operation) \<Rightarrow> Inr (operation, db)
      | None \<Rightarrow>
          ensure (length (ad_pending db) < 256) ''audit pending capacity exhausted''
          (bind_r (or_err (ae_opaque env) (Anyhow ''audit randomness unavailable'')) (\<lambda>operation.
           bind_r (append_operation E env (intent_event k target who) reserve operation db) (\<lambda>(_, db1).
           bind_r (insert_row fst (label, operation) (ad_pending db1)) (\<lambda>pending.
           (let db2 = db1\<lparr>ad_pending := pending\<rparr> in
            bind_r (check_database c (P db2) reserve) (\<lambda>_. Inr (operation, db2)))))))))"

text \<open>A failed attempt rolls back and then marks the loss of coverage.\<close>

definition audit_effect_inner ::
    "'z authority_ext_scheme \<Rightarrow> audit_env \<Rightarrow> capacity \<Rightarrow> pager \<Rightarrow> kind \<Rightarrow> string option \<Rightarrow> bool
      \<Rightarrow> string option \<Rightarrow> audit_db \<Rightarrow> audit_db \<times> string result" where
  "audit_effect_inner E env c P k target reserve who db =
     (case effect_attempt E env c P k target reserve who db of
        Inl e \<Rightarrow> (degrade db, Inl e)
      | Inr (operation, db') \<Rightarrow> (db', Inr operation))"

definition ok :: "'a result \<Rightarrow> 'a option" where
  "ok r = (case r of Inl _ \<Rightarrow> None | Inr x \<Rightarrow> Some x)"

definition audit_effect ::
    "'z authority_ext_scheme \<Rightarrow> audit_env \<Rightarrow> capacity \<Rightarrow> pager \<Rightarrow> kind \<Rightarrow> audit_db
      \<Rightarrow> audit_db \<times> string option" where
  "audit_effect E env c P k db =
     (case audit_effect_inner E env c P k None True None db of (db', r) \<Rightarrow> (db', ok r))"

text \<open>
  \<open>audit_effect_target\<close> and \<open>audit_revocation_intent\<close> take the lookup of a device's audit
  reference in the registry (\<open>audit::reference\<close>) as an argument.
\<close>

definition audit_effect_target ::
    "'z authority_ext_scheme \<Rightarrow> audit_env \<Rightarrow> capacity \<Rightarrow> pager \<Rightarrow> (string \<Rightarrow> string result) \<Rightarrow> kind
      \<Rightarrow> string \<Rightarrow> bool \<Rightarrow> audit_db \<Rightarrow> audit_db \<times> string option result" where
  "audit_effect_target E env c P reference k key required db =
     (case reference key of
        Inl e \<Rightarrow> (db, if required then Inl e else Inr None)
      | Inr target \<Rightarrow>
          (case audit_effect_inner E env c P k (Some target) (\<not> required) None db of
             (db', r) \<Rightarrow> (db', if required then bind_r r (\<lambda>op. Inr (Some op)) else Inr (ok r))))"

definition audit_revocation_intent ::
    "'z authority_ext_scheme \<Rightarrow> audit_env \<Rightarrow> capacity \<Rightarrow> pager \<Rightarrow> (string \<Rightarrow> string result)
      \<Rightarrow> string \<Rightarrow> string \<Rightarrow> audit_db \<Rightarrow> audit_db \<times> string option" where
  "audit_revocation_intent E env c P reference target author db =
     (case audit_effect_inner E env c P RevocationPublication (ok (reference target)) True
        (ok (reference author)) db of (db', r) \<Rightarrow> (db', ok r))"

definition audit_export_start ::
    "'z authority_ext_scheme \<Rightarrow> audit_env \<Rightarrow> capacity \<Rightarrow> pager \<Rightarrow> audit_db \<Rightarrow> (string \<times> audit_db) result" where
  "audit_export_start E env c P db =
     bind_r (or_err (ae_opaque env) (Anyhow ''audit randomness unavailable'')) (\<lambda>operation.
     bind_r (append_operation E env ((committed Export)\<lparr>e_stage := Intent, e_outcome := Unknown,
         e_actor := LocalOperator, e_reason := LocalArtifact\<rparr>) True operation db) (\<lambda>(_, db').
     bind_r (check_database c (P db') True) (\<lambda>_. Inr (operation, db'))))"

definition effect_result_event :: "kind \<Rightarrow> bool \<Rightarrow> event" where
  "effect_result_event k success =
     (let ev = (committed k)\<lparr>e_stage := Result,
            e_outcome := (if success then Succeeded else Failed),
            e_reason := (if k = Export then LocalArtifact else ExternalEffect)\<rparr> in
      if k = Export then ev\<lparr>e_actor := LocalOperator\<rparr> else ev)"

definition effect_result_attempt ::
    "'z authority_ext_scheme \<Rightarrow> audit_env \<Rightarrow> capacity \<Rightarrow> pager \<Rightarrow> kind \<Rightarrow> string \<Rightarrow> bool \<Rightarrow> audit_db
      \<Rightarrow> audit_db result" where
  "effect_result_attempt E env c P k operation success db =
     bind_r (append_operation E env (effect_result_event k success) True operation db) (\<lambda>(_, db1).
     (let db2 = (if success \<or> k = Export
            then db1\<lparr>ad_pending := delete_where (\<lambda>r. snd r = operation) (ad_pending db1)\<rparr>
            else db1) in
      bind_r (check_database c (P db2) True) (\<lambda>_. Inr db2)))"

definition audit_effect_result ::
    "'z authority_ext_scheme \<Rightarrow> audit_env \<Rightarrow> capacity \<Rightarrow> pager \<Rightarrow> kind \<Rightarrow> string option \<Rightarrow> bool
      \<Rightarrow> audit_db \<Rightarrow> audit_db" where
  "audit_effect_result E env c P k operation success db =
     (case operation of
        None \<Rightarrow> db
      | Some op \<Rightarrow>
          (case effect_result_attempt E env c P k op success db of
             Inl _ \<Rightarrow> degrade db
           | Inr db' \<Rightarrow> db'))"

section \<open>Denial summaries\<close>

text \<open>\<open>dn_started\<close> and the clock argument are monotonic times in nanoseconds.\<close>

record denials =
  dn_started :: nat
  dn_count :: nat

definition denial_event :: "nat \<Rightarrow> event" where
  "denial_event n = (committed DenialSummary)\<lparr>e_stage := Observation, e_outcome := Denied,
     e_reason := ReasonRejected, e_actor := Unverified, e_count := n, e_window_seconds := Some 60\<rparr>"

definition observe_denial ::
    "'z authority_ext_scheme \<Rightarrow> audit_env \<Rightarrow> capacity \<Rightarrow> pager \<Rightarrow> nat \<Rightarrow> denials \<Rightarrow> audit_db
      \<Rightarrow> denials \<times> audit_db" where
  "observe_denial E env c P now d db =
     (if now - dn_started d < 60 * 1000000000
      then (d\<lparr>dn_count := min (dn_count d + 1) U64_MAX\<rparr>, db)
      else (\<lparr>dn_started = now, dn_count = 1\<rparr>,
        fst (transaction (audit_event E env c P (denial_event (dn_count d))) db)))"

section \<open>Export\<close>

text \<open>
  The rows an export writes. \<open>export_batch\<close> checks the rows of one query, \<open>export_loop\<close> repeats
  the query until the limit or the end of the snapshot. The file handling around it (exclusive
  creation, sync, hard link) is not modelled; the result is the written payloads and the cursor.
\<close>

definition export_row :: "'z authority_ext_scheme \<Rightarrow> string \<Rightarrow> nat \<Rightarrow> nat \<times> string \<Rightarrow> unit result" where
  "export_row E store cursor row =
     ensure (fst row = cursor + 1) ''audit snapshot contains a sequence gap''
     (ensure (length (snd row) \<le> MAX_EVENT_BYTES) ''invalid audit record''
     (bind_r (or_err (json_parse E (snd row)) (Extern ''serde_json'')) (\<lambda>rec.
      bind_r (reference_try_from (ar_store_id rec)) (\<lambda>_.
      bind_r (reference_try_from (ar_operation rec)) (\<lambda>_.
      bind_r (reference_try_from (ar_process_instance rec)) (\<lambda>_.
      ensure (ar_version rec = 1 \<and> ar_store_id rec = store \<and> ar_sequence rec = fst row)
        ''invalid audit record binding'' (Inr ())))))))"

fun export_batch ::
    "'z authority_ext_scheme \<Rightarrow> string \<Rightarrow> nat \<Rightarrow> (nat \<times> string) list \<Rightarrow> nat result" where
  "export_batch E store cursor [] = Inr cursor"
| "export_batch E store cursor (row # rows) =
     bind_r (export_row E store cursor row) (\<lambda>_. export_batch E store (fst row) rows)"

definition export_query :: "audit_db \<Rightarrow> nat \<Rightarrow> nat \<Rightarrow> nat \<Rightarrow> (nat \<times> string) list" where
  "export_query db cursor upper batch =
     take batch (sort_key fst (filter (\<lambda>(q, _). cursor < q \<and> q \<le> upper) (ad_events db)))"

function export_loop ::
    "'z authority_ext_scheme \<Rightarrow> audit_db \<Rightarrow> string \<Rightarrow> nat \<Rightarrow> nat \<Rightarrow> nat \<Rightarrow> nat
      \<Rightarrow> (string list \<times> nat \<times> nat) result" where
  "export_loop E db store upper limit n cursor =
     (if n < limit then
        (let rows = export_query db cursor upper (min (limit - n) 256) in
         if rows = [] then
           ensure (cursor = upper) ''audit snapshot ends before its declared boundary''
             (Inr ([], n, cursor))
         else
           bind_r (export_batch E store cursor rows) (\<lambda>cursor'.
           bind_r (export_loop E db store upper limit (n + length rows) cursor') (\<lambda>(lines, n', last).
           Inr (map snd rows @ lines, n', last))))
      else Inr ([], n, cursor))"
  by pat_completeness auto
termination
  by (relation "measure (\<lambda>(E, db, store, upper, limit, n, cursor). limit - n)")
    (auto intro: diff_less_mono2)

declare export_loop.simps [simp del]

record manifest =
  mf_requested_after :: nat
  mf_retained_from :: nat
  mf_upper_sequence :: nat
  mf_count :: nat
  mf_continuation_cursor :: nat
  mf_known_coverage_gaps :: bool

definition audit_export ::
    "'z authority_ext_scheme \<Rightarrow> audit_db \<Rightarrow> string \<Rightarrow> nat \<Rightarrow> nat \<Rightarrow> nat
      \<Rightarrow> (string list \<times> manifest) result" where
  "audit_export E db store after upper limit =
     ensure (1 \<le> limit \<and> limit \<le> 10000) ''export count must be 1-10000''
     (bind_r (audit_info db) (\<lambda>st.
      ensure (store = in_store_id st) ''audit cursor belongs to another store''
      (ensure (in_retained_from st - 1 \<le> after \<and> after \<le> upper \<and> upper \<le> in_upper_sequence st)
        ''audit cursor outside retained snapshot''
      (bind_r (export_loop E db store upper limit 0 after) (\<lambda>(lines, n, cursor).
       Inr (lines, \<lparr>mf_requested_after = after, mf_retained_from = in_retained_from st,
         mf_upper_sequence = upper, mf_count = n, mf_continuation_cursor = cursor,
         mf_known_coverage_gaps = in_known_coverage_gaps st\<rparr>))))))"

section \<open>The migration that creates the store\<close>

definition audit_migrate :: "audit_env \<Rightarrow> audit_db \<Rightarrow> (unit \<times> audit_db) result" where
  "audit_migrate env db =
     ensure (2 \<le> ad_schema db \<and> ad_schema db \<le> 3) ''unsupported audit schema''
     (if ad_schema db = 2 then
        bind_r (or_err (ae_opaque env) (Anyhow ''audit randomness unavailable'')) (\<lambda>store.
        Inr ((), \<lparr>ad_schema = 3, ad_store_id = store, ad_next_sequence = 1, ad_retained_from = 1,
          ad_events_count = 0, ad_bytes = 0, ad_gaps = True, ad_policy_version = 1,
          ad_prune_through = 0, ad_degraded = False, ad_pending = [], ad_events = []\<rparr>))
      else Inr ((), db))"

section \<open>The invariant\<close>

text \<open>
  What the process draws for its instance is a reference (\<open>HEXLOWER\<close> of sixteen bytes), if it is
  available at all.
\<close>

definition env_ok :: "audit_env \<Rightarrow> bool" where
  "env_ok env = (case ae_instance env of None \<Rightarrow> True | Some s \<Rightarrow> reference_ok s)"

definition record_bound :: "string \<Rightarrow> nat \<Rightarrow> audit_record \<Rightarrow> bool" where
  "record_bound store q rec \<longleftrightarrow> ar_version rec = 1 \<and> ar_store_id rec = store \<and> ar_sequence rec = q \<and>
     reference_ok (ar_operation rec) \<and> reference_ok (ar_process_instance rec)"

definition row_bound :: "'z authority_ext_scheme \<Rightarrow> string \<Rightarrow> nat \<times> string \<Rightarrow> bool" where
  "row_bound E store row \<longleftrightarrow> length (snd row) \<le> MAX_EVENT_BYTES \<and>
     (\<exists>rec. json_record E rec = Some (snd row) \<and> record_bound store (fst row) rec)"

definition payload_bytes :: "(nat \<times> string) list \<Rightarrow> nat" where
  "payload_bytes rows = sum_list (map (length \<circ> snd) rows)"

definition audit_meta_ok :: "audit_db \<Rightarrow> bool" where
  "audit_meta_ok db \<longleftrightarrow> ad_schema db = 3 \<and> reference_ok (ad_store_id db) \<and>
     1 \<le> ad_retained_from db \<and> ad_retained_from db \<le> ad_next_sequence db \<and>
     ad_next_sequence db \<le> I64_MAX \<and> ad_events_count db \<le> MAX_EVENTS \<and> ad_bytes db \<le> MAX_BYTES \<and>
     0 < ad_policy_version db \<and> ad_prune_through db < ad_next_sequence db \<and>
     length (ad_pending db) \<le> 256"

definition audit_rows_ok :: "'z authority_ext_scheme \<Rightarrow> audit_db \<Rightarrow> bool" where
  "audit_rows_ok E db \<longleftrightarrow>
     map fst (ad_events db) = [ad_retained_from db..<ad_next_sequence db] \<and>
     ad_events_count db = length (ad_events db) \<and> ad_bytes db = payload_bytes (ad_events db) \<and>
     list_all (row_bound E (ad_store_id db)) (ad_events db) \<and> distinct (map fst (ad_pending db))"

definition audit_inv :: "'z authority_ext_scheme \<Rightarrow> audit_db \<Rightarrow> bool" where
  "audit_inv E db \<longleftrightarrow> audit_meta_ok db \<and> audit_rows_ok E db"

lemma payload_bytes_simps [simp]:
  "payload_bytes [] = 0"
  "payload_bytes (xs @ ys) = payload_bytes xs + payload_bytes ys"
  "payload_bytes [(q, p)] = length p"
  by (simp_all add: payload_bytes_def)

lemma reference_try_from_ok [result_simps]:
  "reference_try_from s = Inr r \<longleftrightarrow> reference_ok s \<and> r = s"
  by (auto simp: reference_try_from_def result_simps)

text \<open>On a state whose metadata is in range the consistency check passes, and it reads the row.\<close>

lemma audit_info_ok:
  assumes "audit_meta_ok db"
  obtains st where "audit_info db = Inr st"
proof -
  have "reference_try_from (ad_store_id db) = Inr (ad_store_id db)"
    using assms by (simp add: audit_meta_ok_def result_simps)
  with assms show ?thesis
    by (intro that) (auto simp: audit_info_def Let_def audit_meta_ok_def ensure_def ensure_e_def)
qed

lemma audit_info_fields:
  assumes "audit_info db = Inr st"
  shows "in_store_id st = ad_store_id db" "in_retained_from st = ad_retained_from db"
    "in_upper_sequence st = ad_next_sequence db - 1" "1 \<le> ad_next_sequence db"
    "in_events st = ad_events_count db" "in_bytes st = ad_bytes db"
    "in_policy_version st = ad_policy_version db" "in_prune_through st = ad_prune_through db"
    "in_degraded st = ad_degraded db" "in_known_coverage_gaps st = ad_gaps db"
    "audit_meta_ok db"
  using assms by (auto simp: audit_info_def Let_def result_simps audit_meta_ok_def)

lemma insert_event_ok [result_simps]:
  "insert_event q p db = Inr db' \<longleftrightarrow> q \<notin> fst ` set (ad_events db) \<and>
     db' = db\<lparr>ad_events := ad_events db @ [(q, p)], ad_next_sequence := q + 1,
       ad_events_count := ad_events_count db + 1, ad_bytes := ad_bytes db + length p\<rparr>"
  by (auto simp: insert_event_def result_simps table_simps)

lemma make_record_bound:
  "reference_ok operation \<Longrightarrow> reference_ok i \<Longrightarrow>
     record_bound store q (make_record env store q i operation ev)"
  by (simp add: record_bound_def make_record_def)

lemma append_operation_ok:
  assumes "append_operation E env ev reserve operation db = Inr (q, db')"
  obtains payload where "q = ad_next_sequence db"
    "db' = db\<lparr>ad_events := ad_events db @ [(q, payload)], ad_next_sequence := q + 1,
       ad_events_count := ad_events_count db + 1, ad_bytes := ad_bytes db + length payload\<rparr>"
    "audit_meta_ok db" "reserve \<or> \<not> ad_degraded db" "q < I64_MAX" "length payload \<le> MAX_EVENT_BYTES"
    "ad_events_count db < event_limit reserve" "ad_bytes db + length payload \<le> byte_limit reserve"
    "env_ok env \<Longrightarrow> row_bound E (ad_store_id db) (q, payload)"
proof -
  obtain st i payload where st: "audit_info db = Inr st" and op: "reference_ok operation"
    and i: "ae_instance env = Some i" and q: "q = in_upper_sequence st + 1"
    and p: "json_record E (make_record env (in_store_id st) q i operation ev) = Some payload"
    and g: "reserve \<or> \<not> in_degraded st" "q < I64_MAX" "length payload \<le> MAX_EVENT_BYTES"
      "in_events st < event_limit reserve" "in_bytes st + length payload \<le> byte_limit reserve"
    and ins: "insert_event q payload db = Inr db'"
    using assms unfolding append_operation_def Let_def bind_r_eq_Inr ensure_eq_Inr or_err_eq_Inr
      reference_try_from_ok by auto
  note f = audit_info_fields[OF st]
  have "row_bound E (ad_store_id db) (q, payload)" if "env_ok env"
    using p g(3) make_record_bound[OF op] that f(1) i by (auto simp: row_bound_def env_ok_def)
  then show ?thesis using that[of payload] q g ins f by (simp add: result_simps)
qed

lemma append_operation_inv:
  assumes "append_operation E env ev reserve operation db = Inr (q, db')" and "env_ok env"
    and "audit_inv E db"
  shows "audit_inv E db'"
  using assms(1)
proof (rule append_operation_ok)
  fix payload
  assume *: "q = ad_next_sequence db"
    "db' = db\<lparr>ad_events := ad_events db @ [(q, payload)], ad_next_sequence := q + 1,
       ad_events_count := ad_events_count db + 1, ad_bytes := ad_bytes db + length payload\<rparr>"
    "q < I64_MAX" "ad_events_count db < event_limit reserve"
    "ad_bytes db + length payload \<le> byte_limit reserve"
    "env_ok env \<Longrightarrow> row_bound E (ad_store_id db) (q, payload)"
  have "event_limit reserve \<le> MAX_EVENTS" "byte_limit reserve \<le> MAX_BYTES"
    by (simp_all add: event_limit_def byte_limit_def)
  then have "audit_meta_ok db'" using * assms(3) by (auto simp: audit_inv_def audit_meta_ok_def)
  moreover have "audit_rows_ok E db'"
    using * assms(2,3) by (auto simp: audit_inv_def audit_rows_ok_def audit_meta_ok_def)
  ultimately show "audit_inv E db'" by (simp add: audit_inv_def)
qed

lemma audit_append_inv:
  "audit_append E env ev reserve db = Inr (q, db') \<Longrightarrow> env_ok env \<Longrightarrow> audit_inv E db \<Longrightarrow> audit_inv E db'"
  by (auto simp: audit_append_def result_simps intro: append_operation_inv)

lemma degrade_inv [simp]: "audit_inv E (degrade db) = audit_inv E db"
  by (simp add: degrade_def audit_inv_def audit_meta_ok_def audit_rows_ok_def)

lemma repair_inv: "env_ok env \<Longrightarrow> audit_inv E db \<Longrightarrow> audit_inv E (repair E env c P ev db)"
  by (auto simp: repair_def result_simps split: sum.splits dest: audit_append_inv)

lemma audit_batch_loop_inv:
  "audit_batch_loop E envs evs db = Inr db' \<Longrightarrow> list_all env_ok envs \<Longrightarrow> audit_inv E db \<Longrightarrow> audit_inv E db'"
  by (induction E envs evs db arbitrary: db' rule: audit_batch_loop.induct)
    (auto simp: result_simps dest: audit_append_inv)

lemma audit_batch_inv:
  "audit_batch E envs c P evs db = Inr (u, db') \<Longrightarrow> list_all env_ok envs \<Longrightarrow> audit_inv E db \<Longrightarrow> audit_inv E db'"
  by (auto simp: audit_batch_def result_simps dest: audit_batch_loop_inv)

lemma audit_correlated_inv:
  "audit_correlated E env c P ev operation db = Inr (u, db') \<Longrightarrow> env_ok env \<Longrightarrow> audit_inv E db \<Longrightarrow> audit_inv E db'"
  by (auto simp: audit_correlated_def result_simps dest: append_operation_inv)

lemma audit_event_inv:
  "audit_event E env c P ev db = Inr (q, db') \<Longrightarrow> env_ok env \<Longrightarrow> audit_inv E db \<Longrightarrow> audit_inv E db'"
  by (auto simp: audit_event_def result_simps dest: audit_append_inv)

lemma audit_export_start_inv:
  "audit_export_start E env c P db = Inr (operation, db') \<Longrightarrow> env_ok env \<Longrightarrow> audit_inv E db \<Longrightarrow> audit_inv E db'"
  by (auto simp: audit_export_start_def result_simps dest: append_operation_inv)

lemma audit_inv_policy:
  "audit_inv E db \<Longrightarrow> t < ad_next_sequence db \<Longrightarrow>
     audit_inv E (db\<lparr>ad_prune_through := t, ad_policy_version := ad_policy_version db + 1\<rparr>)"
  by (simp add: audit_inv_def audit_meta_ok_def audit_rows_ok_def)

lemma set_retention_inv:
  assumes "set_retention E env c P through db = Inr (u, db')" "env_ok env" "audit_inv E db"
  shows "audit_inv E db'"
proof -
  obtain st ev q where st: "audit_info db = Inr st" "through \<le> in_upper_sequence st"
    and a: "audit_append E env ev True
      (db\<lparr>ad_prune_through := through, ad_policy_version := ad_policy_version db + 1\<rparr>) = Inr (q, db')"
    using assms(1) by (auto simp: set_retention_def result_simps Let_def)
  then have "through < ad_next_sequence db" using audit_info_fields(3,4)[OF st(1)] by simp
  then show ?thesis using audit_append_inv[OF a assms(2)] audit_inv_policy assms(3) by blast
qed

lemma recover_inv:
  assumes "recover E env c P db = Inr (u, db')" "env_ok env" "audit_inv E db"
  shows "audit_inv E db'"
proof -
  obtain q db1 where "audit_append E env ((committed StorageRecovered)\<lparr>e_actor := LocalOperator\<rparr>)
      True db = Inr (q, db1)" "db' = db1\<lparr>ad_degraded := False\<rparr>"
    using assms(1) by (auto simp: recover_def result_simps)
  with audit_append_inv[OF this(1) assms(2,3)] show ?thesis
    by (simp add: audit_inv_def audit_meta_ok_def audit_rows_ok_def)
qed

lemma audit_inv_pending:
  "audit_inv E db \<Longrightarrow> length ps \<le> 256 \<Longrightarrow> distinct (map fst ps) \<Longrightarrow> audit_inv E (db\<lparr>ad_pending := ps\<rparr>)"
  by (simp add: audit_inv_def audit_meta_ok_def audit_rows_ok_def)

lemma append_operation_pending:
  "append_operation E env ev reserve operation db = Inr (q, db') \<Longrightarrow> ad_pending db' = ad_pending db"
  by (erule append_operation_ok) simp

lemma effect_attempt_inv:
  assumes "effect_attempt E env c P k target reserve who db = Inr (operation, db')" "env_ok env"
    "audit_inv E db"
  shows "audit_inv E db'"
proof -
  obtain label where l: "effect_label E k target = Inr label"
    using assms(1) by (auto simp: effect_attempt_def result_simps)
  show ?thesis
  proof (cases "select_one (\<lambda>r. fst r = label) (ad_pending db)")
    case None
    then obtain q db1 ps where a: "append_operation E env (intent_event k target who) reserve operation db = Inr (q, db1)"
      and ps: "insert_row fst (label, operation) (ad_pending db1) = Inr ps"
      and db': "db' = db1\<lparr>ad_pending := ps\<rparr>" and n: "length (ad_pending db) < 256"
      using assms(1) l by (auto simp: effect_attempt_def result_simps Let_def)
    have "audit_inv E db1" using append_operation_inv[OF a assms(2,3)] .
    moreover have "distinct (map fst ps)"
      using distinct_insert_row[OF ps] calculation by (simp add: audit_inv_def audit_rows_ok_def)
    moreover have "length ps \<le> 256"
      using ps n append_operation_pending[OF a] by (auto simp: insert_row_ok)
    ultimately show ?thesis unfolding db' by (intro audit_inv_pending)
  next
    case (Some r)
    then show ?thesis using assms(1,3) l
      by (auto simp: effect_attempt_def result_simps split: prod.splits)
  qed
qed

lemma audit_effect_inner_inv:
  "env_ok env \<Longrightarrow> audit_inv E db \<Longrightarrow>
     audit_inv E (fst (audit_effect_inner E env c P k target reserve who db))"
  by (auto simp: audit_effect_inner_def split: sum.splits prod.splits dest: effect_attempt_inv)

lemma audit_effect_result_inv:
  assumes "env_ok env" "audit_inv E db"
  shows "audit_inv E (audit_effect_result E env c P k operation success db)"
proof -
  have "audit_inv E db'" if r: "effect_result_attempt E env c P k op success db = Inr db'" for op db'
  proof -
    obtain q db1 where a: "append_operation E env (effect_result_event k success) True op db = Inr (q, db1)"
      and db': "db' = db1 \<or> db' = db1\<lparr>ad_pending := delete_where (\<lambda>r. snd r = op) (ad_pending db1)\<rparr>"
      using r by (auto simp: effect_result_attempt_def result_simps Let_def split: if_splits)
    have i: "audit_inv E db1" using append_operation_inv[OF a assms] .
    then have "length (delete_where p (ad_pending db1)) \<le> 256" for p
      by (auto simp: delete_where_def audit_inv_def audit_meta_ok_def intro: le_trans[OF length_filter_le])
    moreover have "distinct (map fst (delete_where p (ad_pending db1)))" for p
      using i by (auto simp: audit_inv_def audit_rows_ok_def intro: distinct_delete_where)
    ultimately show ?thesis using i db' audit_inv_pending by blast
  qed
  then show ?thesis using assms
    by (auto simp: audit_effect_result_def split: option.splits sum.splits)
qed

section \<open>Contiguous tables\<close>

text \<open>A range query over a table whose keys are contiguous is a slice of the table.\<close>

lemma contiguous_filter:
  assumes "map fst xs = [a..<b]" and "a \<le> l"
  shows "filter (\<lambda>x. l \<le> fst x \<and> fst x < h) xs = take (h - l) (drop (l - a) xs)"
  using assms
proof (induction xs arbitrary: a l)
  case (Cons x xs)
  from Cons.prems(1) have x: "fst x = a" and xs: "map fst xs = [Suc a..<b]" and "a < b"
    by (cases "a < b"; simp add: upt_conv_Cons)+
  show ?case
  proof (cases "l = a")
    case True
    have "\<forall>y \<in> set xs. Suc a \<le> fst y" using xs by (metis atLeastLessThan_iff image_eqI list.set_map set_upt)
    then have "filter (\<lambda>x. l \<le> fst x \<and> fst x < h) xs = filter (\<lambda>x. Suc a \<le> fst x \<and> fst x < h) xs"
      using True by (intro filter_cong) auto
    also have "\<dots> = take (h - Suc a) xs" using Cons.IH[OF xs, of "Suc a"] by simp
    finally show ?thesis using True x by (auto simp: take_Cons' Suc_diff_Suc)
  next
    case False
    then show ?thesis using Cons.IH[OF xs, of l] Cons.prems(2) x by (auto simp: drop_Cons')
  qed
qed simp

lemma contiguous_slice:
  "map fst xs = [a..<b] \<Longrightarrow> map fst (take n (drop k xs)) = [a + k..<min (a + k + n) b]"
  by (auto simp: take_map[symmetric] drop_map[symmetric] min_def)

lemma contiguous_sorted: "map fst xs = [a..<b] \<Longrightarrow> sort_key fst xs = xs"
  by (rule sort_key_id_if_sorted) simp

lemma sorted_slice:
  assumes "map fst xs = [a..<b]"
  shows "sort_key fst (take n (drop k xs)) = take n (drop k (xs :: (nat \<times> 'v) list))"
  using contiguous_slice[OF assms] by (rule contiguous_sorted)

lemma prune_rows_slice:
  assumes "audit_inv E db"
  shows "prune_rows t db = take (min 256 (Suc t - ad_retained_from db)) (ad_events db)"
proof -
  have m: "map fst (ad_events db) = [ad_retained_from db..<ad_next_sequence db]"
    using assms by (simp add: audit_inv_def audit_rows_ok_def)
  have "\<forall>y \<in> set (ad_events db). ad_retained_from db \<le> fst y"
    using m by (metis atLeastLessThan_iff image_eqI list.set_map set_upt)
  then have "filter (\<lambda>(q, _). q \<le> t) (ad_events db) =
      filter (\<lambda>x. ad_retained_from db \<le> fst x \<and> fst x < Suc t) (ad_events db)"
    by (intro filter_cong) auto
  also have "\<dots> = take (Suc t - ad_retained_from db) (drop 0 (ad_events db))"
    using contiguous_filter[OF m order_refl] by simp
  finally show ?thesis using sorted_slice[OF m, of _ 0] by (simp add: prune_rows_def take_take)
qed

text \<open>
  What one pruning transaction does: it removes a prefix of at most 256 rows that the retention
  policy covers, keeps every other row, and appends its own boundary marker.
\<close>

definition drop_prefix :: "nat \<Rightarrow> audit_db \<Rightarrow> audit_db" where
  "drop_prefix n db =
     db\<lparr>ad_events := drop n (ad_events db), ad_retained_from := ad_retained_from db + n,
       ad_events_count := ad_events_count db - n,
       ad_bytes := ad_bytes db - payload_bytes (take n (ad_events db))\<rparr>"

lemma audit_rowsD:
  assumes "audit_inv E db"
  shows "map fst (ad_events db) = [ad_retained_from db..<ad_next_sequence db]"
    "length (ad_events db) = ad_next_sequence db - ad_retained_from db"
    "x \<in> set (ad_events db) \<Longrightarrow> ad_retained_from db \<le> fst x \<and> fst x < ad_next_sequence db"
proof -
  show m: "map fst (ad_events db) = [ad_retained_from db..<ad_next_sequence db]"
    using assms by (simp add: audit_inv_def audit_rows_ok_def)
  show "length (ad_events db) = ad_next_sequence db - ad_retained_from db"
    using arg_cong[OF m, of length] by simp
  show "ad_retained_from db \<le> fst x \<and> fst x < ad_next_sequence db" if "x \<in> set (ad_events db)"
    using m that by (metis atLeastLessThan_iff image_eqI list.set_map set_upt)
qed

lemma delete_prefix:
  assumes "audit_inv E db" "0 < n" "n \<le> length (ad_events db)"
  shows "remove_rows (ad_retained_from db + n - 1) n (payload_bytes (take n (ad_events db))) db =
    drop_prefix n db"
proof -
  note r = audit_rowsD[OF assms(1)]
  have "filter (\<lambda>x. ad_retained_from db + n \<le> fst x \<and> fst x < ad_next_sequence db) (ad_events db) =
      drop n (ad_events db)"
    using contiguous_filter[OF r(1), of "ad_retained_from db + n" "ad_next_sequence db"] r(2) by simp
  moreover have "filter (\<lambda>x. ad_retained_from db + n \<le> fst x \<and> fst x < ad_next_sequence db) (ad_events db) =
      filter (\<lambda>x. \<not> (case x of (q, _) \<Rightarrow> q \<le> ad_retained_from db + n - 1)) (ad_events db)"
    using r(3) assms(2) by (intro filter_cong) auto
  ultimately show ?thesis
    using assms(2) by (simp add: remove_rows_def drop_prefix_def delete_where_def)
qed

lemma drop_prefix_inv:
  assumes "audit_inv E db" "n \<le> length (ad_events db)"
  shows "audit_inv E (drop_prefix n db)"
proof -
  have d: "drop n [a..<b] = [a + n..<b]" for a b :: nat by simp
  have "payload_bytes (ad_events db) = payload_bytes (take n (ad_events db)) + payload_bytes (drop n (ad_events db))"
    by (metis append_take_drop_id payload_bytes_simps(2))
  moreover have "list_all (row_bound E (ad_store_id db)) (drop n (ad_events db))"
    using assms(1) by (auto simp: audit_inv_def audit_rows_ok_def list_all_iff dest: in_set_dropD)
  ultimately have "audit_rows_ok E (drop_prefix n db)"
    using assms by (simp add: audit_inv_def audit_rows_ok_def drop_prefix_def drop_map[symmetric])
  moreover have "audit_meta_ok (drop_prefix n db)"
    using assms audit_rowsD(2)[OF assms(1)]
    by (auto simp: audit_inv_def audit_meta_ok_def drop_prefix_def)
  ultimately show ?thesis by (simp add: audit_inv_def)
qed

lemma prune_tx_effect:
  assumes inv: "audit_inv E db" and "ad_retained_from db \<le> t" "ad_events db \<noteq> []"
  defines "n \<equiv> min 256 (min (Suc t - ad_retained_from db) (length (ad_events db)))"
  shows "prune_tx E env t policy s db =
    bind_r (audit_append E env (prune_event n (ad_retained_from db + n - 1) policy) True (drop_prefix n db))
      (\<lambda>(_, db'). Inr (s\<lparr>pr_deleted := n, pr_retained_from := ad_retained_from db + n\<rparr>, db'))"
proof -
  let ?r = "ad_retained_from db"
  note r = audit_rowsD[OF inv]
  have n: "0 < n" "n \<le> length (ad_events db)" using assms by (auto simp: n_def)
  have rows: "prune_rows t db = take n (ad_events db)"
    unfolding prune_rows_slice[OF inv] n_def by (metis min.assoc take_all_iff take_take order_refl)
  have "map fst (take n (ad_events db)) = [?r..<?r + n]"
    using contiguous_slice[OF r(1), of n 0] n r(2) by (simp add: min_def)
  then have "fst ` set (take n (ad_events db)) = {?r..<?r + n}" by (metis list.set_map set_upt)
  then have "Max (fst ` set (prune_rows t db)) = ?r + n - 1"
    unfolding rows using n(1) by (intro Max_eqI) auto
  moreover have "length (prune_rows t db) = n" using rows n by simp
  ultimately show ?thesis
    unfolding prune_tx_def Let_def
    using delete_prefix[OF inv n] n(1) by (simp add: rows payload_bytes_def)
qed

lemma prune_inv:
  assumes "prune E env t apply_it db = Inr (s, db')" "env_ok env" and inv: "audit_inv E db"
  shows "audit_inv E db'"
proof (cases "\<not> apply_it \<or> count_where (\<lambda>(q, _). q \<le> t) (ad_events db) = 0")
  case True
  then have "db' = db" using assms(1) by (auto simp: prune_def result_simps Let_def)
  then show ?thesis using inv by simp
next
  case False
  then obtain x where x: "x \<in> set (ad_events db)" "fst x \<le> t"
    by (auto simp: count_where_def filter_empty_conv)
  then have ne: "ad_retained_from db \<le> t" "ad_events db \<noteq> []"
    using audit_rowsD(3)[OF inv x(1)] by auto
  let ?n = "min 256 (min (Suc t - ad_retained_from db) (length (ad_events db)))"
  from assms(1) False obtain policy s0 where "prune_tx E env t policy s0 db = Inr (s, db')"
    by (auto simp: prune_def result_simps Let_def split: if_splits)
  then obtain ev q where "audit_append E env ev True (drop_prefix ?n db) = Inr (q, db')"
    unfolding prune_tx_effect[OF inv ne] by (auto simp: result_simps)
  moreover have "audit_inv E (drop_prefix ?n db)" by (rule drop_prefix_inv[OF inv]) simp
  ultimately show ?thesis using audit_append_inv assms(2) by blast
qed

section \<open>The store as a machine\<close>

text \<open>The operations of the store with the environment each of them reads.\<close>

datatype audit_op =
    OpBatch "audit_env list" "event list"
  | OpEvent audit_env event
  | OpCorrelated audit_env event string
  | OpRepair audit_env event
  | OpRetention audit_env nat
  | OpPrune audit_env nat bool
  | OpRecover audit_env
  | OpExportStart audit_env
  | OpEffect audit_env kind "string option" bool "string option"
  | OpEffectResult audit_env kind "string option" bool

fun op_env_ok :: "audit_op \<Rightarrow> bool" where
  "op_env_ok (OpBatch envs evs) = list_all env_ok envs"
| "op_env_ok (OpEvent env ev) = env_ok env"
| "op_env_ok (OpCorrelated env ev operation) = env_ok env"
| "op_env_ok (OpRepair env ev) = env_ok env"
| "op_env_ok (OpRetention env through) = env_ok env"
| "op_env_ok (OpPrune env through apply_it) = env_ok env"
| "op_env_ok (OpRecover env) = env_ok env"
| "op_env_ok (OpExportStart env) = env_ok env"
| "op_env_ok (OpEffect env k target reserve who) = env_ok env"
| "op_env_ok (OpEffectResult env k operation success) = env_ok env"

fun audit_tx ::
    "'z authority_ext_scheme \<Rightarrow> capacity \<Rightarrow> pager \<Rightarrow> audit_op \<Rightarrow> audit_db \<Rightarrow> audit_db result" where
  "audit_tx E c P (OpBatch envs evs) db = map_sum id snd (audit_batch E envs c P evs db)"
| "audit_tx E c P (OpEvent env ev) db = map_sum id snd (audit_event E env c P ev db)"
| "audit_tx E c P (OpCorrelated env ev operation) db =
     map_sum id snd (audit_correlated E env c P ev operation db)"
| "audit_tx E c P (OpRepair env ev) db = Inr (repair E env c P ev db)"
| "audit_tx E c P (OpRetention env through) db = map_sum id snd (set_retention E env c P through db)"
| "audit_tx E c P (OpPrune env through apply_it) db = map_sum id snd (prune E env through apply_it db)"
| "audit_tx E c P (OpRecover env) db = map_sum id snd (recover E env c P db)"
| "audit_tx E c P (OpExportStart env) db = map_sum id snd (audit_export_start E env c P db)"
| "audit_tx E c P (OpEffect env k target reserve who) db =
     Inr (fst (audit_effect_inner E env c P k target reserve who db))"
| "audit_tx E c P (OpEffectResult env k operation success) db =
     Inr (audit_effect_result E env c P k operation success db)"

lemma map_sum_eq_Inr [result_simps]: "map_sum f g r = Inr y \<longleftrightarrow> (\<exists>x. r = Inr x \<and> y = g x)"
  by (cases r) auto

lemma audit_tx_inv:
  "audit_inv E db \<Longrightarrow> op_env_ok x \<Longrightarrow> audit_tx E c P x db = Inr db' \<Longrightarrow> audit_inv E db'"
  by (cases x) (auto simp: result_simps repair_inv audit_effect_inner_inv audit_effect_result_inv
      dest: audit_batch_inv audit_event_inv audit_correlated_inv set_retention_inv prune_inv recover_inv
        audit_export_start_inv)

interpretation audit_store: transactional_machine "audit_tx E c P" "audit_inv E" op_env_ok
  by unfold_locales (rule audit_tx_inv)

section \<open>Export returns the retained rows\<close>

text \<open>The documented contract of the JSON library: reading back what was written.\<close>

definition json_roundtrip :: "'z authority_ext_scheme \<Rightarrow> bool" where
  "json_roundtrip E \<longleftrightarrow> (\<forall>rec p. json_record E rec = Some p \<longrightarrow> json_parse E p = Some rec)"

lemma export_row_ok:
  assumes "json_roundtrip E" "row_bound E store row" "fst row = Suc cursor" "reference_ok store"
  shows "export_row E store cursor row = Inr ()"
proof -
  obtain rec where "json_parse E (snd row) = Some rec" "record_bound store (fst row) rec"
    using assms(1,2) by (auto simp: json_roundtrip_def row_bound_def)
  then show ?thesis using assms(2-)
    by (simp add: export_row_def record_bound_def row_bound_def reference_try_from_def)
qed

lemma export_batch_ok:
  assumes "json_roundtrip E" "reference_ok store"
  shows "list_all (row_bound E store) rows \<Longrightarrow> map fst rows = [Suc cursor..<Suc cursor + length rows] \<Longrightarrow>
    export_batch E store cursor rows = Inr (cursor + length rows)"
proof (induction rows arbitrary: cursor)
  case (Cons row rows)
  have "fst row = Suc cursor" "map fst rows = [Suc (Suc cursor)..<Suc (Suc cursor) + length rows]"
    using Cons.prems(2) by (simp_all add: upt_conv_Cons del: upt_Suc)
  moreover from this Cons.prems(1) have "export_row E store cursor row = Inr ()"
    using assms by (intro export_row_ok) auto
  ultimately show ?case using Cons.IH[of "Suc cursor"] Cons.prems(1) by simp
qed simp

lemma export_query_slice:
  assumes "audit_inv E db" "ad_retained_from db \<le> Suc cursor"
  shows "export_query db cursor upper b =
    take (min b (upper - cursor)) (drop (Suc cursor - ad_retained_from db) (ad_events db))"
proof -
  note m = audit_rowsD(1)[OF assms(1)]
  have "filter (\<lambda>(q, _). cursor < q \<and> q \<le> upper) (ad_events db) =
      filter (\<lambda>x. Suc cursor \<le> fst x \<and> fst x < Suc upper) (ad_events db)"
    by (intro filter_cong) auto
  also have "\<dots> = take (upper - cursor) (drop (Suc cursor - ad_retained_from db) (ad_events db))"
    using contiguous_filter[OF m assms(2), of "Suc upper"] by simp
  finally show ?thesis by (simp add: export_query_def sorted_slice[OF m] take_take)
qed

lemma export_loop_ok:
  assumes inv: "audit_inv E db" and json: "json_roundtrip E"
  shows "ad_retained_from db \<le> Suc cursor \<Longrightarrow> cursor \<le> upper \<Longrightarrow> upper < ad_next_sequence db \<Longrightarrow>
    k = min (limit - n) (upper - cursor) \<Longrightarrow>
    export_loop E db (ad_store_id db) upper limit n cursor =
      Inr (map snd (take k (drop (Suc cursor - ad_retained_from db) (ad_events db))), n + k, cursor + k)"
proof (induction "limit - n" arbitrary: n cursor k rule: less_induct)
  case less
  let ?r = "ad_retained_from db"
  note rows = audit_rowsD[OF inv]
  define b where "b = min (min (limit - n) 256) (upper - cursor)"
  let ?d = "drop (Suc cursor - ?r) (ad_events db)"
  have q: "export_query db cursor upper (min (limit - n) 256) = take b ?d"
    unfolding b_def by (rule export_query_slice[OF inv less.prems(1)])
  have len: "length (take b ?d) = b" using rows(2) less.prems by (auto simp: b_def)
  show ?case
  proof (cases "b = 0")
    case True
    then have "k = 0" using less.prems(4) by (auto simp: b_def min_def split: if_splits)
    with True q less.prems show ?thesis
      by (subst export_loop.simps) (auto simp: b_def min_def split: if_splits)
  next
    case False
    have "?r + (Suc cursor - ?r) = Suc cursor" using less.prems(1) by simp
    moreover have "min (Suc cursor + b) (ad_next_sequence db) = Suc cursor + b"
      using less.prems(2,3) b_def by linarith
    ultimately have "map fst (take b ?d) = [Suc cursor..<Suc cursor + length (take b ?d)]"
      using contiguous_slice[OF rows(1), of b "Suc cursor - ?r"] len by metis
    moreover have "list_all (row_bound E (ad_store_id db)) (take b ?d)" "reference_ok (ad_store_id db)"
      using inv by (auto simp: audit_inv_def audit_rows_ok_def audit_meta_ok_def list_all_iff
          dest!: in_set_takeD in_set_dropD)
    ultimately have batch: "export_batch E (ad_store_id db) cursor (take b ?d) = Inr (cursor + b)"
      using export_batch_ok[OF json] len by metis
    have lt: "n < limit" "limit - (n + b) < limit - n" "b \<le> upper - cursor" "b \<le> k"
      using False less.prems(4) by (auto simp: b_def)
    have "export_loop E db (ad_store_id db) upper limit (n + b) (cursor + b) =
      Inr (map snd (take (k - b) (drop (Suc (cursor + b) - ?r) (ad_events db))), n + b + (k - b), cursor + b + (k - b))"
      using lt less.prems by (intro less.hyps) linarith+
    moreover have "map snd (take b ?d) @ map snd (take (k - b) (drop (Suc (cursor + b) - ?r) (ad_events db))) =
        map snd (take k ?d)"
    proof -
      have "Suc (cursor + b) - ?r = b + (Suc cursor - ?r)" using less.prems(1) by simp
      then have "drop (Suc (cursor + b) - ?r) (ad_events db) = drop b ?d" by (simp add: drop_drop)
      then show ?thesis using lt(4) by (metis le_add_diff_inverse map_append take_add)
    qed
    moreover have "take b ?d \<noteq> []" using len False by (metis length_0_conv)
    ultimately show ?thesis
      using lt batch len by (subst export_loop.simps) (simp add: q Let_def del: take_drop)
  qed
qed

end
