(* ===== verification/Broker.thy ===== *)
theory Broker
  imports Identity
begin

text \<open>
  The key-value buckets of the broker and the device directory kept in one of them. The NATS
  JetStream client is third-party code: its calls are the fields of \<open>kv\<close>, over an arbitrary
  broker state that other clients may change during a call. The directory operations are those
  of \<open>transport.rs\<close> and \<open>devices.rs\<close>.
\<close>

section \<open>The bucket interface\<close>

record 's kv =
  kv_entry :: "string \<Rightarrow> 's \<Rightarrow> 's \<times> (bytes \<times> nat) option result"
  kv_get :: "string \<Rightarrow> 's \<Rightarrow> 's \<times> bytes option result"
  kv_update :: "string \<Rightarrow> bytes \<Rightarrow> nat \<Rightarrow> 's \<Rightarrow> 's \<times> bool"
  kv_create :: "string \<Rightarrow> bytes \<Rightarrow> 's \<Rightarrow> 's \<times> bool"

text \<open>
  The documented meaning of an answered call: a read returns the value stored when it is
  answered, an acknowledged write has stored its value. Nothing is said of a write whose
  acknowledgment is missing: it may or may not have been stored.
\<close>

definition kv_acks :: "('s, 'z) kv_scheme \<Rightarrow> ('s \<Rightarrow> string \<Rightarrow> bytes option) \<Rightarrow> bool" where
  "kv_acks K view \<longleftrightarrow>
     (\<forall>key s s' v rev. kv_entry K key s = (s', Inr (Some (v, rev))) \<longrightarrow> view s' key = Some v) \<and>
     (\<forall>key s s' v. kv_get K key s = (s', Inr v) \<longrightarrow> view s' key = v) \<and>
     (\<forall>key b rev s s'. kv_update K key b rev s = (s', True) \<longrightarrow> view s' key = Some b) \<and>
     (\<forall>key b s s'. kv_create K key b s = (s', True) \<longrightarrow> view s' key = Some b)"

text \<open>
  A bucket without other writers, kept as a map from keys to values with revisions. It
  shows that the contract can be met.
\<close>

type_synonym mem = "(string \<times> bytes \<times> nat) list"

definition mem_view :: "mem \<Rightarrow> string \<Rightarrow> bytes option" where
  "mem_view m key = map_option fst (map_of m key)"

definition mem_kv :: "mem kv" where
  "mem_kv = \<lparr>
     kv_entry = (\<lambda>key m. (m, Inr (map_of m key))),
     kv_get = (\<lambda>key m. (m, Inr (mem_view m key))),
     kv_update = (\<lambda>key b rev m. case map_of m key of
        Some (v, r) \<Rightarrow> if r = rev then ((key, b, r + 1) # m, True) else (m, False)
      | None \<Rightarrow> (m, False)),
     kv_create = (\<lambda>key b m. case map_of m key of
        None \<Rightarrow> ((key, b, 1) # m, True) | Some _ \<Rightarrow> (m, False))\<rparr>"

section \<open>The directory\<close>

type_synonym enrollment = "string \<rightharpoonup> string"

definition find_device ::
    "'z externals_scheme \<Rightarrow> 's kv \<Rightarrow> enrollment \<Rightarrow> string \<Rightarrow> string \<Rightarrow> 's \<Rightarrow> 's \<times> body result" where
  "find_device E K enrollment user device s =
     bind_s (s, validate_id user) (\<lambda>_ s.
     bind_s (s, validate_id device) (\<lambda>_ s.
     (let key = device_key user device in
      bind_s (kv_get K key s) (\<lambda>found s.
      case found of
        None \<Rightarrow> (s, Inr NotFound)
      | Some bs \<Rightarrow>
          bind_s (s, decode E bs) (\<lambda>b s.
          bind_s (s, or_err (as_register b) (Anyhow ''invalid directory record'')) (\<lambda>r s.
          bind_s (s, verify E r) (\<lambda>_ s.
          ensure_s (registration_key (dr_payload r) = key \<and>
              enrollment key = Some (rp_nats_public_key (dr_payload r)))
            ''directory enrollment mismatch'' s (s, Inr (Found r)))))))))"

text \<open>
  The create-or-compare step that \<open>project_registration\<close> and \<open>claim\<close> share: an exact retry
  succeeds, a different value already present is a conflict, nothing is overwritten.
\<close>

definition create_or_match ::
    "'s kv \<Rightarrow> string \<Rightarrow> bytes \<Rightarrow> string \<Rightarrow> 'a \<Rightarrow> 's \<Rightarrow> 's \<times> 'a result" where
  "create_or_match K key bs msg a s =
     (case kv_create K key bs s of
        (s, True) \<Rightarrow> (s, Inr a)
      | (s, False) \<Rightarrow>
          bind_s (kv_get K key s) (\<lambda>existing s.
          ensure_s (existing = Some bs) msg s (s, Inr a)))"

definition claim_key :: "string \<Rightarrow> string \<Rightarrow> string" where
  "claim_key user device = ''claims.'' @ user @ ''.'' @ device"

definition project_registration ::
    "'z externals_scheme \<Rightarrow> 's kv \<Rightarrow> enrollment \<Rightarrow> device_registration \<Rightarrow> 's \<Rightarrow> 's \<times> unit result" where
  "project_registration E K enrollment r s =
     bind_s (s, verify_signature E r) (\<lambda>_ s.
     (let key = registration_key (dr_payload r) in
      ensure_s (enrollment key = Some (rp_nats_public_key (dr_payload r)))
        ''device is not enrolled'' s
      (bind_s (s, encode E (Register r)) (\<lambda>bs s.
       create_or_match K key bs ''registration conflict'' () s))))"

definition accept ::
    "'z externals_scheme \<Rightarrow> 's kv \<Rightarrow> enrollment \<Rightarrow> device_registration \<Rightarrow> 's \<Rightarrow> 's \<times> unit result" where
  "accept E K enrollment r s =
     bind_s (s, verify E r) (\<lambda>_ s. project_registration E K enrollment r s)"

definition claim ::
    "'z externals_scheme \<Rightarrow> 's kv \<Rightarrow> enrollment \<Rightarrow> string \<Rightarrow> string \<Rightarrow> string \<Rightarrow> 's
      \<Rightarrow> 's \<times> body result" where
  "claim E K enrollment user device gid s =
     bind_s (s, validate_id gid) (\<lambda>_ s.
     bind_s (find_device E K enrollment user device s) (\<lambda>found s.
     ensure_s (as_found found \<noteq> None) ''device not found'' s
     (create_or_match K (claim_key user device) (as_bytes gid)
        ''KeyPackage already reserved for another group'' found s)))"

text \<open>
  \<open>devices::find_devices\<close> walks the enrolled endpoints of the user in key order; the sorted key
  list of the \<open>BTreeMap\<close> is an argument.
\<close>

definition device_prefix :: "string \<Rightarrow> string" where
  "device_prefix user = ''users.'' @ user @ ''.devices.''"

fun find_devices_loop ::
    "'z externals_scheme \<Rightarrow> 's kv \<Rightarrow> enrollment \<Rightarrow> string \<Rightarrow> string list \<Rightarrow>
      device_registration list \<Rightarrow> 's \<Rightarrow> 's \<times> body result" where
  "find_devices_loop E K enrollment user [] acc s = (s, Inr (Devices acc))"
| "find_devices_loop E K enrollment user (endpoint # rest) acc s =
     (let prefix = device_prefix user in
      if starts_with prefix endpoint then
        bind_s (find_device E K enrollment user (drop (length prefix) endpoint) s) (\<lambda>b s.
        case as_found b of
          Some r \<Rightarrow>
            ensure_s (length (acc @ [r]) \<le> 32) ''device listing limit exceeded'' s
              (find_devices_loop E K enrollment user rest (acc @ [r]) s)
        | None \<Rightarrow> find_devices_loop E K enrollment user rest acc s)
      else find_devices_loop E K enrollment user rest acc s)"

definition find_devices ::
    "'z externals_scheme \<Rightarrow> 's kv \<Rightarrow> enrollment \<Rightarrow> string list \<Rightarrow> string \<Rightarrow> 's \<Rightarrow> 's \<times> body result" where
  "find_devices E K enrollment keys user s =
     bind_s (s, validate_id user) (\<lambda>_ s. find_devices_loop E K enrollment user keys [] s)"

section \<open>Lemmas\<close>

lemma mem_kv_acks: "kv_acks mem_kv mem_view"
  by (auto simp: kv_acks_def mem_kv_def mem_view_def split: option.splits if_splits prod.splits)

lemma kv_acksD:
  assumes "kv_acks K view"
  shows "kv_entry K key s = (s', Inr (Some (v, n))) \<Longrightarrow> view s' key = Some v"
    and "kv_get K key s = (s', Inr w) \<Longrightarrow> view s' key = w"
    and "kv_update K key b n s = (s', True) \<Longrightarrow> view s' key = Some b"
    and "kv_create K key b s = (s', True) \<Longrightarrow> view s' key = Some b"
  using assms by (auto simp only: kv_acks_def)

lemma create_or_match_stored:
  assumes "kv_acks K view" and "create_or_match K key bs msg a s = (s', Inr b)"
  shows "view s' key = Some bs \<and> b = a"
  using assms
  by (cases "kv_create K key bs s")
    (auto simp: create_or_match_def kv_acks_def result_simps split: bool.splits)

lemma find_device_Found:
  assumes "find_device E K enrollment user device s = (s', Inr (Found r))"
  shows "verify E r = Inr () \<and>
    enrollment (registration_key (dr_payload r)) = Some (rp_nats_public_key (dr_payload r)) \<and>
    rp_user_id (dr_payload r) = user \<and> rp_device_id (dr_payload r) = device"
proof -
  have v: "verify E r = Inr ()" "validate_id user = Inr ()" "validate_id device = Inr ()"
    and k: "registration_key (dr_payload r) = device_key user device"
    and e: "enrollment (registration_key (dr_payload r)) = Some (rp_nats_public_key (dr_payload r))"
    using assms
    by (auto simp: find_device_def Let_def result_simps split: option.split_asm)
  have "verify_signature E r = Inr ()" using v(1) by (rule verify_imp_signature)
  from device_key_inj[OF verify_signature_ok(1,2)[OF this] v(2,3)] k v e show ?thesis
    by (simp add: registration_key_def)
qed

text \<open>A successful projection leaves exactly the registration's encoding under its key.\<close>

lemma project_registration_stored:
  assumes "kv_acks K view" and "project_registration E K enrollment r s = (s', Inr u)"
  shows "\<exists>bs. encode E (Register r) = Inr bs \<and> view s' (registration_key (dr_payload r)) = Some bs"
  using assms
  by (auto simp: project_registration_def Let_def result_simps dest: create_or_match_stored)

lemma claim_reserved:
  assumes "kv_acks K view" and "claim E K enrollment user device gid s = (s', Inr b)"
  shows "view s' (claim_key user device) = Some (as_bytes gid)"
  using assms by (auto simp: claim_def result_simps dest: create_or_match_stored)

lemma find_devices_loop_sound:
  assumes "find_devices_loop E K enrollment user keys acc s = (s', Inr (Devices rs))"
    and "\<forall>r \<in> set acc. verify E r = Inr () \<and> rp_user_id (dr_payload r) = user"
    and "length acc \<le> 32"
  shows "length rs \<le> 32 \<and> (\<forall>r \<in> set rs. verify E r = Inr () \<and> rp_user_id (dr_payload r) = user)"
  using assms
proof (induction keys arbitrary: acc s)
  case (Cons endpoint rest)
  show ?case
  proof (cases "starts_with (device_prefix user) endpoint")
    case False
    then have "find_devices_loop E K enrollment user rest acc s = (s', Inr (Devices rs))"
      using Cons.prems(1) by (simp add: Let_def)
    then show ?thesis using Cons.prems(2,3) by (rule Cons.IH)
  next
    case True
    then obtain s1 b where b: "find_device E K enrollment user
        (drop (length (device_prefix user)) endpoint) s = (s1, Inr b)"
      using Cons.prems(1) by (auto simp: result_simps Let_def)
    show ?thesis
    proof (cases "as_found b")
      case None
      then have "find_devices_loop E K enrollment user rest acc s1 = (s', Inr (Devices rs))"
        using Cons.prems(1) True b by (simp add: Let_def)
      then show ?thesis using Cons.prems(2,3) by (rule Cons.IH)
    next
      case (Some r)
      have r: "verify E r = Inr () \<and> rp_user_id (dr_payload r) = user"
        using find_device_Found b Some as_found_Some by metis
      have "length acc < 32"
        and "find_devices_loop E K enrollment user rest (acc @ [r]) s1 = (s', Inr (Devices rs))"
        using Cons.prems(1) True b Some by (simp_all add: Let_def result_simps)
      then show ?thesis using Cons.prems(2) r by (intro Cons.IH[of "acc @ [r]" s1]) auto
    qed
  qed
qed simp

end
