(* ===== verification/Merkle.thy ===== *)
theory Merkle
  imports Prelude
begin

text \<open>
  The Merkle tree that both authenticated logs share. \<open>transparency::root\<close> and
  \<open>revocation::root\<close> hash the same tree over different entries: the locale states the
  equations of such a root, proves that the root binds the whole list of entries when the hash
  has no collision among the strings the two trees hash, and the two components interpret it.
\<close>

definition collision_free :: "(bytes \<Rightarrow> bytes result) \<Rightarrow> bytes set \<Rightarrow> bool" where
  "collision_free H D \<longleftrightarrow>
     (\<forall>a \<in> D. \<forall>b \<in> D. \<forall>h. H a = Inr h \<longrightarrow> H b = Inr h \<longrightarrow> a = b)"

lemma collision_freeD:
  "collision_free H D \<Longrightarrow> a \<in> D \<Longrightarrow> b \<in> D \<Longrightarrow> H a = Inr h \<Longrightarrow> H b = Inr h \<Longrightarrow> a = b"
  by (auto simp: collision_free_def)

lemma collision_free_mono: "collision_free H D \<Longrightarrow> D' \<subseteq> D \<Longrightarrow> collision_free H D'"
  by (auto simp: collision_free_def)

locale merkle_tree =
  fixes H :: "bytes \<Rightarrow> bytes result"
    and enc :: "'a \<Rightarrow> bytes result"
    and rt :: "'a list \<Rightarrow> bytes result"
    and inp :: "'a list \<Rightarrow> bytes list"
  assumes hash_length: "H m = Inr h \<Longrightarrow> length h = 32"
    and root_Nil: "rt [] = H []"
    and root_one: "rt [x] = bind_r (enc x) (\<lambda>b. H (0 # b))"
    and root_many: "2 \<le> length xs \<Longrightarrow>
      rt xs = bind_r (rt (take (next_power_of_two (length xs) div 2) xs)) (\<lambda>l.
        bind_r (rt (drop (next_power_of_two (length xs) div 2) xs)) (\<lambda>r. H (1 # l @ r)))"
    and inp_Nil: "inp [] = [[]]"
    and inp_one: "enc x = Inr b \<Longrightarrow> inp [x] = [0 # b]"
    and inp_many: "2 \<le> length xs \<Longrightarrow>
      rt (take (next_power_of_two (length xs) div 2) xs) = Inr l \<Longrightarrow>
      rt (drop (next_power_of_two (length xs) div 2) xs) = Inr r \<Longrightarrow>
      inp xs = (1 # l @ r) # inp (take (next_power_of_two (length xs) div 2) xs) @
        inp (drop (next_power_of_two (length xs) div 2) xs)"
begin

lemma rt_length: "rt xs = Inr h \<Longrightarrow> length h = 32"
proof (cases "2 \<le> length xs")
  case True
  then show "rt xs = Inr h \<Longrightarrow> length h = 32"
    by (auto simp: root_many result_simps dest: hash_length)
next
  case False
  then consider "xs = []" | x where "xs = [x]" by (cases xs) (auto simp: Suc_le_eq)
  then show "rt xs = Inr h \<Longrightarrow> length h = 32"
    by cases (auto simp: root_Nil root_one result_simps dest: hash_length)
qed

text \<open>The string whose hash is the root of a tree determines the shape of its top.\<close>

lemma root_cases:
  assumes "rt xs = Inr h"
  obtains (empty) "xs = []" "H [] = Inr h" "inp xs = [[]]"
    | (leaf) x b where "xs = [x]" "enc x = Inr b" "H (0 # b) = Inr h" "inp xs = [0 # b]"
    | (node) k l r where "2 \<le> length xs" "0 < k" "k < length xs" "rt (take k xs) = Inr l"
        "rt (drop k xs) = Inr r" "H (1 # l @ r) = Inr h" "length l = 32"
        "inp xs = (1 # l @ r) # inp (take k xs) @ inp (drop k xs)"
proof (cases "2 \<le> length xs")
  case True
  let ?k = "next_power_of_two (length xs) div 2"
  obtain l r where lr: "rt (take ?k xs) = Inr l" "rt (drop ?k xs) = Inr r" "H (1 # l @ r) = Inr h"
    using assms True by (auto simp: root_many result_simps)
  show ?thesis
    by (rule node[of ?k l r]) (use True lr split_point[OF True] rt_length inp_many in auto)
next
  case False
  then consider "xs = []" | x where "xs = [x]" by (cases xs) (auto simp: Suc_le_eq)
  then show ?thesis
    using assms by cases (auto simp: root_Nil root_one inp_Nil result_simps intro: inp_one empty leaf)
qed

theorem root_binding:
  assumes "\<And>x y b. enc x = Inr b \<Longrightarrow> enc y = Inr b \<Longrightarrow> x = y"
    and "rt xs = Inr h" and "rt ys = Inr h"
    and "collision_free H (set (inp xs) \<union> set (inp ys))"
  shows "xs = ys"
  using assms(2-4)
proof (induction "length xs" arbitrary: xs ys h rule: less_induct)
  case less
  note cf = collision_freeD[OF less.prems(3)]
  from less.prems(1) show ?case
  proof (cases rule: root_cases)
    case empty
    from less.prems(2) show ?thesis
    proof (cases rule: root_cases)
      case (leaf y c)
      with empty cf[of "[]" "0 # c"] show ?thesis by auto
    next
      case (node k' l' r')
      with empty cf[of "[]" "1 # l' @ r'"] show ?thesis by auto
    qed (use empty in simp)
  next
    case (leaf x b)
    note l1 = leaf
    from less.prems(2) show ?thesis
    proof (cases rule: root_cases)
      case empty
      with l1 cf[of "0 # b" "[]"] show ?thesis by auto
    next
      case (leaf y c)
      with l1 cf[of "0 # b" "0 # c"] have "b = c" by auto
      with l1 leaf assms(1) show ?thesis by auto
    next
      case (node k' l' r')
      with l1 cf[of "0 # b" "1 # l' @ r'"] show ?thesis by auto
    qed
  next
    case (node k l r)
    note n1 = node
    from less.prems(2) show ?thesis
    proof (cases rule: root_cases)
      case empty
      with n1 cf[of "1 # l @ r" "[]"] show ?thesis by auto
    next
      case (leaf x b)
      with n1 cf[of "1 # l @ r" "0 # b"] show ?thesis by auto
    next
      case (node k' l' r')
      with n1 cf[of "1 # l @ r" "1 # l' @ r'"] have "l @ r = l' @ r'" by auto
      with n1 node have lr: "l = l'" "r = r'" by auto
      have "take k xs = take k' ys"
        using n1 node lr less.prems(3)
        by (intro less.hyps) (auto elim: collision_free_mono)
      moreover have "drop k xs = drop k' ys"
        using n1 node lr less.prems(3)
        by (intro less.hyps) (auto elim: collision_free_mono)
      ultimately show ?thesis by (metis append_take_drop_id)
    qed
  qed
qed

text \<open>
  A checkpoint is a size and a root. A list whose prefix of that size has the checkpoint's root
  starts with the checkpointed entries: nothing the checkpoint covered was rewritten or dropped.
\<close>

theorem checkpoint_prefix:
  assumes "\<And>x y b. enc x = Inr b \<Longrightarrow> enc y = Inr b \<Longrightarrow> x = y"
    and "rt old = Inr h" and "length old \<le> length new"
    and "rt (take (length old) new) = Inr h"
    and "collision_free H (set (inp old) \<union> set (inp (take (length old) new)))"
  shows "\<exists>more. new = old @ more"
proof -
  have "old = take (length old) new"
    using assms by (intro root_binding[where h = h]) auto
  then show ?thesis by (metis append_take_drop_id)
qed

end

end
