(* ===== verification/Transparency.thy ===== *)
theory Transparency
  imports Broker Merkle Machine
begin

text \<open>
  The transparency log of \<open>transparency.rs\<close>: a signed Merkle snapshot of every device
  registration, appended to by compare-and-swap on one key of a bucket. The theory models the
  Merkle root, signing and validation of a snapshot, the prefix check against an earlier
  checkpoint, the append loop with its retries, initialisation, registration and the
  reconciliation at service start.
\<close>

section \<open>Hashing and the Merkle root\<close>

definition hash :: "'z crypto_scheme \<Rightarrow> bytes \<Rightarrow> bytes result" where
  "hash E bs =
     bind_r (or_err (sha256 E bs) (Anyhow ''SHA-256 failed'')) (\<lambda>h.
     ensure (length h = 32) ''unexpected SHA-256 length'' (Inr h))"

definition leaf_bytes :: "'z externals_scheme \<Rightarrow> device_registration \<Rightarrow> bytes result" where
  "leaf_bytes E r = encode E (Register r)"

function root :: "'z externals_scheme \<Rightarrow> device_registration list \<Rightarrow> bytes result" where
  "root E xs =
     (case xs of
        [] \<Rightarrow> hash E []
      | [x] \<Rightarrow> bind_r (leaf_bytes E x) (\<lambda>b. hash E (0 # b))
      | _ \<Rightarrow>
          (let split = next_power_of_two (length xs) div 2 in
           bind_r (root E (take split xs)) (\<lambda>l.
           bind_r (root E (drop split xs)) (\<lambda>r. hash E (1 # l @ r)))))"
  by pat_completeness auto
termination
proof (relation "measure (\<lambda>(E, xs). length xs)", goal_cases)
  case (2 E xs x ys y zs k)
  then show ?case using split_point(2)[of "length xs"] by auto
next
  case (3 E xs x ys y zs k l)
  then show ?case using split_point(1)[of "length xs"] by auto
qed auto

declare root.simps [simp del]

text \<open>The strings that \<open>root\<close> hashes, in the order of the tree's nodes.\<close>

function root_inputs :: "'z externals_scheme \<Rightarrow> device_registration list \<Rightarrow> bytes list" where
  "root_inputs E xs =
     (case xs of
        [] \<Rightarrow> [[]]
      | [x] \<Rightarrow> (case leaf_bytes E x of Inl e \<Rightarrow> [] | Inr b \<Rightarrow> [0 # b])
      | _ \<Rightarrow>
          (let split = next_power_of_two (length xs) div 2 in
           (case (root E (take split xs), root E (drop split xs)) of
              (Inr l, Inr r) \<Rightarrow> [1 # l @ r] | _ \<Rightarrow> []) @
           root_inputs E (take split xs) @ root_inputs E (drop split xs)))"
  by pat_completeness auto
termination
proof (relation "measure (\<lambda>(E, xs). length xs)", goal_cases)
  case (2 E xs x ys y zs k)
  then show ?case using split_point(2)[of "length xs"] by auto
next
  case (3 E xs x ys y zs k)
  then show ?case using split_point(1)[of "length xs"] by auto
qed auto

declare root_inputs.simps [simp del]

section \<open>Checkpoints and snapshots\<close>

definition cp_signing_bytes :: "'z externals_scheme \<Rightarrow> checkpoint \<Rightarrow> bytes result" where
  "cp_signing_bytes E c =
     bind_r (pc (pc_checkpoint E (cp_version c, cp_size c, cp_root c, cp_signer c))) (\<lambda>b.
     Inr (as_bytes ''EpochGrid transparency checkpoint v1'' @ [0] @ b))"

fun validate_entries ::
    "'z externals_scheme \<Rightarrow> string list \<Rightarrow> string list \<Rightarrow> device_registration list \<Rightarrow> unit result" where
  "validate_entries E endpoints keys [] = Inr ()"
| "validate_entries E endpoints keys (r # rs) =
     bind_r (verify_signature E r) (\<lambda>_.
     ensure (registration_key (dr_payload r) \<notin> set endpoints \<and>
             rp_nats_public_key (dr_payload r) \<notin> set keys)
       ''duplicate transparency identity''
       (validate_entries E (registration_key (dr_payload r) # endpoints)
          (rp_nats_public_key (dr_payload r) # keys) rs))"

definition snapshot_validate :: "'z externals_scheme \<Rightarrow> snapshot \<Rightarrow> unit result" where
  "snapshot_validate E sn = (let c = sn_checkpoint sn in
     ensure (length (sn_entries sn) \<le> 256) ''transparency entry limit exceeded''
     (bind_r (encode E (AuditLog sn)) (\<lambda>_.
      ensure (cp_version c = 1 \<and> cp_size c = length (sn_entries sn))
        ''invalid transparency version/size''
      (ensure (starts_with ''U'' (cp_signer c)) ''transparency signer must be a user NKey''
      (ensure_e (nkey_ok E (cp_signer c)) (Extern ''invalid public key'')
      (bind_r (cp_signing_bytes E c) (\<lambda>msg.
       bind_r (verify_with E (cp_signer c) msg (cp_signature c)) (\<lambda>_.
       bind_r (root E (sn_entries sn)) (\<lambda>h.
       ensure (h = cp_root c) ''transparency root mismatch''
         (validate_entries E [] [] (sn_entries sn)))))))))))"

definition snapshot_signed ::
    "'z externals_scheme \<Rightarrow> device_registration list \<Rightarrow> keypair \<Rightarrow> snapshot result" where
  "snapshot_signed E entries k =
     bind_r (root E entries) (\<lambda>h.
     (let c = \<lparr>cp_version = 1, cp_size = length entries, cp_root = h,
               cp_signer = public_key k, cp_signature = []\<rparr> in
      bind_r (cp_signing_bytes E c) (\<lambda>msg.
      bind_r (sign_with k msg) (\<lambda>sig.
      (let sn = \<lparr>sn_checkpoint = c\<lparr>cp_signature := sig\<rparr>, sn_entries = entries\<rparr> in
       bind_r (snapshot_validate E sn) (\<lambda>_. Inr sn))))))"

definition extends :: "'z externals_scheme \<Rightarrow> snapshot \<Rightarrow> checkpoint \<Rightarrow> unit result" where
  "extends E sn previous =
     ensure (cp_signer (sn_checkpoint sn) = cp_signer previous)
       ''TRANSPARENCY FAILURE: directory signer changed''
     (ensure (length (sn_entries sn) \<ge> cp_size previous) ''TRANSPARENCY FAILURE: log truncated''
     (bind_r (root E (take (cp_size previous) (sn_entries sn))) (\<lambda>h.
      ensure (h = cp_root previous) ''TRANSPARENCY FAILURE: registration history rewritten''
        (Inr ()))))"

definition decode_snapshot :: "'z externals_scheme \<Rightarrow> bytes \<Rightarrow> snapshot result" where
  "decode_snapshot E bs =
     bind_r (decode E bs) (\<lambda>b.
     bind_r (or_err (as_audit_log b) (Anyhow ''transparency response missing or unsupported'')) (\<lambda>sn.
     bind_r (snapshot_validate E sn) (\<lambda>_. Inr sn)))"

section \<open>Appending\<close>

text \<open>
  One attempt of \<open>append\<close> between the read and the compare-and-swap: \<open>None\<close> when the log
  already holds exactly this registration, otherwise the bytes to swap in.
\<close>

definition append_candidate ::
    "'z externals_scheme \<Rightarrow> keypair \<Rightarrow> device_registration \<Rightarrow> bytes \<Rightarrow> bytes option result" where
  "append_candidate E k r current =
     bind_r (decode_snapshot E current) (\<lambda>sn.
     ensure (cp_signer (sn_checkpoint sn) = public_key k) ''directory signer changed''
     (case find (\<lambda>x. registration_key (dr_payload x) = registration_key (dr_payload r))
             (sn_entries sn) of
        Some existing \<Rightarrow>
          ensure (existing = r) ''immutable transparency registration conflict'' (Inr None)
      | None \<Rightarrow>
          bind_r (snapshot_signed E (sn_entries sn @ [r]) k) (\<lambda>sn'.
          bind_r (encode E (AuditLog sn')) (\<lambda>bs. Inr (Some bs)))))"

fun append_loop ::
    "nat \<Rightarrow> 'z externals_scheme \<Rightarrow> 's kv \<Rightarrow> keypair \<Rightarrow> device_registration \<Rightarrow> 's \<Rightarrow> 's \<times> unit result" where
  "append_loop 0 E K k r s =
     (s, Inl (Anyhow ''transparency append could not be confirmed; retry registration''))"
| "append_loop (Suc n) E K k r s =
     bind_s (kv_entry K ''snapshot'' s) (\<lambda>entry s.
     bind_s (s, or_err entry (Anyhow ''transparency log missing; restart service'')) (\<lambda>(current, rev) s.
     bind_s (s, append_candidate E k r current) (\<lambda>candidate s.
     case candidate of
       None \<Rightarrow> (s, Inr ())
     | Some bs \<Rightarrow>
         (case kv_update K ''snapshot'' bs rev s of
            (s, True) \<Rightarrow> (s, Inr ())
          | (s, False) \<Rightarrow> append_loop n E K k r s))))"

definition append ::
    "'z externals_scheme \<Rightarrow> 's kv \<Rightarrow> keypair \<Rightarrow> device_registration \<Rightarrow> 's \<Rightarrow> 's \<times> unit result" where
  "append E K k r s = bind_s (s, verify E r) (\<lambda>_ s. append_loop 4 E K k r s)"

definition read_log :: "'z externals_scheme \<Rightarrow> 's kv \<Rightarrow> 's \<Rightarrow> 's \<times> snapshot result" where
  "read_log E K s =
     bind_s (kv_get K ''snapshot'' s) (\<lambda>v s.
     bind_s (s, or_err v (Anyhow ''transparency log missing'')) (\<lambda>bs s.
     (s, decode_snapshot E bs)))"

definition initialize :: "'z externals_scheme \<Rightarrow> 's kv \<Rightarrow> keypair \<Rightarrow> 's \<Rightarrow> 's \<times> unit result" where
  "initialize E K k s =
     bind_s (kv_get K ''snapshot'' s) (\<lambda>v s.
     bind_s (if v = None then
         bind_s (s, snapshot_signed E [] k) (\<lambda>sn s.
         bind_s (s, encode E (AuditLog sn)) (\<lambda>bs s.
         (fst (kv_create K ''snapshot'' bs s), Inr ())))
       else (s, Inr ())) (\<lambda>_ s.
     bind_s (read_log E K s) (\<lambda>sn s.
     ensure_s (cp_signer (sn_checkpoint sn) = public_key k)
       ''directory signer differs from persisted log'' s (s, Inr ()))))"

definition register ::
    "'z externals_scheme \<Rightarrow> 's kv \<Rightarrow> 's kv \<Rightarrow> enrollment \<Rightarrow> keypair \<Rightarrow> device_registration \<Rightarrow> 's
      \<Rightarrow> 's \<times> unit result" where
  "register E L D enrollment k r s =
     bind_s (s, verify E r) (\<lambda>_ s.
     ensure_s (enrollment (registration_key (dr_payload r)) = Some (rp_nats_public_key (dr_payload r)))
       ''device not enrolled'' s
     (bind_s (kv_get D (registration_key (dr_payload r)) s) (\<lambda>existing s.
      bind_s (case existing of
          None \<Rightarrow> (s, Inr ())
        | Some bs \<Rightarrow> bind_s (s, decode E bs) (\<lambda>b s.
            ensure_s (b = Register r) ''directory registration conflict'' s (s, Inr ()))) (\<lambda>_ s.
      bind_s (append E L k r s) (\<lambda>_ s. accept E D enrollment r s)))))"

section \<open>Reconciliation at service start\<close>

text \<open>
  The loop over the enrolled endpoints, in the order of the \<open>BTreeMap\<close>'s keys, and the loop
  that repairs missing directory projections.
\<close>

fun import_directory ::
    "'z externals_scheme \<Rightarrow> 's kv \<Rightarrow> 's kv \<Rightarrow> enrollment \<Rightarrow> keypair \<Rightarrow> snapshot \<Rightarrow> string list \<Rightarrow> 's
      \<Rightarrow> 's \<times> unit result" where
  "import_directory E L D enrollment k existing [] s = (s, Inr ())"
| "import_directory E L D enrollment k existing (endpoint # rest) s =
     bind_s (kv_get D endpoint s) (\<lambda>v s.
     bind_s (case v of
         None \<Rightarrow> (s, Inr ())
       | Some bs \<Rightarrow>
           bind_s (s, decode E bs) (\<lambda>b s.
           bind_s (s, or_err (as_register b) (Anyhow ''invalid legacy registration'')) (\<lambda>r s.
           ensure_s (registration_key (dr_payload r) = endpoint)
             ''legacy directory endpoint mismatch'' s
           (case find (\<lambda>x. registration_key (dr_payload x) = endpoint) (sn_entries existing) of
              Some logged \<Rightarrow>
                ensure_s (logged = r) ''directory projection differs from authenticated log'' s
                  (s, Inr ())
            | None \<Rightarrow> register E L D enrollment k r s)))) (\<lambda>_ s.
     import_directory E L D enrollment k existing rest s))"

fun project_all ::
    "'z externals_scheme \<Rightarrow> 's kv \<Rightarrow> enrollment \<Rightarrow> device_registration list \<Rightarrow> 's \<Rightarrow> 's \<times> unit result" where
  "project_all E D enrollment [] s = (s, Inr ())"
| "project_all E D enrollment (r # rs) s =
     bind_s (project_registration E D enrollment r s) (\<lambda>_ s. project_all E D enrollment rs s)"

definition reconcile ::
    "'z externals_scheme \<Rightarrow> 's kv \<Rightarrow> 's kv \<Rightarrow> enrollment \<Rightarrow> string list \<Rightarrow> keypair \<Rightarrow> 's
      \<Rightarrow> 's \<times> unit result" where
  "reconcile E L D enrollment keys k s =
     bind_s (initialize E L k s) (\<lambda>_ s.
     bind_s (read_log E L s) (\<lambda>existing s.
     bind_s (import_directory E L D enrollment k existing keys s) (\<lambda>_ s.
     bind_s (read_log E L s) (\<lambda>sn s. project_all E D enrollment (sn_entries sn) s))))"

section \<open>The Merkle interface\<close>

lemma hash_ok [result_simps]: "hash E bs = Inr h \<longleftrightarrow> sha256 E bs = Some h \<and> length h = 32"
  by (auto simp: hash_def result_simps)

lemma two_le_length: "2 \<le> length xs \<Longrightarrow> \<exists>x y zs. xs = x # y # zs"
  by (cases xs rule: list.exhaust; cases "tl xs") auto

interpretation log_tree: merkle_tree "hash E" "leaf_bytes E" "root E" "root_inputs E"
  for E :: "'z externals_scheme"
proof (unfold_locales, goal_cases)
  case (1 m h) then show ?case by (simp add: result_simps)
next
  case 2 show ?case by (simp add: root.simps)
next
  case (3 x) show ?case by (simp add: root.simps)
next
  case (4 xs)
  then obtain x y zs where xs: "xs = x # y # zs" using two_le_length by blast
  show ?case by (subst root.simps) (simp add: xs Let_def)
next
  case 5 show ?case by (simp add: root_inputs.simps)
next
  case (6 x b) then show ?case by (simp add: root_inputs.simps)
next
  case (7 xs l r)
  then obtain x y zs where xs: "xs = x # y # zs" using two_le_length by blast
  from 7 show ?case by (subst root_inputs.simps) (simp add: xs Let_def)
qed

lemma leaf_bytes_inj:
  "postcard_roundtrip E \<Longrightarrow> leaf_bytes E x = Inr b \<Longrightarrow> leaf_bytes E y = Inr b \<Longrightarrow> x = y"
  using encode_inj[of E "Register x" b "Register y"] by (simp add: leaf_bytes_def)

section \<open>Lemmas on snapshots\<close>

lemma validate_entries_ok:
  assumes "validate_entries E es ks rs = Inr u"
  shows "(\<forall>r \<in> set rs. verify_signature E r = Inr ()) \<and>
    distinct (map (registration_key \<circ> dr_payload) rs) \<and>
    distinct (map (rp_nats_public_key \<circ> dr_payload) rs) \<and>
    set (map (registration_key \<circ> dr_payload) rs) \<inter> set es = {} \<and>
    set (map (rp_nats_public_key \<circ> dr_payload) rs) \<inter> set ks = {}"
  using assms
proof (induction rs arbitrary: es ks)
  case (Cons r rs)
  let ?e = "registration_key (dr_payload r)" and ?k = "rp_nats_public_key (dr_payload r)"
  have r: "verify_signature E r = Inr ()" "?e \<notin> set es" "?k \<notin> set ks"
    and rest: "validate_entries E (?e # es) (?k # ks) rs = Inr u"
    using Cons.prems by (auto simp: result_simps)
  from Cons.IH[OF rest] r show ?case by auto
qed simp

lemma snapshot_validate_ok:
  assumes "snapshot_validate E sn = Inr u"
  shows "length (sn_entries sn) \<le> 256"
    and "cp_size (sn_checkpoint sn) = length (sn_entries sn)"
    and "root E (sn_entries sn) = Inr (cp_root (sn_checkpoint sn))"
    and "\<exists>msg. cp_signing_bytes E (sn_checkpoint sn) = Inr msg \<and>
           nkey_verify E (cp_signer (sn_checkpoint sn)) msg (cp_signature (sn_checkpoint sn))"
    and "\<forall>r \<in> set (sn_entries sn). verify_signature E r = Inr ()"
    and "distinct (map (registration_key \<circ> dr_payload) (sn_entries sn))"
    and "distinct (map (rp_nats_public_key \<circ> dr_payload) (sn_entries sn))"
    and "\<exists>bs. encode E (AuditLog sn) = Inr bs"
proof -
  have "validate_entries E [] [] (sn_entries sn) = Inr ()"
    using assms by (auto simp: snapshot_validate_def Let_def result_simps)
  from validate_entries_ok[OF this] show
    "\<forall>r \<in> set (sn_entries sn). verify_signature E r = Inr ()"
    "distinct (map (registration_key \<circ> dr_payload) (sn_entries sn))"
    "distinct (map (rp_nats_public_key \<circ> dr_payload) (sn_entries sn))"
    by auto
qed (use assms in \<open>auto simp: snapshot_validate_def Let_def result_simps\<close>)

lemma snapshot_signed_ok:
  assumes "snapshot_signed E entries k = Inr sn"
  shows "snapshot_validate E sn = Inr ()" "sn_entries sn = entries"
    "cp_signer (sn_checkpoint sn) = public_key k"
  using assms by (auto simp: snapshot_signed_def Let_def result_simps)

lemma decode_snapshot_ok:
  "decode_snapshot E bs = Inr sn \<longleftrightarrow>
     decode E bs = Inr (AuditLog sn) \<and> snapshot_validate E sn = Inr ()"
  by (auto simp: decode_snapshot_def result_simps)

lemma decode_snapshot_encode:
  assumes "postcard_roundtrip E" "snapshot_validate E sn = Inr ()" "encode E (AuditLog sn) = Inr bs"
  shows "decode_snapshot E bs = Inr sn"
  using assms decode_encode[OF assms(1,3)] by (simp add: decode_snapshot_ok)

text \<open>The prefix check against the checkpoint of a validated snapshot means what it says.\<close>

lemma extends_prefix:
  assumes "postcard_roundtrip E" and "snapshot_validate E old = Inr ()"
    and "extends E new (sn_checkpoint old) = Inr ()"
    and "collision_free (hash E) (set (root_inputs E (sn_entries old)) \<union>
      set (root_inputs E (take (length (sn_entries old)) (sn_entries new))))"
  shows "\<exists>added. sn_entries new = sn_entries old @ added"
proof -
  note v = snapshot_validate_ok[OF assms(2)]
  have "length (sn_entries old) \<le> length (sn_entries new)"
    "root E (take (length (sn_entries old)) (sn_entries new)) = Inr (cp_root (sn_checkpoint old))"
    using assms(3) v(2) by (auto simp: extends_def result_simps)
  from log_tree.checkpoint_prefix[OF _ v(3) this assms(4)] show ?thesis
    using leaf_bytes_inj[OF assms(1)] by blast
qed

text \<open>Conversely every extension of a validated snapshot by the same signer passes the check.\<close>

lemma prefix_extends:
  assumes "snapshot_validate E old = Inr ()"
    and "sn_entries new = sn_entries old @ added"
    and "cp_signer (sn_checkpoint new) = cp_signer (sn_checkpoint old)"
  shows "extends E new (sn_checkpoint old) = Inr ()"
  using assms snapshot_validate_ok[OF assms(1)] by (simp add: extends_def)

lemma append_candidate_Some:
  assumes "postcard_roundtrip E" and "append_candidate E k r current = Inr (Some bs)"
  shows "\<exists>old new. decode_snapshot E current = Inr old \<and> decode_snapshot E bs = Inr new \<and>
    sn_entries new = sn_entries old @ [r] \<and>
    cp_signer (sn_checkpoint new) = cp_signer (sn_checkpoint old) \<and>
    registration_key (dr_payload r) \<notin> (registration_key \<circ> dr_payload) ` set (sn_entries old)"
proof -
  obtain old where old: "decode_snapshot E current = Inr old"
    "cp_signer (sn_checkpoint old) = public_key k"
    using assms(2) by (auto simp: append_candidate_def result_simps)
  obtain new where new: "snapshot_signed E (sn_entries old @ [r]) k = Inr new"
    "encode E (AuditLog new) = Inr bs"
    and absent: "find (\<lambda>x. registration_key (dr_payload x) = registration_key (dr_payload r))
      (sn_entries old) = None"
    using assms(2) old by (auto simp: append_candidate_def result_simps split: option.split_asm)
  note s = snapshot_signed_ok[OF new(1)]
  have "decode_snapshot E bs = Inr new"
    by (rule decode_snapshot_encode[OF assms(1) s(1) new(2)])
  then show ?thesis using old s absent by (auto simp: find_None_iff)
qed

lemma append_candidate_None:
  assumes "append_candidate E k r current = Inr None"
  shows "\<exists>sn. decode_snapshot E current = Inr sn \<and> r \<in> set (sn_entries sn)"
proof -
  obtain sn where sn: "decode_snapshot E current = Inr sn"
    and f: "find (\<lambda>x. registration_key (dr_payload x) = registration_key (dr_payload r))
      (sn_entries sn) = Some r"
    using assms by (auto simp: append_candidate_def result_simps split: option.split_asm)
  then show ?thesis by (metis find_Some_iff nth_mem)
qed

text \<open>An append that reports success leaves the registration in the stored log.\<close>

lemma append_loop_durable:
  assumes "postcard_roundtrip E" and "kv_acks K view"
    and "append_loop n E K k r s = (s', Inr u)"
  shows "\<exists>bs sn. view s' ''snapshot'' = Some bs \<and> decode_snapshot E bs = Inr sn \<and>
    r \<in> set (sn_entries sn)"
  using assms(3)
proof (induction n arbitrary: s)
  case (Suc n)
  obtain s1 current rev candidate where
    e: "kv_entry K ''snapshot'' s = (s1, Inr (Some (current, rev)))"
    "append_candidate E k r current = Inr candidate"
    and rest: "(case candidate of None \<Rightarrow> (s1, Inr ())
      | Some bs \<Rightarrow> (case kv_update K ''snapshot'' bs rev s1 of (s, True) \<Rightarrow> (s, Inr ())
         | (s, False) \<Rightarrow> append_loop n E K k r s)) = (s', Inr u)"
    using Suc.prems by (auto simp: result_simps)
  show ?case
  proof (cases candidate)
    case None
    then have "view s' ''snapshot'' = Some current"
      using kv_acksD(1)[OF assms(2) e(1)] rest by simp
    then show ?thesis using append_candidate_None e(2) None by blast
  next
    case (Some bs)
    obtain s2 ok where u: "kv_update K ''snapshot'' bs rev s1 = (s2, ok)" by fastforce
    show ?thesis
    proof (cases ok)
      case True
      then have "view s' ''snapshot'' = Some bs"
        using kv_acksD(3)[OF assms(2)] u rest Some by auto
      then show ?thesis
        using append_candidate_Some[OF assms(1)] e(2) Some by fastforce
    next
      case False
      then show ?thesis using Suc.IH rest Some u by auto
    qed
  qed
qed simp

lemma initialize_ok:
  assumes "kv_acks K view" and "initialize E K k s = (s', Inr u)"
  shows "\<exists>bs sn. view s' ''snapshot'' = Some bs \<and> decode_snapshot E bs = Inr sn \<and>
    cp_signer (sn_checkpoint sn) = public_key k"
  using assms(2) kv_acksD(2)[OF assms(1)]
  by (fastforce simp: initialize_def read_log_def result_simps)

section \<open>Interleaved appends\<close>

text \<open>
  Several service processes may append at once. The world holds the stored value with its
  revision and, per process, the swap it has prepared: the revision it read and the bytes it
  computed. A process reads and prepares, and later its swap is applied when the revision is
  still the one it read, or refused.
\<close>

record log_world =
  lw_value :: bytes
  lw_revision :: nat
  lw_pending :: "nat \<Rightarrow> (nat \<times> bytes) option"

inductive log_step :: "'z externals_scheme \<Rightarrow> log_world \<Rightarrow> log_world \<Rightarrow> bool"
  for E :: "'z externals_scheme" where
  prepare: "append_candidate E k r (lw_value w) = Inr (Some bs) \<Longrightarrow>
     log_step E w (w\<lparr>lw_pending := (lw_pending w)(c \<mapsto> (lw_revision w, bs))\<rparr>)"
| swap: "lw_pending w c = Some (lw_revision w, bs) \<Longrightarrow>
     log_step E w (w\<lparr>lw_value := bs, lw_revision := lw_revision w + 1,
       lw_pending := (lw_pending w)(c := None)\<rparr>)"
| refused: "lw_pending w c = Some (n, bs) \<Longrightarrow> n \<noteq> lw_revision w \<Longrightarrow>
     log_step E w (w\<lparr>lw_pending := (lw_pending w)(c := None)\<rparr>)"

text \<open>One appended entry under the same signer.\<close>

definition grows_by_one :: "'z externals_scheme \<Rightarrow> bytes \<Rightarrow> bytes \<Rightarrow> bool" where
  "grows_by_one E a b \<longleftrightarrow> (\<exists>old new r. decode_snapshot E a = Inr old \<and> decode_snapshot E b = Inr new \<and>
     sn_entries new = sn_entries old @ [r] \<and>
     cp_signer (sn_checkpoint new) = cp_signer (sn_checkpoint old))"

definition grows :: "'z externals_scheme \<Rightarrow> bytes \<Rightarrow> bytes \<Rightarrow> bool" where
  "grows E a b \<longleftrightarrow> (\<exists>old new added. decode_snapshot E a = Inr old \<and> decode_snapshot E b = Inr new \<and>
     sn_entries new = sn_entries old @ added \<and>
     cp_signer (sn_checkpoint new) = cp_signer (sn_checkpoint old))"

definition log_world_inv :: "'z externals_scheme \<Rightarrow> log_world \<Rightarrow> bool" where
  "log_world_inv E w \<longleftrightarrow> (\<exists>sn. decode_snapshot E (lw_value w) = Inr sn) \<and>
     (\<forall>c n bs. lw_pending w c = Some (n, bs) \<longrightarrow> n \<le> lw_revision w \<and>
        (n = lw_revision w \<longrightarrow> grows_by_one E (lw_value w) bs))"

lemma grows_refl: "decode_snapshot E a = Inr sn \<Longrightarrow> grows E a a"
  by (auto simp: grows_def)

lemma grows_trans: "grows E a b \<Longrightarrow> grows E b c \<Longrightarrow> grows E a c"
  by (fastforce simp: grows_def)

lemma grows_by_one_grows: "grows_by_one E a b \<Longrightarrow> grows E a b"
  by (auto simp: grows_by_one_def grows_def)

lemma log_step_inv:
  assumes "postcard_roundtrip E" and "log_step E w w'" and "log_world_inv E w"
  shows "log_world_inv E w' \<and> grows E (lw_value w) (lw_value w')"
  using assms(2)
proof (cases rule: log_step.cases)
  case (prepare k r bs c)
  have "grows_by_one E (lw_value w) bs"
    using append_candidate_Some[OF assms(1) prepare(2)] by (auto simp: grows_by_one_def)
  then show ?thesis
    using assms(3) prepare(1) by (auto simp: log_world_inv_def grows_refl)
next
  case (swap c bs)
  then have g: "grows_by_one E (lw_value w) bs" using assms(3) by (auto simp: log_world_inv_def)
  then have "\<exists>sn. decode_snapshot E bs = Inr sn" by (auto simp: grows_by_one_def)
  then have "log_world_inv E w'"
    using assms(3) swap(1) by (fastforce simp: log_world_inv_def)
  then show ?thesis using swap(1) grows_by_one_grows[OF g] by simp
next
  case (refused c n bs)
  then show ?thesis using assms(3) by (auto simp: log_world_inv_def grows_refl)
qed

lemma log_steps_inv:
  assumes "postcard_roundtrip E" and "(log_step E)\<^sup>*\<^sup>* w w'" and "log_world_inv E w"
  shows "log_world_inv E w' \<and> grows E (lw_value w) (lw_value w')"
  using assms(2)
proof (induction rule: rtranclp_induct)
  case base
  then show ?case using assms(3) by (auto simp: log_world_inv_def intro: grows_refl)
next
  case (step y z)
  then show ?case using log_step_inv[OF assms(1)] grows_trans by blast
qed

end
