(* ===== verification/Registry.thy ===== *)
theory Registry
  imports AuditLog Transparency
begin

text \<open>
  The authority registry of \<open>identity_model.rs\<close>: users, identity bindings, enrollment tokens,
  devices, group authorizations and their members in one database with the audit store. Each
  operation is one transaction; its error leaves the state as it was.
\<close>

section \<open>Tables\<close>

record user_row =
  ur_id :: string
  ur_enabled :: bool
  ur_ref :: string

record binding_row =
  br_provider :: string
  br_subject :: string
  br_user :: string

record token_row =
  tk_digest :: bytes
  tk_user :: string
  tk_expires :: int
  tk_used_key :: "string option"

record device_row =
  dv_nkey :: string
  dv_user :: string
  dv_device_id :: string
  dv_registration :: bytes
  dv_ready :: bool
  dv_revoked :: bool
  dv_generation :: nat
  dv_ref :: string

record group_row =
  gr_gid :: string
  gr_generation :: nat
  gr_epoch :: nat
  gr_coordinator :: string
  gr_last_update :: bytes
  gr_ref :: string

record member_row =
  mr_gid :: string
  mr_nkey :: string
  mr_leaf :: nat

record registry =
  rg_users :: "user_row list"
  rg_bindings :: "binding_row list"
  rg_tokens :: "token_row list"
  rg_devices :: "device_row list"
  rg_groups :: "group_row list"
  rg_members :: "member_row list"
  rg_audit :: audit_db
  rg_capacity :: capacity
  rg_rates :: "(string \<times> rate_limit) list"

text \<open>
  What one operation draws from outside: the wall clock at its two readings, random bytes for a
  new user and a new token, the reference that the insertion trigger writes, the monotonic
  clock of the rate limiter, and the environment of the audit event.
\<close>

record registry_env =
  re_now :: "int option"
  re_now_tx :: "int option"
  re_user_bytes :: "bytes option"
  re_token_bytes :: "bytes option"
  re_ref :: string
  re_instant :: nat
  re_audit :: audit_env

type_synonym rpager = "registry \<Rightarrow> nat \<times> nat option"

definition clock :: "int option \<Rightarrow> int result" where
  "clock t = or_err t (Extern ''system time'')"

definition audit_pager :: "rpager \<Rightarrow> registry \<Rightarrow> pager" where
  "audit_pager P r = (\<lambda>a. P (r\<lparr>rg_audit := a\<rparr>))"

text \<open>\<open>audit::append\<close> and \<open>audit::repair\<close> inside a registry transaction.\<close>

definition append_event ::
    "'z authority_ext_scheme \<Rightarrow> audit_env \<Rightarrow> event \<Rightarrow> bool \<Rightarrow> registry \<Rightarrow> registry result" where
  "append_event E env ev reserve r =
     bind_r (audit_append E env ev reserve (rg_audit r)) (\<lambda>(_, a). Inr (r\<lparr>rg_audit := a\<rparr>))"

definition repair_event ::
    "'z authority_ext_scheme \<Rightarrow> audit_env \<Rightarrow> rpager \<Rightarrow> event \<Rightarrow> registry \<Rightarrow> registry" where
  "repair_event E env P ev r =
     r\<lparr>rg_audit := repair E env (rg_capacity r) (audit_pager P r) ev (rg_audit r)\<rparr>"

definition record_event ::
    "'z authority_ext_scheme \<Rightarrow> audit_env \<Rightarrow> rpager \<Rightarrow> event \<Rightarrow> registry \<Rightarrow> registry result" where
  "record_event E env P ev r =
     bind_r (audit_event E env (rg_capacity r) (audit_pager P r) ev (rg_audit r)) (\<lambda>(_, a).
     Inr (r\<lparr>rg_audit := a\<rparr>))"

text \<open>\<open>audit::reference\<close> on the three tables that carry references.\<close>

definition reference_user :: "registry \<Rightarrow> string \<Rightarrow> string result" where
  "reference_user r uid =
     bind_r (or_err (select_one (\<lambda>u. ur_id u = uid) (rg_users r)) (Sql ''no row'')) (\<lambda>u.
     reference_try_from (ur_ref u))"

definition reference_device :: "registry \<Rightarrow> string \<Rightarrow> string result" where
  "reference_device r key =
     bind_r (or_err (select_one (\<lambda>d. dv_nkey d = key) (rg_devices r)) (Sql ''no row'')) (\<lambda>d.
     reference_try_from (dv_ref d))"

definition reference_group :: "registry \<Rightarrow> string \<Rightarrow> string result" where
  "reference_group r gid =
     bind_r (or_err (select_one (\<lambda>g. gr_gid g = gid) (rg_groups r)) (Sql ''no row'')) (\<lambda>g.
     reference_try_from (gr_ref g))"

section \<open>Declared limits\<close>

text \<open>\<open>COALESCE(MAX(n),0)\<close> over the group counts of a table.\<close>

definition max_group :: "('r \<Rightarrow> 'k) \<Rightarrow> 'r list \<Rightarrow> nat" where
  "max_group key t = fold max (map (\<lambda>x. count_where (\<lambda>y. key y = key x) t) t) 0"

definition registry_usage :: "registry \<Rightarrow> (nat \<times> nat) list" where
  "registry_usage r = (let c = rg_capacity r in
     [(length (rg_users r), retained_users c),
      (length (rg_devices r), retained_devices c),
      (length (rg_tokens r), retained_tokens c),
      (length (rg_groups r), retained_groups c),
      (length (rg_members r), membership_edges c),
      (max_group dv_user (filter (\<lambda>d. \<not> dv_revoked d) (rg_devices r)), devices_per_user c),
      (max_group mr_nkey (rg_members r), groups_per_device c),
      (fold max (map (length \<circ> dv_registration) (rg_devices r)) 0, REGISTRATION_BYTES)])"

definition check_registry :: "rpager \<Rightarrow> registry \<Rightarrow> unit result" where
  "check_registry P r =
     ensure (list_all (\<lambda>(n, limit). n \<le> limit) (registry_usage r))
       ''capacity exhausted: registry; increase declared limits within representation ceilings''
       (check_database (rg_capacity r) (P r) True)"

record usage =
  us_users :: "nat \<times> nat"
  us_devices :: "nat \<times> nat"
  us_tokens :: "nat \<times> nat"
  us_groups :: "nat \<times> nat"
  us_memberships :: "nat \<times> nat"
  us_database_bytes :: "nat \<times> nat"
  us_recovery_bytes :: nat

definition diagnostic_usage :: "rpager \<Rightarrow> registry \<Rightarrow> usage result" where
  "diagnostic_usage P r = (let c = rg_capacity r in
     bind_r (or_err (snd (P r)) (Anyhow ''invalid page size'')) (\<lambda>page_size.
     ensure (fst (P r) * page_size \<le> U64_MAX) ''page overflow''
       (Inr \<lparr>us_users = (length (rg_users r), retained_users c),
         us_devices = (length (rg_devices r), retained_devices c),
         us_tokens = (length (rg_tokens r), retained_tokens c),
         us_groups = (length (rg_groups r), retained_groups c),
         us_memberships = (length (rg_members r), membership_edges c),
         us_database_bytes = (fst (P r) * page_size, database_bytes c),
         us_recovery_bytes = recovery_bytes c\<rparr>)))"

section \<open>Enrollment\<close>

definition user_enabled :: "registry \<Rightarrow> string \<Rightarrow> bool" where
  "user_enabled r uid \<longleftrightarrow> list_ex (\<lambda>u. ur_id u = uid \<and> ur_enabled u) (rg_users r)"

text \<open>\<open>LocalIdentityProvider::authenticate\<close>: the rows of the three-way join, in order.\<close>

definition authenticate ::
    "'z authority_ext_scheme \<Rightarrow> int option \<Rightarrow> registry \<Rightarrow> string \<Rightarrow> (string \<times> string) result" where
  "authenticate E t r credential =
     bind_r (token_user E credential) (\<lambda>uid.
     bind_r (hash E (as_bytes credential)) (\<lambda>digest.
     bind_r (clock t) (\<lambda>now.
     (case [br_subject b. k \<leftarrow> rg_tokens r, tk_digest k = digest \<and> tk_user k = uid \<and>
             tk_expires k > now \<and> tk_used_key k = None,
           b \<leftarrow> rg_bindings r, br_user b = tk_user k \<and> br_provider b = ''local'',
           u \<leftarrow> rg_users r, ur_id u = br_user b \<and> ur_enabled u] of
        [] \<Rightarrow> Inl (Anyhow ''invalid or expired enrollment credential'')
      | s # _ \<Rightarrow> Inr (''local'', s)))))"

definition resolve ::
    "'z authority_ext_scheme \<Rightarrow> registry \<Rightarrow> string \<times> string \<Rightarrow> string result" where
  "resolve E r binding =
     bind_r (or_err (select_one (\<lambda>b. br_provider b = fst binding \<and> br_subject b = snd binding)
       (rg_bindings r)) (Sql ''no row'')) (\<lambda>b. user_id_try_from E (br_user b))"

text \<open>The part of \<open>invite\<close> that finds or creates the user of a handle.\<close>

definition invite_user ::
    "'z authority_ext_scheme \<Rightarrow> registry_env \<Rightarrow> string \<Rightarrow> registry \<Rightarrow> (string \<times> registry) result" where
  "invite_user E env handle r =
     (case select_one (\<lambda>b. br_provider b = ''local'' \<and> br_subject b = handle) (rg_bindings r) of
        Some b \<Rightarrow> Inr (br_user b, r)
      | None \<Rightarrow>
          bind_r (or_err (re_user_bytes env) (Anyhow ''identity randomness unavailable'')) (\<lambda>bs.
          (let uid = ''egusr-'' @ to_ascii_lower (b32_encode E bs) in
           bind_r (insert_row ur_id \<lparr>ur_id = uid, ur_enabled = True, ur_ref = re_ref env\<rparr> (rg_users r)) (\<lambda>users.
           bind_r (insert_row (\<lambda>b. (br_provider b, br_subject b))
               \<lparr>br_provider = ''local'', br_subject = handle, br_user = uid\<rparr> (rg_bindings r)) (\<lambda>bindings.
           Inr (uid, r\<lparr>rg_users := users, rg_bindings := bindings\<rparr>))))))"

definition invite ::
    "'z authority_ext_scheme \<Rightarrow> registry_env \<Rightarrow> rpager \<Rightarrow> string \<Rightarrow> nat \<Rightarrow> registry
      \<Rightarrow> (string \<times> registry) result" where
  "invite E env P handle ttl r =
     bind_r (validate_id handle) (\<lambda>_.
     ensure (1 \<le> ttl \<and> ttl \<le> 3600) ''enrollment lifetime must be 1-3600 seconds''
     (bind_r (invite_user E env handle r) (\<lambda>(uid, r1).
      bind_r (or_err (select_one (\<lambda>u. ur_id u = uid) (rg_users r1)) (Sql ''no row'')) (\<lambda>u.
      ensure (ur_enabled u) ''user disabled''
      (bind_r (or_err (re_token_bytes env) (Anyhow ''identity randomness unavailable'')) (\<lambda>secret.
       (let token = ''EG1.'' @ uid @ ''.'' @ b32_encode E secret in
        bind_r (hash E (as_bytes token)) (\<lambda>digest.
        bind_r (clock (re_now env)) (\<lambda>now.
        bind_r (insert_row tk_digest \<lparr>tk_digest = digest, tk_user = uid, tk_expires = now + int ttl,
            tk_used_key = None\<rparr> (rg_tokens r1)) (\<lambda>tokens.
        (let r2 = r1\<lparr>rg_tokens := tokens\<rparr> in
         bind_r (reference_user r2 uid) (\<lambda>target.
         bind_r (append_event E (re_audit env) ((committed TokenIssued)\<lparr>e_actor := LocalOperator,
             e_target_reference := Some target\<rparr>) False r2) (\<lambda>r3.
         bind_r (check_registry P r3) (\<lambda>_.
         bind_r (check_database (rg_capacity r3) (P r3) False) (\<lambda>_.
         Inr (token, r3))))))))))))))))"

definition enrollment_admission ::
    "'z authority_ext_scheme \<Rightarrow> registry_env \<Rightarrow> registry \<Rightarrow> string \<Rightarrow> string \<Rightarrow> string result" where
  "enrollment_admission E env r token key =
     (case authenticate E (re_now env) r token of
        Inr binding \<Rightarrow> resolve E r binding
      | Inl _ \<Rightarrow>
          bind_r (token_user E token) (\<lambda>uid.
          bind_r (hash E (as_bytes token)) (\<lambda>digest.
          bind_r (clock (re_now_tx env)) (\<lambda>now.
          ensure (list_ex (\<lambda>t. tk_digest t = digest \<and> tk_used_key t = Some key \<and> tk_user t = uid \<and>
              tk_expires t > now \<and>
              list_ex (\<lambda>d. dv_nkey d = key \<and> \<not> dv_revoked d \<and> user_enabled r (dv_user d)) (rg_devices r))
            (rg_tokens r))
            ''enrollment credential not admitted'' (Inr uid)))))"

definition enroll_retry ::
    "'z authority_ext_scheme \<Rightarrow> registry_env \<Rightarrow> rpager \<Rightarrow> string \<Rightarrow> bytes \<Rightarrow> string \<Rightarrow> registry
      \<Rightarrow> registry result" where
  "enroll_retry E env P key encoded previous r =
     ensure (previous = key) ''enrollment token already consumed''
     (bind_r (or_err (select_one (\<lambda>d. dv_nkey d = key \<and> \<not> dv_revoked d \<and> user_enabled r (dv_user d))
         (rg_devices r)) (Sql ''no row'')) (\<lambda>old.
      ensure (dv_registration old = encoded) ''enrollment retry changed device binding''
      (bind_r (reference_device r key) (\<lambda>ref.
       record_event E (re_audit env) P ((committed DeviceEnrolled)\<lparr>e_stage := Result,
         e_reason := IdempotentRetry, e_actor := VerifiedDevice, e_actor_reference := Some ref\<rparr>) r))))"

definition token_consumable :: "registry \<Rightarrow> bytes \<Rightarrow> int \<Rightarrow> token_row \<Rightarrow> bool" where
  "token_consumable r digest now t \<longleftrightarrow> tk_digest t = digest \<and> tk_used_key t = None \<and>
     tk_expires t > now \<and> user_enabled r (tk_user t)"

definition insert_device :: "device_row \<Rightarrow> registry \<Rightarrow> registry result" where
  "insert_device d r =
     ensure_e (dv_user d \<in> ur_id ` set (rg_users r)) (Sql ''FOREIGN KEY constraint failed'')
     (ensure_e ((dv_user d, dv_device_id d) \<notin> (\<lambda>x. (dv_user x, dv_device_id x)) ` set (rg_devices r))
       (Sql ''UNIQUE constraint failed'')
     (bind_r (insert_row dv_nkey d (rg_devices r)) (\<lambda>devices. Inr (r\<lparr>rg_devices := devices\<rparr>))))"

definition enroll_new ::
    "'z authority_ext_scheme \<Rightarrow> registry_env \<Rightarrow> rpager \<Rightarrow> string \<Rightarrow> string \<Rightarrow> string \<Rightarrow> bytes \<Rightarrow> bytes
      \<Rightarrow> registry \<Rightarrow> registry result" where
  "enroll_new E env P uid key device_id digest encoded r =
     bind_r (clock (re_now_tx env)) (\<lambda>now.
     (let used = count_where (token_consumable r digest now) (rg_tokens r);
          r1 = r\<lparr>rg_tokens := update_where (token_consumable r digest now)
            (\<lambda>t. t\<lparr>tk_used_key := Some key\<rparr>) (rg_tokens r)\<rparr> in
      ensure (used = 1) ''enrollment token expired or consumed''
      (bind_r (insert_device \<lparr>dv_nkey = key, dv_user = uid, dv_device_id = device_id,
          dv_registration = encoded, dv_ready = False, dv_revoked = False, dv_generation = 1,
          dv_ref = re_ref env\<rparr> r1) (\<lambda>r2.
       bind_r (reference_device r2 key) (\<lambda>ref.
       bind_r (append_event E (re_audit env) ((committed DeviceEnrolled)\<lparr>e_actor := VerifiedDevice,
           e_actor_reference := Some ref, e_target_reference := Some ref\<rparr>) False r2) (\<lambda>r3.
       bind_r (check_registry P r3) (\<lambda>_.
       bind_r (check_database (rg_capacity r3) (P r3) False) (\<lambda>_. Inr r3))))))))"

definition enroll ::
    "'z authority_ext_scheme \<Rightarrow> registry_env \<Rightarrow> rpager \<Rightarrow> string \<Rightarrow> device_registration \<Rightarrow> registry
      \<Rightarrow> registry result" where
  "enroll E env P token registration r =
     (let p = dr_payload registration; key = rp_nats_public_key p in
      bind_r (verify E registration) (\<lambda>_.
      bind_r (token_user E token) (\<lambda>uid.
      ensure (rp_user_id p = uid \<and> rp_generation p = 1) ''enrollment identity mismatch''
      (bind_r (hash E (as_bytes token)) (\<lambda>digest.
       bind_r (encode E (Register registration)) (\<lambda>encoded.
       (case Option.bind (select_one (\<lambda>t. tk_digest t = digest) (rg_tokens r)) tk_used_key of
          Some previous \<Rightarrow> enroll_retry E env P key encoded previous r
        | None \<Rightarrow>
            bind_r (authenticate E (re_now env) r token) (\<lambda>binding.
            bind_r (resolve E r binding) (\<lambda>resolved.
            ensure (resolved = uid) ''provider binding mismatch''
              (enroll_new E env P uid key (rp_device_id p) digest encoded r))))))))))"

section \<open>Admission\<close>

definition update_device :: "string \<Rightarrow> (device_row \<Rightarrow> device_row) \<Rightarrow> registry \<Rightarrow> registry" where
  "update_device key f r = r\<lparr>rg_devices := update_where (\<lambda>d. dv_nkey d = key) f (rg_devices r)\<rparr>"

definition activate ::
    "'z authority_ext_scheme \<Rightarrow> registry_env \<Rightarrow> rpager \<Rightarrow> string \<Rightarrow> registry \<Rightarrow> registry result" where
  "activate E env P key r =
     bind_r (or_err (select_one (\<lambda>d. dv_nkey d = key \<and> \<not> dv_revoked d) (rg_devices r)) (Sql ''no row'')) (\<lambda>d.
     if dv_ready d then Inr r
     else
       (let r1 = update_device key (\<lambda>d. d\<lparr>dv_ready := True\<rparr>) r in
        bind_r (reference_device r1 key) (\<lambda>target.
        bind_r (append_event E (re_audit env)
          ((committed DeviceActivated)\<lparr>e_target_reference := Some target\<rparr>) False r1) (\<lambda>r2.
        bind_r (check_database (rg_capacity r2) (P r2) False) (\<lambda>_. Inr r2)))))"

record device_authorization =
  da_user :: string
  da_device :: string
  da_nkey :: string
  da_generation :: nat

definition admitted_row :: "registry \<Rightarrow> string \<Rightarrow> device_row \<Rightarrow> bool" where
  "admitted_row r key d \<longleftrightarrow> dv_nkey d = key \<and> dv_ready d \<and> \<not> dv_revoked d \<and> user_enabled r (dv_user d)"

definition authorize ::
    "'z authority_ext_scheme \<Rightarrow> registry \<Rightarrow> string \<Rightarrow> device_authorization result" where
  "authorize E r key =
     bind_r (or_err (select_one (admitted_row r key) (rg_devices r)) (Anyhow ''device not admitted'')) (\<lambda>d.
     bind_r (decode E (dv_registration d)) (\<lambda>b.
     bind_r (or_err (as_register b) (Anyhow ''invalid admission registration'')) (\<lambda>registration.
     bind_r (verify_signature E registration) (\<lambda>_.
     (let p = dr_payload registration in
      ensure (rp_nats_public_key p = key \<and> rp_user_id p = dv_user d \<and> rp_device_id p = dv_device_id d)
        ''admission registration binding mismatch''
      (ensure (dv_generation d > 0) ''invalid authorization generation''
      (bind_r (user_id_try_from E (dv_user d)) (\<lambda>user.
       Inr \<lparr>da_user = user, da_device = dv_device_id d, da_nkey = key,
         da_generation = dv_generation d\<rparr>))))))))"

text \<open>\<open>revoke\<close>, statement by statement.\<close>

definition groups_of :: "registry \<Rightarrow> string \<Rightarrow> string set" where
  "groups_of r key = mr_gid ` {m \<in> set (rg_members r). mr_nkey m = key}"

definition bump_peers :: "string \<Rightarrow> registry \<Rightarrow> registry" where
  "bump_peers key r = r\<lparr>rg_devices := update_where
     (\<lambda>d. dv_nkey d \<in> mr_nkey ` {m \<in> set (rg_members r). mr_gid m \<in> groups_of r key})
     (\<lambda>d. d\<lparr>dv_generation := dv_generation d + 1\<rparr>) (rg_devices r)\<rparr>"

definition bump_groups :: "string \<Rightarrow> registry \<Rightarrow> registry" where
  "bump_groups key r = r\<lparr>rg_groups := update_where (\<lambda>g. gr_gid g \<in> groups_of r key)
     (\<lambda>g. g\<lparr>gr_generation := gr_generation g + 1, gr_last_update := []\<rparr>) (rg_groups r)\<rparr>"

definition remove_member :: "string \<Rightarrow> registry \<Rightarrow> registry" where
  "remove_member key r = r\<lparr>rg_members := delete_where (\<lambda>m. mr_nkey m = key) (rg_members r)\<rparr>"

definition successor :: "registry \<Rightarrow> string \<Rightarrow> string" where
  "successor r gid =
     (case sort_key mr_leaf (filter (\<lambda>m. mr_gid m = gid) (rg_members r)) of
        [] \<Rightarrow> []
      | m # _ \<Rightarrow> mr_nkey m)"

definition reassign_coordinator :: "string \<Rightarrow> registry \<Rightarrow> registry" where
  "reassign_coordinator key r = r\<lparr>rg_groups := update_where (\<lambda>g. gr_coordinator g = key)
     (\<lambda>g. g\<lparr>gr_coordinator := successor r (gr_gid g)\<rparr>) (rg_groups r)\<rparr>"

definition mark_revoked :: "string \<Rightarrow> registry \<Rightarrow> registry" where
  "mark_revoked key r = r\<lparr>rg_devices := update_where (\<lambda>d. dv_nkey d = key \<and> \<not> dv_revoked d)
     (\<lambda>d. d\<lparr>dv_revoked := True, dv_generation := dv_generation d + 1\<rparr>) (rg_devices r)\<rparr>"

definition revoke_tables :: "string \<Rightarrow> registry \<Rightarrow> registry" where
  "revoke_tables key r =
     mark_revoked key (reassign_coordinator key (remove_member key (bump_groups key (bump_peers key r))))"

definition revoke ::
    "'z authority_ext_scheme \<Rightarrow> registry_env \<Rightarrow> rpager \<Rightarrow> string \<Rightarrow> registry \<Rightarrow> registry result" where
  "revoke E env P key r =
     (if \<not> list_ex (\<lambda>d. dv_nkey d = key \<and> \<not> dv_revoked d) (rg_devices r) then Inr r
      else
        (let r1 = revoke_tables key r;
             r2 = repair_event E (re_audit env) P
               ((committed DeviceRevoked)\<lparr>e_target_reference := ok (reference_device r1 key)\<rparr>) r1 in
         bind_r (check_database (rg_capacity r2) (P r2) True) (\<lambda>_. Inr r2)))"

section \<open>Listings\<close>

text \<open>The enrollment is a \<open>BTreeMap\<close> from device keys to NKeys: a later row replaces an earlier one.\<close>

definition enrollment_records :: "registry \<Rightarrow> bool \<Rightarrow> string \<Rightarrow> string option" where
  "enrollment_records r include_revoked =
     fold (\<lambda>d m. m(device_key (dv_user d) (dv_device_id d) \<mapsto> dv_nkey d))
       (filter (\<lambda>d. include_revoked \<or> \<not> dv_revoked d) (rg_devices r)) Map.empty"

definition active_enrollment :: "registry \<Rightarrow> string \<Rightarrow> string option" where
  "active_enrollment r = enrollment_records r False"

definition historical_enrollment :: "registry \<Rightarrow> string \<Rightarrow> string option" where
  "historical_enrollment r = enrollment_records r True"

definition registrations :: "'z authority_ext_scheme \<Rightarrow> registry \<Rightarrow> device_registration list result" where
  "registrations E r =
     map_r (\<lambda>d. bind_r (decode E (dv_registration d)) (\<lambda>b.
       or_err (as_register b) (Anyhow ''invalid registry registration'')))
       (filter (\<lambda>d. \<not> dv_revoked d) (rg_devices r))"

text \<open>The migrations of \<open>AuthRegistry::open\<close> on an empty database.\<close>

definition open_empty ::
    "registry_env \<Rightarrow> rpager \<Rightarrow> capacity \<Rightarrow> registry result" where
  "open_empty env P c =
     bind_r (audit_migrate (re_audit env) \<lparr>ad_schema = 2, ad_store_id = [], ad_next_sequence = 0,
       ad_retained_from = 0, ad_events_count = 0, ad_bytes = 0, ad_gaps = False, ad_policy_version = 0,
       ad_prune_through = 0, ad_degraded = False, ad_pending = [], ad_events = []\<rparr>) (\<lambda>(_, a).
     (let r = \<lparr>rg_users = [], rg_bindings = [], rg_tokens = [], rg_devices = [], rg_groups = [],
         rg_members = [], rg_audit = a, rg_capacity = c, rg_rates = []\<rparr> in
      bind_r (check_registry P r) (\<lambda>_. Inr r)))"

section \<open>The invariant\<close>

definition reg_keys :: "registry \<Rightarrow> bool" where
  "reg_keys r \<longleftrightarrow>
     distinct (map ur_id (rg_users r)) \<and>
     distinct (map (\<lambda>b. (br_provider b, br_subject b)) (rg_bindings r)) \<and>
     distinct (map tk_digest (rg_tokens r)) \<and>
     distinct (map dv_nkey (rg_devices r)) \<and>
     distinct (map (\<lambda>d. (dv_user d, dv_device_id d)) (rg_devices r)) \<and>
     distinct (map gr_gid (rg_groups r)) \<and>
     distinct (map (\<lambda>m. (mr_gid m, mr_nkey m)) (rg_members r)) \<and>
     distinct (map (\<lambda>m. (mr_gid m, mr_leaf m)) (rg_members r))"

definition reg_refs :: "registry \<Rightarrow> bool" where
  "reg_refs r \<longleftrightarrow>
     br_user ` set (rg_bindings r) \<subseteq> ur_id ` set (rg_users r) \<and>
     tk_user ` set (rg_tokens r) \<subseteq> ur_id ` set (rg_users r) \<and>
     dv_user ` set (rg_devices r) \<subseteq> ur_id ` set (rg_users r) \<and>
     mr_gid ` set (rg_members r) \<subseteq> gr_gid ` set (rg_groups r)"

text \<open>Each admission row carries a registration signed by the device key it names.\<close>

definition device_ok :: "'z authority_ext_scheme \<Rightarrow> device_row \<Rightarrow> bool" where
  "device_ok E d \<longleftrightarrow> dv_generation d > 0 \<and> user_id_try_from E (dv_user d) = Inr (dv_user d) \<and>
     (\<exists>reg. encode E (Register reg) = Inr (dv_registration d) \<and> verify_signature E reg = Inr () \<and>
        rp_nats_public_key (dr_payload reg) = dv_nkey d \<and> rp_user_id (dr_payload reg) = dv_user d \<and>
        rp_device_id (dr_payload reg) = dv_device_id d)"

text \<open>A token is consumed by one device of its user, and a device consumes one token.\<close>

definition reg_tokens :: "registry \<Rightarrow> bool" where
  "reg_tokens r \<longleftrightarrow>
     (\<forall>t \<in> set (rg_tokens r). \<forall>k. tk_used_key t = Some k \<longrightarrow>
        (\<exists>d \<in> set (rg_devices r). dv_nkey d = k)) \<and>
     (\<forall>t \<in> set (rg_tokens r). \<forall>t' \<in> set (rg_tokens r).
        tk_used_key t \<noteq> None \<longrightarrow> tk_used_key t = tk_used_key t' \<longrightarrow> t = t')"

definition live_key :: "registry \<Rightarrow> string \<Rightarrow> bool" where
  "live_key r k \<longleftrightarrow> (\<exists>d \<in> set (rg_devices r). dv_nkey d = k \<and> dv_ready d \<and> \<not> dv_revoked d)"

definition reg_members :: "registry \<Rightarrow> bool" where
  "reg_members r \<longleftrightarrow> (\<forall>m \<in> set (rg_members r). live_key r (mr_nkey m))"

definition reg_coordinators :: "registry \<Rightarrow> bool" where
  "reg_coordinators r \<longleftrightarrow> (\<forall>g \<in> set (rg_groups r). gr_coordinator g = [] \<or>
     (\<exists>m \<in> set (rg_members r). mr_gid m = gr_gid g \<and> mr_nkey m = gr_coordinator g))"

definition reg_limits :: "registry \<Rightarrow> bool" where
  "reg_limits r \<longleftrightarrow> list_all (\<lambda>(n, limit). n \<le> limit) (registry_usage r)"

definition reg_rates :: "registry \<Rightarrow> bool" where
  "reg_rates r \<longleftrightarrow> distinct (map fst (rg_rates r)) \<and> length (rg_rates r) \<le> 32 \<and>
     list_all (rate_ok \<circ> snd) (rg_rates r)"

definition reg_tables :: "'z authority_ext_scheme \<Rightarrow> registry \<Rightarrow> bool" where
  "reg_tables E r \<longleftrightarrow> reg_keys r \<and> reg_refs r \<and> list_all (device_ok E) (rg_devices r) \<and> reg_tokens r \<and>
     reg_members r \<and> reg_coordinators r"

definition reg_inv :: "'z authority_ext_scheme \<Rightarrow> registry \<Rightarrow> bool" where
  "reg_inv E r \<longleftrightarrow> reg_tables E r \<and> reg_limits r \<and> reg_rates r \<and> audit_inv E (rg_audit r)"

lemmas reg_defs = reg_keys_def reg_refs_def reg_tokens_def reg_members_def reg_coordinators_def
  live_key_def

section \<open>The order on registries\<close>

text \<open>
  Rows are never removed from the user, token, device and group tables; what may change in a row
  only moves one way.
\<close>

definition token_le :: "token_row \<Rightarrow> token_row \<Rightarrow> bool" where
  "token_le t t' \<longleftrightarrow> tk_digest t' = tk_digest t \<and> tk_user t' = tk_user t \<and> tk_expires t' = tk_expires t \<and>
     (tk_used_key t = None \<or> tk_used_key t' = tk_used_key t)"

definition device_le :: "device_row \<Rightarrow> device_row \<Rightarrow> bool" where
  "device_le d d' \<longleftrightarrow> dv_nkey d' = dv_nkey d \<and> dv_user d' = dv_user d \<and> dv_device_id d' = dv_device_id d \<and>
     dv_registration d' = dv_registration d \<and> dv_ref d' = dv_ref d \<and> (dv_ready d \<longrightarrow> dv_ready d') \<and>
     (dv_revoked d \<longrightarrow> dv_revoked d') \<and> dv_generation d \<le> dv_generation d'"

definition group_le :: "group_row \<Rightarrow> group_row \<Rightarrow> bool" where
  "group_le g g' \<longleftrightarrow> gr_gid g' = gr_gid g \<and> gr_ref g' = gr_ref g \<and>
     gr_generation g \<le> gr_generation g' \<and> gr_epoch g \<le> gr_epoch g'"

definition table_le :: "('r \<Rightarrow> 'r \<Rightarrow> bool) \<Rightarrow> 'r list \<Rightarrow> 'r list \<Rightarrow> bool" where
  "table_le le t t' \<longleftrightarrow> (\<forall>x \<in> set t. \<exists>y \<in> set t'. le x y)"

definition reg_le :: "registry \<Rightarrow> registry \<Rightarrow> bool" where
  "reg_le r r' \<longleftrightarrow> set (rg_users r) \<subseteq> set (rg_users r') \<and> set (rg_bindings r) \<subseteq> set (rg_bindings r') \<and>
     table_le token_le (rg_tokens r) (rg_tokens r') \<and> table_le device_le (rg_devices r) (rg_devices r') \<and>
     table_le group_le (rg_groups r) (rg_groups r')"

lemma row_le_refl [simp, intro]: "token_le t t" "device_le d d" "group_le g g"
  by (simp_all add: token_le_def device_le_def group_le_def)

lemma row_le_trans:
  "token_le t t' \<Longrightarrow> token_le t' t'' \<Longrightarrow> token_le t t''"
  "device_le d d' \<Longrightarrow> device_le d' d'' \<Longrightarrow> device_le d d''"
  "group_le g g' \<Longrightarrow> group_le g' g'' \<Longrightarrow> group_le g g''"
  by (auto simp: token_le_def device_le_def group_le_def)

lemma table_le_refl: "(\<And>x. le x x) \<Longrightarrow> table_le le t t"
  by (auto simp: table_le_def)

lemma table_le_trans:
  assumes "\<And>x y z. le x y \<Longrightarrow> le y z \<Longrightarrow> le x z" "table_le le t t'" "table_le le t' t''"
  shows "table_le le t t''"
  using assms unfolding table_le_def by meson

lemma table_le_append: "(\<And>x. le x x) \<Longrightarrow> table_le le t (t @ u)"
  by (auto simp: table_le_def)

lemma table_le_update:
  assumes "\<And>x. le x x" "\<And>x. x \<in> set t \<Longrightarrow> p x \<Longrightarrow> le x (f x)"
  shows "table_le le t (update_where p f t)"
proof -
  have "\<exists>y \<in> set (update_where p f t). le x y" if "x \<in> set t" for x
    unfolding set_update_where
    by (rule bexI[OF _ imageI[OF that]]) (use assms that in auto)
  then show ?thesis by (simp add: table_le_def)
qed

lemma reg_le_refl [simp, intro]: "reg_le r r"
  by (simp add: reg_le_def table_le_refl)

lemma table_le_trans_rows:
  "table_le token_le t t' \<Longrightarrow> table_le token_le t' t'' \<Longrightarrow> table_le token_le t t''"
  "table_le device_le d d' \<Longrightarrow> table_le device_le d' d'' \<Longrightarrow> table_le device_le d d''"
  "table_le group_le g g' \<Longrightarrow> table_le group_le g' g'' \<Longrightarrow> table_le group_le g g''"
  by (rule table_le_trans; (assumption | erule (1) row_le_trans))+

lemma reg_le_trans:
  assumes "reg_le r r'" "reg_le r' r''"
  shows "reg_le r r''"
  using assms table_le_trans_rows unfolding reg_le_def by (metis order_trans)

lemma reg_frame [simp]:
  "reg_tables E (r\<lparr>rg_audit := a\<rparr>) = reg_tables E r" "reg_limits (r\<lparr>rg_audit := a\<rparr>) = reg_limits r"
  "reg_rates (r\<lparr>rg_audit := a\<rparr>) = reg_rates r" "reg_le r (r'\<lparr>rg_audit := a\<rparr>) = reg_le r r'"
  "reg_tables E (r\<lparr>rg_rates := q\<rparr>) = reg_tables E r" "reg_limits (r\<lparr>rg_rates := q\<rparr>) = reg_limits r"
  "reg_le r (r'\<lparr>rg_rates := q\<rparr>) = reg_le r r'"
  by (simp_all add: reg_tables_def reg_defs reg_limits_def registry_usage_def reg_rates_def reg_le_def)

lemma reg_rates_frame [simp]:
  "reg_rates (r\<lparr>rg_devices := d\<rparr>) = reg_rates r" "reg_rates (r\<lparr>rg_users := u\<rparr>) = reg_rates r"
  "reg_rates (r\<lparr>rg_bindings := b\<rparr>) = reg_rates r" "reg_rates (r\<lparr>rg_tokens := t\<rparr>) = reg_rates r"
  "reg_rates (r\<lparr>rg_groups := g\<rparr>) = reg_rates r" "reg_rates (r\<lparr>rg_members := m\<rparr>) = reg_rates r"
  by (simp_all add: reg_rates_def)

section \<open>Audit records of the registry\<close>

lemma append_event_ok:
  assumes "append_event E env ev reserve r = Inr r'"
  obtains a where "r' = r\<lparr>rg_audit := a\<rparr>" "env_ok env \<Longrightarrow> audit_inv E (rg_audit r) \<Longrightarrow> audit_inv E a"
  using assms by (auto simp: append_event_def result_simps dest: audit_append_inv)

lemma record_event_ok:
  assumes "record_event E env P ev r = Inr r'"
  obtains a where "r' = r\<lparr>rg_audit := a\<rparr>" "env_ok env \<Longrightarrow> audit_inv E (rg_audit r) \<Longrightarrow> audit_inv E a"
  using assms by (auto simp: record_event_def result_simps dest: audit_event_inv)

lemma repair_event_eq:
  obtains a where "repair_event E env P ev r = r\<lparr>rg_audit := a\<rparr>"
    "env_ok env \<Longrightarrow> audit_inv E (rg_audit r) \<Longrightarrow> audit_inv E a"
  by (rule that[OF repair_event_def]) (rule repair_inv)

lemma check_registry_limits: "check_registry P r = Inr u \<Longrightarrow> reg_limits r"
  by (auto simp: check_registry_def reg_limits_def result_simps)

section \<open>Every operation keeps the invariant and moves up\<close>

text \<open>The goal of each operation: the invariant holds again and nothing was undone.\<close>

definition reg_good :: "'z authority_ext_scheme \<Rightarrow> registry \<Rightarrow> registry \<Rightarrow> bool" where
  "reg_good E r r' \<longleftrightarrow> reg_inv E r' \<and> reg_le r r'"

lemma reg_goodI:
  assumes "reg_tables E r1" "reg_limits r1" "reg_rates r1" "reg_le r r1" "audit_inv E a"
  shows "reg_good E r (r1\<lparr>rg_audit := a\<rparr>)"
  using assms by (simp add: reg_good_def reg_inv_def)

lemma invite_user_ok:
  assumes "invite_user E env handle r = Inr (uid, r1)" "reg_tables E r"
  obtains us bs where "r1 = r\<lparr>rg_users := us, rg_bindings := bs\<rparr>" "reg_tables E r1" "reg_le r r1"
    "uid \<in> ur_id ` set us" "(''local'', handle, uid) \<in> (\<lambda>b. (br_provider b, br_subject b, br_user b)) ` set bs"
proof (cases "select_one (\<lambda>b. br_provider b = ''local'' \<and> br_subject b = handle) (rg_bindings r)")
  case None
  then obtain u b where u: "u = \<lparr>ur_id = uid, ur_enabled = True, ur_ref = re_ref env\<rparr>"
    and b: "b = \<lparr>br_provider = ''local'', br_subject = handle, br_user = uid\<rparr>"
    and r1: "r1 = r\<lparr>rg_users := rg_users r @ [u], rg_bindings := rg_bindings r @ [b]\<rparr>"
    and new: "uid \<notin> ur_id ` set (rg_users r)"
      "(''local'', handle) \<notin> (\<lambda>b. (br_provider b, br_subject b)) ` set (rg_bindings r)"
    using assms(1) by (auto simp: invite_user_def result_simps Let_def insert_row_ok)
  have "reg_tables E r1"
    using assms(2) new unfolding r1 u b reg_tables_def reg_defs by (auto simp: image_iff)
  moreover have "reg_le r r1" unfolding r1 reg_le_def by (auto intro: table_le_refl)
  ultimately show ?thesis by (intro that[OF r1]) (auto simp: u b)
next
  case (Some b)
  then have r1: "r1 = r" "uid = br_user b" using assms(1) by (auto simp: invite_user_def)
  have b: "b \<in> set (rg_bindings r)" "br_provider b = ''local''" "br_subject b = handle"
    using select_one_Some[OF Some] by auto
  then have "uid \<in> ur_id ` set (rg_users r)" using assms(2) r1 by (auto simp: reg_tables_def reg_refs_def)
  moreover have "r1 = r\<lparr>rg_users := rg_users r, rg_bindings := rg_bindings r\<rparr>" using r1 by simp
  ultimately show ?thesis
    using r1 assms(2) b by (intro that) (auto simp: image_iff intro!: bexI[of _ b])
qed

lemma add_token:
  assumes "reg_tables E r" "tk_digest t \<notin> tk_digest ` set (rg_tokens r)" "tk_used_key t = None"
    "tk_user t \<in> ur_id ` set (rg_users r)"
  shows "reg_tables E (r\<lparr>rg_tokens := rg_tokens r @ [t]\<rparr>)" "reg_le r (r\<lparr>rg_tokens := rg_tokens r @ [t]\<rparr>)"
proof -
  show "reg_tables E (r\<lparr>rg_tokens := rg_tokens r @ [t]\<rparr>)"
    using assms unfolding reg_tables_def reg_defs by (auto simp: image_iff)
  show "reg_le r (r\<lparr>rg_tokens := rg_tokens r @ [t]\<rparr>)"
    unfolding reg_le_def by (auto intro: table_le_refl table_le_append)
qed

lemma invite_ok:
  assumes "invite E env P handle ttl r = Inr (token, r')"
  obtains uid r1 t a secret where "invite_user E env handle r = Inr (uid, r1)"
    "tk_user t = uid" "tk_used_key t = None" "tk_digest t \<notin> tk_digest ` set (rg_tokens r1)"
    "hash E (as_bytes token) = Inr (tk_digest t)" "token = ''EG1.'' @ uid @ ''.'' @ b32_encode E secret"
    "r' = r1\<lparr>rg_tokens := rg_tokens r1 @ [t], rg_audit := a\<rparr>" "reg_limits r'"
    "env_ok (re_audit env) \<Longrightarrow> audit_inv E (rg_audit r1) \<Longrightarrow> audit_inv E a"
proof -
  obtain uid r1 secret digest now ev tokens where u: "invite_user E env handle r = Inr (uid, r1)"
    and token: "token = ''EG1.'' @ uid @ ''.'' @ b32_encode E secret"
    and h: "hash E (as_bytes token) = Inr digest"
    and ins: "insert_row tk_digest \<lparr>tk_digest = digest, tk_user = uid, tk_expires = now + int ttl,
            tk_used_key = None\<rparr> (rg_tokens r1) = Inr tokens"
    and app: "append_event E (re_audit env) ev False (r1\<lparr>rg_tokens := tokens\<rparr>) = Inr r'"
    and lim: "reg_limits r'"
    using assms by (auto simp: invite_def result_simps Let_def simp del: append_Cons append_assoc dest: check_registry_limits)
  from app obtain a where "r' = r1\<lparr>rg_tokens := tokens, rg_audit := a\<rparr>"
    "env_ok (re_audit env) \<Longrightarrow> audit_inv E (rg_audit r1) \<Longrightarrow> audit_inv E a"
    by (elim append_event_ok) auto
  then show ?thesis using u token h ins lim
    by (intro that[of uid r1 "\<lparr>tk_digest = digest, tk_user = uid, tk_expires = now + int ttl,
            tk_used_key = None\<rparr>"]) (auto simp: insert_row_ok)
qed

lemma invite_good:
  assumes "invite E env P handle ttl r = Inr (token, r')" "reg_inv E r" "env_ok (re_audit env)"
  shows "reg_good E r r'"
  using assms(1)
proof (rule invite_ok)
  fix uid r1 t a secret
  assume u: "invite_user E env handle r = Inr (uid, r1)" and t: "tk_user t = uid" "tk_used_key t = None"
      "tk_digest t \<notin> tk_digest ` set (rg_tokens r1)"
    and r': "r' = r1\<lparr>rg_tokens := rg_tokens r1 @ [t], rg_audit := a\<rparr>" and lim: "reg_limits r'"
    and a: "env_ok (re_audit env) \<Longrightarrow> audit_inv E (rg_audit r1) \<Longrightarrow> audit_inv E a"
  from u assms(2) obtain us bs where r1: "r1 = r\<lparr>rg_users := us, rg_bindings := bs\<rparr>"
    "reg_tables E r1" "reg_le r r1" "uid \<in> ur_id ` set us"
    by (elim invite_user_ok) (auto simp: reg_inv_def)
  have tok: "reg_tables E (r1\<lparr>rg_tokens := rg_tokens r1 @ [t]\<rparr>)" "reg_le r1 (r1\<lparr>rg_tokens := rg_tokens r1 @ [t]\<rparr>)"
    using add_token[of E r1 t] t r1 by auto
  show "reg_good E r r'"
    unfolding r' using tok lim r1 a assms(2,3) reg_le_trans[OF r1(3) tok(2)]
    by (intro reg_goodI) (auto simp: r' reg_inv_def)
qed

lemma user_id_try_from_same: "user_id_try_from E v = Inr w \<Longrightarrow> w = v \<and> user_id_try_from E w = Inr w"
  by (auto simp: user_id_try_from_def result_simps Let_def)

lemma token_user_id: "token_user E token = Inr uid \<Longrightarrow> user_id_try_from E uid = Inr uid"
  by (auto simp: token_user_def result_simps Let_def dest: user_id_try_from_same)

lemma insert_device_ok [result_simps]:
  "insert_device d r = Inr r' \<longleftrightarrow> dv_user d \<in> ur_id ` set (rg_users r) \<and>
     (dv_user d, dv_device_id d) \<notin> (\<lambda>x. (dv_user x, dv_device_id x)) ` set (rg_devices r) \<and>
     dv_nkey d \<notin> dv_nkey ` set (rg_devices r) \<and> r' = r\<lparr>rg_devices := rg_devices r @ [d]\<rparr>"
  by (auto simp: insert_device_def result_simps insert_row_ok)

text \<open>What a first enrollment does to the tables.\<close>

definition consume :: "registry \<Rightarrow> bytes \<Rightarrow> int \<Rightarrow> string \<Rightarrow> token_row list" where
  "consume r digest now key = update_where (token_consumable r digest now)
     (\<lambda>t. t\<lparr>tk_used_key := Some key\<rparr>) (rg_tokens r)"

definition fresh_device :: "string \<Rightarrow> string \<Rightarrow> string \<Rightarrow> bytes \<Rightarrow> string \<Rightarrow> device_row" where
  "fresh_device key uid device_id encoded ref = \<lparr>dv_nkey = key, dv_user = uid, dv_device_id = device_id,
     dv_registration = encoded, dv_ready = False, dv_revoked = False, dv_generation = 1, dv_ref = ref\<rparr>"

lemma enroll_new_ok:
  assumes "enroll_new E env P uid key device_id digest encoded r = Inr r'"
  obtains now a where "count_where (token_consumable r digest now) (rg_tokens r) = 1"
    "uid \<in> ur_id ` set (rg_users r)" "key \<notin> dv_nkey ` set (rg_devices r)"
    "(uid, device_id) \<notin> (\<lambda>x. (dv_user x, dv_device_id x)) ` set (rg_devices r)"
    "r' = r\<lparr>rg_tokens := consume r digest now key,
       rg_devices := rg_devices r @ [fresh_device key uid device_id encoded (re_ref env)], rg_audit := a\<rparr>"
    "reg_limits r'" "env_ok (re_audit env) \<Longrightarrow> audit_inv E (rg_audit r) \<Longrightarrow> audit_inv E a"
proof -
  obtain now ev where c: "count_where (token_consumable r digest now) (rg_tokens r) = 1"
    and k: "uid \<in> ur_id ` set (rg_users r)" "key \<notin> dv_nkey ` set (rg_devices r)"
      "(uid, device_id) \<notin> (\<lambda>x. (dv_user x, dv_device_id x)) ` set (rg_devices r)"
    and app: "append_event E (re_audit env) ev False (r\<lparr>rg_tokens := consume r digest now key,
       rg_devices := rg_devices r @ [fresh_device key uid device_id encoded (re_ref env)]\<rparr>) = Inr r'"
    and lim: "reg_limits r'"
    using assms by (auto simp: enroll_new_def result_simps Let_def consume_def fresh_device_def
        dest: check_registry_limits)
  from app obtain a where "r' = r\<lparr>rg_tokens := consume r digest now key,
       rg_devices := rg_devices r @ [fresh_device key uid device_id encoded (re_ref env)], rg_audit := a\<rparr>"
    "env_ok (re_audit env) \<Longrightarrow> audit_inv E (rg_audit r) \<Longrightarrow> audit_inv E a"
    by (elim append_event_ok) auto
  then show ?thesis using c k lim by (intro that) auto
qed

lemma consume_table:
  "table_le token_le (rg_tokens r) (consume r digest now key)"
  "map tk_digest (consume r digest now key) = map tk_digest (rg_tokens r)"
  "tk_user ` set (consume r digest now key) = tk_user ` set (rg_tokens r)"
proof -
  show "table_le token_le (rg_tokens r) (consume r digest now key)"
    unfolding consume_def
    by (rule table_le_update) (auto simp: token_le_def token_consumable_def)
  have "tk_user ` set (consume r digest now key) = set (map tk_user (consume r digest now key))" by simp
  also have "map tk_user (consume r digest now key) = map tk_user (rg_tokens r)"
    unfolding consume_def by (rule map_update_where) simp
  finally show "tk_user ` set (consume r digest now key) = tk_user ` set (rg_tokens r)" by simp
qed (simp add: consume_def map_update_where)

lemma consume_tokens:
  assumes "reg_tokens r" "distinct (map tk_digest (rg_tokens r))" "key \<notin> dv_nkey ` set (rg_devices r)"
    "dv_nkey d = key"
  shows "reg_tokens (r\<lparr>rg_tokens := consume r digest now key, rg_devices := rg_devices r @ [d]\<rparr>)"
proof -
  have fresh: "tk_used_key t \<noteq> Some key" if "t \<in> set (rg_tokens r)" for t
    using assms(1,3) that by (auto simp: reg_tokens_def image_iff)
  have new: "(t \<in> set (rg_tokens r) \<and> \<not> token_consumable r digest now t) \<or>
      (\<exists>u. u \<in> set (rg_tokens r) \<and> token_consumable r digest now u \<and> t = u\<lparr>tk_used_key := Some key\<rparr>)"
    if "t \<in> set (consume r digest now key)" for t
    using that by (auto simp: consume_def set_update_where split: if_splits)
  have uniq: "u = u'" if "u \<in> set (rg_tokens r)" "u' \<in> set (rg_tokens r)"
    "token_consumable r digest now u" "token_consumable r digest now u'" for u u'
    using that distinct_key_eq[OF assms(2)] by (auto simp: token_consumable_def)
  have A: "t = t'" if tt: "t \<in> set (consume r digest now key)" "t' \<in> set (consume r digest now key)"
    "tk_used_key t \<noteq> None" "tk_used_key t = tk_used_key t'" for t t'
  proof (cases "tk_used_key t = Some key")
    case True
    then obtain u u' where "u \<in> set (rg_tokens r)" "token_consumable r digest now u"
        "t = u\<lparr>tk_used_key := Some key\<rparr>" "u' \<in> set (rg_tokens r)" "token_consumable r digest now u'"
        "t' = u'\<lparr>tk_used_key := Some key\<rparr>"
      using new[OF tt(1)] new[OF tt(2)] fresh tt(4) by fastforce
    then show ?thesis using uniq[of u u'] by simp
  next
    case False
    then have "t \<in> set (rg_tokens r)" "t' \<in> set (rg_tokens r)"
      using new[OF that(1)] new[OF that(2)] that(4) by auto
    then show ?thesis using assms(1) that(3,4) unfolding reg_tokens_def by blast
  qed
  have B: "\<exists>d' \<in> set (rg_devices r @ [d]). dv_nkey d' = k"
    if "t \<in> set (consume r digest now key)" "tk_used_key t = Some k" for t k
    using new[OF that(1)] that(2) assms(1,4) unfolding reg_tokens_def by auto
  let ?r = "r\<lparr>rg_tokens := consume r digest now key, rg_devices := rg_devices r @ [d]\<rparr>"
  have "rg_tokens ?r = consume r digest now key" "rg_devices ?r = rg_devices r @ [d]" by simp_all
  then show ?thesis
    unfolding reg_tokens_def by (simp only:) (intro conjI ballI allI impI; (erule (1) B | erule (3) A))
qed

lemma enroll_new_good:
  assumes "enroll_new E env P uid key device_id digest encoded r = Inr r'" "reg_inv E r"
    "env_ok (re_audit env)" "device_ok E (fresh_device key uid device_id encoded (re_ref env))"
  shows "reg_good E r r'"
  using assms(1)
proof (rule enroll_new_ok)
  fix now a
  let ?d = "fresh_device key uid device_id encoded (re_ref env)"
  let ?r = "r\<lparr>rg_tokens := consume r digest now key, rg_devices := rg_devices r @ [?d]\<rparr>"
  assume k: "uid \<in> ur_id ` set (rg_users r)" "key \<notin> dv_nkey ` set (rg_devices r)"
      "(uid, device_id) \<notin> (\<lambda>x. (dv_user x, dv_device_id x)) ` set (rg_devices r)"
    and r': "r' = r\<lparr>rg_tokens := consume r digest now key, rg_devices := rg_devices r @ [?d], rg_audit := a\<rparr>"
    and lim: "reg_limits r'" and a: "env_ok (re_audit env) \<Longrightarrow> audit_inv E (rg_audit r) \<Longrightarrow> audit_inv E a"
  have t: "reg_tables E r" using assms(2) by (simp add: reg_inv_def)
  have d: "dv_nkey ?d = key" "dv_user ?d = uid" "dv_device_id ?d = device_id" by (simp_all add: fresh_device_def)
  have "reg_tokens ?r"
    using t k d by (intro consume_tokens) (auto simp: reg_tables_def reg_keys_def)
  moreover have "reg_keys ?r" "reg_refs ?r" "list_all (device_ok E) (rg_devices ?r)"
    using t k d assms(4) by (auto simp: reg_tables_def reg_keys_def reg_refs_def consume_table)
  moreover have "reg_members ?r" "reg_coordinators ?r"
    using t by (auto simp: reg_tables_def reg_members_def reg_coordinators_def live_key_def)
  ultimately have "reg_tables E ?r" unfolding reg_tables_def by blast
  moreover have "reg_le r ?r" by (auto simp: reg_le_def consume_table intro: table_le_refl table_le_append)
  ultimately have "reg_good E r (?r\<lparr>rg_audit := a\<rparr>)"
    using lim a assms(2,3) by (intro reg_goodI) (auto simp: r' reg_inv_def)
  then show "reg_good E r r'" by (simp add: r')
qed

lemma enroll_cases:
  assumes "enroll E env P token registration r = Inr r'"
  obtains (retry) a where "r' = r\<lparr>rg_audit := a\<rparr>"
      "env_ok (re_audit env) \<Longrightarrow> audit_inv E (rg_audit r) \<Longrightarrow> audit_inv E a"
  | (new) uid digest encoded where "verify E registration = Inr ()" "token_user E token = Inr uid"
      "rp_user_id (dr_payload registration) = uid" "hash E (as_bytes token) = Inr digest"
      "encode E (Register registration) = Inr encoded"
      "enroll_new E env P uid (rp_nats_public_key (dr_payload registration))
         (rp_device_id (dr_payload registration)) digest encoded r = Inr r'"
proof -
  from assms obtain uid digest encoded where v: "verify E registration = Inr ()" "token_user E token = Inr uid"
      "rp_user_id (dr_payload registration) = uid" "hash E (as_bytes token) = Inr digest"
      "encode E (Register registration) = Inr encoded"
    by (auto simp: enroll_def Let_def result_simps)
  show ?thesis
  proof (cases "Option.bind (select_one (\<lambda>t. tk_digest t = digest) (rg_tokens r)) tk_used_key")
    case None
    then show ?thesis using assms v by (intro new[OF v]) (auto simp: enroll_def Let_def result_simps)
  next
    case (Some previous)
    then obtain ev where "record_event E (re_audit env) P ev r = Inr r'"
      using assms v by (auto simp: enroll_def Let_def result_simps enroll_retry_def)
    then show ?thesis by (elim record_event_ok) (rule retry)
  qed
qed

lemma enroll_good:
  assumes "enroll E env P token registration r = Inr r'" "reg_inv E r" "env_ok (re_audit env)"
  shows "reg_good E r r'"
  using assms(1)
proof (cases rule: enroll_cases)
  case (retry a)
  then show ?thesis using assms(2,3) by (auto simp: reg_inv_def reg_good_def)
next
  case (new uid digest encoded)
  have "device_ok E (fresh_device (rp_nats_public_key (dr_payload registration)) uid
      (rp_device_id (dr_payload registration)) encoded (re_ref env))"
    using new verify_imp_signature token_user_id by (auto simp: device_ok_def fresh_device_def)
  then show ?thesis using enroll_new_good[OF new(6) assms(2,3)] by blast
qed

section \<open>Row-wise updates\<close>

lemma device_ok_le: "device_ok E d \<Longrightarrow> device_le d d' \<Longrightarrow> device_ok E d'"
  unfolding device_ok_def device_le_def by auto

lemma table_le_map: "(\<And>x. le x (f x)) \<Longrightarrow> table_le le t (map f t)"
  by (auto simp: table_le_def)

text \<open>
  Operations that change device and group rows in place and only remove members keep the
  table invariant, if they keep the members live and the coordinators consistent.
\<close>

lemma reg_tables_step:
  assumes T: "reg_tables E r"
    and same: "rg_users r' = rg_users r" "rg_bindings r' = rg_bindings r" "rg_tokens r' = rg_tokens r"
    and dev: "rg_devices r' = map f (rg_devices r)" "\<And>d. device_le d (f d)"
    and grp: "rg_groups r' = map h (rg_groups r)" "\<And>g. gr_gid (h g) = gr_gid g"
    and mem: "rg_members r' = delete_where p (rg_members r)"
    and live: "\<And>m d. m \<in> set (rg_members r') \<Longrightarrow> dv_nkey d = mr_nkey m \<Longrightarrow> dv_revoked (f d) = dv_revoked d"
    and coord: "reg_coordinators r'"
  shows "reg_tables E r'"
proof -
  have f: "dv_nkey (f d) = dv_nkey d" "dv_user (f d) = dv_user d" "dv_device_id (f d) = dv_device_id d"
      "dv_ready d \<Longrightarrow> dv_ready (f d)" for d
    using dev(2)[of d] by (simp_all add: device_le_def)
  have "reg_keys r'"
    using T by (simp add: reg_tables_def reg_keys_def same dev(1) grp mem comp_def f distinct_delete_where)
  moreover have "reg_refs r'"
    using T by (auto simp: reg_tables_def reg_refs_def same dev(1) grp mem image_image f)
  moreover have "list_all (device_ok E) (rg_devices r')"
    using T device_ok_le[OF _ dev(2)] by (auto simp: reg_tables_def dev(1) list_all_iff)
  moreover have "reg_tokens r'"
    using T unfolding reg_tables_def reg_tokens_def same dev(1) by (simp add: f) blast
  moreover have "reg_members r'"
  proof -
    have "live_key r' (mr_nkey m)" if m: "m \<in> set (rg_members r')" for m
    proof -
      have "live_key r (mr_nkey m)" using m T by (auto simp: mem reg_tables_def reg_members_def)
      then obtain d where "d \<in> set (rg_devices r)" "dv_nkey d = mr_nkey m" "dv_ready d" "\<not> dv_revoked d"
        by (auto simp: live_key_def)
      then show ?thesis using f live[OF m] by (auto simp: live_key_def dev(1))
    qed
    then show ?thesis by (simp add: reg_members_def)
  qed
  ultimately show ?thesis using coord by (simp add: reg_tables_def)
qed

lemma fold_max_le: "fold max xs a \<le> n \<longleftrightarrow> a \<le> n \<and> (\<forall>x \<in> set xs. x \<le> (n :: nat))"
  by (induction xs arbitrary: a) auto

lemma max_group_le: "max_group key t \<le> n \<longleftrightarrow> (\<forall>x \<in> set t. count_where (\<lambda>y. key y = key x) t \<le> n)"
  by (simp add: max_group_def fold_max_le)

lemma count_where_map_le:
  assumes "\<And>x. p (f x) \<Longrightarrow> q (f x) \<Longrightarrow> p' x \<and> q' x"
  shows "count_where p (filter q (map f t)) \<le> count_where p' (filter q' t)"
  unfolding count_where_def by (induction t) (use assms in auto)

lemma max_group_map:
  assumes "\<And>x. key (f x) = key x" "\<And>x. q (f x) \<Longrightarrow> q' x" "max_group key (filter q' t) \<le> n"
  shows "max_group key (filter q (map f t)) \<le> n"
proof -
  have "count_where (\<lambda>y. key y = key (f x)) (filter q (map f t)) \<le> n" if "x \<in> set t" "q (f x)" for x
  proof -
    have "count_where (\<lambda>y. key y = key (f x)) (filter q (map f t)) \<le>
        count_where (\<lambda>y. key y = key x) (filter q' t)"
      using assms(1,2) by (intro count_where_map_le) auto
    also have "\<dots> \<le> n" using assms(2,3) that by (auto simp: max_group_le)
    finally show ?thesis .
  qed
  then show ?thesis by (auto simp: max_group_le)
qed

lemma max_group_delete:
  assumes "max_group key t \<le> n"
  shows "max_group key (delete_where p t) \<le> n"
  using max_group_map[of key id "\<lambda>x. \<not> p x" "\<lambda>_. True" t n] assms by (simp add: delete_where_def)

lemma reg_limits_step:
  assumes L: "reg_limits r" and same: "rg_users r' = rg_users r" "rg_tokens r' = rg_tokens r"
      "rg_capacity r' = rg_capacity r"
    and dev: "rg_devices r' = map f (rg_devices r)" "\<And>d. device_le d (f d)"
    and grp: "rg_groups r' = map h (rg_groups r)" and mem: "rg_members r' = delete_where p (rg_members r)"
  shows "reg_limits r'"
proof -
  let ?c = "rg_capacity r"
  have l: "max_group dv_user (filter (\<lambda>d. \<not> dv_revoked d) (rg_devices r)) \<le> devices_per_user ?c"
      "max_group mr_nkey (rg_members r) \<le> groups_per_device ?c" "length (rg_members r) \<le> membership_edges ?c"
    using L by (simp_all add: reg_limits_def registry_usage_def Let_def)
  have "max_group dv_user (filter (\<lambda>d. \<not> dv_revoked d) (rg_devices r')) \<le> devices_per_user ?c"
    unfolding dev(1) by (rule max_group_map[OF _ _ l(1)]) (use dev(2) in \<open>auto simp: device_le_def\<close>)
  moreover have "max_group mr_nkey (rg_members r') \<le> groups_per_device ?c"
    unfolding mem by (rule max_group_delete[OF l(2)])
  moreover have "length (rg_members r') \<le> membership_edges ?c"
    unfolding mem delete_where_def using l(3) by (rule le_trans[OF length_filter_le])
  moreover have "dv_registration (f d) = dv_registration d" for d
    using dev(2)[of d] by (simp add: device_le_def)
  ultimately show ?thesis
    using L by (simp add: reg_limits_def registry_usage_def Let_def same dev(1) grp comp_def)
qed

lemma reg_le_step:
  assumes "rg_users r' = rg_users r" "rg_bindings r' = rg_bindings r" "rg_tokens r' = rg_tokens r"
    "rg_devices r' = map f (rg_devices r)" "\<And>d. device_le d (f d)"
    "rg_groups r' = map h (rg_groups r)" "\<And>g. group_le g (h g)"
  shows "reg_le r r'"
  using assms by (simp add: reg_le_def table_le_refl table_le_map)

lemma delete_nothing: "delete_where (\<lambda>_. False) t = t"
  by (simp add: delete_where_def)

text \<open>The instance that changes device rows only.\<close>

lemma update_devices_good:
  assumes inv: "reg_inv E r" and f: "\<And>d. device_le d (f d)" "\<And>d. dv_revoked (f d) = dv_revoked d"
    and r': "r' = r\<lparr>rg_devices := update_where p f (rg_devices r)\<rparr>"
  shows "reg_tables E r'" "reg_limits r'" "reg_rates r'" "reg_le r r'"
proof -
  let ?f = "\<lambda>d. if p d then f d else d"
  have dev: "rg_devices r' = map ?f (rg_devices r)" "device_le d (?f d)" for d
    using f by (simp_all add: r' update_where_def)
  have same: "rg_users r' = rg_users r" "rg_bindings r' = rg_bindings r" "rg_tokens r' = rg_tokens r"
      "rg_groups r' = map id (rg_groups r)" "rg_members r' = delete_where (\<lambda>_. False) (rg_members r)"
      "rg_capacity r' = rg_capacity r" "reg_coordinators r' = reg_coordinators r" "reg_rates r' = reg_rates r"
    by (simp_all add: r' delete_nothing reg_coordinators_def)
  show "reg_tables E r'"
    by (rule reg_tables_step[OF _ same(1-3) dev same(4) _ same(5)])
      (use inv f same in \<open>auto simp: reg_inv_def reg_tables_def\<close>)
  show "reg_limits r'"
    by (rule reg_limits_step[OF _ same(1,3,6) dev same(4,5)]) (use inv in \<open>simp add: reg_inv_def\<close>)
  show "reg_le r r'" by (rule reg_le_step[OF same(1-3) dev same(4)]) simp
  show "reg_rates r'" using inv same by (simp add: reg_inv_def)
qed

lemma activate_good:
  assumes "activate E env P key r = Inr r'" "reg_inv E r" "env_ok (re_audit env)"
  shows "reg_good E r r'"
proof (cases "r' = r")
  case True
  then show ?thesis using assms(2) by (simp add: reg_good_def)
next
  case False
  let ?r1 = "update_device key (\<lambda>d. d\<lparr>dv_ready := True\<rparr>) r"
  obtain ev where "append_event E (re_audit env) ev False ?r1 = Inr r'"
    using assms(1) False by (auto simp: activate_def result_simps Let_def split: if_splits)
  then obtain a where a: "r' = ?r1\<lparr>rg_audit := a\<rparr>"
      "env_ok (re_audit env) \<Longrightarrow> audit_inv E (rg_audit ?r1) \<Longrightarrow> audit_inv E a"
    by (elim append_event_ok) auto
  have "reg_tables E ?r1" "reg_limits ?r1" "reg_rates ?r1" "reg_le r ?r1"
    using update_devices_good[OF assms(2), of "\<lambda>d. d\<lparr>dv_ready := True\<rparr>" ?r1 "\<lambda>d. dv_nkey d = key"]
    by (auto simp: device_le_def update_device_def)
  moreover have "audit_inv E a" using a(2) assms(2,3) by (simp add: reg_inv_def update_device_def)
  ultimately show ?thesis unfolding a(1) by (intro reg_goodI)
qed

section \<open>Revocation\<close>

lemma successor_member:
  "successor r gid = [] \<or> (\<exists>m \<in> set (rg_members r). mr_gid m = gid \<and> mr_nkey m = successor r gid)"
proof (cases "sort_key mr_leaf (filter (\<lambda>m. mr_gid m = gid) (rg_members r))")
  case (Cons m ms)
  then have "m \<in> set (filter (\<lambda>m. mr_gid m = gid) (rg_members r))" by (metis list.set_intros(1) set_sort)
  then show ?thesis using Cons by (auto simp: successor_def)
qed (simp add: successor_def)

definition revoke_device :: "registry \<Rightarrow> string \<Rightarrow> device_row \<Rightarrow> device_row" where
  "revoke_device r key d =
     (let d1 = (if dv_nkey d \<in> mr_nkey ` {m \<in> set (rg_members r). mr_gid m \<in> groups_of r key}
            then d\<lparr>dv_generation := dv_generation d + 1\<rparr> else d) in
      if dv_nkey d1 = key \<and> \<not> dv_revoked d1
      then d1\<lparr>dv_revoked := True, dv_generation := dv_generation d1 + 1\<rparr> else d1)"

definition revoke_group :: "registry \<Rightarrow> string \<Rightarrow> group_row \<Rightarrow> group_row" where
  "revoke_group r key g =
     (let g1 = (if gr_gid g \<in> groups_of r key
            then g\<lparr>gr_generation := gr_generation g + 1, gr_last_update := []\<rparr> else g) in
      if gr_coordinator g1 = key
      then g1\<lparr>gr_coordinator := successor (remove_member key (bump_groups key (bump_peers key r))) (gr_gid g1)\<rparr>
      else g1)"

lemma revoke_tables_fields:
  "rg_users (revoke_tables key r) = rg_users r" "rg_bindings (revoke_tables key r) = rg_bindings r"
  "rg_tokens (revoke_tables key r) = rg_tokens r" "rg_audit (revoke_tables key r) = rg_audit r"
  "rg_capacity (revoke_tables key r) = rg_capacity r" "rg_rates (revoke_tables key r) = rg_rates r"
  "rg_members (revoke_tables key r) = delete_where (\<lambda>m. mr_nkey m = key) (rg_members r)"
  "rg_devices (revoke_tables key r) = map (revoke_device r key) (rg_devices r)"
  "rg_groups (revoke_tables key r) = map (revoke_group r key) (rg_groups r)"
  by (simp_all add: revoke_tables_def mark_revoked_def reassign_coordinator_def remove_member_def
      bump_groups_def bump_peers_def groups_of_def update_where_def revoke_device_def revoke_group_def
      Let_def)

lemma revoke_device_le: "device_le d (revoke_device r key d)"
  by (simp add: revoke_device_def device_le_def Let_def)

lemma revoke_group_le: "group_le g (revoke_group r key g)"
  by (simp add: revoke_group_def group_le_def Let_def)

lemma revoke_coordinators:
  assumes "reg_coordinators r"
  shows "reg_coordinators (revoke_tables key r)"
proof -
  have mem: "rg_members (remove_member key (bump_groups key (bump_peers key r))) =
      rg_members (revoke_tables key r)"
    by (simp add: revoke_tables_fields remove_member_def bump_groups_def bump_peers_def)
  have "gr_coordinator (revoke_group r key g) = [] \<or>
      (\<exists>m \<in> set (rg_members (revoke_tables key r)). mr_gid m = gr_gid g \<and>
        mr_nkey m = gr_coordinator (revoke_group r key g))"
    if g: "g \<in> set (rg_groups r)" for g
  proof (cases "gr_coordinator g = key")
    case True
    then show ?thesis
      using successor_member[of "remove_member key (bump_groups key (bump_peers key r))" "gr_gid g"]
      unfolding mem by (simp add: revoke_group_def Let_def)
  next
    case False
    then have c: "gr_coordinator (revoke_group r key g) = gr_coordinator g" by (simp add: revoke_group_def Let_def)
    then show ?thesis using assms g False unfolding reg_coordinators_def revoke_tables_fields c by fastforce
  qed
  moreover have "gr_gid (revoke_group r key g) = gr_gid g" for g
    by (simp add: revoke_group_def Let_def)
  ultimately show ?thesis by (simp add: reg_coordinators_def revoke_tables_fields(9))
qed

lemma revoke_tables_good:
  assumes inv: "reg_inv E r"
  shows "reg_tables E (revoke_tables key r)" "reg_limits (revoke_tables key r)"
    "reg_rates (revoke_tables key r)" "reg_le r (revoke_tables key r)"
proof -
  note fields = revoke_tables_fields[of key r]
  show "reg_tables E (revoke_tables key r)"
  proof (rule reg_tables_step[OF _ fields(1-3) fields(8) revoke_device_le fields(9) _ fields(7)])
    show "reg_coordinators (revoke_tables key r)"
      using inv by (intro revoke_coordinators) (simp add: reg_inv_def reg_tables_def)
    show "dv_revoked (revoke_device r key d) = dv_revoked d"
      if "m \<in> set (rg_members (revoke_tables key r))" "dv_nkey d = mr_nkey m" for m d
      using that by (auto simp: fields revoke_device_def Let_def)
  qed (use inv in \<open>auto simp: reg_inv_def revoke_group_def Let_def\<close>)
  show "reg_limits (revoke_tables key r)"
    using inv by (intro reg_limits_step[OF _ fields(1,3,5) fields(8) revoke_device_le fields(9,7)])
      (simp add: reg_inv_def)
  show "reg_rates (revoke_tables key r)" using inv by (simp add: reg_inv_def reg_rates_def fields)
  show "reg_le r (revoke_tables key r)"
    by (rule reg_le_step[OF fields(1-3,8) revoke_device_le fields(9) revoke_group_le])
qed

lemma revoke_cases:
  assumes "revoke E env P key r = Inr r'"
  obtains (inactive) "r' = r" "\<forall>d \<in> set (rg_devices r). dv_nkey d = key \<longrightarrow> dv_revoked d"
  | (active) a where "r' = (revoke_tables key r)\<lparr>rg_audit := a\<rparr>"
      "env_ok (re_audit env) \<Longrightarrow> audit_inv E (rg_audit r) \<Longrightarrow> audit_inv E a"
proof (cases "list_ex (\<lambda>d. dv_nkey d = key \<and> \<not> dv_revoked d) (rg_devices r)")
  case False
  then show ?thesis using assms by (intro inactive) (auto simp: revoke_def list_ex_iff)
next
  case True
  then obtain ev where r': "r' = repair_event E (re_audit env) P ev (revoke_tables key r)"
    using assms by (auto simp: revoke_def result_simps Let_def)
  obtain a where "r' = (revoke_tables key r)\<lparr>rg_audit := a\<rparr>"
    "env_ok (re_audit env) \<Longrightarrow> audit_inv E (rg_audit (revoke_tables key r)) \<Longrightarrow> audit_inv E a"
    unfolding r' by (rule repair_event_eq[of E "re_audit env" P ev "revoke_tables key r"]) simp
  then show ?thesis by (intro active) (auto simp: revoke_tables_fields)
qed

lemma revoke_good:
  assumes "revoke E env P key r = Inr r'" "reg_inv E r" "env_ok (re_audit env)"
  shows "reg_good E r r'"
  using assms(1)
proof (cases rule: revoke_cases)
  case inactive
  then show ?thesis using assms(2) by (simp add: reg_good_def)
next
  case (active a)
  have "audit_inv E a" using active(2) assms(2,3) by (simp add: reg_inv_def)
  then show ?thesis unfolding active(1) by (intro reg_goodI revoke_tables_good[OF assms(2)])
qed

text \<open>Afterwards no row of the key is live and no group lists it.\<close>

definition retired :: "registry \<Rightarrow> string \<Rightarrow> bool" where
  "retired r key \<longleftrightarrow> (\<forall>d \<in> set (rg_devices r). dv_nkey d = key \<longrightarrow> dv_revoked d)"

lemma retired_not_authorized: "retired r key \<Longrightarrow> authorize E r key = Inl (Anyhow ''device not admitted'')"
proof -
  assume "retired r key"
  then have "select_one (admitted_row r key) (rg_devices r) = None"
    by (auto simp: select_one_None admitted_row_def retired_def)
  then show ?thesis by (simp add: authorize_def)
qed

lemma retired_not_member: "retired r key \<Longrightarrow> reg_inv E r \<Longrightarrow> m \<in> set (rg_members r) \<Longrightarrow> mr_nkey m \<noteq> key"
  by (auto simp: retired_def reg_inv_def reg_tables_def reg_members_def live_key_def)

lemma revoke_retires:
  assumes "revoke E env P key r = Inr r'"
  shows "retired r' key"
  using assms
proof (cases rule: revoke_cases)
  case (active a)
  have "dv_nkey (revoke_device r key d) = key \<longrightarrow> dv_revoked (revoke_device r key d)" for d
    by (simp add: revoke_device_def Let_def)
  then show ?thesis by (auto simp: retired_def active revoke_tables_fields)
qed (auto simp: retired_def)

text \<open>Retirement of an enrolled key survives every step up the order.\<close>

lemma retired_le:
  assumes "reg_le r r'" "retired r key" "key \<in> dv_nkey ` set (rg_devices r)" "reg_inv E r'"
  shows "retired r' key"
proof -
  obtain d where d: "d \<in> set (rg_devices r)" "dv_nkey d = key" "dv_revoked d"
    using assms(2,3) by (auto simp: retired_def)
  then obtain d' where d': "d' \<in> set (rg_devices r')" "device_le d d'"
    using assms(1) by (auto simp: reg_le_def table_le_def)
  have "distinct (map dv_nkey (rg_devices r'))"
    using assms(4) by (simp add: reg_inv_def reg_tables_def reg_keys_def)
  then have "x = d'" if "x \<in> set (rg_devices r')" "dv_nkey x = key" for x
    using that d d' distinct_key_eq by (metis device_le_def)
  then show ?thesis using d d' by (auto simp: retired_def device_le_def)
qed

end
