(* ===== verification/Policy.thy ===== *)
theory Policy
  imports Registry "HOL-Library.AList" "HOL-Library.List_Lexorder" "HOL-Library.Char_ord"
begin

text \<open>
  Group authorization: signed coordinator snapshots (\<open>authorization.rs\<close>), the policy state and
  the Welcome relay (\<open>authorization/delivery.rs\<close>).
\<close>

section \<open>Signed updates\<close>

definition POLICY_SUBJECT :: string where
  "POLICY_SUBJECT = ''epochgrid.v1.channel.policy''"

definition RELAY_SUBJECT :: string where
  "RELAY_SUBJECT = ''epochgrid.v1.channel.welcome''"

definition policy_domain :: bytes where
  "policy_domain = as_bytes ''epochgrid/group-authorization/v1'' @ [0]"

definition policy_bytes :: "'z externals_scheme \<Rightarrow> policy_update \<Rightarrow> bytes result" where
  "policy_bytes E u = bind_r (pc (pc_policy E u)) (\<lambda>bs. Inr (policy_domain @ bs))"

definition policy_sign :: "'z externals_scheme \<Rightarrow> keypair \<Rightarrow> policy_update \<Rightarrow> signed_policy result" where
  "policy_sign E k u =
     ensure (pu_signer u = public_key k) ''policy signer mismatch''
     (bind_r (policy_bytes E u) (\<lambda>bs.
      bind_r (sign_with k bs) (\<lambda>sig. Inr \<lparr>sp_update = u, sp_signature = sig\<rparr>)))"

section \<open>Applying an update\<close>

text \<open>The loop over the members: unique devices, increasing leaves, every device authorized.\<close>

fun check_members ::
    "'z authority_ext_scheme \<Rightarrow> registry \<Rightarrow> string set \<Rightarrow> nat option \<Rightarrow> policy_member list
      \<Rightarrow> string set result" where
  "check_members E r keys previous [] = Inr keys"
| "check_members E r keys previous (m # ms) =
     ensure (mb_nkey m \<notin> keys) ''duplicate policy device''
     (ensure (case previous of None \<Rightarrow> True | Some leaf \<Rightarrow> leaf < mb_leaf m)
       ''policy leaves must be unique and ordered''
     (bind_r (authorize E r (mb_nkey m)) (\<lambda>_.
      check_members E r (insert (mb_nkey m) keys) (Some (mb_leaf m)) ms)))"

definition is_creation :: "policy_update \<Rightarrow> bool" where
  "is_creation u \<longleftrightarrow> pu_expected_generation u = 0 \<and> pu_epoch u = 0 \<and>
     (case pu_members u of [m] \<Rightarrow> mb_nkey m = pu_signer u \<and> mb_leaf m = 0 | _ \<Rightarrow> False)"

definition member_of :: "registry \<Rightarrow> string \<Rightarrow> string \<Rightarrow> bool" where
  "member_of r gid key \<longleftrightarrow> list_ex (\<lambda>m. mr_gid m = gid \<and> mr_nkey m = key) (rg_members r)"

definition is_reducing :: "registry \<Rightarrow> policy_update \<Rightarrow> bool" where
  "is_reducing r u \<longleftrightarrow> count_where (\<lambda>m. mr_gid m = pu_gid u) (rg_members r) > 0 \<and>
     list_all (\<lambda>m. member_of r (pu_gid u) (mb_nkey m)) (pu_members u)"

definition bump_members :: "string \<Rightarrow> registry \<Rightarrow> registry" where
  "bump_members gid r = r\<lparr>rg_devices := update_where
     (\<lambda>d. dv_nkey d \<in> mr_nkey ` {m \<in> set (rg_members r). mr_gid m = gid})
     (\<lambda>d. d\<lparr>dv_generation := dv_generation d + 1\<rparr>) (rg_devices r)\<rparr>"

text \<open>The upsert of the group row; the insertion trigger gives a new row its reference.\<close>

definition upsert_group :: "registry_env \<Rightarrow> policy_update \<Rightarrow> bytes \<Rightarrow> registry \<Rightarrow> registry" where
  "upsert_group env u bs r = r\<lparr>rg_groups :=
     (if pu_gid u \<in> gr_gid ` set (rg_groups r)
      then update_where (\<lambda>g. gr_gid g = pu_gid u)
        (\<lambda>g. g\<lparr>gr_generation := pu_expected_generation u + 1, gr_epoch := pu_epoch u,
          gr_coordinator := pu_signer u, gr_last_update := bs\<rparr>) (rg_groups r)
      else rg_groups r @ [\<lparr>gr_gid = pu_gid u, gr_generation = pu_expected_generation u + 1,
        gr_epoch = pu_epoch u, gr_coordinator = pu_signer u, gr_last_update = bs,
        gr_ref = re_ref env\<rparr>])\<rparr>"

definition clear_members :: "string \<Rightarrow> registry \<Rightarrow> registry" where
  "clear_members gid r = r\<lparr>rg_members := delete_where (\<lambda>m. mr_gid m = gid) (rg_members r)\<rparr>"

definition insert_member :: "string \<Rightarrow> policy_member \<Rightarrow> registry \<Rightarrow> registry result" where
  "insert_member gid m r =
     ensure_e (gid \<in> gr_gid ` set (rg_groups r) \<and> mb_nkey m \<in> dv_nkey ` set (rg_devices r))
       (Sql ''FOREIGN KEY constraint failed'')
     (ensure_e ((gid, mb_leaf m) \<notin> (\<lambda>x. (mr_gid x, mr_leaf x)) ` set (rg_members r))
       (Sql ''UNIQUE constraint failed'')
     (bind_r (insert_row (\<lambda>x. (mr_gid x, mr_nkey x))
         \<lparr>mr_gid = gid, mr_nkey = mb_nkey m, mr_leaf = mb_leaf m\<rparr> (rg_members r)) (\<lambda>members.
      Inr (update_device (mb_nkey m) (\<lambda>d. d\<lparr>dv_generation := dv_generation d + 1\<rparr>)
        (r\<lparr>rg_members := members\<rparr>)))))"

text \<open>The check against the stored policy; \<open>Inr True\<close> is the exact retry.\<close>

definition check_current :: "registry \<Rightarrow> policy_update \<Rightarrow> bytes \<Rightarrow> bool result" where
  "check_current r u bs =
     (case select_one (\<lambda>g. gr_gid g = pu_gid u) (rg_groups r) of
        Some g \<Rightarrow>
          if gr_generation g = pu_expected_generation u + 1 \<and> gr_last_update g = bs then Inr True
          else
            ensure (gr_generation g = pu_expected_generation u) ''stale policy generation''
            (ensure (gr_coordinator g = pu_signer u) ''only coordinator may change policy''
            (ensure (pu_epoch u > gr_epoch g) ''policy requires a newer MLS epoch'' (Inr False)))
      | None \<Rightarrow>
          ensure (is_creation u) ''new policy must contain only creator at epoch zero'' (Inr False))"

definition write_policy :: "registry_env \<Rightarrow> policy_update \<Rightarrow> bytes \<Rightarrow> registry \<Rightarrow> registry result" where
  "write_policy env u bs r =
     fold_r (insert_member (pu_gid u)) (pu_members u)
       (clear_members (pu_gid u) (upsert_group env u bs (bump_members (pu_gid u) r)))"

definition policy_event :: "policy_update \<Rightarrow> string option \<Rightarrow> string option \<Rightarrow> event" where
  "policy_event u who target = (committed PolicyCommitted)\<lparr>e_actor := VerifiedDevice,
     e_actor_reference := who, e_target_reference := target,
     e_generation := Some (pu_expected_generation u + 1)\<rparr>"

text \<open>Membership reductions record through the repair reserve, expansions through the ordinary one.\<close>

definition policy_audit ::
    "'z authority_ext_scheme \<Rightarrow> registry_env \<Rightarrow> rpager \<Rightarrow> bool \<Rightarrow> policy_update \<Rightarrow> registry \<Rightarrow> registry result" where
  "policy_audit E env P reducing u r =
     (let who = reference_device r (pu_signer u); target = reference_group r (pu_gid u) in
      if reducing then Inr (repair_event E (re_audit env) P (policy_event u (ok who) (ok target)) r)
      else bind_r who (\<lambda>w. bind_r target (\<lambda>t.
        append_event E (re_audit env) (policy_event u (Some w) (Some t)) False r)))"

definition policy_tx ::
    "'z authority_ext_scheme \<Rightarrow> registry_env \<Rightarrow> rpager \<Rightarrow> policy_update \<Rightarrow> bytes \<Rightarrow> registry
      \<Rightarrow> (nat \<times> registry) result" where
  "policy_tx E env P u bs r =
     bind_r (authorize E r (pu_signer u)) (\<lambda>_.
     bind_r (check_members E r {} None (pu_members u)) (\<lambda>keys.
     bind_r (check_current r u bs) (\<lambda>retry.
     if retry then Inr (pu_expected_generation u + 1, r)
     else
       (let reducing = is_reducing r u in
        ensure (pu_signer u \<in> keys) ''coordinator must remain a member''
        (bind_r (write_policy env u bs r) (\<lambda>r1.
         bind_r (policy_audit E env P reducing u r1) (\<lambda>r2.
         bind_r (check_registry P r2) (\<lambda>_.
         bind_r (check_database (rg_capacity r2) (P r2) reducing) (\<lambda>_.
         Inr (pu_expected_generation u + 1, r2))))))))))"

text \<open>The token bucket of a principal; the map is changed even when the request is refused.\<close>

definition admit_principal :: "nat \<Rightarrow> string \<Rightarrow> registry \<Rightarrow> registry \<times> bool" where
  "admit_principal now key r =
     (let old = (case map_of (rg_rates r) key of Some b \<Rightarrow> b | None \<Rightarrow> rate_new 4 16 now);
          (new, ok) = allow now old in
      (r\<lparr>rg_rates := AList.update key new (rg_rates r)\<rparr>, ok))"

definition policy_request_ok :: "'z authority_ext_scheme \<Rightarrow> signed_policy \<Rightarrow> unit result" where
  "policy_request_ok E sp = (let u = sp_update sp in
     ensure (pu_version u = 1) ''unsupported policy version''
     (bind_r (validate_gid (pu_gid u)) (\<lambda>_.
      ensure (pu_members u \<noteq> [] \<and> length (pu_members u) \<le> 128) ''invalid policy size''
      (ensure (pu_epoch u \<le> I64_MAX \<and> pu_expected_generation u < I64_MAX) ''policy counter overflow''
      (ensure_e (nkey_ok E (pu_signer u)) (Extern ''invalid public key'')
      (bind_r (policy_bytes E u) (\<lambda>bs. verify_with E (pu_signer u) bs (sp_signature sp))))))))"

definition apply_policy_inner ::
    "'z authority_ext_scheme \<Rightarrow> registry_env \<Rightarrow> rpager \<Rightarrow> signed_policy \<Rightarrow> registry
      \<Rightarrow> registry \<times> nat result" where
  "apply_policy_inner E env P sp r = (let u = sp_update sp in
     bind_s (r, policy_request_ok E sp) (\<lambda>_ r.
     bind_s (r, authorize E r (pu_signer u)) (\<lambda>_ r.
     ensure_s (pu_signer u \<in> fst ` set (rg_rates r) \<or> length (rg_rates r) < 32)
       ''policy principal capacity exhausted'' r
     (case admit_principal (re_instant env) (pu_signer u) r of (r, allowed) \<Rightarrow>
       ensure_s allowed ''policy principal overload'' r
       (bind_s (r, pc (pc_policy E u)) (\<lambda>bs r.
        transaction (policy_tx E env P u bs) r))))))"

text \<open>A refused update of a verified, authorized signer leaves a denial record, best effort.\<close>

definition rejection_event :: "registry \<Rightarrow> string \<Rightarrow> event" where
  "rejection_event r signer = (committed PolicyRejected)\<lparr>e_stage := Result, e_outcome := Denied,
     e_reason := ReasonRejected, e_actor := VerifiedDevice,
     e_actor_reference := ok (reference_device r signer)\<rparr>"

definition policy_signer_verified :: "'z authority_ext_scheme \<Rightarrow> signed_policy \<Rightarrow> bool" where
  "policy_signer_verified E sp \<longleftrightarrow> is_ok (verify_with E (pu_signer (sp_update sp))
     (case policy_bytes E (sp_update sp) of Inl _ \<Rightarrow> [] | Inr bs \<Rightarrow> bs) (sp_signature sp))"

definition apply_policy ::
    "'z authority_ext_scheme \<Rightarrow> registry_env \<Rightarrow> rpager \<Rightarrow> signed_policy \<Rightarrow> registry
      \<Rightarrow> registry \<times> nat result" where
  "apply_policy E env P sp r =
     (case apply_policy_inner E env P sp r of
        (r1, Inr generation) \<Rightarrow> (r1, Inr generation)
      | (r1, Inl e) \<Rightarrow>
          (if length (pu_members (sp_update sp)) \<le> 128 \<and> policy_signer_verified E sp \<and>
              is_ok (authorize E r1 (pu_signer (sp_update sp)))
           then (case record_event E (re_audit env) P (rejection_event r1 (pu_signer (sp_update sp))) r1 of
                   Inl _ \<Rightarrow> (r1, Inl e)
                 | Inr r2 \<Rightarrow> (r2, Inl e))
           else (r1, Inl e)))"

section \<open>Reading the policy\<close>

definition authorized_groups ::
    "'z authority_ext_scheme \<Rightarrow> registry \<Rightarrow> string \<Rightarrow> string list result" where
  "authorized_groups E r key =
     bind_r (authorize E r key) (\<lambda>_.
     Inr (sort (map mr_gid (filter (\<lambda>m. mr_nkey m = key) (rg_members r)))))"

definition policy_state :: "registry \<Rightarrow> string \<Rightarrow> policy_state option result" where
  "policy_state r gid =
     bind_r (validate_gid gid) (\<lambda>_.
     Inr (map_option (\<lambda>g. \<lparr>ps_generation = gr_generation g, ps_epoch = gr_epoch g,
         ps_coordinator = gr_coordinator g,
         ps_members = map (\<lambda>m. \<lparr>mb_nkey = mr_nkey m, mb_leaf = mr_leaf m\<rparr>)
           (sort_key mr_leaf (filter (\<lambda>m. mr_gid m = gid) (rg_members r)))\<rparr>)
       (select_one (\<lambda>g. gr_gid g = gid) (rg_groups r))))"

section \<open>Welcome relay\<close>

definition relay_bytes :: "'z externals_scheme \<Rightarrow> welcome_relay \<Rightarrow> bytes result" where
  "relay_bytes E w =
     bind_r (pc (pc_relay E (wr_version w, wr_gid w, wr_epoch w, wr_recipient w, wr_sender w, wr_id w,
       wr_payload w))) (\<lambda>bs. Inr (as_bytes ''epochgrid/welcome-relay/v1'' @ [0] @ bs))"

definition relay_validate :: "'z authority_ext_scheme \<Rightarrow> registry \<Rightarrow> welcome_relay \<Rightarrow> string result" where
  "relay_validate E r w =
     ensure (wr_version w = 1 \<and> wr_id w > 0) ''invalid Welcome relay''
     (ensure_e (nkey_ok E (wr_sender w)) (Extern ''invalid public key'')
     (bind_r (relay_bytes E w) (\<lambda>bs.
      bind_r (verify_with E (wr_sender w) bs (wr_signature w)) (\<lambda>_.
      bind_r (authorize E r (wr_sender w)) (\<lambda>_.
      bind_r (authorize E r (wr_recipient w)) (\<lambda>recipient.
      bind_r (policy_state r (wr_gid w)) (\<lambda>st.
      bind_r (or_err st (Anyhow ''unknown group'')) (\<lambda>state.
      ensure (ps_coordinator state = wr_sender w \<and> ps_epoch state = wr_epoch w \<and>
          list_ex (\<lambda>m. mb_nkey m = wr_recipient w) (ps_members state))
        ''Welcome relay is not authorized by current membership''
      (bind_r (decode E (wr_payload w)) (\<lambda>b.
       bind_r (or_err (as_welcome b) (Anyhow ''expected Welcome envelope'')) (\<lambda>payload.
       bind_r (or_err (is_mls_welcome E payload) (Extern ''tls_deserialize'')) (\<lambda>welcome.
       ensure welcome ''expected MLS Welcome''
        (Inr (''epochgrid.v1.user.'' @ da_user recipient @ ''.'' @ da_device recipient @ ''.inbox''))))))))))))))"

section \<open>The loop over the members\<close>

lemma authorize_live: "authorize E r k = Inr a \<Longrightarrow> live_key r k"
  by (auto simp: authorize_def result_simps Let_def live_key_def admitted_row_def dest!: select_one_Some)

lemma check_members_ok:
  assumes "check_members E r keys previous ms = Inr keys'"
  shows "keys' = keys \<union> mb_nkey ` set ms \<and> (\<forall>m \<in> set ms. live_key r (mb_nkey m)) \<and>
    distinct (map mb_nkey ms) \<and> mb_nkey ` set ms \<inter> keys = {} \<and> sorted_wrt (<) (map mb_leaf ms) \<and>
    (\<forall>leaf. previous = Some leaf \<longrightarrow> (\<forall>m \<in> set ms. leaf < mb_leaf m))"
  using assms
proof (induction ms arbitrary: keys previous)
  case (Cons m ms)
  obtain a where m: "mb_nkey m \<notin> keys" "\<forall>leaf. previous = Some leaf \<longrightarrow> leaf < mb_leaf m"
      "authorize E r (mb_nkey m) = Inr a"
    and rest: "check_members E r (insert (mb_nkey m) keys) (Some (mb_leaf m)) ms = Inr keys'"
    using Cons.prems by (auto simp: result_simps split: option.splits)
  note IH = Cons.IH[OF rest]
  have "\<forall>x \<in> set ms. mb_leaf m < mb_leaf x" using IH by blast
  moreover have "live_key r (mb_nkey m)" using m(3) by (rule authorize_live)
  ultimately show ?case using IH m by auto
qed simp

section \<open>Writing a policy keeps the tables consistent\<close>

text \<open>
  Between the statements the coordinator of the written group may be missing from its members;
  every other part of the table invariant holds throughout.
\<close>

definition coordinators_but :: "string \<Rightarrow> registry \<Rightarrow> bool" where
  "coordinators_but gid r \<longleftrightarrow> (\<forall>g \<in> set (rg_groups r). gr_gid g \<noteq> gid \<longrightarrow> gr_coordinator g = [] \<or>
     (\<exists>m \<in> set (rg_members r). mr_gid m = gr_gid g \<and> mr_nkey m = gr_coordinator g))"

definition reg_part :: "'z authority_ext_scheme \<Rightarrow> string \<Rightarrow> registry \<Rightarrow> bool" where
  "reg_part E gid r \<longleftrightarrow> reg_keys r \<and> reg_refs r \<and> list_all (device_ok E) (rg_devices r) \<and> reg_tokens r \<and>
     reg_members r \<and> coordinators_but gid r"

definition same_frame :: "registry \<Rightarrow> registry \<Rightarrow> bool" where
  "same_frame r r' \<longleftrightarrow> rg_users r' = rg_users r \<and> rg_bindings r' = rg_bindings r \<and>
     rg_tokens r' = rg_tokens r \<and> rg_audit r' = rg_audit r \<and> rg_capacity r' = rg_capacity r \<and>
     rg_rates r' = rg_rates r"

lemma same_frame_trans: "same_frame r r' \<Longrightarrow> same_frame r' r'' \<Longrightarrow> same_frame r r''"
  by (simp add: same_frame_def)

lemma list_all_device_le:
  assumes "list_all (device_ok E) ds" "\<And>d. device_le d (f d)"
  shows "list_all (device_ok E) (map f ds)"
  using assms(1) by (induction ds) (auto intro: device_ok_le[OF _ assms(2)])

lemma reg_tokens_map:
  assumes "rg_tokens r' = rg_tokens r" "rg_devices r' = map f (rg_devices r)" "\<And>d. dv_nkey (f d) = dv_nkey d"
  shows "reg_tokens r' = reg_tokens r"
  using assms by (simp add: reg_tokens_def)

lemma live_key_map:
  assumes "rg_devices r' = map f (rg_devices r)"
    "\<And>d. dv_nkey (f d) = dv_nkey d \<and> dv_ready (f d) = dv_ready d \<and> dv_revoked (f d) = dv_revoked d"
  shows "live_key r' = live_key r"
  using assms by (intro ext) (simp add: live_key_def)

lemma bump_members_step:
  assumes "reg_inv E r"
  shows "reg_part E gid (bump_members gid r)" "reg_le r (bump_members gid r)"
    "same_frame r (bump_members gid r)" "rg_members (bump_members gid r) = rg_members r"
    "rg_groups (bump_members gid r) = rg_groups r" "live_key (bump_members gid r) = live_key r"
proof -
  have "reg_tables E (bump_members gid r)" "reg_le r (bump_members gid r)"
    using update_devices_good[OF assms, of "\<lambda>d. d\<lparr>dv_generation := dv_generation d + 1\<rparr>" "bump_members gid r"]
    by (auto simp: device_le_def bump_members_def)
  then show "reg_part E gid (bump_members gid r)" "reg_le r (bump_members gid r)"
    by (auto simp: reg_tables_def reg_part_def reg_coordinators_def coordinators_but_def)
  show "live_key (bump_members gid r) = live_key r"
    by (rule live_key_map[of _ "\<lambda>d. if dv_nkey d \<in> mr_nkey ` {m \<in> set (rg_members r). mr_gid m = gid}
        then d\<lparr>dv_generation := dv_generation d + 1\<rparr> else d"])
      (simp_all add: bump_members_def update_where_def)
qed (simp_all add: bump_members_def same_frame_def)

lemma upsert_group_step:
  assumes "reg_part E (pu_gid u) r"
  shows "reg_part E (pu_gid u) (upsert_group env u bs r)" "same_frame r (upsert_group env u bs r)"
    "rg_members (upsert_group env u bs r) = rg_members r"
    "live_key (upsert_group env u bs r) = live_key r" "pu_gid u \<in> gr_gid ` set (rg_groups (upsert_group env u bs r))"
proof -
  let ?r = "upsert_group env u bs r"
  have g: "map gr_gid (rg_groups ?r) =
      (if pu_gid u \<in> gr_gid ` set (rg_groups r) then map gr_gid (rg_groups r)
       else map gr_gid (rg_groups r) @ [pu_gid u])"
    by (simp add: upsert_group_def map_update_where)
  have gs: "gr_gid ` set (rg_groups ?r) = insert (pu_gid u) (gr_gid ` set (rg_groups r))"
    using arg_cong[OF g, of set] by auto
  then show "pu_gid u \<in> gr_gid ` set (rg_groups ?r)" by blast
  have other: "g \<in> set (rg_groups r)" if "g \<in> set (rg_groups ?r)" "gr_gid g \<noteq> pu_gid u" for g
    using that by (auto simp: upsert_group_def set_update_where split: if_splits)
  have eq: "rg_users ?r = rg_users r" "rg_bindings ?r = rg_bindings r" "rg_tokens ?r = rg_tokens r"
      "rg_devices ?r = rg_devices r" "rg_members ?r = rg_members r"
    by (simp_all add: upsert_group_def)
  have "reg_keys ?r" using assms unfolding reg_part_def reg_keys_def eq g by (auto split: if_splits)
  moreover have "reg_refs ?r" using assms unfolding reg_part_def reg_refs_def eq gs by (simp add: subset_insertI2)
  moreover have "coordinators_but (pu_gid u) ?r"
    using assms other unfolding reg_part_def coordinators_but_def eq by fast
  moreover have "reg_tokens ?r = reg_tokens r" "reg_members ?r = reg_members r"
    by (simp_all add: reg_tokens_def reg_members_def live_key_def eq)
  ultimately show "reg_part E (pu_gid u) ?r" using assms by (simp add: reg_part_def eq)
  show "live_key ?r = live_key r" by (rule ext) (simp add: live_key_def eq)
qed (simp_all add: upsert_group_def same_frame_def)

lemma clear_members_step:
  assumes "reg_part E gid r"
  shows "reg_part E gid (clear_members gid r)" "same_frame r (clear_members gid r)"
    "rg_groups (clear_members gid r) = rg_groups r" "rg_devices (clear_members gid r) = rg_devices r"
    "live_key (clear_members gid r) = live_key r" "reg_le r (clear_members gid r)"
proof -
  show "reg_part E gid (clear_members gid r)"
    using assms unfolding reg_part_def reg_defs coordinators_but_def clear_members_def
    by (auto simp: distinct_delete_where)
  show "live_key (clear_members gid r) = live_key r"
    by (rule ext) (simp add: live_key_def clear_members_def)
qed (simp_all add: clear_members_def same_frame_def reg_le_def table_le_refl)

definition as_row :: "string \<Rightarrow> policy_member \<Rightarrow> member_row" where
  "as_row gid m = \<lparr>mr_gid = gid, mr_nkey = mb_nkey m, mr_leaf = mb_leaf m\<rparr>"

lemma insert_member_step:
  assumes "insert_member gid m r = Inr r'" "reg_part E gid r" "live_key r (mb_nkey m)"
  shows "reg_part E gid r'" "same_frame r r'" "rg_groups r' = rg_groups r"
    "rg_members r' = rg_members r @ [as_row gid m]" "live_key r' = live_key r" "reg_le r r'"
proof -
  have r': "r' = update_device (mb_nkey m) (\<lambda>d. d\<lparr>dv_generation := dv_generation d + 1\<rparr>)
        (r\<lparr>rg_members := rg_members r @ [as_row gid m]\<rparr>)"
    and k: "gid \<in> gr_gid ` set (rg_groups r)"
      "(gid, mb_leaf m) \<notin> (\<lambda>x. (mr_gid x, mr_leaf x)) ` set (rg_members r)"
      "(gid, mb_nkey m) \<notin> (\<lambda>x. (mr_gid x, mr_nkey x)) ` set (rg_members r)"
    using assms(1) by (auto simp: insert_member_def result_simps insert_row_ok as_row_def)
  let ?f = "\<lambda>d. if dv_nkey d = mb_nkey m then d\<lparr>dv_generation := dv_generation d + 1\<rparr> else d"
  have f: "device_le d (?f d)" for d by (simp add: device_le_def)
  have eq: "rg_users r' = rg_users r" "rg_bindings r' = rg_bindings r" "rg_tokens r' = rg_tokens r"
      "rg_devices r' = map ?f (rg_devices r)" "rg_groups r' = rg_groups r"
      "rg_members r' = rg_members r @ [as_row gid m]"
    by (simp_all add: r' update_device_def update_where_def)
  show live: "live_key r' = live_key r" by (rule live_key_map[OF eq(4)]) simp
  have "reg_keys r'"
    using assms(2) k by (simp add: reg_part_def reg_keys_def eq comp_def as_row_def if_distrib cong: if_cong)
  moreover have "reg_refs r'" using assms(2) k by (auto simp: reg_part_def reg_refs_def eq as_row_def)
  moreover have "list_all (device_ok E) (rg_devices r')"
    using assms(2) unfolding reg_part_def eq(4) by (intro list_all_device_le[OF _ f]) blast
  moreover have "reg_tokens r'"
    using assms(2) reg_tokens_map[OF eq(3,4)] by (simp add: reg_part_def)
  moreover have "reg_members r'"
    using assms(2,3) unfolding reg_part_def reg_members_def live eq by (auto simp: as_row_def)
  moreover have "coordinators_but gid r'"
    using assms(2) unfolding reg_part_def coordinators_but_def eq by auto
  ultimately show "reg_part E gid r'" by (simp add: reg_part_def)
  show "same_frame r r'" by (simp add: same_frame_def r' update_device_def)
  show "reg_le r r'"
    by (rule reg_le_step[of r' r ?f id]) (use f in \<open>simp_all add: eq(1-5)\<close>)
  show "rg_groups r' = rg_groups r" "rg_members r' = rg_members r @ [as_row gid m]" by (rule eq(5,6))+
qed

lemma insert_members_step:
  assumes "fold_r (insert_member gid) ms r = Inr r'" "reg_part E gid r" "\<forall>m \<in> set ms. live_key r (mb_nkey m)"
  shows "reg_part E gid r' \<and> same_frame r r' \<and> rg_groups r' = rg_groups r \<and>
    rg_members r' = rg_members r @ map (as_row gid) ms \<and> reg_le r r'"
  using assms
proof (induction ms arbitrary: r)
  case (Cons m ms)
  obtain r1 where r1: "insert_member gid m r = Inr r1" "fold_r (insert_member gid) ms r1 = Inr r'"
    using Cons.prems(1) by (auto simp: result_simps)
  have live: "live_key r (mb_nkey m)" using Cons.prems(3) by simp
  note step = insert_member_step[OF r1(1) Cons.prems(2) live]
  have "\<forall>m \<in> set ms. live_key r1 (mb_nkey m)" using Cons.prems(3) step(5) by simp
  from Cons.IH[OF r1(2) step(1) this] step show ?case
    by (auto intro: same_frame_trans reg_le_trans)
qed (simp add: same_frame_def)

text \<open>What a written policy looks like afterwards.\<close>

lemma write_policy_step:
  assumes w: "write_policy env u bs r = Inr r'" and inv: "reg_inv E r"
    and live: "\<forall>m \<in> set (pu_members u). live_key r (mb_nkey m)"
    and stored: "\<And>g. g \<in> set (rg_groups r) \<Longrightarrow> gr_gid g = pu_gid u \<Longrightarrow>
      gr_generation g = pu_expected_generation u \<and> gr_epoch g \<le> pu_epoch u"
    and signer: "pu_signer u \<in> mb_nkey ` set (pu_members u)"
  shows "reg_tables E r'" "same_frame r r'" "reg_le r r'"
    "rg_groups r' = rg_groups (upsert_group env u bs r)"
    "rg_members r' = delete_where (\<lambda>m. mr_gid m = pu_gid u) (rg_members r) @ map (as_row (pu_gid u)) (pu_members u)"
proof -
  let ?gid = "pu_gid u"
  let ?r1 = "bump_members ?gid r"
  let ?r2 = "upsert_group env u bs ?r1"
  let ?r3 = "clear_members ?gid ?r2"
  note b = bump_members_step[OF inv, of ?gid] and ug = upsert_group_step[OF b(1), of env bs]
  note c = clear_members_step[OF ug(1)]
  have f: "fold_r (insert_member ?gid) (pu_members u) ?r3 = Inr r'" using w by (simp add: write_policy_def)
  have l: "\<forall>m \<in> set (pu_members u). live_key ?r3 (mb_nkey m)" using live b(6) ug(4) c(5) by simp
  note i = insert_members_step[OF f c(1) l]
  have le2: "reg_le ?r1 ?r2"
  proof -
    have "table_le group_le (rg_groups ?r1) (rg_groups ?r2)"
      unfolding upsert_group_def b(5)
      by (auto intro!: table_le_append table_le_update) (auto simp: group_le_def dest: stored)
    then show ?thesis by (simp add: reg_le_def upsert_group_def table_le_refl)
  qed
  show "same_frame r r'" using b(3) ug(2) c(2) i by (blast intro: same_frame_trans)
  show "reg_le r r'" using b(2) le2 c(6) i by (blast intro: reg_le_trans)
  show g: "rg_groups r' = rg_groups (upsert_group env u bs r)"
    using i c(3) by (simp add: upsert_group_def bump_members_def)
  show m: "rg_members r' = delete_where (\<lambda>m. mr_gid m = ?gid) (rg_members r) @ map (as_row ?gid) (pu_members u)"
    using i by (simp add: clear_members_def upsert_group_def bump_members_def)
  have "gr_coordinator g = [] \<or> (\<exists>m \<in> set (rg_members r'). mr_gid m = gr_gid g \<and> mr_nkey m = gr_coordinator g)"
    if gg: "g \<in> set (rg_groups r')" for g
  proof (cases "gr_gid g = ?gid")
    case True
    then have "gr_coordinator g = pu_signer u"
      using gg imageI[of g "set (rg_groups r)" gr_gid] unfolding g
      by (auto simp: upsert_group_def set_update_where split: if_splits)
    moreover obtain x where "x \<in> set (pu_members u)" "mb_nkey x = pu_signer u" using signer by auto
    ultimately show ?thesis
      using True unfolding m
      by (intro disjI2 bexI[of _ "as_row ?gid x"]) (auto simp: as_row_def intro!: image_eqI[of _ _ x])
  next
    case False
    then show ?thesis using i gg by (auto simp: reg_part_def coordinators_but_def)
  qed
  then show "reg_tables E r'" using i by (auto simp: reg_tables_def reg_part_def reg_coordinators_def)
qed

lemma check_current_fresh:
  assumes "check_current r u bs = Inr False" "reg_keys r" "g \<in> set (rg_groups r)" "gr_gid g = pu_gid u"
  shows "gr_generation g = pu_expected_generation u" "gr_coordinator g = pu_signer u" "gr_epoch g < pu_epoch u"
proof -
  have "select_one (\<lambda>x. gr_gid x = pu_gid u) (rg_groups r) = Some g"
    using select_one_key[of gr_gid "rg_groups r" g] assms by (simp add: reg_keys_def)
  then show "gr_generation g = pu_expected_generation u" "gr_coordinator g = pu_signer u" "gr_epoch g < pu_epoch u"
    using assms(1) by (auto simp: check_current_def result_simps split: if_splits)
qed

lemma policy_audit_ok:
  assumes "policy_audit E env P reducing u r = Inr r'"
  obtains a where "r' = r\<lparr>rg_audit := a\<rparr>" "env_ok (re_audit env) \<Longrightarrow> audit_inv E (rg_audit r) \<Longrightarrow> audit_inv E a"
proof (cases reducing)
  case True
  then have r': "r' = repair_event E (re_audit env) P (policy_event u (ok (reference_device r (pu_signer u)))
      (ok (reference_group r (pu_gid u)))) r"
    using assms by (simp add: policy_audit_def)
  show ?thesis by (rule repair_event_eq[where E = E and env = "re_audit env" and P = P and r = r])
      (rule that, unfold r', assumption+)
next
  case False
  then obtain ev where "append_event E (re_audit env) ev False r = Inr r'"
    using assms by (auto simp: policy_audit_def result_simps)
  then show ?thesis by (elim append_event_ok) (rule that)
qed

lemma policy_tx_cases:
  assumes "policy_tx E env P u bs r = Inr (n, r')" "reg_inv E r"
  obtains (retry) g where "r' = r" "n = pu_expected_generation u + 1"
      "select_one (\<lambda>g. gr_gid g = pu_gid u) (rg_groups r) = Some g" "gr_generation g = n" "gr_last_update g = bs"
  | (fresh) r1 a where "check_current r u bs = Inr False" "n = pu_expected_generation u + 1"
      "r' = r1\<lparr>rg_audit := a\<rparr>" "write_policy env u bs r = Inr r1" "reg_tables E r1" "same_frame r r1" "reg_le r r1"
      "rg_groups r1 = rg_groups (upsert_group env u bs r)"
      "rg_members r1 = delete_where (\<lambda>m. mr_gid m = pu_gid u) (rg_members r) @ map (as_row (pu_gid u)) (pu_members u)"
      "env_ok (re_audit env) \<Longrightarrow> audit_inv E a" "reg_limits r1" "sorted_wrt (<) (map mb_leaf (pu_members u))"
proof -
  obtain keys q where m: "check_members E r {} None (pu_members u) = Inr keys"
    and q: "check_current r u bs = Inr q"
    using assms(1) by (auto simp: policy_tx_def result_simps)
  note mem = check_members_ok[OF m]
  show ?thesis
  proof (cases q)
    case True
    then obtain g where "select_one (\<lambda>g. gr_gid g = pu_gid u) (rg_groups r) = Some g"
        "gr_generation g = pu_expected_generation u + 1" "gr_last_update g = bs"
      using q by (auto simp: check_current_def result_simps split: option.splits if_splits)
    then show ?thesis using assms(1) m q True by (intro retry) (auto simp: policy_tx_def result_simps)
  next
    case False
    then obtain r1 reducing where w: "write_policy env u bs r = Inr r1" and s: "pu_signer u \<in> keys"
      and au: "policy_audit E env P reducing u r1 = Inr r'" and n: "n = pu_expected_generation u + 1"
      and lim: "reg_limits r'"
      using assms(1) m q by (auto simp: policy_tx_def result_simps Let_def dest: check_registry_limits)
    from au obtain a where a: "r' = r1\<lparr>rg_audit := a\<rparr>"
        "env_ok (re_audit env) \<Longrightarrow> audit_inv E (rg_audit r1) \<Longrightarrow> audit_inv E a"
      by (elim policy_audit_ok) auto
    have k: "reg_keys r" using assms(2) by (simp add: reg_inv_def reg_tables_def)
    have stored: "gr_generation g = pu_expected_generation u \<and> gr_epoch g \<le> pu_epoch u"
      if "g \<in> set (rg_groups r)" "gr_gid g = pu_gid u" for g
      using check_current_fresh[OF _ k that] q False by force
    have live: "\<forall>m \<in> set (pu_members u). live_key r (mb_nkey m)" "pu_signer u \<in> mb_nkey ` set (pu_members u)"
      using mem s by auto
    have step: "reg_tables E r1" "same_frame r r1" "reg_le r r1"
        "rg_groups r1 = rg_groups (upsert_group env u bs r)"
        "rg_members r1 = delete_where (\<lambda>m. mr_gid m = pu_gid u) (rg_members r) @ map (as_row (pu_gid u)) (pu_members u)"
      using write_policy_step[OF w assms(2) live(1) stored live(2)] by blast+
    have ai: "env_ok (re_audit env) \<Longrightarrow> audit_inv E a"
      using a(2) step(2) assms(2) by (simp add: same_frame_def reg_inv_def)
    have l1: "reg_limits r1" using lim by (simp add: a(1))
    show ?thesis using q False n a(1) w step ai l1 mem by (intro fresh) auto
  qed
qed

lemma policy_tx_good:
  assumes "policy_tx E env P u bs r = Inr (n, r')" "reg_inv E r" "env_ok (re_audit env)"
  shows "reg_good E r r'"
  using assms(1,2)
proof (cases rule: policy_tx_cases)
  case retry
  then show ?thesis using assms(2) by (simp add: reg_good_def)
next
  case (fresh r1 a)
  have "reg_rates r1" using fresh(6) assms(2) by (simp add: same_frame_def reg_inv_def reg_rates_def)
  then show ?thesis
    unfolding fresh(3) using fresh(5,7,10,11) assms(3) by (intro reg_goodI) auto
qed

section \<open>Rate limiting and the whole handler\<close>

lemma rate_new_ok: "rate_ok (rate_new 4 16 now)"
  by (simp add: rate_ok_def rate_new_def)

lemma list_all_alist_update:
  "list_all (p \<circ> snd) al \<Longrightarrow> p v \<Longrightarrow> list_all (p \<circ> snd) (AList.update k v al)"
  by (induction al) auto

lemma admit_principal_ok:
  assumes "admit_principal now key r = (r', allowed)" "reg_inv E r"
    "key \<in> fst ` set (rg_rates r) \<or> length (rg_rates r) < 32"
  obtains q where "r' = r\<lparr>rg_rates := q\<rparr>" "reg_good E r r'"
proof -
  define old where "old = (case map_of (rg_rates r) key of Some b \<Rightarrow> b | None \<Rightarrow> rate_new 4 16 now)"
  have rates: "distinct (map fst (rg_rates r))" "length (rg_rates r) \<le> 32" "list_all (rate_ok \<circ> snd) (rg_rates r)"
    using assms(2) by (simp_all add: reg_inv_def reg_rates_def)
  have "rate_ok old"
    using rates(3) rate_new_ok by (auto simp: old_def list_all_iff split: option.splits dest!: map_of_SomeD)
  then have new: "rate_ok (fst (allow now old))" using rate_machine.inv_step by blast
  let ?q = "AList.update key (fst (allow now old)) (rg_rates r)"
  have r': "r' = r\<lparr>rg_rates := ?q\<rparr>"
    using assms(1) by (auto simp: admit_principal_def old_def Let_def split: prod.splits)
  have "length ?q = length (map fst ?q)" by simp
  then have "length ?q \<le> 32" using rates(2) assms(3) by (auto simp: AList.update_keys)
  moreover have "list_all (rate_ok \<circ> snd) ?q"
    using rates(3) new by (rule list_all_alist_update)
  moreover have "distinct (map fst ?q)" using rates(1) by (rule AList.distinct_update)
  ultimately have "reg_rates r'" by (simp add: r' reg_rates_def)
  then have "reg_good E r r'" using assms(2) by (simp add: reg_good_def reg_inv_def r')
  then show ?thesis using that r' by blast
qed

text \<open>The accepted requests: everything the handler checked before it wrote.\<close>

lemma apply_policy_inner_ok:
  assumes "apply_policy_inner E env P sp r = (r', Inr n)"
  obtains bs r1 where "policy_request_ok E sp = Inr ()" "is_ok (authorize E r (pu_signer (sp_update sp)))"
    "pu_signer (sp_update sp) \<in> fst ` set (rg_rates r) \<or> length (rg_rates r) < 32"
    "admit_principal (re_instant env) (pu_signer (sp_update sp)) r = (r1, True)"
    "pc_policy E (sp_update sp) = Some bs" "policy_tx E env P (sp_update sp) bs r1 = Inr (n, r')"
proof -
  obtain a where q: "policy_request_ok E sp = Inr ()" and a: "authorize E r (pu_signer (sp_update sp)) = Inr a"
    and c: "pu_signer (sp_update sp) \<in> fst ` set (rg_rates r) \<or> length (rg_rates r) < 32"
    using assms unfolding apply_policy_inner_def Let_def by (auto simp: result_simps)
  obtain r1 ok where ad: "admit_principal (re_instant env) (pu_signer (sp_update sp)) r = (r1, ok)"
    by fastforce
  from assms q a c ad obtain bs where "ok" "pc_policy E (sp_update sp) = Some bs"
      "policy_tx E env P (sp_update sp) bs r1 = Inr (n, r')"
    unfolding apply_policy_inner_def Let_def by (auto simp: result_simps transaction_Inr)
  then show ?thesis using that q a c ad by simp
qed

lemma reg_good_trans: "reg_good E r r1 \<Longrightarrow> reg_good E r1 r2 \<Longrightarrow> reg_good E r r2"
  using reg_le_trans by (auto simp: reg_good_def)

lemma apply_policy_inner_good:
  assumes inv: "reg_inv E r" and env: "env_ok (re_audit env)"
  shows "reg_good E r (fst (apply_policy_inner E env P sp r))"
proof -
  have refl: "reg_good E r r" using inv by (simp add: reg_good_def)
  let ?u = "sp_update sp"
  show ?thesis
  proof (cases "is_ok (policy_request_ok E sp) \<and> is_ok (authorize E r (pu_signer ?u)) \<and>
      (pu_signer ?u \<in> fst ` set (rg_rates r) \<or> length (rg_rates r) < 32)")
    case False
    then show ?thesis using refl
      unfolding apply_policy_inner_def Let_def bind_s_def ensure_s_def
      by (auto simp: is_ok_def split: sum.splits)
  next
    case True
    obtain r1 allowed where ad: "admit_principal (re_instant env) (pu_signer ?u) r = (r1, allowed)" by fastforce
    from ad inv obtain q where r1: "r1 = r\<lparr>rg_rates := q\<rparr>" "reg_good E r r1"
      by (rule admit_principal_ok) (use True in auto)
    have tx: "reg_good E r (fst (transaction (policy_tx E env P ?u bs) r1))" for bs
      using transaction_state[of "policy_tx E env P ?u bs" r1]
    proof
      assume "\<exists>n. policy_tx E env P ?u bs r1 = Inr (n, fst (transaction (policy_tx E env P ?u bs) r1))"
      then obtain n where t: "policy_tx E env P ?u bs r1 = Inr (n, fst (transaction (policy_tx E env P ?u bs) r1))" ..
      have "reg_inv E r1" using r1(2) by (simp add: reg_good_def)
      from policy_tx_good[OF t this env] show ?thesis by (rule reg_good_trans[OF r1(2)])
    qed (use r1 in simp)
    obtain x y where "policy_request_ok E sp = Inr x" "authorize E r (pu_signer ?u) = Inr y"
      using True by (auto simp: is_ok_iff)
    then show ?thesis
      using True ad tx r1(2) by (cases "pc (pc_policy E ?u)"; cases allowed)
        (simp_all add: apply_policy_inner_def Let_def)
  qed
qed

lemma apply_policy_good:
  assumes inv: "reg_inv E r" and env: "env_ok (re_audit env)"
  shows "reg_good E r (fst (apply_policy E env P sp r))"
proof -
  obtain r1 res where i: "apply_policy_inner E env P sp r = (r1, res)" by fastforce
  then have g: "reg_good E r r1" using apply_policy_inner_good[OF assms, of P sp] by simp
  have rec: "reg_good E r r2" if "record_event E (re_audit env) P ev r1 = Inr r2" for ev r2
    using that
  proof (rule record_event_ok)
    fix a
    assume a: "r2 = r1\<lparr>rg_audit := a\<rparr>" "env_ok (re_audit env) \<Longrightarrow> audit_inv E (rg_audit r1) \<Longrightarrow> audit_inv E a"
    then show ?thesis using g env by (auto simp: reg_good_def reg_inv_def)
  qed
  show ?thesis
    using g rec by (cases res) (auto simp: apply_policy_def i split: sum.splits)
qed

section \<open>The registry as a machine\<close>

datatype registry_op =
    Invite registry_env string nat
  | EnrollDevice registry_env string device_registration
  | Activate registry_env string
  | RevokeDevice registry_env string
  | ApplyPolicy registry_env signed_policy

fun registry_env_ok :: "registry_op \<Rightarrow> bool" where
  "registry_env_ok (Invite env handle ttl) = env_ok (re_audit env)"
| "registry_env_ok (EnrollDevice env token reg) = env_ok (re_audit env)"
| "registry_env_ok (Activate env key) = env_ok (re_audit env)"
| "registry_env_ok (RevokeDevice env key) = env_ok (re_audit env)"
| "registry_env_ok (ApplyPolicy env sp) = env_ok (re_audit env)"

text \<open>A failed transaction rolls back.\<close>

definition or_same :: "registry \<Rightarrow> registry result \<Rightarrow> registry" where
  "or_same r x = (case x of Inl _ \<Rightarrow> r | Inr r' \<Rightarrow> r')"

fun registry_step ::
    "'z authority_ext_scheme \<Rightarrow> rpager \<Rightarrow> registry \<Rightarrow> registry_op \<Rightarrow> registry" where
  "registry_step E P r (Invite env handle ttl) = or_same r (map_sum id snd (invite E env P handle ttl r))"
| "registry_step E P r (EnrollDevice env token reg) = or_same r (enroll E env P token reg r)"
| "registry_step E P r (Activate env key) = or_same r (activate E env P key r)"
| "registry_step E P r (RevokeDevice env key) = or_same r (revoke E env P key r)"
| "registry_step E P r (ApplyPolicy env sp) = fst (apply_policy E env P sp r)"

lemma or_same_good:
  "reg_inv E r \<Longrightarrow> (\<And>r'. x = Inr r' \<Longrightarrow> reg_good E r r') \<Longrightarrow> reg_good E r (or_same r x)"
  by (cases x) (auto simp: or_same_def reg_good_def)

lemma registry_step_good:
  assumes "reg_inv E r" "registry_env_ok x"
  shows "reg_good E r (registry_step E P r x)"
  using assms
  by (cases x) (auto simp: result_simps intro!: or_same_good
      intro: invite_good enroll_good activate_good revoke_good apply_policy_good)

interpretation registry_machine: monotone_machine "registry_step E P" "reg_inv E" registry_env_ok reg_le
proof (unfold_locales, goal_cases)
  case (1 s x)
  then show ?case using registry_step_good by (auto simp: reg_good_def)
next
  case (3 s t u)
  then show ?case by (rule reg_le_trans)
next
  case (4 s x)
  then show ?case using registry_step_good by (auto simp: reg_good_def)
qed simp

end
