(* ===== verification/Store.thy ===== *)
theory Store
  imports Identity Capacity Transparency
begin

text \<open>
  The client's \<open>IdentityStore\<close> (\<open>identity.rs\<close>): the tables of the encrypted database that the
  client modules share, the MLS group states kept in the same database, and the transaction
  with its two budgets. OpenMLS is third-party code: a group state is a value of the type
  variable \<open>'m\<close>, and the calls on it are the fields of the record \<open>mls_ext\<close>.
\<close>

section \<open>What the sources use of OpenMLS\<close>

record mls_member =
  mm_index :: nat
  mm_key :: bytes
  mm_credential :: bytes
  mm_identity :: "bytes option"

datatype content_type = Application | Commit | Proposal

text \<open>A deserialised message: its wire format, and the header of the protocol message if it is one.\<close>

record mls_header =
  mh_group :: string
  mh_epoch :: nat
  mh_content :: content_type

record mls_message =
  mi_private :: bool
  mi_header :: "mls_header option"

record staged_commit =
  sc_path_leaf :: "(bytes \<times> bytes) option"
  sc_queued :: nat
  sc_adds :: nat
  sc_removed :: "nat list"

datatype processed_content =
    ApplicationMessage bytes
  | StagedCommit staged_commit
  | OtherContent

record processed =
  pr_sender :: "nat option"
  pr_identity :: "bytes option"
  pr_content :: processed_content

datatype process_error = StorageError | LibraryError | GroupStateError | OtherError

record staged_welcome =
  sw_sender :: "(bytes \<times> bytes) option"
  sw_members :: nat
  sw_group :: string
  sw_epoch :: nat

record 'm mls_ext = externals +
  pc_stored_checkpoint :: "checkpoint \<Rightarrow> bytes option"
  un_stored_checkpoint :: "bytes \<Rightarrow> checkpoint option"
  show_error :: "error \<Rightarrow> string"
  ms_members :: "'m \<Rightarrow> mls_member list"
  ms_active :: "'m \<Rightarrow> bool"
  ms_epoch :: "'m \<Rightarrow> nat"
  ms_own :: "'m \<Rightarrow> nat"
  ms_parse :: "bytes \<Rightarrow> mls_message option"
  ms_process :: "'m \<Rightarrow> bytes \<Rightarrow> process_error + ('m \<times> processed)"
  ms_merge_staged :: "'m \<Rightarrow> staged_commit \<Rightarrow> 'm option"
  ms_create_message :: "'m \<Rightarrow> bytes \<Rightarrow> ('m \<times> bytes) option"
  ms_add_member :: "'m \<Rightarrow> bytes \<Rightarrow> ('m \<times> bytes \<times> bytes) option"
  ms_remove_members :: "'m \<Rightarrow> nat list \<Rightarrow> ('m \<times> bytes \<times> bytes option) option"
  ms_merge_pending :: "'m \<Rightarrow> 'm option"
  ms_new_group :: "string \<Rightarrow> 'm option"
  ms_stage_welcome :: "bytes \<Rightarrow> staged_welcome option"
  ms_join :: "bytes \<Rightarrow> 'm option"

section \<open>Tables\<close>

datatype trust_level = TrustUnverified | TrustVerified | TrustChanged

record device_trust =
  dt_user :: string
  dt_device :: string
  dt_fingerprint :: string
  dt_latest :: string
  dt_state :: trust_level

record revoked_row =
  vd_nkey :: string
  vd_user :: string
  vd_device :: string
  vd_mls_key :: bytes
  vd_cutoff :: nat

record outbox_row =
  ob_id :: nat
  ob_subject :: string
  ob_payload :: bytes
  ob_sent :: bool

datatype chat_state = ChatPending | ChatProcessed | ChatRejected

record chat_row =
  ch_sequence :: nat
  ch_subject :: string
  ch_payload :: bytes
  ch_state :: chat_state

record transcript_row =
  tr_id :: nat
  tr_gid :: string
  tr_payload :: bytes
  tr_sender :: "string option"
  tr_plaintext :: "bytes option"
  tr_outgoing :: bool
  tr_sequence :: "nat option"
  tr_displayed :: bool

record receipt_row =
  rm_transcript :: nat
  rm_gid :: string
  rm_reference :: bytes

record device_receipt =
  dc_transcript :: nat
  dc_device :: string
  dc_read :: bool

record event_row =
  me_transcript :: nat
  me_gid :: string
  me_message_id :: string
  me_target :: "string option"
  me_kind :: nat
  me_counter :: nat
  me_event :: bytes

record attachment_row =
  at_gid :: string
  at_object :: string
  at_manifest :: bytes

record 'm client =
  cl_registration :: "device_registration option"
  cl_key :: "keypair option"
  cl_capacity :: capacity
  cl_recovery :: bool
  cl_trust :: "device_trust list"
  cl_directory :: "(string \<times> bytes option) option"
  cl_alert :: "string option"
  cl_revoked :: "revoked_row list"
  cl_rev_checkpoint :: "bytes option"
  cl_coordinators :: "(string \<times> bytes) list"
  cl_blocked :: "nat list"
  cl_groups :: "group list"
  cl_join_epochs :: "(string \<times> nat) list"
  cl_outbox :: "outbox_row list"
  cl_welcomes :: "(bytes \<times> string) list"
  cl_received :: "bytes list"
  cl_chat :: "chat_row list"
  cl_transcript :: "transcript_row list"
  cl_receipts :: "receipt_row list"
  cl_device_receipts :: "device_receipt list"
  cl_events :: "event_row list"
  cl_mls :: "string \<Rightarrow> 'm option"
  cl_signers :: "bytes list"
  cl_recovery_metadata :: "bytes option"
  cl_attachments :: "attachment_row list"
  cl_participant_events :: "(string \<times> string) list"

type_synonym 'm cpager = "'m client \<Rightarrow> nat \<times> nat option"

section \<open>Transactions\<close>

text \<open>
  \<open>transaction_budget\<close>: the budget flag is set for the duration of the action, the database
  limit is checked before the commit, an error rolls everything back.
\<close>

definition transaction_budget ::
    "bool \<Rightarrow> 'm cpager \<Rightarrow> ('m client \<Rightarrow> ('a \<times> 'm client) result) \<Rightarrow> 'm client \<Rightarrow> 'm client \<times> 'a result" where
  "transaction_budget recovery P action c =
     (case bind_r (action (c\<lparr>cl_recovery := recovery\<rparr>)) (\<lambda>(value, c').
             bind_r (check_database (cl_capacity c') (P c') recovery) (\<lambda>_. Inr (value, c'))) of
        Inl e \<Rightarrow> (c\<lparr>cl_recovery := False\<rparr>, Inl e)
      | Inr (value, c') \<Rightarrow> (c'\<lparr>cl_recovery := False\<rparr>, Inr value))"

definition client_transaction ::
    "'m cpager \<Rightarrow> ('m client \<Rightarrow> ('a \<times> 'm client) result) \<Rightarrow> 'm client \<Rightarrow> 'm client \<times> 'a result" where
  "client_transaction = transaction_budget False"

definition recovery_transaction ::
    "'m cpager \<Rightarrow> ('m client \<Rightarrow> ('a \<times> 'm client) result) \<Rightarrow> 'm client \<Rightarrow> 'm client \<times> 'a result" where
  "recovery_transaction = transaction_budget True"

definition own_registration :: "'m client \<Rightarrow> device_registration result" where
  "own_registration c = or_err (cl_registration c) (Anyhow ''run identity init first'')"

definition own_key :: "'m client \<Rightarrow> keypair result" where
  "own_key c = or_err (cl_key c) (Extern ''secret'')"

definition identity_text :: "registration_payload \<Rightarrow> string" where
  "identity_text p = rp_user_id p @ ''/'' @ rp_device_id p"

text \<open>\<open>Capacity::check_client\<close>, the check when a store is opened or a policy is installed.\<close>

definition unsent :: "'m client \<Rightarrow> outbox_row list" where
  "unsent c = filter (\<lambda>x. \<not> ob_sent x) (cl_outbox c)"

definition unsent_bytes :: "'m client \<Rightarrow> nat" where
  "unsent_bytes c = sum_list (map (length \<circ> ob_payload) (unsent c))"

definition check_client :: "'m cpager \<Rightarrow> capacity \<Rightarrow> bool \<Rightarrow> 'm client \<Rightarrow> unit result" where
  "check_client P cap reserve c =
     ensure (length (cl_groups c) \<le> retained_groups cap) ''capacity exhausted: local groups''
     (let extra = (if reserve then 32 else 0) in
      ensure (length (unsent c) \<le> pending_messages cap + extra \<and>
          unsent_bytes c \<le> pending_bytes cap + extra * MAX_WIRE)
        ''capacity below retained pending outbox usage''
        (check_database cap (P c) reserve))"

section \<open>Lemmas\<close>

lemma transaction_budget_Inr:
  "transaction_budget recovery P action c = (c', Inr v) \<Longrightarrow>
     \<exists>c1. action (c\<lparr>cl_recovery := recovery\<rparr>) = Inr (v, c1) \<and> c' = c1\<lparr>cl_recovery := False\<rparr>"
  by (auto simp: transaction_budget_def result_simps split: sum.split_asm)

lemma transaction_budget_Inl:
  "transaction_budget recovery P action c = (c', Inl e) \<Longrightarrow> c' = c\<lparr>cl_recovery := False\<rparr>"
  by (auto simp: transaction_budget_def split: sum.split_asm prod.split_asm)

lemma transaction_budget_cases:
  obtains (rollback) e where "transaction_budget recovery P action c = (c\<lparr>cl_recovery := False\<rparr>, Inl e)"
  | (commit) v c1 where "action (c\<lparr>cl_recovery := recovery\<rparr>) = Inr (v, c1)"
      "transaction_budget recovery P action c = (c1\<lparr>cl_recovery := False\<rparr>, Inr v)"
proof (cases "transaction_budget recovery P action c")
  case (Pair c' r)
  then show ?thesis
  proof (cases r)
    case (Inl e)
    then show ?thesis using Pair transaction_budget_Inl[of recovery P action c c' e] by (intro rollback) auto
  next
    case (Inr v)
    then show ?thesis using Pair transaction_budget_Inr[of recovery P action c c' v] by (auto intro: commit)
  qed
qed

text \<open>A property that the budget flag does not touch and that the action keeps, the transaction keeps.\<close>

lemma transaction_budget_inv:
  assumes "J c" and flag: "\<And>c b. J (c\<lparr>cl_recovery := b\<rparr>) = J c"
    and step: "\<And>c v c'. J c \<Longrightarrow> action c = Inr (v, c') \<Longrightarrow> J c'"
  shows "J (fst (transaction_budget recovery P action c))"
proof (cases rule: transaction_budget_cases[of recovery P action c])
  case (rollback e)
  then show ?thesis using assms(1) flag by simp
next
  case (commit v c1)
  have "J c1" using step[OF _ commit(1)] assms(1) flag by simp
  then show ?thesis using commit(2) flag by simp
qed

end
