(* ===== verification/Revocation.thy ===== *)
theory Revocation
  imports Transparency
begin

text \<open>
  The revocation log of \<open>revocation.rs\<close>: signed, irreversible revocation requests in a second
  signed Merkle log over the registrations of the transparency log. Modelled are the request
  and its authorisation rule, the log's root, signature and validation, and reading,
  initialising and appending by compare-and-swap. What a client does with the log is in the
  theory \<open>Trust\<close>.
\<close>

section \<open>Requests\<close>

definition rq_signing_bytes :: "'z externals_scheme \<Rightarrow> revoke_request \<Rightarrow> bytes result" where
  "rq_signing_bytes E q =
     bind_r (pc (pc_revoke E (rq_version q, rq_user q, rq_device q, rq_nkey q, rq_author q))) (\<lambda>b.
     Inr (as_bytes ''EpochGrid device revocation v1'' @ [0] @ b))"

definition request_signed ::
    "'z externals_scheme \<Rightarrow> string \<Rightarrow> string \<Rightarrow> string \<Rightarrow> keypair \<Rightarrow> revoke_request result" where
  "request_signed E user device nkey k =
     bind_r (validate_id user) (\<lambda>_.
     bind_r (validate_id device) (\<lambda>_.
     (let q = \<lparr>rq_version = 1, rq_user = user, rq_device = device, rq_nkey = nkey,
               rq_author = public_key k, rq_signature = []\<rparr> in
      bind_r (rq_signing_bytes E q) (\<lambda>msg.
      bind_r (sign_with k msg) (\<lambda>sig. Inr (q\<lparr>rq_signature := sig\<rparr>))))))"

definition request_validate ::
    "'z externals_scheme \<Rightarrow> revoke_request \<Rightarrow> snapshot \<Rightarrow> revocation list \<Rightarrow> unit result" where
  "request_validate E q registrations previous =
     bind_r (validate_id (rq_user q)) (\<lambda>_.
     bind_r (validate_id (rq_device q)) (\<lambda>_.
     ensure (rq_version q = 1) ''unsupported revocation version''
     (ensure_e (nkey_ok E (rq_author q)) (Extern ''invalid public key'')
     (bind_r (rq_signing_bytes E q) (\<lambda>msg.
      bind_r (verify_with E (rq_author q) msg (rq_signature q)) (\<lambda>_.
      ensure (\<exists>r \<in> set (sn_entries registrations).
          rp_user_id (dr_payload r) = rq_user q \<and> rp_device_id (dr_payload r) = rq_device q \<and>
          rp_nats_public_key (dr_payload r) = rq_nkey q)
        ''revocation endpoint/key not registered''
      (ensure (\<not> (\<exists>v \<in> set previous. rq_nkey (rv_request v) = rq_author q))
        ''revoked device cannot authorize revocation''
      (ensure (rq_author q = cp_signer (sn_checkpoint registrations) \<or>
          (\<exists>r \<in> set (sn_entries registrations).
             rp_nats_public_key (dr_payload r) = rq_author q \<and>
             rp_user_id (dr_payload r) = rq_user q))
        ''only an active device of this user or the operator may revoke'' (Inr ())))))))))"

section \<open>The log\<close>

definition rev_leaf_bytes :: "'z externals_scheme \<Rightarrow> revocation \<Rightarrow> bytes result" where
  "rev_leaf_bytes E v = pc (pc_revocation E v)"

function rev_root :: "'z externals_scheme \<Rightarrow> revocation list \<Rightarrow> bytes result" where
  "rev_root E xs =
     (case xs of
        [] \<Rightarrow> hash E []
      | [x] \<Rightarrow> bind_r (rev_leaf_bytes E x) (\<lambda>b. hash E (0 # b))
      | _ \<Rightarrow>
          (let split = next_power_of_two (length xs) div 2 in
           bind_r (rev_root E (take split xs)) (\<lambda>l.
           bind_r (rev_root E (drop split xs)) (\<lambda>r. hash E (1 # l @ r)))))"
  by pat_completeness auto
termination
proof (relation "measure (\<lambda>(E, xs). length xs)", goal_cases)
  case (2 E xs x ys y zs k)
  then show ?case using split_point(2)[of "length xs"] by auto
next
  case (3 E xs x ys y zs k l)
  then show ?case using split_point(1)[of "length xs"] by auto
qed auto

declare rev_root.simps [simp del]

function rev_root_inputs :: "'z externals_scheme \<Rightarrow> revocation list \<Rightarrow> bytes list" where
  "rev_root_inputs E xs =
     (case xs of
        [] \<Rightarrow> [[]]
      | [x] \<Rightarrow> (case rev_leaf_bytes E x of Inl e \<Rightarrow> [] | Inr b \<Rightarrow> [0 # b])
      | _ \<Rightarrow>
          (let split = next_power_of_two (length xs) div 2 in
           (case (rev_root E (take split xs), rev_root E (drop split xs)) of
              (Inr l, Inr r) \<Rightarrow> [1 # l @ r] | _ \<Rightarrow> []) @
           rev_root_inputs E (take split xs) @ rev_root_inputs E (drop split xs)))"
  by pat_completeness auto
termination
proof (relation "measure (\<lambda>(E, xs). length xs)", goal_cases)
  case (2 E xs x ys y zs k)
  then show ?case using split_point(2)[of "length xs"] by auto
next
  case (3 E xs x ys y zs k)
  then show ?case using split_point(1)[of "length xs"] by auto
qed auto

declare rev_root_inputs.simps [simp del]

definition rev_checkpoint_bytes :: "'z externals_scheme \<Rightarrow> checkpoint \<Rightarrow> bytes result" where
  "rev_checkpoint_bytes E c =
     bind_r (pc (pc_checkpoint E (cp_version c, cp_size c, cp_root c, cp_signer c))) (\<lambda>b.
     Inr (as_bytes ''EpochGrid revocation checkpoint v1'' @ [0] @ b))"

definition log_signed ::
    "'z externals_scheme \<Rightarrow> revocation list \<Rightarrow> keypair \<Rightarrow> revocation_log result" where
  "log_signed E entries k =
     bind_r (rev_root E entries) (\<lambda>h.
     (let c = \<lparr>cp_version = 1, cp_size = length entries, cp_root = h,
               cp_signer = public_key k, cp_signature = []\<rparr> in
      bind_r (rev_checkpoint_bytes E c) (\<lambda>msg.
      bind_r (sign_with k msg) (\<lambda>sig.
      (let l = \<lparr>rl_checkpoint = c\<lparr>cp_signature := sig\<rparr>, rl_entries = entries\<rparr> in
       bind_r (encode E (RevocationLog l)) (\<lambda>_. Inr l))))))"

text \<open>The loop of \<open>validate\<close>: \<open>done\<close> are the entries before the current one.\<close>

fun validate_revocations ::
    "'z externals_scheme \<Rightarrow> snapshot \<Rightarrow> revocation list \<Rightarrow> revocation list \<Rightarrow> unit result" where
  "validate_revocations E registrations earlier [] = Inr ()"
| "validate_revocations E registrations earlier (v # vs) =
     bind_r (request_validate E (rv_request v) registrations earlier) (\<lambda>_.
     ensure (rq_nkey (rv_request v) \<notin> (rq_nkey \<circ> rv_request) ` set earlier) ''duplicate revocation''
     (ensure (rv_chat_cutoff v \<le> I64_MAX) ''invalid revocation CHAT cutoff''
        (validate_revocations E registrations (earlier @ [v]) vs)))"

definition log_validate :: "'z externals_scheme \<Rightarrow> revocation_log \<Rightarrow> snapshot \<Rightarrow> unit result" where
  "log_validate E l registrations = (let c = rl_checkpoint l in
     bind_r (snapshot_validate E registrations) (\<lambda>_.
     ensure (length (rl_entries l) \<le> 256 \<and> cp_size c = length (rl_entries l) \<and> cp_version c = 1)
       ''invalid revocation log size/version''
     (ensure (cp_signer c = cp_signer (sn_checkpoint registrations))
       ''revocation signer differs from directory''
     (ensure_e (nkey_ok E (cp_signer c)) (Extern ''invalid public key'')
     (bind_r (rev_checkpoint_bytes E c) (\<lambda>msg.
      bind_r (verify_with E (cp_signer c) msg (cp_signature c)) (\<lambda>_.
      bind_r (rev_root E (rl_entries l)) (\<lambda>h.
      ensure (h = cp_root c) ''revocation root mismatch''
      (bind_r (encode E (RevocationLog l)) (\<lambda>_.
       validate_revocations E registrations [] (rl_entries l)))))))))))"

definition log_keys :: "revocation_log \<Rightarrow> string set" where
  "log_keys l = (rq_nkey \<circ> rv_request) ` set (rl_entries l)"

section \<open>The stored log\<close>

definition decode_revocations ::
    "'z externals_scheme \<Rightarrow> string \<Rightarrow> snapshot \<Rightarrow> bytes \<Rightarrow> revocation_log result" where
  "decode_revocations E msg registrations bs =
     bind_r (decode E bs) (\<lambda>b.
     bind_r (or_err (as_revocation_log b) (Anyhow msg)) (\<lambda>l.
     bind_r (log_validate E l registrations) (\<lambda>_. Inr l)))"

definition rev_read ::
    "'z externals_scheme \<Rightarrow> 's kv \<Rightarrow> snapshot \<Rightarrow> 's \<Rightarrow> 's \<times> revocation_log result" where
  "rev_read E K registrations s =
     bind_s (kv_get K ''revocations'' s) (\<lambda>v s.
     bind_s (s, or_err v (Anyhow ''revocation log missing; upgrade service'')) (\<lambda>bs s.
     (s, decode_revocations E ''invalid revocation envelope'' registrations bs)))"

definition rev_initialize ::
    "'z externals_scheme \<Rightarrow> 's kv \<Rightarrow> snapshot \<Rightarrow> keypair \<Rightarrow> 's \<Rightarrow> 's \<times> unit result" where
  "rev_initialize E K registrations k s =
     bind_s (kv_get K ''revocations'' s) (\<lambda>v s.
     bind_s (if v = None then
         bind_s (s, log_signed E [] k) (\<lambda>l s.
         bind_s (s, encode E (RevocationLog l)) (\<lambda>bs s.
         (fst (kv_create K ''revocations'' bs s), Inr ())))
       else (s, Inr ())) (\<lambda>_ s.
     bind_s (rev_read E K registrations s) (\<lambda>_ s. (s, Inr ()))))"

text \<open>
  One attempt of \<open>append\<close>: the log as it stands when the key is already revoked, otherwise the
  log with the new entry and its bytes.
\<close>

definition rev_append_candidate ::
    "'z externals_scheme \<Rightarrow> snapshot \<Rightarrow> keypair \<Rightarrow> revoke_request \<Rightarrow> nat \<Rightarrow> bytes
      \<Rightarrow> (revocation_log \<times> bytes option) result" where
  "rev_append_candidate E registrations k q cutoff current =
     bind_r (decode_revocations E ''invalid revocation log'' registrations current) (\<lambda>l.
     bind_r (request_validate E q registrations (rl_entries l)) (\<lambda>_.
     if rq_nkey q \<in> log_keys l then Inr (l, None)
     else
       bind_r (log_signed E (rl_entries l @ [\<lparr>rv_request = q, rv_chat_cutoff = cutoff\<rparr>]) k) (\<lambda>l'.
       bind_r (log_validate E l' registrations) (\<lambda>_.
       bind_r (encode E (RevocationLog l')) (\<lambda>bs. Inr (l', Some bs))))))"

fun rev_append_loop ::
    "nat \<Rightarrow> 'z externals_scheme \<Rightarrow> 's kv \<Rightarrow> snapshot \<Rightarrow> keypair \<Rightarrow> revoke_request \<Rightarrow> nat \<Rightarrow> 's
      \<Rightarrow> 's \<times> revocation_log result" where
  "rev_append_loop 0 E K registrations k q cutoff s =
     (s, Inl (Anyhow ''revocation could not be confirmed; retry''))"
| "rev_append_loop (Suc n) E K registrations k q cutoff s =
     bind_s (kv_entry K ''revocations'' s) (\<lambda>entry s.
     bind_s (s, or_err entry (Anyhow ''revocation log missing'')) (\<lambda>(current, rev) s.
     bind_s (s, rev_append_candidate E registrations k q cutoff current) (\<lambda>(l, candidate) s.
     case candidate of
       None \<Rightarrow> (s, Inr l)
     | Some bs \<Rightarrow>
         (case kv_update K ''revocations'' bs rev s of
            (s, True) \<Rightarrow> (s, Inr l)
          | (s, False) \<Rightarrow> rev_append_loop n E K registrations k q cutoff s))))"

definition rev_append ::
    "'z externals_scheme \<Rightarrow> 's kv \<Rightarrow> snapshot \<Rightarrow> keypair \<Rightarrow> revoke_request \<Rightarrow> nat \<Rightarrow> 's
      \<Rightarrow> 's \<times> revocation_log result" where
  "rev_append E K registrations k q cutoff s = rev_append_loop 4 E K registrations k q cutoff s"

section \<open>Lemmas\<close>

interpretation rev_tree: merkle_tree "hash E" "rev_leaf_bytes E" "rev_root E" "rev_root_inputs E"
  for E :: "'z externals_scheme"
proof (unfold_locales, goal_cases)
  case (1 m h) then show ?case by (simp add: result_simps)
next
  case 2 show ?case by (simp add: rev_root.simps)
next
  case (3 x) show ?case by (simp add: rev_root.simps)
next
  case (4 xs)
  then obtain x y zs where xs: "xs = x # y # zs" using two_le_length by blast
  show ?case by (subst rev_root.simps) (simp add: xs Let_def)
next
  case 5 show ?case by (simp add: rev_root_inputs.simps)
next
  case (6 x b) then show ?case by (simp add: rev_root_inputs.simps)
next
  case (7 xs l r)
  then obtain x y zs where xs: "xs = x # y # zs" using two_le_length by blast
  from 7 show ?case by (subst rev_root_inputs.simps) (simp add: xs Let_def)
qed

text \<open>Postcard's serialisation of a revocation determines the revocation.\<close>

definition revocation_codec_inj :: "'z externals_scheme \<Rightarrow> bool" where
  "revocation_codec_inj E \<longleftrightarrow>
     (\<forall>v w b. pc_revocation E v = Some b \<longrightarrow> pc_revocation E w = Some b \<longrightarrow> v = w)"

lemma request_validate_ok:
  assumes "request_validate E q sn previous = Inr u"
  shows "\<exists>msg. rq_signing_bytes E q = Inr msg \<and> nkey_verify E (rq_author q) msg (rq_signature q)"
    and "\<exists>r \<in> set (sn_entries sn). rp_user_id (dr_payload r) = rq_user q \<and>
      rp_device_id (dr_payload r) = rq_device q \<and> rp_nats_public_key (dr_payload r) = rq_nkey q"
    and "rq_author q \<notin> (rq_nkey \<circ> rv_request) ` set previous"
    and "rq_author q = cp_signer (sn_checkpoint sn) \<or> (\<exists>r \<in> set (sn_entries sn).
      rp_nats_public_key (dr_payload r) = rq_author q \<and> rp_user_id (dr_payload r) = rq_user q)"
  using assms by (auto simp: request_validate_def result_simps)

text \<open>
  Each entry of a validated list was validated against exactly the entries before it, and no
  key is revoked twice.
\<close>

lemma validate_revocations_nth:
  assumes "validate_revocations E sn earlier vs = Inr u" and "i < length vs"
  shows "request_validate E (rv_request (vs ! i)) sn (earlier @ take i vs) = Inr () \<and>
    rv_chat_cutoff (vs ! i) \<le> I64_MAX \<and>
    rq_nkey (rv_request (vs ! i)) \<notin> (rq_nkey \<circ> rv_request) ` set (earlier @ take i vs)"
  using assms
proof (induction vs arbitrary: earlier i)
  case (Cons v vs)
  note prems = Cons.prems
  from prems(1) have v: "request_validate E (rv_request v) sn earlier = Inr ()"
    "rv_chat_cutoff v \<le> I64_MAX" "rq_nkey (rv_request v) \<notin> (rq_nkey \<circ> rv_request) ` set earlier"
    and rest: "validate_revocations E sn (earlier @ [v]) vs = Inr u"
    by (auto simp: result_simps)
  show ?case
  proof (cases i)
    case 0
    with v show ?thesis by simp
  next
    case (Suc j)
    then have "j < length vs" using prems(2) by simp
    from Cons.IH[OF rest this] Suc show ?thesis by simp
  qed
qed simp

lemma validate_revocations_distinct:
  assumes "validate_revocations E sn earlier vs = Inr u"
  shows "distinct (map (rq_nkey \<circ> rv_request) vs)"
  using assms
proof (induction vs rule: rev_induct)
  case (snoc v vs)
  have "validate_revocations E sn earlier vs = Inr ()"
  proof -
    have "validate_revocations E sn a (xs @ [v]) = Inr u \<Longrightarrow> validate_revocations E sn a xs = Inr ()"
      for a xs by (induction xs arbitrary: a) (auto simp: result_simps)
    then show ?thesis using snoc.prems by blast
  qed
  then have d: "distinct (map (rq_nkey \<circ> rv_request) vs)" by (intro snoc.IH) simp
  have "rq_nkey (rv_request v) \<notin> (rq_nkey \<circ> rv_request) ` set vs"
    using validate_revocations_nth[OF snoc.prems, of "length vs"] by (auto simp: nth_append)
  with d show ?case by (simp add: comp_def)
qed simp

lemma log_validate_ok:
  assumes "log_validate E l sn = Inr u"
  shows "snapshot_validate E sn = Inr ()"
    and "cp_size (rl_checkpoint l) = length (rl_entries l)"
    and "cp_signer (rl_checkpoint l) = cp_signer (sn_checkpoint sn)"
    and "rev_root E (rl_entries l) = Inr (cp_root (rl_checkpoint l))"
    and "validate_revocations E sn [] (rl_entries l) = Inr ()"
    and "length (rl_entries l) \<le> 256"
  using assms by (auto simp: log_validate_def Let_def result_simps)

lemma log_signed_ok:
  "log_signed E entries k = Inr l \<Longrightarrow>
     rl_entries l = entries \<and> cp_signer (rl_checkpoint l) = public_key k"
  by (auto simp: log_signed_def Let_def result_simps)

lemma decode_revocations_ok:
  "decode_revocations E msg sn bs = Inr l \<longleftrightarrow>
     decode E bs = Inr (RevocationLog l) \<and> log_validate E l sn = Inr ()"
  by (auto simp: decode_revocations_def result_simps)

lemma rev_append_candidate_ok:
  assumes "rev_append_candidate E sn k q cutoff current = Inr (l, c)"
  shows "\<exists>old. decode E current = Inr (RevocationLog old) \<and> log_validate E l sn = Inr () \<and>
    rq_nkey q \<in> log_keys l \<and>
    (c = None \<and> l = old \<or>
     (\<exists>bs. c = Some bs \<and> encode E (RevocationLog l) = Inr bs \<and>
        rl_entries l = rl_entries old @ [\<lparr>rv_request = q, rv_chat_cutoff = cutoff\<rparr>]))"
  using assms log_signed_ok
  by (fastforce simp: rev_append_candidate_def decode_revocations_ok result_simps log_keys_def
      split: if_split_asm)

lemma rev_append_loop_durable:
  assumes "postcard_roundtrip E" and "kv_acks K view"
    and "rev_append_loop n E K sn k q cutoff s = (s', Inr l)"
  shows "\<exists>bs. view s' ''revocations'' = Some bs \<and> decode E bs = Inr (RevocationLog l) \<and>
    log_validate E l sn = Inr () \<and> rq_nkey q \<in> log_keys l"
  using assms(3)
proof (induction n arbitrary: s)
  case (Suc n)
  obtain s1 current rv l1 candidate where
    e: "kv_entry K ''revocations'' s = (s1, Inr (Some (current, rv)))"
    "rev_append_candidate E sn k q cutoff current = Inr (l1, candidate)"
    and rest: "(case candidate of None \<Rightarrow> (s1, Inr l1)
      | Some bs \<Rightarrow> (case kv_update K ''revocations'' bs rv s1 of (s, True) \<Rightarrow> (s, Inr l1)
         | (s, False) \<Rightarrow> rev_append_loop n E K sn k q cutoff s)) = (s', Inr l)"
    using Suc.prems by (auto simp: result_simps)
  note c = rev_append_candidate_ok[OF e(2)]
  show ?case
  proof (cases candidate)
    case None
    then show ?thesis using kv_acksD(1)[OF assms(2) e(1)] rest c by auto
  next
    case (Some bs)
    obtain s2 ok where u: "kv_update K ''revocations'' bs rv s1 = (s2, ok)" by fastforce
    show ?thesis
    proof (cases ok)
      case True
      then have "view s' ''revocations'' = Some bs \<and> l = l1"
        using kv_acksD(3)[OF assms(2)] u rest Some by auto
      moreover have "decode E bs = Inr (RevocationLog l1)"
        using c Some decode_encode[OF assms(1)] by auto
      ultimately show ?thesis using c by auto
    next
      case False
      then show ?thesis using Suc.IH rest Some u by auto
    qed
  qed
qed simp

end
