(* ===== verification/Trust.thy ===== *)
theory Trust
  imports Store Revocation "HOL-Library.List_Lexorder" "HOL-Library.Char_ord"
    "HOL-Library.Product_Lexorder"
begin

text \<open>
  Trust-on-first-use of the client: device fingerprints (\<open>trust.rs\<close>), the pinned directory key
  and the accepted checkpoints of both logs (\<open>trust.rs\<close>, \<open>revocation.rs\<close>), and the audit that
  every discovery goes through (\<open>transparency.rs\<close>).
\<close>

section \<open>Fingerprints\<close>

definition hex_digit_upper :: "nat \<Rightarrow> char" where
  "hex_digit_upper n = char_of (if n < 10 then 48 + n else 55 + n)"

definition hex_upper :: "byte \<Rightarrow> string" where
  "hex_upper b = [hex_digit_upper (unat b div 16), hex_digit_upper (unat b mod 16)]"

definition fingerprint :: "'z externals_scheme \<Rightarrow> device_registration \<Rightarrow> string result" where
  "fingerprint E r = (let p = dr_payload r in
     bind_r (verify_signature E r) (\<lambda>_.
     bind_r (or_err (kp_unverified E (rp_mls_key_package p)) (Extern ''tls_deserialize'')) (\<lambda>(credential, key).
     ensure (credential = rp_mls_credential p) ''fingerprint credential mismatch''
     (bind_r (pc (pc_fingerprint E (rp_protocol_version p, rp_user_id p, rp_device_id p,
         rp_nats_public_key p, rp_mls_credential p, key))) (\<lambda>bs.
      bind_r (hash E (as_bytes ''EpochGrid device fingerprint v1'' @ [0] @ bs)) (\<lambda>h.
      Inr (concat (map hex_upper h))))))))"

fun chunks :: "nat \<Rightarrow> 'a list \<Rightarrow> 'a list list" where
  "chunks n [] = []"
| "chunks 0 xs = []"
| "chunks (Suc n) xs = take (Suc n) xs # chunks (Suc n) (drop (Suc n) xs)"

fun join :: "'a list \<Rightarrow> 'a list list \<Rightarrow> 'a list" where
  "join sep [] = []"
| "join sep [x] = x"
| "join sep (x # y # zs) = x @ sep @ join sep (y # zs)"

definition display_fingerprint :: "string \<Rightarrow> string" where
  "display_fingerprint f = join '' '' (chunks 4 f)"

section \<open>Observed devices\<close>

definition device_trust_row :: "string \<Rightarrow> string \<Rightarrow> 'm client \<Rightarrow> device_trust option" where
  "device_trust_row user device c =
     select_one (\<lambda>t. dt_user t = user \<and> dt_device t = device) (cl_trust c)"

definition mark_changed :: "string \<Rightarrow> string \<Rightarrow> string \<Rightarrow> 'm client \<Rightarrow> 'm client" where
  "mark_changed user device fp c = c\<lparr>cl_trust := update_where (\<lambda>t. dt_user t = user \<and> dt_device t = device)
     (\<lambda>t. t\<lparr>dt_latest := fp, dt_state := TrustChanged\<rparr>) (cl_trust c)\<rparr>"

definition observe_action ::
    "string \<Rightarrow> string \<Rightarrow> string \<Rightarrow> 'm client \<Rightarrow> (bool \<times> 'm client) result" where
  "observe_action user device fp c =
     (case device_trust_row user device c of
        Some previous \<Rightarrow>
          if dt_state previous = TrustChanged \<and> dt_fingerprint previous = fp then Inr (True, c)
          else if dt_fingerprint previous \<noteq> fp \<or> dt_state previous = TrustChanged
          then Inr (True, mark_changed user device fp c)
          else Inr (False, c)
      | None \<Rightarrow>
          ensure (length (cl_trust c) < 256) ''capacity exhausted: retained trust bindings''
          (bind_r (insert_row (\<lambda>t. (dt_user t, dt_device t))
             \<lparr>dt_user = user, dt_device = device, dt_fingerprint = fp, dt_latest = fp,
               dt_state = TrustUnverified\<rparr> (cl_trust c)) (\<lambda>trust.
           Inr (False, c\<lparr>cl_trust := trust\<rparr>))))"

definition observe_device ::
    "'z externals_scheme \<Rightarrow> 'm cpager \<Rightarrow> device_registration \<Rightarrow> 'm client \<Rightarrow> 'm client \<times> unit result" where
  "observe_device E P r c = (let p = dr_payload r in
     bind_s (c, fingerprint E r) (\<lambda>fp c.
     bind_s (recovery_transaction P (observe_action (rp_user_id p) (rp_device_id p) fp) c) (\<lambda>changed c.
     ensure_s (\<not> changed) (''DEVICE IDENTITY CHANGED: '' @ rp_user_id p @ ''/'' @ rp_device_id p @
       ''; operation blocked; inspect device fingerprint'') c (c, Inr ()))))"

definition is_ascii_whitespace :: "char \<Rightarrow> bool" where
  "is_ascii_whitespace ch \<longleftrightarrow> byte_of ch \<in> {32, 9, 10, 12, 13}"

definition is_ascii_hexdigit :: "char \<Rightarrow> bool" where
  "is_ascii_hexdigit ch \<longleftrightarrow> is_hex_lower ch \<or> is_hex_upper ch"

definition verify_device :: "string \<Rightarrow> string \<Rightarrow> string \<Rightarrow> 'm client \<Rightarrow> 'm client \<times> unit result" where
  "verify_device user device expected c =
     (let expected = to_ascii_upper (filter (\<lambda>ch. \<not> is_ascii_whitespace ch) expected) in
      ensure_s (length expected = 64 \<and> list_all is_ascii_hexdigit expected)
        ''supply the complete 64-digit fingerprint from an independent channel'' c
      (bind_s (c, or_err (device_trust_row user device c) (Anyhow ''device not observed; look it up first''))
        (\<lambda>observed c.
       ensure_s (dt_state observed \<noteq> TrustChanged)
         ''changed identity is blocked; replacement authorization is not implemented'' c
       (ensure_s (dt_fingerprint observed = expected)
         ''fingerprint does not match observed device; verification refused'' c
         (c\<lparr>cl_trust := update_where (\<lambda>t. dt_user t = user \<and> dt_device t = device)
            (\<lambda>t. t\<lparr>dt_state := TrustVerified\<rparr>) (cl_trust c)\<rparr>, Inr ())))))"

section \<open>The directory key and the checkpoints\<close>

definition directory_key :: "'m client \<Rightarrow> string option" where
  "directory_key c = map_option fst (cl_directory c)"

definition stored_checkpoint :: "('m, 'z) mls_ext_scheme \<Rightarrow> bytes option \<Rightarrow> checkpoint option result" where
  "stored_checkpoint E stored =
     (case stored of
        None \<Rightarrow> Inr None
      | Some bs \<Rightarrow> bind_r (or_err (un_stored_checkpoint E bs) (Extern ''postcard'')) (\<lambda>cp. Inr (Some cp)))"

definition client_checkpoint :: "('m, 'z) mls_ext_scheme \<Rightarrow> 'm client \<Rightarrow> checkpoint option result" where
  "client_checkpoint E c = stored_checkpoint E (Option.bind (cl_directory c) snd)"

definition pin_directory ::
    "'z externals_scheme \<Rightarrow> string \<Rightarrow> 'm client \<Rightarrow> 'm client \<times> unit result" where
  "pin_directory E signer c =
     ensure_s (starts_with ''U'' signer) ''directory user NKey required'' c
     (bind_s (c, ensure_e (nkey_ok E signer) (Extern ''invalid public key'') (Inr ())) (\<lambda>_ c.
      ensure_s (case directory_key c of None \<Rightarrow> True | Some p \<Rightarrow> p = signer)
        ''directory key already pinned; refusing replacement'' c
        (case cl_directory c of
           None \<Rightarrow> (c\<lparr>cl_directory := Some (signer, None)\<rparr>, Inr ())
         | Some _ \<Rightarrow> (c, Inr ()))))"

fun observe_all ::
    "'z externals_scheme \<Rightarrow> 'm cpager \<Rightarrow> device_registration list \<Rightarrow> 'm client \<Rightarrow> 'm client \<times> unit result" where
  "observe_all E P [] c = (c, Inr ())"
| "observe_all E P (r # rs) c = bind_s (observe_device E P r c) (\<lambda>_ c. observe_all E P rs c)"

definition store_checkpoint :: "bytes \<Rightarrow> 'm client \<Rightarrow> 'm client" where
  "store_checkpoint bs c = c\<lparr>cl_directory := map_option (\<lambda>(signer, _). (signer, Some bs)) (cl_directory c)\<rparr>"

definition accept_checkpoint ::
    "('m, 'z) mls_ext_scheme \<Rightarrow> 'm cpager \<Rightarrow> snapshot \<Rightarrow> 'm client \<Rightarrow> 'm client \<times> unit result" where
  "accept_checkpoint E P sn c =
     bind_s (c, snapshot_validate E sn) (\<lambda>_ c.
     bind_s (pin_directory E (cp_signer (sn_checkpoint sn)) c) (\<lambda>_ c.
     bind_s (observe_all E P (sn_entries sn) c) (\<lambda>_ c.
     bind_s (c, client_checkpoint E c) (\<lambda>previous c.
     bind_s (c, case previous of None \<Rightarrow> Inr () | Some cp \<Rightarrow> extends E sn cp) (\<lambda>_ c.
     bind_s (c, pc (pc_stored_checkpoint E (sn_checkpoint sn))) (\<lambda>bs c.
     (store_checkpoint bs c, Inr ())))))))"

section \<open>Revocations\<close>

definition is_revoked :: "string \<Rightarrow> 'm client \<Rightarrow> bool" where
  "is_revoked nkey c \<longleftrightarrow> list_ex (\<lambda>v. vd_nkey v = nkey) (cl_revoked c)"

definition revoked_mls_key :: "bytes \<Rightarrow> 'm client \<Rightarrow> nat option" where
  "revoked_mls_key key c = map_option vd_cutoff (select_one (\<lambda>v. vd_mls_key v = key) (cl_revoked c))"

definition rev_extends ::
    "'z externals_scheme \<Rightarrow> revocation_log \<Rightarrow> checkpoint \<Rightarrow> unit result" where
  "rev_extends E l previous =
     ensure (cp_signer previous = cp_signer (rl_checkpoint l) \<and> length (rl_entries l) \<ge> cp_size previous)
       ''REVOCATION FAILURE: signer changed or log truncated''
     (bind_r (rev_root E (take (cp_size previous) (rl_entries l))) (\<lambda>h.
      ensure (h = cp_root previous) ''REVOCATION FAILURE: history rewritten'' (Inr ())))"

definition record_revocation ::
    "'z externals_scheme \<Rightarrow> snapshot \<Rightarrow> revocation \<Rightarrow> 'm client \<Rightarrow> 'm client result" where
  "record_revocation E sn v c = (let q = rv_request v in
     bind_r (or_err (find (\<lambda>r. rp_nats_public_key (dr_payload r) = rq_nkey q) (sn_entries sn))
       (Anyhow ''revoked registration missing'')) (\<lambda>r.
     bind_r (or_err (kp_unverified E (rp_mls_key_package (dr_payload r))) (Extern ''tls_deserialize'')) (\<lambda>(_, key).
     Inr (if rq_nkey q \<in> vd_nkey ` set (cl_revoked c) then c
          else c\<lparr>cl_revoked := cl_revoked c @ [\<lparr>vd_nkey = rq_nkey q, vd_user = rq_user q,
            vd_device = rq_device q, vd_mls_key = key, vd_cutoff = rv_chat_cutoff v\<rparr>]\<rparr>))))"

definition accept_revocations_action ::
    "('m, 'z) mls_ext_scheme \<Rightarrow> revocation_log \<Rightarrow> snapshot \<Rightarrow> 'm client \<Rightarrow> (unit \<times> 'm client) result" where
  "accept_revocations_action E l sn c =
     bind_r (stored_checkpoint E (cl_rev_checkpoint c)) (\<lambda>previous.
     bind_r (case previous of None \<Rightarrow> Inr () | Some cp \<Rightarrow> rev_extends E l cp) (\<lambda>_.
     bind_r (fold_r (record_revocation E sn) (rl_entries l) c) (\<lambda>c'.
     bind_r (pc (pc_stored_checkpoint E (rl_checkpoint l))) (\<lambda>bs.
     Inr ((), c'\<lparr>cl_rev_checkpoint := Some bs\<rparr>)))))"

definition accept_revocations ::
    "('m, 'z) mls_ext_scheme \<Rightarrow> 'm cpager \<Rightarrow> revocation_log \<Rightarrow> snapshot \<Rightarrow> 'm client
      \<Rightarrow> 'm client \<times> unit result" where
  "accept_revocations E P l sn c =
     bind_s (c, log_validate E l sn) (\<lambda>_ c.
     recovery_transaction P (accept_revocations_action E l sn) c)"

section \<open>Warnings\<close>

definition transparency_failure :: "string \<Rightarrow> 'm client \<Rightarrow> 'm client" where
  "transparency_failure message c = c\<lparr>cl_alert := Some message\<rparr>"

definition clear_transparency_warning :: "'m client \<Rightarrow> 'm client" where
  "clear_transparency_warning c = c\<lparr>cl_alert := None\<rparr>"

function decimal :: "nat \<Rightarrow> string" where
  "decimal n = (if n < 10 then [char_of (48 + n)] else decimal (n div 10) @ [char_of (48 + n mod 10)])"
  by pat_completeness auto
termination
  by (relation "measure id") auto

declare decimal.simps [simp del]

definition changed_devices :: "'m client \<Rightarrow> (string \<times> string) list" where
  "changed_devices c = sort (map (\<lambda>t. (dt_user t, dt_device t))
     (filter (\<lambda>t. dt_state t = TrustChanged) (cl_trust c)))"

definition trust_warning :: "'m client \<Rightarrow> string option" where
  "trust_warning c =
     (if (case own_registration c of Inl _ \<Rightarrow> False | Inr r \<Rightarrow> is_revoked (rp_nats_public_key (dr_payload r)) c)
      then Some ''DEVICE REVOKED: revocation recorded; new sends are disabled''
      else (case changed_devices c of
        (user, device) # _ \<Rightarrow> Some (''DEVICE IDENTITY CHANGED: '' @ user @ ''/'' @ device @
          ''; new invitations blocked'')
      | [] \<Rightarrow>
          (case cl_alert c of
             Some alert \<Rightarrow> Some alert
           | None \<Rightarrow>
               if length (cl_blocked c) > 0
               then Some (decimal (length (cl_blocked c)) @
                 '' queued messages blocked after revocation; retained locally, resend after rekey'')
               else None)))"

section \<open>The audit behind every discovery\<close>

text \<open>
  \<open>transparency::audit\<close>; the two replies of the service, or the failure of the request, are
  arguments. A failure is recorded as the standing warning.
\<close>

definition audit_accept ::
    "('m, 'z) mls_ext_scheme \<Rightarrow> 'm cpager \<Rightarrow> bytes result \<Rightarrow> bytes result \<Rightarrow> 'm client
      \<Rightarrow> 'm client \<times> snapshot result" where
  "audit_accept E P reply rev_reply c =
     bind_s (c, reply) (\<lambda>bs c.
     bind_s (c, decode_snapshot E bs) (\<lambda>sn c.
     bind_s (c, rev_reply) (\<lambda>bs c.
     bind_s (c, decode E bs) (\<lambda>b c.
     bind_s (c, or_err (as_revocation_log b) (Anyhow ''revocation audit missing; upgrade service'')) (\<lambda>l c.
     bind_s (c, log_validate E l sn) (\<lambda>_ c.
     bind_s (accept_checkpoint E P sn c) (\<lambda>_ c.
     bind_s (accept_revocations E P l sn c) (\<lambda>_ c.
     (clear_transparency_warning c, Inr sn)))))))))"

definition client_audit ::
    "('m, 'z) mls_ext_scheme \<Rightarrow> 'm cpager \<Rightarrow> bytes result \<Rightarrow> bytes result \<Rightarrow> 'm client
      \<Rightarrow> 'm client \<times> snapshot result" where
  "client_audit E P reply rev_reply c =
     (case audit_accept E P reply rev_reply c of
        (c', Inr sn) \<Rightarrow> (c', Inr sn)
      | (c', Inl e) \<Rightarrow> (transparency_failure (''TRANSPARENCY FAILURE: '' @ show_error E e) c', Inl e))"

definition client_lookup ::
    "('m, 'z) mls_ext_scheme \<Rightarrow> 'm cpager \<Rightarrow> bytes result \<Rightarrow> bytes result \<Rightarrow> string \<Rightarrow> string \<Rightarrow> 'm client
      \<Rightarrow> 'm client \<times> device_registration result" where
  "client_lookup E P reply rev_reply user device c =
     bind_s (c, validate_id user) (\<lambda>_ c.
     bind_s (c, validate_id device) (\<lambda>_ c.
     bind_s (client_audit E P reply rev_reply c) (\<lambda>sn c.
     bind_s (c, or_err (find (\<lambda>r. rp_user_id (dr_payload r) = user \<and> rp_device_id (dr_payload r) = device)
       (sn_entries sn)) (Anyhow ''device not found in authenticated registration log'')) (\<lambda>r c.
     ensure_s (\<not> is_revoked (rp_nats_public_key (dr_payload r)) c) ''device is revoked'' c
     (bind_s (c, verify E r) (\<lambda>_ c.
      bind_s (observe_device E P r c) (\<lambda>_ c. (c, Inr r))))))))"

fun observe_verified ::
    "'z externals_scheme \<Rightarrow> 'm cpager \<Rightarrow> device_registration list \<Rightarrow> 'm client \<Rightarrow> 'm client \<times> unit result" where
  "observe_verified E P [] c = (c, Inr ())"
| "observe_verified E P (r # rs) c =
     bind_s (c, verify E r) (\<lambda>_ c. bind_s (observe_device E P r c) (\<lambda>_ c. observe_verified E P rs c))"

definition client_devices ::
    "('m, 'z) mls_ext_scheme \<Rightarrow> 'm cpager \<Rightarrow> bytes result \<Rightarrow> bytes result \<Rightarrow> string \<Rightarrow> 'm client
      \<Rightarrow> 'm client \<times> device_registration list result" where
  "client_devices E P reply rev_reply user c =
     bind_s (c, validate_id user) (\<lambda>_ c.
     bind_s (client_audit E P reply rev_reply c) (\<lambda>sn c.
     (let records = filter (\<lambda>r. rp_user_id (dr_payload r) = user) (sn_entries sn) in
      bind_s (observe_verified E P records c) (\<lambda>_ c.
      (c, Inr (sort_key (rp_device_id \<circ> dr_payload) records))))))"

section \<open>What no operation undoes\<close>

text \<open>
  The pinned fingerprint of a device never changes, the mark that it changed is never removed,
  the directory key stays, and recorded revocations stay.
\<close>

definition trust_le_row :: "device_trust \<Rightarrow> device_trust \<Rightarrow> bool" where
  "trust_le_row t t' \<longleftrightarrow> dt_user t' = dt_user t \<and> dt_device t' = dt_device t \<and>
     dt_fingerprint t' = dt_fingerprint t \<and> (dt_state t = TrustChanged \<longrightarrow> dt_state t' = TrustChanged)"

definition client_le :: "'m client \<Rightarrow> 'm client \<Rightarrow> bool" where
  "client_le c c' \<longleftrightarrow>
     (\<forall>t \<in> set (cl_trust c). \<exists>t' \<in> set (cl_trust c'). trust_le_row t t') \<and>
     (directory_key c \<noteq> None \<longrightarrow> directory_key c' = directory_key c) \<and>
     set (cl_revoked c) \<subseteq> set (cl_revoked c')"

definition trust_inv :: "'m client \<Rightarrow> bool" where
  "trust_inv c \<longleftrightarrow> distinct (map (\<lambda>t. (dt_user t, dt_device t)) (cl_trust c)) \<and> length (cl_trust c) \<le> 256 \<and>
     distinct (map vd_nkey (cl_revoked c))"

definition trust_good :: "'m client \<Rightarrow> 'm client \<Rightarrow> bool" where
  "trust_good c c' \<longleftrightarrow> (trust_inv c \<longrightarrow> trust_inv c' \<and> client_le c c')"

lemma trust_le_row_refl [simp]: "trust_le_row t t"
  by (simp add: trust_le_row_def)

lemma trust_le_row_trans: "trust_le_row t u \<Longrightarrow> trust_le_row u v \<Longrightarrow> trust_le_row t v"
  by (simp add: trust_le_row_def)

lemma client_le_refl [simp]: "client_le c c"
  by (auto simp: client_le_def intro: trust_le_row_refl)

lemma client_le_trans: "client_le c d \<Longrightarrow> client_le d e \<Longrightarrow> client_le c e"
  unfolding client_le_def by (metis trust_le_row_trans subset_trans)

lemma trust_good_refl [simp]: "trust_good c c"
  by (simp add: trust_good_def)

lemma trust_good_trans: "trust_good c d \<Longrightarrow> trust_good d e \<Longrightarrow> trust_good c e"
  using client_le_trans by (auto simp: trust_good_def)

lemma trust_good_frame:
  assumes "cl_trust c' = cl_trust c" "cl_revoked c' = cl_revoked c"
    "directory_key c \<noteq> None \<Longrightarrow> directory_key c' = directory_key c"
  shows "trust_good c c'"
  using assms unfolding trust_good_def trust_inv_def client_le_def
  by (auto intro: trust_le_row_refl)

lemma trust_good_flag [simp]:
  "trust_good (c\<lparr>cl_recovery := b\<rparr>) d = trust_good c d" "trust_good c (d\<lparr>cl_recovery := b\<rparr>) = trust_good c d"
  by (simp_all add: trust_good_def trust_inv_def client_le_def directory_key_def)

text \<open>Sequencing: each part is good, so the whole is.\<close>

lemma trust_good_bind:
  assumes "trust_good c (fst m)" and "\<And>d x. m = (d, Inr x) \<Longrightarrow> trust_good d (fst (f x d))"
  shows "trust_good c (fst (bind_s m f))"
proof (cases m)
  case (Pair d r)
  then show ?thesis using assms trust_good_trans by (cases r) fastforce+
qed

lemma trust_good_ensure: "trust_good c s \<Longrightarrow> trust_good c (fst k) \<Longrightarrow> trust_good c (fst (ensure_s b msg s k))"
  by (simp add: ensure_s_def)

lemma trust_good_transaction:
  assumes "\<And>c v c'. action c = Inr (v, c') \<Longrightarrow> trust_good c c'"
  shows "trust_good c (fst (transaction_budget recovery P action c))"
  using assms
  by (cases rule: transaction_budget_cases[of recovery P action c]) fastforce+

lemma update_trust_good:
  assumes "\<And>t. t \<in> set (cl_trust c) \<Longrightarrow> p t \<Longrightarrow> trust_le_row t (f t)"
  shows "trust_good c (c\<lparr>cl_trust := update_where p f (cl_trust c)\<rparr>)"
proof -
  have "map (\<lambda>t. (dt_user t, dt_device t)) (update_where p f (cl_trust c)) =
      map (\<lambda>t. (dt_user t, dt_device t)) (cl_trust c)"
    using assms by (auto simp: update_where_def trust_le_row_def)
  moreover have "\<exists>t' \<in> set (update_where p f (cl_trust c)). trust_le_row t t'" if "t \<in> set (cl_trust c)" for t
    unfolding set_update_where by (rule bexI[OF _ imageI[OF that]]) (use assms that in auto)
  ultimately show ?thesis
    by (auto simp: trust_good_def trust_inv_def client_le_def directory_key_def)
qed

lemma observe_action_good: "observe_action user device fp c = Inr (v, c') \<Longrightarrow> trust_good c c'"
proof (cases "device_trust_row user device c")
  case None
  assume "observe_action user device fp c = Inr (v, c')"
  with None obtain t where t: "c' = c\<lparr>cl_trust := cl_trust c @ [t]\<rparr>" "length (cl_trust c) < 256"
      "(dt_user t, dt_device t) \<notin> (\<lambda>t. (dt_user t, dt_device t)) ` set (cl_trust c)"
    by (auto simp: observe_action_def result_simps insert_row_ok)
  then show ?thesis
    by (auto simp: trust_good_def trust_inv_def client_le_def directory_key_def intro: trust_le_row_refl)
next
  case (Some t)
  assume "observe_action user device fp c = Inr (v, c')"
  with Some have "c' = c \<or> c' = mark_changed user device fp c"
    by (auto simp: observe_action_def split: if_splits)
  then show ?thesis
    using update_trust_good[of c "\<lambda>t. dt_user t = user \<and> dt_device t = device"
        "\<lambda>t. t\<lparr>dt_latest := fp, dt_state := TrustChanged\<rparr>"]
    by (auto simp: mark_changed_def trust_le_row_def)
qed

lemma observe_device_good: "trust_good c (fst (observe_device E P r c))"
  unfolding observe_device_def Let_def recovery_transaction_def
  by (intro trust_good_bind trust_good_ensure trust_good_transaction)
    (auto dest: observe_action_good)

lemma observe_all_good: "trust_good c (fst (observe_all E P rs c))"
  by (induction rs arbitrary: c) (auto intro!: trust_good_bind simp: observe_device_good)

lemma observe_verified_good: "trust_good c (fst (observe_verified E P rs c))"
  by (induction rs arbitrary: c) (auto intro!: trust_good_bind simp: observe_device_good)

lemma device_trust_row_unique:
  assumes "trust_inv c" "device_trust_row user device c = Some t" "u \<in> set (cl_trust c)"
    "dt_user u = user" "dt_device u = device"
  shows "u = t"
proof -
  have "t \<in> set (cl_trust c)" "dt_user t = user" "dt_device t = device"
    using select_one_Some assms(2) unfolding device_trust_row_def by fast+
  then show ?thesis
    using assms distinct_key_eq[of "\<lambda>t. (dt_user t, dt_device t)" "cl_trust c" u t] by (simp add: trust_inv_def)
qed

lemma trust_goodI: "(trust_inv c \<Longrightarrow> trust_good c c') \<Longrightarrow> trust_good c c'"
  by (auto simp: trust_good_def)

lemma verify_device_good: "trust_good c (fst (verify_device user device expected c))"
proof (rule trust_goodI)
  assume inv: "trust_inv c"
  show "trust_good c (fst (verify_device user device expected c))"
  proof (cases "device_trust_row user device c")
    case None
    then show ?thesis by (simp add: verify_device_def Let_def ensure_s_def)
  next
    case (Some t)
    have "trust_good c (c\<lparr>cl_trust := update_where (\<lambda>t. dt_user t = user \<and> dt_device t = device)
        (\<lambda>t. t\<lparr>dt_state := TrustVerified\<rparr>) (cl_trust c)\<rparr>)" if "dt_state t \<noteq> TrustChanged"
      using device_trust_row_unique[OF inv Some] that by (intro update_trust_good) (auto simp: trust_le_row_def)
    then show ?thesis using Some by (simp add: verify_device_def Let_def ensure_s_def)
  qed
qed

lemma pin_directory_good: "trust_good c (fst (pin_directory E signer c))"
  unfolding pin_directory_def
  by (intro trust_good_ensure trust_good_bind)
    (auto split: option.splits intro!: trust_good_frame simp: directory_key_def)

lemma accept_checkpoint_good: "trust_good c (fst (accept_checkpoint E P sn c))"
  unfolding accept_checkpoint_def
  by (intro trust_good_bind)
    (auto intro!: trust_good_frame simp: pin_directory_good observe_all_good store_checkpoint_def
      directory_key_def option.map_comp comp_def case_prod_beta)

lemma record_revocation_good:
  "record_revocation E sn v c = Inr c' \<Longrightarrow> trust_good c c'"
  by (auto simp: record_revocation_def Let_def result_simps trust_good_def trust_inv_def client_le_def
      directory_key_def intro: trust_le_row_refl)

lemma accept_revocations_good: "trust_good c (fst (accept_revocations E P l sn c))"
proof -
  have fold: "trust_good c c'" if "fold_r (record_revocation E sn) vs c = Inr c'" for vs and c c' :: "'a client"
    by (rule fold_r_inv[OF that trust_good_refl]) (rule trust_good_trans[OF _ record_revocation_good])
  have "trust_good c c'" if a: "accept_revocations_action E l sn c = Inr (v, c')" for c c' :: "'a client" and v
  proof -
    obtain d bs where d: "fold_r (record_revocation E sn) (rl_entries l) c = Inr d"
        "c' = d\<lparr>cl_rev_checkpoint := Some bs\<rparr>"
      using a by (auto simp: accept_revocations_action_def result_simps)
    have "trust_good d c'" by (rule trust_good_frame) (simp_all add: d(2) directory_key_def)
    with fold[OF d(1)] show ?thesis by (rule trust_good_trans)
  qed
  then show ?thesis
    unfolding accept_revocations_def recovery_transaction_def
    by (intro trust_good_bind trust_good_transaction) auto
qed

lemma alert_good [simp]: "trust_good c (transparency_failure m c)" "trust_good c (clear_transparency_warning c)"
  by (auto intro!: trust_good_frame simp: transparency_failure_def clear_transparency_warning_def directory_key_def)

lemma audit_accept_good: "trust_good c (fst (audit_accept E P reply rev_reply c))"
  unfolding audit_accept_def
  by (intro trust_good_bind) (auto simp: accept_checkpoint_good accept_revocations_good)

lemma client_audit_good: "trust_good c (fst (client_audit E P reply rev_reply c))"
proof (cases "audit_accept E P reply rev_reply c")
  case (Pair c' r)
  then have g: "trust_good c c'" using audit_accept_good[of c E P reply rev_reply] by simp
  show ?thesis
    using Pair g trust_good_trans[OF g alert_good(1)] by (cases r) (simp_all add: client_audit_def)
qed

lemma client_lookup_good: "trust_good c (fst (client_lookup E P reply rev_reply user device c))"
  unfolding client_lookup_def
  by (intro trust_good_bind trust_good_ensure) (auto simp: client_audit_good observe_device_good)

lemma client_devices_good: "trust_good c (fst (client_devices E P reply rev_reply user c))"
  unfolding client_devices_def Let_def
  by (intro trust_good_bind) (auto simp: client_audit_good observe_verified_good)

section \<open>The trust state as a machine\<close>

datatype trust_op =
    Observe device_registration
  | VerifyDevice string string string
  | PinDirectory string
  | ClientAudit "bytes result" "bytes result"
  | ClientLookup "bytes result" "bytes result" string string
  | ClientDevices "bytes result" "bytes result" string

fun trust_step :: "('m, 'z) mls_ext_scheme \<Rightarrow> 'm cpager \<Rightarrow> 'm client \<Rightarrow> trust_op \<Rightarrow> 'm client" where
  "trust_step E P c (Observe r) = fst (observe_device E P r c)"
| "trust_step E P c (VerifyDevice user device fp) = fst (verify_device user device fp c)"
| "trust_step E P c (PinDirectory signer) = fst (pin_directory E signer c)"
| "trust_step E P c (ClientAudit reply rev_reply) = fst (client_audit E P reply rev_reply c)"
| "trust_step E P c (ClientLookup reply rev_reply user device) =
     fst (client_lookup E P reply rev_reply user device c)"
| "trust_step E P c (ClientDevices reply rev_reply user) = fst (client_devices E P reply rev_reply user c)"

lemma trust_step_good: "trust_good c (trust_step E P c x)"
  by (cases x) (simp_all add: observe_device_good verify_device_good pin_directory_good client_audit_good
      client_lookup_good client_devices_good)

interpretation trust_machine: monotone_machine "trust_step E P" trust_inv "\<lambda>_. True" client_le
proof (unfold_locales, goal_cases)
  case (1 s x)
  then show ?case using trust_step_good[of s E P x] by (simp add: trust_good_def)
next
  case (3 s t u)
  then show ?case by (rule client_le_trans)
next
  case (4 s x)
  then show ?case using trust_step_good[of s E P x] by (simp add: trust_good_def)
qed simp

section \<open>What success means\<close>

lemma observe_action_pins:
  assumes "observe_action user device fp c = Inr (False, c')"
  shows "\<exists>t. device_trust_row user device c' = Some t \<and> dt_fingerprint t = fp \<and> dt_state t \<noteq> TrustChanged"
proof (cases "device_trust_row user device c")
  case None
  then have "select_one (\<lambda>t. dt_user t = user \<and> dt_device t = device) (cl_trust c) = None"
    by (simp add: device_trust_row_def)
  then show ?thesis using assms None
    by (auto simp: observe_action_def result_simps insert_row_ok device_trust_row_def select_one_append)
next
  case (Some t)
  then show ?thesis using assms by (auto simp: observe_action_def split: if_splits)
qed

lemma device_trust_row_flag [simp]:
  "device_trust_row user device (c\<lparr>cl_recovery := b\<rparr>) = device_trust_row user device c"
  by (simp add: device_trust_row_def)

lemma observe_device_ok:
  assumes "observe_device E P r c = (c', Inr u)"
  shows "\<exists>t. device_trust_row (rp_user_id (dr_payload r)) (rp_device_id (dr_payload r)) c' = Some t \<and>
    fingerprint E r = Inr (dt_fingerprint t) \<and> dt_state t \<noteq> TrustChanged"
proof -
  obtain fp d where "fingerprint E r = Inr fp" and
    "recovery_transaction P (observe_action (rp_user_id (dr_payload r)) (rp_device_id (dr_payload r)) fp) c =
       (c', Inr False)"
    using assms by (auto simp: observe_device_def Let_def result_simps)
  then show ?thesis
    using observe_action_pins by (fastforce simp: recovery_transaction_def dest!: transaction_budget_Inr)
qed

text \<open>A device whose pinned fingerprint differs is refused, and the refusal is recorded.\<close>

lemma observe_device_changed:
  assumes "device_trust_row (rp_user_id (dr_payload r)) (rp_device_id (dr_payload r)) c = Some t"
    "fingerprint E r = Inr fp" "fp \<noteq> dt_fingerprint t \<or> dt_state t = TrustChanged"
  shows "\<exists>e. snd (observe_device E P r c) = Inl e"
proof -
  have a: "v" if "observe_action (rp_user_id (dr_payload r)) (rp_device_id (dr_payload r)) fp
      (c\<lparr>cl_recovery := True\<rparr>) = Inr (v, c')" for v c'
    using that assms(1,3) by (auto simp: observe_action_def split: if_splits)
  show ?thesis
    by (cases rule: transaction_budget_cases[of True P "observe_action (rp_user_id (dr_payload r))
          (rp_device_id (dr_payload r)) fp" c])
      (use assms(2) a in \<open>auto simp: observe_device_def Let_def recovery_transaction_def\<close>)
qed

lemma directory_observe_device: "cl_directory (fst (observe_device E P r c)) = cl_directory c"
proof -
  have a: "cl_directory c' = cl_directory c" if "observe_action user device fp c = Inr (v, c')"
    for user device fp v and c c' :: "'a client"
    using that by (auto simp: observe_action_def mark_changed_def result_simps split: option.splits if_splits)
  have "cl_directory (fst (transaction_budget True P (observe_action user device fp) c)) = cl_directory c"
    for user device fp and c :: "'a client"
    by (cases rule: transaction_budget_cases[of True P "observe_action user device fp" c]) (auto dest: a)
  then show ?thesis
    by (auto simp: observe_device_def Let_def recovery_transaction_def bind_s_def ensure_s_def
        split: sum.splits prod.splits) (metis fst_conv)+
qed

lemma directory_observe_all: "cl_directory (fst (observe_all E P rs c)) = cl_directory c"
proof (induction rs arbitrary: c)
  case (Cons r rs)
  obtain d x where "observe_device E P r c = (d, x)" by fastforce
  then show ?case using directory_observe_device[of E P r c] Cons.IH[of d] by (cases x) auto
qed simp

lemma accept_checkpoint_ok:
  assumes "accept_checkpoint E P sn c = (c', Inr u)"
  shows "snapshot_validate E sn = Inr ()"
    and "\<exists>bs. cl_directory c' = Some (cp_signer (sn_checkpoint sn), Some bs) \<and>
      pc_stored_checkpoint E (sn_checkpoint sn) = Some bs"
    and "client_checkpoint E c = Inr (Some cp) \<Longrightarrow> extends E sn cp = Inr ()"
proof -
  obtain c1 c2 bs previous where v: "snapshot_validate E sn = Inr ()"
    and c1: "pin_directory E (cp_signer (sn_checkpoint sn)) c = (c1, Inr ())"
    and c2: "observe_all E P (sn_entries sn) c1 = (c2, Inr ())"
    and previous: "client_checkpoint E c2 = Inr previous"
    and ex: "(case previous of None \<Rightarrow> Inr () | Some cp \<Rightarrow> extends E sn cp) = Inr ()"
    and bs: "pc_stored_checkpoint E (sn_checkpoint sn) = Some bs"
    and c': "c' = store_checkpoint bs c2"
    using assms by (auto simp: accept_checkpoint_def result_simps)
  have d: "cl_directory c2 = cl_directory c1" using directory_observe_all[of E P "sn_entries sn" c1] c2 by simp
  have p: "\<exists>b. cl_directory c1 = Some (cp_signer (sn_checkpoint sn), b)"
      "cl_directory c \<noteq> None \<Longrightarrow> cl_directory c1 = cl_directory c"
    using c1 by (auto simp: pin_directory_def directory_key_def result_simps split: option.split_asm)
  show "snapshot_validate E sn = Inr ()" by fact
  show "\<exists>bs. cl_directory c' = Some (cp_signer (sn_checkpoint sn), Some bs) \<and>
      pc_stored_checkpoint E (sn_checkpoint sn) = Some bs"
    using d p(1) bs c' by (auto simp: store_checkpoint_def)
  show "extends E sn cp = Inr ()" if cp: "client_checkpoint E c = Inr (Some cp)"
  proof -
    have "cl_directory c \<noteq> None"
      using cp by (cases "cl_directory c") (auto simp: client_checkpoint_def stored_checkpoint_def)
    then have "client_checkpoint E c2 = Inr (Some cp)" using p(2) d cp by (simp add: client_checkpoint_def)
    then show ?thesis using previous ex by simp
  qed
qed

text \<open>Postcard reads back the checkpoint it wrote.\<close>

definition checkpoint_roundtrip :: "('m, 'z) mls_ext_scheme \<Rightarrow> bool" where
  "checkpoint_roundtrip E \<longleftrightarrow>
     (\<forall>cp bs. pc_stored_checkpoint E cp = Some bs \<longrightarrow> un_stored_checkpoint E bs = Some cp)"

lemma accept_checkpoint_stored:
  assumes "accept_checkpoint E P sn c = (c', Inr u)" "checkpoint_roundtrip E" "cl_directory d = cl_directory c'"
  shows "client_checkpoint E d = Inr (Some (sn_checkpoint sn))"
  using accept_checkpoint_ok(2)[OF assms(1)] assms(2,3)
  by (auto simp: client_checkpoint_def stored_checkpoint_def checkpoint_roundtrip_def)

lemma record_revocation_keys:
  assumes "record_revocation E sn v c = Inr c'"
  shows "vd_nkey ` set (cl_revoked c') = insert (rq_nkey (rv_request v)) (vd_nkey ` set (cl_revoked c))"
  using assms
  by (cases "rq_nkey (rv_request v) \<in> vd_nkey ` set (cl_revoked c)")
    (auto simp: record_revocation_def Let_def result_simps insert_absorb)

lemma record_revocations_keys:
  "fold_r (record_revocation E sn) vs c = Inr c' \<Longrightarrow>
     vd_nkey ` set (cl_revoked c') = (rq_nkey \<circ> rv_request) ` set vs \<union> vd_nkey ` set (cl_revoked c)"
proof (induction vs arbitrary: c)
  case (Cons v vs)
  then obtain d where d: "record_revocation E sn v c = Inr d" "fold_r (record_revocation E sn) vs d = Inr c'"
    by (auto simp: result_simps)
  show ?case using Cons.IH[OF d(2)] record_revocation_keys[OF d(1)] by simp
qed simp

lemma accept_revocations_ok:
  assumes "accept_revocations E P l sn c = (c', Inr u)"
  shows "log_validate E l sn = Inr ()"
    and "vd_nkey ` set (cl_revoked c') = log_keys l \<union> vd_nkey ` set (cl_revoked c)"
    and "\<exists>bs. cl_rev_checkpoint c' = Some bs \<and> pc_stored_checkpoint E (rl_checkpoint l) = Some bs"
    and "stored_checkpoint E (cl_rev_checkpoint c) = Inr (Some cp) \<Longrightarrow> rev_extends E l cp = Inr ()"
proof -
  obtain previous d bs where v: "log_validate E l sn = Inr ()"
    and p: "stored_checkpoint E (cl_rev_checkpoint c) = Inr previous"
      "(case previous of None \<Rightarrow> Inr () | Some cp \<Rightarrow> rev_extends E l cp) = Inr ()"
    and f: "fold_r (record_revocation E sn) (rl_entries l) (c\<lparr>cl_recovery := True\<rparr>) = Inr d"
    and bs: "pc_stored_checkpoint E (rl_checkpoint l) = Some bs"
      "c' = d\<lparr>cl_rev_checkpoint := Some bs, cl_recovery := False\<rparr>"
    using assms by (auto simp: accept_revocations_def recovery_transaction_def result_simps
        accept_revocations_action_def dest!: transaction_budget_Inr)
  show "log_validate E l sn = Inr ()" by fact
  show "vd_nkey ` set (cl_revoked c') = log_keys l \<union> vd_nkey ` set (cl_revoked c)"
    using record_revocations_keys[OF f] bs(2) by (simp add: log_keys_def)
  show "\<exists>bs. cl_rev_checkpoint c' = Some bs \<and> pc_stored_checkpoint E (rl_checkpoint l) = Some bs"
    using bs by simp
  show "rev_extends E l cp = Inr ()" if "stored_checkpoint E (cl_rev_checkpoint c) = Inr (Some cp)"
    using p that by (auto split: option.splits)
qed

lemma is_revoked_iff: "is_revoked k c \<longleftrightarrow> k \<in> vd_nkey ` set (cl_revoked c)"
  by (auto simp: is_revoked_def list_ex_iff)

lemma is_revoked_le: "client_le c c' \<Longrightarrow> is_revoked k c \<Longrightarrow> is_revoked k c'"
  by (auto simp: is_revoked_iff client_le_def)

lemma client_lookup_ok:
  assumes "client_lookup E P reply rev_reply user device c = (c', Inr r)"
  obtains c1 sn c2 where "client_audit E P reply rev_reply c = (c1, Inr sn)" "r \<in> set (sn_entries sn)"
    "rp_user_id (dr_payload r) = user" "rp_device_id (dr_payload r) = device"
    "\<not> is_revoked (rp_nats_public_key (dr_payload r)) c1" "verify E r = Inr ()"
    "observe_device E P r c1 = (c', Inr ())"
proof -
  obtain c1 sn where "client_audit E P reply rev_reply c = (c1, Inr sn)"
      "find (\<lambda>r. rp_user_id (dr_payload r) = user \<and> rp_device_id (dr_payload r) = device) (sn_entries sn) = Some r"
      "\<not> is_revoked (rp_nats_public_key (dr_payload r)) c1" "verify E r = Inr ()"
      "observe_device E P r c1 = (c', Inr ())"
    using assms by (auto simp: client_lookup_def result_simps)
  then show ?thesis using that by (auto simp: find_Some_iff in_set_conv_nth)
qed

lemma client_audit_ok:
  assumes "client_audit E P reply rev_reply c = (c', Inr sn)"
  obtains bs rbs l c1 c2 where "reply = Inr bs" "decode_snapshot E bs = Inr sn" "rev_reply = Inr rbs"
    "decode E rbs = Inr (RevocationLog l)" "accept_checkpoint E P sn c = (c1, Inr ())"
    "accept_revocations E P l sn c1 = (c2, Inr ())" "c' = clear_transparency_warning c2"
proof -
  have "audit_accept E P reply rev_reply c = (c', Inr sn)"
    using assms by (auto simp: client_audit_def split: prod.splits sum.splits)
  then show ?thesis using that by (auto simp: audit_accept_def result_simps)
qed

end
