(* ===== verification/Sample.thy ===== *)
theory Sample
  imports Policy Trust
begin

text \<open>
  A concrete instance of the third-party functions and small concrete states, on which the
  hypotheses of the theorems are shown to hold. The codec knows a handful of envelopes, the hash
  keeps a prefix of its input, a signature is the text of the key that made it.
\<close>

section \<open>Identities\<close>

definition user1 :: string where
  "user1 = ''egusr-'' @ replicate 26 CHR ''a''"

definition key1 :: string where
  "key1 = ''UALICE''"

definition directory1 :: string where
  "directory1 = ''UDIRECTORY''"

definition payload1 :: registration_payload where
  "payload1 = \<lparr>rp_protocol_version = 1, rp_user_id = user1, rp_device_id = ''phone'',
     rp_nats_public_key = key1, rp_mls_credential = [5], rp_mls_key_package = [6],
     rp_generation = 1, rp_created_at = 1\<rparr>"

definition reg1 :: device_registration where
  "reg1 = \<lparr>dr_payload = payload1, dr_signature = as_bytes key1\<rparr>"

definition reg2 :: device_registration where
  "reg2 = \<lparr>dr_payload = payload1\<lparr>rp_device_id := ''laptop'', rp_nats_public_key := ''ULAPTOP''\<rparr>,
     dr_signature = as_bytes ''ULAPTOP''\<rparr>"

definition s_sha256 :: "bytes \<Rightarrow> bytes option" where
  "s_sha256 bs = Some (take 32 (of_nat (length bs) # bs @ replicate 32 0))"

definition s_root :: "bytes \<Rightarrow> bytes" where
  "s_root bs = take 32 (of_nat (length bs) # bs @ replicate 32 0)"

definition cp0 :: checkpoint where
  "cp0 = \<lparr>cp_version = 1, cp_size = 0, cp_root = s_root [], cp_signer = directory1,
     cp_signature = as_bytes directory1\<rparr>"

definition cp1 :: checkpoint where
  "cp1 = \<lparr>cp_version = 1, cp_size = 1, cp_root = s_root [0, 1], cp_signer = directory1,
     cp_signature = as_bytes directory1\<rparr>"

definition sn0 :: snapshot where
  "sn0 = \<lparr>sn_checkpoint = cp0, sn_entries = []\<rparr>"

definition sn1 :: snapshot where
  "sn1 = \<lparr>sn_checkpoint = cp1, sn_entries = [reg1]\<rparr>"

definition request1 :: revoke_request where
  "request1 = \<lparr>rq_version = 1, rq_user = user1, rq_device = ''phone'', rq_nkey = key1,
     rq_author = directory1, rq_signature = as_bytes directory1\<rparr>"

definition rev1 :: revocation where
  "rev1 = \<lparr>rv_request = request1, rv_chat_cutoff = 9\<rparr>"

definition rl0 :: revocation_log where
  "rl0 = \<lparr>rl_checkpoint = cp0, rl_entries = []\<rparr>"

definition rl1 :: revocation_log where
  "rl1 = \<lparr>rl_checkpoint = \<lparr>cp_version = 1, cp_size = 1, cp_root = s_root [0, 8], cp_signer = directory1,
     cp_signature = as_bytes directory1\<rparr>, rl_entries = [rev1]\<rparr>"

section \<open>Codecs\<close>

definition sample_bodies :: "(byte \<times> body) list" where
  "sample_bodies = [(1, Register reg1), (2, AuditLog sn0), (3, AuditLog sn1), (4, RevocationLog rl0),
     (5, RevocationLog rl1), (6, Welcome [7])]"

definition s_pc_envelope :: "envelope \<Rightarrow> bytes option" where
  "s_pc_envelope e =
     (case filter (\<lambda>tb. snd tb = ev_body e) sample_bodies of
        [] \<Rightarrow> None
      | (t, _) # _ \<Rightarrow> if ev_version e = 1 then Some [t] else None)"

fun s_pc_take :: "bytes \<Rightarrow> (envelope \<times> bytes) option" where
  "s_pc_take [] = None"
| "s_pc_take (t # rest) = map_option (\<lambda>b. (\<lparr>ev_version = 1, ev_body = b\<rparr>, rest)) (map_of sample_bodies t)"

definition s_leaf :: kp_leaf where
  "s_leaf = \<lparr>kl_ciphersuite = 1, kl_credential = [5], kl_identity = Some (as_bytes (user1 @ ''/phone'')),
     kl_signature_key = [4]\<rparr>"

definition s_ext :: "'z \<Rightarrow> 'z externals_scheme" where
  "s_ext m = \<lparr>sha256 = s_sha256, nkey_ok = (\<lambda>k. starts_with ''U'' k),
     nkey_verify = (\<lambda>k m s. s = as_bytes k),
     pc_envelope = s_pc_envelope, pc_take_envelope = s_pc_take,
     pc_registration = (\<lambda>p. Some [1]), pc_checkpoint = (\<lambda>t. Some [2]), pc_revoke = (\<lambda>t. Some [3]),
     pc_revocation = (\<lambda>v. if v = rev1 then Some [8] else None), pc_policy = (\<lambda>u. Some [9]),
     pc_relay = (\<lambda>t. Some [10]), pc_fingerprint = (\<lambda>t. Some [11]),
     kp_unverified = (\<lambda>b. Some ([5], [4])), kp_validate = (\<lambda>b. Some s_leaf),
     is_mls_welcome = (\<lambda>b. Some True),
     b32_encode = (\<lambda>b. replicate (if length b = 16 then 26 else 52) CHR ''A''),
     b32_decode = (\<lambda>s. Some (replicate 16 0)), suite = 1, \<dots> = m\<rparr>"

definition directory_keys :: keypair where
  "directory_keys = \<lparr>public_key = directory1, nkey_sign = (\<lambda>m. Some (as_bytes directory1))\<rparr>"

definition device_keys :: keypair where
  "device_keys = \<lparr>public_key = key1, nkey_sign = (\<lambda>m. Some (as_bytes key1))\<rparr>"

lemma s_ext_simps [simp]:
  "sha256 (s_ext m) = s_sha256" "nkey_ok (s_ext m) k = starts_with ''U'' k" "nkey_verify (s_ext m) k msg s = (s = as_bytes k)"
  "pc_envelope (s_ext m) = s_pc_envelope" "pc_take_envelope (s_ext m) = s_pc_take"
  "pc_registration (s_ext m) p = Some [1]" "pc_checkpoint (s_ext m) t = Some [2]" "pc_revoke (s_ext m) q = Some [3]"
  "pc_revocation (s_ext m) v = (if v = rev1 then Some [8] else None)" "pc_policy (s_ext m) u = Some [9]"
  "pc_relay (s_ext m) w = Some [10]" "pc_fingerprint (s_ext m) f = Some [11]"
  "kp_unverified (s_ext m) b = Some ([5], [4])" "kp_validate (s_ext m) b = Some s_leaf" "is_mls_welcome (s_ext m) b = Some True"
  "b32_encode (s_ext m) b = replicate (if length b = 16 then 26 else 52) CHR ''A''"
  "b32_decode (s_ext m) x = Some (replicate 16 0)" "suite (s_ext m) = 1"
  by (simp_all add: s_ext_def)

lemma s_encode [simp]:
  "s_pc_envelope \<lparr>ev_version = Suc 0, ev_body = Register reg1\<rparr> = Some [1]"
  "s_pc_envelope \<lparr>ev_version = Suc 0, ev_body = AuditLog sn0\<rparr> = Some [2]"
  "s_pc_envelope \<lparr>ev_version = Suc 0, ev_body = AuditLog sn1\<rparr> = Some [3]"
  "s_pc_envelope \<lparr>ev_version = Suc 0, ev_body = RevocationLog rl0\<rparr> = Some [4]"
  "s_pc_envelope \<lparr>ev_version = Suc 0, ev_body = RevocationLog rl1\<rparr> = Some [5]"
  "s_pc_envelope \<lparr>ev_version = Suc 0, ev_body = Welcome [7]\<rparr> = Some [6]"
  by (simp_all add: s_pc_envelope_def sample_bodies_def sn0_def sn1_def rl0_def rl1_def)

lemma s_roundtrip: "s_pc_envelope e = Some b \<Longrightarrow> s_pc_take (b @ rest) = Some (e, rest)"
proof -
  assume a: "s_pc_envelope e = Some b"
  then obtain t b' r where f: "filter (\<lambda>tb. snd tb = ev_body e) sample_bodies = (t, b') # r"
    and v: "ev_version e = 1" "b = [t]"
    by (auto simp: s_pc_envelope_def split: list.splits if_splits prod.splits)
  have "(t, b') \<in> set (filter (\<lambda>tb. snd tb = ev_body e) sample_bodies)" by (simp add: f)
  then have m: "(t, ev_body e) \<in> set sample_bodies" by auto
  moreover have "distinct (map fst sample_bodies)" by (simp add: sample_bodies_def)
  ultimately have "map_of sample_bodies t = Some (ev_body e)" by simp
  then show "s_pc_take (b @ rest) = Some (e, rest)" using v by (cases e) simp
qed

lemma s_ext_roundtrip: "postcard_roundtrip (s_ext m)"
  using s_roundtrip by (simp add: postcard_roundtrip_def)

lemma user1_id: "validate_id user1 = Inr ()"
  by (simp add: user1_def validate_id_def is_ascii_lowercase_def byte_of_def numeral_eq_Suc)

lemma reg1_signed [simp]: "verify_signature (s_ext m) reg1 = Inr ()"
  using user1_id
  by (simp add: verify_signature_def reg1_def payload1_def VERSION_def key1_def starts_with_def
      signing_bytes_def pc_def validate_id_def is_ascii_lowercase_def byte_of_def verify_with_def)

lemma reg2_signed [simp]: "verify_signature (s_ext m) reg2 = Inr ()"
  using user1_id
  by (simp add: verify_signature_def reg2_def payload1_def VERSION_def starts_with_def
      signing_bytes_def pc_def validate_id_def is_ascii_lowercase_def byte_of_def verify_with_def)

lemma reg1_verified [simp]: "verify (s_ext m) reg1 = Inr ()"
proof -
  have "rp_mls_credential (dr_payload reg1) = [5]" "rp_mls_key_package (dr_payload reg1) = [6]"
    "rp_user_id (dr_payload reg1) = user1" "rp_device_id (dr_payload reg1) = ''phone''"
    by (simp_all add: reg1_def payload1_def)
  then show ?thesis using reg1_signed[of m] by (simp add: verify_def s_leaf_def)
qed

section \<open>Logs\<close>

lemma s_root_entries [simp]:
  "root (s_ext m) [] = Inr (s_root [])" "root (s_ext m) [reg1] = Inr (s_root [0, 1])"
  by (simp_all add: root.simps hash_def s_sha256_def s_root_def leaf_bytes_def encode_def VERSION_def pc_def
      MAX_WIRE_def)

lemma s_snapshots [simp]:
  "snapshot_validate (s_ext m) sn0 = Inr ()" "snapshot_validate (s_ext m) sn1 = Inr ()"
  using reg1_signed[of m]
  by (simp_all add: snapshot_validate_def sn0_def[symmetric] sn1_def[symmetric] encode_def VERSION_def pc_def
      MAX_WIRE_def cp_signing_bytes_def verify_with_def)
   (simp_all add: sn0_def sn1_def cp0_def cp1_def directory1_def starts_with_def)

lemma s_decode [simp]:
  "decode (s_ext m) [1] = Inr (Register reg1)" "decode (s_ext m) [2] = Inr (AuditLog sn0)"
  "decode (s_ext m) [3] = Inr (AuditLog sn1)" "decode (s_ext m) [4] = Inr (RevocationLog rl0)"
  "decode (s_ext m) [5] = Inr (RevocationLog rl1)" "decode (s_ext m) [6] = Inr (Welcome [7])"
  by (simp_all add: decode_ok MAX_WIRE_def VERSION_def sample_bodies_def)

lemma s_rev_root [simp]: "rev_root (s_ext m) [] = Inr (s_root [])" "rev_root (s_ext m) [rev1] = Inr (s_root [0, 8])"
  by (simp_all add: rev_root.simps hash_def s_sha256_def s_root_def rev_leaf_bytes_def pc_def)

lemma s_request: "request_validate (s_ext m) request1 sn1 [] = Inr ()"
  using user1_id
  by (simp add: request_validate_def request1_def rq_signing_bytes_def pc_def verify_with_def directory1_def
      starts_with_def validate_id_def is_ascii_lowercase_def byte_of_def sn1_def cp1_def reg1_def payload1_def)

lemma rev1_fields: "rv_request rev1 = request1" "rv_chat_cutoff rev1 = 9"
  by (simp_all add: rev1_def)

lemma cp1_fields: "cp_signer (sn_checkpoint sn1) = ''UDIRECTORY''"
  by (simp add: sn1_def cp1_def directory1_def)

lemma rl1_eq:
  "\<lparr>rl_checkpoint = \<lparr>cp_version = Suc 0, cp_size = Suc 0, cp_root = s_root [0, 8], cp_signer = directory1,
     cp_signature = as_bytes directory1\<rparr>, rl_entries = [rev1]\<rparr> = rl1"
  by (simp add: rl1_def)

lemma s_logs [simp]: "log_validate (s_ext m) rl0 sn1 = Inr ()" "log_validate (s_ext m) rl1 sn1 = Inr ()"
  using s_request[of m]
  by (simp_all add: log_validate_def rl0_def[symmetric] rl1_def[symmetric] encode_def VERSION_def pc_def
      MAX_WIRE_def rev_checkpoint_bytes_def verify_with_def)
   (simp_all add: rl0_def rl1_def cp0_def cp1_fields directory1_def starts_with_def rev1_fields I64_MAX_def)

end
