(* ===== verification/Directory_Properties.thy ===== *)
theory Directory_Properties
  imports Sample
begin

text \<open>
  The properties of the wire format, of identities and names, of the directory and of the two
  authenticated logs, each with an instance on which its hypotheses hold.
\<close>

abbreviation d_ext :: externals where
  "d_ext \<equiv> s_ext ()"

section \<open>Wire format and names\<close>

text \<open>What \<open>encode\<close> produces is at most \<open>MAX_WIRE\<close> bytes long, \<open>decode\<close> reads back exactly
  the body that was written, and it refuses the same bytes with anything appended.\<close>

theorem wire_round_trip:
  assumes "postcard_roundtrip E" "encode E b = Inr bs" "rest \<noteq> []"
  shows "length bs \<le> MAX_WIRE \<and> decode E bs = Inr b \<and> \<not> is_ok (decode E (bs @ rest))"
proof -
  have "pc_take_envelope E (bs @ rest) = Some (\<lparr>ev_version = VERSION, ev_body = b\<rparr>, rest)"
    using assms(1,2) unfolding postcard_roundtrip_def encode_ok by blast
  then have "\<not> is_ok (decode E (bs @ rest))" using assms(3) by (auto simp: is_ok_iff decode_ok)
  then show ?thesis using assms(2) decode_encode[OF assms(1,2)] by (simp add: encode_ok)
qed

theorem wire_round_trip_witness:
  "length [1 :: byte] \<le> MAX_WIRE \<and> decode d_ext [1] = Inr (Register reg1) \<and> \<not> is_ok (decode d_ext ([1] @ [0]))"
  by (rule wire_round_trip[OF s_ext_roundtrip]) (simp_all add: encode_ok MAX_WIRE_def VERSION_def)

text \<open>Two registrations that carry valid signatures have the same directory key exactly when they
  name the same user and the same device: no pair of names can be split in two ways.\<close>

theorem registration_key_unique:
  assumes "verify_signature E r = Inr ()" "verify_signature E r' = Inr ()"
  shows "registration_key (dr_payload r) = registration_key (dr_payload r') \<longleftrightarrow>
    rp_user_id (dr_payload r) = rp_user_id (dr_payload r') \<and>
    rp_device_id (dr_payload r) = rp_device_id (dr_payload r')"
  by (rule verified_key_inj[OF assms])

theorem registration_key_unique_witness:
  "registration_key (dr_payload reg1) \<noteq> registration_key (dr_payload reg2)"
  using registration_key_unique[OF reg1_signed reg2_signed] by (simp add: reg1_def reg2_def payload1_def)

text \<open>\<open>Group::from_mls_id\<close> accepts exactly the ids of the form
  \<open>epochgrid/v1/<name>/<gid>\<close> with a valid name and a 32-digit lowercase hexadecimal gid, and
  returns those fields.\<close>

theorem from_mls_id_exact:
  "from_mls_id text = Inr g \<longleftrightarrow>
     validate_id (g_name g) = Inr () \<and> gid_ok (g_gid g) \<and> g_mls_id g = text \<and>
     text = mls_id_text (g_name g) (g_gid g)"
  by (rule from_mls_id_ok)

text \<open>C40: A device listing that passes \<open>validate_list\<close> has at most 32 entries, each fully verified and
  belonging to the requested user, with pairwise different device ids and NKeys.\<close>

theorem validate_list_sound:
  assumes "validate_list E user rs = Inr ()"
  shows "length rs \<le> 32 \<and> (\<forall>r \<in> set rs. verify E r = Inr () \<and> rp_user_id (dr_payload r) = user) \<and>
    distinct (map (rp_device_id \<circ> dr_payload) rs) \<and> distinct (map (rp_nats_public_key \<circ> dr_payload) rs)"
proof -
  have "validate_listed E user [] [] rs = Inr ()" "length rs \<le> 32"
    using assms by (auto simp: validate_list_def result_simps)
  then show ?thesis using validate_listed_ok by fastforce
qed

theorem validate_list_sound_witness: "length [reg1] \<le> 32 \<and> verify d_ext reg1 = Inr ()"
proof -
  have "rp_user_id (dr_payload reg1) = user1" by (simp add: reg1_def payload1_def)
  then have "validate_list d_ext user1 [reg1] = Inr ()" by (simp add: validate_list_def)
  from validate_list_sound[OF this] show ?thesis by simp
qed

section \<open>The transparency log\<close>

text \<open>C23: History is append-only for whoever checks it: if a validated snapshot was accepted earlier and
  a later one passes \<open>extends\<close> against the earlier checkpoint, the later entries are the earlier ones
  followed by new ones, provided SHA-256 has no collision among the strings the two trees hash.\<close>

theorem extends_append_only:
  assumes "postcard_roundtrip E" "snapshot_validate E old = Inr ()"
    "extends E new (sn_checkpoint old) = Inr ()"
    "collision_free (hash E) (set (root_inputs E (sn_entries old)) \<union>
       set (root_inputs E (take (length (sn_entries old)) (sn_entries new))))"
  shows "\<exists>added. sn_entries new = sn_entries old @ added"
  by (rule extends_prefix[OF assms])

theorem extends_append_only_witness: "\<exists>added. sn_entries sn1 = sn_entries sn0 @ added"
proof (rule extends_append_only[OF s_ext_roundtrip s_snapshots(1)])
  show "extends d_ext sn1 (sn_checkpoint sn0) = Inr ()"
    by (simp add: extends_def sn0_def sn1_def cp0_def cp1_def)
  show "collision_free (hash d_ext) (set (root_inputs d_ext (sn_entries sn0)) \<union>
      set (root_inputs d_ext (take (length (sn_entries sn0)) (sn_entries sn1))))"
    by (simp add: collision_free_def sn0_def root_inputs.simps)
qed

text \<open>\<open>transparency::append\<close> that reports success leaves a stored, validated log that contains the
  registration, whatever other writers did between its attempts.\<close>

theorem append_durable:
  assumes "postcard_roundtrip E" "kv_acks K view" "append E K k r s = (s', Inr u)"
  shows "verify E r = Inr () \<and> (\<exists>bs sn. view s' ''snapshot'' = Some bs \<and> decode_snapshot E bs = Inr sn \<and>
    r \<in> set (sn_entries sn))"
proof -
  have "verify E r = Inr ()" "append_loop 4 E K k r s = (s', Inr u)"
    using assms(3) by (auto simp: append_def result_simps)
  then show ?thesis using append_loop_durable[OF assms(1,2)] by blast
qed

lemma s_signed: "snapshot_signed d_ext [reg1] directory_keys = Inr sn1"
  using s_snapshots(2)[of "()"]
  by (simp add: snapshot_signed_def cp_signing_bytes_def pc_def sign_with_def directory_keys_def sn1_def cp1_def)

lemma s_candidate: "append_candidate d_ext directory_keys reg1 [2] = Inr (Some [3])"
proof -
  have "sn_entries sn0 = []" "cp_signer (sn_checkpoint sn0) = public_key directory_keys"
    by (simp_all add: sn0_def cp0_def directory_keys_def)
  then show ?thesis
    using s_signed by (simp add: append_candidate_def decode_snapshot_ok encode_def VERSION_def pc_def MAX_WIRE_def)
       (simp add: decode_snapshot_def as_audit_log_def encode_def VERSION_def pc_def MAX_WIRE_def)
qed

theorem append_durable_witness:
  "verify d_ext reg1 = Inr () \<and> (\<exists>bs sn. mem_view [(''snapshot'', [3], 2), (''snapshot'', [2], 1)] ''snapshot'' = Some bs \<and>
    decode_snapshot d_ext bs = Inr sn \<and> reg1 \<in> set (sn_entries sn))"
proof (rule append_durable[OF s_ext_roundtrip mem_kv_acks])
  show "append d_ext mem_kv directory_keys reg1 [(''snapshot'', [2], 1)] =
      ([(''snapshot'', [3], 2), (''snapshot'', [2], 1)], Inr ())"
    using reg1_verified s_candidate by (simp add: append_def mem_kv_def numeral_eq_Suc)
qed

text \<open>C12: Several services may append at once. Along every interleaving of reads, compare-and-swaps and
  refused swaps the stored log stays decodable and valid, the old entries stay a prefix of the new
  ones, and a client that accepted the old checkpoint accepts the new log.\<close>

theorem interleaved_appends:
  assumes "postcard_roundtrip E" "log_world_inv E w" "(log_step E)\<^sup>*\<^sup>* w w'"
  shows "log_world_inv E w' \<and> (\<exists>old new added. decode_snapshot E (lw_value w) = Inr old \<and>
    decode_snapshot E (lw_value w') = Inr new \<and> sn_entries new = sn_entries old @ added \<and>
    extends E new (sn_checkpoint old) = Inr ())"
proof -
  have s: "log_world_inv E w'" "grows E (lw_value w) (lw_value w')"
    using log_steps_inv[OF assms(1,3,2)] by auto
  then obtain old new added where o: "decode_snapshot E (lw_value w) = Inr old"
      "decode_snapshot E (lw_value w') = Inr new" "sn_entries new = sn_entries old @ added"
      "cp_signer (sn_checkpoint new) = cp_signer (sn_checkpoint old)"
    by (auto simp: grows_def)
  then have "extends E new (sn_checkpoint old) = Inr ()"
    by (intro prefix_extends) (auto simp: decode_snapshot_ok)
  then show ?thesis using s(1) o by blast
qed

definition world0 :: log_world where
  "world0 = \<lparr>lw_value = [2], lw_revision = 0, lw_pending = Map.empty\<rparr>"

definition world1 :: log_world where
  "world1 = \<lparr>lw_value = [2], lw_revision = 0, lw_pending = [0 \<mapsto> (0, [3])]\<rparr>"

definition world2 :: log_world where
  "world2 = \<lparr>lw_value = [3], lw_revision = 1, lw_pending = Map.empty\<rparr>"

theorem interleaved_appends_witness:
  "log_world_inv d_ext world2 \<and> (\<exists>old new added. decode_snapshot d_ext (lw_value world0) = Inr old \<and>
    decode_snapshot d_ext (lw_value world2) = Inr new \<and> sn_entries new = sn_entries old @ added \<and>
    extends d_ext new (sn_checkpoint old) = Inr ())"
proof (rule interleaved_appends[OF s_ext_roundtrip])
  show "log_world_inv d_ext world0"
    by (simp add: log_world_inv_def world0_def decode_snapshot_ok)
  have a: "log_step d_ext world0 world1"
    using log_step.prepare[of d_ext directory_keys reg1 world0 "[3]" 0] s_candidate
    by (simp add: world0_def world1_def)
  have b: "log_step d_ext world1 world2"
    using log_step.swap[of world1 0 "[3]" d_ext] by (simp add: world1_def world2_def)
  show "(log_step d_ext)\<^sup>*\<^sup>* world0 world2"
    using a b by (meson converse_rtranclp_into_rtranclp rtranclp.rtrancl_refl)
qed

section \<open>The directory\<close>

text \<open>A registration request that succeeds was fully verified and enrolled under its key, and the
  directory then holds exactly its encoding under the key of its user and device.\<close>

theorem register_projects:
  assumes "kv_acks D view" "register E L D enrollment k r s = (s', Inr u)"
  shows "verify E r = Inr () \<and>
    enrollment (registration_key (dr_payload r)) = Some (rp_nats_public_key (dr_payload r)) \<and>
    (\<exists>bs. encode E (Register r) = Inr bs \<and> view s' (registration_key (dr_payload r)) = Some bs)"
proof -
  have v: "verify E r = Inr ()"
    "enrollment (registration_key (dr_payload r)) = Some (rp_nats_public_key (dr_payload r))"
    using assms(2) by (auto simp: register_def result_simps)
  obtain s1 where "accept E D enrollment r s1 = (s', Inr u)"
    using assms(2) by (auto simp: register_def result_simps)
  then have "project_registration E D enrollment r s1 = (s', Inr u)" by (auto simp: accept_def result_simps)
  from project_registration_stored[OF assms(1) this] v show ?thesis by blast
qed

definition enrolled1 :: enrollment where
  "enrolled1 = [device_key user1 ''phone'' \<mapsto> key1]"

theorem register_projects_witness:
  "\<exists>s'. verify d_ext reg1 = Inr () \<and>
    enrolled1 (registration_key (dr_payload reg1)) = Some (rp_nats_public_key (dr_payload reg1)) \<and>
    (\<exists>bs. encode d_ext (Register reg1) = Inr bs \<and> mem_view s' (registration_key (dr_payload reg1)) = Some bs)"
proof -
  define s1 :: mem where "s1 = [(''snapshot'', [3], 2), (''snapshot'', [2], 1)]"
  have k: "registration_key (dr_payload reg1) = device_key user1 ''phone''"
    "rp_nats_public_key (dr_payload reg1) = key1"
    by (simp_all add: reg1_def payload1_def registration_key_def)
  have e: "enrolled1 (device_key user1 ''phone'') = Some key1" by (simp add: enrolled1_def)
  have n: "device_key user1 ''phone'' \<noteq> ''snapshot''" by (simp add: device_key_def)
  have a: "append d_ext mem_kv directory_keys reg1 [(''snapshot'', [2], 1)] = (s1, Inr ())"
    using reg1_verified s_candidate by (simp add: append_def mem_kv_def numeral_eq_Suc s1_def)
  have p: "accept d_ext mem_kv enrolled1 reg1 s1 = ((device_key user1 ''phone'', [1], 1) # s1, Inr ())"
    using reg1_verified reg1_signed k e n
    by (simp add: accept_def project_registration_def create_or_match_def mem_kv_def s1_def encode_def
        VERSION_def pc_def MAX_WIRE_def)
  have "register d_ext mem_kv mem_kv enrolled1 directory_keys reg1 [(''snapshot'', [2], 1)] =
      ((device_key user1 ''phone'', [1], 1) # s1, Inr ())"
    using reg1_verified k e n a p by (simp add: register_def) (simp add: mem_kv_def mem_view_def)
  from register_projects[OF mem_kv_acks this] show ?thesis by blast
qed

text \<open>A KeyPackage claim that succeeds answers with the verified registration of the requested
  device and leaves the package reserved for the claiming group.\<close>

theorem claim_reserves:
  assumes "kv_acks K view" "claim E K enrollment user device gid s = (s', Inr b)"
  shows "view s' (claim_key user device) = Some (as_bytes gid) \<and>
    (\<exists>r. b = Found r \<and> verify E r = Inr () \<and> rp_user_id (dr_payload r) = user \<and>
       rp_device_id (dr_payload r) = device)"
proof -
  obtain s1 found where f: "find_device E K enrollment user device s = (s1, Inr found)" "as_found found \<noteq> None"
    and c: "create_or_match K (claim_key user device) (as_bytes gid)
        ''KeyPackage already reserved for another group'' found s1 = (s', Inr b)"
    using assms(2) by (auto simp: claim_def result_simps)
  note st = create_or_match_stored[OF assms(1) c]
  obtain r where "found = Found r" using f(2) as_found_Some by fastforce
  with find_device_Found f(1) st show ?thesis by metis
qed

theorem claim_reserves_witness:
  "\<exists>s' b. mem_view s' (claim_key user1 ''phone'') = Some (as_bytes ''team'') \<and>
    (\<exists>r. b = Found r \<and> verify d_ext r = Inr () \<and> rp_user_id (dr_payload r) = user1 \<and>
       rp_device_id (dr_payload r) = ''phone'')"
proof -
  define s0 :: mem where "s0 = [(device_key user1 ''phone'', [1], 1)]"
  have k: "registration_key (dr_payload reg1) = device_key user1 ''phone''"
    "rp_nats_public_key (dr_payload reg1) = key1"
    by (simp_all add: reg1_def payload1_def registration_key_def)
  have ids: "validate_id ''phone'' = Inr ()" "validate_id ''team'' = Inr ()"
    by (simp_all add: validate_id_def is_ascii_lowercase_def byte_of_def)
  have f: "find_device d_ext mem_kv enrolled1 user1 ''phone'' s0 = (s0, Inr (Found reg1))"
    using k ids user1_id reg1_verified
    by (simp add: find_device_def mem_kv_def mem_view_def s0_def as_register_def enrolled1_def)
  have n: "claim_key user1 ''phone'' \<noteq> device_key user1 ''phone''" by (simp add: claim_key_def device_key_def)
  have "claim d_ext mem_kv enrolled1 user1 ''phone'' ''team'' s0 =
      ((claim_key user1 ''phone'', as_bytes ''team'', 1) # s0, Inr (Found reg1))"
    using f ids n by (simp add: claim_def as_found_def create_or_match_def) (simp add: mem_kv_def s0_def)
  from claim_reserves[OF mem_kv_acks this] show ?thesis by blast
qed

section \<open>The revocation log\<close>

text \<open>C36: In a revocation log that validates against a registration snapshot no key is revoked twice,
  and every entry was signed by its author, names a registered device, and was authored by the
  directory operator or by a device of the same user that no earlier entry had revoked.\<close>

theorem revocation_authority:
  assumes "log_validate E l sn = Inr ()"
  shows "distinct (map (rq_nkey \<circ> rv_request) (rl_entries l)) \<and>
    (\<forall>i < length (rl_entries l). let q = rv_request (rl_entries l ! i) in
       (\<exists>msg. rq_signing_bytes E q = Inr msg \<and> nkey_verify E (rq_author q) msg (rq_signature q)) \<and>
       (\<exists>r \<in> set (sn_entries sn). rp_user_id (dr_payload r) = rq_user q \<and>
          rp_device_id (dr_payload r) = rq_device q \<and> rp_nats_public_key (dr_payload r) = rq_nkey q) \<and>
       rq_author q \<notin> (rq_nkey \<circ> rv_request) ` set (take i (rl_entries l)) \<and>
       (rq_author q = cp_signer (sn_checkpoint sn) \<or> (\<exists>r \<in> set (sn_entries sn).
          rp_nats_public_key (dr_payload r) = rq_author q \<and> rp_user_id (dr_payload r) = rq_user q)))"
proof -
  have v: "validate_revocations E sn [] (rl_entries l) = Inr ()" by (rule log_validate_ok(5)[OF assms])
  have "request_validate E (rv_request (rl_entries l ! i)) sn (take i (rl_entries l)) = Inr ()"
    if "i < length (rl_entries l)" for i
    using validate_revocations_nth[OF v that] by simp
  from request_validate_ok[OF this] show ?thesis
    using validate_revocations_distinct[OF v] by (simp add: Let_def)
qed

theorem revocation_authority_witness:
  "distinct (map (rq_nkey \<circ> rv_request) (rl_entries rl1)) \<and>
    (\<exists>msg. rq_signing_bytes d_ext request1 = Inr msg \<and> nkey_verify d_ext (rq_author request1) msg (rq_signature request1))"
proof -
  have "rl_entries rl1 = [rev1]" by (simp add: rl1_def)
  then show ?thesis using revocation_authority[OF s_logs(2)[of "()"]] by (simp add: Let_def rev1_fields)
qed

text \<open>\<open>revocation::append\<close> that reports success returns a validated log that revokes the requested
  key and is the one the store then holds.\<close>

theorem revocation_append_durable:
  assumes "postcard_roundtrip E" "kv_acks K view" "rev_append E K sn k q cutoff s = (s', Inr l)"
  shows "log_validate E l sn = Inr () \<and> rq_nkey q \<in> log_keys l \<and>
    (\<exists>bs. view s' ''revocations'' = Some bs \<and> decode E bs = Inr (RevocationLog l))"
  using rev_append_loop_durable[OF assms(1,2)] assms(3) unfolding rev_append_def by blast

lemma s_rev_candidate:
  "rev_append_candidate d_ext sn1 directory_keys request1 9 [4] = Inr (rl1, Some [5])"
proof -
  have "log_signed d_ext [rev1] directory_keys = Inr rl1"
    by (simp add: log_signed_def rev_checkpoint_bytes_def pc_def sign_with_def directory_keys_def
        rl1_eq encode_def VERSION_def MAX_WIRE_def)
  moreover have "rl_entries rl0 = []" "\<lparr>rv_request = request1, rv_chat_cutoff = 9\<rparr> = rev1"
    by (simp_all add: rl0_def rev1_def)
  ultimately show ?thesis
    using s_request[of "()"] by (simp add: rev_append_candidate_def decode_revocations_def as_revocation_log_def log_keys_def
        encode_def VERSION_def pc_def MAX_WIRE_def)
qed

theorem revocation_append_durable_witness:
  "log_validate d_ext rl1 sn1 = Inr () \<and> rq_nkey request1 \<in> log_keys rl1 \<and>
    (\<exists>bs. mem_view [(''revocations'', [5], 2), (''revocations'', [4], 1)] ''revocations'' = Some bs \<and>
       decode d_ext bs = Inr (RevocationLog rl1))"
proof (rule revocation_append_durable[OF s_ext_roundtrip mem_kv_acks])
  show "rev_append d_ext mem_kv sn1 directory_keys request1 9 [(''revocations'', [4], 1)] =
      ([(''revocations'', [5], 2), (''revocations'', [4], 1)], Inr rl1)"
    using s_rev_candidate by (simp add: rev_append_def mem_kv_def numeral_eq_Suc)
qed

end
