(* ===== verification/Audit_Properties.thy ===== *)
theory Audit_Properties
  imports Sample
begin

text \<open>
  The properties of admission rates, of the capacity policy and of the audit store, each with an
  instance on which its hypotheses hold.
\<close>

section \<open>Concrete states\<close>

definition store1 :: string where
  "store1 = replicate 32 CHR ''0''"

definition env1 :: audit_env where
  "env1 = \<lparr>ae_now = None, ae_instance = Some store1, ae_opaque = Some store1\<rparr>"

definition record1 :: audit_record where
  "record1 = make_record env1 store1 1 store1 store1 (committed StorageRecovered)"

definition a_ext :: authority_ext where
  "a_ext = s_ext (authority_ext.fields (\<lambda>r. if r = record1 then Some ''{}'' else None)
     (\<lambda>s. if s = ''{}'' then Some record1 else None) (\<lambda>k. Some ''kind''))"

lemma a_ext_json [simp]:
  "json_record a_ext r = (if r = record1 then Some ''{}'' else None)"
  "json_parse a_ext s = (if s = ''{}'' then Some record1 else None)"
  "json_kind a_ext k = Some ''kind''"
  by (simp_all add: a_ext_def s_ext_def authority_ext.fields_def)

definition audit0 :: audit_db where
  "audit0 = \<lparr>ad_schema = 3, ad_store_id = store1, ad_next_sequence = 1, ad_retained_from = 1,
     ad_events_count = 0, ad_bytes = 0, ad_gaps = True, ad_policy_version = 1, ad_prune_through = 0,
     ad_degraded = False, ad_pending = [], ad_events = []\<rparr>"

lemma store1_ok [simp]: "reference_ok store1"
  by (simp add: reference_ok_def store1_def is_hex_lower_def is_ascii_digit_def byte_of_def numeral_eq_Suc)

lemma env1_ok [simp]: "env_ok env1"
  by (simp add: env_ok_def env1_def)

lemma audit0_inv [simp]: "audit_inv E audit0"
  by (simp add: audit_inv_def audit_meta_ok_def audit_rows_ok_def audit0_def I64_MAX_def)

definition small_pages :: "'a \<Rightarrow> nat \<times> nat option" where
  "small_pages x = (1, Some 4096)"

section \<open>Rates and capacity\<close>

text \<open>Whatever the clock does, a fresh token bucket of rate \<open>rate\<close> and burst \<open>burst\<close> admits at most
  \<open>burst + rate * elapsed seconds\<close> requests, with \<open>elapsed\<close> up to the latest clock reading.\<close>

theorem rate_limit_bound:
  "snd (admitted ts (rate_new rate burst t0)) * 1000000000 \<le>
     unat burst * 1000000000 + unat rate * (rt_last (fst (admitted ts (rate_new rate burst t0))) - t0)"
proof -
  have u: "unat burst < 2 ^ 32" using unsigned_less[of burst, where ?'a = nat] by simp
  then have "take_bit 64 (unat burst) = unat burst" by (simp add: take_bit_nat_eq_self_iff)
  with u have b: "unat (rt_tokens (rate_new rate burst t0)) = unat burst * 1000000000"
    by (simp add: rate_new_def unat_word_ariths unsigned_ucast_eq)
  have r: "unat (rt_rate (rate_new rate burst t0)) = unat rate"
    using unsigned_less[of rate, where ?'a = nat]
    by (simp add: rate_new_def unsigned_ucast_eq take_bit_nat_eq_self_iff)
  have l: "rt_last (rate_new rate burst t0) = t0" by (simp add: rate_new_def)
  obtain r' n where a: "admitted ts (rate_new rate burst t0) = (r', n)" by fastforce
  from admitted_account[OF a] show ?thesis by (simp add: a b r l)
qed

text \<open>C39: The token bucket at the widths of the source (saturating \<open>u64\<close> and \<open>u128\<close> arithmetic) is the
  bucket over the natural numbers: no intermediate product or sum changes an answer.\<close>

theorem rate_limit_refines: "map_prod abs_rate id (allow now r) = bucket_allow now (abs_rate r)"
  by (rule allow_refines)

text \<open>Under a valid capacity policy a write that passes the ordinary database check leaves the whole
  recovery reserve free and also passes the check of the recovery operations.\<close>

theorem ordinary_writes_keep_reserve:
  assumes "capacity_validate c = Inr ()" "check_database c (pages, Some sz) False = Inr ()"
  shows "pages * sz + recovery_bytes c \<le> database_bytes c \<and> check_database c (pages, Some sz) True = Inr ()"
proof -
  have "recovery_bytes c < database_bytes c" using assms(1) by (simp add: capacity_validate_ok)
  then show ?thesis
    using assms(2) check_database_mono[OF assms(2)]
    by (simp add: check_database_ok database_limit_def) linarith
qed

lemma default_capacity_valid: "capacity_validate default_capacity = Inr ()"
  by (simp add: capacity_validate_ok ranges_ok_def broker_budgets_ok_def default_capacity_def)

lemma default_database [simp]: "check_database default_capacity (small_pages x) reserve = Inr ()"
  by (simp add: check_database_def small_pages_def database_limit_def default_capacity_def U64_MAX_def)

theorem ordinary_writes_keep_reserve_witness:
  "1 * 4096 + recovery_bytes default_capacity \<le> database_bytes default_capacity \<and>
    check_database default_capacity (1, Some 4096) True = Inr ()"
  using ordinary_writes_keep_reserve[OF default_capacity_valid, of 1 4096] default_database[of "()" False]
  by (simp add: small_pages_def)

section \<open>The audit store\<close>

definition rows1 :: audit_db where
  "rows1 = audit0\<lparr>ad_next_sequence := 2, ad_events_count := 1, ad_bytes := 2, ad_prune_through := 1,
     ad_events := [(1, ''{}'')]\<rparr>"

lemma rows1_inv [simp]: "audit_inv a_ext rows1"
  by (auto simp: audit_inv_def audit_meta_ok_def audit_rows_ok_def rows1_def audit0_def I64_MAX_def
      MAX_EVENTS_def MAX_BYTES_def MAX_EVENT_BYTES_def payload_bytes_def row_bound_def record_bound_def
      record1_def make_record_def numeral_2_eq_2 intro!: exI[of _ record1])

lemma a_ext_roundtrip [simp]: "json_roundtrip a_ext"
  by (simp add: json_roundtrip_def)

text \<open>C32: Along every run of the operations of the audit store (batches, single and correlated events,
  repairs, retention changes, pruning, recovery, effects and their results; failing ones roll
  back) the retained sequence numbers stay contiguous up to the counter, the stored counters are
  the exact number and size of the rows, both stay within the limits, and every row is a record
  of this store under its own sequence number.\<close>

theorem audit_history:
  assumes "audit_inv E db" "list_all op_env_ok ops" "foldl (commit_step (audit_tx E c P)) db ops = db'"
  shows "map fst (ad_events db') = [ad_retained_from db'..<ad_next_sequence db'] \<and>
    ad_events_count db' = length (ad_events db') \<and> length (ad_events db') \<le> MAX_EVENTS \<and>
    ad_bytes db' = payload_bytes (ad_events db') \<and> payload_bytes (ad_events db') \<le> MAX_BYTES \<and>
    list_all (row_bound E (ad_store_id db')) (ad_events db') \<and> (\<exists>st. audit_info db' = Inr st)"
proof -
  have i: "audit_inv E db'" using audit_store.committed_run.run_inv[OF assms(1,2), of c P] assms(3) by simp
  then obtain st where "audit_info db' = Inr st" using audit_info_ok audit_inv_def by metis
  with i show ?thesis by (simp add: audit_inv_def audit_rows_ok_def audit_meta_ok_def)
qed

lemma append1:
  "append_operation a_ext env1 (committed StorageRecovered) False store1 audit0 =
     Inr (1, rows1\<lparr>ad_prune_through := 0\<rparr>)"
proof -
  have "audit_info audit0 = Inr \<lparr>in_schema = 1, in_store_id = store1, in_retained_from = 1, in_upper_sequence = 0,
      in_events = 0, in_bytes = 0, in_event_limit = MAX_EVENTS, in_byte_limit = MAX_BYTES, in_known_coverage_gaps = True, in_policy_version = 1,
      in_prune_through = 0, in_unresolved_effects = 0, in_degraded = False\<rparr>"
    by (simp add: audit_info_def audit0_def reference_try_from_def I64_MAX_def Let_def)
  then show ?thesis
    by (simp add: append_operation_def reference_try_from_def env1_def record1_def[unfolded env1_def, symmetric]
        insert_event_def insert_row_def I64_MAX_def MAX_EVENT_BYTES_def event_limit_def byte_limit_def
        MAX_EVENTS_def MAX_BYTES_def RESERVE_EVENTS_def RESERVE_BYTES_def Let_def)
      (simp add: rows1_def audit0_def record1_def env1_def)
qed

theorem audit_history_witness:
  "length (ad_events (rows1\<lparr>ad_prune_through := 0\<rparr>)) \<le> MAX_EVENTS \<and>
    list_all (row_bound a_ext store1) (ad_events (rows1\<lparr>ad_prune_through := 0\<rparr>))"
proof -
  have "foldl (commit_step (audit_tx a_ext default_capacity small_pages)) audit0
      [OpCorrelated env1 (committed StorageRecovered) store1] = rows1\<lparr>ad_prune_through := 0\<rparr>"
    by (simp add: commit_step_def audit_correlated_def append1)
  from audit_history[OF audit0_inv _ this] show ?thesis
    by (simp add: rows1_def audit0_def)
qed

text \<open>C35: An export over a consistent store always succeeds and returns exactly the payloads of the
  retained rows after the cursor, in order and without gaps, up to the limit; the continuation
  cursor is the sequence number of the last row written.\<close>

theorem audit_export_complete:
  assumes "audit_inv E db" "json_roundtrip E" "1 \<le> limit" "limit \<le> 10000"
    "ad_retained_from db - 1 \<le> after" "after \<le> upper" "upper < ad_next_sequence db"
    "n = min limit (upper - after)"
  shows "\<exists>m. audit_export E db (ad_store_id db) after upper limit =
      Inr (map snd (take n (drop (Suc after - ad_retained_from db) (ad_events db))), m) \<and>
    mf_count m = n \<and> mf_continuation_cursor m = after + n \<and>
    map fst (take n (drop (Suc after - ad_retained_from db) (ad_events db))) = [Suc after..<Suc after + n]"
proof -
  obtain st where st: "audit_info db = Inr st" using audit_info_ok assms(1) audit_inv_def by metis
  note f = audit_info_fields[OF st]
  have r: "ad_retained_from db \<le> Suc after" using assms(5) by simp
  then have loop: "export_loop E db (ad_store_id db) upper limit 0 after =
      Inr (map snd (take n (drop (Suc after - ad_retained_from db) (ad_events db))), 0 + n, after + n)"
    using assms by (intro export_loop_ok) auto
  have "ad_retained_from db + (Suc after - ad_retained_from db) = Suc after" using r by simp
  moreover have "min (Suc after + n) (ad_next_sequence db) = Suc after + n" using assms(6-8) by linarith
  ultimately have "map fst (take n (drop (Suc after - ad_retained_from db) (ad_events db))) = [Suc after..<Suc after + n]"
    using contiguous_slice[OF audit_rowsD(1)[OF assms(1)], of n "Suc after - ad_retained_from db"] by metis
  moreover have "upper \<le> in_upper_sequence st" using assms(7) f(3) by linarith
  ultimately show ?thesis
    using assms(3-6) st loop f by (simp add: audit_export_def)
qed

theorem audit_export_complete_witness:
  "\<exists>m. audit_export a_ext rows1 (ad_store_id rows1) 0 1 10 =
      Inr (map snd (take 1 (drop (Suc 0 - ad_retained_from rows1) (ad_events rows1))), m) \<and>
    mf_count m = 1 \<and> mf_continuation_cursor m = 0 + 1 \<and>
    map fst (take 1 (drop (Suc 0 - ad_retained_from rows1) (ad_events rows1))) = [Suc 0..<Suc 0 + 1]"
  by (rule audit_export_complete[OF rows1_inv a_ext_roundtrip]) (simp_all add: rows1_def audit0_def)

text \<open>One encodable event, with the randomness it needs at hand.\<close>

definition recordable :: "'z authority_ext_scheme \<Rightarrow> audit_env \<Rightarrow> event \<Rightarrow> bool" where
  "recordable E env ev \<longleftrightarrow> (\<exists>i operation. ae_instance env = Some i \<and> ae_opaque env = Some operation \<and>
     reference_ok i \<and> reference_ok operation \<and>
     (\<forall>store q. \<exists>p. json_record E (make_record env store q i operation ev) = Some p \<and>
        length p \<le> MAX_EVENT_BYTES))"

lemma repair_records:
  assumes "audit_inv E db" "recordable E env ev" "ad_next_sequence db < I64_MAX"
    "ad_events_count db < MAX_EVENTS" "ad_bytes db + MAX_EVENT_BYTES \<le> MAX_BYTES"
    "\<And>d. check_database c (P d) True = Inr ()"
  obtains p where "length p \<le> MAX_EVENT_BYTES" "audit_inv E (repair E env c P ev db)"
    "repair E env c P ev db = db\<lparr>ad_events := ad_events db @ [(ad_next_sequence db, p)],
       ad_next_sequence := ad_next_sequence db + 1, ad_events_count := ad_events_count db + 1,
       ad_bytes := ad_bytes db + length p\<rparr>"
proof -
  obtain i operation where e: "ae_instance env = Some i" "ae_opaque env = Some operation" "reference_ok i"
      "reference_ok operation"
    and j: "\<And>store q. \<exists>p. json_record E (make_record env store q i operation ev) = Some p \<and> length p \<le> MAX_EVENT_BYTES"
    using assms(2) by (auto simp: recordable_def)
  obtain st where st: "audit_info db = Inr st" using assms(1) audit_info_ok audit_inv_def by metis
  note f = audit_info_fields[OF st]
  obtain p where p: "json_record E (make_record env (ad_store_id db) (ad_next_sequence db) i operation ev) = Some p"
    "length p \<le> MAX_EVENT_BYTES" using j by blast
  have "ad_next_sequence db \<notin> fst ` set (ad_events db)" using audit_rowsD(3)[OF assms(1)] by force
  then have ins: "insert_event (ad_next_sequence db) p db = Inr (db\<lparr>ad_events := ad_events db @ [(ad_next_sequence db, p)],
       ad_next_sequence := ad_next_sequence db + 1, ad_events_count := ad_events_count db + 1,
       ad_bytes := ad_bytes db + length p\<rparr>)" (is "_ = Inr ?d")
    by (simp add: insert_event_ok)
  have q: "Suc (in_upper_sequence st) = ad_next_sequence db" using f(3,4) by simp
  have "append_operation E env ev True operation db = Inr (ad_next_sequence db, ?d)"
    using e p assms(3-5) ins st f(1,5,6)
    by (simp add: append_operation_def Let_def reference_try_from_def event_limit_def byte_limit_def q)
  then have r: "repair E env c P ev db = ?d"
    using e(2) assms(6) by (simp add: repair_def audit_append_def)
  have "env_ok env" using e by (simp add: env_ok_def)
  with r p(2) show ?thesis using that repair_inv[OF _ assms(1)] by metis
qed

text \<open>The reserve is large enough for what it is reserved for: when ordinary events have left it
  free, up to \<open>RESERVE_EVENTS\<close> repairs, each of the largest admissible size, are all recorded, one
  row each, and none of them marks the store as degraded.\<close>

theorem reserve_suffices:
  assumes "audit_inv E db" "ad_events_count db + RESERVE_EVENTS \<le> MAX_EVENTS"
    "ad_bytes db + RESERVE_BYTES \<le> MAX_BYTES" "length xs \<le> RESERVE_EVENTS"
    "ad_next_sequence db + length xs \<le> I64_MAX" "list_all (\<lambda>(env, ev). recordable E env ev) xs"
    "\<And>d. check_database c (P d) True = Inr ()"
  shows "\<exists>rows. length rows = length xs \<and>
    ad_events (foldl (\<lambda>d (env, ev). repair E env c P ev d) db xs) = ad_events db @ rows \<and>
    ad_degraded (foldl (\<lambda>d (env, ev). repair E env c P ev d) db xs) = ad_degraded db"
proof -
  have "\<exists>rows. length rows = length xs \<and>
      ad_events (foldl (\<lambda>d (env, ev). repair E env c P ev d) db xs) = ad_events db @ rows \<and>
      ad_degraded (foldl (\<lambda>d (env, ev). repair E env c P ev d) db xs) = ad_degraded db"
    if "audit_inv E db" "ad_events_count db + length xs \<le> MAX_EVENTS"
      "ad_bytes db + length xs * MAX_EVENT_BYTES \<le> MAX_BYTES" "ad_next_sequence db + length xs \<le> I64_MAX"
      "list_all (\<lambda>(env, ev). recordable E env ev) xs" for db
    using that
  proof (induction xs arbitrary: db)
    case (Cons x xs)
    obtain env ev where x: "x = (env, ev)" by (cases x)
    with Cons.prems have "recordable E env ev" "ad_next_sequence db < I64_MAX" "ad_events_count db < MAX_EVENTS"
      "ad_bytes db + MAX_EVENT_BYTES \<le> MAX_BYTES" by auto
    then obtain p where p: "length p \<le> MAX_EVENT_BYTES" "audit_inv E (repair E env c P ev db)"
      "repair E env c P ev db = db\<lparr>ad_events := ad_events db @ [(ad_next_sequence db, p)],
         ad_next_sequence := ad_next_sequence db + 1, ad_events_count := ad_events_count db + 1,
         ad_bytes := ad_bytes db + length p\<rparr>"
      using repair_records[OF Cons.prems(1)] assms(7) by metis
    then obtain rows where "length rows = length xs"
      "ad_events (foldl (\<lambda>d (env, ev). repair E env c P ev d) (repair E env c P ev db) xs) =
         ad_events (repair E env c P ev db) @ rows"
      "ad_degraded (foldl (\<lambda>d (env, ev). repair E env c P ev d) (repair E env c P ev db) xs) =
         ad_degraded (repair E env c P ev db)"
      using Cons.IH[of "repair E env c P ev db"] Cons.prems by auto
    then show ?case using p(3) x by (intro exI[of _ "(ad_next_sequence db, p) # rows"]) simp
  qed simp
  moreover have "length xs * MAX_EVENT_BYTES \<le> RESERVE_BYTES"
    using assms(4) by (simp add: RESERVE_EVENTS_def RESERVE_BYTES_def MAX_EVENT_BYTES_def)
  ultimately show ?thesis using assms by simp
qed

definition full_ext :: authority_ext where
  "full_ext = s_ext (authority_ext.fields (\<lambda>r. Some ''{}'') (\<lambda>s. Some record1) (\<lambda>k. Some ''kind''))"

lemma recordable1: "recordable full_ext env1 ev"
  by (simp add: recordable_def env1_def full_ext_def s_ext_def authority_ext.fields_def MAX_EVENT_BYTES_def)

theorem reserve_suffices_witness:
  "\<exists>rows. length rows = 2 \<and>
    ad_events (foldl (\<lambda>d (env, ev). repair full_ext env default_capacity small_pages ev d) audit0
      [(env1, committed DeviceRevoked), (env1, committed DeviceRevoked)]) = rows"
  using reserve_suffices[OF audit0_inv _ _ _ _ _ default_database,
      of "[(env1, committed DeviceRevoked), (env1, committed DeviceRevoked)]" full_ext id]
  by (simp add: recordable1 audit0_def RESERVE_EVENTS_def MAX_EVENTS_def RESERVE_BYTES_def MAX_BYTES_def I64_MAX_def)

text \<open>Pruning never goes beyond the explicit retention policy: one invocation removes the oldest
  rows only, at most 256 of them and each at or below the requested boundary, keeps all others in
  place, and appends one row, its own record, exactly when it removed something.\<close>

theorem prune_bounded:
  assumes "audit_inv E db" "prune E env t apply_it db = Inr (s, db')"
  shows "t \<le> ad_prune_through db \<and> pr_deleted s \<le> 256 \<and>
    list_all (\<lambda>r. fst r \<le> t) (take (pr_deleted s) (ad_events db)) \<and>
    (\<exists>new. ad_events db' = drop (pr_deleted s) (ad_events db) @ new \<and>
       length new = (if pr_deleted s = 0 then 0 else 1))"
proof -
  obtain st where st: "audit_info db = Inr st" "t \<le> in_prune_through st"
    using assms(2) by (auto simp: prune_def result_simps)
  then have t: "t \<le> ad_prune_through db" using audit_info_fields(8) by simp
  show ?thesis
  proof (cases "\<not> apply_it \<or> count_where (\<lambda>(q, _). q \<le> t) (ad_events db) = 0")
    case True
    then have "db' = db" "pr_deleted s = 0" using assms(2) by (auto simp: prune_def result_simps Let_def)
    then show ?thesis using t by simp
  next
    case False
    then obtain x where x: "x \<in> set (ad_events db)" "fst x \<le> t"
      by (auto simp: count_where_def filter_empty_conv)
    then have ne: "ad_retained_from db \<le> t" "ad_events db \<noteq> []"
      using audit_rowsD(3)[OF assms(1) x(1)] by auto
    let ?r = "ad_retained_from db"
    define n where "n = min 256 (min (Suc t - ?r) (length (ad_events db)))"
    from assms(2) False obtain policy s0 where "prune_tx E env t policy s0 db = Inr (s, db')"
      by (auto simp: prune_def result_simps Let_def split: if_splits)
    then obtain ev q where a: "audit_append E env ev True (drop_prefix n db) = Inr (q, db')"
      and s: "pr_deleted s = n"
      unfolding prune_tx_effect[OF assms(1) ne] n_def[symmetric] by (auto simp: result_simps)
    then obtain operation where "append_operation E env ev True operation (drop_prefix n db) = Inr (q, db')"
      by (auto simp: audit_append_def result_simps)
    then obtain p where ev: "ad_events db' = drop n (ad_events db) @ [(q, p)]"
      by (elim append_operation_ok) (simp add: drop_prefix_def)
    have "map fst (take n (ad_events db)) = [?r..<?r + n]"
      using contiguous_slice[OF audit_rowsD(1)[OF assms(1)], of n 0] audit_rowsD(2)[OF assms(1)]
      by (simp add: n_def min_def)
    then have "fst ` set (take n (ad_events db)) = {?r..<?r + n}" by (metis list.set_map set_upt)
    then have "fst y \<in> {?r..<?r + n}" if "y \<in> set (take n (ad_events db))" for y using that by blast
    moreover have "?r + n \<le> Suc t" using ne(1) by (simp add: n_def)
    ultimately have "\<forall>y \<in> set (take n (ad_events db)). fst y \<le> t" by fastforce
    moreover have "0 < n" using ne by (simp add: n_def)
    ultimately show ?thesis using t s ev by (simp add: list_all_iff n_def)
  qed
qed

lemma prune1:
  "prune full_ext env1 1 True rows1 = Inr (\<lparr>pr_eligible = 1, pr_deleted = 1, pr_retained_from = 2\<rparr>,
     rows1\<lparr>ad_retained_from := 2, ad_next_sequence := 3, ad_events := [(2, ''{}'')]\<rparr>)"
  by (simp add: prune_def prune_tx_def prune_rows_def remove_rows_def audit_append_def append_operation_def
      audit_info_def rows1_def audit0_def env1_def reference_try_from_def full_ext_def s_ext_def authority_ext.fields_def
      insert_event_def insert_row_def I64_MAX_def MAX_EVENT_BYTES_def event_limit_def byte_limit_def MAX_EVENTS_def
      MAX_BYTES_def count_where_def delete_where_def Let_def)

lemma rows1_full [simp]: "audit_inv full_ext rows1"
  by (auto simp: audit_inv_def audit_meta_ok_def audit_rows_ok_def rows1_def audit0_def I64_MAX_def
      MAX_EVENTS_def MAX_BYTES_def MAX_EVENT_BYTES_def payload_bytes_def row_bound_def record_bound_def
      record1_def make_record_def numeral_2_eq_2 full_ext_def s_ext_def authority_ext.fields_def
      intro!: exI[of _ record1])

theorem prune_bounded_witness:
  "1 \<le> ad_prune_through rows1 \<and> list_all (\<lambda>r. fst r \<le> 1) (take 1 (ad_events rows1))"
  using prune_bounded[OF rows1_full prune1] by simp

section \<open>External effects\<close>

text \<open>The intent of an external effect is recorded once: after an intent for a kind and target
  succeeded, a second one changes nothing and returns the same operation, until a successful
  result of that operation is recorded, which removes exactly its pending entries.\<close>

theorem effect_once:
  assumes "audit_inv E db" "audit_effect_inner E env c P k target reserve who db = (db1, Inr operation)"
  shows "audit_effect_inner E env' c P k target reserve' who' db1 = (db1, Inr operation) \<and>
    (effect_result_attempt E env'' c P k operation True db1 = Inr db2 \<longrightarrow>
       ad_pending db2 = filter (\<lambda>r. snd r \<noteq> operation) (ad_pending db1))"
proof -
  have a: "effect_attempt E env c P k target reserve who db = Inr (operation, db1)"
    using assms(2) by (auto simp: audit_effect_inner_def split: sum.splits prod.splits)
  then obtain label where l: "effect_label E k target = Inr label" by (auto simp: effect_attempt_def result_simps)
  have "\<exists>r. select_one (\<lambda>r. fst r = label) (ad_pending db1) = Some (r, operation)"
  proof (cases "select_one (\<lambda>r. fst r = label) (ad_pending db)")
    case None
    then obtain q d ps where "append_operation E env (intent_event k target who) reserve operation db = Inr (q, d)"
      and ps: "insert_row fst (label, operation) (ad_pending d) = Inr ps" "db1 = d\<lparr>ad_pending := ps\<rparr>"
      using a l by (auto simp: effect_attempt_def result_simps Let_def)
    then have "ad_pending db1 = ad_pending db @ [(label, operation)]"
      using append_operation_pending by (fastforce simp: insert_row_ok)
    with None show ?thesis by (simp add: select_one_append)
  next
    case (Some r)
    then show ?thesis using a l by (auto simp: effect_attempt_def split: prod.splits)
  qed
  then have "effect_attempt E env' c P k target reserve' who' db1 = Inr (operation, db1)"
    using l by (auto simp: effect_attempt_def)
  moreover have "ad_pending db2 = filter (\<lambda>r. snd r \<noteq> operation) (ad_pending db1)"
    if r: "effect_result_attempt E env'' c P k operation True db1 = Inr db2"
  proof -
    obtain q d where "append_operation E env'' (effect_result_event k True) True operation db1 = Inr (q, d)"
      "db2 = d\<lparr>ad_pending := delete_where (\<lambda>r. snd r = operation) (ad_pending d)\<rparr>"
      using r by (auto simp: effect_result_attempt_def result_simps Let_def)
    then show ?thesis using append_operation_pending by (fastforce simp: delete_where_def)
  qed
  ultimately show ?thesis by (simp add: audit_effect_inner_def)
qed

definition pending1 :: audit_db where
  "pending1 = audit0\<lparr>ad_next_sequence := 2, ad_events_count := 1, ad_bytes := 2, ad_events := [(1, ''{}'')],
     ad_pending := [(''kind:'', store1)]\<rparr>"

theorem effect_once_witness:
  "audit_effect_inner full_ext env1 default_capacity small_pages Reconciliation None True None pending1 =
     (pending1, Inr store1)"
proof -
  have "audit_effect_inner full_ext env1 default_capacity small_pages Reconciliation None True None audit0 =
      (pending1, Inr store1)"
    by (simp add: audit_effect_inner_def effect_attempt_def effect_label_def append_operation_def
        audit_info_def audit0_def env1_def reference_try_from_def full_ext_def s_ext_def authority_ext.fields_def
        insert_event_def insert_row_def I64_MAX_def MAX_EVENT_BYTES_def event_limit_def byte_limit_def MAX_EVENTS_def
        MAX_BYTES_def Let_def pending1_def)
  from effect_once[OF audit0_inv this] show ?thesis by blast
qed

end
