(* ===== verification/Registry_Properties.thy ===== *)
theory Registry_Properties
  imports Audit_Properties
begin

text \<open>
  The properties of the authority registry, of group authorization and of the Welcome relay, each
  with an instance on which its hypotheses hold.
\<close>

section \<open>A concrete registry\<close>

definition gid1 :: string where
  "gid1 = replicate 32 CHR ''b''"

definition renv1 :: registry_env where
  "renv1 = \<lparr>re_now = Some 5, re_now_tx = Some 5, re_user_bytes = None, re_token_bytes = None, re_ref = store1,
     re_instant = 0, re_audit = env1\<rparr>"

definition token1 :: string where
  "token1 = ''EG1.'' @ user1 @ ''.'' @ replicate 52 CHR ''A''"

definition phone1 :: device_row where
  "phone1 = \<lparr>dv_nkey = key1, dv_user = user1, dv_device_id = ''phone'', dv_registration = [1], dv_ready = True,
     dv_revoked = False, dv_generation = 1, dv_ref = store1\<rparr>"

definition registry1 :: registry where
  "registry1 = \<lparr>rg_users = [\<lparr>ur_id = user1, ur_enabled = True, ur_ref = store1\<rparr>], rg_bindings = [],
     rg_tokens = [\<lparr>tk_digest = s_root (as_bytes token1), tk_user = user1, tk_expires = 9, tk_used_key = Some key1\<rparr>],
     rg_devices = [phone1], rg_groups = [], rg_members = [], rg_audit = audit0,
     rg_capacity = default_capacity, rg_rates = []\<rparr>"

lemma lower_A: "to_ascii_lower (replicate 26 CHR ''A'') = replicate 26 CHR ''a''"
  by code_simp

lemma user1_canonical: "user_id_try_from (s_ext m) user1 = Inr user1"
  using lower_A by (simp add: user_id_try_from_def user1_def starts_with_def Let_def)

lemma encode1: "encode (s_ext m) (Register reg1) = Inr [1]"
  by (simp add: encode_ok MAX_WIRE_def VERSION_def)

lemma phone1_ok: "device_ok (s_ext m) phone1"
  using user1_canonical reg1_signed encode1
  by (auto simp: device_ok_def phone1_def intro!: exI[of _ reg1]) (simp_all add: reg1_def payload1_def)

lemma registry1_inv: "reg_inv full_ext registry1"
  using phone1_ok
  by (simp add: reg_inv_def reg_tables_def reg_defs reg_limits_def reg_rates_def registry_usage_def registry1_def
      full_ext_def max_group_def count_where_def default_capacity_def REGISTRATION_BYTES_def)
   (simp add: phone1_def)

lemma renv1_ok: "env_ok (re_audit renv1)"
  by (simp add: renv1_def)

lemma full_roundtrip: "postcard_roundtrip full_ext"
  by (simp add: full_ext_def s_ext_roundtrip)

section \<open>The registry\<close>

text \<open>C2: Along every sequence of invitations, enrollments, activations, revocations and policy updates,
  successful or not, the registry keeps its keys unique and its references resolved, stays within
  the declared limits, lists only live devices as members and coordinators, and never loses a
  row, un-revokes a device, frees a consumed token or lowers a generation or an epoch.\<close>

theorem registry_history:
  assumes "reg_inv E r" "list_all registry_env_ok ops"
  shows "reg_inv E (foldl (registry_step E P) r ops) \<and> reg_le r (foldl (registry_step E P) r ops)"
  using registry_machine.run_inv[OF assms] registry_machine.run_le[OF assms] by blast

theorem registry_history_witness:
  "reg_inv full_ext (foldl (registry_step full_ext small_pages) registry1 [RevokeDevice renv1 key1, Activate renv1 key1]) \<and>
    reg_le registry1 (foldl (registry_step full_ext small_pages) registry1 [RevokeDevice renv1 key1, Activate renv1 key1])"
  by (rule registry_history[OF registry1_inv]) (simp add: renv1_ok)

lemma active_enrollment_keys:
  assumes "active_enrollment r k = Some key"
  shows "\<exists>d \<in> set (rg_devices r). dv_nkey d = key \<and> \<not> dv_revoked d"
proof -
  have "\<exists>d \<in> set ds. dv_nkey d = key"
    if "fold (\<lambda>d m. m(device_key (dv_user d) (dv_device_id d) \<mapsto> dv_nkey d)) ds m k = Some key" "m k \<noteq> Some key"
    for ds and m :: "string \<Rightarrow> string option"
    using that by (induction ds arbitrary: m) (fastforce split: if_splits)+
  then show ?thesis using assms unfolding active_enrollment_def enrollment_records_def by fastforce
qed

lemma authorize_iff:
  assumes "reg_inv E r" "postcard_roundtrip E"
  shows "authorize E r key = Inr a \<longleftrightarrow> (\<exists>d \<in> set (rg_devices r). dv_nkey d = key \<and> dv_ready d \<and> \<not> dv_revoked d \<and>
    user_enabled r (dv_user d) \<and> a = \<lparr>da_user = dv_user d, da_device = dv_device_id d, da_nkey = key,
      da_generation = dv_generation d\<rparr>)"
proof -
  have row: "authorize E r key = Inr \<lparr>da_user = dv_user d, da_device = dv_device_id d, da_nkey = key,
      da_generation = dv_generation d\<rparr>"
    if d: "d \<in> set (rg_devices r)" "dv_nkey d = key" "dv_ready d" "\<not> dv_revoked d" "user_enabled r (dv_user d)" for d
  proof -
    have "distinct (map dv_nkey (rg_devices r))"
      using assms(1) by (simp add: reg_inv_def reg_tables_def reg_keys_def)
    then have "x = d" if "x \<in> set (rg_devices r)" "dv_nkey x = key" for x
      using that d distinct_key_eq by metis
    moreover obtain x where x: "select_one (admitted_row r key) (rg_devices r) = Some x"
      using d by (cases "select_one (admitted_row r key) (rg_devices r)") (auto simp: select_one_None admitted_row_def)
    ultimately have s: "select_one (admitted_row r key) (rg_devices r) = Some d"
      using select_one_Some[OF x] by (auto simp: admitted_row_def)
    obtain g where "encode E (Register g) = Inr (dv_registration d)" "verify_signature E g = Inr ()"
        "rp_nats_public_key (dr_payload g) = dv_nkey d" "rp_user_id (dr_payload g) = dv_user d"
        "rp_device_id (dr_payload g) = dv_device_id d" "dv_generation d > 0"
        "user_id_try_from E (dv_user d) = Inr (dv_user d)"
      using assms(1) d(1) by (auto simp: reg_inv_def reg_tables_def list_all_iff device_ok_def)
    then show ?thesis using s d(2) decode_encode[OF assms(2)] by (simp add: authorize_def as_register_def Let_def)
  qed
  have "\<exists>d \<in> set (rg_devices r). dv_nkey d = key \<and> dv_ready d \<and> \<not> dv_revoked d \<and> user_enabled r (dv_user d)"
    if "authorize E r key = Inr a"
    using that by (auto simp: authorize_def result_simps admitted_row_def dest!: select_one_Some)
  then show ?thesis using row by fastforce
qed

lemma admitted_iff:
  assumes "reg_inv E r" "postcard_roundtrip E"
  shows "is_ok (authorize E r key) \<longleftrightarrow> (\<exists>d \<in> set (rg_devices r). dv_nkey d = key \<and> dv_ready d \<and> \<not> dv_revoked d \<and>
    user_enabled r (dv_user d))"
  unfolding is_ok_iff authorize_iff[OF assms] by blast

text \<open>C3: Revocation is final. After \<open>revoke\<close> succeeded for an enrolled key, no later sequence of
  operations makes \<open>authorize\<close> admit it, puts it into a group or makes it coordinator of one, or
  lists it in the active enrollment.\<close>

theorem revocation_final:
  assumes "reg_inv E r" "env_ok (re_audit env)" "key \<noteq> []" "key \<in> dv_nkey ` set (rg_devices r)"
    "revoke E env P key r = Inr r1" "list_all registry_env_ok ops" "foldl (registry_step E P) r1 ops = r2"
  shows "authorize E r2 key = Inl (Anyhow ''device not admitted'') \<and>
    (\<forall>m \<in> set (rg_members r2). mr_nkey m \<noteq> key) \<and> (\<forall>g \<in> set (rg_groups r2). gr_coordinator g \<noteq> key) \<and>
    (\<forall>k. active_enrollment r2 k \<noteq> Some key)"
proof -
  have g: "reg_good E r r1" by (rule revoke_good[OF assms(5,1,2)])
  then have i1: "reg_inv E r1" and le1: "reg_le r r1" by (auto simp: reg_good_def)
  have i2: "reg_inv E r2" and le2: "reg_le r1 r2"
    using registry_machine.run_inv[OF i1 assms(6), of P] registry_machine.run_le[OF i1 assms(6), of P] assms(7) by auto
  have "key \<in> dv_nkey ` set (rg_devices r1)"
  proof -
    obtain d where "d \<in> set (rg_devices r)" "dv_nkey d = key" using assms(4) by auto
    then obtain d' where "d' \<in> set (rg_devices r1)" "dv_nkey d' = key"
      using le1 by (auto simp: reg_le_def table_le_def device_le_def)
    then show ?thesis by blast
  qed
  then have ret: "retired r2 key" using retired_le[OF le2 revoke_retires[OF assms(5)] _ i2] by blast
  have m: "\<forall>m \<in> set (rg_members r2). mr_nkey m \<noteq> key" using retired_not_member[OF ret i2] by blast
  moreover have "\<forall>g \<in> set (rg_groups r2). gr_coordinator g \<noteq> key"
    using i2 m assms(3) by (auto simp: reg_inv_def reg_tables_def reg_coordinators_def)
  moreover have "active_enrollment r2 k \<noteq> Some key" for k
    using active_enrollment_keys ret by (auto simp: retired_def)
  ultimately show ?thesis using retired_not_authorized[OF ret] by blast
qed

theorem revocation_final_witness:
  "\<exists>r1. revoke full_ext renv1 small_pages key1 registry1 = Inr r1 \<and>
    authorize full_ext (registry_step full_ext small_pages r1 (Activate renv1 key1)) key1 =
      Inl (Anyhow ''device not admitted'')"
proof -
  have k: "key1 \<in> dv_nkey ` set (rg_devices registry1)" by (simp add: registry1_def phone1_def)
  have "rg_capacity (revoke_tables key1 registry1) = default_capacity"
    by (simp add: revoke_tables_fields registry1_def)
  then obtain r1 where r1: "revoke full_ext renv1 small_pages key1 registry1 = Inr r1"
    by (simp add: revoke_def registry1_def phone1_def repair_event_def Let_def)
  have "foldl (registry_step full_ext small_pages) r1 [Activate renv1 key1] =
      registry_step full_ext small_pages r1 (Activate renv1 key1)" by simp
  from revocation_final[OF registry1_inv renv1_ok _ k r1 _ this] r1 show ?thesis
    by (simp add: renv1_ok key1_def)
qed

text \<open>C31: An enrollment token is good for one device. Once a token is consumed by a key, an enrollment
  that presents it in any later state succeeds only for the same key and the identical
  registration, and then leaves every table as it was.\<close>

theorem token_single_use:
  assumes "reg_inv E r" "t \<in> set (rg_tokens r)" "tk_used_key t = Some key" "hash E (as_bytes token) = Inr (tk_digest t)"
    "list_all registry_env_ok ops" "foldl (registry_step E P) r ops = r1" "enroll E env P token registration r1 = Inr r2"
  shows "rp_nats_public_key (dr_payload registration) = key \<and>
    (\<exists>d \<in> set (rg_devices r1). dv_nkey d = key \<and> encode E (Register registration) = Inr (dv_registration d)) \<and>
    (\<exists>a. r2 = r1\<lparr>rg_audit := a\<rparr>)"
proof -
  have i1: "reg_inv E r1" and le: "reg_le r r1"
    using registry_machine.run_inv[OF assms(1,5), of P] registry_machine.run_le[OF assms(1,5), of P] assms(6) by auto
  obtain t1 where t1: "t1 \<in> set (rg_tokens r1)" "token_le t t1"
    using le assms(2) by (auto simp: reg_le_def table_le_def)
  then have f: "tk_digest t1 = tk_digest t" "tk_used_key t1 = Some key"
    using assms(3) by (auto simp: token_le_def)
  have "select_one (\<lambda>x. tk_digest x = tk_digest t1) (rg_tokens r1) = Some t1"
    using i1 t1(1) by (intro select_one_key) (simp_all add: reg_inv_def reg_tables_def reg_keys_def)
  then have u: "Option.bind (select_one (\<lambda>x. tk_digest x = tk_digest t) (rg_tokens r1)) tk_used_key = Some key"
    using f by simp
  from assms(7) obtain encoded where e: "encode E (Register registration) = Inr encoded"
    and "enroll_retry E env P (rp_nats_public_key (dr_payload registration)) encoded key r1 = Inr r2"
    by (auto simp: enroll_def Let_def result_simps assms(4) u)
  then obtain d ev where d: "rp_nats_public_key (dr_payload registration) = key"
      "select_one (\<lambda>d. dv_nkey d = key \<and> \<not> dv_revoked d \<and> user_enabled r1 (dv_user d)) (rg_devices r1) = Some d"
      "dv_registration d = encoded"
    and ev: "record_event E (re_audit env) P ev r1 = Inr r2"
    by (auto simp: enroll_retry_def result_simps)
  from ev obtain a where "r2 = r1\<lparr>rg_audit := a\<rparr>" by (elim record_event_ok) auto
  then show ?thesis using d e select_one_Some[OF d(2)] by blast
qed

lemma event1: "\<exists>a. audit_event full_ext env1 default_capacity (audit_pager small_pages r) ev audit0 = Inr (1, a)"
  by (simp add: audit_event_def audit_append_def append_operation_def audit_info_def audit0_def env1_def
      reference_try_from_def full_ext_def s_ext_def authority_ext.fields_def insert_event_def insert_row_def
      I64_MAX_def MAX_EVENT_BYTES_def event_limit_def byte_limit_def MAX_EVENTS_def MAX_BYTES_def
      RESERVE_EVENTS_def RESERVE_BYTES_def audit_pager_def Let_def)

lemma token1_user: "token_user full_ext token1 = Inr user1"
proof -
  have "split_on CHR ''.'' token1 = [''EG1'', user1, replicate 52 CHR ''A'']" "length token1 = 89"
    by (simp_all add: token1_def user1_def numeral_eq_Suc)
  then show ?thesis using user1_canonical by (simp add: token_user_def full_ext_def)
qed

lemma token1_hash: "hash full_ext (as_bytes token1) = Inr (s_root (as_bytes token1))"
  by (simp add: hash_def full_ext_def s_sha256_def s_root_def min_def) linarith

lemma registry1_fields:
  "rg_audit registry1 = audit0" "rg_capacity registry1 = default_capacity" "rg_devices registry1 = [phone1]"
  "rg_tokens registry1 = [\<lparr>tk_digest = s_root (as_bytes token1), tk_user = user1, tk_expires = 9, tk_used_key = Some key1\<rparr>]"
  "user_enabled registry1 user1"
  by (simp_all add: registry1_def user_enabled_def)

lemma enroll1: "\<exists>r2. enroll full_ext renv1 small_pages token1 reg1 registry1 = Inr r2"
proof -
  have r: "rp_nats_public_key (dr_payload reg1) = key1" "rp_user_id (dr_payload reg1) = user1"
    "rp_generation (dr_payload reg1) = 1" by (simp_all add: reg1_def payload1_def)
  have "verify full_ext reg1 = Inr ()" "encode full_ext (Register reg1) = Inr [1]"
    by (simp_all add: full_ext_def encode1)
  moreover have "\<exists>r2. enroll_retry full_ext renv1 small_pages key1 [1] key1 registry1 = Inr r2"
    using event1[of registry1 "(committed DeviceEnrolled)\<lparr>e_stage := Result, e_reason := IdempotentRetry,
        e_actor := VerifiedDevice, e_actor_reference := Some store1\<rparr>"] registry1_fields
    by (auto simp: enroll_retry_def phone1_def reference_device_def reference_try_from_def record_event_def renv1_def)
  ultimately show ?thesis
    using token1_user token1_hash by (simp add: enroll_def r registry1_fields)
qed

theorem token_single_use_witness:
  "rp_nats_public_key (dr_payload reg1) = key1 \<and> encode full_ext (Register reg1) = Inr (dv_registration phone1)"
proof -
  obtain r2 where "enroll full_ext renv1 small_pages token1 reg1 registry1 = Inr r2" using enroll1 by blast
  from token_single_use[OF registry1_inv _ _ _ _ _ this, of _ key1 "[]"] show ?thesis
    by (simp add: registry1_fields token1_hash)
qed

text \<open>\<open>authorize\<close> is exact: in a consistent registry it admits a key if and only if the key has an
  activated, unrevoked device of an enabled user, and it then returns the user, the device and
  the authorization generation of that device.\<close>

theorem authorize_exact:
  assumes "reg_inv E r" "postcard_roundtrip E"
  shows "authorize E r key = Inr a \<longleftrightarrow> (\<exists>d \<in> set (rg_devices r). dv_nkey d = key \<and> dv_ready d \<and> \<not> dv_revoked d \<and>
    user_enabled r (dv_user d) \<and> a = \<lparr>da_user = dv_user d, da_device = dv_device_id d, da_nkey = key,
      da_generation = dv_generation d\<rparr>)"
  by (rule authorize_iff[OF assms])

theorem authorize_exact_witness:
  "authorize full_ext registry1 key1 =
     Inr \<lparr>da_user = user1, da_device = ''phone'', da_nkey = key1, da_generation = 1\<rparr>"
  unfolding authorize_exact[OF registry1_inv full_roundtrip]
  using registry1_fields by (simp add: phone1_def)

section \<open>Group policies\<close>

text \<open>C25: An accepted policy update was signed by its signer, who is an admitted device; its members are
  admitted, pairwise different and in strictly increasing leaf order. If the group existed, the
  update either repeats the stored one byte for byte or comes from the stored coordinator, against
  the stored generation and with a strictly newer epoch; if not, it creates the group with its
  signer alone.\<close>

theorem policy_authority:
  assumes "reg_inv E r" "apply_policy E env P sp r = (r', Inr n)" "u = sp_update sp"
  shows "n = pu_expected_generation u + 1 \<and>
    (\<exists>bs. policy_bytes E u = Inr bs \<and> nkey_verify E (pu_signer u) bs (sp_signature sp)) \<and>
    is_ok (authorize E r (pu_signer u)) \<and> (\<forall>m \<in> set (pu_members u). live_key r (mb_nkey m)) \<and>
    distinct (map mb_nkey (pu_members u)) \<and> sorted_wrt (<) (map mb_leaf (pu_members u)) \<and>
    (\<forall>g \<in> set (rg_groups r). gr_gid g = pu_gid u \<longrightarrow>
       (gr_generation g = n \<and> pc_policy E u = Some (gr_last_update g)) \<or>
       (gr_generation g = pu_expected_generation u \<and> gr_coordinator g = pu_signer u \<and> gr_epoch g < pu_epoch u)) \<and>
    (pu_gid u \<notin> gr_gid ` set (rg_groups r) \<longrightarrow> is_creation u)"
proof -
  have "apply_policy_inner E env P sp r = (r', Inr n)"
    using assms(2) by (auto simp: apply_policy_def split: sum.splits prod.splits if_splits)
  then obtain bs r1 where q: "policy_request_ok E sp = Inr ()" and a: "is_ok (authorize E r (pu_signer u))"
    and ad: "admit_principal (re_instant env) (pu_signer u) r = (r1, True)"
      "pu_signer u \<in> fst ` set (rg_rates r) \<or> length (rg_rates r) < 32"
    and bs: "pc_policy E u = Some bs" and tx: "policy_tx E env P u bs r1 = Inr (n, r')"
    unfolding assms(3) by (rule apply_policy_inner_ok)
  from ad(1) assms(1) ad(2) obtain rates where r1: "r1 = r\<lparr>rg_rates := rates\<rparr>" by (rule admit_principal_ok)
  have live: "live_key r1 = live_key r" by (rule ext) (simp add: r1 live_key_def)
  have keys: "reg_keys r1" using assms(1) by (simp add: r1 reg_inv_def reg_tables_def reg_keys_def)
  obtain ks c where m: "check_members E r1 {} None (pu_members u) = Inr ks" and c: "check_current r1 u bs = Inr c"
    and n: "n = pu_expected_generation u + 1"
    using tx by (auto simp: policy_tx_def result_simps Let_def split: if_splits)
  have "(gr_generation g = n \<and> pc_policy E u = Some (gr_last_update g)) \<or>
       (gr_generation g = pu_expected_generation u \<and> gr_coordinator g = pu_signer u \<and> gr_epoch g < pu_epoch u)"
    if g: "g \<in> set (rg_groups r)" "gr_gid g = pu_gid u" for g
  proof -
    have "select_one (\<lambda>x. gr_gid x = pu_gid u) (rg_groups r1) = Some g"
      using select_one_key[of gr_gid "rg_groups r1" g] keys g by (simp add: reg_keys_def r1)
    then show ?thesis using c n bs by (auto simp: check_current_def result_simps split: if_splits)
  qed
  moreover have "is_creation u" if "pu_gid u \<notin> gr_gid ` set (rg_groups r)"
  proof -
    have "select_one (\<lambda>g. gr_gid g = pu_gid u) (rg_groups r1) = None"
      unfolding select_one_None using that by (force simp: r1)
    then show ?thesis using c by (simp add: check_current_def result_simps)
  qed
  moreover have "\<exists>bs. policy_bytes E u = Inr bs \<and> nkey_verify E (pu_signer u) bs (sp_signature sp)"
    using q unfolding assms(3) by (auto simp: policy_request_ok_def result_simps Let_def verify_with_def)
  ultimately show ?thesis using check_members_ok[OF m] n a live by simp
qed

lemma upsert_group_row:
  "\<exists>g \<in> set (rg_groups (upsert_group env u bs r)). gr_gid g = pu_gid u \<and>
     gr_generation g = Suc (pu_expected_generation u) \<and> gr_epoch g = pu_epoch u \<and> gr_coordinator g = pu_signer u \<and>
     gr_last_update g = bs"
proof (cases "pu_gid u \<in> gr_gid ` set (rg_groups r)")
  case True
  then obtain g where "g \<in> set (rg_groups r)" "gr_gid g = pu_gid u" by auto
  then show ?thesis using True
    by (intro bexI[of _ "g\<lparr>gr_generation := pu_expected_generation u + 1, gr_epoch := pu_epoch u,
          gr_coordinator := pu_signer u, gr_last_update := bs\<rparr>"])
      (auto simp: upsert_group_def set_update_where intro!: image_eqI[of _ _ g])
qed (simp add: upsert_group_def)

text \<open>A policy update that is accepted as new is what the registry then reports for the group: the
  next generation, the update's epoch and signer, and exactly its members, in leaf order.\<close>

theorem policy_written:
  assumes "reg_inv E r" "apply_policy E env P sp r = (r', Inr n)" "u = sp_update sp"
    "\<And>g. g \<in> set (rg_groups r) \<Longrightarrow> gr_gid g = pu_gid u \<Longrightarrow> gr_generation g \<noteq> n"
  shows "policy_state r' (pu_gid u) = Inr (Some \<lparr>ps_generation = n, ps_epoch = pu_epoch u,
    ps_coordinator = pu_signer u, ps_members = pu_members u\<rparr>)"
proof -
  have "apply_policy_inner E env P sp r = (r', Inr n)"
    using assms(2) by (auto simp: apply_policy_def split: sum.splits prod.splits if_splits)
  then obtain bs r1 where q: "policy_request_ok E sp = Inr ()"
    and ad: "admit_principal (re_instant env) (pu_signer u) r = (r1, True)"
      "pu_signer u \<in> fst ` set (rg_rates r) \<or> length (rg_rates r) < 32"
    and tx: "policy_tx E env P u bs r1 = Inr (n, r')"
    unfolding assms(3) by (rule apply_policy_inner_ok)
  from ad(1) assms(1) ad(2) obtain rates where r1: "r1 = r\<lparr>rg_rates := rates\<rparr>" "reg_inv E r1"
    by (elim admit_principal_ok) (auto simp: reg_good_def)
  have v: "validate_gid (pu_gid u) = Inr ()"
    using q unfolding assms(3) by (auto simp: policy_request_ok_def result_simps Let_def)
  from tx r1(2) show ?thesis
  proof (cases rule: policy_tx_cases)
    case (retry g)
    then show ?thesis using assms(4)[of g] select_one_Some[OF retry(3)] r1 by auto
  next
    case (fresh r2 a)
    let ?rows = "map (as_row (pu_gid u)) (pu_members u)"
    have "filter (\<lambda>m. mr_gid m = pu_gid u) (rg_members r') = ?rows"
      unfolding fresh(3) using fresh(9) by (simp add: delete_where_def filter_map comp_def as_row_def)
    moreover have "sorted (map mr_leaf ?rows)"
      using fresh(12) by (simp add: comp_def as_row_def strict_sorted_imp_sorted)
    then have "sort_key mr_leaf ?rows = ?rows" by (rule sort_key_id_if_sorted)
    moreover have "distinct (map gr_gid (rg_groups r'))"
      using fresh(3,5) by (simp add: reg_tables_def reg_keys_def)
    moreover obtain g where "g \<in> set (rg_groups r')" "gr_gid g = pu_gid u" "gr_generation g = n"
        "gr_epoch g = pu_epoch u" "gr_coordinator g = pu_signer u"
      using upsert_group_row[of env u] fresh(2,3,8) by auto
    moreover have "map (\<lambda>m. \<lparr>mb_nkey = mr_nkey m, mb_leaf = mr_leaf m\<rparr>) ?rows = pu_members u"
      by (simp add: comp_def as_row_def map_idI)
    ultimately show ?thesis
      using v select_one_key[of gr_gid "rg_groups r'" g] by (simp add: policy_state_def)
  qed
qed

definition update1 :: policy_update where
  "update1 = \<lparr>pu_version = 1, pu_gid = gid1, pu_expected_generation = 0, pu_epoch = 0, pu_signer = key1,
     pu_members = [\<lparr>mb_nkey = key1, mb_leaf = 0\<rparr>]\<rparr>"

definition policy1 :: signed_policy where
  "policy1 = \<lparr>sp_update = update1, sp_signature = as_bytes key1\<rparr>"

definition rates1 :: "(string \<times> rate_limit) list" where
  "rates1 = [(key1, fst (allow 0 (rate_new 4 16 0)))]"

lemma allow1: "snd (allow 0 (rate_new 4 16 0))"
proof -
  have "unat (rt_tokens (rate_new 4 16 0)) = 16000000000" "unat (rt_burst (rate_new 4 16 0)) = 16000000000"
    "unat (rt_rate (rate_new 4 16 0)) = 4" "rt_last (rate_new 4 16 0) = 0"
    by (simp_all add: rate_new_def)
  then show ?thesis
    using arg_cong[OF allow_refines[of 0 "rate_new 4 16 0"], of snd]
    by (simp add: bucket_allow_def refill_def abs_rate_def)
qed

lemma admit1: "admit_principal 0 key1 registry1 = (registry1\<lparr>rg_rates := rates1\<rparr>, True)"
  using allow1 by (simp add: admit_principal_def registry1_def rates1_def split_beta)

lemma gid1_ok [simp]: "gid_ok gid1"
  by (simp add: gid_ok_def gid1_def is_hex_lower_def is_ascii_digit_def byte_of_def numeral_eq_Suc)

lemma request1_ok: "policy_request_ok full_ext policy1 = Inr ()"
  by (simp add: policy_request_ok_def policy1_def update1_def validate_gid_def full_ext_def key1_def starts_with_def
      policy_bytes_def pc_def verify_with_def I64_MAX_def Let_def)

lemma authorize1:
  "authorize full_ext registry1 key1 = Inr \<lparr>da_user = user1, da_device = ''phone'', da_nkey = key1, da_generation = 1\<rparr>"
  "authorize full_ext (registry1\<lparr>rg_rates := rates1\<rparr>) key1 =
     Inr \<lparr>da_user = user1, da_device = ''phone'', da_nkey = key1, da_generation = 1\<rparr>"
proof -
  have "reg_inv full_ext (registry1\<lparr>rg_rates := rates1\<rparr>)"
    by (rule admit_principal_ok[OF admit1 registry1_inv]) (simp_all add: registry1_def reg_good_def)
  then show "authorize full_ext (registry1\<lparr>rg_rates := rates1\<rparr>) key1 =
     Inr \<lparr>da_user = user1, da_device = ''phone'', da_nkey = key1, da_generation = 1\<rparr>"
    using registry1_fields authorize_iff[OF _ full_roundtrip] by (simp add: phone1_def user_enabled_def)
  show "authorize full_ext registry1 key1 = Inr \<lparr>da_user = user1, da_device = ''phone'', da_nkey = key1, da_generation = 1\<rparr>"
    unfolding authorize_iff[OF registry1_inv full_roundtrip] using registry1_fields by (simp add: phone1_def)
qed

definition written1 :: registry where
  "written1 = registry1\<lparr>rg_rates := rates1, rg_devices := [phone1\<lparr>dv_generation := 2\<rparr>],
     rg_groups := [\<lparr>gr_gid = gid1, gr_generation = 1, gr_epoch = 0, gr_coordinator = key1, gr_last_update = [9],
       gr_ref = store1\<rparr>],
     rg_members := [\<lparr>mr_gid = gid1, mr_nkey = key1, mr_leaf = 0\<rparr>]\<rparr>"

lemma write1: "write_policy renv1 update1 [9] (registry1\<lparr>rg_rates := rates1\<rparr>) = Inr written1"
  by (simp add: write_policy_def update1_def bump_members_def upsert_group_def clear_members_def insert_member_def
      update_where_def delete_where_def insert_row_def update_device_def registry1_def written1_def renv1_def
      phone1_def numeral_2_eq_2)

lemma audit1: "\<exists>a. audit_append full_ext env1 ev False audit0 = Inr (1, a)"
  using event1[of registry1 ev] by (auto simp: audit_event_def result_simps)

lemma tx1: "\<exists>r'. policy_tx full_ext renv1 small_pages update1 [9] (registry1\<lparr>rg_rates := rates1\<rparr>) = Inr (1, r')"
proof -
  let ?r = "registry1\<lparr>rg_rates := rates1\<rparr>"
  have u: "pu_signer update1 = key1" "pu_members update1 = [\<lparr>mb_nkey = key1, mb_leaf = 0\<rparr>]"
    "pu_gid update1 = gid1" "pu_expected_generation update1 = 0" by (simp_all add: update1_def)
  have c: "check_current ?r update1 [9] = Inr False" "\<not> is_reducing ?r update1"
    by (simp_all add: check_current_def registry1_def is_creation_def update1_def is_reducing_def count_where_def)
  have "reference_device written1 key1 = Inr store1" "reference_group written1 gid1 = Inr store1"
    "rg_audit written1 = audit0"
    by (simp_all add: reference_device_def reference_group_def written1_def registry1_def phone1_def reference_try_from_def)
  then obtain a where a: "policy_audit full_ext renv1 small_pages False update1 written1 = Inr (written1\<lparr>rg_audit := a\<rparr>)"
    using audit1[of "policy_event update1 (Some store1) (Some store1)"] u
    by (auto simp: policy_audit_def append_event_def renv1_def)
  have cap: "rg_capacity (written1\<lparr>rg_audit := a\<rparr>) = default_capacity" by (simp add: written1_def registry1_def)
  then have "check_registry small_pages (written1\<lparr>rg_audit := a\<rparr>) = Inr ()"
    by (simp add: check_registry_def registry_usage_def)
      (simp add: written1_def registry1_def phone1_def max_group_def count_where_def default_capacity_def REGISTRATION_BYTES_def)
  with a cap c write1 show ?thesis
    by (auto simp: policy_tx_def u authorize1)
qed

lemma apply1: "\<exists>r'. apply_policy full_ext renv1 small_pages policy1 registry1 = (r', Inr 1)"
proof -
  obtain r' where t: "policy_tx full_ext renv1 small_pages update1 [9] (registry1\<lparr>rg_rates := rates1\<rparr>) = Inr (1, r')"
    using tx1 by blast
  have u: "sp_update policy1 = update1" "pu_signer update1 = key1" "re_instant renv1 = 0"
    "pc (pc_policy full_ext update1) = Inr [9]" "rg_rates registry1 = []"
    by (simp_all add: policy1_def update1_def renv1_def full_ext_def pc_def registry1_def)
  have "apply_policy_inner full_ext renv1 small_pages policy1 registry1 = (r', Inr 1)"
    using t by (simp add: apply_policy_inner_def u request1_ok authorize1 admit1 transaction_def)
  then show ?thesis by (simp add: apply_policy_def)
qed

theorem policy_authority_witness: "is_creation update1 \<and> is_ok (authorize full_ext registry1 key1)"
proof -
  obtain r' where "apply_policy full_ext renv1 small_pages policy1 registry1 = (r', Inr 1)" using apply1 by blast
  from policy_authority[OF registry1_inv this refl] show ?thesis
    by (simp add: policy1_def update1_def registry1_def)
qed

theorem policy_written_witness:
  "\<exists>r'. policy_state r' gid1 = Inr (Some \<lparr>ps_generation = 1, ps_epoch = 0, ps_coordinator = key1,
     ps_members = [\<lparr>mb_nkey = key1, mb_leaf = 0\<rparr>]\<rparr>)"
proof -
  obtain r' where "apply_policy full_ext renv1 small_pages policy1 registry1 = (r', Inr 1)" using apply1 by blast
  from policy_written[OF registry1_inv this refl] show ?thesis
    by (auto simp: policy1_def update1_def registry1_def)
qed

text \<open>Writing a policy moves the generations of devices and nothing else of their rows.\<close>

lemma write_policy_devices:
  assumes "write_policy env u bs r = Inr r'"
  shows "table_le (\<lambda>d d'. device_le d d' \<and> dv_revoked d' = dv_revoked d) (rg_devices r) (rg_devices r')"
    (is "table_le ?le _ _")
proof -
  have trans: "table_le ?le x z" if "table_le ?le x y" "table_le ?le y z" for x y z
    using that row_le_trans(2) unfolding table_le_def by meson
  have bump: "table_le ?le ds (update_where p (\<lambda>d. d\<lparr>dv_generation := dv_generation d + 1\<rparr>) ds)" for p ds
    by (rule table_le_update) (auto simp: device_le_def)
  have ins: "table_le ?le (rg_devices x) (rg_devices y)" if "fold_r (insert_member gid) ms x = Inr y" for gid ms x y
    using that
  proof (induction ms arbitrary: x)
    case (Cons m ms)
    then obtain z where z: "insert_member gid m x = Inr z" "fold_r (insert_member gid) ms z = Inr y"
      by (auto simp: result_simps)
    then have "table_le ?le (rg_devices x) (rg_devices z)"
      using bump by (auto simp: insert_member_def result_simps update_device_def)
    then show ?case using Cons.IH[OF z(2)] trans by blast
  qed (auto simp: table_le_def)
  let ?r = "clear_members (pu_gid u) (upsert_group env u bs (bump_members (pu_gid u) r))"
  have "table_le ?le (rg_devices r) (rg_devices ?r)"
    using bump by (simp add: bump_members_def clear_members_def upsert_group_def)
  moreover have "table_le ?le (rg_devices ?r) (rg_devices r')"
    using assms unfolding write_policy_def by (rule ins)
  ultimately show ?thesis by (rule trans)
qed

lemma policy_tx_devices:
  assumes "policy_tx E env P u bs r = Inr (n, r')" "reg_inv E r"
  shows "rg_users r' = rg_users r \<and> (\<forall>d \<in> set (rg_devices r). \<not> dv_revoked d \<longrightarrow>
      (\<exists>d' \<in> set (rg_devices r'). device_le d d' \<and> \<not> dv_revoked d'))"
  using assms
proof (cases rule: policy_tx_cases)
  case (fresh r1 a)
  have "table_le (\<lambda>d d'. device_le d d' \<and> dv_revoked d' = dv_revoked d) (rg_devices r) (rg_devices r1)"
    using fresh(4) by (rule write_policy_devices)
  then show ?thesis using fresh(3,6) by (auto simp: same_frame_def table_le_def)
qed auto

text \<open>A refused policy update changes no table: whatever the reason, only the audit store and the rate
  limiter of the signer may differ afterwards.\<close>

theorem policy_rejected:
  assumes "reg_inv E r" "apply_policy E env P sp r = (r', Inl e)"
  shows "\<exists>a q. r' = r\<lparr>rg_audit := a, rg_rates := q\<rparr>"
proof -
  obtain r1 where i: "apply_policy_inner E env P sp r = (r1, Inl e)"
    and r': "r' = r1 \<or> (\<exists>ev. record_event E (re_audit env) P ev r1 = Inr r')"
    using assms(2) by (auto simp: apply_policy_def split: sum.splits prod.splits if_splits)
  have "\<exists>q. r1 = r\<lparr>rg_rates := q\<rparr>"
  proof -
    have same: "\<exists>q. r = r\<lparr>rg_rates := q\<rparr>" by (rule exI[of _ "rg_rates r"]) simp
    let ?u = "sp_update sp"
    obtain r2 allowed where ad: "admit_principal (re_instant env) (pu_signer ?u) r = (r2, allowed)" by fastforce
    then have r2: "\<exists>q. r2 = r\<lparr>rg_rates := q\<rparr>" by (auto simp: admit_principal_def Let_def split: prod.splits)
    have "r1 = r \<or> r1 = r2"
      using i ad unfolding apply_policy_inner_def Let_def bind_s_def ensure_s_def
      by (auto split: sum.splits if_splits simp: transaction_def)
    then show ?thesis using same r2 by blast
  qed
  then obtain q where q: "r1 = r\<lparr>rg_rates := q\<rparr>" ..
  from r' show ?thesis
  proof
    assume "r' = r1"
    then show ?thesis using q by (intro exI[of _ "rg_audit r"]) auto
  next
    assume "\<exists>ev. record_event E (re_audit env) P ev r1 = Inr r'"
    then obtain ev where ev: "record_event E (re_audit env) P ev r1 = Inr r'" ..
    then obtain a where "r' = r1\<lparr>rg_audit := a\<rparr>" by (elim record_event_ok) auto
    then show ?thesis using q by (intro exI[of _ a] exI[of _ q]) simp
  qed
qed

theorem policy_rejected_witness:
  "\<exists>r' e a q. apply_policy full_ext renv1 small_pages (policy1\<lparr>sp_signature := []\<rparr>) registry1 = (r', Inl e) \<and>
     r' = registry1\<lparr>rg_audit := a, rg_rates := q\<rparr>"
proof -
  have "policy_request_ok full_ext (policy1\<lparr>sp_signature := []\<rparr>) = Inl (Extern ''signature verification failed'')"
    by (simp add: policy_request_ok_def policy1_def update1_def validate_gid_def full_ext_def key1_def starts_with_def
      policy_bytes_def pc_def verify_with_def I64_MAX_def as_bytes_def Let_def)
  then have "\<exists>r' e. apply_policy full_ext renv1 small_pages (policy1\<lparr>sp_signature := []\<rparr>) registry1 = (r', Inl e)"
    by (auto simp: apply_policy_def apply_policy_inner_def Let_def split: sum.splits)
  then obtain r' e where "apply_policy full_ext renv1 small_pages (policy1\<lparr>sp_signature := []\<rparr>) registry1 = (r', Inl e)"
    by blast
  with policy_rejected[OF registry1_inv this] show ?thesis by blast
qed

text \<open>Repeating an accepted policy update is harmless: the same signed bytes presented again, in the
  state the first presentation left, are accepted with the same generation and change nothing.\<close>

theorem policy_retry:
  assumes "reg_inv E r" "postcard_roundtrip E" "env_ok (re_audit env)" "policy_tx E env P u bs r = Inr (n, r')"
  shows "policy_tx E env' P' u bs r' = Inr (n, r')"
proof -
  have i': "reg_inv E r'" and le: "reg_le r r'" using policy_tx_good[OF assms(4,1,3)] by (auto simp: reg_good_def)
  from assms(4) obtain ks where s: "is_ok (authorize E r (pu_signer u))"
    and m: "check_members E r {} None (pu_members u) = Inr ks" by (auto simp: policy_tx_def result_simps is_ok_iff)
  have frame: "rg_users r' = rg_users r \<and> (\<forall>d \<in> set (rg_devices r). \<not> dv_revoked d \<longrightarrow>
      (\<exists>d' \<in> set (rg_devices r'). device_le d d' \<and> \<not> dv_revoked d'))"
    using assms(4,1) by (rule policy_tx_devices)
  have auth: "is_ok (authorize E r' k)" if k: "is_ok (authorize E r k)" for k
  proof -
    obtain d where d: "d \<in> set (rg_devices r)" "dv_nkey d = k" "dv_ready d" "\<not> dv_revoked d" "user_enabled r (dv_user d)"
      using k unfolding admitted_iff[OF assms(1,2)] by blast
    then obtain d' where "d' \<in> set (rg_devices r')" "device_le d d'" "\<not> dv_revoked d'" using frame by blast
    then show ?thesis using d frame unfolding admitted_iff[OF i' assms(2)]
      by (intro bexI[of _ d']) (auto simp: device_le_def user_enabled_def)
  qed
  have "check_members E r' {} None (pu_members u) = Inr ks" using m
  proof -
    have "check_members E r' keys prev ms = Inr ks" if "check_members E r keys prev ms = Inr ks" for keys prev ms
      using that
    proof (induction ms arbitrary: keys prev)
      case (Cons x ms)
      then have "is_ok (authorize E r (mb_nkey x))" by (auto simp: result_simps is_ok_iff)
      then obtain a where "authorize E r' (mb_nkey x) = Inr a" using auth by (auto simp: is_ok_iff)
      with Cons show ?case by (auto simp: result_simps)
    qed simp
    then show ?thesis using m by blast
  qed
  moreover have "check_current r' u bs = Inr True"
    using assms(4,1)
  proof (cases rule: policy_tx_cases)
    case (retry g)
    then show ?thesis by (simp add: check_current_def)
  next
    case (fresh r1 a)
    obtain g where g: "g \<in> set (rg_groups r')" "gr_gid g = pu_gid u" "gr_generation g = Suc (pu_expected_generation u)"
        "gr_last_update g = bs"
      using upsert_group_row[of env u bs r] fresh(3,8) by auto
    moreover have "distinct (map gr_gid (rg_groups r'))" using i' by (simp add: reg_inv_def reg_tables_def reg_keys_def)
    ultimately show ?thesis using select_one_key[of gr_gid "rg_groups r'" g] by (simp add: check_current_def)
  qed
  moreover have "n = pu_expected_generation u + 1"
    using assms(4) by (auto simp: policy_tx_def result_simps Let_def split: if_splits)
  moreover obtain a where "authorize E r' (pu_signer u) = Inr a" using auth[OF s] by (auto simp: is_ok_iff)
  ultimately show ?thesis by (simp add: policy_tx_def)
qed

theorem policy_retry_witness:
  "\<exists>r'. policy_tx full_ext renv1 small_pages update1 [9] r' = Inr (1, r')"
proof -
  have "reg_inv full_ext (registry1\<lparr>rg_rates := rates1\<rparr>)"
    by (rule admit_principal_ok[OF admit1 registry1_inv]) (simp_all add: registry1_def reg_good_def)
  moreover obtain r' where "policy_tx full_ext renv1 small_pages update1 [9] (registry1\<lparr>rg_rates := rates1\<rparr>) = Inr (1, r')"
    using tx1 by blast
  ultimately show ?thesis using policy_retry[OF _ full_roundtrip renv1_ok] by blast
qed

section \<open>The Welcome relay\<close>

text \<open>A Welcome is relayed only with authority: it was signed by its sender, sender and recipient are
  admitted devices, the sender is the current coordinator of the group at the epoch the relay names,
  the recipient is a current member, the payload is an encoded MLS Welcome, and the address is the
  inbox of the recipient.\<close>

theorem relay_authorized:
  assumes "relay_validate E r w = Inr addr"
  shows "(\<exists>bs. relay_bytes E w = Inr bs \<and> nkey_verify E (wr_sender w) bs (wr_signature w)) \<and>
    live_key r (wr_sender w) \<and>
    (\<exists>d. authorize E r (wr_recipient w) = Inr d \<and>
       addr = ''epochgrid.v1.user.'' @ da_user d @ ''.'' @ da_device d @ ''.inbox'') \<and>
    (\<exists>g \<in> set (rg_groups r). gr_gid g = wr_gid w \<and> gr_coordinator g = wr_sender w \<and> gr_epoch g = wr_epoch w) \<and>
    member_of r (wr_gid w) (wr_recipient w) \<and>
    (\<exists>p. decode E (wr_payload w) = Inr (Welcome p) \<and> is_mls_welcome E p = Some True)"
proof -
  obtain bs a d st b p where v: "relay_bytes E w = Inr bs" "verify_with E (wr_sender w) bs (wr_signature w) = Inr ()"
      "authorize E r (wr_sender w) = Inr a" "authorize E r (wr_recipient w) = Inr d"
    and st: "policy_state r (wr_gid w) = Inr (Some st)" "ps_coordinator st = wr_sender w" "ps_epoch st = wr_epoch w"
      "list_ex (\<lambda>m. mb_nkey m = wr_recipient w) (ps_members st)"
    and b: "decode E (wr_payload w) = Inr b" "as_welcome b = Some p" "is_mls_welcome E p = Some True"
    and addr: "addr = ''epochgrid.v1.user.'' @ da_user d @ ''.'' @ da_device d @ ''.inbox''"
    using assms by (auto simp: relay_validate_def result_simps simp del: append_Cons)
  have p: "decode E (wr_payload w) = Inr (Welcome p)" "is_mls_welcome E p = Some True"
    using b by (auto simp: as_welcome_def split: body.splits)
  obtain g where g: "select_one (\<lambda>g. gr_gid g = wr_gid w) (rg_groups r) = Some g"
    and st': "gr_coordinator g = wr_sender w" "gr_epoch g = wr_epoch w"
      "list_ex (\<lambda>m. mb_nkey m = wr_recipient w) (map (\<lambda>m. \<lparr>mb_nkey = mr_nkey m, mb_leaf = mr_leaf m\<rparr>)
           (sort_key mr_leaf (filter (\<lambda>m. mr_gid m = wr_gid w) (rg_members r))))"
    using st by (auto simp: policy_state_def result_simps)
  have "member_of r (wr_gid w) (wr_recipient w)" using st'(3) by (auto simp: list_ex_iff member_of_def)
  moreover have "nkey_verify E (wr_sender w) bs (wr_signature w)"
    using v(2) by (auto simp: verify_with_def result_simps)
  ultimately show ?thesis using v p addr st' select_one_Some[OF g] authorize_live by blast
qed

definition relay1 :: welcome_relay where
  "relay1 = \<lparr>wr_version = 1, wr_gid = gid1, wr_epoch = 0, wr_recipient = key1, wr_sender = key1, wr_id = 1,
     wr_payload = [6], wr_signature = as_bytes key1\<rparr>"

lemma tables1:
  "reg_inv full_ext written1"
proof -
  have "device_ok full_ext (phone1\<lparr>dv_generation := 2\<rparr>)"
    unfolding full_ext_def by (rule device_ok_le[OF phone1_ok]) (simp add: device_le_def phone1_def)
  then show ?thesis
    using registry1_inv
    by (simp add: reg_inv_def reg_tables_def reg_defs reg_limits_def reg_rates_def registry_usage_def registry1_def
        written1_def max_group_def count_where_def default_capacity_def REGISTRATION_BYTES_def)
      (simp add: phone1_def rates1_def rate_machine.inv_step rate_new_ok)
qed

theorem relay_authorized_witness:
  "member_of written1 gid1 key1 \<and> live_key written1 key1 \<and> (\<exists>p. decode full_ext [6] = Inr (Welcome p))"
proof -
  have a: "authorize full_ext written1 key1 =
      Inr \<lparr>da_user = user1, da_device = ''phone'', da_nkey = key1, da_generation = 2\<rparr>"
    unfolding authorize_iff[OF tables1 full_roundtrip]
    by (simp add: written1_def registry1_def phone1_def user_enabled_def)
  have s: "policy_state written1 gid1 = Inr (Some \<lparr>ps_generation = 1, ps_epoch = 0, ps_coordinator = key1,
      ps_members = [\<lparr>mb_nkey = key1, mb_leaf = 0\<rparr>]\<rparr>)"
    by (simp add: policy_state_def validate_gid_def written1_def)
  have d: "decode full_ext [6] = Inr (Welcome [7])"
    by (simp add: full_ext_def decode_ok MAX_WIRE_def VERSION_def sample_bodies_def)
  have "\<exists>addr. relay_validate full_ext written1 relay1 = Inr addr"
    by (simp add: relay_validate_def relay1_def a s d as_welcome_def)
      (simp add: full_ext_def relay_bytes_def pc_def verify_with_def key1_def starts_with_def)
  then obtain addr where "relay_validate full_ext written1 relay1 = Inr addr" ..
  from relay_authorized[OF this] show ?thesis using d by (simp add: relay1_def)
qed

end
