(* ===== verification/Trust_Properties.thy ===== *)
theory Trust_Properties
  imports Sample
begin

text \<open>
  The properties of the client's trust state, each with an instance on which its hypotheses hold.
\<close>

section \<open>A concrete client\<close>

definition c_ext :: "(unit, unit) mls_ext_scheme" where
  "c_ext = s_ext (mls_ext.fields (\<lambda>cp. if cp = cp1 then Some [1] else if cp = rl_checkpoint rl0 then Some [0] else None)
     (\<lambda>b. if b = [1] then Some cp1 else if b = [0] then Some (rl_checkpoint rl0) else None) (\<lambda>e. ''error'')
     (\<lambda>m. []) (\<lambda>m. True) (\<lambda>m. 0) (\<lambda>m. 0) (\<lambda>b. None) (\<lambda>m b. Inl OtherError) (\<lambda>m s. None) (\<lambda>m b. None)
     (\<lambda>m b. None) (\<lambda>m l. None) (\<lambda>m. None) (\<lambda>g. Some ()) (\<lambda>b. None) (\<lambda>b. None))"

definition client0 :: "unit client" where
  "client0 = \<lparr>cl_registration = Some reg1, cl_key = Some device_keys, cl_capacity = default_capacity,
     cl_recovery = False, cl_trust = [], cl_directory = None, cl_alert = None, cl_revoked = [],
     cl_rev_checkpoint = None, cl_coordinators = [], cl_blocked = [], cl_groups = [], cl_join_epochs = [],
     cl_outbox = [], cl_welcomes = [], cl_received = [], cl_chat = [], cl_transcript = [], cl_receipts = [],
     cl_device_receipts = [], cl_events = [], cl_mls = Map.empty, cl_signers = [],
     cl_recovery_metadata = None, cl_attachments = [], cl_participant_events = []\<rparr>"

lemma c_ext_stored [simp]:
  "pc_stored_checkpoint c_ext cp = (if cp = cp1 then Some [1] else if cp = rl_checkpoint rl0 then Some [0] else None)"
  "un_stored_checkpoint c_ext b = (if b = [1] then Some cp1 else if b = [0] then Some (rl_checkpoint rl0) else None)"
  by (simp_all add: c_ext_def s_ext_def mls_ext.fields_def)

lemma client0_inv [simp]: "trust_inv client0"
  by (simp add: trust_inv_def client0_def)

section \<open>Changed identities\<close>

text \<open>A device whose identity changed stays blocked: once a device is marked as changed, no later state
  lets any registration of that device through \<open>observe_device\<close>, and no lookup returns it.\<close>

theorem changed_identity_blocked:
  assumes "trust_inv c" "t \<in> set (cl_trust c)" "dt_state t = TrustChanged" "foldl (trust_step E P) c ops = c'"
    "rp_user_id (dr_payload r) = dt_user t" "rp_device_id (dr_payload r) = dt_device t"
  shows "\<not> is_ok (snd (observe_device E P r c')) \<and>
    \<not> is_ok (snd (client_lookup E P reply rev_reply (dt_user t) (dt_device t) c'))"
proof -
  have all: "list_all (\<lambda>_. True) xs" for xs :: "trust_op list" by (simp add: list_all_iff)
  have blocked: "\<not> is_ok (snd (observe_device E P r d))"
    if d: "client_le c d" "trust_inv d" "rp_user_id (dr_payload r) = dt_user t" "rp_device_id (dr_payload r) = dt_device t" for r d
  proof -
    obtain t' where "t' \<in> set (cl_trust d)" "trust_le_row t t'"
      using d(1) assms(2) by (auto simp: client_le_def)
    then have t': "t' \<in> set (cl_trust d)" "dt_user t' = dt_user t" "dt_device t' = dt_device t" "dt_state t' = TrustChanged"
      using assms(3) by (auto simp: trust_le_row_def)
    have "device_trust_row (dt_user t) (dt_device t) d = Some t'"
      using select_one_key[of "\<lambda>t. (dt_user t, dt_device t)" "cl_trust d" t'] t' d(2)
      by (simp add: device_trust_row_def trust_inv_def)
    then have "\<exists>e. snd (observe_device E P r d) = Inl e" if "fingerprint E r = Inr fp" for fp
      using observe_device_changed[of r d t' E fp P] that d(3,4) t'(4) by simp
    moreover have "\<exists>e. snd (observe_device E P r d) = Inl e" if "fingerprint E r = Inl e" for e
      using that by (simp add: observe_device_def)
    ultimately show ?thesis by (cases "fingerprint E r") (auto simp: is_ok_def)
  qed
  have le: "client_le c c'" "trust_inv c'"
    using trust_machine.run_le[OF assms(1) all] trust_machine.run_inv[OF assms(1) all] assms(4) by auto
  have "False" if "client_lookup E P reply rev_reply (dt_user t) (dt_device t) c' = (c2, Inr x)" for c2 x
    using that
  proof (rule client_lookup_ok)
    fix c1 sn
    assume a: "client_audit E P reply rev_reply c' = (c1, Inr sn)" "rp_user_id (dr_payload x) = dt_user t"
      "rp_device_id (dr_payload x) = dt_device t" "observe_device E P x c1 = (c2, Inr ())"
    have "trust_good c' c1" using client_audit_good[of c' E P reply rev_reply] a(1) by simp
    then have "client_le c c1" "trust_inv c1" using le client_le_trans by (auto simp: trust_good_def)
    from blocked[OF this a(2,3)] a(4) show False by (simp add: is_ok_def)
  qed
  then have "\<not> is_ok (snd (client_lookup E P reply rev_reply (dt_user t) (dt_device t) c'))"
    by (cases "client_lookup E P reply rev_reply (dt_user t) (dt_device t) c'") (auto simp: is_ok_iff)
  then show ?thesis using blocked[OF le assms(5,6)] by blast
qed

definition changed1 :: device_trust where
  "changed1 = \<lparr>dt_user = user1, dt_device = ''phone'', dt_fingerprint = ''A'', dt_latest = ''B'', dt_state = TrustChanged\<rparr>"

theorem changed_identity_blocked_witness:
  "\<not> is_ok (snd (observe_device c_ext (\<lambda>_. (1, Some 4096)) reg1 (client0\<lparr>cl_trust := [changed1]\<rparr>)))"
proof -
  have "trust_inv (client0\<lparr>cl_trust := [changed1]\<rparr>)" by (simp add: trust_inv_def client0_def)
  from changed_identity_blocked[OF this, of changed1 c_ext "\<lambda>_. (1, Some 4096)" "[]"] show ?thesis
    by (simp add: changed1_def reg1_def payload1_def)
qed

section \<open>Audits and lookups\<close>

lemma directory_record_revocations:
  "fold_r (record_revocation E sn) vs c = Inr c' \<Longrightarrow> cl_directory c' = cl_directory c"
proof (induction vs arbitrary: c)
  case (Cons v vs)
  then obtain d where d: "record_revocation E sn v c = Inr d" "fold_r (record_revocation E sn) vs d = Inr c'"
    by (auto simp: result_simps)
  have "cl_directory d = cl_directory c"
    using d(1) by (auto simp: record_revocation_def Let_def result_simps split: if_splits)
  then show ?case using Cons.IH[OF d(2)] by simp
qed simp

lemma directory_accept_revocations: "cl_directory (fst (accept_revocations E P l sn c)) = cl_directory c"
proof -
  have "cl_directory c' = cl_directory c" if "accept_revocations_action E l sn c = Inr (v, c')" for v c c'
    using that by (auto simp: accept_revocations_action_def result_simps dest!: directory_record_revocations)
  then have "cl_directory (fst (transaction_budget True P (accept_revocations_action E l sn) c)) = cl_directory c"
    by (cases rule: transaction_budget_cases[of True P "accept_revocations_action E l sn" c]) fastforce+
  then show ?thesis by (auto simp: accept_revocations_def recovery_transaction_def bind_s_def split: sum.splits)
qed

lemma revoked_observe_all: "cl_revoked (fst (observe_all E P rs c)) = cl_revoked c"
proof -
  have a: "cl_revoked c' = cl_revoked c" if "observe_action user device fp c = Inr (v, c')" for user device fp v c c'
    using that by (auto simp: observe_action_def mark_changed_def result_simps split: option.splits if_splits)
  have t: "cl_revoked (fst (transaction_budget True P (observe_action user device fp) c)) = cl_revoked c" for user device fp c
    by (cases rule: transaction_budget_cases[of True P "observe_action user device fp" c]) (auto dest: a)
  have o: "cl_revoked (fst (observe_device E P r c)) = cl_revoked c" for r c
    using t[of "rp_user_id (dr_payload r)" "rp_device_id (dr_payload r)" _ c]
    by (auto simp: observe_device_def Let_def recovery_transaction_def bind_s_def ensure_s_def
        split: sum.splits prod.splits) (metis fst_conv)+
  show ?thesis
  proof (induction rs arbitrary: c)
    case (Cons r rs)
    obtain d x where "observe_device E P r c = (d, x)" by fastforce
    then show ?case using o[of r c] Cons.IH[of d] by (cases x) auto
  qed simp
qed

lemma revoked_accept_checkpoint: "cl_revoked (fst (accept_checkpoint E P sn c)) = cl_revoked c"
proof -
  have p: "cl_revoked (fst (pin_directory E signer c)) = cl_revoked c" for signer
    by (auto simp: pin_directory_def bind_s_def ensure_s_def ensure_e_def split: sum.splits option.splits)
  show ?thesis
    using p[of "cp_signer (sn_checkpoint sn)"] revoked_observe_all[of E P "sn_entries sn"]
    by (auto simp: accept_checkpoint_def bind_s_def store_checkpoint_def split: sum.splits prod.splits)
      (metis fst_conv)+
qed

text \<open>The registration history a client accepts only grows: of two audits that succeed one after the
  other, whatever the service sent, the second snapshot consists of the first one followed by new
  entries and is signed by the same directory key, provided SHA-256 has no collision among the strings the
  two trees hash.\<close>

theorem audits_append_only:
  assumes "postcard_roundtrip E" "checkpoint_roundtrip E"
    "client_audit E P reply1 rev_reply1 c = (c1, Inr old)" "client_audit E P reply2 rev_reply2 c1 = (c2, Inr new)"
    "collision_free (hash E) (set (root_inputs E (sn_entries old)) \<union>
       set (root_inputs E (take (length (sn_entries old)) (sn_entries new))))"
  shows "(\<exists>added. sn_entries new = sn_entries old @ added) \<and>
    cp_signer (sn_checkpoint new) = cp_signer (sn_checkpoint old)"
proof -
  from assms(3) obtain l d1 d2 where o: "accept_checkpoint E P old c = (d1, Inr ())"
    "accept_revocations E P l old d1 = (d2, Inr ())" "c1 = clear_transparency_warning d2"
    by (elim client_audit_ok)
  from assms(4) obtain d3 where n: "accept_checkpoint E P new c1 = (d3, Inr ())"
    by (elim client_audit_ok)
  have "cl_directory c1 = cl_directory d1"
    using directory_accept_revocations[of E P l old d1] o(2,3) by (simp add: clear_transparency_warning_def)
  from accept_checkpoint_stored[OF o(1) assms(2) this]
  have x: "extends E new (sn_checkpoint old) = Inr ()" by (rule accept_checkpoint_ok(3)[OF n])
  then have "cp_signer (sn_checkpoint new) = cp_signer (sn_checkpoint old)"
    by (auto simp: extends_def result_simps)
  then show ?thesis
    using extends_prefix[OF assms(1) accept_checkpoint_ok(1)[OF o(1)] x assms(5)] by blast
qed

definition pages1 :: "unit cpager" where
  "pages1 c = (1, Some 4096)"

definition fp1 :: string where
  "fp1 = (case fingerprint c_ext reg1 of Inl _ \<Rightarrow> [] | Inr f \<Rightarrow> f)"

lemma fingerprint1: "fingerprint c_ext reg1 = Inr fp1"
proof -
  have "\<exists>f. fingerprint c_ext reg1 = Inr f"
    using reg1_signed by (simp add: fingerprint_def c_ext_def pc_def hash_def s_sha256_def Let_def)
      (simp add: reg1_def payload1_def)
  then show ?thesis by (auto simp: fp1_def)
qed

definition client1 :: "unit client" where
  "client1 = client0\<lparr>cl_trust := [\<lparr>dt_user = user1, dt_device = ''phone'', dt_fingerprint = fp1, dt_latest = fp1,
     dt_state = TrustUnverified\<rparr>], cl_directory := Some (directory1, Some [1]), cl_rev_checkpoint := Some [0]\<rparr>"

lemma pages1_fits [simp]: "check_database default_capacity (pages1 c) reserve = Inr ()"
  by (simp add: check_database_def pages1_def database_limit_def default_capacity_def U64_MAX_def)

lemma observe0:
  "observe_device c_ext pages1 reg1 (client0\<lparr>cl_directory := d\<rparr>) =
     (client0\<lparr>cl_directory := d, cl_trust := cl_trust client1\<rparr>, Inr ())"
  by (simp add: observe_device_def fingerprint1 recovery_transaction_def transaction_budget_def observe_action_def
      device_trust_row_def insert_row_def client0_def client1_def Let_def)
    (simp add: reg1_def payload1_def)

lemma observe1: "observe_device c_ext pages1 reg1 client1 = (client1, Inr ())"
proof -
  have "rp_user_id (dr_payload reg1) = user1" "rp_device_id (dr_payload reg1) = ''phone''"
    by (simp_all add: reg1_def payload1_def)
  then show ?thesis
    by (simp add: observe_device_def fingerprint1 recovery_transaction_def transaction_budget_def observe_action_def
      device_trust_row_def client1_def Let_def) (simp add: client0_def)
qed

lemma replies1:
  "decode_snapshot c_ext [3] = Inr sn1" "decode c_ext [4] = Inr (RevocationLog rl0)"
  "snapshot_validate c_ext sn1 = Inr ()" "log_validate c_ext rl0 sn1 = Inr ()" "nkey_ok c_ext directory1"
  by (simp_all add: c_ext_def decode_snapshot_ok) (simp add: directory1_def starts_with_def)

lemma sn1_fields: "sn_checkpoint sn1 = cp1" "sn_entries sn1 = [reg1]" "rl_entries rl0 = []"
  "cp_signer cp1 = directory1" "rl_checkpoint rl0 \<noteq> cp1"
  by (simp_all add: sn1_def rl0_def cp1_def cp0_def)

lemma starts_U: "starts_with ''U'' directory1"
  by (simp add: directory1_def starts_with_def)

lemma first_audit: "client_audit c_ext pages1 (Inr [3]) (Inr [4]) client0 = (client1, Inr sn1)"
proof -
  have p: "pin_directory c_ext directory1 client0 = (client0\<lparr>cl_directory := Some (directory1, None)\<rparr>, Inr ())"
    using replies1(5) starts_U by (simp add: pin_directory_def directory_key_def) (simp add: client0_def)
  have a: "accept_checkpoint c_ext pages1 sn1 client0 =
      (client0\<lparr>cl_directory := Some (directory1, Some [1]), cl_trust := cl_trust client1\<rparr>, Inr ())"
    by (simp add: accept_checkpoint_def replies1 sn1_fields p observe0 client_checkpoint_def stored_checkpoint_def
        store_checkpoint_def pc_def)
  have r: "accept_revocations c_ext pages1 rl0 sn1 (client0\<lparr>cl_directory := Some (directory1, Some [1]), cl_trust := cl_trust client1\<rparr>) =
      (client1, Inr ())"
    by (simp add: accept_revocations_def replies1 recovery_transaction_def transaction_budget_def
        accept_revocations_action_def stored_checkpoint_def sn1_fields pc_def client0_def client1_def)
  show ?thesis
    by (simp add: client_audit_def audit_accept_def replies1 a r as_revocation_log_def clear_transparency_warning_def)
      (simp add: client1_def client0_def)
qed

lemma second_audit: "client_audit c_ext pages1 (Inr [3]) (Inr [4]) client1 = (client1, Inr sn1)"
proof -
  have f: "cl_directory client1 = Some (directory1, Some [1])" "cl_rev_checkpoint client1 = Some [0]"
    "cl_alert client1 = None" "cl_capacity client1 = default_capacity" "cl_recovery client1 = False"
    by (simp_all add: client1_def client0_def)
  have p: "pin_directory c_ext directory1 client1 = (client1, Inr ())"
    using replies1(5) starts_U by (simp add: pin_directory_def directory_key_def f)
  have e: "extends c_ext sn1 cp1 = Inr ()"
    using s_root_entries(2) by (simp add: extends_def sn1_def cp1_def c_ext_def)
  have a: "accept_checkpoint c_ext pages1 sn1 client1 = (client1, Inr ())"
    by (simp add: accept_checkpoint_def replies1 sn1_fields p observe1 client_checkpoint_def stored_checkpoint_def
        store_checkpoint_def pc_def f e)
  have re: "rev_extends c_ext rl0 (rl_checkpoint rl0) = Inr ()"
    by (simp add: rev_extends_def rl0_def cp0_def c_ext_def)
  have r: "accept_revocations c_ext pages1 rl0 sn1 client1 = (client1, Inr ())"
    by (simp add: accept_revocations_def replies1 recovery_transaction_def transaction_budget_def
        accept_revocations_action_def stored_checkpoint_def sn1_fields pc_def f re)
  show ?thesis
    by (simp add: client_audit_def audit_accept_def replies1 a r as_revocation_log_def clear_transparency_warning_def)
      (simp add: client1_def client0_def)
qed

theorem audits_append_only_witness:
  "\<exists>c2 added. client_audit c_ext pages1 (Inr [3]) (Inr [4]) client1 = (c2, Inr sn1) \<and> sn_entries sn1 = sn_entries sn1 @ added"
proof -
  have h: "collision_free (hash c_ext) (set (root_inputs c_ext (sn_entries sn1)) \<union>
       set (root_inputs c_ext (take (length (sn_entries sn1)) (sn_entries sn1))))"
    by (simp add: collision_free_def sn1_fields root_inputs.simps) (metis sum.inject(2))
  have rt: "postcard_roundtrip c_ext" "checkpoint_roundtrip c_ext"
    by (simp_all add: c_ext_def s_ext_roundtrip) (simp add: checkpoint_roundtrip_def c_ext_def[symmetric])
  from audits_append_only[OF rt first_audit second_audit h] second_audit show ?thesis by blast
qed

text \<open>What a lookup returns is the requested device as the audited log has it: fully verified, an
  entry of a validated snapshot signed by the pinned directory key, not revoked by the audited
  revocation log or any earlier one, and with the pinned, unchanged fingerprint.\<close>

theorem lookup_sound:
  assumes "client_lookup E P reply rev_reply user device c = (c', Inr r)"
  shows "rp_user_id (dr_payload r) = user \<and> rp_device_id (dr_payload r) = device \<and> verify E r = Inr () \<and>
    (\<exists>sn l. snapshot_validate E sn = Inr () \<and> r \<in> set (sn_entries sn) \<and>
       directory_key c' = Some (cp_signer (sn_checkpoint sn)) \<and> log_validate E l sn = Inr () \<and>
       rp_nats_public_key (dr_payload r) \<notin> log_keys l \<and> \<not> is_revoked (rp_nats_public_key (dr_payload r)) c) \<and>
    (\<exists>t. device_trust_row user device c' = Some t \<and> fingerprint E r = Inr (dt_fingerprint t) \<and>
       dt_state t \<noteq> TrustChanged)"
  using assms
proof (rule client_lookup_ok)
  fix c1 sn
  assume a: "client_audit E P reply rev_reply c = (c1, Inr sn)" and r: "r \<in> set (sn_entries sn)"
      "rp_user_id (dr_payload r) = user" "rp_device_id (dr_payload r) = device"
      "\<not> is_revoked (rp_nats_public_key (dr_payload r)) c1" "verify E r = Inr ()"
    and ob: "observe_device E P r c1 = (c', Inr ())"
  from a obtain l d1 d2 where s: "accept_checkpoint E P sn c = (d1, Inr ())"
      "accept_revocations E P l sn d1 = (d2, Inr ())" "c1 = clear_transparency_warning d2"
    by (elim client_audit_ok)
  have rev: "cl_revoked c1 = cl_revoked d2" "cl_directory c1 = cl_directory d2"
    using s(3) by (simp_all add: clear_transparency_warning_def)
  have k: "rp_nats_public_key (dr_payload r) \<notin> log_keys l \<union> vd_nkey ` set (cl_revoked d1)"
    using r(4) accept_revocations_ok(2)[OF s(2)] rev by (simp add: is_revoked_iff)
  have "set (cl_revoked c) \<subseteq> set (cl_revoked d1)" using revoked_accept_checkpoint[of E P sn c] s(1) by simp
  then have "\<not> is_revoked (rp_nats_public_key (dr_payload r)) c" using k by (auto simp: is_revoked_iff)
  moreover have "directory_key c' = Some (cp_signer (sn_checkpoint sn))"
    using accept_checkpoint_ok(2)[OF s(1)] directory_accept_revocations[of E P l sn d1] s(2) rev(2)
      directory_observe_device[of E P r c1] ob by (auto simp: directory_key_def)
  ultimately show ?thesis
    using r k accept_checkpoint_ok(1)[OF s(1)] accept_revocations_ok(1)[OF s(2)] observe_device_ok[OF ob] by blast
qed

theorem lookup_sound_witness: "verify c_ext reg1 = Inr () \<and> directory_key client1 = Some directory1"
proof -
  have "client_lookup c_ext pages1 (Inr [3]) (Inr [4]) user1 ''phone'' client0 = (client1, Inr reg1)"
  proof -
    have "rp_user_id (dr_payload reg1) = user1" "rp_device_id (dr_payload reg1) = ''phone''" "cl_revoked client1 = []"
      by (simp_all add: reg1_def payload1_def client1_def client0_def)
    moreover have "validate_id ''phone'' = Inr ()" by (simp add: validate_id_def is_ascii_lowercase_def byte_of_def)
    moreover have "verify c_ext reg1 = Inr ()" by (simp add: c_ext_def)
    ultimately show ?thesis
      by (simp add: client_lookup_def first_audit observe1 user1_id sn1_fields is_revoked_def)
  qed
  from lookup_sound[OF this] show ?thesis by (auto simp: client1_def directory_key_def)
qed

text \<open>A device becomes verified only by its complete fingerprint: \<open>verify_device\<close> succeeds exactly when
  the digits supplied, without white space and in upper case, are the 64 hexadecimal digits of the
  fingerprint pinned for an observed, unchanged device, and then that device is marked as verified.\<close>

theorem verify_device_exact:
  assumes "trust_inv c" "digits = to_ascii_upper (filter (\<lambda>ch. \<not> is_ascii_whitespace ch) expected)"
    "verify_device user device expected c = (c', res)"
  shows "(is_ok res \<longleftrightarrow> length digits = 64 \<and> list_all is_ascii_hexdigit digits \<and>
      (\<exists>t. device_trust_row user device c = Some t \<and> dt_fingerprint t = digits \<and> dt_state t \<noteq> TrustChanged)) \<and>
    (is_ok res \<longrightarrow> (\<exists>t. device_trust_row user device c' = Some t \<and> dt_fingerprint t = digits \<and>
        dt_state t = TrustVerified)) \<and> (\<not> is_ok res \<longrightarrow> c' = c)"
proof -
  let ?ok = "length digits = 64 \<and> list_all is_ascii_hexdigit digits \<and>
      (\<exists>t. device_trust_row user device c = Some t \<and> dt_fingerprint t = digits \<and> dt_state t \<noteq> TrustChanged)"
  let ?c = "c\<lparr>cl_trust := update_where (\<lambda>t. dt_user t = user \<and> dt_device t = device)
            (\<lambda>t. t\<lparr>dt_state := TrustVerified\<rparr>) (cl_trust c)\<rparr>"
  have "(c', is_ok res) = (if ?ok then (?c, True) else (c, False))"
    using assms(3) unfolding verify_device_def Let_def assms(2)[symmetric]
    by (cases "device_trust_row user device c") (auto simp: ensure_s_def is_ok_def split: if_splits)
  moreover have "\<exists>t. device_trust_row user device ?c = Some t \<and> dt_fingerprint t = digits \<and> dt_state t = TrustVerified"
    if "device_trust_row user device c = Some t" "dt_fingerprint t = digits" for t
    using that select_one_Some[of _ "cl_trust c" t] by (auto simp: device_trust_row_def select_one_update_where)
  ultimately show ?thesis by (auto split: if_splits)
qed

definition observed1 :: "unit client" where
  "observed1 = client0\<lparr>cl_trust := [\<lparr>dt_user = user1, dt_device = ''phone'', dt_fingerprint = replicate 64 CHR ''A'',
     dt_latest = replicate 64 CHR ''A'', dt_state = TrustUnverified\<rparr>]\<rparr>"

lemma digits1: "to_ascii_upper (filter (\<lambda>ch. \<not> is_ascii_whitespace ch) (replicate 64 CHR ''a'')) = replicate 64 CHR ''A''"
  by code_simp

theorem verify_device_exact_witness:
  "is_ok (snd (verify_device user1 ''phone'' (replicate 64 CHR ''a'') observed1))"
proof -
  have "trust_inv observed1" by (simp add: trust_inv_def observed1_def client0_def)
  moreover have "list_all is_ascii_hexdigit (replicate 64 CHR ''A'')" by code_simp
  moreover have "device_trust_row user1 ''phone'' observed1 = Some \<lparr>dt_user = user1, dt_device = ''phone'',
      dt_fingerprint = replicate 64 CHR ''A'', dt_latest = replicate 64 CHR ''A'', dt_state = TrustUnverified\<rparr>"
    by (simp add: device_trust_row_def observed1_def)
  ultimately show ?thesis
    using verify_device_exact[OF _ digits1[symmetric], of observed1 user1 "''phone''"]
    by (cases "verify_device user1 ''phone'' (replicate 64 CHR ''a'') observed1") simp
qed

end
