(* ===== verification/Text.thy ===== *)
theory Text
  imports Prelude
begin

text \<open>
  What the sources use of Rust's text handling beyond byte strings: UTF-8 validation and lossy
  decoding (\<open>std::str::from_utf8\<close>, \<open>String::from_utf8_lossy\<close>), the character classes
  \<open>char::is_control\<close> and \<open>char::is_whitespace\<close>, hexadecimal and decimal formatting, and
  \<open>str::split_once\<close>.
\<close>

section \<open>UTF-8\<close>

definition utf8_width :: "nat \<Rightarrow> nat" where
  "utf8_width b = (if b < 128 then 1 else if 194 \<le> b \<and> b \<le> 223 then 2
     else if 224 \<le> b \<and> b \<le> 239 then 3 else if 240 \<le> b \<and> b \<le> 244 then 4 else 0)"

definition utf8_cont :: "nat \<Rightarrow> bool" where
  "utf8_cont b \<longleftrightarrow> 128 \<le> b \<and> b \<le> 191"

text \<open>The second byte excludes overlong forms, surrogates and values above U+10FFFF.\<close>

definition utf8_second :: "nat \<Rightarrow> nat \<Rightarrow> bool" where
  "utf8_second b0 b1 \<longleftrightarrow>
     (if b0 = 224 then 160 \<le> b1 \<and> b1 \<le> 191 else if b0 = 237 then 128 \<le> b1 \<and> b1 \<le> 159
      else if b0 = 240 then 144 \<le> b1 \<and> b1 \<le> 191 else if b0 = 244 then 128 \<le> b1 \<and> b1 \<le> 143
      else utf8_cont b1)"

text \<open>How many bytes of the sequence that starts here are well formed; at least the first one is consumed.\<close>

definition utf8_prefix :: "nat \<Rightarrow> nat list \<Rightarrow> nat" where
  "utf8_prefix b0 rest =
     (case rest of
        [] \<Rightarrow> 1
      | b1 # t \<Rightarrow>
          if 1 < utf8_width b0 \<and> utf8_second b0 b1
          then 2 + length (takeWhile utf8_cont (take (utf8_width b0 - 2) t)) else 1)"

text \<open>
  The chunks of \<open>Utf8Chunks\<close>, one per character: a well-formed character, or a maximal ill-formed
  prefix.
\<close>

function utf8_chunks :: "nat list \<Rightarrow> (bool \<times> nat list) list" where
  "utf8_chunks [] = []"
| "utf8_chunks (b0 # rest) =
     (let n = utf8_prefix b0 rest in
      (n = utf8_width b0, take n (b0 # rest)) # utf8_chunks (drop n (b0 # rest)))"
  by pat_completeness auto
termination
  by (relation "measure length") (auto simp: utf8_prefix_def Let_def split: list.split)

definition utf8_valid :: "bytes \<Rightarrow> bool" where
  "utf8_valid bs \<longleftrightarrow> list_all fst (utf8_chunks (map unat bs))"

definition text_of :: "bytes \<Rightarrow> string" where
  "text_of bs = map (\<lambda>b. char_of (unat b)) bs"

definition from_utf8 :: "bytes \<Rightarrow> string option" where
  "from_utf8 bs = (if utf8_valid bs then Some (text_of bs) else None)"

definition from_utf8_lossy :: "bytes \<Rightarrow> string" where
  "from_utf8_lossy bs = concat (map (\<lambda>(ok, chunk). if ok then map char_of chunk
     else map char_of [239, 191, 189 :: nat]) (utf8_chunks (map unat bs)))"

section \<open>Characters\<close>

definition code_point :: "nat list \<Rightarrow> nat" where
  "code_point chunk =
     (case chunk of
        [a] \<Rightarrow> a
      | [a, b] \<Rightarrow> (a mod 32) * 64 + b mod 64
      | [a, b, c] \<Rightarrow> (a mod 16) * 4096 + (b mod 64) * 64 + c mod 64
      | [a, b, c, d] \<Rightarrow> (a mod 8) * 262144 + (b mod 64) * 4096 + (c mod 64) * 64 + d mod 64
      | _ \<Rightarrow> 0)"

definition chars :: "string \<Rightarrow> nat list" where
  "chars s = map (code_point \<circ> snd) (utf8_chunks (map byte_of s))"

definition is_control :: "nat \<Rightarrow> bool" where
  "is_control p \<longleftrightarrow> p < 32 \<or> (127 \<le> p \<and> p \<le> 159)"

definition is_whitespace :: "nat \<Rightarrow> bool" where
  "is_whitespace p \<longleftrightarrow> (9 \<le> p \<and> p \<le> 13) \<or> p = 32 \<or> p = 133 \<or> p = 160 \<or> p = 5760 \<or>
     (8192 \<le> p \<and> p \<le> 8202) \<or> p = 8232 \<or> p = 8233 \<or> p = 8239 \<or> p = 8287 \<or> p = 12288"

definition is_ascii_alphanumeric :: "char \<Rightarrow> bool" where
  "is_ascii_alphanumeric c \<longleftrightarrow> is_ascii_lowercase c \<or> is_ascii_uppercase c \<or> is_ascii_digit c"

section \<open>Formatting\<close>

definition hex_digit :: "nat \<Rightarrow> char" where
  "hex_digit n = char_of (if n < 10 then 48 + n else 87 + n)"

text \<open>\<open>format!("{b:02x}")\<close> of every byte.\<close>

definition hex_text :: "bytes \<Rightarrow> string" where
  "hex_text bs = concat (map (\<lambda>b. [hex_digit (unat b div 16), hex_digit (unat b mod 16)]) bs)"

definition hex_value :: "char \<Rightarrow> nat" where
  "hex_value c = (if is_ascii_digit c then byte_of c - 48 else byte_of c - 87)"

text \<open>\<open>u8::from_str_radix(pair, 16)\<close> along a text of lowercase hexadecimal digits.\<close>

fun unhex :: "string \<Rightarrow> bytes" where
  "unhex (a # b # s) = word_of_nat (16 * hex_value a + hex_value b) # unhex s"
| "unhex s = []"

definition split_once :: "char \<Rightarrow> string \<Rightarrow> (string \<times> string) option" where
  "split_once c s = (if c \<in> set s then Some (takeWhile (\<lambda>x. x \<noteq> c) s, tl (dropWhile (\<lambda>x. x \<noteq> c) s)) else None)"

section \<open>Lemmas\<close>

lemma hex_digit_lower: "n < 16 \<Longrightarrow> is_hex_lower (hex_digit n)"
  by (auto simp: is_hex_lower_def is_ascii_digit_def hex_digit_def byte_of_def of_char_of)

lemma hex_value_digit: "n < 16 \<Longrightarrow> hex_value (hex_digit n) = n"
  by (auto simp: hex_value_def is_ascii_digit_def hex_digit_def byte_of_def of_char_of)

lemma char_of_byte_of [simp]: "char_of (byte_of c) = c"
  by (simp add: byte_of_def)

lemma hex_digit_value:
  assumes "is_hex_lower c"
  shows "hex_value c < 16" "hex_digit (hex_value c) = c"
proof -
  have "48 + (byte_of c - 48) = byte_of c" if "is_ascii_digit c" using that by (simp add: is_ascii_digit_def)
  moreover have "87 + (byte_of c - 87) = byte_of c" "\<not> byte_of c - 87 < 10" if "\<not> is_ascii_digit c"
    using that assms by (auto simp: is_hex_lower_def is_ascii_digit_def)
  ultimately show "hex_digit (hex_value c) = c" using assms
    by (auto simp: hex_digit_def hex_value_def is_hex_lower_def is_ascii_digit_def)
  show "hex_value c < 16" using assms by (auto simp: hex_value_def is_hex_lower_def is_ascii_digit_def)
qed

lemma unat_byte_less: "unat (b :: byte) < 256"
  using unsigned_less[of b, where ?'a = nat] by simp

lemma length_hex_text [simp]: "length (hex_text bs) = 2 * length bs"
  by (induction bs) (simp_all add: hex_text_def)

lemma hex_text_lower: "list_all is_hex_lower (hex_text bs)"
proof (induction bs)
  case (Cons b bs)
  have "unat b div 16 < 16" "unat b mod 16 < 16" using unat_byte_less[of b] by auto
  with Cons show ?case by (simp add: hex_text_def hex_digit_lower)
qed (simp add: hex_text_def)

lemma unhex_hex_text [simp]: "unhex (hex_text bs) = bs"
proof (induction bs)
  case (Cons b bs)
  have "unat b div 16 < 16" "unat b mod 16 < 16" using unat_byte_less[of b] by auto
  with Cons show ?case by (simp add: hex_text_def hex_value_digit)
qed (simp add: hex_text_def)

lemma hex_text_unhex: "even (length s) \<Longrightarrow> list_all is_hex_lower s \<Longrightarrow> hex_text (unhex s) = s"
proof (induction s rule: unhex.induct)
  case (1 a b s)
  have v: "hex_value a < 16" "hex_value b < 16" using 1 hex_digit_value(1) by auto
  have "unat (word_of_nat (16 * hex_value a + hex_value b) :: byte) = 16 * hex_value a + hex_value b"
    using v by (subst unat_of_nat) simp
  then show ?case using 1 v hex_digit_value(2)[of a] hex_digit_value(2)[of b] by (simp add: hex_text_def)
qed (auto simp: hex_text_def)

lemma length_unhex: "length (unhex s) = length s div 2"
  by (induction s rule: unhex.induct) auto

lemma hex_text_inj: "hex_text a = hex_text b \<Longrightarrow> a = b"
  using unhex_hex_text by metis

lemma unat_of_char [simp]: "unat (of_char c :: byte) = byte_of c"
proof -
  have "byte_of c < 256" by (cases c) (auto simp: byte_of_def)
  moreover have "(of_char c :: byte) = word_of_nat (byte_of c)"
    by (cases c) (simp add: byte_of_def of_bool_def)
  ultimately show ?thesis by (simp only: unat_of_nat) simp
qed

lemma text_of_as_bytes [simp]: "text_of (as_bytes s) = s"
  by (induction s) (simp_all add: text_of_def as_bytes_def)

end
