(* ===== verification/Channels.thy ===== *)
theory Channels
  imports Trust Text
begin

text \<open>
  The client's channels: the group table and the MLS states behind it (\<open>groups.rs\<close>), the
  coordinator and the authority of commits (\<open>rekey.rs\<close>), and incoming handshakes
  (\<open>epochs.rs\<close>). An \<open>MlsGroup\<close> value is its group id paired with its state; \<open>save_group\<close> is the
  write that OpenMLS makes to its storage in the same database.
\<close>

record 'm channel_ext = "'m mls_ext" +
  un_recovery_status :: "bytes \<Rightarrow> unit option"

type_synonym 'm mls_group = "string \<times> 'm"

section \<open>The group table\<close>

definition group_named :: "string \<Rightarrow> 'm client \<Rightarrow> group result" where
  "group_named name c = or_err (select_one (\<lambda>g. g_name g = name) (cl_groups c)) (Anyhow ''unknown channel'')"

definition groups_by_name :: "'m client \<Rightarrow> group list" where
  "groups_by_name c = sort_key g_name (cl_groups c)"

definition load_group :: "group \<Rightarrow> 'm client \<Rightarrow> 'm mls_group result" where
  "load_group g c = bind_r (or_err (cl_mls c (g_mls_id g)) (Anyhow ''MLS group state missing''))
     (\<lambda>m. Inr (g_mls_id g, m))"

definition save_group :: "'m mls_group \<Rightarrow> 'm client \<Rightarrow> 'm client" where
  "save_group g c = c\<lparr>cl_mls := (cl_mls c)(fst g \<mapsto> snd g)\<rparr>"

definition group_epoch :: "('m, 'z) mls_ext_scheme \<Rightarrow> string \<Rightarrow> 'm client \<Rightarrow> nat result" where
  "group_epoch E name c =
     bind_r (group_named name c) (\<lambda>d. bind_r (load_group d c) (\<lambda>g. Inr (ms_epoch E (snd g))))"

definition basic_identity :: "bytes option \<Rightarrow> string result" where
  "basic_identity credential =
     bind_r (or_err credential (Extern ''invalid member credential'')) (\<lambda>bs.
     or_err (from_utf8 bs) (Extern ''invalid utf-8''))"

definition member_names :: "('m, 'z) mls_ext_scheme \<Rightarrow> string \<Rightarrow> 'm client \<Rightarrow> string list result" where
  "member_names E name c =
     bind_r (group_named name c) (\<lambda>d. bind_r (load_group d c) (\<lambda>g.
     map_r (\<lambda>m. basic_identity (mm_identity m)) (ms_members E (snd g))))"

definition member_label :: "string \<Rightarrow> string" where
  "member_label identity =
     (case split_once CHR ''/'' identity of
        Some (user, device) \<Rightarrow> if device = ''service'' then ''@'' @ user @ '' [service]'' else user
      | None \<Rightarrow> identity)"

definition user_label :: "string \<Rightarrow> string result" where
  "user_label member =
     bind_r (or_err (split_once CHR ''/'' member) (Anyhow ''invalid member identity'')) (\<lambda>(user, device).
     bind_r (validate_id user) (\<lambda>_. bind_r (validate_id device) (\<lambda>_.
     Inr (member_label (user @ ''/'' @ device)))))"

definition user_labels :: "('m, 'z) mls_ext_scheme \<Rightarrow> string \<Rightarrow> 'm client \<Rightarrow> string list result" where
  "user_labels E name c =
     bind_r (member_names E name c) (\<lambda>names. bind_r (map_r user_label names) (\<lambda>labels.
     Inr (sort (remdups labels))))"

definition insert_group :: "group \<Rightarrow> 'm client \<Rightarrow> 'm client result" where
  "insert_group g c =
     ensure (length (cl_groups c) < retained_groups (cl_capacity c)) ''capacity exhausted: local groups''
     (ensure (g_name g \<notin> g_name ` set (cl_groups c) \<and> g_gid g \<notin> g_gid ` set (cl_groups c) \<and>
         g_mls_id g \<notin> g_mls_id ` set (cl_groups c)) ''channel name or group ID already exists''
     (bind_r (insert_row fst (g_gid g, 0) (cl_join_epochs c)) (\<lambda>epochs.
      Inr (c\<lparr>cl_groups := cl_groups c @ [g], cl_join_epochs := epochs\<rparr>))))"

section \<open>The device's own keys\<close>

definition recovery_status :: "('m, 'z) channel_ext_scheme \<Rightarrow> 'm client \<Rightarrow> unit option result" where
  "recovery_status E c =
     (case cl_recovery_metadata c of
        None \<Rightarrow> Inr None
      | Some bs \<Rightarrow> bind_r (or_err (un_recovery_status E bs) (Extern ''postcard'')) (\<lambda>u. Inr (Some u)))"

definition ensure_messaging_identity :: "('m, 'z) channel_ext_scheme \<Rightarrow> 'm client \<Rightarrow> unit result" where
  "ensure_messaging_identity E c =
     bind_r (recovery_status E c) (\<lambda>status.
     ensure (status = None)
       ''recovery-only home: enroll a fresh device and obtain a new invitation to resume messaging'' (Inr ()))"

definition signer :: "('m, 'z) channel_ext_scheme \<Rightarrow> 'm client \<Rightarrow> kp_leaf result" where
  "signer E c =
     bind_r (ensure_messaging_identity E c) (\<lambda>_.
     bind_r (own_registration c) (\<lambda>r.
     bind_r (or_err (kp_validate E (rp_mls_key_package (dr_payload r))) (Extern ''invalid own KeyPackage'')) (\<lambda>leaf.
     ensure (kl_signature_key leaf \<in> set (cl_signers c)) ''MLS signing key missing'' (Inr leaf))))"

section \<open>Revoked leaves and the coordinator\<close>

definition revoked_leaves :: "('m, 'z) mls_ext_scheme \<Rightarrow> 'm mls_group \<Rightarrow> 'm client \<Rightarrow> nat list" where
  "revoked_leaves E g c =
     map mm_index (filter (\<lambda>m. revoked_mls_key (mm_key m) c \<noteq> None) (ms_members E (snd g)))"

definition stored_coordinator :: "'m mls_group \<Rightarrow> 'm client \<Rightarrow> bytes option" where
  "stored_coordinator g c =
     Option.bind (select_one (\<lambda>d. g_mls_id d = fst g) (cl_groups c)) (\<lambda>d.
     map_option snd (select_one (\<lambda>k. fst k = g_gid d) (cl_coordinators c)))"

fun least :: "nat list \<Rightarrow> nat option" where
  "least [] = None"
| "least (x # xs) = (case least xs of None \<Rightarrow> Some x | Some y \<Rightarrow> Some (min x y))"

definition coordinator :: "('m, 'z) mls_ext_scheme \<Rightarrow> 'm mls_group \<Rightarrow> 'm client \<Rightarrow> nat option" where
  "coordinator E g c = (let revoked = revoked_leaves E g c in
     case Option.bind (stored_coordinator g c) (\<lambda>key. find (\<lambda>m. mm_key m = key) (ms_members E (snd g))) of
       Some m \<Rightarrow>
         if mm_index m \<notin> set revoked then Some (mm_index m)
         else least (filter (\<lambda>i. i \<notin> set revoked) (map mm_index (ms_members E (snd g))))
     | None \<Rightarrow> least (filter (\<lambda>i. i \<notin> set revoked) (map mm_index (ms_members E (snd g)))))"

definition set_coordinator :: "string \<Rightarrow> bytes \<Rightarrow> 'm client \<Rightarrow> 'm client" where
  "set_coordinator gid key c = c\<lparr>cl_coordinators :=
     (if gid \<in> fst ` set (cl_coordinators c)
      then update_where (\<lambda>k. fst k = gid) (\<lambda>k. (gid, key)) (cl_coordinators c)
      else cl_coordinators c @ [(gid, key)])\<rparr>"

definition refresh_coordinator ::
    "('m, 'z) mls_ext_scheme \<Rightarrow> 'm mls_group \<Rightarrow> 'm client \<Rightarrow> 'm client result" where
  "refresh_coordinator E g c =
     (if (case stored_coordinator g c of None \<Rightarrow> False
          | Some key \<Rightarrow> list_ex (\<lambda>m. mm_key m = key) (ms_members E (snd g)))
      then Inr c
      else (case Option.bind (coordinator E g c) (\<lambda>i. find (\<lambda>m. mm_index m = i) (ms_members E (snd g))) of
        None \<Rightarrow> Inr c
      | Some m \<Rightarrow> bind_r (from_mls_id (fst g)) (\<lambda>d. Inr (set_coordinator (g_gid d) (mm_key m) c))))"

definition rekey_pending :: "('m, 'z) mls_ext_scheme \<Rightarrow> string \<Rightarrow> 'm client \<Rightarrow> bool result" where
  "rekey_pending E name c =
     bind_r (group_named name c) (\<lambda>d. bind_r (load_group d c) (\<lambda>g. Inr (revoked_leaves E g c \<noteq> [])))"

definition ensure_can_send :: "('m, 'z) mls_ext_scheme \<Rightarrow> 'm mls_group \<Rightarrow> 'm client \<Rightarrow> unit result" where
  "ensure_can_send E g c =
     bind_r (own_key c) (\<lambda>key.
     ensure (\<not> is_revoked (public_key key) c \<and> ms_active E (snd g))
       ''this device is revoked or removed from the group''
     (ensure (revoked_leaves E g c = [])
       ''group rekey pending; its active coordinator must sync before sending'' (Inr ())))"

section \<open>Blocking queued messages\<close>

definition block_subject :: "string \<Rightarrow> 'm client \<Rightarrow> 'm client" where
  "block_subject s c = c\<lparr>cl_blocked := cl_blocked c @
     filter (\<lambda>i. i \<notin> set (cl_blocked c)) (map ob_id (filter (\<lambda>x. ob_subject x = s) (unsent c)))\<rparr>"

text \<open>
  The statements run one by one; outside a transaction the ones before an error keep their effect.
  \<open>within\<close> runs an operation as a part of a transaction, which an error rolls back as a whole.
\<close>

fun block_groups :: "('m, 'z) mls_ext_scheme \<Rightarrow> group list \<Rightarrow> 'm client \<Rightarrow> 'm client \<times> unit result" where
  "block_groups E [] c = (c, Inr ())"
| "block_groups E (d # ds) c =
     bind_s (c, load_group d c) (\<lambda>g c.
     block_groups E ds (if ms_active E (snd g) \<and> revoked_leaves E g c = [] then c
       else block_subject (subject d ''message'') c))"

definition block_revoked_outbox :: "('m, 'z) mls_ext_scheme \<Rightarrow> 'm client \<Rightarrow> 'm client \<times> unit result" where
  "block_revoked_outbox E c = block_groups E (groups_by_name c) c"

definition within :: "'s \<times> unit result \<Rightarrow> 's result" where
  "within m = (case m of (s, Inl e) \<Rightarrow> Inl e | (s, Inr _) \<Rightarrow> Inr s)"

section \<open>Who may commit\<close>

definition validate_commit_author ::
    "('m, 'z) mls_ext_scheme \<Rightarrow> group \<Rightarrow> nat \<Rightarrow> staged_commit \<Rightarrow> nat \<Rightarrow> 'm client \<Rightarrow> unit result" where
  "validate_commit_author E d index commit sequence c =
     bind_r (load_group d c) (\<lambda>g.
     bind_r (or_err (find (\<lambda>m. mm_index m = index) (ms_members E (snd g))) InvalidMessage) (\<lambda>sender.
     ensure_e (case sc_path_leaf commit of None \<Rightarrow> True
         | Some (key, credential) \<Rightarrow> key = mm_key sender \<and> credential = mm_credential sender) InvalidMessage
     (ensure_e (sc_queued commit = sc_adds commit + length (sc_removed commit)) InvalidMessage
     (ensure_e (case revoked_mls_key (mm_key sender) c of None \<Rightarrow> True | Some cutoff \<Rightarrow> sequence \<le> cutoff)
       InvalidMessage
     (let leader = map_option mm_index
            (find (\<lambda>m. Some (mm_key m) = stored_coordinator g c) (ms_members E (snd g))) in
      if leader = Some index then Inr ()
      else let expected = revoked_leaves E g c; removed = sc_removed commit in
        ensure_e (coordinator E g c = Some index \<and> expected \<noteq> [] \<and> length removed = length expected \<and>
            list_all (\<lambda>i. i \<in> set removed) expected \<and> sc_queued commit = length removed)
          InvalidMessage (Inr ()))))))"

section \<open>Incoming handshakes\<close>

text \<open>Deserialisation of a private protocol message, the common prefix of the receiving functions.\<close>

definition private_header :: "('m, 'z) mls_ext_scheme \<Rightarrow> bytes \<Rightarrow> mls_header result" where
  "private_header E bs =
     bind_r (or_err (ms_parse E bs) InvalidMessage) (\<lambda>msg.
     ensure_e (mi_private msg) InvalidMessage (or_err (mi_header msg) InvalidMessage))"

definition before_join :: "('m, 'z) mls_ext_scheme \<Rightarrow> string \<Rightarrow> bytes \<Rightarrow> 'm client \<Rightarrow> bool result" where
  "before_join E name bs c =
     ensure_e (length bs \<le> MAX_WIRE) InvalidMessage
     (bind_r (private_header E bs) (\<lambda>h.
      bind_r (group_named name c) (\<lambda>d.
      ensure_e (mh_group h = g_mls_id d) InvalidMessage
      (bind_r (or_err (select_one (\<lambda>j. fst j = g_gid d) (cl_join_epochs c)) (Sql ''no rows'')) (\<lambda>j.
       Inr (mh_epoch h < snd j))))))"

definition known_payload :: "bytes \<Rightarrow> 'm client \<Rightarrow> bool" where
  "known_payload bs c \<longleftrightarrow> bs \<in> set (cl_received c) \<or> bs \<in> ob_payload ` set (cl_outbox c)"

definition process_failure :: "process_error \<Rightarrow> error" where
  "process_failure e =
     (case e of StorageError \<Rightarrow> Anyhow ''MLS storage failure'' | LibraryError \<Rightarrow> Anyhow ''MLS library failure''
      | GroupStateError \<Rightarrow> Anyhow ''MLS group state failure'' | OtherError \<Rightarrow> InvalidMessage)"

definition process_message ::
    "('m, 'z) mls_ext_scheme \<Rightarrow> 'm mls_group \<Rightarrow> bytes \<Rightarrow> ('m mls_group \<times> processed) result" where
  "process_message E g bs =
     (case ms_process E (snd g) bs of
        Inl e \<Rightarrow> Inl (process_failure e) | Inr (m, p) \<Rightarrow> Inr ((fst g, m), p))"

definition receive :: "bytes \<Rightarrow> 'm client \<Rightarrow> 'm client result" where
  "receive bs c = bind_r (insert_row id bs (cl_received c)) (\<lambda>t. Inr (c\<lparr>cl_received := t\<rparr>))"

definition process_handshake ::
    "('m, 'z) mls_ext_scheme \<Rightarrow> string \<Rightarrow> bytes \<Rightarrow> nat \<Rightarrow> 'm client \<Rightarrow> 'm client result" where
  "process_handshake E name bs sequence c =
     bind_r (group_named name c) (\<lambda>d.
     bind_r (private_header E bs) (\<lambda>h.
     ensure_e (mh_group h = g_mls_id d \<and> mh_content h = Commit) InvalidMessage
     (if known_payload bs c then Inr c
      else bind_r (load_group d c) (\<lambda>g.
        bind_r (process_message E g bs) (\<lambda>(g, p).
        let c = save_group g c in
        bind_r (or_err (pr_sender p) InvalidMessage) (\<lambda>index.
        case pr_content p of
          StagedCommit commit \<Rightarrow>
            bind_r (validate_commit_author E d index commit sequence c) (\<lambda>_.
            bind_r (within (block_revoked_outbox E c)) (\<lambda>c.
            bind_r (or_err (ms_merge_staged E (snd g) commit) (Extern ''persist MLS commit'')) (\<lambda>m.
            bind_r (refresh_coordinator E (fst g, m) (save_group (fst g, m) c)) (receive bs))))
        | _ \<Rightarrow> Inl InvalidMessage))))))"

section \<open>Authority of commits\<close>

lemma commit_content [result_simps]:
  "(case k of ApplicationMessage a \<Rightarrow> Inl e | StagedCommit s \<Rightarrow> f s | OtherContent \<Rightarrow> Inl e') = Inr y \<longleftrightarrow>
     (\<exists>s. k = StagedCommit s \<and> f s = Inr y)"
  by (cases k) auto

lemma application_content [result_simps]:
  "(case k of ApplicationMessage a \<Rightarrow> f a | StagedCommit s \<Rightarrow> Inl e | OtherContent \<Rightarrow> Inl e') = Inr y \<longleftrightarrow>
     (\<exists>a. k = ApplicationMessage a \<and> f a = Inr y)"
  by (cases k) auto

text \<open>
  What an accepted commit satisfies: it only adds and removes members and leaves the author's key as
  it is; a revoked author committed before the cutoff; an author other than the recorded coordinator
  is the deterministic successor and removes the revoked leaves and nothing else.
\<close>

definition commit_authorized ::
    "('m, 'z) mls_ext_scheme \<Rightarrow> 'm mls_group \<Rightarrow> nat \<Rightarrow> staged_commit \<Rightarrow> nat \<Rightarrow> 'm client \<Rightarrow> bool" where
  "commit_authorized E g index commit sequence c \<longleftrightarrow>
     (\<exists>m \<in> set (ms_members E (snd g)). mm_index m = index \<and>
       (\<forall>leaf. sc_path_leaf commit = Some leaf \<longrightarrow> leaf = (mm_key m, mm_credential m)) \<and>
       (\<forall>cutoff. revoked_mls_key (mm_key m) c = Some cutoff \<longrightarrow> sequence \<le> cutoff) \<and>
       (stored_coordinator g c = Some (mm_key m) \<or>
        coordinator E g c = Some index \<and> sc_adds commit = 0 \<and> revoked_leaves E g c \<noteq> [] \<and>
          set (sc_removed commit) = set (revoked_leaves E g c)))"

lemma distinct_indices_find:
  assumes "distinct (map mm_index ms)" "m \<in> set ms" "find p ms = Some m'" "mm_index m' = mm_index m"
  shows "m = m'"
  using assms distinct_key_eq[of mm_index ms m m'] by (auto simp: find_Some_iff)

lemma validate_commit_author_sound:
  assumes "validate_commit_author E d index commit sequence c = Inr u" "load_group d c = Inr g"
    and d: "distinct (map mm_index (ms_members E (snd g)))"
  shows "commit_authorized E g index commit sequence c \<and> sc_queued commit = sc_adds commit + length (sc_removed commit)"
proof -
  let ?ms = "ms_members E (snd g)"
  let ?leader = "map_option mm_index (find (\<lambda>m. Some (mm_key m) = stored_coordinator g c) ?ms)"
  have "\<exists>m. find (\<lambda>m. mm_index m = index) ?ms = Some m \<and>
      (case sc_path_leaf commit of None \<Rightarrow> True | Some (key, credential) \<Rightarrow> key = mm_key m \<and> credential = mm_credential m) \<and>
      sc_queued commit = sc_adds commit + length (sc_removed commit) \<and>
      (case revoked_mls_key (mm_key m) c of None \<Rightarrow> True | Some cutoff \<Rightarrow> sequence \<le> cutoff) \<and>
      (?leader = Some index \<or> (coordinator E g c = Some index \<and> revoked_leaves E g c \<noteq> [] \<and>
      length (sc_removed commit) = length (revoked_leaves E g c) \<and>
      list_all (\<lambda>i. i \<in> set (sc_removed commit)) (revoked_leaves E g c) \<and> sc_queued commit = length (sc_removed commit)))"
    using assms(1,2) unfolding validate_commit_author_def Let_def
    by (cases "?leader = Some index") (auto simp: result_simps)
  then obtain m where m: "find (\<lambda>m. mm_index m = index) ?ms = Some m"
      "case sc_path_leaf commit of None \<Rightarrow> True | Some (key, credential) \<Rightarrow> key = mm_key m \<and> credential = mm_credential m"
      "sc_queued commit = sc_adds commit + length (sc_removed commit)"
      "case revoked_mls_key (mm_key m) c of None \<Rightarrow> True | Some cutoff \<Rightarrow> sequence \<le> cutoff"
    and final: "?leader = Some index \<or> (coordinator E g c = Some index \<and> revoked_leaves E g c \<noteq> [] \<and>
      length (sc_removed commit) = length (revoked_leaves E g c) \<and>
      list_all (\<lambda>i. i \<in> set (sc_removed commit)) (revoked_leaves E g c) \<and> sc_queued commit = length (sc_removed commit))"
    by blast
  have mem: "m \<in> set ?ms" "mm_index m = index" using m(1) by (auto simp: find_Some_iff)
  have "stored_coordinator g c = Some (mm_key m) \<or> coordinator E g c = Some index \<and> sc_adds commit = 0 \<and>
      revoked_leaves E g c \<noteq> [] \<and> set (sc_removed commit) = set (revoked_leaves E g c)"
  proof (cases "?leader = Some index")
    case True
    then obtain l where l: "find (\<lambda>m. Some (mm_key m) = stored_coordinator g c) ?ms = Some l" "mm_index l = index"
      by auto
    have "l = m" using distinct_indices_find[OF d mem(1) l(1)] l(2) mem(2) by simp
    then show ?thesis using l(1) by (auto simp: find_Some_iff)
  next
    case False
    with final have f: "coordinator E g c = Some index" "revoked_leaves E g c \<noteq> []"
        "length (sc_removed commit) = length (revoked_leaves E g c)" "set (revoked_leaves E g c) \<subseteq> set (sc_removed commit)"
        "sc_queued commit = length (sc_removed commit)" by (auto simp: list_all_iff)
    have "distinct (revoked_leaves E g c)" using d by (simp add: revoked_leaves_def distinct_map_filter)
    then have "card (set (sc_removed commit)) \<le> card (set (revoked_leaves E g c))"
      using f(3) card_length[of "sc_removed commit"] by (simp add: distinct_card)
    then have "set (sc_removed commit) = set (revoked_leaves E g c)"
      using card_seteq[OF _ f(4)] by simp
    then show ?thesis using f m(3) by simp
  qed
  then show ?thesis using m mem by (auto simp: commit_authorized_def split: option.split_asm)
qed

lemma process_message_id: "process_message E g bs = Inr (g', p) \<Longrightarrow> fst g' = fst g"
  by (auto simp: process_message_def split: sum.split_asm)

lemma process_handshake_authorized:
  assumes "process_handshake E name bs sequence c = Inr c'" "\<not> known_payload bs c"
    and "\<And>m. distinct (map mm_index (ms_members E m))"
  shows "\<exists>d g g' p index commit. group_named name c = Inr d \<and> load_group d c = Inr g \<and>
    process_message E g bs = Inr (g', p) \<and> pr_sender p = Some index \<and> pr_content p = StagedCommit commit \<and>
    commit_authorized E g' index commit sequence (save_group g' c)"
proof -
  have "\<exists>d g g' p index commit u. group_named name c = Inr d \<and> load_group d c = Inr g \<and>
      process_message E g bs = Inr (g', p) \<and> pr_sender p = Some index \<and> pr_content p = StagedCommit commit \<and>
      validate_commit_author E d index commit sequence (save_group g' c) = Inr u"
    using assms(1,2) unfolding process_handshake_def Let_def by (fastforce simp: result_simps)
  then obtain d g g' p index commit u where s: "group_named name c = Inr d" "load_group d c = Inr g"
      "process_message E g bs = Inr (g', p)" "pr_sender p = Some index" "pr_content p = StagedCommit commit"
      "validate_commit_author E d index commit sequence (save_group g' c) = Inr u" by blast
  have "load_group d (save_group g' c) = Inr g'"
    using s(2) process_message_id[OF s(3)] by (cases g') (auto simp: load_group_def save_group_def result_simps)
  from validate_commit_author_sound[OF s(6) this assms(3)] s show ?thesis by blast
qed

end
