(* ===== verification/Attachments.thy ===== *)
theory Attachments
  imports Channels
begin

text \<open>
  Attachment manifests (\<open>attachments.rs\<close>): validation, the envelope inside an application message,
  sealing and opening of the file bytes, and the index of manifests in the client's database. The
  AEAD and postcard are third-party code; clock and random bytes are arguments.
\<close>

definition HARD_MAX_BYTES :: nat where
  "HARD_MAX_BYTES = 67108864"

definition MAX_PLAINTEXT :: nat where
  "MAX_PLAINTEXT = 16384"

definition ATTACHMENT_PREFIX :: bytes where
  "ATTACHMENT_PREFIX = 255 # as_bytes ''EGATT''"

definition MANIFEST_VERSION :: byte where
  "MANIFEST_VERSION = 1"

record limits =
  max_bytes :: nat
  ttl_seconds :: nat

definition default_limits :: limits where
  "default_limits = \<lparr>max_bytes = 8388608, ttl_seconds = 604800\<rparr>"

definition limits_validate :: "limits \<Rightarrow> unit result" where
  "limits_validate l =
     ensure (1 \<le> max_bytes l \<and> max_bytes l \<le> HARD_MAX_BYTES) ''attachment size limit must be 1-67108864 bytes''
     (ensure (1 \<le> ttl_seconds l \<and> ttl_seconds l \<le> 31536000)
       ''attachment lifetime must be 1-31536000 seconds'' (Inr ()))"

definition object_id :: "string \<Rightarrow> unit result" where
  "object_id i = ensure (length i = 32 \<and> list_all is_hex_lower i) ''invalid attachment ID'' (Inr ())"

record attachment_manifest =
  mf_id :: string
  mf_filename :: string
  mf_mime :: string
  mf_size :: nat
  mf_ciphertext_size :: nat
  mf_expires_at :: nat
  mf_hash :: bytes
  mf_key :: bytes
  mf_nonce :: bytes

record 'm attachment_ext = "'m channel_ext" +
  pc_manifest :: "attachment_manifest \<Rightarrow> bytes option"
  pc_take_manifest :: "bytes \<Rightarrow> (attachment_manifest \<times> bytes) option"
  pc_aad :: "string \<times> string \<Rightarrow> bytes option"
  aead_encrypt :: "bytes \<Rightarrow> bytes \<Rightarrow> bytes \<Rightarrow> bytes \<Rightarrow> bytes option"
  aead_decrypt :: "bytes \<Rightarrow> bytes \<Rightarrow> bytes \<Rightarrow> bytes \<Rightarrow> bytes option"

text \<open>
  The documented contracts: postcard reads back what it wrote; AES-256-GCM opens what it sealed under the
  same key, nonce and associated data, and its ciphertext is 16 bytes longer. The arguments are key,
  text, nonce and associated data, in the order of the calls.
\<close>

definition manifest_roundtrip :: "('m, 'z) attachment_ext_scheme \<Rightarrow> bool" where
  "manifest_roundtrip E \<longleftrightarrow>
     (\<forall>m b rest. pc_manifest E m = Some b \<longrightarrow> pc_take_manifest E (b @ rest) = Some (m, rest))"

definition aead_roundtrip :: "('m, 'z) attachment_ext_scheme \<Rightarrow> bool" where
  "aead_roundtrip E \<longleftrightarrow>
     (\<forall>key plain nonce aad sealed. aead_encrypt E key plain nonce aad = Some sealed \<longrightarrow>
        length sealed = length plain + 16 \<and> aead_decrypt E key sealed nonce aad = Some plain)"

section \<open>Manifests\<close>

definition filename_ok :: "string \<Rightarrow> bool" where
  "filename_ok f \<longleftrightarrow> f \<noteq> [] \<and> length f \<le> 255 \<and> f \<noteq> ''.'' \<and> f \<noteq> ''..'' \<and>
     \<not> list_ex (\<lambda>p. is_control p \<or> p = 47 \<or> p = 92) (chars f)"

definition mime_ok :: "string \<Rightarrow> bool" where
  "mime_ok s \<longleftrightarrow> s \<noteq> [] \<and> length s \<le> 127 \<and> CHR ''/'' \<in> set s \<and>
     list_all (\<lambda>ch. is_ascii_alphanumeric ch \<or> ch \<in> set ''/.-+_'') s"

definition manifest_validate :: "attachment_manifest \<Rightarrow> unit result" where
  "manifest_validate m =
     bind_r (object_id (mf_id m)) (\<lambda>_.
     ensure (filename_ok (mf_filename m)) ''invalid attachment filename''
     (ensure (mime_ok (mf_mime m)) ''invalid attachment MIME type''
     (ensure (mf_size m \<le> HARD_MAX_BYTES \<and> mf_ciphertext_size m = mf_size m + 16 \<and> mf_expires_at m > 0)
       ''invalid attachment size or expiration'' (Inr ()))))"

definition aad :: "('m, 'z) attachment_ext_scheme \<Rightarrow> string \<Rightarrow> attachment_manifest \<Rightarrow> bytes result" where
  "aad E gid m = bind_r (pc (pc_aad E (gid, mf_id m))) (\<lambda>bs.
     Inr (as_bytes ''EpochGrid attachment v1'' @ [0] @ bs))"

definition manifest_summary :: "attachment_manifest \<Rightarrow> string" where
  "manifest_summary m = ''[attachment '' @ mf_id m @ ''] '' @ mf_filename m @ '' ('' @ decimal (mf_size m) @
     '' bytes, '' @ mf_mime m @ '')''"

definition manifest_encode :: "('m, 'z) attachment_ext_scheme \<Rightarrow> attachment_manifest \<Rightarrow> bytes result" where
  "manifest_encode E m =
     bind_r (manifest_validate m) (\<lambda>_.
     bind_r (pc (pc_manifest E m)) (\<lambda>encoded.
     let bs = ATTACHMENT_PREFIX @ [MANIFEST_VERSION] @ encoded in
     ensure (length bs \<le> MAX_PLAINTEXT) ''attachment manifest too large'' (Inr bs)))"

definition manifest_decode :: "('m, 'z) attachment_ext_scheme \<Rightarrow> bytes \<Rightarrow> attachment_manifest option result" where
  "manifest_decode E bs =
     (if \<not> starts_with ATTACHMENT_PREFIX bs then Inr None
      else ensure (length bs \<le> MAX_PLAINTEXT \<and> length ATTACHMENT_PREFIX < length bs \<and>
          bs ! length ATTACHMENT_PREFIX = MANIFEST_VERSION) ''unsupported attachment manifest version''
        (bind_r (or_err (pc_take_manifest E (drop (length ATTACHMENT_PREFIX + 1) bs)) (Extern ''postcard''))
          (\<lambda>(m, rest).
           ensure (rest = []) ''trailing attachment manifest bytes''
           (bind_r (manifest_validate m) (\<lambda>_. Inr (Some m))))))"

definition display :: "('m, 'z) attachment_ext_scheme \<Rightarrow> bytes \<Rightarrow> string" where
  "display E bs =
     (case manifest_decode E bs of
        Inr (Some m) \<Rightarrow> manifest_summary m
      | Inr None \<Rightarrow> from_utf8_lossy bs
      | Inl _ \<Rightarrow> ''[unsupported or invalid attachment]'')"

section \<open>Sealing and opening\<close>

definition attachment_decrypt ::
    "('m, 'z) attachment_ext_scheme \<Rightarrow> nat \<Rightarrow> string \<Rightarrow> bytes \<Rightarrow> limits \<Rightarrow> attachment_manifest \<Rightarrow> bytes result" where
  "attachment_decrypt E now gid ciphertext l m =
     bind_r (manifest_validate m) (\<lambda>_.
     bind_r (limits_validate l) (\<lambda>_.
     ensure (mf_size m \<le> max_bytes l \<and> length ciphertext = mf_ciphertext_size m)
       ''attachment exceeds size limit or is truncated''
     (ensure (now < mf_expires_at m) ''attachment expired''
     (bind_r (aad E gid m) (\<lambda>a.
      bind_r (or_err (aead_decrypt E (mf_key m) ciphertext (mf_nonce m) a)
        (Anyhow ''attachment authentication failed'')) (\<lambda>plaintext.
      bind_r (hash E plaintext) (\<lambda>h.
      ensure (length plaintext = mf_size m \<and> h = mf_hash m) ''attachment content hash mismatch''
        (Inr plaintext))))))))"

text \<open>The random object id, key and nonce are arguments.\<close>

definition attachment_encrypt ::
    "('m, 'z) attachment_ext_scheme \<Rightarrow> nat \<Rightarrow> bytes \<times> bytes \<times> bytes \<Rightarrow> string \<Rightarrow> string \<Rightarrow> string \<Rightarrow> bytes \<Rightarrow> limits
      \<Rightarrow> (attachment_manifest \<times> bytes) result" where
  "attachment_encrypt E now random gid filename mime bs l =
     (case random of (random_id, key, nonce) \<Rightarrow>
     bind_r (limits_validate l) (\<lambda>_.
     ensure (length bs \<le> max_bytes l) ''attachment exceeds configured size limit''
     (ensure (now + ttl_seconds l \<le> U64_MAX) ''attachment expiration overflow''
     (bind_r (hash E bs) (\<lambda>h.
      let m = \<lparr>mf_id = hex_text random_id, mf_filename = filename, mf_mime = mime, mf_size = length bs,
          mf_ciphertext_size = length bs + 16, mf_expires_at = now + ttl_seconds l, mf_hash = h,
          mf_key = key, mf_nonce = nonce\<rparr> in
      bind_r (manifest_validate m) (\<lambda>_.
      bind_r (aad E gid m) (\<lambda>a.
      bind_r (or_err (aead_encrypt E key bs nonce a) (Anyhow ''attachment encryption failed'')) (\<lambda>ciphertext.
      Inr (m, ciphertext)))))))))"

section \<open>The local index\<close>

definition attachment_at :: "string \<Rightarrow> string \<Rightarrow> 'm client \<Rightarrow> attachment_row option" where
  "attachment_at gid i c = select_one (\<lambda>a. at_gid a = gid \<and> at_object a = i) (cl_attachments c)"

definition index_attachment ::
    "('m, 'z) attachment_ext_scheme \<Rightarrow> string \<Rightarrow> bytes \<Rightarrow> 'm client \<Rightarrow> 'm client result" where
  "index_attachment E gid bs c =
     (case manifest_decode E bs of
        Inl _ \<Rightarrow> Inl InvalidMessage
      | Inr None \<Rightarrow> Inr c
      | Inr (Some m) \<Rightarrow>
          (case attachment_at gid (mf_id m) c of
             None \<Rightarrow> Inr (c\<lparr>cl_attachments := cl_attachments c @
               [\<lparr>at_gid = gid, at_object = mf_id m, at_manifest = bs\<rparr>]\<rparr>)
           | Some old \<Rightarrow> ensure_e (at_manifest old = bs) InvalidMessage (Inr c)))"

definition stored_manifest :: "('m, 'z) attachment_ext_scheme \<Rightarrow> attachment_row \<Rightarrow> attachment_manifest result" where
  "stored_manifest E a = bind_r (manifest_decode E (at_manifest a)) (\<lambda>m.
     or_err m (Anyhow ''invalid stored attachment''))"

definition attachments :: "('m, 'z) attachment_ext_scheme \<Rightarrow> string \<Rightarrow> 'm client \<Rightarrow> attachment_manifest list result" where
  "attachments E name c =
     bind_r (group_named name c) (\<lambda>d.
     map_r (stored_manifest E) (take 1000 (sort_key at_object
       (filter (\<lambda>a. at_gid a = g_gid d) (cl_attachments c)))))"

definition attachment :: "('m, 'z) attachment_ext_scheme \<Rightarrow> string \<Rightarrow> string \<Rightarrow> 'm client \<Rightarrow> attachment_manifest result" where
  "attachment E name i c =
     bind_r (object_id i) (\<lambda>_.
     bind_r (group_named name c) (\<lambda>d.
     bind_r (or_err (attachment_at (g_gid d) i c)
       (Anyhow ''attachment not found in authenticated local history; sync the channel first'')) (stored_manifest E)))"

section \<open>Lemmas\<close>

lemma object_id_ok [result_simps]: "object_id i = Inr u \<longleftrightarrow> length i = 32 \<and> list_all is_hex_lower i"
  by (simp add: object_id_def result_simps)

lemma manifest_decode_encode:
  assumes "manifest_roundtrip E" "manifest_encode E m = Inr bs"
  shows "manifest_decode E bs = Inr (Some m)"
proof -
  from assms(2) obtain b u where b: "manifest_validate m = Inr u" "pc_manifest E m = Some b"
      "bs = ATTACHMENT_PREFIX @ [MANIFEST_VERSION] @ b" "length bs \<le> MAX_PLAINTEXT"
    by (auto simp: manifest_encode_def pc_def Let_def result_simps)
  have "pc_take_manifest E b = Some (m, [])"
    using assms(1) b(2) by (metis append_Nil2 manifest_roundtrip_def)
  with b show ?thesis by (simp add: manifest_decode_def nth_append)
qed

lemma attachment_round_trip_lemma:
  assumes "aead_roundtrip E" "attachment_encrypt E now random gid filename mime bs l = Inr (m, sealed)"
    "later < mf_expires_at m"
  shows "attachment_decrypt E later gid sealed l m = Inr bs"
proof -
  obtain i key nonce where r: "random = (i, key, nonce)" by (cases random)
  have e: "\<exists>a. manifest_validate m = Inr () \<and> limits_validate l = Inr () \<and> length bs \<le> max_bytes l \<and>
      hash E bs = Inr (mf_hash m) \<and> mf_size m = length bs \<and> mf_ciphertext_size m = length bs + 16 \<and>
      aad E gid m = Inr a \<and> aead_encrypt E (mf_key m) bs (mf_nonce m) a = Some sealed"
    using assms(2) unfolding attachment_encrypt_def r Let_def prod.case result_simps
    by (elim exE conjE) (use old.unit.exhaust in fastforce)
  then obtain a where f: "manifest_validate m = Inr ()" "limits_validate l = Inr ()"
      "length bs \<le> max_bytes l" "hash E bs = Inr (mf_hash m)" "mf_size m = length bs"
      "mf_ciphertext_size m = length bs + 16" "aad E gid m = Inr a"
      "aead_encrypt E (mf_key m) bs (mf_nonce m) a = Some sealed" by blast
  then have "length sealed = length bs + 16" "aead_decrypt E (mf_key m) sealed (mf_nonce m) a = Some bs"
    using assms(1) by (auto simp: aead_roundtrip_def)
  with f assms(3) show ?thesis by (simp add: attachment_decrypt_def)
qed

lemma attachment_decrypt_bound:
  "attachment_decrypt E now gid sealed l m = Inr bs \<Longrightarrow>
     length bs = mf_size m \<and> length bs \<le> max_bytes l \<and> hash E bs = Inr (mf_hash m) \<and> now < mf_expires_at m"
  unfolding attachment_decrypt_def bind_r_eq_Inr ensure_eq_Inr by (elim exE conjE) simp

definition attachments_ok :: "('m, 'z) attachment_ext_scheme \<Rightarrow> 'm client \<Rightarrow> bool" where
  "attachments_ok E c \<longleftrightarrow> distinct (map (\<lambda>a. (at_gid a, at_object a)) (cl_attachments c)) \<and>
     list_all (\<lambda>a. \<exists>m. manifest_decode E (at_manifest a) = Inr (Some m) \<and> mf_id m = at_object a) (cl_attachments c)"

text \<open>Indexing keeps every row, adds at most one, and keeps the index keyed by what the manifests say.\<close>

lemma index_attachment_cases:
  assumes "index_attachment E gid bs c = Inr c'"
  shows "c' = c \<or> (\<exists>m. manifest_decode E bs = Inr (Some m) \<and> attachment_at gid (mf_id m) c = None \<and>
    c' = c\<lparr>cl_attachments := cl_attachments c @ [\<lparr>at_gid = gid, at_object = mf_id m, at_manifest = bs\<rparr>]\<rparr>)"
  using assms by (simp add: index_attachment_def ensure_e_eq_Inr split: sum.split_asm option.split_asm)

lemma index_attachment_ok:
  assumes "attachments_ok E c" "index_attachment E gid bs c = Inr c'"
  shows "attachments_ok E c'"
  using index_attachment_cases[OF assms(2)] assms(1)
  by (fastforce simp: attachments_ok_def attachment_at_def select_one_None)

lemma index_attachment_frame:
  "index_attachment E gid bs c = Inr c' \<Longrightarrow> c' = c\<lparr>cl_attachments := cl_attachments c'\<rparr>"
  using index_attachment_cases[of E gid bs c c'] by auto

end
