(* ===== verification/Relationships.thy ===== *)
theory Relationships
  imports Attachments "HOL-Library.Product_Lexorder"
begin

text \<open>
  Application events and their projection (\<open>relationships.rs\<close>): the event format with its canonical
  encoding, message ids, the index of events, who may edit or react, and the text that replies,
  edits and reactions produce. Message ids and nonces are byte lists of the length the array types
  fix; the nonce of a new event is an argument.
\<close>

definition EVENT_PREFIX :: bytes where
  "EVENT_PREFIX = 255 # as_bytes ''EGMSG''"

definition MAX_APPLICATION :: nat where
  "MAX_APPLICATION = MAX_PLAINTEXT + 512"

datatype relation =
    ReplyTo bytes
  | Replace bytes
  | Reaction bytes string bool

definition relation_target :: "relation \<Rightarrow> bytes" where
  "relation_target r = (case r of ReplyTo i \<Rightarrow> i | Replace i \<Rightarrow> i | Reaction i _ _ \<Rightarrow> i)"

record application_event =
  ae_nonce :: bytes
  ae_counter :: nat
  ae_content :: bytes
  ae_relation :: "relation option"

record 'm app_ext = "'m attachment_ext" +
  pc_event :: "application_event \<Rightarrow> bytes option"
  pc_take_event :: "bytes \<Rightarrow> (application_event \<times> bytes) option"
  pc_application_id :: "string \<times> string \<times> string \<times> bytes \<Rightarrow> bytes option"
  pc_legacy_id :: "string \<times> string \<times> bytes \<Rightarrow> bytes option"

text \<open>Postcard's contract for events; \<open>from_bytes\<close> is \<open>take_from_bytes\<close> without the rest.\<close>

definition event_roundtrip :: "('m, 'z) app_ext_scheme \<Rightarrow> bool" where
  "event_roundtrip E \<longleftrightarrow>
     (\<forall>e b rest. pc_event E e = Some b \<longrightarrow> pc_take_event E (b @ rest) = Some (e, rest))"

definition from_bytes_event :: "('m, 'z) app_ext_scheme \<Rightarrow> bytes \<Rightarrow> application_event result" where
  "from_bytes_event E bs = or_err (map_option fst (pc_take_event E bs)) (Extern ''postcard'')"

section \<open>Events\<close>

definition event_validate :: "application_event \<Rightarrow> unit result" where
  "event_validate e =
     ensure (1 \<le> ae_counter e \<and> ae_counter e \<le> I64_MAX) ''invalid application counter''
     (bind_r
       (case ae_relation e of
          Some (Reaction _ value _) \<Rightarrow>
            ensure (ae_content e = [] \<and> value \<noteq> [] \<and> length value \<le> 32 \<and>
                \<not> list_ex (\<lambda>p. is_control p \<or> is_whitespace p) (chars value))
              ''reaction must contain 1-32 non-whitespace UTF-8 bytes and no content'' (Inr ())
        | _ \<Rightarrow>
            ensure (ae_content e \<noteq> [] \<and> length (ae_content e) \<le> MAX_PLAINTEXT)
              ''message content must contain 1-16384 bytes'' (Inr ())) (\<lambda>_.
      case ae_relation e of
        Some (Replace _) \<Rightarrow> ensure (utf8_valid (ae_content e)) ''replacement must be text'' (Inr ())
      | _ \<Rightarrow> Inr ()))"

definition event_wire :: "('m, 'z) app_ext_scheme \<Rightarrow> application_event \<Rightarrow> bytes result" where
  "event_wire E e =
     bind_r (event_validate e) (\<lambda>_.
     bind_r (pc (pc_event E e)) (\<lambda>bs. Inr (EVENT_PREFIX @ [1] @ bs)))"

definition event_decode :: "('m, 'z) app_ext_scheme \<Rightarrow> bytes \<Rightarrow> application_event option result" where
  "event_decode E bs =
     (if \<not> starts_with EVENT_PREFIX bs
      then ensure (length bs \<le> MAX_PLAINTEXT) ''oversized legacy message'' (Inr None)
      else ensure (length bs \<le> MAX_APPLICATION \<and> length EVENT_PREFIX < length bs \<and> bs ! length EVENT_PREFIX = 1)
          ''unsupported application envelope''
        (bind_r (or_err (pc_take_event E (drop (length EVENT_PREFIX + 1) bs)) (Extern ''postcard'')) (\<lambda>(e, rest).
         ensure (rest = []) ''trailing application bytes''
         (bind_r (event_validate e) (\<lambda>_.
          bind_r (event_wire E e) (\<lambda>again.
          ensure (again = bs) ''noncanonical application envelope'' (Inr (Some e))))))))"

definition is_root :: "application_event \<Rightarrow> bool" where
  "is_root e \<longleftrightarrow> (case ae_relation e of None \<Rightarrow> True | Some (ReplyTo _) \<Rightarrow> True | _ \<Rightarrow> False)"

definition id_text :: "bytes \<Rightarrow> string" where
  "id_text i = hex_text i"

definition event_transcript :: "application_event \<Rightarrow> bytes" where
  "event_transcript e =
     (case ae_relation e of
        None \<Rightarrow> ae_content e
      | Some (ReplyTo _) \<Rightarrow> ae_content e
      | Some (Replace i) \<Rightarrow>
          as_bytes (''[edit '' @ take 12 (id_text i) @ ''] '' @ from_utf8_lossy (ae_content e))
      | Some (Reaction target value add) \<Rightarrow>
          as_bytes (''[reaction '' @ (if add then ''add'' else ''remove'') @ '' '' @ take 12 (id_text target) @
            '' '' @ value @ '']''))"

definition parse_id :: "string \<Rightarrow> bytes result" where
  "parse_id text =
     ensure (length text = 64 \<and> list_all is_hex_lower text)
       ''message ID must be 64 lowercase hexadecimal characters'' (Inr (unhex text))"

section \<open>The event index\<close>

text \<open>\<open>message_events e JOIN transcript t ON t.id = e.transcript_id WHERE e.gid = gid AND ...\<close>\<close>

definition event_join :: "string \<Rightarrow> (event_row \<Rightarrow> bool) \<Rightarrow> 'm client \<Rightarrow> (event_row \<times> transcript_row) list" where
  "event_join gid p c =
     concat (map (\<lambda>e. map (Pair e) (filter (\<lambda>t. tr_id t = me_transcript e) (cl_transcript c)))
       (filter (\<lambda>e. me_gid e = gid \<and> p e) (cl_events c)))"

definition new_event ::
    "bytes option \<Rightarrow> string \<Rightarrow> bytes \<Rightarrow> relation option \<Rightarrow> 'm client \<Rightarrow> application_event result" where
  "new_event nonce name content relation c =
     bind_r (own_registration c) (\<lambda>r.
     bind_r (group_named name c) (\<lambda>d.
     let counter = foldr max (map (me_counter \<circ> fst) (filter (\<lambda>(_, t). tr_sender t = Some (identity_text (dr_payload r)))
           (event_join (g_gid d) (\<lambda>_. True) c))) 0 in
     ensure (counter + 1 \<le> U64_MAX) ''application counter exhausted''
     (bind_r (or_err nonce (Extern ''message randomness'')) (\<lambda>n.
      let e = \<lparr>ae_nonce = n, ae_counter = counter + 1, ae_content = content, ae_relation = relation\<rparr> in
      bind_r (event_validate e) (\<lambda>_. Inr e)))))"

definition relation_kind :: "relation option \<Rightarrow> nat" where
  "relation_kind r = (case r of None \<Rightarrow> 0 | Some (ReplyTo _) \<Rightarrow> 1 | Some (Replace _) \<Rightarrow> 2 | Some (Reaction _ _ _) \<Rightarrow> 3)"

definition application_identity ::
    "('m, 'z) app_ext_scheme \<Rightarrow> string \<Rightarrow> string \<Rightarrow> bytes \<Rightarrow> application_event option \<Rightarrow> bytes
      \<Rightarrow> (bytes \<times> application_event) result" where
  "application_identity E gid sender ciphertext event plaintext =
     (case event of
        Some e \<Rightarrow>
          bind_r (event_wire E e) (\<lambda>w.
          bind_r (pc (pc_application_id E (''epochgrid application id v1'', gid, sender, w))) (\<lambda>bs.
          bind_r (hash E bs) (\<lambda>i. Inr (i, e))))
      | None \<Rightarrow>
          bind_r (pc (pc_legacy_id E (''epochgrid legacy id v1'', gid, ciphertext))) (\<lambda>bs.
          bind_r (hash E bs) (\<lambda>i.
          Inr (i, \<lparr>ae_nonce = replicate 16 0, ae_counter = 0, ae_content = plaintext, ae_relation = None\<rparr>))))"

definition inherit_displayed :: "nat \<Rightarrow> string \<Rightarrow> string \<Rightarrow> 'm client \<Rightarrow> 'm client" where
  "inherit_displayed row gid i c = c\<lparr>cl_transcript := update_where
     (\<lambda>t. tr_id t = row \<and> list_ex (\<lambda>(_, t). tr_displayed t) (event_join gid (\<lambda>e. me_message_id e = i) c))
     (\<lambda>t. t\<lparr>tr_displayed := True\<rparr>) (cl_transcript c)\<rparr>"

definition index_application ::
    "('m, 'z) app_ext_scheme \<Rightarrow> nat \<Rightarrow> string \<Rightarrow> string \<Rightarrow> bytes \<Rightarrow> application_event option \<Rightarrow> bytes \<Rightarrow> 'm client
      \<Rightarrow> 'm client result" where
  "index_application E row gid sender ciphertext event plaintext c =
     bind_r (application_identity E gid sender ciphertext event plaintext) (\<lambda>(i, e).
     bind_r (pc (pc_event E e)) (\<lambda>bs.
     bind_r (insert_row me_transcript \<lparr>me_transcript = row, me_gid = gid, me_message_id = id_text i,
         me_target = map_option (id_text \<circ> relation_target) (ae_relation e),
         me_kind = relation_kind (ae_relation e), me_counter = ae_counter e, me_event = bs\<rparr> (cl_events c))
       (\<lambda>events. Inr (inherit_displayed row gid (id_text i) (c\<lparr>cl_events := events\<rparr>)))))"

definition application_id :: "nat \<Rightarrow> 'm client \<Rightarrow> string option" where
  "application_id row c = map_option me_message_id (select_one (\<lambda>e. me_transcript e = row) (cl_events c))"

text \<open>SQLite's \<open>LIKE\<close> ignores the case of ASCII letters; the prefix holds no wildcard.\<close>

definition resolve_message :: "string \<Rightarrow> string \<Rightarrow> 'm client \<Rightarrow> bytes result" where
  "resolve_message name prefix c =
     ensure (8 \<le> length prefix \<and> length prefix \<le> 64 \<and> list_all is_hex_lower prefix)
       ''use at least eight lowercase hexadecimal ID characters''
     (bind_r (group_named name c) (\<lambda>d.
      let ids = take 2 (remdups (map me_message_id (filter (\<lambda>e. me_gid e = g_gid d \<and>
            starts_with (to_ascii_lower prefix) (to_ascii_lower (me_message_id e))) (cl_events c)))) in
      ensure (length ids = 1) ''unknown or ambiguous message ID'' (parse_id (hd ids))))"

section \<open>Stored events\<close>

record stored_event =
  se_row :: nat
  se_sender :: string
  se_id :: string
  se_event :: application_event

definition unpack ::
    "('m, 'z) app_ext_scheme \<Rightarrow> event_row \<times> transcript_row \<Rightarrow> stored_event result" where
  "unpack E et = (case et of (e, t) \<Rightarrow>
     bind_r (or_err (tr_sender t) (Sql ''Invalid column type Null'')) (\<lambda>sender.
     bind_r (from_bytes_event E (me_event e)) (\<lambda>ev.
     Inr \<lparr>se_row = me_transcript e, se_sender = sender, se_id = me_message_id e, se_event = ev\<rparr>)))"

definition stream_order :: "transcript_row \<Rightarrow> bool \<times> nat" where
  "stream_order t = (case tr_sequence t of None \<Rightarrow> (True, 0) | Some s \<Rightarrow> (False, s))"

definition application ::
    "('m, 'z) app_ext_scheme \<Rightarrow> string \<Rightarrow> bytes \<Rightarrow> 'm client \<Rightarrow> stored_event option result" where
  "application E gid i c =
     (case sort_key (\<lambda>(e, t). (stream_order t, me_transcript e))
             (event_join gid (\<lambda>e. me_message_id e = id_text i) c) of
        [] \<Rightarrow> Inr None
      | et # _ \<Rightarrow> bind_r (unpack E et) (\<lambda>s. Inr (Some s)))"

definition validate_relation ::
    "('m, 'z) app_ext_scheme \<Rightarrow> string \<Rightarrow> relation \<Rightarrow> 'm client \<Rightarrow> unit result" where
  "validate_relation E name relation c =
     bind_r (group_named name c) (\<lambda>d.
     bind_r (application E (g_gid d) (relation_target relation) c) (\<lambda>found.
     bind_r (or_err found (Anyhow ''target message is not available locally'')) (\<lambda>target.
     ensure (is_root (se_event target)) ''relationships must target a message or reply''
     (case relation of
        Replace _ \<Rightarrow>
          bind_r (own_registration c) (\<lambda>r.
          ensure (se_sender target = identity_text (dr_payload r))
            ''only the original sending device can edit a message''
          (ensure (utf8_valid (ae_content (se_event target))) ''only text messages can be edited'' (Inr ())))
      | _ \<Rightarrow> Inr ()))))"

section \<open>Projection\<close>

text \<open>
  The loop over the edits and reactions of a message: ids seen, current content, edited flag, and
  the latest state of each reaction by device and value.
\<close>

type_synonym projection = "string set \<times> bytes \<times> bool \<times> ((string \<times> string) \<times> bool) list"

definition assoc_update :: "'k \<Rightarrow> 'v \<Rightarrow> ('k \<times> 'v) list \<Rightarrow> ('k \<times> 'v) list" where
  "assoc_update k v xs = filter (\<lambda>x. fst x \<noteq> k) xs @ [(k, v)]"

definition project_update :: "stored_event \<Rightarrow> stored_event \<Rightarrow> projection \<Rightarrow> projection" where
  "project_update msg update s = (case s of (seen, content, edited, reactions) \<Rightarrow>
     if se_id update \<in> seen then s
     else let seen = insert (se_id update) seen in
       (case ae_relation (se_event update) of
          Some (Replace _) \<Rightarrow>
            if se_sender update = se_sender msg \<and> utf8_valid (ae_content (se_event msg))
            then (seen, ae_content (se_event update), True, reactions) else (seen, content, edited, reactions)
        | Some (Reaction _ value add) \<Rightarrow> (seen, content, edited, assoc_update (se_sender update, value) add reactions)
        | _ \<Rightarrow> (seen, content, edited, reactions)))"

definition updates_of ::
    "string \<Rightarrow> stored_event \<Rightarrow> 'm client \<Rightarrow> (event_row \<times> transcript_row) list" where
  "updates_of gid msg c = sort_key (\<lambda>(e, _). (me_counter e, me_message_id e, me_transcript e))
     (event_join gid (\<lambda>e. me_target e = Some (se_id msg) \<and> me_kind e \<in> {2, 3}) c)"

definition device_user :: "string \<Rightarrow> string" where
  "device_user device = (case split_once CHR ''/'' device of None \<Rightarrow> device | Some (u, _) \<Rightarrow> u)"

definition reaction_lines :: "((string \<times> string) \<times> bool) list \<Rightarrow> string" where
  "reaction_lines reactions = (let active = map fst (filter snd reactions) in
     concat (map (\<lambda>value. CHR 0x0A # ''[reaction '' @ value @ '': '' @
         join '', '' (sort (remdups (map (device_user \<circ> fst) (filter (\<lambda>k. snd k = value) active)))) @ '']'')
       (sort (remdups (map snd active)))))"

definition projected_control ::
    "('m, 'z) app_ext_scheme \<Rightarrow> string \<Rightarrow> stored_event \<Rightarrow> 'm client \<Rightarrow> string result" where
  "projected_control E gid msg c =
     bind_r (or_err (ae_relation (se_event msg)) (Anyhow ''control relation missing'')) (\<lambda>relation.
     bind_r (application E gid (relation_target relation) c) (\<lambda>found.
     case found of
       None \<Rightarrow> Inr (''[unresolved '' @ take 12 (id_text (relation_target relation)) @ ''] '' @
         from_utf8_lossy (event_transcript (se_event msg)))
     | Some target \<Rightarrow>
         if \<not> is_root (se_event target) \<or>
             ((case relation of Replace _ \<Rightarrow> True | _ \<Rightarrow> False) \<and>
               (se_sender target \<noteq> se_sender msg \<or> \<not> utf8_valid (ae_content (se_event target))))
         then Inr (''[ignored relationship to '' @ take 12 (se_id target) @ '': unauthorized or invalid target]'')
         else or_err (from_utf8 (event_transcript (se_event msg))) (Extern ''invalid utf-8'')))"

definition projected ::
    "('m, 'z) app_ext_scheme \<Rightarrow> string \<Rightarrow> stored_event \<Rightarrow> 'm client \<Rightarrow> string result" where
  "projected E gid msg c =
     (if \<not> is_root (se_event msg) then projected_control E gid msg c
      else bind_r (map_r (unpack E) (updates_of gid msg c)) (\<lambda>updates.
        case fold (project_update msg) updates ({}, ae_content (se_event msg), False, []) of
          (_, content, edited, reactions) \<Rightarrow>
            let text = display E content @ (if edited then '' [edited]'' else []) in
            bind_r (case ae_relation (se_event msg) of
                Some (ReplyTo parent) \<Rightarrow>
                  bind_r (application E gid parent c) (\<lambda>found.
                  let who = (case found of
                      Some p \<Rightarrow> if is_root (se_event p) then se_sender p else ''unavailable''
                    | None \<Rightarrow> ''unavailable'') in
                  Inr (''[reply to '' @ who @ '' '' @ take 12 (id_text parent) @ '']'' @ [CHR 0x0A] @ text))
              | _ \<Rightarrow> Inr text) (\<lambda>text.
            Inr (text @ reaction_lines reactions))))"

section \<open>Lemmas\<close>

lemma id_text_parse:
  "length i = 32 \<Longrightarrow> parse_id (id_text i) = Inr i"
  "parse_id s = Inr i \<Longrightarrow> id_text i = s \<and> length i = 32"
  using hex_text_lower[of i]
  by (auto simp: parse_id_def id_text_def ensure_eq_Inr hex_text_unhex length_unhex)

lemma event_wire_ok:
  "event_wire E e = Inr bs \<longleftrightarrow>
     event_validate e = Inr () \<and> (\<exists>b. pc_event E e = Some b \<and> bs = EVENT_PREFIX @ [1] @ b)"
  by (auto simp: event_wire_def pc_def result_simps)

lemma event_decode_canonical:
  "event_decode E bs = Inr (Some e) \<Longrightarrow> event_wire E e = Inr bs \<and> length bs \<le> MAX_APPLICATION"
  by (auto simp: event_decode_def result_simps split: if_splits)

lemma event_decode_wire:
  assumes "event_roundtrip E" "event_wire E e = Inr bs" "length bs \<le> MAX_APPLICATION"
  shows "event_decode E bs = Inr (Some e)"
proof -
  from assms(2) obtain b where b: "event_validate e = Inr ()" "pc_event E e = Some b"
      "bs = EVENT_PREFIX @ [1] @ b" by (auto simp: event_wire_ok)
  have "pc_take_event E b = Some (e, [])" using assms(1) b(2) by (metis append_Nil2 event_roundtrip_def)
  with assms(2,3) b show ?thesis by (simp add: event_decode_def nth_append)
qed

text \<open>The content of a projected message is its own, or that of an edit by the device that sent it.\<close>

definition edit_of :: "stored_event \<Rightarrow> stored_event \<Rightarrow> bytes \<Rightarrow> bool" where
  "edit_of msg u content \<longleftrightarrow> se_sender u = se_sender msg \<and>
     (\<exists>i. ae_relation (se_event u) = Some (Replace i)) \<and> content = ae_content (se_event u)"

lemma project_update_content:
  assumes "project_update msg u (seen, content, edited, rs) = (seen', content', edited', rs')"
  shows "content' = content \<or> (edited' \<and> edit_of msg u content')" "edited \<Longrightarrow> edited'"
  using assms
  by (auto simp: project_update_def edit_of_def Let_def split: if_split_asm option.split_asm relation.split_asm)

lemma project_content:
  assumes "fold (project_update msg) updates (seen, content, edited, rs) = (seen', content', edited', rs')"
  shows "(content' = content \<or> (edited' \<and> (\<exists>u \<in> set updates. edit_of msg u content'))) \<and> (edited \<longrightarrow> edited')"
  using assms
proof (induction updates arbitrary: seen content edited rs)
  case (Cons u us)
  obtain seen1 content1 edited1 rs1 where
      1: "project_update msg u (seen, content, edited, rs) = (seen1, content1, edited1, rs1)"
    by (metis prod.exhaust)
  have "fold (project_update msg) us (seen1, content1, edited1, rs1) = (seen', content', edited', rs')"
    using Cons.prems 1 by simp
  from Cons.IH[OF this] project_update_content[OF 1] show ?case by auto
qed simp

end
