(* ===== verification/Outbox.thy ===== *)
theory Outbox
  imports Relationships Policy
begin

text \<open>
  The durable outbox of the client: queueing inside a transaction (\<open>delivery.rs\<close>), the queued
  authorization intents and Welcome relays (\<open>authorization/delivery.rs\<close>), the operations that
  queue handshakes (\<open>groups.rs\<close>, \<open>delivery.rs\<close>, \<open>rekey.rs\<close>, \<open>participants.rs\<close>), and the
  flush loop. Replies of the broker are functions of what is sent, collected in \<open>network\<close>.
\<close>

record intent =
  it_version :: nat
  it_gid :: string
  it_epoch :: nat
  it_leaves :: "(nat \<times> bytes \<times> bytes) list"

record 'm outbox_ext = "'m app_ext" +
  pc_intent :: "intent \<Rightarrow> bytes option"
  un_intent :: "bytes \<Rightarrow> intent option"
  pc_welcome_relay :: "welcome_relay \<Rightarrow> bytes option"
  un_welcome_relay :: "bytes \<Rightarrow> welcome_relay option"

section \<open>Queueing\<close>

definition next_rowid :: "nat list \<Rightarrow> nat" where
  "next_rowid ids = Suc (foldr max ids 0)"

text \<open>
  Every caller holds the transaction that the source checks with \<open>is_autocommit\<close>: \<open>queue\<close> has no
  effect of its own on the database, its result is committed by the caller's transaction.
\<close>

definition queue_reserve :: "'m client \<Rightarrow> nat" where
  "queue_reserve c = (if cl_recovery c then 32 else 0)"

definition queue :: "'m cpager \<Rightarrow> string \<Rightarrow> bytes \<Rightarrow> 'm client \<Rightarrow> 'm client result" where
  "queue P s payload c =
     ensure (length payload \<le> MAX_WIRE) ''MLS message exceeds transport limit''
     (bind_r (check_database (cl_capacity c) (P c) (cl_recovery c)) (\<lambda>_.
      ensure (length (unsent c) < pending_messages (cl_capacity c) + queue_reserve c \<and>
          unsent_bytes c + length payload \<le> U64_MAX \<and>
          unsent_bytes c + length payload \<le> pending_bytes (cl_capacity c) + queue_reserve c * MAX_WIRE)
        ''capacity exhausted: outbox; pending messages retained''
      (bind_r (insert_row ob_payload \<lparr>ob_id = next_rowid (map ob_id (cl_outbox c)), ob_subject = s,
          ob_payload = payload, ob_sent = False\<rparr> (cl_outbox c)) (\<lambda>t.
       Inr (c\<lparr>cl_outbox := t\<rparr>)))))"

definition dynamic_authorization :: "'z externals_scheme \<Rightarrow> 'm client \<Rightarrow> bool result" where
  "dynamic_authorization E c =
     bind_r (own_registration c) (\<lambda>r. Inr (is_ok (user_id_try_from E (rp_user_id (dr_payload r)))))"

definition intent_of :: "('m, 'z) mls_ext_scheme \<Rightarrow> 'm mls_group \<Rightarrow> intent result" where
  "intent_of E g = bind_r (from_mls_id (fst g)) (\<lambda>d.
     Inr \<lparr>it_version = 1, it_gid = g_gid d, it_epoch = ms_epoch E (snd g),
       it_leaves = map (\<lambda>m. (mm_index m, mm_key m, mm_credential m)) (ms_members E (snd g))\<rparr>)"

definition queue_policy ::
    "('m, 'z) outbox_ext_scheme \<Rightarrow> 'm cpager \<Rightarrow> 'm mls_group \<Rightarrow> 'm client \<Rightarrow> 'm client result" where
  "queue_policy E P g c =
     bind_r (dynamic_authorization E c) (\<lambda>dynamic.
     if \<not> dynamic then Inr c
     else bind_r (intent_of E g) (\<lambda>i. bind_r (pc (pc_intent E i)) (\<lambda>bs. queue P POLICY_SUBJECT bs c)))"

definition queue_welcome ::
    "('m, 'z) outbox_ext_scheme \<Rightarrow> 'm cpager \<Rightarrow> 'm mls_group \<Rightarrow> device_registration \<Rightarrow> bytes \<Rightarrow> 'm client
      \<Rightarrow> 'm client result" where
  "queue_welcome E P g recipient payload c = (let p = dr_payload recipient in
     bind_r (dynamic_authorization E c) (\<lambda>dynamic.
     if dynamic then
       bind_r (from_mls_id (fst g)) (\<lambda>d.
       bind_r (own_key c) (\<lambda>key.
       bind_r (pc (pc_welcome_relay E \<lparr>wr_version = 1, wr_gid = g_gid d, wr_epoch = ms_epoch E (snd g),
           wr_recipient = rp_nats_public_key p, wr_sender = public_key key, wr_id = 0, wr_payload = payload,
           wr_signature = []\<rparr>)) (\<lambda>bs.
       queue P RELAY_SUBJECT bs c)))
     else queue P (''epochgrid.v1.user.'' @ rp_user_id p @ ''.'' @ rp_device_id p @ ''.inbox'') payload c))"

section \<open>Operations that queue handshakes\<close>

definition create_group_action ::
    "('m, 'z) outbox_ext_scheme \<Rightarrow> 'm cpager \<Rightarrow> group \<Rightarrow> 'm client \<Rightarrow> (group \<times> 'm client) result" where
  "create_group_action E P d c =
     bind_r (insert_group d c) (\<lambda>c.
     bind_r (or_err (ms_new_group E (g_mls_id d)) (Extern ''create MLS group'')) (\<lambda>m.
     bind_r (refresh_coordinator E (g_mls_id d, m) (save_group (g_mls_id d, m) c)) (\<lambda>c.
     bind_r (load_group d c) (\<lambda>g.
     bind_r (queue_policy E P g c) (\<lambda>c. Inr (d, c))))))"

definition create_group ::
    "('m, 'z) outbox_ext_scheme \<Rightarrow> 'm cpager \<Rightarrow> bytes option \<Rightarrow> string \<Rightarrow> 'm client \<Rightarrow> 'm client \<times> group result" where
  "create_group E P random name c =
     bind_s (c, validate_id name) (\<lambda>_ c.
     bind_s (c, or_err random (Extern ''group randomness'')) (\<lambda>bs c.
     bind_s (c, from_mls_id (mls_id_text name (hex_text bs))) (\<lambda>d c.
     bind_s (c, signer E c) (\<lambda>_ c.
     client_transaction P (create_group_action E P d) c))))"

definition invitation_action ::
    "('m, 'z) outbox_ext_scheme \<Rightarrow> 'm cpager \<Rightarrow> string \<Rightarrow> device_registration \<Rightarrow> group \<Rightarrow> 'm client
      \<Rightarrow> (unit \<times> 'm client) result" where
  "invitation_action E P name recipient d c = (let p = dr_payload recipient in
     bind_r (load_group d c) (\<lambda>g.
     bind_r (ensure_can_send E g c) (\<lambda>_.
     ensure (Some (ms_own E (snd g)) = coordinator E g c) ''only the active group coordinator can add members''
     (bind_r (own_registration c) (\<lambda>own.
      ensure (rp_nats_public_key p \<noteq> rp_nats_public_key (dr_payload own)) ''cannot invite this device to itself''
      (bind_r (member_names E name c) (\<lambda>names.
       ensure (identity_text p \<notin> set names) ''device is already a member''
       (bind_r (or_err (ms_add_member E (snd g) (rp_mls_key_package p)) (Extern ''MLS add member'')) (\<lambda>(m, commit, welcome).
        bind_r (or_err (ms_merge_pending E m) (Extern ''merge local commit'')) (\<lambda>m.
        bind_r (refresh_coordinator E (fst g, m) (save_group (fst g, m) c)) (\<lambda>c.
        bind_r (queue_policy E P (fst g, m) c) (\<lambda>c.
        bind_r (queue P (subject d ''handshake'') commit c) (\<lambda>c.
        bind_r (encode E (Welcome welcome)) (\<lambda>bs.
        bind_r (queue_welcome E P (fst g, m) recipient bs c) (\<lambda>c. Inr ((), c))))))))))))))))"

definition prepare_invitation ::
    "('m, 'z) outbox_ext_scheme \<Rightarrow> 'm cpager \<Rightarrow> string \<Rightarrow> device_registration \<Rightarrow> 'm client \<Rightarrow> 'm client \<times> unit result" where
  "prepare_invitation E P name recipient c =
     bind_s (c, verify E recipient) (\<lambda>_ c.
     ensure_s (\<not> is_revoked (rp_nats_public_key (dr_payload recipient)) c) ''cannot invite a revoked device'' c
     (bind_s (c, group_named name c) (\<lambda>d c.
      bind_s (c, signer E c) (\<lambda>_ c.
      bind_s (c, or_err (kp_validate E (rp_mls_key_package (dr_payload recipient))) (Extern ''invalid recipient KeyPackage''))
        (\<lambda>_ c.
      client_transaction P (invitation_action E P name recipient d) c)))))"

definition welcome_action ::
    "('m, 'z) outbox_ext_scheme \<Rightarrow> bytes \<Rightarrow> bytes \<Rightarrow> kp_leaf \<Rightarrow> 'm client \<Rightarrow> (group \<times> 'm client) result" where
  "welcome_action E bs payload package c =
     (case select_one (\<lambda>w. fst w = bs) (cl_welcomes c) of
        Some (_, name) \<Rightarrow> bind_r (group_named name c) (\<lambda>d. Inr (d, c))
      | None \<Rightarrow>
          bind_r (or_err (is_mls_welcome E payload) (Extern ''tls_deserialize'')) (\<lambda>welcome.
          ensure welcome ''expected MLS Welcome''
          (bind_r (or_err (ms_stage_welcome E payload) (Extern ''validate MLS Welcome'')) (\<lambda>staged.
           bind_r (or_err (sw_sender staged) (Extern ''Welcome sender missing'')) (\<lambda>(key, credential).
           ensure (key = kl_signature_key package \<and> credential = kl_credential package)
             ''Welcome signer is not the expected inviter''
           (ensure (2 \<le> sw_members staged) ''Welcome must include at least two devices''
           (bind_r (from_mls_id (sw_group staged)) (\<lambda>d.
            bind_r (insert_group d c) (\<lambda>c.
            bind_r (insert_row fst (g_gid d, key) (cl_coordinators c)) (\<lambda>coordinators.
            let c = c\<lparr>cl_coordinators := coordinators, cl_join_epochs := update_where (\<lambda>j. fst j = g_gid d)
                (\<lambda>j. (fst j, sw_epoch staged)) (cl_join_epochs c)\<rparr> in
            bind_r (or_err (ms_join E payload) (Extern ''join MLS group'')) (\<lambda>m.
            bind_r (insert_row fst (bs, g_name d) (cl_welcomes c)) (\<lambda>welcomes.
            Inr (d, (save_group (g_mls_id d, m) c)\<lparr>cl_welcomes := welcomes\<rparr>)))))))))))))"

definition accept_welcome ::
    "('m, 'z) outbox_ext_scheme \<Rightarrow> 'm cpager \<Rightarrow> bytes \<Rightarrow> device_registration \<Rightarrow> 'm client \<Rightarrow> 'm client \<times> group result" where
  "accept_welcome E P bs inviter c =
     bind_s (c, ensure_messaging_identity E c) (\<lambda>_ c.
     bind_s (c, verify E inviter) (\<lambda>_ c.
     bind_s (c, decode E bs) (\<lambda>b c.
     bind_s (c, or_err (as_welcome b) (Anyhow ''mailbox message is not a Welcome'')) (\<lambda>payload c.
     bind_s (c, or_err (kp_validate E (rp_mls_key_package (dr_payload inviter))) (Extern ''invalid inviter'')) (\<lambda>package c.
     client_transaction P (welcome_action E bs payload package) c)))))"

definition removal_action ::
    "('m, 'z) outbox_ext_scheme \<Rightarrow> 'm cpager \<Rightarrow> string \<Rightarrow> group \<Rightarrow> nat list \<Rightarrow> 'm client \<Rightarrow> 'm client result" where
  "removal_action E P unexpected d removed c =
     bind_r (load_group d c) (\<lambda>g.
     bind_r (or_err (ms_remove_members E (snd g) removed) (Extern ''MLS remove members'')) (\<lambda>(m, commit, welcome).
     ensure (welcome = None) unexpected
     (bind_r (or_err (ms_merge_pending E m) (Extern ''persist removal Commit'')) (\<lambda>m.
      bind_r (refresh_coordinator E (fst g, m) (save_group (fst g, m) c)) (\<lambda>c.
      bind_r (queue_policy E P (fst g, m) c) (queue P (subject d ''handshake'') commit))))))"

definition reconcile_revocations ::
    "('m, 'z) outbox_ext_scheme \<Rightarrow> 'm cpager \<Rightarrow> string \<Rightarrow> 'm client \<Rightarrow> 'm client \<times> bool result" where
  "reconcile_revocations E P name c =
     bind_s (c, group_named name c) (\<lambda>d c.
     bind_s (c, load_group d c) (\<lambda>g c.
     if \<not> ms_active E (snd g) then (c, Inr False)
     else bind_s (c, own_key c) (\<lambda>key c.
       if is_revoked (public_key key) c \<or> coordinator E g c \<noteq> Some (ms_own E (snd g)) then (c, Inr False)
       else let removed = revoked_leaves E g c in
         if removed = [] then (c, Inr False)
         else bind_s (c, signer E c) (\<lambda>_ c.
           recovery_transaction P (\<lambda>c. bind_r (within (block_revoked_outbox E c)) (\<lambda>c.
             bind_r (removal_action E P ''removal unexpectedly produced a Welcome'' d removed c) (\<lambda>c. Inr (True, c)))) c))))"

text \<open>The last member whose credential is the named identity; an unreadable credential is an error.\<close>

fun find_member :: "bytes \<Rightarrow> mls_member list \<Rightarrow> nat option \<Rightarrow> nat option result" where
  "find_member identity [] target = Inr target"
| "find_member identity (m # ms) target =
     bind_r (or_err (mm_identity m) (Extern ''invalid member credential'')) (\<lambda>i.
     find_member identity ms (if i = identity then Some (mm_index m) else target))"

definition remove_device_action ::
    "('m, 'z) outbox_ext_scheme \<Rightarrow> 'm cpager \<Rightarrow> group \<Rightarrow> string \<Rightarrow> 'm client \<Rightarrow> (unit \<times> 'm client) result" where
  "remove_device_action E P d identity c =
     bind_r (load_group d c) (\<lambda>g.
     bind_r (ensure_can_send E g c) (\<lambda>_.
     ensure (coordinator E g c = Some (ms_own E (snd g))) ''only the active group coordinator can remove members''
     (bind_r (find_member (as_bytes identity) (ms_members E (snd g)) None) (\<lambda>found.
      bind_r (or_err found (Anyhow ''device is not a member of this channel'')) (\<lambda>target.
      ensure (target \<noteq> ms_own E (snd g)) ''coordinator self-removal is not supported''
      (bind_r (removal_action E P ''unexpected removal Welcome'' d [target] (block_subject (subject d ''message'') c)) (\<lambda>c. Inr ((), c))))))))"

definition remove_device ::
    "('m, 'z) outbox_ext_scheme \<Rightarrow> 'm cpager \<Rightarrow> string \<Rightarrow> string \<Rightarrow> string \<Rightarrow> 'm client \<Rightarrow> 'm client \<times> unit result" where
  "remove_device E P name user device c =
     bind_s (c, validate_id user) (\<lambda>_ c.
     bind_s (c, validate_id device) (\<lambda>_ c.
     bind_s (c, group_named name c) (\<lambda>d c.
     bind_s (c, signer E c) (\<lambda>_ c.
     client_transaction P (remove_device_action E P d (user @ ''/'' @ device)) c))))"

section \<open>Flushing\<close>

record network =
  n_request :: "nat \<Rightarrow> string \<Rightarrow> bytes \<Rightarrow> bytes result"
  n_refresh :: "nat \<Rightarrow> unit result"
  n_publish :: "string \<Rightarrow> string \<Rightarrow> bytes \<Rightarrow> (string \<times> nat) result"

fun bindings ::
    "'z externals_scheme \<Rightarrow> bytes \<Rightarrow> bytes \<Rightarrow> device_registration list \<Rightarrow> device_registration list result" where
  "bindings E sig credential [] = Inr []"
| "bindings E sig credential (r # rs) =
     (if rp_mls_credential (dr_payload r) \<noteq> credential then bindings E sig credential rs
      else bind_r (or_err (kp_unverified E (rp_mls_key_package (dr_payload r))) (Extern ''tls_deserialize'')) (\<lambda>(_, key).
        bind_r (bindings E sig credential rs) (\<lambda>found. Inr (if key = sig then r # found else found))))"

definition policy_member_of ::
    "'z externals_scheme \<Rightarrow> snapshot \<Rightarrow> nat \<times> bytes \<times> bytes \<Rightarrow> policy_member result" where
  "policy_member_of E sn leaf_entry = (case leaf_entry of (leaf, sig, credential) \<Rightarrow>
     bind_r (bindings E sig credential (sn_entries sn)) (\<lambda>matches.
     ensure (length matches = 1) ''MLS member must have one authenticated directory binding''
       (Inr \<lparr>mb_nkey = rp_nats_public_key (dr_payload (hd matches)), mb_leaf = leaf\<rparr>)))"

definition as_policy_state :: "body \<Rightarrow> policy_state option option" where
  "as_policy_state b = (case b of PolicyState s \<Rightarrow> Some s | _ \<Rightarrow> None)"

definition is_policy_applied :: "body \<Rightarrow> bool" where
  "is_policy_applied b = (case b of PolicyApplied _ \<Rightarrow> True | _ \<Rightarrow> False)"

definition dispatch_policy ::
    "('m, 'z) outbox_ext_scheme \<Rightarrow> network \<Rightarrow> snapshot \<Rightarrow> nat \<Rightarrow> intent \<Rightarrow> 'm client \<Rightarrow> unit result" where
  "dispatch_policy E N sn i it c =
     ensure (it_version it = 1) ''unsupported authorization intent''
     (bind_r (map_r (policy_member_of E sn) (it_leaves it)) (\<lambda>members.
      bind_r (encode E (PolicyQuery (it_gid it))) (\<lambda>query.
      bind_r (n_request N i POLICY_SUBJECT query) (\<lambda>reply.
      bind_r (decode E reply) (\<lambda>b.
      bind_r (or_err (as_policy_state b) (Anyhow ''policy query rejected'')) (\<lambda>state.
      bind_r (own_key c) (\<lambda>key.
      bind_r (if (case state of None \<Rightarrow> False
                  | Some s \<Rightarrow> ps_epoch s = it_epoch it \<and> ps_members s = members \<and> ps_coordinator s = public_key key)
              then Inr ()
              else bind_r (policy_sign E key \<lparr>pu_version = 1, pu_gid = it_gid it,
                  pu_expected_generation = (case state of None \<Rightarrow> 0 | Some s \<Rightarrow> ps_generation s),
                  pu_epoch = it_epoch it, pu_signer = public_key key, pu_members = members\<rparr>) (\<lambda>policy.
                bind_r (encode E (GroupPolicy policy)) (\<lambda>request.
                bind_r (n_request N i POLICY_SUBJECT request) (\<lambda>reply.
                bind_r (decode E reply) (\<lambda>b.
                ensure (is_policy_applied b) ''group policy rejected; queued work retained'' (Inr ()))))))
        (\<lambda>_. n_refresh N i))))))))"

definition dispatch_relay ::
    "('m, 'z) outbox_ext_scheme \<Rightarrow> network \<Rightarrow> nat \<Rightarrow> welcome_relay \<Rightarrow> 'm client \<Rightarrow> unit result" where
  "dispatch_relay E N i relay c = (let relay = relay\<lparr>wr_id := int i\<rparr> in
     bind_r (own_key c) (\<lambda>key.
     bind_r (relay_bytes E relay) (\<lambda>bs.
     bind_r (sign_with key bs) (\<lambda>signature.
     bind_r (encode E (RelayWelcome (relay\<lparr>wr_signature := signature\<rparr>))) (\<lambda>request.
     bind_r (n_request N i RELAY_SUBJECT request) (\<lambda>reply.
     bind_r (decode E reply) (\<lambda>b.
     ensure (b = WelcomeRelayed) ''Welcome relay rejected; invitation retained'' (Inr ()))))))))"

definition dispatch ::
    "('m, 'z) outbox_ext_scheme \<Rightarrow> network \<Rightarrow> snapshot \<Rightarrow> outbox_row \<Rightarrow> 'm client \<Rightarrow> bool result" where
  "dispatch E N sn x c =
     (if ob_subject x = POLICY_SUBJECT then
        bind_r (or_err (un_intent E (ob_payload x)) (Extern ''postcard'')) (\<lambda>it.
        bind_r (dispatch_policy E N sn (ob_id x) it c) (\<lambda>_. Inr True))
      else if ob_subject x = RELAY_SUBJECT then
        bind_r (or_err (un_welcome_relay E (ob_payload x)) (Extern ''postcard'')) (\<lambda>relay.
        bind_r (dispatch_relay E N (ob_id x) relay c) (\<lambda>_. Inr True))
      else Inr False)"

definition mark_sent :: "nat \<Rightarrow> 'm client \<Rightarrow> 'm client" where
  "mark_sent i c = c\<lparr>cl_outbox := update_where (\<lambda>x. ob_id x = i) (\<lambda>x. x\<lparr>ob_sent := True\<rparr>) (cl_outbox c)\<rparr>"

text \<open>\<open>transcript.stream_sequence\<close> keeps the least sequence seen for a payload and is UNIQUE.\<close>

definition least_sequence :: "nat \<Rightarrow> nat option \<Rightarrow> nat option" where
  "least_sequence s old = (case old of None \<Rightarrow> Some s | Some s' \<Rightarrow> if s < s' then Some s else Some s')"

definition sequences :: "transcript_row list \<Rightarrow> nat list" where
  "sequences ts = List.map_filter tr_sequence ts"

definition set_sequence :: "(transcript_row \<Rightarrow> bool) \<Rightarrow> nat \<Rightarrow> 'm client \<Rightarrow> 'm client result" where
  "set_sequence p s c =
     (let ts = update_where p (\<lambda>t. t\<lparr>tr_sequence := least_sequence s (tr_sequence t)\<rparr>) (cl_transcript c) in
      if distinct (sequences ts) then Inr (c\<lparr>cl_transcript := ts\<rparr>) else Inl (Sql ''UNIQUE constraint failed''))"

definition acknowledge :: "outbox_row \<Rightarrow> string \<times> nat \<Rightarrow> 'm client \<Rightarrow> (unit \<times> 'm client) result" where
  "acknowledge x ack c =
     (let c = mark_sent (ob_id x) c in
      if fst ack = ''CHAT''
      then bind_r (set_sequence (\<lambda>t. tr_payload t = ob_payload x) (snd ack) c) (\<lambda>c. Inr ((), c))
      else Inr ((), c))"

definition flush_row ::
    "('m, 'z) outbox_ext_scheme \<Rightarrow> 'm cpager \<Rightarrow> network \<Rightarrow> snapshot \<Rightarrow> outbox_row \<Rightarrow> 'm client
      \<Rightarrow> 'm client \<times> unit result" where
  "flush_row E P N sn x c =
     bind_s (c, dispatch E N sn x c) (\<lambda>dispatched c.
     if dispatched then (mark_sent (ob_id x) c, Inr ())
     else bind_s (c, own_key c) (\<lambda>key c.
       bind_s (c, n_publish N (public_key key @ '':'' @ decimal (ob_id x)) (ob_subject x) (ob_payload x)) (\<lambda>ack c.
       client_transaction P (acknowledge x ack) c)))"

fun flush_rows ::
    "('m, 'z) outbox_ext_scheme \<Rightarrow> 'm cpager \<Rightarrow> network \<Rightarrow> snapshot \<Rightarrow> outbox_row list \<Rightarrow> 'm client
      \<Rightarrow> 'm client \<times> unit result" where
  "flush_rows E P N sn [] c = (c, Inr ())"
| "flush_rows E P N sn (x # xs) c = bind_s (flush_row E P N sn x c) (\<lambda>_ c. flush_rows E P N sn xs c)"

definition flushable :: "nat \<Rightarrow> nat \<Rightarrow> 'm client \<Rightarrow> outbox_row list" where
  "flushable high after c = sort_key ob_id (filter (\<lambda>x. \<not> ob_sent x \<and> after < ob_id x \<and> ob_id x \<le> high \<and>
     ob_id x \<notin> set (cl_blocked c)) (cl_outbox c))"

lemma flushable_last:
  assumes "take OUTBOX_BATCH (flushable high after c) \<noteq> []"
  shows "after < ob_id (last (take OUTBOX_BATCH (flushable high after c)))"
    "ob_id (last (take OUTBOX_BATCH (flushable high after c))) \<le> high"
  using last_in_set[OF assms] by (auto dest!: in_set_takeD simp: flushable_def)

function flush_loop ::
    "('m, 'z) outbox_ext_scheme \<Rightarrow> 'm cpager \<Rightarrow> network \<Rightarrow> snapshot \<Rightarrow> nat \<Rightarrow> nat \<Rightarrow> 'm client
      \<Rightarrow> 'm client \<times> unit result" where
  "flush_loop E P N sn high after c =
     (if take OUTBOX_BATCH (flushable high after c) = [] then (c, Inr ())
      else bind_s (flush_rows E P N sn (take OUTBOX_BATCH (flushable high after c)) c) (\<lambda>_ c'.
        flush_loop E P N sn high (ob_id (last (take OUTBOX_BATCH (flushable high after c)))) c'))"
  by pat_completeness auto
termination
proof (relation "measure (\<lambda>(E, P, N, sn, high, after, c). high - after)", goal_cases)
  case (2 E P N sn high after c u c')
  then show ?case using flushable_last[of high after c] by simp
qed simp

declare flush_loop.simps [simp del]

definition flush_outbox ::
    "('m, 'z) outbox_ext_scheme \<Rightarrow> 'm cpager \<Rightarrow> bytes result \<Rightarrow> bytes result \<Rightarrow> network \<Rightarrow> 'm client
      \<Rightarrow> 'm client \<times> unit result" where
  "flush_outbox E P reply rev_reply N c =
     bind_s (client_audit E P reply rev_reply c) (\<lambda>sn c.
     bind_s (c, own_key c) (\<lambda>key c.
     ensure_s (\<not> is_revoked (public_key key) c) ''this device is revoked'' c
     (bind_s (block_revoked_outbox E c) (\<lambda>_ c.
      flush_loop E P N sn (foldr max (map ob_id (cl_outbox c)) 0) 0 c))))"

section \<open>The flush loop is one pass\<close>

lemma flush_row_outbox:
  assumes "flush_row E P N sn x c = (c', Inr u)"
  shows "cl_outbox c' = update_where (\<lambda>y. ob_id y = ob_id x) (\<lambda>y. y\<lparr>ob_sent := True\<rparr>) (cl_outbox c) \<and>
    cl_blocked c' = cl_blocked c"
proof -
  have ack: "cl_outbox c2 = update_where (\<lambda>y. ob_id y = ob_id x) (\<lambda>y. y\<lparr>ob_sent := True\<rparr>) (cl_outbox c1) \<and>
      cl_blocked c2 = cl_blocked c1" if "acknowledge x ack c1 = Inr (v, c2)" for ack v c1 c2
    using that by (auto simp: acknowledge_def mark_sent_def set_sequence_def Let_def result_simps split: if_split_asm)
  from assms obtain dispatched where d: "dispatch E N sn x c = Inr dispatched"
    by (cases "dispatch E N sn x c") (auto simp: flush_row_def)
  show ?thesis
  proof (cases dispatched)
    case True
    then show ?thesis using assms d by (auto simp: flush_row_def mark_sent_def)
  next
    case False
    with assms d obtain key ack where "transaction_budget False P (acknowledge x ack) c = (c', Inr u)"
      by (auto simp: flush_row_def client_transaction_def result_simps)
    from transaction_budget_Inr[OF this] show ?thesis using ack by fastforce
  qed
qed

lemma flush_rows_append:
  "flush_rows E P N sn (xs @ ys) c = bind_s (flush_rows E P N sn xs c) (\<lambda>_ c. flush_rows E P N sn ys c)"
  by (induction xs arbitrary: c) (auto simp: bind_s_def split: prod.splits sum.splits)

lemma flush_rows_outbox:
  assumes "flush_rows E P N sn xs c = (c', Inr u)"
  shows "cl_outbox c' = update_where (\<lambda>y. ob_id y \<in> ob_id ` set xs) (\<lambda>y. y\<lparr>ob_sent := True\<rparr>) (cl_outbox c) \<and>
    cl_blocked c' = cl_blocked c"
  using assms
proof (induction xs arbitrary: c)
  case Nil
  then show ?case by (simp add: update_where_def)
next
  case (Cons x xs)
  then obtain c1 v where 1: "flush_row E P N sn x c = (c1, Inr v)" "flush_rows E P N sn xs c1 = (c', Inr u)"
    by (auto simp: result_simps)
  from Cons.IH[OF 1(2)] flush_row_outbox[OF 1(1)] show ?case by (auto simp: update_where_def)
qed

lemma sorted_le_last: "sorted (map f xs) \<Longrightarrow> x \<in> set xs \<Longrightarrow> f x \<le> f (last xs)"
  by (induction xs) auto

lemma flushable_rest:
  assumes "distinct (map ob_id (cl_outbox c))" "flush_rows E P N sn (take n (flushable high after c)) c = (c', Inr u)"
    "take n (flushable high after c) \<noteq> []"
  shows "flushable high (ob_id (last (take n (flushable high after c)))) c' = drop n (flushable high after c)"
proof -
  define xs where "xs = flushable high after c"
  define a where "a = ob_id (last (take n xs))"
  have ne: "take n xs \<noteq> []" using assms(3) by (simp add: xs_def)
  have d: "distinct (map ob_id xs)" and s: "sorted (map ob_id xs)"
    using assms(1) by (auto simp: xs_def flushable_def distinct_map intro: inj_on_subset)
  then have "sorted_wrt (<) (map ob_id xs)" by (simp add: strict_sorted_iff)
  then have ss: "sorted_wrt (<) (map ob_id (take n xs @ drop n xs))" by (simp only: append_take_drop_id)
  have le: "ob_id x \<le> a" if "x \<in> set (take n xs)" for x
    unfolding a_def by (rule sorted_le_last[OF _ that]) (metis s sorted_wrt_take take_map)
  have gt: "a < ob_id x" if "x \<in> set (drop n xs)" for x
    using ss last_in_set[OF ne] that unfolding map_append sorted_wrt_append a_def by auto
  have "filter (\<lambda>x. a < ob_id x) xs = filter (\<lambda>x. a < ob_id x) (take n xs) @ filter (\<lambda>x. a < ob_id x) (drop n xs)"
    by (metis append_take_drop_id filter_append)
  also have "\<dots> = drop n xs" using le gt by (subst filter_False) (auto simp: filter_id_conv leD)
  finally have rest: "filter (\<lambda>x. a < ob_id x) xs = drop n xs" .
  have after: "after < a" using last_in_set[OF ne] by (auto dest!: in_set_takeD simp: flushable_def xs_def a_def)
  have o: "cl_outbox c' = update_where (\<lambda>y. ob_id y \<in> ob_id ` set (take n xs)) (\<lambda>y. y\<lparr>ob_sent := True\<rparr>) (cl_outbox c)"
      "cl_blocked c' = cl_blocked c"
    using flush_rows_outbox[OF assms(2)] by (simp_all add: xs_def)
  have later: "filter (\<lambda>x. \<not> ob_sent x \<and> a < ob_id x \<and> ob_id x \<le> high \<and> ob_id x \<notin> B)
      (update_where (\<lambda>y. ob_id y \<in> ob_id ` set (take n xs)) (\<lambda>y. y\<lparr>ob_sent := True\<rparr>) t) =
    filter (\<lambda>x. a < ob_id x) (filter (\<lambda>x. \<not> ob_sent x \<and> after < ob_id x \<and> ob_id x \<le> high \<and> ob_id x \<notin> B) t)"
    for t :: "outbox_row list" and B
    using le after by (induction t) (fastforce simp: update_where_def)+
  have "flushable high a c' = sort_key ob_id (filter (\<lambda>x. a < ob_id x)
      (filter (\<lambda>x. \<not> ob_sent x \<and> after < ob_id x \<and> ob_id x \<le> high \<and> ob_id x \<notin> set (cl_blocked c)) (cl_outbox c)))"
    unfolding flushable_def[of high a c'] o later ..
  also have "\<dots> = filter (\<lambda>x. a < ob_id x) xs"
    unfolding xs_def flushable_def by (simp only: filter_sort)
  finally have "flushable high a c' = filter (\<lambda>x. a < ob_id x) xs" .
  with rest show ?thesis by (simp add: xs_def a_def)
qed

lemma flush_loop_one_pass:
  "distinct (map ob_id (cl_outbox c)) \<Longrightarrow>
     flush_loop E P N sn high after c = flush_rows E P N sn (flushable high after c) c"
proof (induction E P N sn high after c rule: flush_loop.induct)
  case (1 E P N sn high after c)
  let ?batch = "take OUTBOX_BATCH (flushable high after c)"
  show ?case
  proof (cases "?batch = []")
    case True
    then have "flushable high after c = []" by (simp add: OUTBOX_BATCH_def)
    with True show ?thesis by (subst flush_loop.simps) simp
  next
    case False
    obtain c1 r where f: "flush_rows E P N sn ?batch c = (c1, r)" by fastforce
    have split: "flush_rows E P N sn (flushable high after c) c =
        bind_s (c1, r) (\<lambda>_ c2. flush_rows E P N sn (drop OUTBOX_BATCH (flushable high after c)) c2)"
      using flush_rows_append[of E P N sn ?batch "drop OUTBOX_BATCH (flushable high after c)" c] f by simp
    show ?thesis
    proof (cases r)
      case (Inl e)
      then show ?thesis using False f split by (subst flush_loop.simps) simp
    next
      case (Inr u)
      have "map ob_id (cl_outbox c1) = map ob_id (cl_outbox c)"
        using flush_rows_outbox[of E P N sn ?batch c c1 u] f Inr by (simp add: map_update_where)
      then have "flush_loop E P N sn high (ob_id (last ?batch)) c1 =
          flush_rows E P N sn (drop OUTBOX_BATCH (flushable high after c)) c1"
        using 1(1)[OF False] flushable_rest[OF 1(2) _ False, of E P N sn c1 u] f Inr 1(2) by simp
      then show ?thesis using False f split Inr by (subst flush_loop.simps) simp
    qed
  qed
qed

end
