(* ===== verification/Messaging.thy ===== *)
theory Messaging
  imports Outbox
begin

text \<open>
  Application messages: sending and receiving (\<open>messaging.rs\<close>), delivery and read receipts
  (\<open>receipts.rs\<close>), staged deliveries and the transcript (\<open>history.rs\<close>), the projected conversation
  (\<open>relationships.rs\<close>) and the responder of service participants (\<open>participants.rs\<close>).
\<close>

section \<open>Receipts\<close>

datatype receipt_state = Delivered | Read

datatype ephemeral_event =
    TypingStarted
  | TypingStopped
  | ReceiptRequest bytes
  | Receipt bytes receipt_state

datatype submission = Submitted | ServerAccepted

record message_status =
  st_submission :: submission
  st_devices :: "(string \<times> receipt_state) list"

text \<open>\<open>expires\<close> is an instant; the current instant is an argument where it is read.\<close>

record authenticated_event =
  av_sender :: string
  av_gid :: string
  av_epoch :: nat
  av_issued :: nat
  av_event :: ephemeral_event
  av_expires :: nat

definition status_summary :: "message_status \<Rightarrow> string" where
  "status_summary s =
     (case st_submission s of Submitted \<Rightarrow> ''submitted'' | ServerAccepted \<Rightarrow> ''server accepted'') @
     concat (map (\<lambda>(device, state). ''; '' @ device @ '': '' @
       (case state of Delivered \<Rightarrow> ''delivered'' | Read \<Rightarrow> ''read'')) (st_devices s))"

text \<open>\<open>INSERT OR IGNORE\<close>: a row that violates a key or the length check is skipped.\<close>

definition index_receipt :: "'z crypto_scheme \<Rightarrow> nat \<Rightarrow> string \<Rightarrow> bytes \<Rightarrow> 'm client \<Rightarrow> 'm client result" where
  "index_receipt E row gid payload c =
     bind_r (hash E payload) (\<lambda>h.
     Inr (if length h \<noteq> 32 \<or> row \<in> rm_transcript ` set (cl_receipts c) \<or>
           (gid, h) \<in> (\<lambda>r. (rm_gid r, rm_reference r)) ` set (cl_receipts c) then c
         else c\<lparr>cl_receipts := cl_receipts c @ [\<lparr>rm_transcript = row, rm_gid = gid, rm_reference = h\<rparr>]\<rparr>))"

definition receipt_join ::
    "(receipt_row \<Rightarrow> transcript_row \<Rightarrow> bool) \<Rightarrow> 'm client \<Rightarrow> (receipt_row \<times> transcript_row) list" where
  "receipt_join p c =
     concat (map (\<lambda>r. map (Pair r) (filter (\<lambda>t. tr_id t = rm_transcript r \<and> p r t) (cl_transcript c))) (cl_receipts c))"

definition receipt_requests :: "string \<Rightarrow> nat \<Rightarrow> 'm client \<Rightarrow> ephemeral_event list result" where
  "receipt_requests name limit c =
     ensure (1 \<le> limit \<and> limit \<le> 100) ''receipt request limit must be 1-100''
     (bind_r (group_named name c) (\<lambda>d.
      map_r (\<lambda>(r, t). ensure (length (rm_reference r) = 32) ''invalid stored receipt reference''
          (Inr (ReceiptRequest (rm_reference r))))
        (take limit (rev (sort_key (\<lambda>(r, t). tr_id t)
          (receipt_join (\<lambda>r t. rm_gid r = g_gid d \<and> tr_outgoing t \<and> tr_sequence t \<noteq> None) c))))))"

text \<open>The upsert of \<open>device_receipts\<close>: the state only moves from delivered to read.\<close>

definition claim_receipt :: "nat \<Rightarrow> string \<Rightarrow> bool \<Rightarrow> 'm client \<Rightarrow> 'm client" where
  "claim_receipt row device read c = c\<lparr>cl_device_receipts :=
     (if (row, device) \<in> (\<lambda>d. (dc_transcript d, dc_device d)) ` set (cl_device_receipts c)
      then update_where (\<lambda>d. dc_transcript d = row \<and> dc_device d = device \<and> read \<and> \<not> dc_read d)
        (\<lambda>d. d\<lparr>dc_read := read\<rparr>) (cl_device_receipts c)
      else cl_device_receipts c @ [\<lparr>dc_transcript = row, dc_device = device, dc_read = read\<rparr>])\<rparr>"

definition process_receipt ::
    "('m, 'z) mls_ext_scheme \<Rightarrow> nat \<Rightarrow> string \<Rightarrow> authenticated_event \<Rightarrow> 'm client
      \<Rightarrow> (ephemeral_event option \<times> 'm client) result" where
  "process_receipt E now name ev c =
     bind_r (group_named name c) (\<lambda>d.
     bind_r (load_group d c) (\<lambda>g.
     bind_r (ensure_can_send E g c) (\<lambda>_.
     ensure (now < av_expires ev) ''expired receipt event''
     (bind_r (group_epoch E name c) (\<lambda>epoch.
      ensure (av_gid ev = g_gid d \<and> av_epoch ev = epoch) ''receipt group or epoch changed''
      (case av_event ev of
         ReceiptRequest message \<Rightarrow>
           Inr (case receipt_join (\<lambda>r t. rm_gid r = g_gid d \<and> rm_reference r = message \<and> \<not> tr_outgoing t \<and>
                   tr_plaintext t \<noteq> None \<and> tr_sender t = Some (av_sender ev)) c of
                  [] \<Rightarrow> None
                | (r, t) # _ \<Rightarrow> Some (Receipt message (if tr_displayed t then Read else Delivered)), c)
       | Receipt message state \<Rightarrow>
           Inr (None, case receipt_join (\<lambda>r t. rm_gid r = g_gid d \<and> rm_reference r = message \<and> tr_outgoing t) c of
                  [] \<Rightarrow> c
                | (r, t) # _ \<Rightarrow> claim_receipt (tr_id t) (av_sender ev) (state = Read) c)
       | _ \<Rightarrow> Inr (None, c)))))))"

definition message_status_of :: "nat \<Rightarrow> 'm client \<Rightarrow> message_status result" where
  "message_status_of i c =
     bind_r (or_err (select_one (\<lambda>t. tr_id t = i \<and> tr_outgoing t) (cl_transcript c)) (Sql ''no rows'')) (\<lambda>t.
     Inr \<lparr>st_submission = (if tr_sequence t \<noteq> None then ServerAccepted else Submitted),
       st_devices = map (\<lambda>d. (dc_device d, if dc_read d then Read else Delivered))
         (sort_key dc_device (filter (\<lambda>d. dc_transcript d = i) (cl_device_receipts c)))\<rparr>)"

section \<open>Sending\<close>

definition insert_transcript :: "transcript_row \<Rightarrow> 'm client \<Rightarrow> (nat \<times> 'm client) result" where
  "insert_transcript t c = (let row = next_rowid (map tr_id (cl_transcript c)) in
     bind_r (insert_row tr_payload (t\<lparr>tr_id := row\<rparr>) (cl_transcript c)) (\<lambda>ts.
     Inr (row, c\<lparr>cl_transcript := ts\<rparr>)))"

definition encrypt_event_inner ::
    "('m, 'z) outbox_ext_scheme \<Rightarrow> 'm cpager \<Rightarrow> string \<Rightarrow> application_event \<Rightarrow> 'm client \<Rightarrow> (bytes \<times> 'm client) result" where
  "encrypt_event_inner E P name event c =
     bind_r (event_wire E event) (\<lambda>wire.
     let plaintext = event_transcript event in
     bind_r (group_named name c) (\<lambda>d.
     bind_r (signer E c) (\<lambda>_.
     bind_r (if is_root event then index_attachment E (g_gid d) (ae_content event) c else Inr c) (\<lambda>c.
     bind_r (load_group d c) (\<lambda>g.
     bind_r (ensure_can_send E g c) (\<lambda>_.
     ensure (2 \<le> length (ms_members E (snd g))) ''invite a peer before sending messages''
     (bind_r (or_err (ms_create_message E (snd g) wire) (Extern ''encrypt MLS application'')) (\<lambda>(m, bs).
      bind_r (queue P (subject d ''message'') bs (save_group (fst g, m) c)) (\<lambda>c.
      bind_r (own_registration c) (\<lambda>r.
      let sender = identity_text (dr_payload r) in
      bind_r (insert_transcript \<lparr>tr_id = 0, tr_gid = g_gid d, tr_payload = bs, tr_sender = Some sender,
          tr_plaintext = Some plaintext, tr_outgoing = True, tr_sequence = None, tr_displayed = True\<rparr> c) (\<lambda>(row, c).
      bind_r (index_receipt E row (g_gid d) bs c) (\<lambda>c.
      bind_r (index_application E row (g_gid d) sender bs (Some event) plaintext c) (\<lambda>c.
      Inr (bs, c))))))))))))))"

definition encrypt_event ::
    "('m, 'z) outbox_ext_scheme \<Rightarrow> 'm cpager \<Rightarrow> string \<Rightarrow> application_event \<Rightarrow> 'm client \<Rightarrow> 'm client \<times> bytes result" where
  "encrypt_event E P name event c = client_transaction P (encrypt_event_inner E P name event) c"

definition encrypt_message ::
    "('m, 'z) outbox_ext_scheme \<Rightarrow> 'm cpager \<Rightarrow> bytes option \<Rightarrow> string \<Rightarrow> bytes \<Rightarrow> 'm client \<Rightarrow> 'm client \<times> bytes result" where
  "encrypt_message E P nonce name plaintext c =
     bind_s (c, new_event nonce name plaintext None c) (\<lambda>event c. encrypt_event E P name event c)"

definition encrypt_related ::
    "('m, 'z) outbox_ext_scheme \<Rightarrow> 'm cpager \<Rightarrow> bytes option \<Rightarrow> string \<Rightarrow> relation \<Rightarrow> bytes \<Rightarrow> 'm client
      \<Rightarrow> 'm client \<times> bytes result" where
  "encrypt_related E P nonce name relation content c =
     bind_s (c, validate_relation E name relation c) (\<lambda>_ c.
     bind_s (c, new_event nonce name content (Some relation) c) (\<lambda>event c. encrypt_event E P name event c))"

section \<open>Receiving\<close>

record decrypted_message =
  dm_sender :: string
  dm_plaintext :: bytes

text \<open>
  The part of \<open>decrypt_inner\<close> after authentication: the event, the attachment index, and the rows
  that record the message.
\<close>

definition record_received ::
    "('m, 'z) outbox_ext_scheme \<Rightarrow> group \<Rightarrow> bytes \<Rightarrow> string \<Rightarrow> bytes \<Rightarrow> 'm client \<Rightarrow> (decrypted_message \<times> 'm client) result" where
  "record_received E d bs sender plain c =
     bind_r (case event_decode E plain of Inl _ \<Rightarrow> Inl InvalidMessage | Inr e \<Rightarrow> Inr e) (\<lambda>event.
     bind_r (if (case event of None \<Rightarrow> True | Some e \<Rightarrow> is_root e)
             then index_attachment E (g_gid d) (case event of None \<Rightarrow> plain | Some e \<Rightarrow> ae_content e) c
             else Inr c) (\<lambda>c.
     let plaintext = (case event of None \<Rightarrow> plain | Some e \<Rightarrow> event_transcript e) in
     bind_r (receive bs c) (\<lambda>c.
     bind_r (insert_transcript \<lparr>tr_id = 0, tr_gid = g_gid d, tr_payload = bs, tr_sender = Some sender,
         tr_plaintext = Some plaintext, tr_outgoing = False, tr_sequence = None, tr_displayed = False\<rparr> c) (\<lambda>(row, c).
     bind_r (index_receipt E row (g_gid d) bs c) (\<lambda>c.
     bind_r (index_application E row (g_gid d) sender bs event plaintext c) (\<lambda>c.
     Inr (\<lparr>dm_sender = sender, dm_plaintext = plaintext\<rparr>, c)))))))"

definition decrypt_inner ::
    "('m, 'z) outbox_ext_scheme \<Rightarrow> string \<Rightarrow> bytes \<Rightarrow> 'm client \<Rightarrow> (decrypted_message option \<times> 'm client) result" where
  "decrypt_inner E name bs c =
     ensure_e (length bs \<le> MAX_WIRE) InvalidMessage
     (bind_r (group_named name c) (\<lambda>d.
      bind_r (private_header E bs) (\<lambda>h.
      ensure_e (mh_group h = g_mls_id d \<and> mh_content h = Application) InvalidMessage
      (if known_payload bs c then Inr (None, c)
       else bind_r (load_group d c) (\<lambda>g.
         ensure_e (ms_active E (snd g)) InvalidMessage
         (bind_r (process_message E g bs) (\<lambda>(g, p).
          bind_r (or_err (Option.bind (pr_identity p) from_utf8) InvalidMessage) (\<lambda>sender.
          case pr_content p of
            ApplicationMessage plain \<Rightarrow>
              ensure_e (length plain \<le> MAX_APPLICATION) InvalidMessage
              (bind_r (record_received E d bs sender plain (save_group g c)) (\<lambda>(msg, c). Inr (Some msg, c)))
          | _ \<Rightarrow> Inl InvalidMessage))))))))"

definition decrypt_message ::
    "('m, 'z) outbox_ext_scheme \<Rightarrow> 'm cpager \<Rightarrow> string \<Rightarrow> bytes \<Rightarrow> 'm client \<Rightarrow> 'm client \<times> decrypted_message option result" where
  "decrypt_message E P name bs c = client_transaction P (decrypt_inner E name bs) c"

section \<open>Lemmas\<close>

text \<open>What holds of every successful result, along the text of an operation.\<close>

definition ends :: "('v \<Rightarrow> bool) \<Rightarrow> 'v result \<Rightarrow> bool" where
  "ends Q m \<longleftrightarrow> (\<forall>v. m = Inr v \<longrightarrow> Q v)"

lemma ends_rules:
  "Q v \<Longrightarrow> ends Q (Inr v)"
  "ends Q (Inl e)"
  "(b \<Longrightarrow> ends Q k) \<Longrightarrow> ends Q (ensure b msg k)"
  "(b \<Longrightarrow> ends Q k) \<Longrightarrow> ends Q (ensure_e b e k)"
  "(b \<Longrightarrow> ends Q k) \<Longrightarrow> (\<not> b \<Longrightarrow> ends Q l) \<Longrightarrow> ends Q (if b then k else l)"
  by (auto simp: ends_def result_simps)

lemma ends_bind: "(\<And>x. m = Inr x \<Longrightarrow> ends Q (f x)) \<Longrightarrow> ends Q (bind_r m f)"
  by (cases m) (auto simp: ends_def)

lemma ends_bind_prod: "(\<And>a b. m = Inr (a, b) \<Longrightarrow> ends Q (f a b)) \<Longrightarrow> ends Q (bind_r m (\<lambda>(a, b). f a b))"
  by (cases m) (auto simp: ends_def)

lemma ends_content:
  "(\<And>a. x = ApplicationMessage a \<Longrightarrow> ends Q (f a)) \<Longrightarrow> (\<And>a. x = StagedCommit a \<Longrightarrow> ends Q (g a)) \<Longrightarrow>
     ends Q h \<Longrightarrow> ends Q (case x of ApplicationMessage a \<Rightarrow> f a | StagedCommit a \<Rightarrow> g a | OtherContent \<Rightarrow> h)"
  by (cases x) simp_all

lemma encrypt_event_inner_sound:
  "ends (\<lambda>(bs, c'). \<exists>d g key row. group_named name c = Inr d \<and> load_group d c = Inr g \<and> own_key c = Inr key \<and>
    \<not> is_revoked (public_key key) c \<and> ms_active E (snd g) \<and> revoked_leaves E g c = [] \<and>
    2 \<le> length (ms_members E (snd g)) \<and>
    row \<in> set (cl_outbox c') \<and> ob_subject row = subject d ''message'' \<and> ob_payload row = bs \<and> \<not> ob_sent row)
    (encrypt_event_inner E P name event c)"
  unfolding encrypt_event_inner_def Let_def
proof (rule ends_bind_prod ends_bind ends_rules)+
  fix wire d leaf c1 g u m bs c2 r i c3 c4 c5
  assume s: "group_named name c = Inr d"
      "(if is_root event then index_attachment E (g_gid d) (ae_content event) c else Inr c) = Inr c1"
      "load_group d c1 = Inr g" "ensure_can_send E g c1 = Inr u" "2 \<le> length (ms_members E (snd g))"
      "queue P (subject d ''message'') bs (save_group (fst g, m) c1) = Inr c2"
      "index_receipt E i (g_gid d) bs c3 = Inr c4"
      "index_application E i (g_gid d) (identity_text (dr_payload r)) bs (Some event) (event_transcript event) c4 = Inr c5"
    and t: "insert_transcript \<lparr>tr_id = 0, tr_gid = g_gid d, tr_payload = bs, tr_sender = Some (identity_text (dr_payload r)),
      tr_plaintext = Some (event_transcript event), tr_outgoing = True, tr_sequence = None, tr_displayed = True\<rparr> c2 = Inr (i, c3)"
  obtain t where c1: "c1 = c\<lparr>cl_attachments := t\<rparr>"
  proof (cases "is_root event")
    case True
    then show ?thesis using s(2) index_attachment_frame that by metis
  next
    case False
    then show ?thesis using s(2) that[of "cl_attachments c"] by simp
  qed
  have "\<exists>x \<in> set (cl_outbox c2). ob_subject x = subject d ''message'' \<and> ob_payload x = bs \<and> \<not> ob_sent x"
    using s(6) by (auto simp: queue_def result_simps insert_row_ok)
  moreover have "cl_outbox c3 = cl_outbox c2" using t by (auto simp: insert_transcript_def Let_def result_simps)
  moreover have "cl_outbox c4 = cl_outbox c3" using s(7) by (auto simp: index_receipt_def bind_r_eq_Inr split: if_split_asm)
  moreover have "cl_outbox c5 = cl_outbox c4"
    using s(8) by (auto simp: index_application_def inherit_displayed_def bind_r_eq_Inr)
  ultimately have "\<exists>x \<in> set (cl_outbox c5). ob_subject x = subject d ''message'' \<and> ob_payload x = bs \<and> \<not> ob_sent x" by simp
  moreover have "\<exists>key. own_key c = Inr key \<and> \<not> is_revoked (public_key key) c \<and> ms_active E (snd g) \<and> revoked_leaves E g c = []"
    using s(4) unfolding c1 ensure_can_send_def
    by (auto simp: own_key_def is_revoked_def revoked_leaves_def revoked_mls_key_def result_simps)
  moreover have "load_group d c = Inr g" using s(3) by (simp add: c1 load_group_def)
  ultimately show "case (bs, c5) of (bs, c') \<Rightarrow> \<exists>d g key row. group_named name c = Inr d \<and> load_group d c = Inr g \<and>
      own_key c = Inr key \<and> \<not> is_revoked (public_key key) c \<and> ms_active E (snd g) \<and> revoked_leaves E g c = [] \<and>
      2 \<le> length (ms_members E (snd g)) \<and>
      row \<in> set (cl_outbox c') \<and> ob_subject row = subject d ''message'' \<and> ob_payload row = bs \<and> \<not> ob_sent row"
    using s(1,5) by (cases g) auto
qed

text \<open>A delivery that was decrypted is known from then on, and a known one changes nothing.\<close>

lemma record_received_known:
  "ends (\<lambda>(msg, c'). bs \<in> set (cl_received c') \<and> cl_groups c' = cl_groups c) (record_received E d bs sender plain c)"
  unfolding record_received_def Let_def
proof (rule ends_bind_prod ends_bind ends_rules)+
  fix event c1 c2 i c3 c4 c5
  assume s: "(if case event of None \<Rightarrow> True | Some e \<Rightarrow> is_root e
      then index_attachment E (g_gid d) (case event of None \<Rightarrow> plain | Some e \<Rightarrow> ae_content e) c else Inr c) = Inr c1"
    "receive bs c1 = Inr c2" "index_receipt E i (g_gid d) bs c3 = Inr c4"
    "index_application E i (g_gid d) sender bs event
      (case event of None \<Rightarrow> plain | Some e \<Rightarrow> event_transcript e) c4 = Inr c5"
    and t: "insert_transcript \<lparr>tr_id = 0, tr_gid = g_gid d, tr_payload = bs, tr_sender = Some sender,
      tr_plaintext = Some (case event of None \<Rightarrow> plain | Some e \<Rightarrow> event_transcript e), tr_outgoing = False,
      tr_sequence = None, tr_displayed = False\<rparr> c2 = Inr (i, c3)"
  have "cl_groups c1 = cl_groups c" using s(1) by (auto dest!: index_attachment_cases split: if_split_asm)
  moreover have "cl_groups c2 = cl_groups c1" "bs \<in> set (cl_received c2)"
    using s(2) by (auto simp: receive_def result_simps insert_row_ok)
  moreover have "cl_groups c3 = cl_groups c2" "cl_received c3 = cl_received c2"
    using t by (auto simp: insert_transcript_def Let_def result_simps)
  moreover have "cl_groups c4 = cl_groups c3" "cl_received c4 = cl_received c3"
    using s(3) by (auto simp: index_receipt_def bind_r_eq_Inr split: if_split_asm)
  moreover have "cl_groups c5 = cl_groups c4" "cl_received c5 = cl_received c4"
    using s(4) by (auto simp: index_application_def inherit_displayed_def bind_r_eq_Inr)
  ultimately show "case (\<lparr>dm_sender = sender, dm_plaintext = case event of None \<Rightarrow> plain | Some e \<Rightarrow> event_transcript e\<rparr>, c5) of
      (msg, c') \<Rightarrow> bs \<in> set (cl_received c') \<and> cl_groups c' = cl_groups c" by simp
qed

lemma decrypt_inner_known:
  assumes "decrypt_inner E name bs c = Inr (msg, c')"
  shows "known_payload bs c'" "cl_groups c' = cl_groups c" "decrypt_inner E name bs c' = Inr (None, c')"
proof -
  from assms obtain d h where d: "length bs \<le> MAX_WIRE" "group_named name c = Inr d" "private_header E bs = Inr h"
      "mh_group h = g_mls_id d" "mh_content h = Application"
    by (auto simp: decrypt_inner_def result_simps)
  have "known_payload bs c' \<and> cl_groups c' = cl_groups c"
  proof (cases "known_payload bs c")
    case True
    then show ?thesis using assms d by (simp add: decrypt_inner_def)
  next
    case False
    with assms d obtain g sender plain m where
        "record_received E d bs sender plain (save_group g c) = Inr (m, c')"
      by (auto simp: decrypt_inner_def result_simps)
    then show ?thesis
      using record_received_known[of bs "save_group g c" E d sender plain] by (simp add: ends_def known_payload_def save_group_def)
  qed
  then show k: "known_payload bs c'" "cl_groups c' = cl_groups c" by auto
  have "group_named name c' = group_named name c" using k(2) by (simp add: group_named_def)
  then show "decrypt_inner E name bs c' = Inr (None, c')" using d k(1) by (simp add: decrypt_inner_def)
qed

end
