(* ===== verification/History.thy ===== *)
theory History
  imports Messaging
begin

text \<open>
  Durable history (\<open>history.rs\<close>): staging of deliveries before they are acknowledged, the loop that
  processes a group's staged deliveries in stream order, the transcript queries, the projected
  conversation (\<open>relationships.rs\<close>) and the responder of service participants
  (\<open>participants.rs\<close>).
\<close>

record history_entry =
  he_id :: nat
  he_sequence :: "nat option"
  he_sender :: "string option"
  he_plaintext :: "bytes option"
  he_outgoing :: bool

record sync_report =
  sr_staged :: nat
  sr_decrypted :: nat
  sr_rejected :: nat
  sr_unavailable :: nat

section \<open>Staging\<close>

definition stage_action :: "'m cpager \<Rightarrow> nat \<Rightarrow> string \<Rightarrow> bytes \<Rightarrow> 'm client \<Rightarrow> (unit \<times> 'm client) result" where
  "stage_action P sequence s payload c =
     (case select_one (\<lambda>x. ch_sequence x = sequence) (cl_chat c) of
        Some old \<Rightarrow>
          ensure (ch_subject old = s \<and> ch_payload old = payload)
            ''CHAT sequence changed: possible stream reset; refusing to overwrite local history'' (Inr ((), c))
      | None \<Rightarrow>
          bind_r (check_database (cl_capacity c) (P c) False) (\<lambda>_.
          bind_r (insert_row ch_sequence \<lparr>ch_sequence = sequence, ch_subject = s, ch_payload = payload,
              ch_state = ChatPending\<rparr> (cl_chat c)) (\<lambda>t. Inr ((), c\<lparr>cl_chat := t\<rparr>))))"

definition stage_chat :: "'m cpager \<Rightarrow> nat \<Rightarrow> string \<Rightarrow> bytes \<Rightarrow> 'm client \<Rightarrow> 'm client \<times> unit result" where
  "stage_chat P sequence s payload c =
     ensure_s (0 < sequence \<and> sequence \<le> I64_MAX) ''invalid CHAT sequence'' c
     (ensure_s (length payload \<le> MAX_WIRE \<and> length s \<le> 256) ''invalid CHAT delivery size'' c
       (client_transaction P (stage_action P sequence s payload) c))"

section \<open>Processing one delivery\<close>

definition for_group :: "group \<Rightarrow> chat_row \<Rightarrow> bool" where
  "for_group d x \<longleftrightarrow> ch_subject x = subject d ''message'' \<or> ch_subject x = subject d ''handshake''"

definition pending :: "group \<Rightarrow> 'm client \<Rightarrow> chat_row list" where
  "pending d c = filter (\<lambda>x. for_group d x \<and> ch_state x = ChatPending) (cl_chat c)"

definition next_delivery :: "group \<Rightarrow> 'm client \<Rightarrow> chat_row option" where
  "next_delivery d c = (case sort_key ch_sequence (pending d c) of [] \<Rightarrow> None | x # _ \<Rightarrow> Some x)"

definition set_delivery :: "nat \<Rightarrow> chat_state \<Rightarrow> 'm client \<Rightarrow> 'm client" where
  "set_delivery sequence state c = c\<lparr>cl_chat := update_where (\<lambda>x. ch_sequence x = sequence)
     (\<lambda>x. x\<lparr>ch_state := state\<rparr>) (cl_chat c)\<rparr>"

definition insert_gap :: "group \<Rightarrow> bytes \<Rightarrow> 'm client \<Rightarrow> bool \<times> 'm client" where
  "insert_gap d payload c =
     (if payload \<in> tr_payload ` set (cl_transcript c) then (False, c)
      else (True, c\<lparr>cl_transcript := cl_transcript c @ [\<lparr>tr_id = next_rowid (map tr_id (cl_transcript c)),
        tr_gid = g_gid d, tr_payload = payload, tr_sender = None, tr_plaintext = None,
        tr_outgoing = (payload \<in> ob_payload ` set (cl_outbox c)), tr_sequence = None, tr_displayed = False\<rparr>]\<rparr>))"

definition deliver_action ::
    "('m, 'z) outbox_ext_scheme \<Rightarrow> string \<Rightarrow> group \<Rightarrow> chat_row \<Rightarrow> 'm client \<Rightarrow> ((bool \<times> bool) \<times> 'm client) result" where
  "deliver_action E name d x c =
     bind_r (before_join E name (ch_payload x) c) (\<lambda>before.
     if before \<or> ch_subject x = subject d ''handshake'' then
       bind_r (if before then Inr c else process_handshake E name (ch_payload x) (ch_sequence x) c) (\<lambda>c.
       Inr ((False, False), set_delivery (ch_sequence x) ChatProcessed c))
     else
       bind_r (decrypt_inner E name (ch_payload x) c) (\<lambda>(msg, c).
       case insert_gap d (ch_payload x) c of (inserted, c) \<Rightarrow>
       bind_r (set_sequence (\<lambda>t. tr_gid t = g_gid d \<and> tr_payload t = ch_payload x) (ch_sequence x) c) (\<lambda>c.
       Inr ((msg \<noteq> None, inserted), set_delivery (ch_sequence x) ChatProcessed c))))"

section \<open>What the receiving operations leave alone\<close>

lemma within_ok [result_simps]: "within m = Inr s \<longleftrightarrow> (\<exists>u. m = (s, Inr u))"
  by (auto simp: within_def split: prod.splits sum.splits)

lemma block_groups_frame:
  "block_groups E ds c = (c', r) \<Longrightarrow> \<exists>b. c' = c\<lparr>cl_blocked := b\<rparr>"
proof (induction ds arbitrary: c)
  case Nil
  then show ?case by (intro exI[of _ "cl_blocked c"]) simp
next
  case (Cons d ds)
  show ?case
  proof (cases "load_group d c")
    case (Inl e)
    with Cons.prems show ?thesis by (intro exI[of _ "cl_blocked c"]) simp
  next
    case (Inr g)
    with Cons.prems have "\<exists>c1 b. c1 = c\<lparr>cl_blocked := b\<rparr> \<and> block_groups E ds c1 = (c', r)"
      by (cases "ms_active E (snd g) \<and> revoked_leaves E g c = []")
        (auto simp: block_subject_def intro: exI[of _ "cl_blocked c"])
    with Cons.IH show ?thesis by fastforce
  qed
qed

lemma block_revoked_outbox_chat: "block_revoked_outbox E c = (c', r) \<Longrightarrow> cl_chat c' = cl_chat c"
  using block_groups_frame[of E _ c c' r] by (fastforce simp: block_revoked_outbox_def)

lemma refresh_coordinator_chat: "refresh_coordinator E g c = Inr c' \<Longrightarrow> cl_chat c' = cl_chat c"
  by (auto simp: refresh_coordinator_def set_coordinator_def result_simps split: if_split_asm option.split_asm)

lemma index_attachment_chat: "index_attachment E gid bs c = Inr c' \<Longrightarrow> cl_chat c' = cl_chat c"
  by (auto dest: index_attachment_cases)

lemma table_frames:
  "receive bs c = Inr c' \<Longrightarrow> cl_chat c' = cl_chat c"
  "insert_transcript t c = Inr (row, c') \<Longrightarrow> cl_chat c' = cl_chat c"
  "index_receipt X row gid bs c = Inr c' \<Longrightarrow> cl_chat c' = cl_chat c"
  "index_application E row gid sender bs ev plain c = Inr c' \<Longrightarrow> cl_chat c' = cl_chat c"
  "set_sequence p s c = Inr c' \<Longrightarrow> cl_chat c' = cl_chat c"
  by (auto simp: receive_def insert_transcript_def index_receipt_def index_application_def inherit_displayed_def
      set_sequence_def Let_def result_simps split: if_split_asm)

lemma insert_gap_chat [simp]: "cl_chat (snd (insert_gap d bs c)) = cl_chat c"
  by (simp add: insert_gap_def)

lemma save_group_chat [simp]: "cl_chat (save_group g c) = cl_chat c"
  by (simp add: save_group_def)

lemmas chat_frames = block_revoked_outbox_chat refresh_coordinator_chat index_attachment_chat table_frames

lemma process_handshake_chat: "process_handshake E name bs sequence c = Inr c' \<Longrightarrow> cl_chat c' = cl_chat c"
  unfolding process_handshake_def Let_def
  by (auto simp: result_simps split: if_split_asm dest!: chat_frames)

lemma record_received_chat: "record_received E d bs sender plain c = Inr (msg, c') \<Longrightarrow> cl_chat c' = cl_chat c"
  unfolding record_received_def Let_def
  by (auto simp: result_simps split: if_split_asm sum.split_asm option.split_asm dest!: chat_frames)

lemma decrypt_inner_chat: "decrypt_inner E name bs c = Inr (msg, c') \<Longrightarrow> cl_chat c' = cl_chat c"
  unfolding decrypt_inner_def
  by (auto simp: result_simps split: if_split_asm dest!: record_received_chat)

lemma deliver_action_chat:
  assumes "deliver_action E name d x c = Inr (v, c')"
  shows "cl_chat c' = update_where (\<lambda>y. ch_sequence y = ch_sequence x) (\<lambda>y. y\<lparr>ch_state := ChatProcessed\<rparr>) (cl_chat c)"
  using assms unfolding deliver_action_def set_delivery_def
  by (auto simp: result_simps split_beta split: if_split_asm
      dest!: process_handshake_chat decrypt_inner_chat chat_frames)

section \<open>The processing loop\<close>

lemma next_delivery_Some:
  assumes "next_delivery d c = Some x"
  shows "x \<in> set (pending d c)" "\<And>y. y \<in> set (pending d c) \<Longrightarrow> ch_sequence x \<le> ch_sequence y"
proof -
  from assms obtain xs where xs: "sort_key ch_sequence (pending d c) = x # xs"
    by (auto simp: next_delivery_def split: list.split_asm)
  from arg_cong[OF this, of set] show "x \<in> set (pending d c)" by auto
  have "sorted (map ch_sequence (x # xs))" using sorted_sort_key[of ch_sequence "pending d c"] xs by simp
  then show "ch_sequence x \<le> ch_sequence y" if "y \<in> set (pending d c)" for y
    using that arg_cong[OF xs, of set] by auto
qed

lemma pending_update:
  assumes "x \<in> set (pending d c)" "s \<noteq> ChatPending"
    "cl_chat c' = update_where (\<lambda>y. ch_sequence y = ch_sequence x) (\<lambda>y. y\<lparr>ch_state := s\<rparr>) (cl_chat c)"
  shows "pending d c' = filter (\<lambda>y. ch_sequence y \<noteq> ch_sequence x) (pending d c)"
    "length (pending d c') < length (pending d c)"
proof -
  have "filter (\<lambda>y. for_group d y \<and> ch_state y = ChatPending)
      (update_where (\<lambda>y. ch_sequence y = ch_sequence x) (\<lambda>y. y\<lparr>ch_state := s\<rparr>) t) =
    filter (\<lambda>y. ch_sequence y \<noteq> ch_sequence x) (filter (\<lambda>y. for_group d y \<and> ch_state y = ChatPending) t)" for t
    using assms(2) by (induction t) (auto simp: update_where_def for_group_def)
  then show p: "pending d c' = filter (\<lambda>y. ch_sequence y \<noteq> ch_sequence x) (pending d c)"
    by (simp add: pending_def assms(3))
  show "length (pending d c') < length (pending d c)"
    unfolding p using length_filter_less[OF assms(1)] by simp
qed

definition next_report :: "bool \<times> bool \<Rightarrow> sync_report \<Rightarrow> sync_report" where
  "next_report v r = r\<lparr>sr_decrypted := sr_decrypted r + of_bool (fst v),
     sr_unavailable := sr_unavailable r + of_bool (snd v)\<rparr>"

text \<open>Each round settles the delivery it read, whatever the outcome of its transaction.\<close>

lemma deliver_commit:
  assumes "next_delivery d c = Some x" "client_transaction P (deliver_action E name d x) c = (c', Inr v)"
  shows "cl_chat c' = update_where (\<lambda>y. ch_sequence y = ch_sequence x) (\<lambda>y. y\<lparr>ch_state := ChatProcessed\<rparr>) (cl_chat c)"
proof -
  obtain c1 where "deliver_action E name d x (c\<lparr>cl_recovery := False\<rparr>) = Inr (v, c1)" "c' = c1\<lparr>cl_recovery := False\<rparr>"
    using transaction_budget_Inr[of False P "deliver_action E name d x" c c' v] assms(2)
    by (auto simp: client_transaction_def)
  then show ?thesis using deliver_action_chat[of E name d x "c\<lparr>cl_recovery := False\<rparr>" v c1] by simp
qed

lemma deliver_reject:
  assumes "client_transaction P (deliver_action E name d x) c = (c', Inl e)"
  shows "set_delivery (ch_sequence x) s c' = (set_delivery (ch_sequence x) s c)\<lparr>cl_recovery := False\<rparr>"
    "cl_chat (set_delivery (ch_sequence x) s c') =
      update_where (\<lambda>y. ch_sequence y = ch_sequence x) (\<lambda>y. y\<lparr>ch_state := s\<rparr>) (cl_chat c)"
  using transaction_budget_Inl[of False P "deliver_action E name d x" c c' e] assms
  by (auto simp: client_transaction_def set_delivery_def)

function process_loop ::
    "('m, 'z) outbox_ext_scheme \<Rightarrow> 'm cpager \<Rightarrow> string \<Rightarrow> group \<Rightarrow> sync_report \<Rightarrow> 'm client \<Rightarrow> 'm client \<times> sync_report result" where
  "process_loop E P name d r c =
     (case next_delivery d c of
        None \<Rightarrow> (c, Inr r)
      | Some x \<Rightarrow>
          (case client_transaction P (deliver_action E name d x) c of
             (c', Inr v) \<Rightarrow> process_loop E P name d (next_report v r) c'
           | (c', Inl e) \<Rightarrow>
               if e = InvalidMessage
               then process_loop E P name d (r\<lparr>sr_rejected := sr_rejected r + 1\<rparr>)
                 (set_delivery (ch_sequence x) ChatRejected c')
               else (c', Inl e)))"
  by pat_completeness auto

termination
proof (relation "measure (\<lambda>(E, P, name, d, r, c). length (pending d c))", goal_cases)
  case (3 E P name d r c x c' res v)
  then show ?case
    using pending_update(2)[OF next_delivery_Some(1)[of d c x] _ deliver_commit[of d c x P E name c' v]] by auto
next
  case (2 E P name d r c x c' res e)
  then show ?case
    using pending_update(2)[OF next_delivery_Some(1)[of d c x] _ deliver_reject(2)[of P E name d x c c' e ChatRejected]]
    by auto
qed simp

declare process_loop.simps [simp del]

definition process_history ::
    "('m, 'z) outbox_ext_scheme \<Rightarrow> 'm cpager \<Rightarrow> string \<Rightarrow> 'm client \<Rightarrow> 'm client \<times> sync_report result" where
  "process_history E P name c =
     bind_s (c, group_named name c) (\<lambda>d c.
     process_loop E P name d \<lparr>sr_staged = 0, sr_decrypted = 0, sr_rejected = 0, sr_unavailable = 0\<rparr> c)"

section \<open>Queries\<close>

definition history_entry_of :: "transcript_row \<Rightarrow> history_entry" where
  "history_entry_of t = \<lparr>he_id = tr_id t, he_sequence = tr_sequence t, he_sender = tr_sender t,
     he_plaintext = tr_plaintext t, he_outgoing = tr_outgoing t\<rparr>"

definition transcript_order :: "transcript_row list \<Rightarrow> transcript_row list" where
  "transcript_order ts = sort_key (\<lambda>t. (stream_order t, tr_id t)) ts"

text \<open>The newest \<open>limit\<close> rows, oldest first; rows without a stream sequence are the newest.\<close>

definition history :: "string \<Rightarrow> nat \<Rightarrow> nat option \<Rightarrow> 'm client \<Rightarrow> history_entry list result" where
  "history name limit before c =
     ensure (1 \<le> limit \<and> limit \<le> 1000) ''history limit must be 1-1000''
     (bind_r (group_named name c) (\<lambda>d.
      Inr (map history_entry_of (rev (take limit (rev (transcript_order (filter (\<lambda>t. tr_gid t = g_gid d \<and>
        (case before of None \<Rightarrow> True
         | Some b \<Rightarrow> (case tr_sequence t of None \<Rightarrow> False | Some s \<Rightarrow> s < b))) (cl_transcript c)))))))))"

definition unread_rows :: "group \<Rightarrow> 'm client \<Rightarrow> transcript_row list" where
  "unread_rows d c = filter (\<lambda>t. tr_gid t = g_gid d \<and> \<not> tr_outgoing t \<and> tr_plaintext t \<noteq> None \<and> \<not> tr_displayed t)
     (cl_transcript c)"

definition unread :: "string \<Rightarrow> 'm client \<Rightarrow> history_entry option result" where
  "unread name c =
     bind_r (group_named name c) (\<lambda>d.
     Inr (case transcript_order (unread_rows d c) of [] \<Rightarrow> None | t # _ \<Rightarrow> Some (history_entry_of t)))"

definition unread_count :: "string \<Rightarrow> 'm client \<Rightarrow> nat result" where
  "unread_count name c = bind_r (group_named name c) (\<lambda>d. Inr (length (unread_rows d c)))"

text \<open>A message is displayed together with every retransmission of the same application event.\<close>

definition same_event :: "nat \<Rightarrow> 'm client \<Rightarrow> nat list" where
  "same_event i c = concat (map (\<lambda>e. map me_transcript (filter (\<lambda>f. me_gid f = me_gid e \<and>
     me_message_id f = me_message_id e) (cl_events c))) (filter (\<lambda>e. me_transcript e = i) (cl_events c)))"

definition mark_displayed :: "nat \<Rightarrow> 'm client \<Rightarrow> 'm client" where
  "mark_displayed i c = c\<lparr>cl_transcript := update_where
     (\<lambda>t. \<not> tr_displayed t \<and> (tr_id t = i \<or> tr_id t \<in> set (same_event i c)))
     (\<lambda>t. t\<lparr>tr_displayed := True\<rparr>) (cl_transcript c)\<rparr>"

definition rejected_history :: "string \<Rightarrow> 'm client \<Rightarrow> nat result" where
  "rejected_history name c =
     bind_r (group_named name c) (\<lambda>d. Inr (count_where (\<lambda>x. for_group d x \<and> ch_state x = ChatRejected) (cl_chat c)))"

section \<open>The projected conversation\<close>

definition conversation_entry ::
    "('m, 'z) app_ext_scheme \<Rightarrow> string \<Rightarrow> 'm client \<Rightarrow> history_entry \<Rightarrow> (history_entry \<times> string option) option result" where
  "conversation_entry E gid c entry =
     (case application_id (he_id entry) c of
        None \<Rightarrow> Inr (Some (entry, None))
      | Some i \<Rightarrow>
          bind_r (parse_id i) (\<lambda>bs.
          bind_r (application E gid bs c) (\<lambda>found.
          bind_r (or_err found (Anyhow ''event index missing'')) (\<lambda>ev.
          if se_row ev \<noteq> he_id entry then Inr None
          else bind_r (projected E gid ev c) (\<lambda>text.
            Inr (Some (entry\<lparr>he_plaintext := Some (as_bytes text)\<rparr>, Some i)))))))"

definition conversation ::
    "('m, 'z) app_ext_scheme \<Rightarrow> string \<Rightarrow> nat \<Rightarrow> nat option \<Rightarrow> 'm client
      \<Rightarrow> (history_entry \<times> string option) list result" where
  "conversation E name limit before c =
     bind_r (group_named name c) (\<lambda>d.
     bind_r (history name limit before c) (\<lambda>entries.
     bind_r (map_r (conversation_entry E (g_gid d) c) entries) (\<lambda>shown.
     Inr (List.map_filter id shown))))"

section \<open>Service participants\<close>

definition STATUS_RESPONSE :: string where
  "STATUS_RESPONSE = ''EpochGrid service online'' @ [CHR 0x0A] @ ''NATS connected'' @ [CHR 0x0A] @ ''MLS group active''"

definition group_active :: "('m, 'z) mls_ext_scheme \<Rightarrow> string \<Rightarrow> 'm client \<Rightarrow> bool result" where
  "group_active E name c =
     bind_r (group_named name c) (\<lambda>d. bind_r (load_group d c) (\<lambda>g. Inr (ms_active E (snd g))))"

definition respond_action ::
    "('m, 'z) outbox_ext_scheme \<Rightarrow> 'm cpager \<Rightarrow> bytes option \<Rightarrow> string \<Rightarrow> group \<Rightarrow> string \<times> string \<times> bytes \<Rightarrow> 'm client
      \<Rightarrow> (nat \<times> 'm client) result" where
  "respond_action E P nonce name d row c = (case row of (i, sender, bs) \<Rightarrow>
     if (g_gid d, i) \<in> set (cl_participant_events c) then Inr (0, c)
     else let c = c\<lparr>cl_participant_events := cl_participant_events c @ [(g_gid d, i)]\<rparr> in
       bind_r (from_bytes_event E bs) (\<lambda>event.
       bind_r (or_err (split_once CHR ''/'' sender) (Anyhow ''invalid authenticated sender'')) (\<lambda>(_, device).
       if device = ''service'' \<or> ae_relation event \<noteq> None \<or> ae_content event \<noteq> as_bytes ''/status'' then Inr (0, c)
       else bind_r (resolve_message name i c) (\<lambda>target.
         bind_r (new_event nonce name (as_bytes STATUS_RESPONSE) (Some (ReplyTo target)) c) (\<lambda>response.
         bind_r (encrypt_event_inner E P name response c) (\<lambda>(_, c). Inr (1, c)))))))"

fun respond_rows ::
    "('m, 'z) outbox_ext_scheme \<Rightarrow> 'm cpager \<Rightarrow> (string \<Rightarrow> bytes option) \<Rightarrow> string \<Rightarrow> group
      \<Rightarrow> (string \<times> string \<times> bytes) list \<Rightarrow> nat \<Rightarrow> 'm client \<Rightarrow> 'm client \<times> nat result" where
  "respond_rows E P nonces name d [] replies c = (c, Inr replies)"
| "respond_rows E P nonces name d (row # rows) replies c =
     bind_s (client_transaction P (respond_action E P (nonces (fst row)) name d row) c) (\<lambda>n c.
     respond_rows E P nonces name d rows (replies + n) c)"

definition respond_status ::
    "('m, 'z) outbox_ext_scheme \<Rightarrow> 'm cpager \<Rightarrow> (string \<Rightarrow> bytes option) \<Rightarrow> string \<Rightarrow> 'm client \<Rightarrow> 'm client \<times> nat result" where
  "respond_status E P nonces name c =
     bind_s (c, own_registration c) (\<lambda>r c.
     ensure_s (rp_device_id (dr_payload r) = ''service'') ''participant requires a dedicated USER/service identity'' c
     (bind_s (c, group_named name c) (\<lambda>d c.
      bind_s (c, load_group d c) (\<lambda>g c.
      bind_s (c, ensure_can_send E g c) (\<lambda>_ c.
      bind_s (c, map_r (\<lambda>(e, t). bind_r (or_err (tr_sender t) (Sql ''Invalid column type Null''))
            (\<lambda>sender. Inr (me_message_id e, sender, me_event e)))
          (take 100 (sort_key (\<lambda>(e, t). tr_id t)
            (event_join (g_gid d) (\<lambda>e. (me_gid e, me_message_id e) \<notin> set (cl_participant_events c)) c)))) (\<lambda>rows c.
      respond_rows E P nonces name d rows 0 c))))))"

section \<open>What the processing loop achieves\<close>

definition rejected :: "group \<Rightarrow> 'm client \<Rightarrow> nat" where
  "rejected d c = count_where (\<lambda>x. for_group d x \<and> ch_state x = ChatRejected) (cl_chat c)"

definition other_groups :: "group \<Rightarrow> 'm client \<Rightarrow> chat_row list" where
  "other_groups d c = filter (\<lambda>x. \<not> for_group d x) (cl_chat c)"

text \<open>One round on the delivery table: the row read is settled, rows of other groups stay.\<close>

lemma settle_row:
  assumes "distinct (map ch_sequence (cl_chat c))" "x \<in> set (pending d c)"
    "cl_chat c' = update_where (\<lambda>y. ch_sequence y = ch_sequence x) (\<lambda>y. y\<lparr>ch_state := s\<rparr>) (cl_chat c)"
  shows "other_groups d c' = other_groups d c"
    "rejected d c' = rejected d c + (if s = ChatRejected then 1 else 0)"
    "distinct (map ch_sequence (cl_chat c'))"
proof -
  have x: "x \<in> set (cl_chat c)" "for_group d x" "ch_state x = ChatPending" using assms(2) by (auto simp: pending_def)
  have g: "for_group d (y\<lparr>ch_state := s\<rparr>) = for_group d y" for y by (simp add: for_group_def)
  show "distinct (map ch_sequence (cl_chat c'))" using assms(1,3) by (simp add: map_update_where)
  obtain as bs where ab: "cl_chat c = as @ x # bs" using x(1) by (meson split_list)
  have ne: "ch_sequence y \<noteq> ch_sequence x" if "y \<in> set as \<or> y \<in> set bs" for y
    using assms(1) that by (auto simp: ab) (metis image_eqI)+
  have "update_where (\<lambda>y. ch_sequence y = ch_sequence x) (\<lambda>y. y\<lparr>ch_state := s\<rparr>) t = t" if "set t \<subseteq> set as \<union> set bs" for t
    using ne that by (auto simp: update_where_def intro!: map_idI)
  then have c': "cl_chat c' = as @ x\<lparr>ch_state := s\<rparr> # bs"
    using assms(3) by (simp add: ab) (simp add: update_where_def)
  show "other_groups d c' = other_groups d c" "rejected d c' = rejected d c + (if s = ChatRejected then 1 else 0)"
    using x g[of x] by (simp_all add: other_groups_def rejected_def count_where_def c' ab)
qed

lemma pending_flag [simp]: "pending d (c\<lparr>cl_recovery := b\<rparr>) = pending d c"
  by (simp add: pending_def)

definition settled :: "group \<Rightarrow> 'm client \<Rightarrow> 'm client \<Rightarrow> bool" where
  "settled d c c' \<longleftrightarrow> (\<exists>n. pending d c' = filter (\<lambda>x. n \<le> ch_sequence x) (pending d c)) \<and>
     other_groups d c' = other_groups d c"

lemma settled_step:
  assumes "next_delivery d c = Some x" "distinct (map ch_sequence (cl_chat c))" "s \<noteq> ChatPending"
    "cl_chat c1 = update_where (\<lambda>y. ch_sequence y = ch_sequence x) (\<lambda>y. y\<lparr>ch_state := s\<rparr>) (cl_chat c)"
    "settled d c1 c'"
  shows "settled d c c'"
proof -
  note x = next_delivery_Some[OF assms(1)]
  have p: "pending d c1 = filter (\<lambda>y. ch_sequence y \<noteq> ch_sequence x) (pending d c)"
    by (rule pending_update(1)[OF x(1) assms(3,4)])
  obtain n where n: "pending d c' = filter (\<lambda>y. n \<le> ch_sequence y) (pending d c1)" "other_groups d c' = other_groups d c1"
    using assms(5) by (auto simp: settled_def)
  have "pending d c' = filter (\<lambda>y. max n (Suc (ch_sequence x)) \<le> ch_sequence y) (pending d c)"
    unfolding n(1) p filter_filter
  proof (rule filter_cong[OF refl])
    fix y assume "y \<in> set (pending d c)"
    from x(2)[OF this] show "(ch_sequence y \<noteq> ch_sequence x \<and> n \<le> ch_sequence y) = (max n (Suc (ch_sequence x)) \<le> ch_sequence y)"
      by linarith
  qed
  then show ?thesis using n(2) settle_row(1)[OF assms(2) x(1) assms(4)] unfolding settled_def by metis
qed

lemma process_loop_outcome:
  assumes "distinct (map ch_sequence (cl_chat c))" "process_loop E P name d r c = (c', res)"
  shows "settled d c c' \<and>
    (\<forall>rep. res = Inr rep \<longrightarrow> pending d c' = [] \<and> rejected d c' + sr_rejected r = rejected d c + sr_rejected rep) \<and>
    (\<forall>e. res = Inl e \<longrightarrow> e \<noteq> InvalidMessage \<and> pending d c' \<noteq> [])"
  using assms
proof (induction E P name d r c rule: process_loop.induct)
  case (1 E P name d r c)
  show ?case
  proof (cases "next_delivery d c")
    case None
    then have "c' = c" "res = Inr r" using 1(4) by (subst (asm) process_loop.simps, simp)+
    moreover have "pending d c = []" using None by (auto simp: next_delivery_def split: list.split_asm dest!: arg_cong[of _ _ set])
    ultimately show ?thesis by (auto simp: settled_def)
  next
    case (Some x)
    note x = next_delivery_Some(1)[OF Some]
    obtain c1 out where t: "client_transaction P (deliver_action E name d x) c = (c1, out)" by fastforce
    show ?thesis
    proof (cases out)
      case (Inr v)
      have ch: "cl_chat c1 = update_where (\<lambda>y. ch_sequence y = ch_sequence x) (\<lambda>y. y\<lparr>ch_state := ChatProcessed\<rparr>) (cl_chat c)"
        using deliver_commit[OF Some, of P E name c1 v] t Inr by simp
      have "process_loop E P name d (next_report v r) c1 = (c', res)"
        using 1(4) Some t Inr by (subst (asm) process_loop.simps) simp
      from 1(2)[OF Some t[symmetric] Inr settle_row(3)[OF 1(3) x ch] this]
      show ?thesis using settled_step[OF Some 1(3) _ ch, of c'] settle_row(2)[OF 1(3) x ch]
        by (auto simp: next_report_def)
    next
      case (Inl e)
      let ?c = "set_delivery (ch_sequence x) ChatRejected c1"
      have ch: "cl_chat ?c = update_where (\<lambda>y. ch_sequence y = ch_sequence x) (\<lambda>y. y\<lparr>ch_state := ChatRejected\<rparr>) (cl_chat c)"
        using deliver_reject(2) t Inl by blast
      show ?thesis
      proof (cases "e = InvalidMessage")
        case True
        have "process_loop E P name d (r\<lparr>sr_rejected := sr_rejected r + 1\<rparr>) ?c = (c', res)"
          using 1(4) Some t Inl True by (subst (asm) process_loop.simps) simp
        from 1(1)[OF Some t[symmetric] Inl True settle_row(3)[OF 1(3) x ch] this]
        show ?thesis using settled_step[OF Some 1(3) _ ch, of c'] settle_row(2)[OF 1(3) x ch] by auto
      next
        case False
        have "c' = c1" "res = Inl e" using 1(4) Some t Inl False by (subst (asm) process_loop.simps, simp)+
        moreover have "c1 = c\<lparr>cl_recovery := False\<rparr>"
          using transaction_budget_Inl t Inl unfolding client_transaction_def by metis
        ultimately show ?thesis using x False by (auto simp: settled_def other_groups_def intro: exI[of _ 0])
      qed
    qed
  qed
qed

end
