(* ===== verification/Durability.thy ===== *)
theory Durability
  imports History
begin

text \<open>
  What no client operation undoes: queued messages, staged deliveries, the transcript, receipts,
  attachments, events, groups and welcomes are only added to or moved forward, the outbox stays
  within its budget, and the trust state moves one way. Each table update is shown once; \<open>keeps\<close> carries the argument through the
  result monad, so that an operation follows its text.
\<close>

section \<open>Tables\<close>

definition rows_le :: "('r \<Rightarrow> 'r \<Rightarrow> bool) \<Rightarrow> 'r list \<Rightarrow> 'r list \<Rightarrow> bool" where
  "rows_le R t t' \<longleftrightarrow> (\<forall>x \<in> set t. \<exists>x' \<in> set t'. R x x')"

lemma rows_le_imp: "rows_le R t t' \<Longrightarrow> (\<And>x x'. R x x' \<Longrightarrow> S x x') \<Longrightarrow> rows_le S t t'"
  unfolding rows_le_def by meson

lemma rows_le_refl: "(\<And>x. R x x) \<Longrightarrow> rows_le R t t"
  by (auto simp: rows_le_def)

lemma rows_le_trans:
  "rows_le R t u \<Longrightarrow> rows_le R u v \<Longrightarrow> (\<And>x y z. R x y \<Longrightarrow> R y z \<Longrightarrow> R x z) \<Longrightarrow> rows_le R t v"
  unfolding rows_le_def by meson

lemma rows_le_append: "(\<And>x. R x x) \<Longrightarrow> rows_le R t (t @ u)"
  by (auto simp: rows_le_def)

lemma rows_le_update:
  "(\<And>x. R x x) \<Longrightarrow> (\<And>x. x \<in> set t \<Longrightarrow> p x \<Longrightarrow> R x (f x)) \<Longrightarrow> rows_le R t (update_where p f t)"
  unfolding rows_le_def set_update_where
proof
  fix x assume r: "\<And>x. R x x" "\<And>x. x \<in> set t \<Longrightarrow> p x \<Longrightarrow> R x (f x)" "x \<in> set t"
  show "\<exists>x' \<in> (\<lambda>r. if p r then f r else r) ` set t. R x x'"
    by (rule bexI[OF _ imageI[OF r(3)]]) (simp add: r)
qed

definition outbox_le :: "outbox_row \<Rightarrow> outbox_row \<Rightarrow> bool" where
  "outbox_le x x' \<longleftrightarrow> ob_id x' = ob_id x \<and> ob_subject x' = ob_subject x \<and> ob_payload x' = ob_payload x \<and>
     (ob_sent x \<longrightarrow> ob_sent x')"

definition chat_le_row :: "chat_row \<Rightarrow> chat_row \<Rightarrow> bool" where
  "chat_le_row x x' \<longleftrightarrow> ch_sequence x' = ch_sequence x \<and> ch_subject x' = ch_subject x \<and>
     ch_payload x' = ch_payload x \<and> (ch_state x \<noteq> ChatPending \<longrightarrow> ch_state x' = ch_state x)"

definition transcript_le :: "transcript_row \<Rightarrow> transcript_row \<Rightarrow> bool" where
  "transcript_le t t' \<longleftrightarrow> tr_id t' = tr_id t \<and> tr_gid t' = tr_gid t \<and> tr_payload t' = tr_payload t \<and>
     tr_sender t' = tr_sender t \<and> tr_plaintext t' = tr_plaintext t \<and> tr_outgoing t' = tr_outgoing t \<and>
     (tr_displayed t \<longrightarrow> tr_displayed t') \<and>
     (\<forall>s. tr_sequence t = Some s \<longrightarrow> (\<exists>s' \<le> s. tr_sequence t' = Some s'))"

definition receipt_le :: "device_receipt \<Rightarrow> device_receipt \<Rightarrow> bool" where
  "receipt_le d d' \<longleftrightarrow> dc_transcript d' = dc_transcript d \<and> dc_device d' = dc_device d \<and> (dc_read d \<longrightarrow> dc_read d')"

lemma chat_row_refl [simp]: "outbox_le x x" "chat_le_row y y" "transcript_le t t" "receipt_le d d"
  by (simp_all add: outbox_le_def chat_le_row_def transcript_le_def receipt_le_def)

lemma chat_row_trans:
  "outbox_le x x' \<Longrightarrow> outbox_le x' x'' \<Longrightarrow> outbox_le x x''"
  "chat_le_row y y' \<Longrightarrow> chat_le_row y' y'' \<Longrightarrow> chat_le_row y y''"
  "receipt_le d d' \<Longrightarrow> receipt_le d' d'' \<Longrightarrow> receipt_le d d''"
  by (auto simp: outbox_le_def chat_le_row_def receipt_le_def)

lemma transcript_le_trans: "transcript_le t t' \<Longrightarrow> transcript_le t' t'' \<Longrightarrow> transcript_le t t''"
  unfolding transcript_le_def by (metis order_trans)

lemmas rows_trans = rows_le_trans[OF _ _ chat_row_trans(1)] rows_le_trans[OF _ _ chat_row_trans(2)]
  rows_le_trans[OF _ _ chat_row_trans(3)] rows_le_trans[OF _ _ transcript_le_trans]

section \<open>Invariant and order\<close>

definition pending_rows :: "outbox_row list \<Rightarrow> outbox_row list" where
  "pending_rows t = filter (\<lambda>x. \<not> ob_sent x) t"

definition outbox_ok :: "capacity \<Rightarrow> outbox_row list \<Rightarrow> bool" where
  "outbox_ok cap t \<longleftrightarrow> distinct (map ob_id t) \<and> distinct (map ob_payload t) \<and>
     list_all (\<lambda>x. length (ob_payload x) \<le> MAX_WIRE \<and> 0 < ob_id x) t \<and>
     length (pending_rows t) \<le> pending_messages cap + 32 \<and>
     sum_list (map (length \<circ> ob_payload) (pending_rows t)) \<le> pending_bytes cap + 32 * MAX_WIRE"

definition transcript_ok :: "transcript_row list \<Rightarrow> bool" where
  "transcript_ok t \<longleftrightarrow> distinct (map tr_id t) \<and> distinct (map tr_payload t) \<and> distinct (sequences t)"

definition groups_ok :: "capacity \<Rightarrow> group list \<Rightarrow> bool" where
  "groups_ok cap t \<longleftrightarrow> distinct (map g_name t) \<and> distinct (map g_gid t) \<and> distinct (map g_mls_id t) \<and>
     length t \<le> retained_groups cap"

definition chat_inv :: "'m client \<Rightarrow> bool" where
  "chat_inv c \<longleftrightarrow> outbox_ok (cl_capacity c) (cl_outbox c) \<and> distinct (map ch_sequence (cl_chat c)) \<and>
     transcript_ok (cl_transcript c) \<and> distinct (map (\<lambda>d. (dc_transcript d, dc_device d)) (cl_device_receipts c)) \<and>
     groups_ok (cl_capacity c) (cl_groups c)"

definition chat_le :: "'m client \<Rightarrow> 'm client \<Rightarrow> bool" where
  "chat_le c c' \<longleftrightarrow> cl_capacity c' = cl_capacity c \<and> rows_le outbox_le (cl_outbox c) (cl_outbox c') \<and>
     rows_le chat_le_row (cl_chat c) (cl_chat c') \<and> rows_le transcript_le (cl_transcript c) (cl_transcript c') \<and>
     rows_le receipt_le (cl_device_receipts c) (cl_device_receipts c') \<and>
     set (cl_received c) \<subseteq> set (cl_received c') \<and> set (cl_attachments c) \<subseteq> set (cl_attachments c') \<and>
     set (cl_events c) \<subseteq> set (cl_events c') \<and> set (cl_groups c) \<subseteq> set (cl_groups c') \<and>
     set (cl_welcomes c) \<subseteq> set (cl_welcomes c')"

definition chat_good :: "'m client \<Rightarrow> 'm client \<Rightarrow> bool" where
  "chat_good c c' \<longleftrightarrow> (chat_inv c \<longrightarrow> chat_inv c' \<and> chat_le c c') \<and> trust_good c c'"

lemma chat_le_refl [simp]: "chat_le c c"
  by (simp add: chat_le_def rows_le_refl)

lemma chat_le_trans: "chat_le c d \<Longrightarrow> chat_le d e \<Longrightarrow> chat_le c e"
  unfolding chat_le_def
  by (elim conjE, intro conjI) ((erule (1) rows_trans | erule (1) subset_trans | simp)+)

lemma chat_good_refl [simp]: "chat_good c c"
  by (simp add: chat_good_def)

lemma chat_good_trans: "chat_good c d \<Longrightarrow> chat_good d e \<Longrightarrow> chat_good c e"
  using chat_le_trans trust_good_trans by (auto simp: chat_good_def)

lemma chat_goodI: "(chat_inv c \<Longrightarrow> chat_good c c') \<Longrightarrow> trust_good c c' \<Longrightarrow> chat_good c c'"
  by (auto simp: chat_good_def)

text \<open>The fields that the invariant and the order read; an operation on other fields is good.\<close>

definition tables where
  "tables c = (cl_capacity c, cl_outbox c, cl_chat c, cl_transcript c, cl_device_receipts c, cl_received c,
     cl_attachments c, cl_events c, cl_groups c, cl_welcomes c)"

lemma chat_good_tables: "tables c' = tables c \<Longrightarrow> trust_good c c' \<Longrightarrow> chat_good c c'"
  by (simp add: tables_def chat_good_def chat_inv_def chat_le_def rows_le_refl)

lemma chat_good_cong:
  "tables c' = tables c \<Longrightarrow> tables d' = tables d \<Longrightarrow> trust_good c' d' = trust_good c d \<Longrightarrow> chat_good c' d' = chat_good c d"
  by (simp add: tables_def chat_good_def chat_inv_def chat_le_def)

text \<open>The trust state, which the operations on groups, messages and history leave alone.\<close>

definition trust_tables where
  "trust_tables c = (cl_trust c, cl_directory c, cl_revoked c)"

lemma trust_untouched: "trust_tables c' = trust_tables c \<Longrightarrow> trust_good c c'"
  by (rule trust_good_frame) (simp_all add: trust_tables_def directory_key_def)

lemma trust_fields [simp]:
  "trust_tables (c\<lparr>cl_outbox := t1\<rparr>) = trust_tables c" "trust_tables (c\<lparr>cl_chat := t2\<rparr>) = trust_tables c"
  "trust_tables (c\<lparr>cl_transcript := t3\<rparr>) = trust_tables c" "trust_tables (c\<lparr>cl_device_receipts := t4\<rparr>) = trust_tables c"
  "trust_tables (c\<lparr>cl_groups := t5, cl_join_epochs := j\<rparr>) = trust_tables c" "trust_tables (c\<lparr>cl_received := t6\<rparr>) = trust_tables c"
  "trust_tables (c\<lparr>cl_attachments := t7\<rparr>) = trust_tables c" "trust_tables (c\<lparr>cl_events := t8\<rparr>) = trust_tables c"
  "trust_tables (c\<lparr>cl_welcomes := t9\<rparr>) = trust_tables c"
  by (simp_all add: trust_tables_def)

section \<open>Sequencing\<close>

definition keeps :: "('v \<Rightarrow> 'm client) \<Rightarrow> 'm client \<Rightarrow> 'v result \<Rightarrow> bool" where
  "keeps get c m \<longleftrightarrow> (\<forall>v. m = Inr v \<longrightarrow> chat_good c (get v))"

lemma keeps_return: "chat_good c (get v) \<Longrightarrow> keeps get c (Inr v)" "keeps get c (Inl e)"
  by (simp_all add: keeps_def)

lemma keeps_bind: "(\<And>x. m = Inr x \<Longrightarrow> keeps get c (f x)) \<Longrightarrow> keeps get c (bind_r m f)"
  by (cases m) (auto simp: keeps_def)

lemma keeps_bind_id:
  fixes m :: "'m client result"
  assumes "keeps id c m" "\<And>c1. keeps get c1 (f c1)" shows "keeps get c (bind_r m f)"
  using assms chat_good_trans by (cases m) (auto simp: keeps_def, blast)

lemma keeps_bind_snd:
  fixes m :: "('a \<times> 'm client) result"
  assumes "keeps snd c m" "\<And>x c1. keeps get c1 (f x c1)"
  shows "keeps get c (bind_r m (\<lambda>(x, c). f x c))"
  using assms chat_good_trans by (cases m) (fastforce simp: keeps_def)+

lemma keeps_ensure: "keeps get c k \<Longrightarrow> keeps get c (ensure b msg k)" "keeps get c k \<Longrightarrow> keeps get c (ensure_e b e k)"
  by (simp_all add: ensure_def ensure_e_def keeps_def)

lemma keeps_if: "keeps get c k \<Longrightarrow> keeps get c l \<Longrightarrow> keeps get c (if b then k else l)"
  by simp

lemma keeps_prod: "(\<And>a b. x = (a, b) \<Longrightarrow> keeps get c (f a b)) \<Longrightarrow> keeps get c (case x of (a, b) \<Rightarrow> f a b)"
  by (cases x) simp

lemma keeps_option:
  "(x = None \<Longrightarrow> keeps get c k) \<Longrightarrow> (\<And>a. x = Some a \<Longrightarrow> keeps get c (f a)) \<Longrightarrow>
     keeps get c (case x of None \<Rightarrow> k | Some a \<Rightarrow> f a)"
  by (cases x) simp_all

lemma keeps_content:
  "(\<And>a. keeps get c (f a)) \<Longrightarrow> (\<And>a. keeps get c (g a)) \<Longrightarrow> keeps get c h \<Longrightarrow>
     keeps get c (case x of ApplicationMessage a \<Rightarrow> f a | StagedCommit a \<Rightarrow> g a | OtherContent \<Rightarrow> h)"
  by (cases x) simp_all

lemma keeps_from: "chat_good c d \<Longrightarrow> keeps get d m \<Longrightarrow> keeps get c m"
  using chat_good_trans by (auto simp: keeps_def)

lemmas keeps_rules = keeps_bind_id keeps_bind_snd keeps_bind keeps_ensure keeps_if keeps_prod keeps_option
  keeps_content keeps_return

lemma keepsD: "keeps get c m \<Longrightarrow> m = Inr v \<Longrightarrow> chat_good c (get v)"
  by (simp add: keeps_def)

text \<open>Operations outside a transaction, and transactions.\<close>

lemma good_bind_s:
  assumes "chat_good c (fst m)" and "\<And>d x. m = (d, Inr x) \<Longrightarrow> chat_good d (fst (f x d))"
  shows "chat_good c (fst (bind_s m f))"
proof (cases m)
  case (Pair d r)
  then show ?thesis using assms chat_good_trans by (cases r) fastforce+
qed

lemma good_ensure_s: "chat_good c s \<Longrightarrow> chat_good c (fst k) \<Longrightarrow> chat_good c (fst (ensure_s b msg s k))"
  by (simp add: ensure_s_def)

lemma good_flag [simp]:
  "chat_good (c\<lparr>cl_recovery := b\<rparr>) d = chat_good c d" "chat_good c (d\<lparr>cl_recovery := b\<rparr>) = chat_good c d"
  by (rule chat_good_cong; simp add: tables_def)+

lemma good_transaction:
  assumes "\<And>c. keeps snd c (action c)"
  shows "chat_good c (fst (transaction_budget recovery P action c))"
proof (cases rule: transaction_budget_cases[of recovery P action c])
  case (commit v c1)
  then show ?thesis using keepsD[OF assms commit(1)] by simp
qed simp

lemmas good_rules = good_bind_s good_ensure_s good_transaction

section \<open>Table updates\<close>

lemma good_outbox:
  assumes "chat_inv c \<Longrightarrow> rows_le outbox_le (cl_outbox c) t \<and> outbox_ok (cl_capacity c) t"
  shows "chat_good c (c\<lparr>cl_outbox := t\<rparr>)"
  using assms by (simp add: chat_good_def chat_inv_def chat_le_def rows_le_refl trust_untouched)

lemma good_chat:
  assumes "chat_inv c \<Longrightarrow> rows_le chat_le_row (cl_chat c) t \<and> distinct (map ch_sequence t)"
  shows "chat_good c (c\<lparr>cl_chat := t\<rparr>)"
  using assms by (simp add: chat_good_def chat_inv_def chat_le_def rows_le_refl trust_untouched)

lemma good_transcript:
  assumes "chat_inv c \<Longrightarrow> rows_le transcript_le (cl_transcript c) t \<and> transcript_ok t"
  shows "chat_good c (c\<lparr>cl_transcript := t\<rparr>)"
  using assms by (simp add: chat_good_def chat_inv_def chat_le_def rows_le_refl trust_untouched)

lemma good_receipts:
  assumes "chat_inv c \<Longrightarrow> rows_le receipt_le (cl_device_receipts c) t \<and>
    distinct (map (\<lambda>d. (dc_transcript d, dc_device d)) t)"
  shows "chat_good c (c\<lparr>cl_device_receipts := t\<rparr>)"
  using assms by (simp add: chat_good_def chat_inv_def chat_le_def rows_le_refl trust_untouched)

lemma good_groups:
  assumes "chat_inv c \<Longrightarrow> set (cl_groups c) \<subseteq> set t \<and> groups_ok (cl_capacity c) t"
  shows "chat_good c (c\<lparr>cl_groups := t, cl_join_epochs := j\<rparr>)"
  using assms by (simp add: chat_good_def chat_inv_def chat_le_def rows_le_refl trust_untouched)

lemma good_sets:
  "set (cl_received c) \<subseteq> set t1 \<Longrightarrow> chat_good c (c\<lparr>cl_received := t1\<rparr>)"
  "set (cl_attachments c) \<subseteq> set t2 \<Longrightarrow> chat_good c (c\<lparr>cl_attachments := t2\<rparr>)"
  "set (cl_events c) \<subseteq> set t3 \<Longrightarrow> chat_good c (c\<lparr>cl_events := t3\<rparr>)"
  "set (cl_welcomes c) \<subseteq> set t4 \<Longrightarrow> chat_good c (c\<lparr>cl_welcomes := t4\<rparr>)"
  by (simp_all add: chat_good_def chat_inv_def chat_le_def rows_le_refl trust_untouched)

lemma good_other [simp]:
  "chat_good c (save_group g c)" "chat_good c (c\<lparr>cl_receipts := t1\<rparr>)" "chat_good c (c\<lparr>cl_blocked := t2\<rparr>)"
  "chat_good c (c\<lparr>cl_coordinators := t3\<rparr>)" "chat_good c (c\<lparr>cl_participant_events := t4\<rparr>)"
  "chat_good c (c\<lparr>cl_coordinators := t3, cl_join_epochs := t5\<rparr>)" "chat_good c (set_coordinator gid key c)"
  "chat_good c (block_subject s c)"
  by (rule chat_good_tables[OF _ trust_untouched]; simp add: tables_def trust_tables_def save_group_def set_coordinator_def block_subject_def)+

section \<open>The outbox\<close>

lemma next_rowid_fresh: "next_rowid ids \<notin> set ids" "0 < next_rowid ids"
proof -
  have "i \<le> foldr max ids 0" if "i \<in> set ids" for i using that by (induction ids) auto
  then show "next_rowid ids \<notin> set ids" by (fastforce simp: next_rowid_def)
qed (simp add: next_rowid_def)

lemma queue_ok:
  assumes "outbox_ok (cl_capacity c) (cl_outbox c)" "queue P s payload c = Inr c'"
  shows "\<exists>x. ob_subject x = s \<and> ob_payload x = payload \<and> \<not> ob_sent x \<and> c' = c\<lparr>cl_outbox := cl_outbox c @ [x]\<rparr> \<and>
    outbox_ok (cl_capacity c) (cl_outbox c @ [x])"
proof -
  let ?x = "\<lparr>ob_id = next_rowid (map ob_id (cl_outbox c)), ob_subject = s, ob_payload = payload, ob_sent = False\<rparr>"
  have q: "c' = c\<lparr>cl_outbox := cl_outbox c @ [?x]\<rparr>" "payload \<notin> ob_payload ` set (cl_outbox c)"
      "length payload \<le> MAX_WIRE" "length (unsent c) < pending_messages (cl_capacity c) + queue_reserve c"
      "unsent_bytes c + length payload \<le> pending_bytes (cl_capacity c) + queue_reserve c * MAX_WIRE"
    using assms(2) by (auto simp: queue_def result_simps insert_row_ok)
  have "queue_reserve c * MAX_WIRE \<le> 32 * MAX_WIRE" by (simp add: queue_reserve_def)
  with q(5) have r: "queue_reserve c \<le> 32" "unsent_bytes c + length payload \<le> pending_bytes (cl_capacity c) + 32 * MAX_WIRE"
    by (auto simp: queue_reserve_def split: if_splits)
  have "outbox_ok (cl_capacity c) (cl_outbox c @ [?x])"
    using assms(1) q(2-4) r next_rowid_fresh[of "map ob_id (cl_outbox c)"]
    by (auto simp: outbox_ok_def pending_rows_def unsent_def unsent_bytes_def)
  then show ?thesis using q(1) by (intro exI[of _ ?x]) simp
qed

lemma queue_keeps: "keeps id c (queue P s payload c)"
  unfolding keeps_def
proof (intro allI impI)
  fix c' assume q: "queue P s payload c = Inr c'"
  have "chat_good c c'" if "chat_inv c"
  proof -
    have "outbox_ok (cl_capacity c) (cl_outbox c)" using that by (simp add: chat_inv_def)
    from queue_ok[OF this q] show ?thesis by (auto intro!: good_outbox rows_le_append)
  qed
  moreover have "trust_good c c'" using q by (intro trust_untouched) (auto simp: queue_def result_simps)
  ultimately show "chat_good c (id c')" by (simp add: chat_goodI)
qed

lemma pending_rows_sent:
  "pending_rows (update_where p (\<lambda>x. x\<lparr>ob_sent := True\<rparr>) t) = filter (\<lambda>x. \<not> p x) (pending_rows t)"
  by (induction t) (auto simp: pending_rows_def update_where_def)

lemma mark_sent_good [simp]: "chat_good c (mark_sent i c)"
  unfolding mark_sent_def
proof (rule good_outbox, intro conjI)
  let ?t = "update_where (\<lambda>x. ob_id x = i) (\<lambda>x. x\<lparr>ob_sent := True\<rparr>) (cl_outbox c)"
  assume "chat_inv c"
  then have o: "outbox_ok (cl_capacity c) (cl_outbox c)" by (simp add: chat_inv_def)
  show "rows_le outbox_le (cl_outbox c) ?t" by (rule rows_le_update) (simp_all add: outbox_le_def)
  have "length (pending_rows ?t) \<le> length (pending_rows (cl_outbox c))"
      "sum_list (map (length \<circ> ob_payload) (pending_rows ?t)) \<le> sum_list (map (length \<circ> ob_payload) (pending_rows (cl_outbox c)))"
    by (simp_all add: pending_rows_sent sum_list_filter_le_nat)
  moreover have "map ob_id ?t = map ob_id (cl_outbox c)" "map ob_payload ?t = map ob_payload (cl_outbox c)"
    by (simp_all add: map_update_where)
  moreover have "list_all (\<lambda>x. length (ob_payload x) \<le> MAX_WIRE \<and> 0 < ob_id x) ?t"
    using o by (auto simp: outbox_ok_def list_all_iff set_update_where)
  ultimately show "outbox_ok (cl_capacity c) ?t" using o by (auto simp: outbox_ok_def)
qed

section \<open>The transcript\<close>

lemma sequences_append [simp]: "sequences (t @ [r]) = sequences t @ (case tr_sequence r of None \<Rightarrow> [] | Some s \<Rightarrow> [s])"
  by (simp add: sequences_def map_filter_def split: option.split)

lemma append_transcript_good:
  assumes "tr_payload r \<notin> tr_payload ` set (cl_transcript c)" "tr_id r = next_rowid (map tr_id (cl_transcript c))"
    "tr_sequence r = None"
  shows "chat_good c (c\<lparr>cl_transcript := cl_transcript c @ [r]\<rparr>)"
proof (rule good_transcript, intro conjI)
  assume "chat_inv c"
  then show "transcript_ok (cl_transcript c @ [r])"
    using assms next_rowid_fresh(1)[of "map tr_id (cl_transcript c)"] by (simp add: chat_inv_def transcript_ok_def)
qed (simp add: rows_le_append)

lemma insert_transcript_keeps:
  assumes "tr_sequence t = None"
  shows "keeps snd c (insert_transcript t c)"
  using append_transcript_good[of _ c] assms
  by (auto simp: keeps_def insert_transcript_def Let_def result_simps insert_row_ok)

lemma insert_gap_good: "chat_good c (snd (insert_gap d bs c))"
  using append_transcript_good[of _ c] by (simp add: insert_gap_def)

lemma set_sequence_keeps: "keeps id c (set_sequence p s c)"
  unfolding keeps_def set_sequence_def Let_def
proof (intro allI impI)
  let ?t = "update_where p (\<lambda>t. t\<lparr>tr_sequence := least_sequence s (tr_sequence t)\<rparr>) (cl_transcript c)"
  fix c' assume a: "(if distinct (sequences ?t) then Inr (c\<lparr>cl_transcript := ?t\<rparr>) else Inl (Sql ''UNIQUE constraint failed'')) = Inr c'"
  then have d: "distinct (sequences ?t)" "c' = c\<lparr>cl_transcript := ?t\<rparr>" by (auto split: if_splits)
  have "rows_le transcript_le (cl_transcript c) ?t"
    by (rule rows_le_update) (auto simp: transcript_le_def least_sequence_def)
  moreover have "transcript_ok ?t" if "chat_inv c"
    using that d(1) by (simp add: chat_inv_def transcript_ok_def map_update_where)
  ultimately show "chat_good c (id c')" unfolding d(2) id_apply by (intro good_transcript) simp
qed

lemma sequences_displayed:
  "sequences (update_where p (\<lambda>t. t\<lparr>tr_displayed := True\<rparr>) ts) = sequences ts"
  by (induction ts) (auto simp: sequences_def update_where_def map_filter_def)

lemma display_good: "chat_good c (c\<lparr>cl_transcript := update_where p (\<lambda>t. t\<lparr>tr_displayed := True\<rparr>) (cl_transcript c)\<rparr>)"
proof (rule good_transcript, intro conjI)
  show "rows_le transcript_le (cl_transcript c) (update_where p (\<lambda>t. t\<lparr>tr_displayed := True\<rparr>) (cl_transcript c))"
    by (rule rows_le_update) (auto simp: transcript_le_def)
qed (simp add: chat_inv_def transcript_ok_def map_update_where sequences_displayed)

lemma claim_receipt_good: "chat_good c (claim_receipt row device read c)"
  unfolding claim_receipt_def
proof (rule good_receipts, intro conjI)
  let ?t = "update_where (\<lambda>d. dc_transcript d = row \<and> dc_device d = device \<and> read \<and> \<not> dc_read d)
    (\<lambda>d. d\<lparr>dc_read := read\<rparr>) (cl_device_receipts c)"
  have "rows_le receipt_le (cl_device_receipts c) ?t" by (rule rows_le_update) (auto simp: receipt_le_def)
  then show "rows_le receipt_le (cl_device_receipts c)
      (if (row, device) \<in> (\<lambda>d. (dc_transcript d, dc_device d)) ` set (cl_device_receipts c) then ?t
       else cl_device_receipts c @ [\<lparr>dc_transcript = row, dc_device = device, dc_read = read\<rparr>])"
    by (simp add: rows_le_append)
qed (auto simp: chat_inv_def map_update_where)

section \<open>Shared steps\<close>

lemma insert_group_keeps: "keeps id c (insert_group d c)"
proof -
  have "groups_ok (cl_capacity c) (cl_groups c @ [d])"
    if "groups_ok (cl_capacity c) (cl_groups c)" "length (cl_groups c) < retained_groups (cl_capacity c)"
      "g_name d \<notin> g_name ` set (cl_groups c)" "g_gid d \<notin> g_gid ` set (cl_groups c)"
      "g_mls_id d \<notin> g_mls_id ` set (cl_groups c)"
    using that by (simp add: groups_ok_def)
  then show ?thesis
    by (auto simp: keeps_def insert_group_def result_simps chat_inv_def intro!: good_groups)
qed

lemma refresh_coordinator_keeps: "keeps id c (refresh_coordinator E g c)"
  unfolding refresh_coordinator_def by (rule keeps_rules | simp)+

lemma receive_keeps: "keeps id c (receive bs c)"
  by (auto simp: keeps_def receive_def result_simps insert_row_ok intro!: good_sets)

lemma index_attachment_keeps: "keeps id c (index_attachment E gid bs c)"
  unfolding keeps_def by (auto dest!: index_attachment_cases intro!: good_sets)

lemma index_receipt_keeps: "keeps id c (index_receipt X row gid bs c)"
  unfolding index_receipt_def by (rule keeps_rules | simp)+

lemma index_application_keeps: "keeps id c (index_application E row gid sender bs ev plain c)"
proof -
  have "chat_good c (inherit_displayed row gid i (c\<lparr>cl_events := cl_events c @ [e]\<rparr>))" for i e
    unfolding inherit_displayed_def by (rule chat_good_trans[OF good_sets(3) display_good]) auto
  then show ?thesis
    by (auto simp: keeps_def index_application_def result_simps insert_row_ok)
qed

lemma queue_policy_keeps: "keeps id c (queue_policy E P g c)"
  unfolding queue_policy_def by (rule queue_keeps keeps_rules | simp)+

lemma queue_welcome_keeps: "keeps id c (queue_welcome E P g r bs c)"
  unfolding queue_welcome_def Let_def by (rule queue_keeps keeps_rules)+

lemma block_revoked_outbox_good: "chat_good c (fst (block_revoked_outbox E c))"
  using block_groups_frame[of E "groups_by_name c" c] unfolding block_revoked_outbox_def
  by (cases "block_groups E (groups_by_name c) c") fastforce

lemma within_keeps: "chat_good c (fst m) \<Longrightarrow> keeps id c (within m)"
  by (cases m; cases "snd m") (auto simp: keeps_def within_def)

lemmas step_keeps = queue_keeps insert_group_keeps refresh_coordinator_keeps receive_keeps index_attachment_keeps
  index_receipt_keeps index_application_keeps queue_policy_keeps queue_welcome_keeps set_sequence_keeps
  within_keeps[OF block_revoked_outbox_good] insert_transcript_keeps
  keeps_from[OF good_other(1) refresh_coordinator_keeps] keeps_from[OF good_other(1) queue_keeps]
  keeps_from[OF good_other(1) within_keeps[OF block_revoked_outbox_good]]

section \<open>Operations\<close>

lemma removal_action_keeps: "keeps id c (removal_action E P msg d removed c)"
  unfolding removal_action_def by (rule step_keeps keeps_rules)+

lemma create_group_good: "chat_good c (fst (create_group E P random name c))"
  unfolding create_group_def client_transaction_def create_group_action_def
  by (rule good_rules step_keeps keeps_rules | simp)+

lemma prepare_invitation_good: "chat_good c (fst (prepare_invitation E P name r c))"
  unfolding prepare_invitation_def client_transaction_def invitation_action_def Let_def
  by (rule good_rules step_keeps keeps_rules | simp)+

lemma welcome_action_keeps: "keeps snd c (welcome_action E bs payload package c)"
proof -
  have last: "keeps snd c (bind_r (insert_row fst w (cl_welcomes c))
      (\<lambda>t. Inr (d, (save_group g c)\<lparr>cl_welcomes := t\<rparr>)))" for c w d g
  proof -
    have "chat_good c ((save_group g c)\<lparr>cl_welcomes := cl_welcomes c @ [w]\<rparr>)"
      by (rule chat_good_trans[OF good_other(1)[of c g] good_sets(4)]) (auto simp: save_group_def)
    then show ?thesis by (auto simp: keeps_def result_simps insert_row_ok)
  qed
  have joined: "keeps snd c (bind_r (insert_row fst (gid, key) (cl_coordinators c)) (\<lambda>ks.
      bind_r m (\<lambda>st. bind_r (insert_row fst w (cl_welcomes (c\<lparr>cl_coordinators := ks, cl_join_epochs := j\<rparr>)))
        (\<lambda>t. Inr (d, (save_group (i, st) (c\<lparr>cl_coordinators := ks, cl_join_epochs := j\<rparr>))\<lparr>cl_welcomes := t\<rparr>)))))"
    for c gid key m w j d i
    by (rule keeps_bind keeps_from[OF good_other(6) last])+
  show ?thesis
    unfolding welcome_action_def Let_def
    by (rule joined insert_group_keeps keeps_rules | simp)+
qed

lemma accept_welcome_good: "chat_good c (fst (accept_welcome E P bs inviter c))"
  unfolding accept_welcome_def client_transaction_def
  by (rule good_rules welcome_action_keeps | simp)+

lemma reconcile_revocations_good: "chat_good c (fst (reconcile_revocations E P name c))"
proof -
  have "chat_good c (fst (recovery_transaction P (\<lambda>c. bind_r (within (block_revoked_outbox E c)) (\<lambda>c.
      bind_r (removal_action E P msg d removed c) (\<lambda>c. Inr (True, c)))) c))" for c msg d removed
    unfolding recovery_transaction_def by (rule good_rules step_keeps removal_action_keeps keeps_rules | simp)+
  then show ?thesis unfolding reconcile_revocations_def Let_def by (auto intro!: good_bind_s)
qed

lemma remove_device_good: "chat_good c (fst (remove_device E P name user device c))"
proof -
  have "keeps snd c (remove_device_action E P d identity c)" for c d identity
    unfolding remove_device_action_def
    by (rule keeps_from[OF good_other(8) removal_action_keeps] keeps_rules | simp)+
  then show ?thesis unfolding remove_device_def client_transaction_def by (intro good_rules) simp_all
qed

lemma encrypt_event_inner_keeps: "keeps snd c (encrypt_event_inner E P name event c)"
  unfolding encrypt_event_inner_def Let_def by (rule step_keeps keeps_rules | simp)+

lemma encrypt_event_good: "chat_good c (fst (encrypt_event E P name event c))"
  unfolding encrypt_event_def client_transaction_def by (rule good_rules encrypt_event_inner_keeps)+

lemma encrypt_message_good: "chat_good c (fst (encrypt_message E P nonce name plain c))"
  unfolding encrypt_message_def by (rule good_rules encrypt_event_good | simp)+

lemma encrypt_related_good: "chat_good c (fst (encrypt_related E P nonce name relation content c))"
  unfolding encrypt_related_def by (rule good_rules encrypt_event_good | simp)+

lemma record_received_keeps: "keeps snd c (record_received E d bs sender plain c)"
  unfolding record_received_def Let_def by (rule step_keeps keeps_rules | simp)+

lemma decrypt_inner_keeps: "keeps snd c (decrypt_inner E name bs c)"
  unfolding decrypt_inner_def
  by (rule keeps_from[OF good_other(1) record_received_keeps] keeps_rules | simp)+

lemma decrypt_message_good: "chat_good c (fst (decrypt_message E P name bs c))"
  unfolding decrypt_message_def client_transaction_def by (rule good_rules decrypt_inner_keeps)+

lemma stage_chat_good: "chat_good c (fst (stage_chat P sequence s payload c))"
proof -
  have "keeps snd c (stage_action P sequence s payload c)" for c
    by (auto simp: keeps_def stage_action_def result_simps insert_row_ok chat_inv_def rows_le_append
        intro!: good_chat split: option.split_asm)
  then show ?thesis unfolding stage_chat_def client_transaction_def by (intro good_rules) simp_all
qed

lemma process_handshake_keeps: "keeps id c (process_handshake E name bs sequence c)"
  unfolding process_handshake_def Let_def by (rule step_keeps keeps_rules | simp)+

text \<open>A delivery is settled once: its row was pending, and every other row stays.\<close>

lemma set_delivery_good:
  assumes "x \<in> set (cl_chat c)" "ch_state x = ChatPending"
  shows "chat_good c (set_delivery (ch_sequence x) s c)"
  unfolding set_delivery_def
proof (rule good_chat, intro conjI)
  assume "chat_inv c"
  then have d: "distinct (map ch_sequence (cl_chat c))" by (simp add: chat_inv_def)
  then show "distinct (map ch_sequence (update_where (\<lambda>y. ch_sequence y = ch_sequence x) (\<lambda>x. x\<lparr>ch_state := s\<rparr>) (cl_chat c)))"
    by (simp add: map_update_where)
  have "y = x" if "y \<in> set (cl_chat c)" "ch_sequence y = ch_sequence x" for y
    using distinct_key_eq[OF d that(1) assms(1) that(2)] .
  then show "rows_le chat_le_row (cl_chat c) (update_where (\<lambda>y. ch_sequence y = ch_sequence x) (\<lambda>x. x\<lparr>ch_state := s\<rparr>) (cl_chat c))"
    using assms(2) by (intro rows_le_update) (auto simp: chat_le_row_def)
qed

lemma deliver_action_good:
  assumes "deliver_action E name d x c = Inr (v, c')" "x \<in> set (cl_chat c)" "ch_state x = ChatPending"
  shows "chat_good c c'"
proof -
  have "\<exists>c1. chat_good c c1 \<and> cl_chat c1 = cl_chat c \<and> c' = set_delivery (ch_sequence x) ChatProcessed c1"
  proof (cases "before_join E name (ch_payload x) c = Inr True \<or> ch_subject x = subject d ''handshake''")
    case True
    with assms(1) obtain c1 where c1: "c1 = c \<or> process_handshake E name (ch_payload x) (ch_sequence x) c = Inr c1"
        "c' = set_delivery (ch_sequence x) ChatProcessed c1"
      by (auto simp: deliver_action_def result_simps split: if_split_asm)
    then have "chat_good c c1" "cl_chat c1 = cl_chat c"
      using process_handshake_chat keepsD[OF process_handshake_keeps] by auto
    with c1(2) show ?thesis by blast
  next
    case False
    with assms(1) obtain msg c1 c2 where 1: "decrypt_inner E name (ch_payload x) c = Inr (msg, c1)"
        "set_sequence (\<lambda>t. tr_gid t = g_gid d \<and> tr_payload t = ch_payload x) (ch_sequence x)
          (snd (insert_gap d (ch_payload x) c1)) = Inr c2" "c' = set_delivery (ch_sequence x) ChatProcessed c2"
      by (auto simp: deliver_action_def result_simps split_beta split: if_split_asm)
    have "chat_good c c1" using keepsD[OF decrypt_inner_keeps 1(1)] by simp
    moreover have "chat_good (snd (insert_gap d (ch_payload x) c1)) c2" using keepsD[OF set_sequence_keeps 1(2)] by simp
    ultimately have "chat_good c c2" using insert_gap_good chat_good_trans by blast
    moreover have "cl_chat c2 = cl_chat c" using decrypt_inner_chat[OF 1(1)] table_frames(5)[OF 1(2)] by simp
    ultimately show ?thesis using 1(3) by blast
  qed
  then show ?thesis using set_delivery_good[of x _ ChatProcessed] assms(2,3) chat_good_trans by metis
qed

lemma process_loop_good: "chat_good c (fst (process_loop E P name d r c))"
proof (induction E P name d r c rule: process_loop.induct)
  case (1 E P name d r c)
  show ?case
  proof (cases "next_delivery d c")
    case None
    then show ?thesis by (subst process_loop.simps) simp
  next
    case (Some x)
    have x: "x \<in> set (cl_chat c)" "ch_state x = ChatPending"
      using next_delivery_Some(1)[OF Some] by (auto simp: pending_def)
    obtain c1 res where t: "client_transaction P (deliver_action E name d x) c = (c1, res)" by fastforce
    show ?thesis
    proof (cases res)
      case (Inl e)
      have c1: "c1 = c\<lparr>cl_recovery := False\<rparr>"
        using transaction_budget_Inl t Inl unfolding client_transaction_def by metis
      have "chat_good c (set_delivery (ch_sequence x) ChatRejected c1)"
        using set_delivery_good[of x c1 ChatRejected] x c1 by simp
      then show ?thesis using 1(1)[OF Some t[symmetric] Inl] t Some Inl c1 chat_good_trans
        by (subst process_loop.simps) auto
    next
      case (Inr v)
      obtain c2 where c2: "deliver_action E name d x (c\<lparr>cl_recovery := False\<rparr>) = Inr (v, c2)" "c1 = c2\<lparr>cl_recovery := False\<rparr>"
        using transaction_budget_Inr[of False P "deliver_action E name d x" c c1 v] t Inr by (auto simp: client_transaction_def)
      have "chat_good c c1" using deliver_action_good[OF c2(1)] x c2(2) by simp
      then show ?thesis using 1(2)[OF Some t[symmetric] Inr] t Some Inr chat_good_trans
        by (subst process_loop.simps) auto
    qed
  qed
qed

lemma process_history_good: "chat_good c (fst (process_history E P name c))"
  unfolding process_history_def by (rule good_bind_s process_loop_good | simp)+

lemma process_receipt_keeps: "keeps snd c (process_receipt E now name ev c)"
  unfolding process_receipt_def
  by (rule keeps_rules)+ (cases "av_event ev";
    auto simp: keeps_def split: list.split intro: claim_receipt_good)

lemma mark_displayed_good: "chat_good c (mark_displayed i c)"
  unfolding mark_displayed_def by (rule display_good)

lemma respond_rows_good: "chat_good c (fst (respond_rows E P nonces name d rows n c))"
proof -
  have "keeps snd c (respond_action E P nonce name d (i, sender, bs) c)" for c nonce i sender bs
    unfolding respond_action_def Let_def prod.case
    by (rule keeps_if, simp add: keeps_def,
      rule keeps_from[OF good_other(5)[of c "cl_participant_events c @ [(g_gid d, i)]"]])
      (rule encrypt_event_inner_keeps keeps_rules | simp)+
  then have "keeps snd c (respond_action E P nonce name d row c)" for c nonce row
    by (cases row) simp
  then show ?thesis
    by (induction rows arbitrary: n c) (auto intro!: good_bind_s good_transaction simp: client_transaction_def)
qed

lemma respond_status_good: "chat_good c (fst (respond_status E P nonces name c))"
  unfolding respond_status_def by (rule good_rules respond_rows_good | simp)+

section \<open>Flushing\<close>

text \<open>The audit before a flush writes the trust state only, and moves that forward.\<close>

lemma tables_untouched [simp]:
  "tables (c\<lparr>cl_recovery := b\<rparr>) = tables c" "tables (store_checkpoint bs c) = tables c"
  "tables (clear_transparency_warning c) = tables c" "tables (transparency_failure m c) = tables c"
  by (simp_all add: tables_def store_checkpoint_def clear_transparency_warning_def transparency_failure_def)

lemma tables_bind:
  assumes "tables (fst m) = tables c" and "\<And>d x. m = (d, Inr x) \<Longrightarrow> tables (fst (f x d)) = tables d"
  shows "tables (fst (bind_s m f)) = tables c"
proof (cases m)
  case (Pair d r)
  then show ?thesis using assms by (cases r) auto
qed

lemma tables_ensure: "tables s = tables c \<Longrightarrow> tables (fst k) = tables c \<Longrightarrow> tables (fst (ensure_s b msg s k)) = tables c"
  by (simp add: ensure_s_def)

lemma tables_transaction:
  assumes "\<And>c v c'. action c = Inr (v, c') \<Longrightarrow> tables c' = tables c"
  shows "tables (fst (transaction_budget recovery P action c)) = tables c"
  by (cases rule: transaction_budget_cases[of recovery P action c]) (auto dest: assms)

lemma observe_device_tables: "tables (fst (observe_device E P r c)) = tables c"
proof -
  have "tables c' = tables c" if "observe_action user device fp c = Inr (v, c')" for user device fp v and c c' :: "'a client"
    using that by (auto simp: observe_action_def mark_changed_def result_simps tables_def split: option.split_asm if_split_asm)
  then show ?thesis
    unfolding observe_device_def Let_def recovery_transaction_def
    by (intro tables_bind tables_ensure tables_transaction) auto
qed

lemma observe_all_tables: "tables (fst (observe_all E P rs c)) = tables c"
  by (induction rs arbitrary: c) (auto intro!: tables_bind observe_device_tables)

lemma pin_directory_tables: "tables (fst (pin_directory E key c)) = tables c"
  unfolding pin_directory_def
  by (intro tables_bind tables_ensure) (auto simp: tables_def split: option.split)

lemma accept_checkpoint_tables: "tables (fst (accept_checkpoint E P sn c)) = tables c"
  unfolding accept_checkpoint_def
  by (intro tables_bind) (simp_all add: observe_all_tables pin_directory_tables)

lemma record_revocation_tables: "record_revocation E sn v c = Inr c' \<Longrightarrow> tables c' = tables c"
  by (auto simp: record_revocation_def result_simps Let_def tables_def split: if_split_asm)

lemma accept_revocations_tables: "tables (fst (accept_revocations E P l sn c)) = tables c"
proof -
  have f: "tables c1 = tables c" if "fold_r (record_revocation E sn) vs c = Inr c1" for vs and c c1 :: "'a client"
    by (rule fold_r_inv[OF that, of "\<lambda>d. tables d = tables c"]) (auto dest: record_revocation_tables)
  have "tables c' = tables c" if "accept_revocations_action E l sn c = Inr (v, c')" for v and c c' :: "'a client"
    using that f by (force simp: accept_revocations_action_def result_simps tables_def)
  then show ?thesis
    unfolding accept_revocations_def recovery_transaction_def by (intro tables_bind tables_transaction) auto
qed

lemma client_audit_tables: "tables (fst (client_audit E P reply rev_reply c)) = tables c"
proof -
  have "tables (fst (audit_accept E P reply rev_reply c)) = tables c"
    unfolding audit_accept_def
    by (intro tables_bind) (simp_all add: accept_checkpoint_tables accept_revocations_tables)
  then show ?thesis unfolding client_audit_def by (auto split: prod.split sum.split)
qed

lemma client_audit_chat_good: "chat_good c (fst (client_audit E P reply rev_reply c))"
  by (rule chat_good_tables[OF client_audit_tables client_audit_good])

lemma flush_row_good: "chat_good c (fst (flush_row E P N sn x c))"
proof -
  have "keeps snd c (acknowledge x ack c)" for c ack
    unfolding acknowledge_def Let_def
    by (rule keeps_from[OF mark_sent_good set_sequence_keeps] keeps_rules | simp)+
  then show ?thesis
    unfolding flush_row_def client_transaction_def by (auto intro!: good_bind_s good_transaction)
qed

lemma flush_rows_good: "chat_good c (fst (flush_rows E P N sn xs c))"
  by (induction xs arbitrary: c) (auto intro!: good_bind_s flush_row_good)

lemma flush_loop_good: "chat_good c (fst (flush_loop E P N sn high after c))"
proof (induction E P N sn high after c rule: flush_loop.induct)
  case (1 E P N sn high after c)
  then show ?case by (subst flush_loop.simps) (auto intro!: good_bind_s flush_rows_good)
qed

lemma flush_outbox_good: "chat_good c (fst (flush_outbox E P reply rev_reply N c))"
  unfolding flush_outbox_def
  by (rule good_bind_s good_ensure_s client_audit_chat_good block_revoked_outbox_good flush_loop_good | simp)+

section \<open>Every run of the client\<close>

datatype chat_op =
    CreateGroup "bytes option" string
  | Invite string device_registration
  | AcceptWelcome bytes device_registration
  | Reconcile string
  | RemoveMember string string string
  | Send "bytes option" string bytes
  | SendRelated "bytes option" string relation bytes
  | ReceiveMessage string bytes
  | Stage nat string bytes
  | ProcessHistory string
  | ProcessReceipt nat string authenticated_event
  | MarkDisplayed nat
  | RespondStatus "string \<Rightarrow> bytes option" string
  | FlushOutbox "bytes result" "bytes result" network

definition chat_step :: "('m, 'z) outbox_ext_scheme \<Rightarrow> 'm cpager \<Rightarrow> 'm client \<Rightarrow> chat_op \<Rightarrow> 'm client" where
  "chat_step E P c x =
     (case x of
        CreateGroup random name \<Rightarrow> fst (create_group E P random name c)
      | Invite name r \<Rightarrow> fst (prepare_invitation E P name r c)
      | AcceptWelcome bs inviter \<Rightarrow> fst (accept_welcome E P bs inviter c)
      | Reconcile name \<Rightarrow> fst (reconcile_revocations E P name c)
      | RemoveMember name user device \<Rightarrow> fst (remove_device E P name user device c)
      | Send nonce name plain \<Rightarrow> fst (encrypt_message E P nonce name plain c)
      | SendRelated nonce name relation content \<Rightarrow> fst (encrypt_related E P nonce name relation content c)
      | ReceiveMessage name bs \<Rightarrow> fst (decrypt_message E P name bs c)
      | Stage sequence s payload \<Rightarrow> fst (stage_chat P sequence s payload c)
      | ProcessHistory name \<Rightarrow> fst (process_history E P name c)
      | ProcessReceipt now name ev \<Rightarrow> (case process_receipt E now name ev c of Inl _ \<Rightarrow> c | Inr (_, c') \<Rightarrow> c')
      | MarkDisplayed i \<Rightarrow> mark_displayed i c
      | RespondStatus nonces name \<Rightarrow> fst (respond_status E P nonces name c)
      | FlushOutbox reply rev_reply N \<Rightarrow> fst (flush_outbox E P reply rev_reply N c))"

lemma chat_step_good: "chat_good c (chat_step E P c x)"
  using process_receipt_keeps[of c E]
  by (cases x) (auto simp: chat_step_def keeps_def create_group_good prepare_invitation_good accept_welcome_good
      reconcile_revocations_good remove_device_good encrypt_message_good encrypt_related_good decrypt_message_good
      stage_chat_good process_history_good mark_displayed_good respond_status_good flush_outbox_good
      split: sum.split)

interpretation chat_machine: monotone_machine "chat_step E P" chat_inv "\<lambda>_. True" chat_le
  for E :: "('m, 'z) outbox_ext_scheme" and P
  using chat_step_good[of _ E P] by unfold_locales (auto simp: chat_good_def intro: chat_le_trans)

section \<open>Trust and messages together\<close>

text \<open>
  The operations on the trust state and the ones on groups, messages and history work on one store. What an
  operation of the first kind leaves of the trust state, one of the second kind does not undo.
\<close>

datatype client_op = TrustOp trust_op | ChatOp chat_op

definition client_step :: "('m, 'z) outbox_ext_scheme \<Rightarrow> 'm cpager \<Rightarrow> 'm client \<Rightarrow> client_op \<Rightarrow> 'm client" where
  "client_step E P c x = (case x of TrustOp y \<Rightarrow> trust_step E P c y | ChatOp y \<Rightarrow> chat_step E P c y)"

lemma client_step_good: "trust_good c (client_step E P c x)"
  using trust_step_good[of c E P] chat_step_good[of c E P]
  by (cases x) (simp_all add: client_step_def chat_good_def)

interpretation client_machine: monotone_machine "client_step E P" trust_inv "\<lambda>_. True" client_le
  for E :: "('m, 'z) outbox_ext_scheme" and P
  using client_step_good[of _ E P] by unfold_locales (auto simp: trust_good_def intro: client_le_trans)

end
