(* ===== verification/Ephemeral.thy ===== *)
theory Ephemeral
  imports Messaging
begin

text \<open>
  Loss-tolerant signed events under an MLS exporter key (\<open>ephemeral.rs\<close>): sealing, opening, and the
  bounded table of typing indicators. The wall clock in milliseconds and the monotonic instant are
  arguments where the source reads them, as are the random id and nonce.
\<close>

definition TTL_MS :: nat where
  "TTL_MS = 8000"

definition sat_add :: "nat \<Rightarrow> nat \<Rightarrow> nat" where
  "sat_add a b = min (a + b) U64_MAX"

record ephemeral_envelope =
  ee_version :: nat
  ee_epoch :: nat
  ee_leaf :: nat
  ee_id :: bytes
  ee_nonce :: bytes
  ee_ciphertext :: bytes

record ephemeral_body =
  eb_issued :: nat
  eb_event :: ephemeral_event
  eb_signature :: bytes

record 'm ephemeral_ext = "'m outbox_ext" +
  pc_context :: "string \<times> string \<times> nat \<times> nat \<times> nat \<times> bytes \<times> bytes \<Rightarrow> bytes option"
  pc_signing :: "string \<times> bytes \<times> nat \<times> ephemeral_event \<Rightarrow> bytes option"
  pc_body :: "ephemeral_body \<Rightarrow> bytes option"
  pc_take_body :: "bytes \<Rightarrow> (ephemeral_body \<times> bytes) option"
  pc_ephemeral :: "ephemeral_envelope \<Rightarrow> bytes option"
  pc_take_ephemeral :: "bytes \<Rightarrow> (ephemeral_envelope \<times> bytes) option"
  ms_export :: "'m \<Rightarrow> string \<Rightarrow> bytes \<Rightarrow> nat \<Rightarrow> bytes option"
  ms_sign :: "bytes \<Rightarrow> bytes \<Rightarrow> bytes option"
  ms_verify :: "bytes \<Rightarrow> bytes \<Rightarrow> bytes \<Rightarrow> bool"

definition decode_exact :: "('a \<times> bytes) option \<Rightarrow> 'a result" where
  "decode_exact taken = bind_r (or_err taken (Extern ''postcard'')) (\<lambda>(value, remaining).
     ensure (remaining = []) ''trailing ephemeral data'' (Inr value))"

section \<open>Sealing and opening\<close>

definition envelope_context :: "('m, 'z) ephemeral_ext_scheme \<Rightarrow> string \<Rightarrow> ephemeral_envelope \<Rightarrow> bytes result" where
  "envelope_context E gid v = pc (pc_context E (''epochgrid ephemeral v1'', gid, ee_version v, ee_epoch v,
     ee_leaf v, ee_id v, ee_nonce v))"

definition envelope_signing ::
    "('m, 'z) ephemeral_ext_scheme \<Rightarrow> string \<Rightarrow> ephemeral_envelope \<Rightarrow> ephemeral_body \<Rightarrow> bytes result" where
  "envelope_signing E gid v b =
     bind_r (envelope_context E gid v) (\<lambda>ctx.
     pc (pc_signing E (''epochgrid ephemeral signature v1'', ctx, eb_issued b, eb_event b)))"

definition exporter_key :: "('m, 'z) ephemeral_ext_scheme \<Rightarrow> 'm mls_group \<Rightarrow> bytes \<Rightarrow> bytes result" where
  "exporter_key E g ctx = or_err (ms_export E (snd g) ''epochgrid ephemeral v1'' ctx 32) (Extern ''MLS exporter'')"

definition seal_ephemeral ::
    "('m, 'z) ephemeral_ext_scheme \<Rightarrow> bytes option \<times> bytes option \<Rightarrow> nat \<Rightarrow> string \<Rightarrow> ephemeral_event \<Rightarrow> 'm client \<Rightarrow> bytes result" where
  "seal_ephemeral E random now name event c =
     bind_r (group_named name c) (\<lambda>d.
     bind_r (load_group d c) (\<lambda>g.
     bind_r (ensure_can_send E g c) (\<lambda>_.
     ensure (length (ms_members E (snd g)) > 1) ''ephemeral event needs a peer''
     (bind_r (or_err (fst random) (Extern ''event randomness'')) (\<lambda>i.
      bind_r (or_err (snd random) (Extern ''event randomness'')) (\<lambda>nonce.
      let v = \<lparr>ee_version = 1, ee_epoch = ms_epoch E (snd g), ee_leaf = ms_own E (snd g), ee_id = i,
            ee_nonce = nonce, ee_ciphertext = []\<rparr>;
          b = \<lparr>eb_issued = now, eb_event = event, eb_signature = []\<rparr> in
      bind_r (signer E c) (\<lambda>leaf.
      bind_r (envelope_signing E (g_gid d) v b) (\<lambda>tbs.
      bind_r (or_err (ms_sign E (kl_signature_key leaf) tbs) (Extern ''event signature'')) (\<lambda>signature.
      bind_r (envelope_context E (g_gid d) v) (\<lambda>ctx.
      bind_r (exporter_key E g ctx) (\<lambda>key.
      bind_r (pc (pc_body E (b\<lparr>eb_signature := signature\<rparr>))) (\<lambda>plain.
      bind_r (or_err (aead_encrypt E key plain nonce ctx) (Extern ''event encryption'')) (\<lambda>ciphertext.
      pc (pc_ephemeral E (v\<lparr>ee_ciphertext := ciphertext\<rparr>)))))))))))))))"

definition fresh :: "nat \<Rightarrow> nat \<Rightarrow> bool" where
  "fresh wall issued \<longleftrightarrow> issued \<le> sat_add wall 1000 \<and> wall < sat_add issued TTL_MS"

definition open_ephemeral_at ::
    "('m, 'z) ephemeral_ext_scheme \<Rightarrow> string \<Rightarrow> bytes \<Rightarrow> nat \<Rightarrow> nat \<Rightarrow> 'm client \<Rightarrow> authenticated_event result" where
  "open_ephemeral_at E name bs wall instant c =
     ensure (length bs \<le> 1024) ''oversized ephemeral event''
     (bind_r (decode_exact (pc_take_ephemeral E bs)) (\<lambda>v.
      ensure (ee_version v = 1) ''unsupported ephemeral version''
      (bind_r (group_named name c) (\<lambda>d.
       bind_r (load_group d c) (\<lambda>g.
       bind_r (ensure_can_send E g c) (\<lambda>_.
       ensure (ee_epoch v = ms_epoch E (snd g)) ''obsolete ephemeral epoch''
       (bind_r (or_err (find (\<lambda>m. mm_index m = ee_leaf v) (ms_members E (snd g))) (Anyhow ''unknown ephemeral sender''))
         (\<lambda>m.
        ensure (revoked_mls_key (mm_key m) c = None) ''revoked ephemeral sender''
        (bind_r (envelope_context E (g_gid d) v) (\<lambda>ctx.
         bind_r (exporter_key E g ctx) (\<lambda>key.
         bind_r (or_err (aead_decrypt E key (ee_ciphertext v) (ee_nonce v) ctx)
           (Anyhow ''invalid ephemeral ciphertext'')) (\<lambda>plain.
         bind_r (decode_exact (pc_take_body E plain)) (\<lambda>b.
         ensure (fresh wall (eb_issued b)) ''expired or future ephemeral event''
         (bind_r (envelope_signing E (g_gid d) v b) (\<lambda>tbs.
          ensure (ms_verify E tbs (mm_key m) (eb_signature b)) ''invalid ephemeral signature''
          (bind_r (basic_identity (mm_identity m)) (\<lambda>sender.
           bind_r (or_err (split_once CHR ''/'' sender) (Anyhow ''invalid sender identity'')) (\<lambda>(user, device).
           bind_r (validate_id user) (\<lambda>_. bind_r (validate_id device) (\<lambda>_.
           Inr \<lparr>av_sender = sender, av_gid = g_gid d, av_epoch = ee_epoch v, av_issued = eb_issued b,
             av_event = eb_event b,
             av_expires = instant + min (sat_add (eb_issued b) TTL_MS - wall) TTL_MS\<rparr>))))))))))))))))))))"

section \<open>Typing indicators\<close>

text \<open>The \<open>BTreeMap\<close> of \<open>TypingState\<close>, keyed by group and sender.\<close>

type_synonym typing_state = "((string \<times> string) \<times> authenticated_event) list"

definition is_typing :: "ephemeral_event \<Rightarrow> bool" where
  "is_typing e = (e = TypingStarted \<or> e = TypingStopped)"

definition not_newer :: "authenticated_event \<Rightarrow> authenticated_event \<Rightarrow> bool" where
  "not_newer old ev \<longleftrightarrow> av_epoch old > av_epoch ev \<or> (av_epoch old = av_epoch ev \<and>
     (av_issued old > av_issued ev \<or> (av_issued old = av_issued ev \<and>
       (av_event old = TypingStopped \<or> av_event ev = TypingStarted))))"

definition typing_accept :: "nat \<Rightarrow> string \<Rightarrow> authenticated_event \<Rightarrow> typing_state \<Rightarrow> typing_state" where
  "typing_accept now gid ev entries =
     (if \<not> is_typing (av_event ev) then entries
      else let entries = filter (\<lambda>(_, e). now < av_expires e) entries; key = (gid, av_sender ev) in
        case map_of entries key of
          Some old \<Rightarrow> if not_newer old ev then entries else assoc_update key ev entries
        | None \<Rightarrow> if 256 \<le> length entries then entries else assoc_update key ev entries)"

definition typing_active :: "nat \<Rightarrow> string \<Rightarrow> nat \<Rightarrow> typing_state \<Rightarrow> (string \<times> nat) list" where
  "typing_active now gid epoch entries =
     map (\<lambda>((_, s), e). (s, av_expires e)) (sort_key fst (filter (\<lambda>((g, _), e). g = gid \<and> av_epoch e = epoch \<and>
       now < av_expires e \<and> av_event e = TypingStarted) entries))"

section \<open>Lemmas\<close>

definition typing_ok :: "typing_state \<Rightarrow> bool" where
  "typing_ok entries \<longleftrightarrow> distinct (map fst entries) \<and> length entries \<le> 256 \<and>
     list_all (\<lambda>((_, s), e). av_sender e = s \<and> is_typing (av_event e)) entries"

lemma assoc_update_keys:
  "distinct (map fst xs) \<Longrightarrow> distinct (map fst (assoc_update k v xs))"
  "map_of (assoc_update k v xs) = (map_of xs)(k \<mapsto> v)"
proof -
  show "distinct (map fst xs) \<Longrightarrow> distinct (map fst (assoc_update k v xs))"
    by (auto simp: assoc_update_def distinct_map_filter)
  show "map_of (assoc_update k v xs) = (map_of xs)(k \<mapsto> v)"
    by (induction xs) (auto simp: assoc_update_def map_add_def fun_eq_iff split: option.splits)
qed

lemma assoc_update_length:
  assumes "distinct (map fst xs)"
  shows "length (assoc_update k v xs) = (if k \<in> fst ` set xs then length xs else Suc (length xs))"
  using assms
proof (induction xs)
  case (Cons x xs)
  have "k \<notin> fst ` set xs \<Longrightarrow> filter (\<lambda>x. fst x \<noteq> k) xs = xs"
    by (rule filter_True) auto
  with Cons show ?case by (auto simp: assoc_update_def)
qed (simp add: assoc_update_def)

lemma typing_accept_ok:
  assumes "typing_ok entries"
  shows "typing_ok (typing_accept now gid ev entries)"
proof (cases "is_typing (av_event ev)")
  case True
  let ?live = "filter (\<lambda>(_, e). now < av_expires e) entries" and ?key = "(gid, av_sender ev)"
  have live: "typing_ok ?live"
    using assms le_trans[OF length_filter_le] by (auto simp: typing_ok_def distinct_map_filter list_all_iff)
  have upd: "typing_ok (assoc_update ?key ev ?live)" if "?key \<in> fst ` set ?live \<or> length ?live < 256"
  proof -
    have "length (assoc_update ?key ev ?live) \<le> 256"
      using that live assoc_update_length[of ?live ?key ev] by (auto simp: typing_ok_def)
    then show ?thesis using live True assoc_update_keys(1)[of ?live ?key ev]
      by (auto simp: typing_ok_def assoc_update_def list_all_iff)
  qed
  have "?key \<in> fst ` set ?live" if "map_of ?live ?key = Some old" for old
    using map_of_SomeD[OF that] by (force simp del: set_filter)
  then show ?thesis using True live upd
    by (auto simp: typing_accept_def Let_def split: option.split)
qed (use assms in \<open>simp add: typing_accept_def\<close>)

lemma typing_keeps_newest:
  assumes "map_of (filter (\<lambda>(_, e). now < av_expires e) entries) (gid, av_sender ev) = Some old" "not_newer old ev"
  shows "map_of (typing_accept now gid ev entries) (gid, av_sender ev) =
    (if is_typing (av_event ev) then Some old else map_of entries (gid, av_sender ev))"
  using assms by (simp add: typing_accept_def Let_def)

definition typing_step :: "typing_state \<Rightarrow> nat \<times> string \<times> authenticated_event \<Rightarrow> typing_state" where
  "typing_step st x = (case x of (now, gid, ev) \<Rightarrow> typing_accept now gid ev st)"

interpretation typing_machine: invariant_machine typing_step typing_ok "\<lambda>_. True"
  by unfold_locales (auto simp: typing_step_def typing_accept_ok split: prod.split)

lemma open_ephemeral_sound:
  "ends (\<lambda>ev. \<exists>d g m. group_named name c = Inr d \<and> load_group d c = Inr g \<and> ensure_can_send E g c = Inr () \<and>
     m \<in> set (ms_members E (snd g)) \<and> revoked_mls_key (mm_key m) c = None \<and> basic_identity (mm_identity m) = Inr (av_sender ev) \<and>
     av_gid ev = g_gid d \<and> av_epoch ev = ms_epoch E (snd g) \<and> fresh wall (av_issued ev) \<and>
     av_expires ev \<le> instant + TTL_MS \<and>
     (\<exists>v b tbs. decode_exact (pc_take_ephemeral E bs) = Inr v \<and> eb_event b = av_event ev \<and> eb_issued b = av_issued ev \<and>
       envelope_signing E (g_gid d) v b = Inr tbs \<and> ms_verify E tbs (mm_key m) (eb_signature b)))
     (open_ephemeral_at E name bs wall instant c)"
  unfolding open_ephemeral_at_def
proof (rule ends_bind_prod ends_bind ends_rules)+
  fix v d g u m ctx key plain b tbs sender user device u1 u2
  assume s: "decode_exact (pc_take_ephemeral E bs) = Inr v" "group_named name c = Inr d" "load_group d c = Inr g"
    "ensure_can_send E g c = Inr u" "ee_epoch v = ms_epoch E (snd g)"
    "or_err (find (\<lambda>m. mm_index m = ee_leaf v) (ms_members E (snd g))) (Anyhow ''unknown ephemeral sender'') = Inr m"
    "revoked_mls_key (mm_key m) c = None" "fresh wall (eb_issued b)" "envelope_signing E (g_gid d) v b = Inr tbs"
    "ms_verify E tbs (mm_key m) (eb_signature b)" "basic_identity (mm_identity m) = Inr sender"
  have "m \<in> set (ms_members E (snd g))" using s(6) by (auto simp: result_simps find_Some_iff)
  let ?ev = "\<lparr>av_sender = sender, av_gid = g_gid d, av_epoch = ee_epoch v, av_issued = eb_issued b, av_event = eb_event b,
    av_expires = instant + min (sat_add (eb_issued b) TTL_MS - wall) TTL_MS\<rparr>"
  have "decode_exact (pc_take_ephemeral E bs) = Inr v \<and> eb_event b = av_event ?ev \<and> eb_issued b = av_issued ?ev \<and>
      envelope_signing E (g_gid d) v b = Inr tbs \<and> ms_verify E tbs (mm_key m) (eb_signature b)"
    using s(1,9,10) by simp
  with s \<open>m \<in> set _\<close> show "\<exists>d g m. group_named name c = Inr d \<and> load_group d c = Inr g \<and> ensure_can_send E g c = Inr () \<and>
     m \<in> set (ms_members E (snd g)) \<and> revoked_mls_key (mm_key m) c = None \<and> basic_identity (mm_identity m) = Inr (av_sender ?ev) \<and>
     av_gid ?ev = g_gid d \<and> av_epoch ?ev = ms_epoch E (snd g) \<and> fresh wall (av_issued ?ev) \<and>
     av_expires ?ev \<le> instant + TTL_MS \<and>
     (\<exists>v b tbs. decode_exact (pc_take_ephemeral E bs) = Inr v \<and> eb_event b = av_event ?ev \<and> eb_issued b = av_issued ?ev \<and>
       envelope_signing E (g_gid d) v b = Inr tbs \<and> ms_verify E tbs (mm_key m) (eb_signature b))"
    by (intro exI[of _ d] exI[of _ g] exI[of _ m]) auto
qed

end
