(* ===== verification/Chat_Properties.thy ===== *)
theory Chat_Properties
  imports Durability Ephemeral Sample
begin

text \<open>
  The properties of channels, messages, receipts, attachments and ephemeral events on the client,
  each with an instance on which its hypotheses hold.
\<close>

section \<open>A concrete client and its third-party functions\<close>

text \<open>The MLS state is its epoch; the codecs know the handful of values below.\<close>

definition team_gid :: string where
  "team_gid = replicate 32 CHR ''a''"

definition team :: group where
  "team = \<lparr>g_name = ''team'', g_gid = team_gid, g_mls_id = mls_id_text ''team'' team_gid\<rparr>"

definition alice :: string where
  "alice = user1 @ ''/phone''"

definition own_leaf :: mls_member where
  "own_leaf = \<lparr>mm_index = 0, mm_key = [4], mm_credential = [5], mm_identity = Some (as_bytes alice)\<rparr>"

definition peer_leaf :: mls_member where
  "peer_leaf = \<lparr>mm_index = 2, mm_key = [40], mm_credential = [50], mm_identity = Some (as_bytes ''bob/laptop'')\<rparr>"

definition hello :: application_event where
  "hello = \<lparr>ae_nonce = replicate 16 0, ae_counter = 1, ae_content = as_bytes ''hello'', ae_relation = None\<rparr>"

definition legacy :: application_event where
  "legacy = \<lparr>ae_nonce = replicate 16 0, ae_counter = 0, ae_content = as_bytes ''hi'', ae_relation = None\<rparr>"

definition file1 :: attachment_manifest where
  "file1 = \<lparr>mf_id = replicate 32 CHR ''0'', mf_filename = ''a.txt'', mf_mime = ''text/plain'', mf_size = 2,
     mf_ciphertext_size = 18, mf_expires_at = 604801, mf_hash = s_root (as_bytes ''hi''), mf_key = [1], mf_nonce = [2]\<rparr>"

definition commit1 :: staged_commit where
  "commit1 = \<lparr>sc_path_leaf = None, sc_queued = 1, sc_adds = 1, sc_removed = []\<rparr>"

definition header1 :: "content_type \<Rightarrow> mls_message" where
  "header1 k = \<lparr>mi_private = True, mi_header = Some \<lparr>mh_group = g_mls_id team, mh_epoch = 3, mh_content = k\<rparr>\<rparr>"

definition typing1 :: ephemeral_envelope where
  "typing1 = \<lparr>ee_version = 1, ee_epoch = 3, ee_leaf = 2, ee_id = [0], ee_nonce = [0], ee_ciphertext = 8 # replicate 16 0\<rparr>"

definition body1 :: ephemeral_body where
  "body1 = \<lparr>eb_issued = 100, eb_event = TypingStarted, eb_signature = [40]\<rparr>"

definition m_parse :: "bytes \<Rightarrow> mls_message option" where
  "m_parse bs = (case bs of [] \<Rightarrow> None | b # _ \<Rightarrow> Some (header1 (if b = 1 then Commit else Application)))"

definition m_process :: "nat \<Rightarrow> bytes \<Rightarrow> process_error + (nat \<times> processed)" where
  "m_process m bs = Inr (m, \<lparr>pr_sender = Some 2, pr_identity = Some (as_bytes ''bob/laptop''),
     pr_content = (if bs = [1] then StagedCommit commit1 else ApplicationMessage (as_bytes ''hi''))\<rparr>)"

definition m_pc_event :: "application_event \<Rightarrow> bytes option" where
  "m_pc_event e = (if e = hello then Some [1] else if e = legacy then Some [2] else None)"

fun m_take_event :: "bytes \<Rightarrow> (application_event \<times> bytes) option" where
  "m_take_event (b # rest) = (if b = 1 then Some (hello, rest) else if b = 2 then Some (legacy, rest) else None)"
| "m_take_event [] = None"

definition m_pc_manifest :: "attachment_manifest \<Rightarrow> bytes option" where
  "m_pc_manifest m = (if m = file1 then Some [3] else None)"

fun m_take_manifest :: "bytes \<Rightarrow> (attachment_manifest \<times> bytes) option" where
  "m_take_manifest (b # rest) = (if b = 3 then Some (file1, rest) else None)"
| "m_take_manifest [] = None"

definition m_ext :: "nat ephemeral_ext" where
  "m_ext = \<lparr>sha256 = s_sha256, nkey_ok = (\<lambda>k. starts_with ''U'' k), nkey_verify = (\<lambda>k m s. s = as_bytes k),
     pc_envelope = s_pc_envelope, pc_take_envelope = s_pc_take,
     pc_registration = (\<lambda>p. Some [1]), pc_checkpoint = (\<lambda>t. Some [2]), pc_revoke = (\<lambda>t. Some [3]),
     pc_revocation = (\<lambda>v. None), pc_policy = (\<lambda>u. Some [9]), pc_relay = (\<lambda>t. Some [10]), pc_fingerprint = (\<lambda>t. Some [11]),
     kp_unverified = (\<lambda>b. Some ([5], [4])), kp_validate = (\<lambda>b. Some s_leaf), is_mls_welcome = (\<lambda>b. Some True),
     b32_encode = (\<lambda>b. []), b32_decode = (\<lambda>s. None), suite = 1,
     pc_stored_checkpoint = (\<lambda>cp. Some [1]), un_stored_checkpoint = (\<lambda>b. None), show_error = (\<lambda>e. ''error''),
     ms_members = (\<lambda>m. [own_leaf, peer_leaf]), ms_active = (\<lambda>m. True), ms_epoch = (\<lambda>m. m), ms_own = (\<lambda>m. 0),
     ms_parse = m_parse, ms_process = m_process, ms_merge_staged = (\<lambda>m s. Some (Suc m)),
     ms_create_message = (\<lambda>m bs. Some (m, 2 # bs)), ms_add_member = (\<lambda>m b. None), ms_remove_members = (\<lambda>m l. None),
     ms_merge_pending = (\<lambda>m. None), ms_new_group = (\<lambda>g. Some 0), ms_stage_welcome = (\<lambda>b. None), ms_join = (\<lambda>b. None),
     un_recovery_status = (\<lambda>b. None), pc_manifest = m_pc_manifest, pc_take_manifest = m_take_manifest,
     pc_aad = (\<lambda>t. Some [12]), aead_encrypt = (\<lambda>k p n a. Some (p @ replicate 16 0)),
     aead_decrypt = (\<lambda>k s n a. Some (take (length s - 16) s)),
     pc_event = m_pc_event, pc_take_event = m_take_event, pc_application_id = (\<lambda>t. Some [13]), pc_legacy_id = (\<lambda>t. Some [14]),
     pc_intent = (\<lambda>i. Some [15]), un_intent = (\<lambda>b. None), pc_welcome_relay = (\<lambda>w. Some [16]), un_welcome_relay = (\<lambda>b. None),
     pc_context = (\<lambda>t. Some [17]), pc_signing = (\<lambda>t. Some [18]), pc_body = (\<lambda>b. Some [19]),
     pc_take_body = (\<lambda>b. if b = [8] then Some (body1, []) else None), pc_ephemeral = (\<lambda>v. Some [20]),
     pc_take_ephemeral = (\<lambda>b. if b = [7] then Some (typing1, []) else None), ms_export = (\<lambda>m l c n. Some [21]),
     ms_sign = (\<lambda>k b. Some k), ms_verify = (\<lambda>b k s. s = k)\<rparr>"

definition chat0 :: "nat client" where
  "chat0 = \<lparr>cl_registration = Some reg1, cl_key = Some device_keys, cl_capacity = default_capacity,
     cl_recovery = False, cl_trust = [], cl_directory = None, cl_alert = None, cl_revoked = [],
     cl_rev_checkpoint = None, cl_coordinators = [(team_gid, [40])], cl_blocked = [], cl_groups = [team],
     cl_join_epochs = [(team_gid, 1)], cl_outbox = [], cl_welcomes = [], cl_received = [], cl_chat = [], cl_transcript = [],
     cl_receipts = [], cl_device_receipts = [], cl_events = [], cl_mls = [g_mls_id team \<mapsto> 3], cl_signers = [[4]],
     cl_recovery_metadata = None, cl_attachments = [], cl_participant_events = []\<rparr>"

definition pages0 :: "nat cpager" where
  "pages0 = (\<lambda>_. (2, Some 4096))"

lemma pages0_fit [simp]: "check_database default_capacity (pages0 c) False = Inr ()"
  by (simp add: pages0_def check_database_ok database_limit_def default_capacity_def U64_MAX_def)

lemma m_ext_simps [simp]:
  "sha256 m_ext = s_sha256" "kp_validate m_ext b = Some s_leaf"
  "ms_members m_ext m = [own_leaf, peer_leaf]" "ms_active m_ext m" "ms_epoch m_ext m = m" "ms_own m_ext m = 0"
  "ms_parse m_ext = m_parse" "ms_process m_ext = m_process" "ms_merge_staged m_ext m s = Some (Suc m)"
  "ms_create_message m_ext m bs = Some (m, 2 # bs)"
  "pc_manifest m_ext = m_pc_manifest" "pc_take_manifest m_ext = m_take_manifest" "pc_aad m_ext t = Some [12]"
  "aead_encrypt m_ext k pl no ad = Some (pl @ replicate 16 0)" "aead_decrypt m_ext k sl no ad = Some (take (length sl - 16) sl)"
  "pc_event m_ext = m_pc_event" "pc_take_event m_ext = m_take_event"
  "pc_application_id m_ext i = Some [13]" "pc_legacy_id m_ext l = Some [14]"
  "pc_context m_ext x = Some [17]" "pc_signing m_ext y = Some [18]"
  "pc_take_body m_ext b = (if b = [8] then Some (body1, []) else None)"
  "pc_take_ephemeral m_ext b = (if b = [7] then Some (typing1, []) else None)"
  "ms_export m_ext m z cx len = Some [21]" "ms_verify m_ext b k sig = (sig = k)"
  by (simp_all add: m_ext_def)

lemma leaf_simps [simp]:
  "mm_index own_leaf = 0" "mm_key own_leaf = [4]" "mm_identity own_leaf = Some (as_bytes alice)"
  "mm_index peer_leaf = 2" "mm_key peer_leaf = [40]" "mm_credential peer_leaf = [50]"
  "mm_identity peer_leaf = Some (as_bytes ''bob/laptop'')"
  by (simp_all add: own_leaf_def peer_leaf_def)

lemma chat0_inv [simp]: "chat_inv chat0"
  by (simp add: chat_inv_def chat0_def outbox_ok_def pending_rows_def transcript_ok_def sequences_def groups_ok_def
      default_capacity_def map_filter_def)

lemma team_found [simp]: "group_named ''team'' chat0 = Inr team" "load_group team chat0 = Inr (g_mls_id team, 3)"
  by (simp_all add: group_named_def load_group_def chat0_def team_def)

section \<open>The sample client at work\<close>

lemma s_hash [simp]: "hash m_ext bs = Inr (s_root bs)"
  by (auto simp: hash_def s_sha256_def s_root_def min_def)

lemma default_budget [simp]: "pending_messages default_capacity = 256" "pending_bytes default_capacity = 4194304"
  by (simp_all add: default_capacity_def)

lemma length_s_root [simp]: "length (s_root bs) = 32"
  by (simp add: s_root_def)

lemma hello_wire: "event_wire m_ext hello = Inr (EVENT_PREFIX @ [1, 1])"
  by (simp add: event_wire_ok event_validate_def hello_def m_pc_event_def I64_MAX_def MAX_PLAINTEXT_def as_bytes_def)

lemma hello_plain: "manifest_decode m_ext (as_bytes ''hello'') = Inr None" "manifest_decode m_ext (as_bytes ''hi'') = Inr None"
  by (simp_all add: manifest_decode_def starts_with_def ATTACHMENT_PREFIX_def as_bytes_def)

lemma chat0_signer: "signer m_ext chat0 = Inr s_leaf"
  by (simp add: signer_def ensure_messaging_identity_def recovery_status_def own_registration_def chat0_def s_leaf_def)

lemma chat0_can_send: "ensure_can_send m_ext (g_mls_id team, 3) chat0 = Inr ()"
  by (simp add: ensure_can_send_def own_key_def is_revoked_def revoked_leaves_def revoked_mls_key_def chat0_def)

lemma chat0_new: "new_event (Some (replicate 16 0)) ''team'' (as_bytes ''hello'') None chat0 = Inr hello"
  by (simp add: new_event_def own_registration_def event_join_def chat0_def group_named_def team_def event_validate_def hello_def
      I64_MAX_def U64_MAX_def MAX_PLAINTEXT_def as_bytes_def Let_def)

lemma queue_first:
  assumes "cl_capacity c = default_capacity" "\<not> cl_recovery c" "cl_outbox c = []" "length bs \<le> 100"
  shows "queue pages0 s bs c = Inr (c\<lparr>cl_outbox := [\<lparr>ob_id = 1, ob_subject = s, ob_payload = bs, ob_sent = False\<rparr>]\<rparr>)"
  using assms by (simp add: queue_def unsent_def unsent_bytes_def insert_row_def queue_reserve_def next_rowid_def
      MAX_WIRE_def U64_MAX_def)

lemma recorded:
  assumes "cl_transcript c = []" "cl_receipts c = []" "cl_events c = []" "cl_capacity c = default_capacity"
    "\<exists>i. application_identity m_ext gid sender bs ev plain = Inr (i, e)" "m_pc_event e = Some b" "tr_payload t = bs"
  shows "\<exists>c1 c2 c3. insert_transcript t c = Inr (1, c1) \<and> index_receipt m_ext 1 gid bs c1 = Inr c2 \<and>
    index_application m_ext 1 gid sender bs ev plain c2 = Inr c3 \<and> cl_capacity c3 = default_capacity"
proof -
  obtain i where i: "application_identity m_ext gid sender bs ev plain = Inr (i, e)" using assms(5) by blast
  let ?c1 = "c\<lparr>cl_transcript := [t\<lparr>tr_id := 1\<rparr>]\<rparr>"
  have "insert_transcript t c = Inr (1, ?c1)"
    using assms(1) by (simp add: insert_transcript_def next_rowid_def insert_row_def)
  moreover obtain c2 where "index_receipt m_ext 1 gid bs ?c1 = Inr c2" "cl_events c2 = []" "cl_capacity c2 = default_capacity"
    using assms(2-4) by (simp add: index_receipt_def)
  moreover have "\<exists>c3. index_application m_ext 1 gid sender bs ev plain c2 = Inr c3 \<and> cl_capacity c3 = default_capacity"
    using i assms(6) \<open>cl_events c2 = []\<close> \<open>cl_capacity c2 = default_capacity\<close>
    by (simp add: index_application_def pc_def insert_row_def inherit_displayed_def)
  ultimately show ?thesis by blast
qed

lemma chat0_sent:
  "\<exists>bs. snd (encrypt_message m_ext pages0 (Some (replicate 16 0)) ''team'' (as_bytes ''hello'') chat0) = Inr bs"
proof -
  let ?bs = "2 # EVENT_PREFIX @ [1, 1] :: bytes"
  let ?c = "(save_group (g_mls_id team, 3) chat0)\<lparr>cl_outbox := [\<lparr>ob_id = 1, ob_subject = subject team ''message'',
    ob_payload = ?bs, ob_sent = False\<rparr>]\<rparr>"
  have r: "chat0\<lparr>cl_recovery := False\<rparr> = chat0" by (simp add: chat0_def)
  have q: "queue pages0 (subject team ''message'') ?bs (save_group (g_mls_id team, 3) chat0) = Inr ?c"
    by (rule queue_first) (simp_all add: save_group_def chat0_def EVENT_PREFIX_def as_bytes_def)
  have o: "own_registration ?c = Inr reg1" by (simp add: own_registration_def save_group_def chat0_def)
  have w: "\<exists>c1 c2 c3. insert_transcript \<lparr>tr_id = 0, tr_gid = g_gid team, tr_payload = ?bs,
      tr_sender = Some (identity_text (dr_payload reg1)), tr_plaintext = Some (event_transcript hello), tr_outgoing = True,
      tr_sequence = None, tr_displayed = True\<rparr> ?c = Inr (1, c1) \<and> index_receipt m_ext 1 (g_gid team) ?bs c1 = Inr c2 \<and>
    index_application m_ext 1 (g_gid team) (identity_text (dr_payload reg1)) ?bs (Some hello) (event_transcript hello) c2 = Inr c3 \<and>
      cl_capacity c3 = default_capacity"
    by (rule recorded[where e = hello and b = "[1]"])
      (simp_all add: save_group_def chat0_def application_identity_def hello_wire pc_def m_pc_event_def)
  have i: "is_root hello" "index_attachment m_ext (g_gid team) (ae_content hello) chat0 = Inr chat0"
    using hello_plain by (simp_all add: is_root_def hello_def index_attachment_def)
  from w o show ?thesis
    by (auto simp: encrypt_message_def chat0_new encrypt_event_def client_transaction_def transaction_budget_def r
      encrypt_event_inner_def hello_wire chat0_signer chat0_can_send i q Let_def)
qed

lemma bob_utf8: "from_utf8 (as_bytes ''bob/laptop'') = Some ''bob/laptop''"
proof -
  have "utf8_valid (as_bytes ''bob/laptop'')"
    by (simp add: utf8_valid_def as_bytes_def utf8_prefix_def utf8_width_def)
  then show ?thesis by (simp add: from_utf8_def)
qed

lemma chat0_received: "\<exists>c'. decrypt_message m_ext pages0 ''team'' [2, 3] chat0 = (c', Inr (Some \<lparr>dm_sender = ''bob/laptop'', dm_plaintext = as_bytes ''hi''\<rparr>))"
proof -
  let ?c = "(save_group (g_mls_id team, 3) chat0)\<lparr>cl_received := [[2, 3]]\<rparr>"
  have r: "chat0\<lparr>cl_recovery := False\<rparr> = chat0" by (simp add: chat0_def)
  have w: "\<exists>c1 c2 c3. insert_transcript \<lparr>tr_id = 0, tr_gid = g_gid team, tr_payload = [2, 3],
      tr_sender = Some ''bob/laptop'', tr_plaintext = Some (as_bytes ''hi''), tr_outgoing = False,
      tr_sequence = None, tr_displayed = False\<rparr> ?c = Inr (1, c1) \<and> index_receipt m_ext 1 (g_gid team) [2, 3] c1 = Inr c2 \<and>
    index_application m_ext 1 (g_gid team) ''bob/laptop'' [2, 3] None (as_bytes ''hi'') c2 = Inr c3 \<and>
      cl_capacity c3 = default_capacity"
    by (rule recorded[where e = legacy and b = "[2]"])
      (simp_all add: save_group_def chat0_def application_identity_def legacy_def pc_def m_pc_event_def hello_def)
  have n: "length (as_bytes ''hi'') = 2" by (simp add: as_bytes_def)
  have d: "event_decode m_ext (as_bytes ''hi'') = Inr None"
    by (simp add: event_decode_def starts_with_def EVENT_PREFIX_def as_bytes_def MAX_PLAINTEXT_def)
  have v: "receive [2, 3] (save_group (g_mls_id team, 3) chat0) = Inr ?c"
    by (simp add: receive_def insert_row_def save_group_def chat0_def)
  have x: "index_attachment m_ext gid (as_bytes ''hi'') c = Inr c" for gid c by (simp add: index_attachment_def hello_plain)
  have "private_header m_ext [2, 3] = Inr \<lparr>mh_group = g_mls_id team, mh_epoch = 3, mh_content = Application\<rparr>"
    by (simp add: private_header_def m_parse_def header1_def)
  moreover have "\<not> known_payload [2, 3] chat0" by (simp add: known_payload_def chat0_def)
  ultimately show ?thesis using w
    by (auto simp: decrypt_message_def client_transaction_def transaction_budget_def r decrypt_inner_def MAX_WIRE_def
      process_message_def m_process_def bob_utf8 record_received_def d x v n MAX_APPLICATION_def MAX_PLAINTEXT_def Let_def)
qed

lemma m_event_roundtrip: "event_roundtrip m_ext"
  by (auto simp: event_roundtrip_def m_pc_event_def hello_def legacy_def split: if_splits)

lemma m_roundtrips: "aead_roundtrip m_ext" "manifest_roundtrip m_ext"
  by (auto simp: aead_roundtrip_def manifest_roundtrip_def m_pc_manifest_def split: if_splits)

lemma file1_ok: "manifest_validate file1 = Inr ()"
proof -
  have "chars ''a.txt'' = [97, 46, 116, 120, 116]"
    by (simp add: chars_def utf8_prefix_def utf8_width_def code_point_def byte_of_def)
  then have "filename_ok ''a.txt''" by (simp add: filename_ok_def is_control_def)
  moreover have "mime_ok ''text/plain''"
    by (simp add: mime_ok_def is_ascii_alphanumeric_def is_ascii_lowercase_def byte_of_def)
  moreover have "list_all is_hex_lower (replicate 32 CHR ''0'')"
    by (simp add: list_all_iff is_hex_lower_def is_ascii_digit_def byte_of_def)
  ultimately show ?thesis
    by (simp add: manifest_validate_def file1_def object_id_def HARD_MAX_BYTES_def)
qed

lemma hex_zeros: "hex_text (replicate n 0) = replicate (2 * n) CHR ''0''"
proof (induction n)
  case (Suc n)
  have "hex_digit 0 = CHR ''0''" by (simp add: hex_digit_def char_of_def bit_0)
  with Suc show ?case by (simp add: hex_text_def)
qed (simp add: hex_text_def)

lemma file1_sealed:
  "attachment_encrypt m_ext 1 (replicate 16 0, [1], [2]) team_gid ''a.txt'' ''text/plain'' (as_bytes ''hi'') default_limits =
     Inr (file1, as_bytes ''hi'' @ replicate 16 0)"
proof -
  have "hex_text (replicate 16 0) = replicate 32 CHR ''0''"
    using hex_zeros[of 16] by simp
  moreover have "length (as_bytes ''hi'') = 2" by (simp add: as_bytes_def)
  ultimately show ?thesis
    using file1_ok
    by (simp add: attachment_encrypt_def limits_validate_def default_limits_def HARD_MAX_BYTES_def U64_MAX_def aad_def pc_def
        file1_def numeral_2_eq_2 Let_def)
qed

definition shown1 :: stored_event where
  "shown1 = \<lparr>se_row = 1, se_sender = alice, se_id = ''id'', se_event = hello\<rparr>"

lemma chat0_typing: "is_ok (open_ephemeral_at m_ext ''team'' [7] 200 50 chat0)"
proof -
  have f: "find (\<lambda>m. mm_index m = 2) [own_leaf, peer_leaf] = Some peer_leaf" by simp
  have b: "basic_identity (Some (as_bytes ''bob/laptop'')) = Inr ''bob/laptop''" by (simp add: basic_identity_def bob_utf8)
  have v: "validate_id ''bob'' = Inr ()" "validate_id ''laptop'' = Inr ()"
    by (simp_all add: validate_id_def is_ascii_lowercase_def byte_of_def)
  have "revoked_mls_key k chat0 = None" for k by (simp add: revoked_mls_key_def chat0_def)
  then show ?thesis
    by (simp add: open_ephemeral_at_def decode_exact_def typing1_def chat0_can_send f b v envelope_context_def envelope_signing_def
        exporter_key_def pc_def body1_def fresh_def sat_add_def TTL_MS_def U64_MAX_def split_once_def)
qed

definition started :: authenticated_event where
  "started = \<lparr>av_sender = ''bob/laptop'', av_gid = team_gid, av_epoch = 3, av_issued = 100, av_event = TypingStarted, av_expires = 8000\<rparr>"

section \<open>What no operation undoes\<close>

text \<open>C11: Along every sequence of client operations, successful or not, the unsent outbox stays within its
  configured budget plus the recovery reserve of 32 messages, channels, payloads and stream sequences
  stay unique, and nothing durable is lost: a queued message keeps its subject and payload and a sent one
  stays sent, a staged delivery is never overwritten and a settled one keeps its outcome, transcript rows
  keep their sender and text, a read receipt never falls back, received payloads and attachments stay.\<close>

theorem chat_history:
  assumes "chat_inv c" "foldl (chat_step E P) c ops = c'"
  shows "chat_inv c' \<and>
    length (unsent c') \<le> pending_messages (cl_capacity c) + 32 \<and>
    unsent_bytes c' \<le> pending_bytes (cl_capacity c) + 32 * MAX_WIRE \<and>
    length (cl_groups c') \<le> retained_groups (cl_capacity c) \<and>
    (\<forall>x \<in> set (cl_outbox c). \<exists>x' \<in> set (cl_outbox c'). ob_id x' = ob_id x \<and> ob_subject x' = ob_subject x \<and>
       ob_payload x' = ob_payload x \<and> (ob_sent x \<longrightarrow> ob_sent x')) \<and>
    (\<forall>x \<in> set (cl_chat c). \<exists>x' \<in> set (cl_chat c'). ch_sequence x' = ch_sequence x \<and> ch_subject x' = ch_subject x \<and>
       ch_payload x' = ch_payload x \<and> (ch_state x \<noteq> ChatPending \<longrightarrow> ch_state x' = ch_state x)) \<and>
    (\<forall>t \<in> set (cl_transcript c). \<exists>t' \<in> set (cl_transcript c'). tr_id t' = tr_id t \<and> tr_payload t' = tr_payload t \<and>
       tr_sender t' = tr_sender t \<and> tr_plaintext t' = tr_plaintext t \<and> (tr_displayed t \<longrightarrow> tr_displayed t')) \<and>
    (\<forall>d \<in> set (cl_device_receipts c). \<exists>d' \<in> set (cl_device_receipts c'). dc_transcript d' = dc_transcript d \<and>
       dc_device d' = dc_device d \<and> (dc_read d \<longrightarrow> dc_read d')) \<and>
    set (cl_received c) \<subseteq> set (cl_received c') \<and> set (cl_attachments c) \<subseteq> set (cl_attachments c')"
proof -
  have all: "list_all (\<lambda>_. True) ops" by (simp add: list_all_iff)
  have i: "chat_inv c'" and l: "chat_le c c'"
    using chat_machine.run_inv[OF assms(1) all, of E P] chat_machine.run_le[OF assms(1) all, of E P] assms(2) by auto
  have cap: "cl_capacity c' = cl_capacity c" using l by (simp add: chat_le_def)
  have bounds: "length (unsent c') \<le> pending_messages (cl_capacity c) + 32"
      "unsent_bytes c' \<le> pending_bytes (cl_capacity c) + 32 * MAX_WIRE"
      "length (cl_groups c') \<le> retained_groups (cl_capacity c)"
    using i cap by (simp_all add: chat_inv_def outbox_ok_def groups_ok_def pending_rows_def unsent_def unsent_bytes_def)
  have rows: "rows_le outbox_le (cl_outbox c) (cl_outbox c')" "rows_le chat_le_row (cl_chat c) (cl_chat c')"
      "rows_le transcript_le (cl_transcript c) (cl_transcript c')"
      "rows_le receipt_le (cl_device_receipts c) (cl_device_receipts c')"
      "set (cl_received c) \<subseteq> set (cl_received c')" "set (cl_attachments c) \<subseteq> set (cl_attachments c')"
    using l by (simp_all add: chat_le_def)
  show ?thesis
    using i bounds rows(1,2,4-6) rows_le_imp[OF rows(3), of "\<lambda>t t'. tr_id t' = tr_id t \<and> tr_payload t' = tr_payload t \<and>
       tr_sender t' = tr_sender t \<and> tr_plaintext t' = tr_plaintext t \<and> (tr_displayed t \<longrightarrow> tr_displayed t')"]
    unfolding rows_le_def outbox_le_def chat_le_row_def receipt_le_def transcript_le_def by (intro conjI) blast+
qed

theorem chat_history_witness:
  "chat_inv (foldl (chat_step m_ext pages0) chat0 [Stage 1 (subject team ''message'') [2, 3], ProcessHistory ''team''])"
  using chat_history[OF chat0_inv refl] by blast

text \<open>C37: Trust only moves one way. Along every sequence that mixes the operations on the trust state (observations,
  verifications, pinnings, audits, lookups, device listings) with the operations on groups, messages and history on the same
  store (from creating a channel to flushing the outbox, which audits first), successful or not, a pinned device
  fingerprint never changes, the mark that a device changed is never removed, a pinned directory key is
  never replaced, and a recorded revocation is never forgotten or rewritten. Restoring a recovery archive fills a
  new store and is not an operation here.\<close>

theorem trust_history:
  assumes "trust_inv c" "foldl (client_step E P) c ops = c'"
  shows "trust_inv c' \<and>
    (\<forall>t \<in> set (cl_trust c). \<exists>t' \<in> set (cl_trust c'). dt_user t' = dt_user t \<and> dt_device t' = dt_device t \<and>
       dt_fingerprint t' = dt_fingerprint t \<and> (dt_state t = TrustChanged \<longrightarrow> dt_state t' = TrustChanged)) \<and>
    (\<forall>key. directory_key c = Some key \<longrightarrow> directory_key c' = Some key) \<and>
    set (cl_revoked c) \<subseteq> set (cl_revoked c') \<and> (\<forall>key. is_revoked key c \<longrightarrow> is_revoked key c')"
proof -
  have all: "list_all (\<lambda>_. True) ops" by (simp add: list_all_iff)
  have i: "trust_inv c'" using client_machine.run_inv[OF assms(1) all, of E P] assms(2) by simp
  have "client_le c c'" using client_machine.run_le[OF assms(1) all, of E P] assms(2) by simp
  with i show ?thesis unfolding client_le_def trust_le_row_def is_revoked_iff by auto
qed

definition peer_changed :: device_trust where
  "peer_changed = \<lparr>dt_user = ''bob'', dt_device = ''laptop'', dt_fingerprint = ''1'', dt_latest = ''2'', dt_state = TrustChanged\<rparr>"

definition wary0 :: "nat client" where
  "wary0 = chat0\<lparr>cl_trust := [peer_changed], cl_directory := Some (directory1, None),
     cl_revoked := [\<lparr>vd_nkey = key1, vd_user = ''bob'', vd_device = ''tablet'', vd_mls_key = [40], vd_cutoff = 7\<rparr>]\<rparr>"

definition mixed1 :: "client_op list" where
  "mixed1 = [ChatOp (Stage 1 (subject team ''message'') [2, 3]), TrustOp (VerifyDevice ''bob'' ''laptop'' ''1''), TrustOp (PinDirectory key1),
     ChatOp (ProcessHistory ''team''),
     ChatOp (FlushOutbox (Inr [3]) (Inr [4]) \<lparr>n_request = \<lambda>_ _ _. Inl (Anyhow ''offline''), n_refresh = \<lambda>_. Inr (),
       n_publish = \<lambda>_ _ _. Inl (Anyhow ''offline'')\<rparr>),
     TrustOp (ClientAudit (Inr [3]) (Inr [4]))]"

theorem trust_history_witness:
  "directory_key (foldl (client_step m_ext pages0) wary0 mixed1) = Some directory1 \<and>
   is_revoked key1 (foldl (client_step m_ext pages0) wary0 mixed1) \<and>
   (\<exists>t \<in> set (cl_trust (foldl (client_step m_ext pages0) wary0 mixed1)). dt_user t = ''bob'' \<and> dt_fingerprint t = ''1'' \<and> dt_state t = TrustChanged)"
proof -
  have "trust_inv wary0" by (simp add: trust_inv_def wary0_def)
  note kept = trust_history[OF this refl, of m_ext pages0 mixed1]
  have "peer_changed \<in> set (cl_trust wary0)" "directory_key wary0 = Some directory1" "is_revoked key1 wary0"
    "dt_user peer_changed = ''bob''" "dt_fingerprint peer_changed = ''1''" "dt_state peer_changed = TrustChanged"
    by (simp_all add: wary0_def peer_changed_def directory_key_def is_revoked_def)
  then show ?thesis using kept by metis
qed

section \<open>Processing staged deliveries\<close>

text \<open>C27: \<open>process_history\<close> always returns. When it succeeds, no delivery of the group is left pending and the
  report counts exactly the newly quarantined ones; when it fails, the failure is not an invalid message
  and the delivery it stopped at is still pending. In both cases deliveries were settled in stream order
  and the deliveries of other groups are as they were.\<close>

theorem process_history_outcome:
  assumes "distinct (map ch_sequence (cl_chat c))" "group_named name c = Inr d" "process_history E P name c = (c', res)"
  shows "(\<forall>rep. res = Inr rep \<longrightarrow> pending d c' = [] \<and> rejected d c' = rejected d c + sr_rejected rep) \<and>
    (\<forall>e. res = Inl e \<longrightarrow> e \<noteq> InvalidMessage \<and> pending d c' \<noteq> []) \<and>
    (\<exists>n. pending d c' = filter (\<lambda>x. n \<le> ch_sequence x) (pending d c)) \<and>
    filter (\<lambda>x. \<not> for_group d x) (cl_chat c') = filter (\<lambda>x. \<not> for_group d x) (cl_chat c)"
proof -
  have "process_loop E P name d \<lparr>sr_staged = 0, sr_decrypted = 0, sr_rejected = 0, sr_unavailable = 0\<rparr> c = (c', res)"
    using assms(2,3) by (simp add: process_history_def)
  from process_loop_outcome[OF assms(1) this] show ?thesis by (simp add: settled_def other_groups_def)
qed

definition chat1 :: "nat client" where
  "chat1 = chat0\<lparr>cl_chat := [\<lparr>ch_sequence = 4, ch_subject = subject team ''message'', ch_payload = [], ch_state = ChatPending\<rparr>]\<rparr>"

lemma chat1_processed:
  "process_history m_ext pages0 ''team'' chat1 =
     (set_delivery 4 ChatRejected chat1, Inr \<lparr>sr_staged = 0, sr_decrypted = 0, sr_rejected = 1, sr_unavailable = 0\<rparr>)"
proof -
  let ?x = "\<lparr>ch_sequence = 4, ch_subject = subject team ''message'', ch_payload = [], ch_state = ChatPending\<rparr>"
  have n: "next_delivery team chat1 = Some ?x"
    by (simp add: next_delivery_def pending_def for_group_def chat1_def)
  have n': "next_delivery team (set_delivery 4 ChatRejected chat1) = None"
    by (simp add: next_delivery_def pending_def set_delivery_def chat1_def update_where_def)
  have r: "chat1\<lparr>cl_recovery := False\<rparr> = chat1" by (simp add: chat1_def chat0_def)
  have "before_join m_ext ''team'' [] chat1 = Inl InvalidMessage"
    by (simp add: before_join_def private_header_def m_parse_def)
  then have "deliver_action m_ext ''team'' team ?x chat1 = Inl InvalidMessage" by (simp add: deliver_action_def)
  then have t: "client_transaction pages0 (deliver_action m_ext ''team'' team ?x) chat1 = (chat1, Inl InvalidMessage)"
    by (simp add: client_transaction_def transaction_budget_def r)
  have g: "group_named ''team'' chat1 = Inr team" by (simp add: group_named_def chat1_def chat0_def team_def)
  have 1: "process_loop m_ext pages0 ''team'' team r chat1 =
      process_loop m_ext pages0 ''team'' team (r\<lparr>sr_rejected := sr_rejected r + 1\<rparr>) (set_delivery 4 ChatRejected chat1)" for r
    by (subst process_loop.simps) (simp add: n t)
  have 2: "process_loop m_ext pages0 ''team'' team r (set_delivery 4 ChatRejected chat1) = (set_delivery 4 ChatRejected chat1, Inr r)" for r
    by (subst process_loop.simps) (simp add: n')
  show ?thesis by (simp add: process_history_def g 1 2)
qed

theorem process_history_outcome_witness:
  "pending team (set_delivery 4 ChatRejected chat1) = [] \<and> rejected team (set_delivery 4 ChatRejected chat1) = 1"
proof -
  have "distinct (map ch_sequence (cl_chat chat1))" by (simp add: chat1_def)
  moreover have "group_named ''team'' chat1 = Inr team" by (simp add: group_named_def chat1_def chat0_def team_def)
  ultimately show ?thesis using process_history_outcome[OF _ _ chat1_processed, of team]
    by (simp add: rejected_def count_where_def chat1_def)
qed

section \<open>Flushing the outbox\<close>

text \<open>C30: The batched flush loop is one pass over the unsent, unblocked rows up to the highest id, in the order of
  their ids, each handed out once; and after a successful flush each of these rows is marked as sent.\<close>

theorem flush_one_pass:
  assumes "distinct (map ob_id (cl_outbox c))" "flush_loop E P N sn high 0 c = (c', Inr ())"
  shows "flush_rows E P N sn (flushable high 0 c) c = (c', Inr ()) \<and> sorted (map ob_id (flushable high 0 c)) \<and>
    distinct (map ob_id (flushable high 0 c)) \<and>
    cl_outbox c' = map (\<lambda>x. if 0 < ob_id x \<and> ob_id x \<le> high \<and> ob_id x \<notin> set (cl_blocked c)
      then x\<lparr>ob_sent := True\<rparr> else x) (cl_outbox c)"
proof -
  have f: "flush_rows E P N sn (flushable high 0 c) c = (c', Inr ())"
    using flush_loop_one_pass[OF assms(1), of E P N sn high 0] assms(2) by simp
  have d: "distinct (map ob_id (flushable high 0 c))" "sorted (map ob_id (flushable high 0 c))"
    using assms(1) by (auto simp: flushable_def distinct_map intro: inj_on_subset)
  have "(if ob_id x \<in> ob_id ` set (flushable high 0 c) then x\<lparr>ob_sent := True\<rparr> else x) =
      (if 0 < ob_id x \<and> ob_id x \<le> high \<and> ob_id x \<notin> set (cl_blocked c) then x\<lparr>ob_sent := True\<rparr> else x)"
    if "x \<in> set (cl_outbox c)" for x
  proof -
    have "ob_id x \<in> ob_id ` set (flushable high 0 c) \<longleftrightarrow> x \<in> set (flushable high 0 c)"
      using distinct_key_eq[OF assms(1) that] by (auto simp: flushable_def)
    also have "\<dots> \<longleftrightarrow> \<not> ob_sent x \<and> 0 < ob_id x \<and> ob_id x \<le> high \<and> ob_id x \<notin> set (cl_blocked c)"
      using that by (simp add: flushable_def)
    finally show ?thesis by auto
  qed
  then have "cl_outbox c' = map (\<lambda>x. if 0 < ob_id x \<and> ob_id x \<le> high \<and> ob_id x \<notin> set (cl_blocked c)
      then x\<lparr>ob_sent := True\<rparr> else x) (cl_outbox c)"
    using flush_rows_outbox[OF f] by (simp add: update_where_def)
  with f d show ?thesis by blast
qed

definition chat2 :: "nat client" where
  "chat2 = chat0\<lparr>cl_outbox := [\<lparr>ob_id = 2, ob_subject = subject team ''message'', ob_payload = [2, 3], ob_sent = False\<rparr>]\<rparr>"

definition net0 :: network where
  "net0 = \<lparr>n_request = (\<lambda>i s b. Inr []), n_refresh = (\<lambda>i. Inr ()), n_publish = (\<lambda>i s b. Inr (''MAILBOX'', 7))\<rparr>"

lemma chat2_flushed: "flush_loop m_ext pages0 net0 sn0 2 0 chat2 = (mark_sent 2 chat2, Inr ())"
proof -
  let ?x = "\<lparr>ob_id = 2, ob_subject = subject team ''message'', ob_payload = [2, 3], ob_sent = False\<rparr>"
  have r: "chat2\<lparr>cl_recovery := False\<rparr> = chat2" "(mark_sent 2 chat2)\<lparr>cl_recovery := False\<rparr> = mark_sent 2 chat2"
      "cl_capacity (mark_sent 2 chat2) = default_capacity"
    by (simp_all add: chat2_def chat0_def mark_sent_def)
  have e: "flushable 2 0 chat2 = [?x]" "flushable 2 2 (mark_sent 2 chat2) = []"
    by (simp_all add: flushable_def chat2_def chat0_def mark_sent_def update_where_def)
  have "ob_subject ?x \<noteq> POLICY_SUBJECT" "ob_subject ?x \<noteq> RELAY_SUBJECT"
    by (simp_all add: POLICY_SUBJECT_def RELAY_SUBJECT_def subject_def)
  then have "dispatch m_ext net0 sn0 ?x chat2 = Inr False" by (simp add: dispatch_def)
  moreover have "own_key chat2 = Inr device_keys" by (simp add: own_key_def chat2_def chat0_def)
  ultimately have row: "flush_row m_ext pages0 net0 sn0 ?x chat2 = (mark_sent 2 chat2, Inr ())"
    by (simp add: flush_row_def net0_def client_transaction_def transaction_budget_def r acknowledge_def)
  have 2: "flush_loop m_ext pages0 net0 sn0 2 2 (mark_sent 2 chat2) = (mark_sent 2 chat2, Inr ())"
    by (subst flush_loop.simps) (simp add: e)
  show ?thesis
    by (subst flush_loop.simps) (use row 2 in \<open>simp add: e OUTBOX_BATCH_def\<close>)
qed

theorem flush_one_pass_witness:
  "map ob_sent (cl_outbox (mark_sent 2 chat2)) = [True]"
proof -
  have "distinct (map ob_id (cl_outbox chat2))" by (simp add: chat2_def)
  from flush_one_pass[OF this chat2_flushed] show ?thesis by (simp add: chat2_def chat0_def)
qed

section \<open>Who may commit\<close>

text \<open>C22: A handshake that is applied carries a commit with authority: its author is a member and keeps its key
  and credential, a revoked author committed no later than the cutoff of its revocation, and an author
  other than the recorded coordinator is the deterministic successor and removes exactly the revoked
  leaves and adds nobody. (OpenMLS gives the members of a group distinct leaf indices.)\<close>

theorem commit_authority:
  assumes "process_handshake E name bs sequence c = Inr c'" "\<not> known_payload bs c"
    and "\<And>m. distinct (map mm_index (ms_members E m))"
  shows "\<exists>d g g' p index commit. group_named name c = Inr d \<and> load_group d c = Inr g \<and>
    process_message E g bs = Inr (g', p) \<and> pr_sender p = Some index \<and> pr_content p = StagedCommit commit \<and>
    (\<exists>m \<in> set (ms_members E (snd g')). mm_index m = index \<and>
       (\<forall>leaf. sc_path_leaf commit = Some leaf \<longrightarrow> leaf = (mm_key m, mm_credential m)) \<and>
       (\<forall>cutoff. revoked_mls_key (mm_key m) c = Some cutoff \<longrightarrow> sequence \<le> cutoff) \<and>
       (stored_coordinator g' c = Some (mm_key m) \<or>
        coordinator E g' c = Some index \<and> sc_adds commit = 0 \<and> revoked_leaves E g' c \<noteq> [] \<and>
          set (sc_removed commit) = set (revoked_leaves E g' c)))"
proof -
  obtain d g g' p index commit where s: "group_named name c = Inr d" "load_group d c = Inr g"
      "process_message E g bs = Inr (g', p)" "pr_sender p = Some index" "pr_content p = StagedCommit commit"
      "commit_authorized E g' index commit sequence (save_group g' c)"
    using process_handshake_authorized[OF assms] by blast
  have eqs: "revoked_mls_key k (save_group g' c) = revoked_mls_key k c" "stored_coordinator g' (save_group g' c) = stored_coordinator g' c"
      "revoked_leaves E g' (save_group g' c) = revoked_leaves E g' c" "coordinator E g' (save_group g' c) = coordinator E g' c" for k
    by (simp_all add: save_group_def revoked_mls_key_def stored_coordinator_def revoked_leaves_def coordinator_def Let_def)
  from s(6) have "commit_authorized E g' index commit sequence c" unfolding commit_authorized_def eqs .
  with s(1-5) show ?thesis unfolding commit_authorized_def by blast
qed

lemma chat0_commit: "is_ok (process_handshake m_ext ''team'' [1] 5 chat0)"
proof -
  have g: "cl_mls (save_group (g_mls_id team, 3) chat0) (g_mls_id team) = Some 3"
      "select_one (\<lambda>d. g_mls_id d = g_mls_id team) (cl_groups (save_group gr chat0)) = Some team"
      "cl_coordinators (save_group gr chat0) = [(g_gid team, [40])]" "cl_revoked (save_group gr chat0) = []" for gr
    by (simp_all add: save_group_def chat0_def team_def)
  have a: "validate_commit_author m_ext team 2 commit1 5 (save_group (g_mls_id team, 3) chat0) = Inr ()"
    by (simp add: validate_commit_author_def load_group_def g stored_coordinator_def revoked_mls_key_def commit1_def)
  have b: "within (block_revoked_outbox m_ext (save_group (g_mls_id team, 3) chat0)) = Inr (save_group (g_mls_id team, 3) chat0)"
    by (simp add: block_revoked_outbox_def groups_by_name_def save_group_def chat0_def load_group_def revoked_leaves_def
        revoked_mls_key_def within_def)
  have c: "refresh_coordinator m_ext (g_mls_id team, Suc 3) (save_group (g_mls_id team, Suc 3) (save_group (g_mls_id team, 3) chat0)) =
      Inr (save_group (g_mls_id team, Suc 3) (save_group (g_mls_id team, 3) chat0))"
    by (simp add: refresh_coordinator_def stored_coordinator_def save_group_def chat0_def team_def)
  have d: "is_ok (receive [1] (save_group gr (save_group gr' chat0)))" for gr gr'
    by (simp add: receive_def insert_row_def save_group_def chat0_def)
  have h: "private_header m_ext [1] = Inr \<lparr>mh_group = g_mls_id team, mh_epoch = 3, mh_content = Commit\<rparr>"
    by (simp add: private_header_def m_parse_def header1_def)
  have k: "\<not> known_payload [1] chat0" by (simp add: known_payload_def chat0_def)
  show ?thesis using a b c d
    by (simp add: process_handshake_def h k process_message_def m_process_def)
qed

theorem commit_authority_witness:
  "process_message m_ext (g_mls_id team, 3) [1] = Inr ((g_mls_id team, 3), \<lparr>pr_sender = Some 2,
     pr_identity = Some (as_bytes ''bob/laptop''), pr_content = StagedCommit commit1\<rparr>) \<and>
   stored_coordinator (g_mls_id team, 3) chat0 = Some [40]"
proof -
  obtain c' where "process_handshake m_ext ''team'' [1] 5 chat0 = Inr c'" using chat0_commit by (auto simp: is_ok_iff)
  moreover have "\<not> known_payload [1] chat0" by (simp add: known_payload_def chat0_def)
  moreover have "distinct (map mm_index (ms_members m_ext m))" for m by simp
  ultimately obtain d g g' p index commit m where s: "group_named ''team'' chat0 = Inr d" "load_group d chat0 = Inr g"
      "process_message m_ext g [1] = Inr (g', p)" "pr_sender p = Some index" "mm_index m = index"
      "m \<in> set (ms_members m_ext (snd g'))"
      "stored_coordinator g' chat0 = Some (mm_key m) \<or> revoked_leaves m_ext g' chat0 \<noteq> []"
    using commit_authority[of m_ext "''team''" "[1]" 5 chat0 c'] by blast
  have "d = team" "g = (g_mls_id team, 3)" using s(1,2) by auto
  then have p: "process_message m_ext (g_mls_id team, 3) [1] = Inr ((g_mls_id team, 3), p)" "g' = (g_mls_id team, 3)" "index = 2"
    using s(3,4) by (auto simp: process_message_def m_process_def)
  moreover have "m = peer_leaf" using s(5,6) p(3) by auto
  moreover have "revoked_leaves m_ext g' chat0 = []" by (simp add: revoked_leaves_def revoked_mls_key_def chat0_def)
  ultimately show ?thesis using s(7) by (auto simp: process_message_def m_process_def)
qed

section \<open>Sending and receiving\<close>

text \<open>C24: A message is sent only by a device that is not revoked, in an active group with a peer and without
  revoked members, and success means that its ciphertext is queued unsent on the group's message subject;
  a refused message changes nothing in the store, neither the ratchet nor the outbox nor the transcript.\<close>

theorem send_guarded:
  assumes "encrypt_message E P nonce name plain c = (c', res)"
  shows "(\<forall>bs. res = Inr bs \<longrightarrow> (\<exists>d g key row. group_named name c = Inr d \<and> load_group d c = Inr g \<and>
      own_key c = Inr key \<and> \<not> is_revoked (public_key key) c \<and> ms_active E (snd g) \<and>
      (\<forall>m \<in> set (ms_members E (snd g)). revoked_mls_key (mm_key m) c = None) \<and> 2 \<le> length (ms_members E (snd g)) \<and>
      row \<in> set (cl_outbox c') \<and> ob_subject row = subject d ''message'' \<and> ob_payload row = bs \<and> \<not> ob_sent row)) \<and>
    (\<forall>e. res = Inl e \<longrightarrow> c' = c \<or> c' = c\<lparr>cl_recovery := False\<rparr>)"
proof (intro conjI allI impI)
  fix bs assume "res = Inr bs"
  then obtain event where t: "transaction_budget False P (encrypt_event_inner E P name event) c = (c', Inr bs)"
    using assms by (auto simp: encrypt_message_def encrypt_event_def client_transaction_def bind_s_Inr)
  let ?c = "c\<lparr>cl_recovery := False\<rparr>"
  obtain c1 where c1: "encrypt_event_inner E P name event ?c = Inr (bs, c1)" "c' = c1\<lparr>cl_recovery := False\<rparr>"
    using transaction_budget_Inr[OF t] by blast
  have same: "group_named name ?c = group_named name c" "load_group d ?c = load_group d c" "own_key ?c = own_key c"
      "is_revoked k ?c = is_revoked k c" "revoked_leaves E g ?c = revoked_leaves E g c" for d k g
    by (simp_all add: group_named_def load_group_def own_key_def is_revoked_def revoked_leaves_def revoked_mls_key_def)
  have "\<exists>d g key row. group_named name c = Inr d \<and> load_group d c = Inr g \<and> own_key c = Inr key \<and>
      \<not> is_revoked (public_key key) c \<and> ms_active E (snd g) \<and> revoked_leaves E g c = [] \<and> 2 \<le> length (ms_members E (snd g)) \<and>
      row \<in> set (cl_outbox c1) \<and> ob_subject row = subject d ''message'' \<and> ob_payload row = bs \<and> \<not> ob_sent row"
    using encrypt_event_inner_sound[of name ?c E P event] c1(1) unfolding ends_def same by simp
  moreover have "cl_outbox c' = cl_outbox c1" by (simp add: c1(2))
  moreover have "\<forall>m \<in> set (ms_members E (snd g)). revoked_mls_key (mm_key m) c = None" if "revoked_leaves E g c = []" for g
    using that by (auto simp: revoked_leaves_def filter_empty_conv)
  ultimately show "\<exists>d g key row. group_named name c = Inr d \<and> load_group d c = Inr g \<and>
      own_key c = Inr key \<and> \<not> is_revoked (public_key key) c \<and> ms_active E (snd g) \<and>
      (\<forall>m \<in> set (ms_members E (snd g)). revoked_mls_key (mm_key m) c = None) \<and> 2 \<le> length (ms_members E (snd g)) \<and>
      row \<in> set (cl_outbox c') \<and> ob_subject row = subject d ''message'' \<and> ob_payload row = bs \<and> \<not> ob_sent row"
    by (metis (no_types, lifting))
next
  fix e assume "res = Inl e"
  then show "c' = c \<or> c' = c\<lparr>cl_recovery := False\<rparr>"
    using assms transaction_budget_Inl[of False P _ c c' e]
    by (auto simp: encrypt_message_def encrypt_event_def client_transaction_def bind_s_def split: sum.split_asm)
qed

theorem send_guarded_witness:
  "\<not> is_revoked key1 chat0 \<and> (\<exists>row \<in> set (cl_outbox (fst (encrypt_message m_ext pages0 (Some (replicate 16 0)) ''team''
     (as_bytes ''hello'') chat0))). ob_subject row = subject team ''message'' \<and> \<not> ob_sent row)"
proof -
  obtain bs where s: "snd (encrypt_message m_ext pages0 (Some (replicate 16 0)) ''team'' (as_bytes ''hello'') chat0) = Inr bs"
    using chat0_sent by blast
  have "own_key chat0 = Inr device_keys" "public_key device_keys = key1" by (simp_all add: own_key_def chat0_def device_keys_def)
  with s show ?thesis
    using send_guarded[OF prod.collapse[symmetric], of m_ext pages0 "Some (replicate 16 0)" "''team''" "as_bytes ''hello''" chat0]
    by auto
qed

text \<open>C29: Each ciphertext is decrypted at most once: after a successful \<open>decrypt_message\<close>, whatever it returned, the
  same bytes are recognised again and change nothing.\<close>

theorem receive_once:
  assumes "decrypt_message E P name bs c = (c', Inr msg)"
  shows "known_payload bs c' \<and> decrypt_inner E name bs c' = Inr (None, c')"
proof -
  obtain c1 where c1: "decrypt_inner E name bs (c\<lparr>cl_recovery := False\<rparr>) = Inr (msg, c1)" "c' = c1\<lparr>cl_recovery := False\<rparr>"
    using transaction_budget_Inr[of False P "decrypt_inner E name bs" c c' msg] assms
    by (auto simp: decrypt_message_def client_transaction_def)
  note k = decrypt_inner_known[OF c1(1)]
  have "known_payload bs c'" using k(1) c1(2) by (simp add: known_payload_def)
  moreover have "group_named name c' = group_named name c1" by (simp add: c1(2) group_named_def)
  moreover obtain d h where "length bs \<le> MAX_WIRE" "group_named name c1 = Inr d" "private_header E bs = Inr h"
      "mh_group h = g_mls_id d" "mh_content h = Application"
    using k(3) by (auto simp: decrypt_inner_def result_simps)
  ultimately show ?thesis by (simp add: decrypt_inner_def)
qed

theorem receive_once_witness:
  "known_payload [2, 3] (fst (decrypt_message m_ext pages0 ''team'' [2, 3] chat0))"
proof -
  obtain c' where "decrypt_message m_ext pages0 ''team'' [2, 3] chat0 =
      (c', Inr (Some \<lparr>dm_sender = ''bob/laptop'', dm_plaintext = as_bytes ''hi''\<rparr>))"
    using chat0_received by blast
  with receive_once[OF this] show ?thesis by simp
qed

section \<open>Encodings\<close>

text \<open>C33: The application envelope is canonical: decoding reads back exactly the event that \<open>wire\<close> wrote, and the
  written bytes are the only ones that decode to this event.\<close>

theorem event_canonical:
  assumes "event_roundtrip E" "event_wire E e = Inr bs" "length bs \<le> MAX_APPLICATION"
  shows "event_decode E bs = Inr (Some e) \<and> (\<forall>bs'. event_decode E bs' = Inr (Some e) \<longrightarrow> bs' = bs)"
proof -
  have "bs' = bs" if "event_decode E bs' = Inr (Some e)" for bs'
    using event_decode_canonical[OF that] assms(2) by simp
  then show ?thesis using event_decode_wire[OF assms] by blast
qed

theorem event_canonical_witness: "event_decode m_ext (EVENT_PREFIX @ [1, 1]) = Inr (Some hello)"
proof -
  have "length (EVENT_PREFIX @ [1, 1]) \<le> MAX_APPLICATION"
    by (simp add: EVENT_PREFIX_def as_bytes_def MAX_APPLICATION_def MAX_PLAINTEXT_def)
  from event_canonical[OF m_event_roundtrip hello_wire this] show ?thesis by blast
qed

text \<open>A sealed attachment opens to the bytes that were sealed until it expires, its manifest survives the
  envelope, and whatever opens has the announced size and hash and fits the limits.\<close>

theorem attachment_round_trip:
  assumes "aead_roundtrip E" "manifest_roundtrip E"
    "attachment_encrypt E now random gid filename mime bs l = Inr (m, sealed)" "manifest_encode E m = Inr envelope"
    "later < now + ttl_seconds l"
  shows "manifest_decode E envelope = Inr (Some m) \<and> attachment_decrypt E later gid sealed l m = Inr bs \<and>
    length bs = mf_size m \<and> length bs \<le> max_bytes l \<and> hash E bs = Inr (mf_hash m) \<and>
    \<not> is_ok (attachment_decrypt E (now + ttl_seconds l) gid sealed l m)"
proof -
  have exp: "mf_expires_at m = now + ttl_seconds l"
    using assms(3) by (cases random) (auto simp: attachment_encrypt_def Let_def bind_r_eq_Inr ensure_eq_Inr)
  have dec: "attachment_decrypt E later gid sealed l m = Inr bs"
    using attachment_round_trip_lemma[OF assms(1,3)] assms(5) exp by simp
  have "\<not> is_ok (attachment_decrypt E (now + ttl_seconds l) gid sealed l m)"
    using attachment_decrypt_bound[of E "now + ttl_seconds l" gid sealed l m] exp by (auto simp: is_ok_iff)
  then show ?thesis
    using dec attachment_decrypt_bound[OF dec] manifest_decode_encode[OF assms(2,4)] by blast
qed

theorem attachment_round_trip_witness:
  "attachment_decrypt m_ext 604800 team_gid (as_bytes ''hi'' @ replicate 16 0) default_limits file1 = Inr (as_bytes ''hi'')"
proof -
  have "manifest_encode m_ext file1 = Inr (ATTACHMENT_PREFIX @ [MANIFEST_VERSION, 3])"
    by (simp add: manifest_encode_def file1_ok pc_def m_pc_manifest_def ATTACHMENT_PREFIX_def as_bytes_def MAX_PLAINTEXT_def)
  from attachment_round_trip[OF m_roundtrips file1_sealed this, of 604800] show ?thesis
    by (simp add: default_limits_def)
qed

text \<open>The text shown for a message is its own content, or that of an edit whose sender is the device that sent
  the message; an edit by anybody else has no effect.\<close>

theorem edit_authority:
  assumes "ae_relation (se_event msg) = None" "map_r (unpack E) (updates_of gid msg c) = Inr updates"
  shows "\<exists>content edited rs.
    projected E gid msg c = Inr ((display E content @ (if edited then '' [edited]'' else [])) @ reaction_lines rs) \<and>
    (content = ae_content (se_event msg) \<or> edited \<and>
      (\<exists>u \<in> set updates. se_sender u = se_sender msg \<and> (\<exists>i. ae_relation (se_event u) = Some (Replace i)) \<and>
        content = ae_content (se_event u)))"
proof -
  obtain seen content edited rs where
      f: "fold (project_update msg) updates ({}, ae_content (se_event msg), False, []) = (seen, content, edited, rs)"
    by (metis prod.exhaust)
  have "projected E gid msg c = Inr ((display E content @ (if edited then '' [edited]'' else [])) @ reaction_lines rs)"
    using assms f by (simp add: projected_def is_root_def Let_def)
  then show ?thesis using project_content[OF f] unfolding edit_of_def by blast
qed

theorem edit_authority_witness: "\<exists>rs. projected m_ext team_gid shown1 chat0 = Inr (display m_ext (as_bytes ''hello'') @ reaction_lines rs)
   \<or> projected m_ext team_gid shown1 chat0 = Inr (display m_ext (as_bytes ''hello'') @ '' [edited]'' @ reaction_lines rs)"
proof -
  have "ae_relation (se_event shown1) = None" by (simp add: shown1_def hello_def)
  moreover have "map_r (unpack m_ext) (updates_of team_gid shown1 chat0) = Inr []"
    by (simp add: updates_of_def event_join_def chat0_def)
  moreover have "ae_content (se_event shown1) = as_bytes ''hello''" by (simp add: shown1_def hello_def)
  ultimately show ?thesis using edit_authority[of shown1 m_ext team_gid chat0 "[]"] by (auto split: if_splits)
qed

section \<open>Ephemeral events\<close>

text \<open>An ephemeral event is accepted only from a current, unrevoked member whose key signed it for this group,
  epoch and time, while this device may itself send; its issue time lies within the window of eight
  seconds back and one second ahead, and it expires at most eight seconds later.\<close>

theorem ephemeral_authentic:
  assumes "open_ephemeral_at E name bs wall instant c = Inr ev"
  shows "\<exists>d g m. group_named name c = Inr d \<and> load_group d c = Inr g \<and> ensure_can_send E g c = Inr () \<and>
    m \<in> set (ms_members E (snd g)) \<and> revoked_mls_key (mm_key m) c = None \<and> basic_identity (mm_identity m) = Inr (av_sender ev) \<and>
    av_gid ev = g_gid d \<and> av_epoch ev = ms_epoch E (snd g) \<and>
    av_issued ev \<le> wall + 1000 \<and> wall < av_issued ev + 8000 \<and> av_expires ev \<le> instant + 8000 \<and>
    (\<exists>v b tbs. decode_exact (pc_take_ephemeral E bs) = Inr v \<and> eb_event b = av_event ev \<and> eb_issued b = av_issued ev \<and>
      envelope_signing E (g_gid d) v b = Inr tbs \<and> ms_verify E tbs (mm_key m) (eb_signature b))"
proof -
  have "fresh wall i \<Longrightarrow> i \<le> wall + 1000 \<and> wall < i + 8000" for i by (simp add: fresh_def sat_add_def TTL_MS_def)
  moreover have "t \<le> instant + TTL_MS \<Longrightarrow> t \<le> instant + 8000" for t by (simp add: TTL_MS_def)
  ultimately show ?thesis
    using open_ephemeral_sound[of name c E wall instant bs] assms unfolding ends_def by blast
qed

theorem ephemeral_authentic_witness:
  "\<exists>ev. open_ephemeral_at m_ext ''team'' [7] 200 50 chat0 = Inr ev \<and> av_epoch ev = 3 \<and> av_expires ev \<le> 8050"
proof -
  obtain ev where e: "open_ephemeral_at m_ext ''team'' [7] 200 50 chat0 = Inr ev" using chat0_typing by (auto simp: is_ok_iff)
  from ephemeral_authentic[OF this] e show ?thesis by auto
qed

text \<open>C38: The table of typing indicators never holds more than 256 entries, one per group and sender, whatever
  events arrive and whenever; and an event that is not newer than the live entry of its sender does not
  replace it, so a duplicate cannot extend its expiry.\<close>

theorem typing_bounded:
  assumes "foldl typing_step [] xs = st"
  shows "distinct (map fst st) \<and> length st \<le> 256 \<and>
    (\<forall>now gid ev old. map_of (filter (\<lambda>(_, e). now < av_expires e) st) (gid, av_sender ev) = Some old \<and> not_newer old ev \<and>
       is_typing (av_event ev) \<longrightarrow> map_of (typing_accept now gid ev st) (gid, av_sender ev) = Some old)"
proof -
  have "typing_ok []" by (simp add: typing_ok_def)
  from typing_machine.run_inv[OF this, of xs] have "typing_ok st" using assms by (simp add: list_all_iff)
  then show ?thesis using typing_keeps_newest by (auto simp: typing_ok_def)
qed

theorem typing_bounded_witness:
  "map_of (typing_accept 10 team_gid (started\<lparr>av_expires := 9000\<rparr>) (foldl typing_step [] [(5, team_gid, started)]))
     (team_gid, ''bob/laptop'') = Some started"
proof -
  have l: "foldl typing_step [] [(5, team_gid, started)] = [((team_gid, ''bob/laptop''), started)]"
    by (simp add: typing_step_def typing_accept_def is_typing_def started_def assoc_update_def)
  have "map_of (filter (\<lambda>(_, e). 10 < av_expires e) [((team_gid, ''bob/laptop''), started)])
        (team_gid, av_sender (started\<lparr>av_expires := 9000\<rparr>)) = Some started \<and>
      not_newer started (started\<lparr>av_expires := 9000\<rparr>) \<and> is_typing (av_event (started\<lparr>av_expires := 9000\<rparr>))"
    by (simp add: not_newer_def is_typing_def started_def)
  then have "map_of (typing_accept 10 team_gid (started\<lparr>av_expires := 9000\<rparr>) [((team_gid, ''bob/laptop''), started)])
      (team_gid, av_sender (started\<lparr>av_expires := 9000\<rparr>)) = Some started"
    using typing_bounded[OF l] by blast
  then show ?thesis unfolding l by (simp add: started_def)
qed

end
