(* ===== verification/Callout.thy ===== *)
theory Callout
  imports Policy Text
begin

text \<open>
  The NATS Auth Callout adapter (\<open>auth_callout.rs\<close>) and the grants of the backend roles
  (\<open>backend_roles.rs\<close>). A request of the NATS server is decrypted, its claims are checked, a
  replayed connection is refused, and the connecting key is admitted as enrolling device,
  worker, control service or device with the subjects of its role. Decryption, JWT decoding and
  encoding, and NKey types are third-party code: fields of \<open>jwt_ext\<close>.
\<close>

section \<open>Grants of the backend roles\<close>

definition authority_publish :: "string list" where
  "authority_publish =
     [''$JS.API.INFO''] @
     map (\<lambda>stream. ''$JS.API.STREAM.INFO.'' @ stream)
       [''CHAT'', ''MAILBOX'', ''KV_IDENTITIES'', ''KV_CHANNELS'', ''KV_TRANSPARENCY''] @
     concat (map (\<lambda>stream.
       [''$JS.API.CONSUMER.INFO.'' @ stream @ ''.*'', ''$JS.API.CONSUMER.DELETE.'' @ stream @ ''.*'',
        ''$JS.API.CONSUMER.CREATE.'' @ stream @ ''.>'']) [''CHAT'', ''MAILBOX'']) @
     concat (map (\<lambda>bucket.
       [''$JS.API.STREAM.MSG.GET.KV_'' @ bucket, ''$JS.API.DIRECT.GET.KV_'' @ bucket @ ''.>'',
        ''$JS.API.DIRECT.GET.KV_'' @ bucket, ''$KV.'' @ bucket @ ''.>'']) [''IDENTITIES'', ''TRANSPARENCY'']) @
     [''epochgrid.v1.user.*.*.inbox''] @ [AUDIT, REVOCATIONS, REVOKE]"

definition worker_publish :: "string list" where
  "worker_publish = [''_INBOX.>'']"

definition worker_subscribe :: "string list" where
  "worker_subscribe = [''epochgrid.v1.identity.*'', ''epochgrid.v1.channel.*'']"

text \<open>The subject matcher of the broker, as the unit test of the grants writes it.\<close>

fun tokens_match :: "string list \<Rightarrow> string list \<Rightarrow> bool" where
  "tokens_match [] ts \<longleftrightarrow> ts = []"
| "tokens_match (a # as) [] \<longleftrightarrow> False"
| "tokens_match (a # as) (t # ts) \<longleftrightarrow> a = ''>'' \<or> (a = ''*'' \<or> a = t) \<and> tokens_match as ts"

definition permits :: "string list \<Rightarrow> string \<Rightarrow> bool" where
  "permits grants s \<longleftrightarrow>
     list_ex (\<lambda>grant. tokens_match (split_on CHR ''.'' grant) (split_on CHR ''.'' s)) grants"

section \<open>Configuration and requests\<close>

definition CALLOUT_SUBJECT :: string where
  "CALLOUT_SUBJECT = ''$SYS.REQ.USER.AUTH''"

definition ENROLL :: string where
  "ENROLL = ''epochgrid.v1.identity.enroll''"

datatype failure_stage = Ingress | Decryption | RequestDecode | RequestValidation | ReplayCheck
  | AdmissionAudit | ResponseSigning | ResponseEncryption | ResponseAudit

text \<open>The key types that the source distinguishes.\<close>

datatype key_pair_type = ServerKey | AccountKey | UserKey | OtherKey

datatype secret_kind = KindAccount | KindXKey | KindUser | KindDatabase

record secret_ref =
  sf_id :: string
  sf_kind :: secret_kind
  sf_public_key :: string

record operator_jwt =
  oj_auth_account :: string
  oj_connection_jwt :: string

record callout_config =
  cf_version :: nat
  cf_issuer :: secret_ref
  cf_encryption :: secret_ref
  cf_connection :: secret_ref
  cf_target_account :: string
  cf_control_nkey :: string
  cf_authorization_ttl :: nat
  cf_development_plaintext :: bool
  cf_operator_jwt :: "operator_jwt option"

record connect =
  cn_nkey :: string
  cn_sig :: string
  cn_auth_token :: "string option"

text \<open>\<open>Claims<Request>\<close>: the registered claims and the fields of the NATS request.\<close>

record request_claims =
  rc_iss :: string
  rc_sub :: string
  rc_aud :: "string option"
  rc_exp :: "int option"
  rc_nbf :: "int option"
  rc_iat :: nat
  rc_kind :: string
  rc_version :: nat
  rc_server_id :: string
  rc_server_xkey :: string
  rc_user_nkey :: string
  rc_nonce :: string
  rc_client_tls :: bool
  rc_connect :: connect

text \<open>What the source sets of a NATS user claim, and what it reads of the service's own.\<close>

record user_claims =
  uc_iss :: string
  uc_sub :: string
  uc_name :: "string option"
  uc_issuer_account :: "string option"
  uc_aud :: "string option"
  uc_exp :: "int option"
  uc_nbf :: "int option"
  uc_user_type :: bool
  uc_version :: nat
  uc_bearer :: "bool option"
  uc_publish :: "string list"
  uc_subscribe :: "string list"
  uc_limits :: "(int option \<times> int option) option"

record response_claims =
  rs_sub :: string
  rs_aud :: "string option"
  rs_exp :: "int option"
  rs_jwt :: string
  rs_error :: string

record jwt_ext = authority_ext +
  co_key_type :: "string \<Rightarrow> key_pair_type option"
  co_xkey_ok :: "string \<Rightarrow> bool"
  co_open :: "bytes \<Rightarrow> string \<Rightarrow> bytes option"
  co_seal :: "bytes \<Rightarrow> string \<Rightarrow> bytes option"
  co_request :: "string \<Rightarrow> request_claims option"
  co_b64 :: "string \<Rightarrow> bytes option"
  co_new_user :: "string \<Rightarrow> string \<Rightarrow> user_claims"
  co_user_jwt :: "user_claims \<Rightarrow> string option"
  co_user_decode :: "string \<Rightarrow> user_claims option"
  co_new_response :: "string \<Rightarrow> response_claims"
  co_response_jwt :: "response_claims \<Rightarrow> string option"

text \<open>\<open>KeyPair::from_public_key(key)?.key_pair_type() == t\<close> as a guard.\<close>

definition ensure_key_type ::
    "'z jwt_ext_scheme \<Rightarrow> string \<Rightarrow> key_pair_type \<Rightarrow> string \<Rightarrow> 'a result \<Rightarrow> 'a result" where
  "ensure_key_type E key t msg k =
     bind_r (or_err (co_key_type E key) (Extern ''invalid public key'')) (\<lambda>u. ensure (u = t) msg k)"

text \<open>
  The checks of \<open>Config::load_inner\<close> after deserialisation; the version is checked on the JSON
  value before and on the configuration after, with the same outcome.
\<close>

definition target_account_ok :: "string \<Rightarrow> bool" where
  "target_account_ok a \<longleftrightarrow> a \<noteq> [] \<and> length a \<le> 64 \<and>
     list_all (\<lambda>c. is_ascii_lowercase c \<or> is_ascii_uppercase c \<or> is_ascii_digit c \<or> c = CHR ''_'' \<or> c = CHR ''-'') a"

definition connection_jwt_check ::
    "'z jwt_ext_scheme \<Rightarrow> int option \<Rightarrow> callout_config \<Rightarrow> operator_jwt \<Rightarrow> unit result" where
  "connection_jwt_check E t config operator =
     bind_r (or_err (co_user_decode E (oj_connection_jwt operator)) (Anyhow ''invalid auth service user JWT'')) (\<lambda>jwt.
     ensure (uc_user_type jwt \<and> uc_version jwt = 2) ''expected a version-2 user JWT''
     (ensure (uc_sub jwt = sf_public_key (cf_connection config) \<and>
         (case uc_issuer_account jwt of None \<Rightarrow> uc_iss jwt | Some a \<Rightarrow> a) = oj_auth_account operator \<and>
         uc_bearer jwt \<noteq> Some True)
       ''auth service JWT must bind the connection key and authentication account''
     (bind_r (clock t) (\<lambda>now.
      ensure ((case uc_exp jwt of None \<Rightarrow> True | Some e \<Rightarrow> e > now) \<and>
          (case uc_nbf jwt of None \<Rightarrow> True | Some b \<Rightarrow> b \<le> now))
        ''auth service JWT is not current'' (Inr ())))))"

definition load_inner ::
    "'z jwt_ext_scheme \<Rightarrow> int option \<Rightarrow> bool \<Rightarrow> callout_config \<Rightarrow> callout_config result" where
  "load_inner E t allow_pending config =
     ensure (cf_version config = 2) ''unsupported callout configuration version''
     (ensure (2 \<le> cf_authorization_ttl config \<and> cf_authorization_ttl config \<le> 60)
       ''authorization TTL must be 2-60 seconds''
     (ensure (target_account_ok (cf_target_account config)) ''invalid target account name''
     (ensure (sf_kind (cf_issuer config) = KindAccount \<and> sf_kind (cf_encryption config) = KindXKey \<and>
         sf_kind (cf_connection config) = KindUser) ''invalid callout credential types''
     (case cf_operator_jwt config of
        None \<Rightarrow> Inr config
      | Some operator \<Rightarrow>
          ensure_key_type E (oj_auth_account operator) AccountKey ''operator mode requires account public keys''
          (ensure_key_type E (cf_target_account config) AccountKey ''operator mode requires account public keys''
          (ensure (oj_auth_account operator \<noteq> cf_target_account config)
            ''authentication and application accounts must be separate''
          (if oj_connection_jwt operator = [] then ensure allow_pending ''operator setup incomplete'' (Inr config)
           else bind_r (connection_jwt_check E t config operator) (\<lambda>_. Inr config))))))))"

section \<open>State\<close>

record counters =
  ct_received :: nat
  ct_accepted :: nat
  ct_denied :: nat
  ct_rate_limited :: nat
  ct_malformed :: nat
  ct_timeout :: nat

definition increment :: "nat \<Rightarrow> nat" where
  "increment n = min (n + 1) U64_MAX"

text \<open>\<open>seen\<close> and \<open>principals\<close> are \<open>BTreeMap\<close>s: association lists with distinct keys.\<close>

record callout =
  co_denials :: denials
  co_counters :: counters
  co_issuer :: string
  co_config :: callout_config
  co_seen :: "(string \<times> int) list"
  co_worker :: "string option"
  co_ingress :: rate_limit
  co_principals :: "(string \<times> rate_limit) list"

text \<open>
  What one request draws from outside: the wall clock, the monotonic clock where it is read, the
  environment of the registry reads and of the audit records, a fresh operation id.
\<close>

record callout_env =
  ce_now :: "int option"
  ce_ingress :: nat
  ce_principal :: nat
  ce_denied :: nat
  ce_failed :: nat
  ce_registry :: registry_env
  ce_opaque :: "string option"
  ce_grant :: audit_env
  ce_response :: audit_env
  ce_denial :: audit_env
  ce_failure :: audit_env

text \<open>\<open>Callout::new\<close> after the secrets were read; \<open>issuer\<close> is the public key of the issuer seed.\<close>

definition callout_new ::
    "'z jwt_ext_scheme \<Rightarrow> nat \<Rightarrow> string \<Rightarrow> callout_config \<Rightarrow> callout result" where
  "callout_new E now issuer config =
     ensure_key_type E issuer AccountKey ''callout issuer must be an account key''
     (Inr \<lparr>co_denials = \<lparr>dn_started = now, dn_count = 0\<rparr>,
        co_counters = \<lparr>ct_received = 0, ct_accepted = 0, ct_denied = 0, ct_rate_limited = 0, ct_malformed = 0, ct_timeout = 0\<rparr>,
        co_issuer = issuer, co_config = config, co_seen = [], co_worker = None,
        co_ingress = rate_new 32 64 now, co_principals = []\<rparr>)"

definition with_capacity :: "nat \<Rightarrow> capacity \<Rightarrow> callout \<Rightarrow> callout" where
  "with_capacity now policy co =
     co\<lparr>co_ingress := rate_new (of_nat (requests_per_second policy)) (of_nat (request_burst policy)) now\<rparr>"

definition with_worker :: "'z jwt_ext_scheme \<Rightarrow> string \<Rightarrow> callout \<Rightarrow> callout result" where
  "with_worker E worker co =
     bind_r (or_err (co_key_type E worker) (Extern ''invalid public key'')) (\<lambda>t.
     ensure (t = UserKey \<and> worker \<noteq> cf_control_nkey (co_config co)) ''invalid worker identity''
       (Inr (co\<lparr>co_worker := Some worker\<rparr>)))"

text \<open>The state of one call: the adapter, the registry and the stage its error is tagged with.\<close>

record call =
  ca_callout :: callout
  ca_registry :: registry
  ca_stage :: failure_stage

definition count_up :: "((nat \<Rightarrow> nat) \<Rightarrow> counters \<Rightarrow> counters) \<Rightarrow> callout \<Rightarrow> callout" where
  "count_up update co = co\<lparr>co_counters := update increment (co_counters co)\<rparr>"

definition observe :: "'z authority_ext_scheme \<Rightarrow> rpager \<Rightarrow> nat \<Rightarrow> audit_env \<Rightarrow> call \<Rightarrow> call" where
  "observe E P now env s =
     (let co = ca_callout s; r = ca_registry s;
          (d, a) = observe_denial E env (rg_capacity r) (audit_pager P r) now (co_denials co) (rg_audit r) in
      s\<lparr>ca_callout := co\<lparr>co_denials := d\<rparr>, ca_registry := r\<lparr>rg_audit := a\<rparr>\<rparr>)"

section \<open>Checking a request\<close>

text \<open>The claims of a decoded request; the result is its expiry.\<close>

definition callout_validate ::
    "'z jwt_ext_scheme \<Rightarrow> callout \<Rightarrow> string \<Rightarrow> int \<Rightarrow> request_claims \<Rightarrow> int result" where
  "callout_validate E co server_xkey timestamp q =
     bind_r (or_err (rc_exp q) (Anyhow ''missing request expiry'')) (\<lambda>expires.
     ensure (rc_aud q = Some ''nats-authorization-request'' \<and>
         rc_sub q = (case cf_operator_jwt (co_config co) of Some operator \<Rightarrow> oj_auth_account operator | None \<Rightarrow> co_issuer co))
       ''invalid callout audience/subject''
     (ensure (rc_kind q = ''authorization_request'' \<and> rc_version q = 2) ''unsupported callout request type''
     (ensure (rc_iss q = rc_server_id q) ''callout server binding mismatch''
     (bind_r (or_err (co_key_type E (rc_iss q)) (Extern ''invalid public key'')) (\<lambda>t.
      ensure (t = ServerKey \<and> rc_server_xkey q = server_xkey) ''callout server binding mismatch''
      (ensure (expires > timestamp \<and> expires \<le> timestamp + 60 \<and> int (rc_iat q) \<le> timestamp + 2 \<and>
          int (rc_iat q) + 60 \<ge> timestamp \<and> (case rc_nbf q of None \<Rightarrow> True | Some v \<Rightarrow> v \<le> timestamp))
        ''stale callout request''
      (ensure_key_type E (rc_user_nkey q) UserKey ''invalid connection key'' (Inr expires))))))))"

definition connection_key :: "request_claims \<Rightarrow> string" where
  "connection_key q = rc_iss q @ '':'' @ rc_user_nkey q"

text \<open>Expired entries are dropped first; that change stays when the request is refused.\<close>

definition replay_check :: "int \<Rightarrow> int \<Rightarrow> request_claims \<Rightarrow> callout \<Rightarrow> callout \<times> unit result" where
  "replay_check timestamp expires q co =
     (let co = co\<lparr>co_seen := filter (\<lambda>(_, e). e > timestamp) (co_seen co)\<rparr> in
      ensure_s (connection_key q \<notin> fst ` set (co_seen co)) ''replayed connection request'' co
      (ensure_s (length (co_seen co) < 4096) ''callout replay capacity exhausted'' co
      (co\<lparr>co_seen := AList.update (connection_key q) expires (co_seen co)\<rparr>, Inr ())))"

section \<open>Admission\<close>

definition group_subjects :: "string \<Rightarrow> string list" where
  "group_subjects gid = map (\<lambda>kind. ''epochgrid.v1.group.'' @ gid @ ''.'' @ kind) [''message'', ''handshake'', ''ephemeral'']"

definition consumer_subjects :: "string \<Rightarrow> string list" where
  "consumer_subjects key = concat (map (\<lambda>stream.
     [''$JS.API.CONSUMER.INFO.'' @ stream @ ''.device_'' @ key,
      ''$JS.API.CONSUMER.MSG.NEXT.'' @ stream @ ''.device_'' @ key,
      ''$JS.ACK.'' @ stream @ ''.device_'' @ key @ ''.>'']) [''CHAT'', ''MAILBOX''])"

definition device_publish :: "string \<Rightarrow> string list \<Rightarrow> string list" where
  "device_publish key gids =
     [ENROLL, POLICY_SUBJECT, RELAY_SUBJECT, KEYPACKAGE, REGISTER, LOOKUP, DEVICES, AUDIT, REVOCATIONS, REVOKE] @
     concat (map group_subjects gids) @ consumer_subjects key"

definition inbox_of :: "string \<Rightarrow> string" where
  "inbox_of key = ''_INBOX.'' @ key @ ''.>''"

definition device_subscribe :: "string \<Rightarrow> device_authorization \<Rightarrow> string list \<Rightarrow> string list" where
  "device_subscribe key a gids =
     [inbox_of key, ''epochgrid.v1.user.'' @ da_user a @ ''.'' @ da_device a @ ''.inbox''] @ concat (map group_subjects gids)"

definition control_publish :: "string list" where
  "control_publish = [''$JS.API.>'', ''$KV.IDENTITIES.>'', ''$KV.CHANNELS.>'', ''$KV.TRANSPARENCY.>'', ''_INBOX.>'',
     AUDIT, REVOCATIONS, REVOKE, ''epochgrid.v1.user.*.*.inbox'']"

text \<open>The token bucket of an authenticated device; the map keeps its change when the request is refused.\<close>

definition admit_device :: "nat \<Rightarrow> string \<Rightarrow> callout \<Rightarrow> callout \<times> unit result" where
  "admit_device now key co =
     ensure_s (key \<in> fst ` set (co_principals co) \<or> length (co_principals co) < 32) ''principal rate capacity exhausted'' co
     (let old = (case map_of (co_principals co) key of Some b \<Rightarrow> b | None \<Rightarrow> rate_new 4 8 now);
          (new, ok) = allow now old;
          co = co\<lparr>co_principals := AList.update key new (co_principals co)\<rparr> in
      if ok then (co, Inr ())
      else (count_up ct_rate_limited_update co, Inl (Anyhow ''principal admission overload'')))"

text \<open>\<open>{}\<close> of a \<open>u64\<close>.\<close>

fun decimal_text :: "nat \<Rightarrow> string" where
  "decimal_text n = (if n < 10 then [] else decimal_text (n div 10)) @ [char_of (48 + n mod 10)]"

declare decimal_text.simps [simp del]

definition base_claims :: "'z jwt_ext_scheme \<Rightarrow> callout_config \<Rightarrow> int \<Rightarrow> request_claims \<Rightarrow> user_claims" where
  "base_claims E config timestamp q =
     (let user = co_new_user E ''EpochGrid device'' (rc_user_nkey q);
          user = (if cf_operator_jwt config \<noteq> None then user\<lparr>uc_issuer_account := Some (cf_target_account config)\<rparr>
                  else user\<lparr>uc_aud := Some (cf_target_account config)\<rparr>) in
      user\<lparr>uc_exp := Some (timestamp + int (cf_authorization_ttl config)), uc_version := 2,
        uc_subscribe := [inbox_of (cn_nkey (rc_connect q))]\<rparr>)"

definition control_claims :: "callout \<Rightarrow> int \<Rightarrow> string \<Rightarrow> user_claims \<Rightarrow> user_claims" where
  "control_claims co timestamp key user =
     (if co_worker co \<noteq> None
      then user\<lparr>uc_name := Some ''EpochGrid control service'', uc_exp := Some (timestamp + 60),
        uc_publish := authority_publish, uc_subscribe := [inbox_of key]\<rparr>
      else user\<lparr>uc_name := Some ''EpochGrid control service'', uc_exp := Some (timestamp + 60),
        uc_publish := control_publish, uc_subscribe := uc_subscribe user @ worker_subscribe\<rparr>)"

definition limit_claims :: "user_claims \<Rightarrow> user_claims" where
  "limit_claims user = (case uc_limits user of None \<Rightarrow> user
     | Some _ \<Rightarrow> user\<lparr>uc_limits := Some (Some (int MAX_WIRE), Some 128)\<rparr>)"

definition device_claims ::
    "'z jwt_ext_scheme \<Rightarrow> callout_env \<Rightarrow> registry \<Rightarrow> string \<Rightarrow> user_claims \<Rightarrow> callout \<Rightarrow> callout \<times> user_claims result" where
  "device_claims E env r key user co =
     bind_s (co, authorize E r key) (\<lambda>a co.
     bind_s (admit_device (ce_principal env) key co) (\<lambda>_ co.
     bind_s (co, authorized_groups E r key) (\<lambda>gids co.
     bind_s (co, map_r validate_gid gids) (\<lambda>_ co.
     (co, Inr (user\<lparr>uc_name := Some (da_user a @ ''/'' @ da_device a @ ''@'' @ decimal_text (da_generation a)),
        uc_publish := device_publish key gids, uc_subscribe := device_subscribe key a gids\<rparr>))))))"

definition admission ::
    "'z jwt_ext_scheme \<Rightarrow> callout_env \<Rightarrow> registry \<Rightarrow> bool \<Rightarrow> int \<Rightarrow> request_claims \<Rightarrow> callout
      \<Rightarrow> callout \<times> user_claims result" where
  "admission E env r devices_ready timestamp q co =
     (let config = co_config co; connect = rc_connect q; key = cn_nkey connect in
      ensure_s (cf_development_plaintext config \<or> rc_client_tls q) ''TLS required for device admission'' co
      (ensure_s (devices_ready \<or> key = cf_control_nkey config \<or> co_worker co = Some key)
        ''revocation reconciliation pending'' co
      (bind_s (co, or_err (co_key_type E key) (Extern ''invalid public key'')) (\<lambda>t co.
       ensure_s (t = UserKey \<and> rc_nonce q \<noteq> [] \<and> length (rc_nonce q) \<le> 256) ''invalid device possession proof'' co
       (bind_s (co, or_err (co_b64 E (cn_sig connect)) (Extern ''base64'')) (\<lambda>sig co.
        bind_s (co, verify_with E key (as_bytes (rc_nonce q)) sig) (\<lambda>_ co.
        (let user = base_claims E config timestamp q in
         bind_s
           (case cn_auth_token connect of
              Some token \<Rightarrow>
                bind_s (co, enrollment_admission E (ce_registry env) r token key) (\<lambda>_ co.
                (co, Inr (user\<lparr>uc_name := Some ''EpochGrid enrollment'', uc_publish := [ENROLL]\<rparr>)))
            | None \<Rightarrow>
                if co_worker co = Some key
                then (co, Inr (user\<lparr>uc_name := Some ''EpochGrid control worker'', uc_exp := Some (timestamp + 60),
                  uc_publish := worker_publish, uc_subscribe := uc_subscribe user @ worker_subscribe\<rparr>))
                else if key = cf_control_nkey config then (co, Inr (control_claims co timestamp key user))
                else device_claims E env r key user co)
           (\<lambda>user co. (co, Inr (limit_claims user)))))))))))"

section \<open>The response\<close>

text \<open>\<open>AuthRegistry::audit_correlated\<close> as a transaction of the registry.\<close>

definition correlate ::
    "'z jwt_ext_scheme \<Rightarrow> audit_env \<Rightarrow> rpager \<Rightarrow> event \<Rightarrow> string \<Rightarrow> registry \<Rightarrow> registry \<times> unit result" where
  "correlate E env P ev operation r =
     (case audit_correlated E env (rg_capacity r) (audit_pager P r) ev operation (rg_audit r) of
        Inl e \<Rightarrow> (r, Inl e)
      | Inr (_, a) \<Rightarrow> (r\<lparr>rg_audit := a\<rparr>, Inr ()))"

text \<open>The audit of a repair role is best effort; every other grant needs its record.\<close>

definition audit_grant ::
    "'z jwt_ext_scheme \<Rightarrow> audit_env \<Rightarrow> rpager \<Rightarrow> bool \<Rightarrow> event \<Rightarrow> string \<Rightarrow> call \<Rightarrow> call \<times> unit result" where
  "audit_grant E env P repair_role ev operation s =
     (case correlate E env P ev operation (ca_registry s) of
        (r, res) \<Rightarrow> (s\<lparr>ca_registry := r\<rparr>, if repair_role then Inr () else res))"

definition grant_event :: "callout \<Rightarrow> registry \<Rightarrow> string \<Rightarrow> event" where
  "grant_event co r key =
     (let ev = (committed Admission)\<lparr>e_stage := Result\<rparr> in
      if key = cf_control_nkey (co_config co) then ev\<lparr>e_actor := Authority\<rparr>
      else if co_worker co = Some key then ev\<lparr>e_actor := BoundWorker\<rparr>
      else ev\<lparr>e_actor := VerifiedDevice, e_actor_reference := ok (reference_device r key)\<rparr>)"

definition enter :: "failure_stage \<Rightarrow> call \<Rightarrow> call" where
  "enter st s = s\<lparr>ca_stage := st\<rparr>"

definition on_callout :: "call \<Rightarrow> callout \<times> 'a result \<Rightarrow> call \<times> 'a result" where
  "on_callout s m = (s\<lparr>ca_callout := fst m\<rparr>, snd m)"

text \<open>From the result of the admission to the claims of the response.\<close>

definition answer ::
    "'z jwt_ext_scheme \<Rightarrow> callout_env \<Rightarrow> rpager \<Rightarrow> request_claims \<Rightarrow> int \<Rightarrow> string \<Rightarrow> bool \<Rightarrow> user_claims result
      \<Rightarrow> call \<Rightarrow> call \<times> (response_claims \<times> event option) result" where
  "answer E env P q expires operation repair_role result s =
     (let response = (co_new_response E (rc_user_nkey q))\<lparr>rs_aud := Some (rc_iss q), rs_exp := Some expires\<rparr> in
      case result of
        Inr user \<Rightarrow>
          (let ev = grant_event (ca_callout s) (ca_registry s) (cn_nkey (rc_connect q)) in
           bind_s (audit_grant E (ce_grant env) P repair_role ev operation s) (\<lambda>_ s.
           let s = enter ResponseSigning s in
           bind_s (s, or_err (co_user_jwt E user) (Extern ''jwt'')) (\<lambda>jwt s.
           (s\<lparr>ca_callout := count_up ct_accepted_update (ca_callout s)\<rparr>, Inr (response\<lparr>rs_jwt := jwt\<rparr>, Some ev)))))
      | Inl _ \<Rightarrow>
          (let s = observe E P (ce_denied env) (ce_denial env) s in
           (s\<lparr>ca_callout := count_up ct_denied_update (ca_callout s)\<rparr>,
            Inr (response\<lparr>rs_error := ''EpochGrid admission denied''\<rparr>, None))))"

definition seal_response ::
    "'z jwt_ext_scheme \<Rightarrow> callout_env \<Rightarrow> rpager \<Rightarrow> string \<Rightarrow> string \<Rightarrow> bool \<Rightarrow> response_claims \<Rightarrow> event option
      \<Rightarrow> call \<Rightarrow> call \<times> bytes result" where
  "seal_response E env P server_xkey operation repair_role response granted s =
     (let s = enter ResponseSigning s in
      bind_s (s, or_err (co_response_jwt E response) (Extern ''jwt'')) (\<lambda>encoded s.
      ensure_s (length encoded \<le> MAX_WIRE - 256) ''authorization response capacity exceeded'' s
      (let s = enter ResponseEncryption s in
       bind_s (s, or_err (co_seal E (as_bytes encoded) server_xkey) (Extern ''xkey'')) (\<lambda>sealed s.
       let s = enter ResponseAudit s in
       case granted of
         None \<Rightarrow> (s, Inr sealed)
       | Some ev \<Rightarrow>
           bind_s (audit_grant E (ce_response env) P repair_role (ev\<lparr>e_kind := ResponseConstructed\<rparr>) operation s)
             (\<lambda>_ s. (s, Inr sealed))))))"

definition decode_request ::
    "'z jwt_ext_scheme \<Rightarrow> string \<Rightarrow> bytes \<Rightarrow> call \<Rightarrow> call \<times> request_claims result" where
  "decode_request E server_xkey encrypted s =
     (let s = enter Decryption s in
      bind_s (s, or_err (if co_xkey_ok E server_xkey then Some () else None) (Extern ''xkey'')) (\<lambda>_ s.
      bind_s (s, or_err (co_open E encrypted server_xkey) (Extern ''xkey'')) (\<lambda>plaintext s.
      let s = enter RequestDecode s in
      bind_s (s, or_err (from_utf8 plaintext) (Extern ''utf-8'')) (\<lambda>text s.
      (s, or_err (co_request E text) (Anyhow ''invalid signed NATS request encoding''))))))"

text \<open>The part after the replay check: admission, audit, signature, encryption.\<close>

definition conclude ::
    "'z jwt_ext_scheme \<Rightarrow> callout_env \<Rightarrow> rpager \<Rightarrow> string \<Rightarrow> bool \<Rightarrow> int \<Rightarrow> int \<Rightarrow> request_claims \<Rightarrow> call
      \<Rightarrow> call \<times> bytes result" where
  "conclude E env P server_xkey devices_ready timestamp expires q s =
     (case admission E env (ca_registry s) devices_ready timestamp q (ca_callout s) of (co, result) \<Rightarrow>
        let s = enter AdmissionAudit (s\<lparr>ca_callout := co\<rparr>); key = cn_nkey (rc_connect q);
            repair_role = (key = cf_control_nkey (co_config co) \<or> co_worker co = Some key) in
        bind_s (s, or_err (ce_opaque env) (Anyhow ''audit randomness unavailable'')) (\<lambda>operation s.
        bind_s (answer E env P q expires operation repair_role result s) (\<lambda>(response, granted) s.
        seal_response E env P server_xkey operation repair_role response granted s)))"

text \<open>The checks of the claims and of a replay.\<close>

definition check_request ::
    "'z jwt_ext_scheme \<Rightarrow> callout_env \<Rightarrow> string \<Rightarrow> request_claims \<Rightarrow> call \<Rightarrow> call \<times> (int \<times> int) result" where
  "check_request E env server_xkey q s =
     (let s = enter RequestValidation s in
      bind_s (s, clock (ce_now env)) (\<lambda>timestamp s.
      bind_s (s, callout_validate E (ca_callout s) server_xkey timestamp q) (\<lambda>expires s.
      let s = enter ReplayCheck s in
      bind_s (on_callout s (replay_check timestamp expires q (ca_callout s))) (\<lambda>_ s.
      (s, Inr (timestamp, expires))))))"

definition respond_inner ::
    "'z jwt_ext_scheme \<Rightarrow> callout_env \<Rightarrow> rpager \<Rightarrow> string \<Rightarrow> bytes \<Rightarrow> bool \<Rightarrow> call \<Rightarrow> call \<times> bytes result" where
  "respond_inner E env P server_xkey encrypted devices_ready s =
     (if length encrypted > MAX_WIRE
      then (s\<lparr>ca_callout := count_up ct_malformed_update (ca_callout s)\<rparr>, Inl (Anyhow ''oversized callout request''))
      else case allow (ce_ingress env) (co_ingress (ca_callout s)) of (bucket, allowed) \<Rightarrow>
        let s = s\<lparr>ca_callout := (ca_callout s)\<lparr>co_ingress := bucket\<rparr>\<rparr> in
        if \<not> allowed
        then (s\<lparr>ca_callout := count_up ct_rate_limited_update (ca_callout s)\<rparr>, Inl (Anyhow ''callout overload''))
        else
          bind_s (decode_request E server_xkey encrypted s) (\<lambda>q s.
          bind_s (check_request E env server_xkey q s) (\<lambda>(timestamp, expires) s.
          conclude E env P server_xkey devices_ready timestamp expires q s)))"

text \<open>\<open>Callout::respond\<close>; the stage left in the state is the context of an error.\<close>

definition respond ::
    "'z jwt_ext_scheme \<Rightarrow> callout_env \<Rightarrow> rpager \<Rightarrow> string \<Rightarrow> bytes \<Rightarrow> bool \<Rightarrow> callout \<times> registry
      \<Rightarrow> (callout \<times> registry) \<times> (failure_stage \<times> error + bytes)" where
  "respond E env P server_xkey encrypted devices_ready cr =
     (let s = \<lparr>ca_callout = count_up ct_received_update (fst cr), ca_registry = snd cr, ca_stage = Ingress\<rparr> in
      case respond_inner E env P server_xkey encrypted devices_ready s of
        (s, Inr sealed) \<Rightarrow> ((ca_callout s, ca_registry s), Inr sealed)
      | (s, Inl e) \<Rightarrow>
          (let stage = ca_stage s; s = s\<lparr>ca_callout := count_up ct_denied_update (ca_callout s)\<rparr>;
               s = observe E P (ce_failed env) (ce_failure env) s in
           ((ca_callout s, ca_registry s), Inl (stage, e))))"

section \<open>Subjects and grants\<close>

lemma permits_append [simp]: "permits (xs @ ys) s \<longleftrightarrow> permits xs s \<or> permits ys s"
  by (simp add: permits_def)

lemma permits_simps [simp]: "permits [] s \<longleftrightarrow> False"
  "permits (x # xs) s \<longleftrightarrow> tokens_match (split_on CHR ''.'' x) (split_on CHR ''.'' s) \<or> permits xs s"
  by (simp_all add: permits_def)

lemma permits_concat: "permits (concat xss) s \<longleftrightarrow> (\<exists>xs \<in> set xss. permits xs s)"
  by (induction xss) auto

lemma hex_not_wild: "gid_ok g \<Longrightarrow> g \<noteq> ''*'' \<and> g \<noteq> ''>''"
  by (auto simp: gid_ok_def)

lemma group_tokens:
  assumes "gid_ok gid" "kind \<in> {''message'', ''handshake'', ''ephemeral''}"
  shows "split_on CHR ''.'' (''epochgrid.v1.group.'' @ gid @ ''.'' @ kind) = [''epochgrid'', ''v1'', ''group'', gid, kind]"
proof -
  have "split_on CHR ''.'' (gid @ CHR ''.'' # kind) = gid # split_on CHR ''.'' kind"
    using gid_no_slash[OF assms(1)] by (intro split_on_append) simp
  moreover have "split_on CHR ''.'' kind = [kind]" using assms(2) by auto
  ultimately show ?thesis by simp
qed

lemma group_subjects_permit:
  assumes "gid_ok g" "gid_ok gid" "kind \<in> {''message'', ''handshake'', ''ephemeral''}"
  shows "permits (group_subjects g) (''epochgrid.v1.group.'' @ gid @ ''.'' @ kind) \<longleftrightarrow> g = gid"
  using hex_not_wild[OF assms(1)] group_tokens[OF assms(2,3)] assms(3)
    group_tokens[OF assms(1), of "''message''"] group_tokens[OF assms(1), of "''handshake''"]
    group_tokens[OF assms(1), of "''ephemeral''"]
  by (auto simp: group_subjects_def)

lemma other_grants:
  assumes "gid_ok gid" "kind \<in> {''message'', ''handshake'', ''ephemeral''}"
  shows "\<not> permits (consumer_subjects key) (''epochgrid.v1.group.'' @ gid @ ''.'' @ kind)"
    "\<not> tokens_match (split_on CHR ''.'' (inbox_of key)) (split_on CHR ''.'' (''epochgrid.v1.group.'' @ gid @ ''.'' @ kind))"
    "\<not> tokens_match (split_on CHR ''.'' (''epochgrid.v1.user.'' @ u)) (split_on CHR ''.'' (''epochgrid.v1.group.'' @ gid @ ''.'' @ kind))"
  unfolding group_tokens[OF assms] by (simp_all add: consumer_subjects_def inbox_of_def)

lemmas control_subjects = ENROLL_def POLICY_SUBJECT_def RELAY_SUBJECT_def KEYPACKAGE_def REGISTER_def LOOKUP_def DEVICES_def
  AUDIT_def REVOCATIONS_def REVOKE_def

lemma device_publish_permits:
  assumes "list_all gid_ok gids" "gid_ok gid" "kind \<in> {''message'', ''handshake'', ''ephemeral''}"
  shows "permits (device_publish key gids) (''epochgrid.v1.group.'' @ gid @ ''.'' @ kind) \<longleftrightarrow> gid \<in> set gids"
proof -
  have "permits (concat (map group_subjects gids)) (''epochgrid.v1.group.'' @ gid @ ''.'' @ kind) \<longleftrightarrow> gid \<in> set gids"
    using assms group_subjects_permit[OF _ assms(2,3)] by (auto simp: permits_concat list_all_iff)
  moreover have "\<not> permits [ENROLL, POLICY_SUBJECT, RELAY_SUBJECT, KEYPACKAGE, REGISTER, LOOKUP, DEVICES, AUDIT, REVOCATIONS, REVOKE]
      (''epochgrid.v1.group.'' @ gid @ ''.'' @ kind)"
    unfolding permits_simps group_tokens[OF assms(2,3)] by (simp add: control_subjects)
  ultimately show ?thesis using other_grants(1)[OF assms(2,3)] by (simp add: device_publish_def)
qed

lemma device_subscribe_permits:
  assumes "list_all gid_ok gids" "gid_ok gid" "kind \<in> {''message'', ''handshake'', ''ephemeral''}"
  shows "permits (device_subscribe key a gids) (''epochgrid.v1.group.'' @ gid @ ''.'' @ kind) \<longleftrightarrow> gid \<in> set gids"
proof -
  have "permits (concat (map group_subjects gids)) (''epochgrid.v1.group.'' @ gid @ ''.'' @ kind) \<longleftrightarrow> gid \<in> set gids"
    using assms group_subjects_permit[OF _ assms(2,3)] by (auto simp: permits_concat list_all_iff)
  then show ?thesis using other_grants(2,3)[OF assms(2,3)] by (simp add: device_subscribe_def)
qed

text \<open>No subject of a device or of a backend role administers a stream or reads another's messages.\<close>

lemma authority_no_admin:
  assumes "op \<in> {''CREATE'', ''UPDATE'', ''DELETE'', ''PURGE''}"
  shows "\<not> permits authority_publish (''$JS.API.STREAM.'' @ op @ ''.'' @ stream)"
  using assms by (auto simp: authority_publish_def control_subjects)

lemma authority_no_reads:
  "\<not> permits authority_publish (''$JS.API.CONSUMER.MSG.NEXT.'' @ s)"
  "stream \<in> {''CHAT'', ''MAILBOX''} \<Longrightarrow> \<not> permits authority_publish (''$JS.API.STREAM.MSG.GET.'' @ stream)"
  "stream \<in> {''CHAT'', ''MAILBOX''} \<Longrightarrow> \<not> permits authority_publish (''$JS.API.DIRECT.GET.'' @ stream)"
  "stream \<in> {''CHAT'', ''MAILBOX''} \<Longrightarrow> \<not> permits authority_publish (''$JS.API.DIRECT.GET.'' @ stream @ ''.'' @ s)"
  by (auto simp: authority_publish_def control_subjects)

lemma authority_buckets:
  assumes "permits authority_publish (''$KV.'' @ bucket @ ''.'' @ key)" "CHR ''.'' \<notin> set bucket"
  shows "bucket \<in> {''IDENTITIES'', ''TRANSPARENCY''}"
proof -
  have "split_on CHR ''.'' (bucket @ CHR ''.'' # key) = bucket # split_on CHR ''.'' key"
    using assms(2) by (rule split_on_append)
  then show ?thesis using assms(1) by (simp add: authority_publish_def control_subjects) blast
qed

lemma worker_publish_inbox: "permits worker_publish s \<Longrightarrow> hd (split_on CHR ''.'' s) = ''_INBOX''"
  by (cases "split_on CHR ''.'' s") (auto simp: worker_publish_def)

lemma device_no_admin:
  assumes "list_all gid_ok gids"
  shows "\<not> permits (device_publish key gids) (''$JS.API.STREAM.'' @ s)" "\<not> permits (device_publish key gids) (''$KV.'' @ s)"
proof -
  have g: "\<not> permits (group_subjects g) (CHR ''$'' # t)" for g t
    by (cases "split_on CHR ''.'' (CHR ''$'' # t)") (auto simp: group_subjects_def split: list.splits if_splits)
  have "\<not> permits (concat (map group_subjects gids)) (CHR ''$'' # t)" for t using g by (simp add: permits_concat)
  then show "\<not> permits (device_publish key gids) (''$JS.API.STREAM.'' @ s)" "\<not> permits (device_publish key gids) (''$KV.'' @ s)"
    by (simp_all add: device_publish_def consumer_subjects_def control_subjects)
qed

lemma split_on_prefix:
  "c \<notin> set p \<Longrightarrow> split_on c (p @ xs) = (case split_on c xs of [] \<Rightarrow> [p] | f # fs \<Rightarrow> (p @ f) # fs)"
  by (induction p) (auto split: list.splits)

lemma device_own_consumer:
  assumes "list_all gid_ok gids" "permits (device_publish key gids) (''$JS.API.CONSUMER.MSG.NEXT.'' @ stream @ ''.'' @ name)"
    "CHR ''.'' \<notin> set stream" "CHR ''.'' \<notin> set name" "CHR ''.'' \<notin> set key"
  shows "name = ''device_'' @ key"
proof -
  have g: "\<not> permits (group_subjects g) (CHR ''$'' # t)" for g t
    by (cases "split_on CHR ''.'' (CHR ''$'' # t)") (auto simp: group_subjects_def split: list.splits if_splits)
  have "\<not> permits (concat (map group_subjects gids)) (CHR ''$'' # t)" for t using g by (simp add: permits_concat)
  moreover have "split_on CHR ''.'' (stream @ CHR ''.'' # name) = [stream, name]"
    using assms(3,4) by (simp add: split_on_append split_on_single)
  moreover have "split_on CHR ''.'' key = [key]" using assms(5) by (rule split_on_single)
  ultimately show ?thesis using assms(2) by (auto simp: device_publish_def consumer_subjects_def control_subjects)
qed

section \<open>Admission\<close>

lemma admission_guards:
  assumes "admission E env r ready timestamp q co = (co', Inr user)"
  shows "cf_development_plaintext (co_config co) \<or> rc_client_tls q"
    "ready \<or> cn_nkey (rc_connect q) = cf_control_nkey (co_config co) \<or> co_worker co = Some (cn_nkey (rc_connect q))"
    "\<exists>sig. co_b64 E (cn_sig (rc_connect q)) = Some sig \<and> rc_nonce q \<noteq> [] \<and>
      nkey_verify E (cn_nkey (rc_connect q)) (as_bytes (rc_nonce q)) sig"
  using assms by (auto simp: admission_def Let_def bind_s_Inr ensure_s_Inr or_err_eq_Inr result_simps)

lemma device_claims_ok:
  assumes "device_claims E env r key user0 co = (co', Inr user)"
  shows "\<exists>a gids. authorize E r key = Inr a \<and> authorized_groups E r key = Inr gids \<and> list_all gid_ok gids \<and>
    uc_publish user = device_publish key gids \<and> uc_subscribe user = device_subscribe key a gids \<and>
    uc_exp user = uc_exp user0 \<and> uc_sub user = uc_sub user0"
proof -
  have "list_all gid_ok gids" if "map_r validate_gid gids = Inr us" for gids us
    using that by (induction gids arbitrary: us) (auto simp: result_simps validate_gid_def)
  then show ?thesis using assms by (auto simp: device_claims_def bind_s_Inr)
qed

lemma limit_claims_fields [simp]:
  "uc_publish (limit_claims u) = uc_publish u" "uc_subscribe (limit_claims u) = uc_subscribe u"
  "uc_exp (limit_claims u) = uc_exp u" "uc_sub (limit_claims u) = uc_sub u"
  by (simp_all add: limit_claims_def split: option.split)

lemma base_claims_fields [simp]:
  "uc_subscribe (base_claims E config timestamp q) = [inbox_of (cn_nkey (rc_connect q))]"
  "uc_exp (base_claims E config timestamp q) = Some (timestamp + int (cf_authorization_ttl config))"
  "uc_sub (base_claims E config timestamp q) = uc_sub (co_new_user E ''EpochGrid device'' (rc_user_nkey q))"
  by (simp_all add: base_claims_def Let_def)

lemma control_claims_fields [simp]:
  "uc_publish (control_claims co timestamp key u) = (if co_worker co = None then control_publish else authority_publish)"
  "uc_subscribe (control_claims co timestamp key u) = (if co_worker co = None then uc_subscribe u @ worker_subscribe else [inbox_of key])"
  "uc_exp (control_claims co timestamp key u) = Some (timestamp + 60)" "uc_sub (control_claims co timestamp key u) = uc_sub u"
  by (simp_all add: control_claims_def)

text \<open>The permissions of a token and the second at which it expires.\<close>

definition permissions :: "user_claims \<Rightarrow> string list \<times> string list \<times> int option" where
  "permissions user = (uc_publish user, uc_subscribe user, uc_exp user)"

lemma admission_roles:
  assumes "admission E env r ready timestamp q co = (co', Inr user)"
  defines "key \<equiv> cn_nkey (rc_connect q)" and "ttl \<equiv> timestamp + int (cf_authorization_ttl (co_config co))"
  obtains (enrolling) token where "cn_auth_token (rc_connect q) = Some token"
      "is_ok (enrollment_admission E (ce_registry env) r token key)" "uc_publish user = [ENROLL]"
      "uc_subscribe user = [inbox_of key]" "uc_exp user = Some ttl"
    | (worker) "co_worker co = Some key" "uc_publish user = worker_publish"
      "uc_subscribe user = inbox_of key # worker_subscribe" "uc_exp user = Some (timestamp + 60)"
      "cn_auth_token (rc_connect q) = None"
    | (control) "key = cf_control_nkey (co_config co)"
      "uc_publish user = (if co_worker co = None then control_publish else authority_publish)"
      "uc_exp user = Some (timestamp + 60)"
      "uc_subscribe user = inbox_of key # (if co_worker co = None then worker_subscribe else [])"
      "co_worker co \<noteq> Some key" "cn_auth_token (rc_connect q) = None"
    | (device) a gids where "key \<noteq> cf_control_nkey (co_config co)" "co_worker co \<noteq> Some key" "authorize E r key = Inr a"
      "authorized_groups E r key = Inr gids" "list_all gid_ok gids" "uc_publish user = device_publish key gids"
      "uc_subscribe user = device_subscribe key a gids" "uc_exp user = Some ttl" "cn_auth_token (rc_connect q) = None"
proof -
  define user0 where "user0 = base_claims E (co_config co) timestamp q"
  consider (t) token where "cn_auth_token (rc_connect q) = Some token" "is_ok (enrollment_admission E (ce_registry env) r token key)"
      "user = limit_claims (user0\<lparr>uc_name := Some ''EpochGrid enrollment'', uc_publish := [ENROLL]\<rparr>)"
    | (w) "cn_auth_token (rc_connect q) = None" "co_worker co = Some key"
      "user = limit_claims (user0\<lparr>uc_name := Some ''EpochGrid control worker'', uc_exp := Some (timestamp + 60),
           uc_publish := worker_publish, uc_subscribe := uc_subscribe user0 @ worker_subscribe\<rparr>)"
    | (c) "cn_auth_token (rc_connect q) = None" "co_worker co \<noteq> Some key" "key = cf_control_nkey (co_config co)"
      "user = limit_claims (control_claims co timestamp key user0)"
    | (d) co1 user1 where "cn_auth_token (rc_connect q) = None" "co_worker co \<noteq> Some key" "key \<noteq> cf_control_nkey (co_config co)"
      "device_claims E env r key user0 co = (co1, Inr user1)" "user = limit_claims user1"
    using assms(1) unfolding admission_def Let_def key_def user0_def
    by (auto simp: bind_s_Inr ensure_s_Inr is_ok_iff split: option.splits if_splits)
  then show thesis
  proof cases
    case (t token)
    then show ?thesis using enrolling by (simp add: user0_def key_def ttl_def)
  next
    case w
    then show ?thesis using worker by (simp add: user0_def key_def)
  next
    case c
    then show ?thesis using control by (simp add: user0_def key_def)
  next
    case (d co1 user1)
    then show ?thesis using device_claims_ok[OF d(4)] device by (auto simp: user0_def ttl_def)
  qed
qed

section \<open>What a request changes\<close>

text \<open>The tables of the adapter stay within their bounds.\<close>

definition callout_ok :: "callout \<Rightarrow> bool" where
  "callout_ok co \<longleftrightarrow> distinct (map fst (co_seen co)) \<and> length (co_seen co) \<le> 4096 \<and>
     distinct (map fst (co_principals co)) \<and> length (co_principals co) \<le> 32"

text \<open>
  A request leaves the configuration and the tables of the registry alone, writes audit records
  only, keeps the bounds, and forgets no connection that has not expired at its timestamp.
\<close>

definition callout_le :: "int option \<Rightarrow> callout \<Rightarrow> callout \<Rightarrow> bool" where
  "callout_le t co co' \<longleftrightarrow> co_config co' = co_config co \<and> co_worker co' = co_worker co \<and> co_issuer co' = co_issuer co \<and>
     (callout_ok co \<longrightarrow> callout_ok co') \<and>
     (\<forall>k e. (k, e) \<in> set (co_seen co) \<and> (\<forall>now. t = Some now \<longrightarrow> now < e) \<longrightarrow> (k, e) \<in> set (co_seen co'))"

definition audited :: "'z authority_ext_scheme \<Rightarrow> registry \<Rightarrow> registry \<Rightarrow> bool" where
  "audited E r r' \<longleftrightarrow> (\<exists>a. r' = r\<lparr>rg_audit := a\<rparr> \<and> (audit_inv E (rg_audit r) \<longrightarrow> audit_inv E a))"

definition call_le :: "'z authority_ext_scheme \<Rightarrow> int option \<Rightarrow> call \<Rightarrow> call \<Rightarrow> bool" where
  "call_le E t s s' \<longleftrightarrow> callout_le t (ca_callout s) (ca_callout s') \<and> audited E (ca_registry s) (ca_registry s')"

lemma callout_le_refl [simp]: "callout_le t co co"
  by (simp add: callout_le_def)

lemma callout_le_trans: "callout_le t a b \<Longrightarrow> callout_le t b c \<Longrightarrow> callout_le t a c"
  by (auto simp: callout_le_def)

lemma audited_refl [simp]: "audited E r r"
  by (auto simp: audited_def intro!: exI[of _ "rg_audit r"])

lemma audited_trans: "audited E a b \<Longrightarrow> audited E b c \<Longrightarrow> audited E a c"
  by (auto simp: audited_def)

lemma call_le_refl [simp]: "call_le E t s s"
  by (simp add: call_le_def)

lemma call_le_trans: "call_le E t a b \<Longrightarrow> call_le E t b c \<Longrightarrow> call_le E t a c"
  by (auto simp: call_le_def intro: callout_le_trans audited_trans)

lemma call_le_enter [simp]: "call_le E t s (enter st s') = call_le E t s s'" "call_le E t (enter st s) s' = call_le E t s s'"
  by (simp_all add: call_le_def enter_def)

lemma call_le_bind:
  assumes "call_le E t s (fst m)" "\<And>x s'. m = (s', Inr x) \<Longrightarrow> call_le E t s' (fst (f x s'))"
  shows "call_le E t s (fst (bind_s m f))"
  using assms by (cases m; cases "snd m") (auto intro: call_le_trans)

lemma call_le_ensure: "call_le E t s (fst k) \<Longrightarrow> call_le E t s (fst (ensure_s c msg s k))"
  by (simp add: ensure_s_def)

lemma callout_le_count [simp]: "callout_le t co (count_up u co') = callout_le t co co'"
  "callout_le t (count_up u co) co' = callout_le t co co'"
  by (simp_all add: callout_le_def callout_ok_def count_up_def)

lemma callout_le_bind:
  assumes "callout_le t co (fst m)" "\<And>x co'. m = (co', Inr x) \<Longrightarrow> callout_le t co' (fst (f x co'))"
  shows "callout_le t co (fst (bind_s m f))"
  using assms by (cases m; cases "snd m") (auto intro: callout_le_trans)

lemma length_alist_update: "length (AList.update k v al) = (if k \<in> fst ` set al then length al else Suc (length al))"
  by (induction al) auto

lemma alist_update_new: "k \<notin> fst ` set al \<Longrightarrow> AList.update k v al = al @ [(k, v)]"
  by (induction al) auto

lemma admit_device_le: "callout_le t co (fst (admit_device now key co))"
  by (auto simp: admit_device_def ensure_s_def Let_def callout_le_def callout_ok_def count_up_def length_alist_update
      AList.distinct_update split: prod.splits)

lemma admission_le: "callout_le t co (fst (admission E env r ready timestamp q co))"
  unfolding admission_def Let_def device_claims_def ensure_s_def
  by (auto intro!: callout_le_bind admit_device_le split: option.split)

lemma replay_check_le:
  assumes "\<And>now. t = Some now \<Longrightarrow> now = timestamp"  "t \<noteq> None"
  shows "callout_le t co (fst (replay_check timestamp expires q co))"
proof -
  let ?f = "filter (\<lambda>(_, e). e > timestamp) (co_seen co)"
  have f: "callout_le t co (co\<lparr>co_seen := ?f\<rparr>)"
    using assms le_trans[OF length_filter_le, of "co_seen co" 4096]
    by (auto simp: callout_le_def callout_ok_def distinct_map_filter)
  have "callout_le t (co\<lparr>co_seen := ?f\<rparr>) (co\<lparr>co_seen := AList.update (connection_key q) expires ?f\<rparr>)"
    if "connection_key q \<notin> fst ` set ?f" "length ?f < 4096"
    using that by (simp add: callout_le_def callout_ok_def alist_update_new)
  with f show ?thesis by (auto simp: replay_check_def ensure_s_def Let_def intro: callout_le_trans)
qed

text \<open>The environment of a request: well-formed audit environments.\<close>

definition callout_env_ok :: "callout_env \<Rightarrow> bool" where
  "callout_env_ok env \<longleftrightarrow> env_ok (ce_grant env) \<and> env_ok (ce_response env) \<and> env_ok (ce_denial env) \<and> env_ok (ce_failure env)"

lemma auditedI: "(audit_inv E (rg_audit r) \<Longrightarrow> audit_inv E a) \<Longrightarrow> audited E r (r\<lparr>rg_audit := a\<rparr>)"
  by (auto simp: audited_def)

lemma observe_le:
  assumes "env_ok env" "call_le E t s0 s"
  shows "call_le E t s0 (observe E P now env s)"
proof -
  have "call_le E t s (observe E P now env s)"
    using assms(1) by (auto simp: observe_def Let_def call_le_def callout_le_def callout_ok_def observe_denial_def transaction_def
      split: prod.splits sum.splits if_splits dest: audit_event_inv intro!: auditedI)
  with assms(2) show ?thesis by (rule call_le_trans)
qed

lemma audit_grant_le:
  assumes "env_ok env" "call_le E t s0 s"
  shows "call_le E t s0 (fst (audit_grant E env P role ev operation s))"
proof -
  have "call_le E t s (fst (audit_grant E env P role ev operation s))"
    using assms(1) by (auto simp: audit_grant_def correlate_def call_le_def split: prod.splits sum.splits
      dest: audit_correlated_inv intro!: auditedI)
  with assms(2) show ?thesis by (rule call_le_trans)
qed

lemma call_le_on_callout: "call_le E t s (fst (on_callout s m)) = callout_le t (ca_callout s) (fst m)"
  by (simp add: call_le_def on_callout_def)

lemma call_le_count [simp]:
  "call_le E t s (s'\<lparr>ca_callout := count_up u (ca_callout s')\<rparr>) = call_le E t s s'"
  by (simp add: call_le_def)

lemma answer_le:
  assumes "callout_env_ok env"
  shows "call_le E t s (fst (answer E env P q expires operation role result s))"
  using assms unfolding answer_def Let_def callout_env_ok_def
  by (auto intro!: call_le_bind audit_grant_le observe_le split: sum.split)

lemma seal_response_le:
  assumes "callout_env_ok env"
  shows "call_le E t s (fst (seal_response E env P x operation role response granted s))"
  using assms unfolding seal_response_def Let_def callout_env_ok_def
  by (auto intro!: call_le_bind call_le_ensure audit_grant_le split: option.split)

lemma decode_request_le: "call_le E t s (fst (decode_request E x encrypted s))"
  unfolding decode_request_def Let_def by (auto intro!: call_le_bind)

lemma call_le_callout: "callout_le t (ca_callout s) co \<Longrightarrow> call_le E t s (s\<lparr>ca_callout := co\<rparr>)"
  by (simp add: call_le_def)

lemma conclude_le:
  assumes "callout_env_ok env"
  shows "call_le E t s (fst (conclude E env P x ready timestamp expires q s))"
proof -
  have "call_le E t s (s\<lparr>ca_callout := co\<rparr>)"
    if "admission E env (ca_registry s) ready timestamp q (ca_callout s) = (co, result)" for co result
    using admission_le[of t "ca_callout s" E env "ca_registry s" ready timestamp q] that by (simp add: call_le_callout)
  then show ?thesis using assms unfolding conclude_def Let_def
    by (auto intro!: call_le_bind seal_response_le answer_le split: prod.split)
qed

lemma check_request_le: "call_le E (ce_now env) s (fst (check_request E env x q s))"
proof -
  have "call_le E (ce_now env) s' (fst (on_callout s' (replay_check timestamp expires q (ca_callout s'))))"
    if "clock (ce_now env) = Inr timestamp" for s' timestamp expires
    using that replay_check_le[of "ce_now env" timestamp] by (auto simp: call_le_on_callout clock_def or_err_eq_Inr)
  from this[of _ "enter ReplayCheck (enter RequestValidation s)"] show ?thesis
    unfolding check_request_def Let_def by (auto intro!: call_le_bind)
qed

lemma respond_inner_le:
  assumes "callout_env_ok env"
  shows "call_le E (ce_now env) s (fst (respond_inner E env P x encrypted ready s))"
proof -
  have "callout_le (ce_now env) (ca_callout s) ((ca_callout s)\<lparr>co_ingress := b\<rparr>)" for b
    by (simp add: callout_le_def callout_ok_def)
  then have "call_le E (ce_now env) s (s\<lparr>ca_callout := (ca_callout s)\<lparr>co_ingress := b\<rparr>\<rparr>)"
    "call_le E (ce_now env) s (s\<lparr>ca_callout := count_up u ((ca_callout s)\<lparr>co_ingress := b\<rparr>)\<rparr>)" for b u
    by (simp_all add: call_le_callout)
  then show ?thesis unfolding respond_inner_def Let_def
    by (auto intro!: call_le_bind decode_request_le check_request_le conclude_le[OF assms] intro: call_le_trans split: prod.split)
qed

lemma respond_le:
  assumes "callout_env_ok env" "respond E env P x encrypted ready (co, r) = ((co', r'), res)"
  shows "callout_le (ce_now env) co co'" "audited E r r'"
proof -
  let ?s = "\<lparr>ca_callout = count_up ct_received_update co, ca_registry = r, ca_stage = Ingress\<rparr>"
  obtain s res' where i: "respond_inner E env P x encrypted ready ?s = (s, res')" by (cases "respond_inner E env P x encrypted ready ?s")
  have "call_le E (ce_now env) ?s s" using respond_inner_le[OF assms(1), of E ?s P x encrypted ready] i by simp
  then have "call_le E (ce_now env) ?s \<lparr>ca_callout = co', ca_registry = r', ca_stage = ca_stage s\<rparr>"
    using assms i observe_le[of "ce_failure env" E "ce_now env" ?s "s\<lparr>ca_callout := count_up ct_denied_update (ca_callout s)\<rparr>" P "ce_failed env"]
    by (auto simp: respond_def Let_def callout_env_ok_def call_le_def split: sum.splits)
  then show "callout_le (ce_now env) co co'" "audited E r r'" by (simp_all add: call_le_def)
qed

section \<open>Requests that are answered\<close>

text \<open>A call holds the request that an encrypted payload of the server stands for.\<close>

definition request_of :: "'z jwt_ext_scheme \<Rightarrow> string \<Rightarrow> bytes \<Rightarrow> request_claims option" where
  "request_of E x encrypted =
     (if co_xkey_ok E x then Option.bind (Option.bind (co_open E encrypted x) from_utf8) (co_request E) else None)"

lemma decode_request_ok:
  assumes "decode_request E x encrypted s = (s', Inr q)"
  shows "request_of E x encrypted = Some q" "ca_callout s' = ca_callout s" "ca_registry s' = ca_registry s"
  using assms by (auto simp: decode_request_def Let_def bind_s_Inr or_err_eq_Inr request_of_def enter_def split: if_splits)

lemma callout_validate_cong:
  "co_config co' = co_config co \<Longrightarrow> co_issuer co' = co_issuer co \<Longrightarrow> callout_validate E co' x t q = callout_validate E co x t q"
  by (simp add: callout_validate_def split: option.split)

lemma check_request_ok:
  assumes "check_request E env x q s = (s', Inr (timestamp, expires))"
  shows "ce_now env = Some timestamp" "callout_validate E (ca_callout s) x timestamp q = Inr expires"
    "\<And>e. (connection_key q, e) \<in> set (co_seen (ca_callout s)) \<Longrightarrow> e \<le> timestamp"
    "(connection_key q, expires) \<in> set (co_seen (ca_callout s'))" "ca_registry s' = ca_registry s"
    "co_config (ca_callout s') = co_config (ca_callout s)" "co_worker (ca_callout s') = co_worker (ca_callout s)"
proof -
  have r: "ca_callout s' = (ca_callout s)\<lparr>co_seen := AList.update (connection_key q) expires
        (filter (\<lambda>(_, e). e > timestamp) (co_seen (ca_callout s)))\<rparr> \<and> ca_registry s' = ca_registry s \<and>
      connection_key q \<notin> fst ` set (filter (\<lambda>(_, e). e > timestamp) (co_seen (ca_callout s))) \<and>
      ce_now env = Some timestamp \<and> callout_validate E (ca_callout s) x timestamp q = Inr expires"
    using assms by (auto simp: check_request_def replay_check_def on_callout_def enter_def clock_def Let_def bind_s_Inr or_err_eq_Inr
        ensure_s_def split: if_splits)
  then show "ce_now env = Some timestamp" "callout_validate E (ca_callout s) x timestamp q = Inr expires"
      "ca_registry s' = ca_registry s" "co_config (ca_callout s') = co_config (ca_callout s)"
      "co_worker (ca_callout s') = co_worker (ca_callout s)"
    by simp_all
  show "(connection_key q, expires) \<in> set (co_seen (ca_callout s'))" using r by (simp add: alist_update_new)
  show "e \<le> timestamp" if "(connection_key q, e) \<in> set (co_seen (ca_callout s))" for e
    using r that by (force simp: image_iff)
qed

lemma answer_ok:
  assumes "answer E env P q expires operation role result s = (s', Inr (response, granted))"
  shows "rs_aud response = Some (rc_iss q) \<and> rs_exp response = Some expires \<and>
    (case result of Inr user \<Rightarrow> co_user_jwt E user = Some (rs_jwt response)
     | Inl _ \<Rightarrow> rs_jwt response = rs_jwt (co_new_response E (rc_user_nkey q)) \<and> rs_error response = ''EpochGrid admission denied'')"
  using assms by (auto simp: answer_def Let_def bind_s_Inr or_err_eq_Inr split: sum.splits)

lemma conclude_ok:
  assumes "conclude E env P x ready timestamp expires q s = (s', Inr sealed)"
  shows "\<exists>co result response encoded.
    admission E env (ca_registry s) ready timestamp q (ca_callout s) = (co, result) \<and>
    co_response_jwt E response = Some encoded \<and> co_seal E (as_bytes encoded) x = Some sealed \<and>
    rs_aud response = Some (rc_iss q) \<and> rs_exp response = Some expires \<and>
    (case result of Inr user \<Rightarrow> co_user_jwt E user = Some (rs_jwt response)
     | Inl _ \<Rightarrow> rs_jwt response = rs_jwt (co_new_response E (rc_user_nkey q)) \<and> rs_error response = ''EpochGrid admission denied'')"
proof -
  obtain co result where a: "admission E env (ca_registry s) ready timestamp q (ca_callout s) = (co, result)"
    by (cases "admission E env (ca_registry s) ready timestamp q (ca_callout s)")
  let ?role = "cn_nkey (rc_connect q) = cf_control_nkey (co_config co) \<or> co_worker co = Some (cn_nkey (rc_connect q))"
  obtain operation response granted s1 s2 where
      b: "answer E env P q expires operation ?role result s1 = (s2, Inr (response, granted))" and
      c: "seal_response E env P x operation ?role response granted s2 = (s', Inr sealed)"
    using assms a unfolding conclude_def Let_def by (auto simp: bind_s_Inr)
  from c obtain encoded where "co_response_jwt E response = Some encoded" "co_seal E (as_bytes encoded) x = Some sealed"
    by (auto simp: seal_response_def Let_def bind_s_Inr ensure_s_Inr or_err_eq_Inr split: option.splits)
  with a answer_ok[OF b] show ?thesis by blast
qed

lemma respond_ok:
  assumes "respond E env P x encrypted ready (co, r) = ((co', r'), Inr sealed)" "callout_env_ok env"
  obtains q timestamp expires co1 co2 result response encoded where "request_of E x encrypted = Some q" "ce_now env = Some timestamp"
    "callout_validate E co x timestamp q = Inr expires" "\<And>e. (connection_key q, e) \<in> set (co_seen co) \<Longrightarrow> e \<le> timestamp"
    "(connection_key q, expires) \<in> set (co_seen co')" "co_config co1 = co_config co" "co_worker co1 = co_worker co"
    "admission E env r ready timestamp q co1 = (co2, result)" "co_response_jwt E response = Some encoded"
    "co_seal E (as_bytes encoded) x = Some sealed" "rs_aud response = Some (rc_iss q)" "rs_exp response = Some expires"
    "case result of Inr user \<Rightarrow> co_user_jwt E user = Some (rs_jwt response)
     | Inl _ \<Rightarrow> rs_jwt response = rs_jwt (co_new_response E (rc_user_nkey q)) \<and> rs_error response = ''EpochGrid admission denied''"
proof -
  let ?s = "\<lparr>ca_callout = count_up ct_received_update co, ca_registry = r, ca_stage = Ingress\<rparr>"
  obtain s where i: "respond_inner E env P x encrypted ready ?s = (s, Inr sealed)" and co': "co' = ca_callout s"
    using assms by (auto simp: respond_def Let_def split: prod.splits sum.splits)
  obtain b where "allow (ce_ingress env) (co_ingress (ca_callout ?s)) = (b, True)"
    using i by (auto simp: respond_inner_def Let_def split: prod.splits if_splits)
  define s0 where "s0 = ?s\<lparr>ca_callout := (ca_callout ?s)\<lparr>co_ingress := b\<rparr>\<rparr>"
  have s0: "co_config (ca_callout s0) = co_config co" "co_worker (ca_callout s0) = co_worker co" "co_issuer (ca_callout s0) = co_issuer co"
      "co_seen (ca_callout s0) = co_seen co" "ca_registry s0 = r"
    by (simp_all add: s0_def count_up_def)
  obtain q timestamp expires s1 s2 where d: "decode_request E x encrypted s0 = (s1, Inr q)" and
      c: "check_request E env x q s1 = (s2, Inr (timestamp, expires))" and
      f: "conclude E env P x ready timestamp expires q s2 = (s, Inr sealed)"
    using i \<open>allow _ _ = _\<close> unfolding respond_inner_def s0_def Let_def by (auto simp: bind_s_Inr split: if_splits)
  note d = decode_request_ok[OF d] and k = check_request_ok[OF c]
  obtain co2 result response encoded where a: "admission E env (ca_registry s2) ready timestamp q (ca_callout s2) = (co2, result)"
      "co_response_jwt E response = Some encoded" "co_seal E (as_bytes encoded) x = Some sealed"
      "rs_aud response = Some (rc_iss q)" "rs_exp response = Some expires"
      "case result of Inr user \<Rightarrow> co_user_jwt E user = Some (rs_jwt response)
       | Inl _ \<Rightarrow> rs_jwt response = rs_jwt (co_new_response E (rc_user_nkey q)) \<and> rs_error response = ''EpochGrid admission denied''"
    using conclude_ok[OF f] by blast
  have v: "callout_validate E co x timestamp q = Inr expires"
    using k(2) callout_validate_cong[of "ca_callout s0" co E x timestamp q] s0 d by simp
  have "timestamp < expires" using v by (auto simp: callout_validate_def result_simps ensure_key_type_def)
  then have "(connection_key q, expires) \<in> set (co_seen co')"
    using conclude_le[OF assms(2), of E "Some timestamp" s2 P x ready timestamp expires q] k(4) f co'
    by (auto simp: call_le_def callout_le_def)
  then show thesis
    using that[OF d(1) k(1) v _ _ _ _ _ a(2-6)] a(1) k(3,5-7) d s0 by simp
qed

section \<open>Sequences of requests\<close>

type_synonym callout_input = "callout_env \<times> string \<times> bytes \<times> bool"

definition callout_step :: "'z jwt_ext_scheme \<Rightarrow> rpager \<Rightarrow> callout \<times> registry \<Rightarrow> callout_input \<Rightarrow> callout \<times> registry" where
  "callout_step E P s i = (case i of (env, x, encrypted, ready) \<Rightarrow> fst (respond E env P x encrypted ready s))"

definition callout_inv :: "'z jwt_ext_scheme \<Rightarrow> callout \<times> registry \<Rightarrow> bool" where
  "callout_inv E s \<longleftrightarrow> callout_ok (fst s) \<and> reg_inv E (snd s)"

definition callout_frame :: "'z jwt_ext_scheme \<Rightarrow> callout \<times> registry \<Rightarrow> callout \<times> registry \<Rightarrow> bool" where
  "callout_frame E s s' \<longleftrightarrow> co_config (fst s') = co_config (fst s) \<and> co_worker (fst s') = co_worker (fst s) \<and>
     audited E (snd s) (snd s')"

lemma callout_step_le:
  assumes "callout_env_ok (fst i)"
  shows "callout_le (ce_now (fst i)) (fst s) (fst (callout_step E P s i))" "audited E (snd s) (snd (callout_step E P s i))"
proof -
  obtain env x encrypted ready co r where i: "i = (env, x, encrypted, ready)" "s = (co, r)" by (cases i; cases s)
  obtain co' r' res where c: "respond E env P x encrypted ready (co, r) = ((co', r'), res)" by (metis prod.exhaust)
  show "callout_le (ce_now (fst i)) (fst s) (fst (callout_step E P s i))" "audited E (snd s) (snd (callout_step E P s i))"
    using respond_le[OF _ c] assms by (simp_all add: callout_step_def i c)
qed

lemma audited_inv: "audited E r r' \<Longrightarrow> reg_inv E r \<Longrightarrow> reg_inv E r'"
  by (auto simp: audited_def reg_inv_def)

interpretation callout_machine: monotone_machine "callout_step E P" "callout_inv E" "\<lambda>i. callout_env_ok (fst i)" "callout_frame E"
proof unfold_locales
  fix s :: "callout \<times> registry" and i :: callout_input
  assume "callout_inv E s" "callout_env_ok (fst i)"
  then show "callout_inv E (callout_step E P s i)" "callout_frame E s (callout_step E P s i)"
    using callout_step_le(1)[of i s E P] callout_step_le(2)[of i E s P] by (auto simp: callout_inv_def callout_frame_def callout_le_def intro: audited_inv)
qed (auto simp: callout_frame_def intro: audited_trans)

text \<open>A connection that has not expired stays remembered through all requests before its expiry.\<close>

lemma seen_kept:
  assumes "list_all (\<lambda>i. callout_env_ok (fst i) \<and> (\<forall>t. ce_now (fst i) = Some t \<longrightarrow> t < e)) is" "(k, e) \<in> set (co_seen (fst s))"
  shows "(k, e) \<in> set (co_seen (fst (foldl (callout_step E P) s is)))"
  using assms
proof (induction "is" arbitrary: s)
  case (Cons i "is")
  then have "(k, e) \<in> set (co_seen (fst (callout_step E P s i)))"
    using callout_step_le(1)[of i s E P] by (auto simp: callout_le_def)
  with Cons show ?case by simp
qed simp

end
