(* ===== verification/Callout_Properties.thy ===== *)
theory Callout_Properties
  imports Registry_Properties Callout
begin

text \<open>
  The properties of the Auth Callout adapter and of the grants of the backend roles, each with an
  instance on which its hypotheses hold.
\<close>

section \<open>A concrete adapter\<close>

definition query1 :: request_claims where
  "query1 = \<lparr>rc_iss = ''NSERVER'', rc_sub = ''AISSUER'', rc_aud = Some ''nats-authorization-request'', rc_exp = Some 40,
     rc_nbf = None, rc_iat = 5, rc_kind = ''authorization_request'', rc_version = 2, rc_server_id = ''NSERVER'',
     rc_server_xkey = ''XSERVER'', rc_user_nkey = ''UCONN'', rc_nonce = ''nonce'', rc_client_tls = True,
     rc_connect = \<lparr>cn_nkey = key1, cn_sig = key1, cn_auth_token = None\<rparr>\<rparr>"

definition claims1 :: user_claims where
  "claims1 = \<lparr>uc_iss = [], uc_sub = [], uc_name = None, uc_issuer_account = None, uc_aud = None, uc_exp = None, uc_nbf = None,
     uc_user_type = True, uc_version = 0, uc_bearer = None, uc_publish = [], uc_subscribe = [], uc_limits = Some (None, None)\<rparr>"

text \<open>The libraries of a small adapter, with the encodings of the user token and of the response open.\<close>

definition coded_ext :: "(user_claims \<Rightarrow> string) \<Rightarrow> (response_claims \<Rightarrow> string) \<Rightarrow> jwt_ext" where
  "coded_ext h w = authority_ext.extend full_ext (jwt_ext.fields (\<lambda>k. Some (if k = ''NSERVER'' then ServerKey else UserKey))
     (\<lambda>x. True) (\<lambda>b x. Some b) (\<lambda>b x. Some b) (\<lambda>s. if s = ''q'' then Some query1 else None) (\<lambda>s. Some (as_bytes s))
     (\<lambda>n s. claims1\<lparr>uc_sub := s\<rparr>) (\<lambda>u. Some (h u)) (\<lambda>s. None)
     (\<lambda>s. \<lparr>rs_sub = s, rs_aud = None, rs_exp = None, rs_jwt = [], rs_error = []\<rparr>) (\<lambda>r. Some (w r)))"

definition x_ext :: jwt_ext where
  "x_ext = coded_ext (\<lambda>u. ''user'') (\<lambda>r. ''answer'')"

lemma coded_ext_simps [simp]:
  "co_key_type (coded_ext h w) k = Some (if k = ''NSERVER'' then ServerKey else UserKey)" "co_xkey_ok (coded_ext h w) x"
  "co_open (coded_ext h w) b x = Some b" "co_seal (coded_ext h w) b x = Some b"
  "co_request (coded_ext h w) s = (if s = ''q'' then Some query1 else None)" "co_b64 (coded_ext h w) s = Some (as_bytes s)"
  "co_new_user (coded_ext h w) n s = claims1\<lparr>uc_sub := s\<rparr>" "co_user_jwt (coded_ext h w) u = Some (h u)"
  "co_response_jwt (coded_ext h w) r = Some (w r)" "rs_jwt (co_new_response (coded_ext h w) s) = []"
  "json_record (coded_ext h w) e = Some ''{}''"
  by (simp_all add: coded_ext_def authority_ext.extend_def jwt_ext.fields_def full_ext_def s_ext_def authority_ext.fields_def)

lemmas x_ext_simps [simp] = coded_ext_simps[where h = "\<lambda>u. ''user''" and w = "\<lambda>r. ''answer''", folded x_ext_def]

lemma coded_ext_s: obtains m where "coded_ext h w = s_ext m"
  by (simp add: coded_ext_def authority_ext.extend_def s_ext_def full_ext_def authority_ext.fields_def)

lemma x_ext_s: obtains m where "x_ext = s_ext m"
  unfolding x_ext_def by (rule coded_ext_s)

lemma coded_ext_facts:
  "reg_inv (coded_ext h w) registry1" "postcard_roundtrip (coded_ext h w)" "nkey_ok (coded_ext h w) key1"
  "nkey_verify (coded_ext h w) key1 msg (as_bytes key1)"
proof -
  obtain m where m: "coded_ext h w = s_ext m" by (rule coded_ext_s)
  show "reg_inv (coded_ext h w) registry1" using phone1_ok[of m] unfolding m
    by (simp add: reg_inv_def reg_tables_def reg_defs reg_limits_def reg_rates_def registry_usage_def registry1_def
        max_group_def count_where_def default_capacity_def REGISTRATION_BYTES_def)
      (simp add: phone1_def)
  show "postcard_roundtrip (coded_ext h w)" "nkey_ok (coded_ext h w) key1" "nkey_verify (coded_ext h w) key1 msg (as_bytes key1)"
    unfolding m by (simp_all add: s_ext_roundtrip key1_def starts_with_def)
qed

lemmas x_ext_facts = coded_ext_facts[of "\<lambda>u. ''user''" "\<lambda>r. ''answer''", folded x_ext_def]

definition grouped1 :: registry where
  "grouped1 = registry1\<lparr>rg_members := [\<lparr>mr_gid = gid1, mr_nkey = key1, mr_leaf = 0\<rparr>]\<rparr>"

lemma coded_authorize:
  "authorize (coded_ext h w) registry1 key1 = Inr \<lparr>da_user = user1, da_device = ''phone'', da_nkey = key1, da_generation = 1\<rparr>"
  "authorize (coded_ext h w) grouped1 key1 = Inr \<lparr>da_user = user1, da_device = ''phone'', da_nkey = key1, da_generation = 1\<rparr>"
proof -
  show "authorize (coded_ext h w) registry1 key1 = Inr \<lparr>da_user = user1, da_device = ''phone'', da_nkey = key1, da_generation = 1\<rparr>"
    using authorize_iff[OF coded_ext_facts(1,2)] by (simp add: registry1_def phone1_def user_enabled_def)
  moreover have "admitted_row grouped1 key1 = admitted_row registry1 key1"
    by (intro ext) (simp add: grouped1_def admitted_row_def user_enabled_def)
  then have "authorize (coded_ext h w) grouped1 key1 = authorize (coded_ext h w) registry1 key1"
    by (simp add: authorize_def grouped1_def)
  ultimately show "authorize (coded_ext h w) grouped1 key1 = Inr \<lparr>da_user = user1, da_device = ''phone'', da_nkey = key1, da_generation = 1\<rparr>"
    by simp
qed

lemmas x_authorize = coded_authorize[of "\<lambda>u. ''user''" "\<lambda>r. ''answer''", folded x_ext_def]

definition secret1 :: "secret_kind \<Rightarrow> secret_ref" where
  "secret1 k = \<lparr>sf_id = [], sf_kind = k, sf_public_key = []\<rparr>"

definition config1 :: callout_config where
  "config1 = \<lparr>cf_version = 2, cf_issuer = secret1 KindAccount, cf_encryption = secret1 KindXKey, cf_connection = secret1 KindUser,
     cf_target_account = ''EPOCHGRID'', cf_control_nkey = ''UCONTROL'', cf_authorization_ttl = 30,
     cf_development_plaintext = True, cf_operator_jwt = None\<rparr>"

definition callout1 :: callout where
  "callout1 = \<lparr>co_denials = \<lparr>dn_started = 0, dn_count = 0\<rparr>,
     co_counters = \<lparr>ct_received = 0, ct_accepted = 0, ct_denied = 0, ct_rate_limited = 0, ct_malformed = 0, ct_timeout = 0\<rparr>,
     co_issuer = ''AISSUER'', co_config = config1, co_seen = [], co_worker = None, co_ingress = rate_new 32 64 0,
     co_principals = []\<rparr>"

definition cenv1 :: callout_env where
  "cenv1 = \<lparr>ce_now = Some 5, ce_ingress = 0, ce_principal = 0, ce_denied = 0, ce_failed = 0, ce_registry = renv1,
     ce_opaque = Some store1, ce_grant = env1, ce_response = env1, ce_denial = env1, ce_failure = env1\<rparr>"

lemma cenv1_ok [simp]: "callout_env_ok cenv1" "ce_now cenv1 = Some 5"
  by (simp_all add: callout_env_ok_def cenv1_def)

lemma fresh_bucket: "snd (allow 0 (rate_new 32 64 0))" "snd (allow 0 (rate_new 4 8 0))"
proof -
  have "unat (rt_tokens (rate_new 32 64 0)) = 64000000000" "unat (rt_burst (rate_new 32 64 0)) = 64000000000"
    "unat (rt_rate (rate_new 32 64 0)) = 32" "rt_last (rate_new 32 64 0) = 0"
    "unat (rt_tokens (rate_new 4 8 0)) = 8000000000" "unat (rt_burst (rate_new 4 8 0)) = 8000000000"
    "unat (rt_rate (rate_new 4 8 0)) = 4" "rt_last (rate_new 4 8 0) = 0"
    by (simp_all add: rate_new_def)
  then show "snd (allow 0 (rate_new 32 64 0))" "snd (allow 0 (rate_new 4 8 0))"
    using arg_cong[OF allow_refines[of 0 "rate_new 32 64 0"], of snd] arg_cong[OF allow_refines[of 0 "rate_new 4 8 0"], of snd]
    by (simp_all add: bucket_allow_def refill_def abs_rate_def)
qed

lemma gid1_good: "gid_ok gid1"
  by (simp add: gid_ok_def gid1_def list_all_iff is_hex_lower_def byte_of_def)

lemma admitted1:
  assumes "authorized_groups (coded_ext h w) r key1 = Inr gids" "list_all gid_ok gids" "is_ok (authorize (coded_ext h w) r key1)" "co_principals co = []"
    "co_config co = config1" "co_worker co = None"
  shows "\<exists>co' user. admission (coded_ext h w) cenv1 r True 5 query1 co = (co', Inr user)"
proof -
  obtain a where a: "authorize (coded_ext h w) r key1 = Inr a" using assms(3) by (auto simp: is_ok_iff)
  have "map_r validate_gid gids = Inr (map (\<lambda>_. ()) gids)" using assms(2) by (induction gids) (simp_all add: validate_gid_def)
  moreover have "\<exists>co'. admit_device 0 key1 co = (co', Inr ())"
    using fresh_bucket(2) assms(4) by (auto simp: admit_device_def Let_def split: prod.splits)
  ultimately obtain co' user where d: "device_claims (coded_ext h w) cenv1 r key1 (base_claims (coded_ext h w) config1 5 query1) co = (co', Inr user)"
    using a assms(1) by (auto simp: device_claims_def cenv1_def)
  have k: "key1 \<noteq> ''NSERVER''" "key1 \<noteq> ''UCONTROL''" by (simp_all add: key1_def)
  have q: "rc_connect query1 = \<lparr>cn_nkey = key1, cn_sig = key1, cn_auth_token = None\<rparr>" "rc_nonce query1 = ''nonce''"
    by (simp_all add: query1_def)
  have f: "cf_development_plaintext config1" "cf_control_nkey config1 = ''UCONTROL''" by (simp_all add: config1_def)
  have v: "verify_with (coded_ext h w) key1 msg (as_bytes key1) = Inr ()" for msg using coded_ext_facts(3,4) by (simp add: verify_with_def)
  have "admission (coded_ext h w) cenv1 r True 5 query1 co = (co', Inr (limit_claims user))"
    using k d v by (simp add: admission_def Let_def q f assms(5,6))
  then show ?thesis by blast
qed

text \<open>The audit store after \<open>n\<close> records.\<close>

definition written :: "nat \<Rightarrow> audit_db" where
  "written n = audit0\<lparr>ad_next_sequence := n + 1, ad_events_count := n, ad_bytes := 2 * n,
     ad_events := map (\<lambda>i. (i, ''{}'')) [1..<n + 1]\<rparr>"

lemma written_append: "n < 100 \<Longrightarrow> append_operation (coded_ext h w) env1 ev False store1 (written n) = Inr (n + 1, written (n + 1))"
  by (auto simp: append_operation_def audit_info_def written_def audit0_def env1_def reference_try_from_def insert_event_def insert_row_def
      I64_MAX_def MAX_EVENT_BYTES_def event_limit_def byte_limit_def MAX_EVENTS_def MAX_BYTES_def RESERVE_EVENTS_def RESERVE_BYTES_def
      Let_def)

lemma written_correlate:
  assumes "rg_audit r = written n" "rg_capacity r = default_capacity" "n < 100"
  shows "correlate (coded_ext h w) env1 small_pages ev store1 r = (r\<lparr>rg_audit := written (n + 1)\<rparr>, Inr ())"
  using assms by (simp add: correlate_def audit_correlated_def written_append audit_pager_def default_database)

lemma registry1_audit: "rg_audit registry1 = written 0" "rg_capacity registry1 = default_capacity"
  by (simp_all add: registry1_def written_def audit0_def)

lemma q_utf8: "from_utf8 (as_bytes ''q'') = Some ''q''"
proof -
  have "utf8_valid (as_bytes ''q'')" by (simp add: utf8_valid_def as_bytes_def utf8_prefix_def utf8_width_def)
  then show ?thesis by (simp add: from_utf8_def)
qed

lemma request1: "request_of (coded_ext h w) ''XSERVER'' (as_bytes ''q'') = Some query1"
  by (simp add: request_of_def q_utf8)

lemmas request_x = request1[of "\<lambda>u. ''user''" "\<lambda>r. ''answer''", folded x_ext_def]

lemma validate1: "co_config co = config1 \<Longrightarrow> co_issuer co = ''AISSUER'' \<Longrightarrow> callout_validate (coded_ext h w) co ''XSERVER'' 5 query1 = Inr 40"
  by (simp add: callout_validate_def query1_def config1_def ensure_key_type_def)

lemma groups1: "authorized_groups (coded_ext h w) registry1 key1 = Inr []" "authorized_groups (coded_ext h w) grouped1 key1 = Inr [gid1]"
  by (simp_all add: authorized_groups_def coded_authorize) (simp_all add: registry1_def grouped1_def)

lemma concluded1:
  assumes "\<And>u response. rs_jwt response = h u \<Longrightarrow> length (w response) \<le> 100" "ca_registry s = registry1" "co_principals (ca_callout s) = []" "co_config (ca_callout s) = config1" "co_worker (ca_callout s) = None"
  shows "\<exists>s' response user. rs_jwt response = h user \<and>
    conclude (coded_ext h w) cenv1 small_pages ''XSERVER'' True 5 40 query1 s = (s', Inr (as_bytes (w response)))"
proof -
  obtain co user where a: "admission (coded_ext h w) cenv1 registry1 True 5 query1 (ca_callout s) = (co, Inr user)"
    using admitted1[OF groups1(1) _ _ assms(3-5), of h w] coded_authorize(1)[of h w] by (auto simp: is_ok_iff)
  have co: "co_config co = config1" "co_worker co = None"
    using admission_le[of None "ca_callout s" "coded_ext h w" cenv1 registry1 True 5 query1] a assms(4,5) by (simp_all add: callout_le_def)
  have k: "cn_nkey (rc_connect query1) = key1" "key1 \<noteq> ''UCONTROL''" by (simp_all add: query1_def key1_def)
  have e: "ce_opaque cenv1 = Some store1" "ce_grant cenv1 = env1" "ce_response cenv1 = env1" by (simp_all add: cenv1_def)
  have g: "audit_grant (coded_ext h w) env1 small_pages False ev store1 t = (t\<lparr>ca_registry := (ca_registry t)\<lparr>rg_audit := written (n + 1)\<rparr>\<rparr>, Inr ())"
    if "rg_audit (ca_registry t) = written n" "rg_capacity (ca_registry t) = default_capacity" "n < 100" for t n ev
    using written_correlate[OF that] by (simp add: audit_grant_def)
  let ?s = "enter AdmissionAudit (s\<lparr>ca_callout := co\<rparr>)"
  let ?t = "enter ResponseSigning (?s\<lparr>ca_registry := registry1\<lparr>rg_audit := written 1\<rparr>\<rparr>)"
  obtain response ev where an: "answer (coded_ext h w) cenv1 small_pages query1 40 store1 False (Inr user) ?s =
      (?t\<lparr>ca_callout := count_up ct_accepted_update co\<rparr>, Inr (response, Some ev))"
    and r: "rs_jwt response = h user"
    using g[of ?s 0] assms(2) registry1_audit by (simp add: answer_def Let_def e enter_def)
  have "\<exists>s'. seal_response (coded_ext h w) cenv1 small_pages ''XSERVER'' store1 False response (Some ev)
      (?t\<lparr>ca_callout := count_up ct_accepted_update co\<rparr>) = (s', Inr (as_bytes (w response)))"
    using g[of _ 1] registry1_audit assms(1)[OF r] by (simp add: seal_response_def Let_def e enter_def MAX_WIRE_def)
  with an have "\<exists>s'. conclude (coded_ext h w) cenv1 small_pages ''XSERVER'' True 5 40 query1 s = (s', Inr (as_bytes (w response)))"
    using a assms(2) by (simp add: conclude_def Let_def co k e config1_def)
  with r show ?thesis by blast
qed

lemma responded_with:
  assumes "\<And>u response. rs_jwt response = h u \<Longrightarrow> length (w response) \<le> 100"
  shows "\<exists>s response user. rs_jwt response = h user \<and>
    respond (coded_ext h w) cenv1 small_pages ''XSERVER'' (as_bytes ''q'') True (callout1, registry1) = (s, Inr (as_bytes (w response)))"
proof -
  obtain b where b: "allow 0 (rate_new 32 64 0) = (b, True)" using fresh_bucket(1) by (cases "allow 0 (rate_new 32 64 0)") auto
  let ?s = "\<lparr>ca_callout = (count_up ct_received_update callout1)\<lparr>co_ingress := b\<rparr>, ca_registry = registry1, ca_stage = Ingress\<rparr>"
  have d: "decode_request (coded_ext h w) ''XSERVER'' (as_bytes ''q'') ?s = (enter RequestDecode (enter Decryption ?s), Inr query1)"
    by (simp add: decode_request_def q_utf8 Let_def)
  obtain s where c: "check_request (coded_ext h w) cenv1 ''XSERVER'' query1 (enter RequestDecode (enter Decryption ?s)) = (s, Inr (5, 40))"
      "ca_registry s = registry1" "co_principals (ca_callout s) = []" "co_config (ca_callout s) = config1" "co_worker (ca_callout s) = None"
    by (simp add: check_request_def Let_def clock_def enter_def validate1 callout1_def count_up_def replay_check_def on_callout_def)
  obtain s' response user where r: "rs_jwt response = h user"
    and "conclude (coded_ext h w) cenv1 small_pages ''XSERVER'' True 5 40 query1 s = (s', Inr (as_bytes (w response)))"
    using concluded1[where h = h and w = w, OF _ c(2-5)] assms by blast
  with b c d have "respond_inner (coded_ext h w) cenv1 small_pages ''XSERVER'' (as_bytes ''q'') True
      \<lparr>ca_callout = count_up ct_received_update callout1, ca_registry = registry1, ca_stage = Ingress\<rparr> = (s', Inr (as_bytes (w response)))"
    by (simp add: respond_inner_def Let_def MAX_WIRE_def cenv1_def callout1_def count_up_def as_bytes_def)
  then have "\<exists>s. respond (coded_ext h w) cenv1 small_pages ''XSERVER'' (as_bytes ''q'') True (callout1, registry1) =
      (s, Inr (as_bytes (w response)))"
    by (simp add: respond_def Let_def)
  with r show ?thesis by blast
qed

lemma responded1:
  "\<exists>s sealed. respond x_ext cenv1 small_pages ''XSERVER'' (as_bytes ''q'') True (callout1, registry1) = (s, Inr sealed)"
  using responded_with[of "\<lambda>u. ''user''" "\<lambda>r. ''answer''"] by (auto simp: x_ext_def)

section \<open>What an answer grants\<close>

lemma role_permissions:
  assumes "admission E env r ready now q co = (co', Inr user)"
  defines "key \<equiv> cn_nkey (rc_connect q)" and "inbox \<equiv> ''_INBOX.'' @ cn_nkey (rc_connect q) @ ''.>''" and "control \<equiv> cf_control_nkey (co_config co)" and "ttl \<equiv> int (cf_authorization_ttl (co_config co))"
  shows "case cn_auth_token (rc_connect q) of
      Some token \<Rightarrow> is_ok (enrollment_admission E (ce_registry env) r token key) \<and>
        permissions user = ([ENROLL], [inbox], Some (now + ttl))
    | None \<Rightarrow>
        if co_worker co = Some key then permissions user = ([''_INBOX.>''], [inbox, ''epochgrid.v1.identity.*'', ''epochgrid.v1.channel.*''], Some (now + 60))
        else if key = control \<and> co_worker co = None
        then permissions user = (control_publish, [inbox, ''epochgrid.v1.identity.*'', ''epochgrid.v1.channel.*''], Some (now + 60))
        else if key = control then permissions user = (authority_publish, [inbox], Some (now + 60))
        else \<exists>a gids. authorize E r key = Inr a \<and> authorized_groups E r key = Inr gids \<and>
          permissions user = (device_publish key gids, device_subscribe key a gids, Some (now + ttl))"
  using assms(1) unfolding key_def inbox_def control_def ttl_def permissions_def
  by (cases rule: admission_roles) (auto simp: inbox_of_def worker_publish_def worker_subscribe_def)

text \<open>C9: Every answered callout request was decrypted for its server, its claims were valid and current, and the
  sealed response is addressed to that server. It either denies admission or carries a user token for
  a connection that proved possession of its key; then anything but the control service and its worker is admitted
  only while the service is reconciled, and the publish permissions, the subscribe permissions and the expiry
  of the token are exactly those of the role of the connection: enrollment with an admitted token, the
  bound worker, the control service, or an authorized device with its current groups. Enrollment and devices
  get the configured lifetime, the worker and the control service a minute.\<close>

theorem callout_grants:
  assumes "callout_env_ok env" "respond E env P x encrypted ready (co, r) = ((co', r'), Inr sealed)"
  shows "\<exists>q now expires response encoded. request_of E x encrypted = Some q \<and> ce_now env = Some now \<and>
    callout_validate E co x now q = Inr expires \<and> co_response_jwt E response = Some encoded \<and>
    co_seal E (as_bytes encoded) x = Some sealed \<and> rs_aud response = Some (rc_iss q) \<and>
    (rs_jwt response = rs_jwt (co_new_response E (rc_user_nkey q)) \<and> rs_error response = ''EpochGrid admission denied'' \<or>
     (\<exists>user sig key inbox control ttl. key = cn_nkey (rc_connect q) \<and> inbox = ''_INBOX.'' @ key @ ''.>'' \<and>
        control = cf_control_nkey (co_config co) \<and> ttl = int (cf_authorization_ttl (co_config co)) \<and>
        co_user_jwt E user = Some (rs_jwt response) \<and>
        co_b64 E (cn_sig (rc_connect q)) = Some sig \<and> nkey_verify E key (as_bytes (rc_nonce q)) sig \<and>
        (ready \<or> key = control \<or> co_worker co = Some key) \<and>
        (case cn_auth_token (rc_connect q) of
           Some token \<Rightarrow> is_ok (enrollment_admission E (ce_registry env) r token key) \<and>
             permissions user = ([ENROLL], [inbox], Some (now + ttl))
         | None \<Rightarrow>
             if co_worker co = Some key
             then permissions user = ([''_INBOX.>''], [inbox, ''epochgrid.v1.identity.*'', ''epochgrid.v1.channel.*''], Some (now + 60))
             else if key = control \<and> co_worker co = None
             then permissions user = (control_publish, [inbox, ''epochgrid.v1.identity.*'', ''epochgrid.v1.channel.*''], Some (now + 60))
             else if key = control then permissions user = (authority_publish, [inbox], Some (now + 60))
             else \<exists>a gids. authorize E r key = Inr a \<and> authorized_groups E r key = Inr gids \<and>
               permissions user = (device_publish key gids, device_subscribe key a gids, Some (now + ttl)))))"
proof -
  obtain q now expires co1 co2 result response encoded where a: "request_of E x encrypted = Some q" "ce_now env = Some now"
      "callout_validate E co x now q = Inr expires" "co_config co1 = co_config co" "co_worker co1 = co_worker co"
      "co_response_jwt E response = Some encoded" "co_seal E (as_bytes encoded) x = Some sealed" "rs_aud response = Some (rc_iss q)"
    and ad: "admission E env r ready now q co1 = (co2, result)"
    and res: "case result of Inr user \<Rightarrow> co_user_jwt E user = Some (rs_jwt response)
     | Inl _ \<Rightarrow> rs_jwt response = rs_jwt (co_new_response E (rc_user_nkey q)) \<and> rs_error response = ''EpochGrid admission denied''"
    using respond_ok[OF assms(2,1)] by metis
  show ?thesis
  proof (cases result)
    case (Inl e)
    with a res show ?thesis by auto
  next
    case (Inr user)
    note ad = ad[unfolded Inr] and j = res[unfolded Inr, simplified]
    note g = admission_guards[OF ad, unfolded a(4,5)]
    obtain sig where "co_b64 E (cn_sig (rc_connect q)) = Some sig" "nkey_verify E (cn_nkey (rc_connect q)) (as_bytes (rc_nonce q)) sig"
      using g(3) by blast
    note facts = this role_permissions[OF ad, unfolded a(4,5)] j g(2)
    show ?thesis
      by (rule exI[of _ q], rule exI[of _ now], rule exI[of _ expires], rule exI[of _ response], rule exI[of _ encoded])
        (intro conjI a, rule disjI2, rule exI[of _ user], rule exI[of _ sig], intro exI conjI, (rule refl facts)+)
  qed
qed

text \<open>A token encoding that says whether the permissions are those of the sample device, and a response that shows its token.\<close>

definition shown :: "user_claims \<Rightarrow> string" where
  "shown user = (if permissions user = (device_publish key1 [],
     device_subscribe key1 \<lparr>da_user = user1, da_device = ''phone'', da_nkey = key1, da_generation = 1\<rparr> [], Some 35)
     then ''device'' else ''other'')"

theorem callout_grants_witness:
  "\<exists>s. respond (coded_ext shown rs_jwt) cenv1 small_pages ''XSERVER'' (as_bytes ''q'') True (callout1, registry1) = (s, Inr (as_bytes ''device''))"
proof -
  have "\<exists>t (response :: response_claims) user. rs_jwt response = shown user \<and>
      respond (coded_ext shown rs_jwt) cenv1 small_pages ''XSERVER'' (as_bytes ''q'') True (callout1, registry1) =
        (t, Inr (as_bytes (rs_jwt response)))"
    by (rule responded_with[of shown rs_jwt]) (simp add: shown_def)
  then obtain t and response :: response_claims and user where s: "rs_jwt response = shown user"
    and t: "respond (coded_ext shown rs_jwt) cenv1 small_pages ''XSERVER'' (as_bytes ''q'') True (callout1, registry1) =
      (t, Inr (as_bytes (rs_jwt response)))" by blast
  obtain co' r' where r: "respond (coded_ext shown rs_jwt) cenv1 small_pages ''XSERVER'' (as_bytes ''q'') True (callout1, registry1) =
      ((co', r'), Inr (as_bytes (rs_jwt response)))" using t by (cases t) simp
  have k: "cn_nkey (rc_connect query1) = key1" "cn_auth_token (rc_connect query1) = None"
    "key1 \<noteq> cf_control_nkey (co_config callout1)" "co_worker callout1 \<noteq> Some key1" "cf_authorization_ttl (co_config callout1) = 30"
    by (simp_all add: query1_def key1_def callout1_def config1_def)
  have b: "as_bytes a = as_bytes c \<longleftrightarrow> a = c" for a c by (metis text_of_as_bytes)
  from callout_grants[OF cenv1_ok(1) r, simplified k request1 cenv1_ok(2) coded_ext_simps option.inject b ex_simps]
  have "rs_jwt response = [] \<or> (\<exists>user. shown user = rs_jwt response \<and> permissions user = (device_publish key1 [],
      device_subscribe key1 \<lparr>da_user = user1, da_device = ''phone'', da_nkey = key1, da_generation = 1\<rparr> [], Some 35))"
    using k groups1(1)[of shown rs_jwt] coded_authorize(1)[of shown rs_jwt] by (auto simp: request1)
  moreover have "rs_jwt response \<noteq> []" using s by (simp add: shown_def)
  ultimately have "rs_jwt response = ''device''" by (auto simp: shown_def dest: sym)
  with r show ?thesis by auto
qed

text \<open>C28: The grants of an admitted device follow its current group memberships exactly: it may publish and
  subscribe to the message, handshake and ephemeral subjects of a group if and only if the registry
  lists it as a member of that group, and it may not administer streams or write key-value buckets.\<close>

theorem device_grant_exact:
  assumes "admission E env r ready now q co = (co', Inr user)" "cn_auth_token (rc_connect q) = None"
    "cn_nkey (rc_connect q) = key" "key \<noteq> cf_control_nkey (co_config co)" "co_worker co \<noteq> Some key"
    "gid_ok gid" "kind \<in> {''message'', ''handshake'', ''ephemeral''}"
  shows "(permits (uc_publish user) (''epochgrid.v1.group.'' @ gid @ ''.'' @ kind) \<longleftrightarrow> member_of r gid key) \<and>
    (permits (uc_subscribe user) (''epochgrid.v1.group.'' @ gid @ ''.'' @ kind) \<longleftrightarrow> member_of r gid key) \<and>
    \<not> permits (uc_publish user) (''$JS.API.STREAM.'' @ s) \<and> \<not> permits (uc_publish user) (''$KV.'' @ s)"
  using assms(1)
proof (cases rule: admission_roles)
  case (device a gids)
  then have "set gids = {g. member_of r g key}"
    using assms(3) by (auto simp: authorized_groups_def result_simps member_of_def list_ex_iff)
  then show ?thesis
    using device_publish_permits[OF device(5) assms(6,7), of key] device_subscribe_permits[OF device(5) assms(6,7), of key a]
      device_no_admin[OF device(5), of key s] device(6,7) assms(3) by simp
qed (use assms in auto)

theorem device_grant_exact_witness:
  "\<exists>co' user. admission x_ext cenv1 grouped1 True 5 query1 callout1 = (co', Inr user) \<and>
    permits (uc_publish user) (''epochgrid.v1.group.'' @ gid1 @ ''.'' @ ''message'')"
proof -
  obtain co' user where a: "admission x_ext cenv1 grouped1 True 5 query1 callout1 = (co', Inr user)"
    using admitted1[OF groups1(2), of "\<lambda>u. ''user''" "\<lambda>r. ''answer''" callout1] x_authorize gid1_good
    by (auto simp: is_ok_iff callout1_def x_ext_def)
  have "member_of grouped1 gid1 key1" by (simp add: member_of_def grouped1_def)
  moreover have "key1 \<noteq> cf_control_nkey (co_config callout1)" "co_worker callout1 \<noteq> Some key1"
    "cn_nkey (rc_connect query1) = key1" "cn_auth_token (rc_connect query1) = None"
    by (simp_all add: query1_def key1_def callout1_def config1_def)
  ultimately show ?thesis using device_grant_exact[OF a _ _ _ _ gid1_good, of key1 "''message''"] a by blast
qed

text \<open>C13: A connection is answered once. After an answer to a request, whatever requests are answered or refused in
  between and in whatever order, a request of the same server for the same connection key is refused
  as long as the first one has not expired; and the table of connections never holds more than 4096.\<close>

theorem connection_once:
  assumes "callout_inv E (co, r)" "respond E env P x encrypted ready (co, r) = (s1, Inr sealed)" "request_of E x encrypted = Some q"
    "rc_exp q = Some expires" "list_all (\<lambda>i. callout_env_ok (fst i) \<and> (\<forall>t. ce_now (fst i) = Some t \<longrightarrow> t < expires)) inputs"
    "foldl (callout_step E P) s1 inputs = s2" "request_of E x' encrypted' = Some q'" "connection_key q' = connection_key q"
    "ce_now env' = Some t" "t < expires" "callout_env_ok env" "callout_env_ok env'"
  shows "(\<forall>sealed'. snd (respond E env' P x' encrypted' ready' s2) \<noteq> Inr sealed') \<and> length (co_seen (fst s2)) \<le> 4096"
proof -
  obtain co1 r1 where s1: "s1 = (co1, r1)" by (cases s1)
  have v: "rc_exp q = Some e" if "callout_validate E co x now q = Inr e" for now e
    using that by (auto simp: callout_validate_def ensure_key_type_def result_simps)
  have "(connection_key q, expires) \<in> set (co_seen co1)"
    using respond_ok[OF assms(2)[unfolded s1] assms(11)] assms(3,4) v by (metis option.inject)
  then have seen: "(connection_key q, expires) \<in> set (co_seen (fst s2))"
    using seen_kept[OF assms(5), of "connection_key q" s1 E P] assms(6) s1 by simp
  have "snd (respond E env' P x' encrypted' ready' s2) \<noteq> Inr sealed'" for sealed'
  proof
    assume n: "snd (respond E env' P x' encrypted' ready' s2) = Inr sealed'"
    obtain co2 r2 where s2: "s2 = (co2, r2)" by (cases s2)
    obtain co3 r3 where "respond E env' P x' encrypted' ready' (co2, r2) = ((co3, r3), Inr sealed')"
      using n s2 by (metis prod.collapse)
    from respond_ok[OF this assms(12)] have "expires \<le> t" using seen s2 assms(7-9) by (metis fst_conv option.inject)
    then show False using assms(10) by simp
  qed
  moreover have "callout_inv E s2"
  proof -
    have "fst (respond E env P x encrypted ready (co, r)) = callout_step E P (co, r) (env, x, encrypted, ready)"
      by (simp add: callout_step_def)
    then have "callout_inv E s1" using callout_machine.inv_step[OF assms(1), of "(env, x, encrypted, ready)" P] assms(2,11) by simp
    then show ?thesis using callout_machine.run_inv[of E s1 inputs P] assms(5,6) by (auto simp: list_all_iff)
  qed
  ultimately show ?thesis by (auto simp: callout_inv_def callout_ok_def)
qed

theorem connection_once_witness:
  "\<exists>s1 sealed. respond x_ext cenv1 small_pages ''XSERVER'' (as_bytes ''q'') True (callout1, registry1) = (s1, Inr sealed) \<and>
    (\<forall>sealed'. snd (respond x_ext cenv1 small_pages ''XSERVER'' (as_bytes ''q'') True
      (foldl (callout_step x_ext small_pages) s1 [(cenv1, ''XSERVER'', [], False)])) \<noteq> Inr sealed')"
proof -
  obtain s1 sealed where r: "respond x_ext cenv1 small_pages ''XSERVER'' (as_bytes ''q'') True (callout1, registry1) = (s1, Inr sealed)"
    using responded1 by blast
  have "callout_inv x_ext (callout1, registry1)"
    using x_ext_facts(1) by (simp add: callout_inv_def callout_ok_def callout1_def)
  moreover have "rc_exp query1 = Some 40" by (simp add: query1_def)
  ultimately show ?thesis
    using connection_once[OF _ r request_x _ _ refl request_x refl cenv1_ok(2), of 40 "[(cenv1, ''XSERVER'', [], False)]" True] r by simp
qed

section \<open>Revoked devices\<close>

lemma reg_le_keys:
  assumes "reg_le r r'"
  shows "dv_nkey ` set (rg_devices r) \<subseteq> dv_nkey ` set (rg_devices r')"
proof
  fix k assume "k \<in> dv_nkey ` set (rg_devices r)"
  then obtain d where "d \<in> set (rg_devices r)" "dv_nkey d = k" by blast
  then obtain d' where "d' \<in> set (rg_devices r')" "dv_nkey d' = k"
    using assms by (auto simp: reg_le_def table_le_def device_le_def)
  then show "k \<in> dv_nkey ` set (rg_devices r')" by blast
qed

lemma retired_not_enrolled:
  assumes "retired r key" "key \<in> dv_nkey ` set (rg_devices r)" "rp_nats_public_key (dr_payload registration) = key"
  shows "\<not> is_ok (enroll E env P token registration r)"
proof
  assume "is_ok (enroll E env P token registration r)"
  then obtain r' where e: "enroll E env P token registration r = Inr r'" by (auto simp: is_ok_iff)
  have "\<not> is_ok (enroll_retry E env P key encoded previous r)" for encoded previous
    using assms(1) by (auto simp: enroll_retry_def is_ok_iff result_simps retired_def dest!: select_one_Some)
  moreover have "\<not> is_ok (enroll_new E env P uid key device digest encoded r)" for uid device digest encoded
    using assms(2) by (auto simp: enroll_new_def is_ok_iff result_simps Let_def insert_device_def insert_row_def)
  ultimately show False
    using e assms(3) by (auto simp: enroll_def Let_def result_simps is_ok_iff split: option.splits)
qed

text \<open>C8: A revoked device is locked out of the broker. After \<open>revoke\<close> succeeded for an enrolled key and whatever the
  registry did since, the callout grants a connection with this key, if anything, the enrollment subject
  alone, and only with a valid unused token; and no enrollment with this key succeeds.\<close>

theorem revoked_locked_out:
  assumes "reg_inv E r" "env_ok (re_audit env)" "key \<in> dv_nkey ` set (rg_devices r)"
    "revoke E env P key r = Inr r1" "list_all registry_env_ok ops" "foldl (registry_step E P) r1 ops = r2"
    "key \<noteq> cf_control_nkey (co_config co)" "co_worker co \<noteq> Some key"
  shows "(\<forall>cenv ready now q co' user. admission E cenv r2 ready now q co = (co', Inr user) \<and> cn_nkey (rc_connect q) = key \<longrightarrow>
      uc_publish user = [ENROLL] \<and> (\<exists>token. cn_auth_token (rc_connect q) = Some token \<and>
        is_ok (authenticate E (re_now (ce_registry cenv)) r2 token))) \<and>
    (\<forall>eenv token registration. rp_nats_public_key (dr_payload registration) = key \<longrightarrow>
      \<not> is_ok (enroll E eenv P token registration r2))"
proof -
  have g: "reg_good E r r1" by (rule revoke_good[OF assms(4,1,2)])
  then have i1: "reg_inv E r1" and le1: "reg_le r r1" by (auto simp: reg_good_def)
  have i2: "reg_inv E r2" and le2: "reg_le r1 r2"
    using registry_machine.run_inv[OF i1 assms(5), of P] registry_machine.run_le[OF i1 assms(5), of P] assms(6) by auto
  have k1: "key \<in> dv_nkey ` set (rg_devices r1)" and k2: "key \<in> dv_nkey ` set (rg_devices r2)"
    using reg_le_keys[OF le1] reg_le_keys[OF le2] assms(3) by blast+
  have ret: "retired r2 key" using retired_le[OF le2 revoke_retires[OF assms(4)] k1 i2] .
  have token: "is_ok (authenticate E (re_now env) r2 token)" if "is_ok (enrollment_admission E env r2 token key)" for env token
    using that ret by (auto simp: enrollment_admission_def is_ok_iff result_simps retired_def list_ex_iff split: sum.splits)
  have "uc_publish user = [ENROLL] \<and> (\<exists>token. cn_auth_token (rc_connect q) = Some token \<and>
      is_ok (authenticate E (re_now (ce_registry cenv)) r2 token))"
    if a: "admission E cenv r2 ready now q co = (co', Inr user)" "cn_nkey (rc_connect q) = key" for cenv ready now q co' user
    using a(1)
  proof (cases rule: admission_roles)
    case (enrolling t)
    with token a(2) show ?thesis by auto
  qed (use assms(7,8) a(2) retired_not_authorized[OF ret, of E] in auto)
  then show ?thesis using retired_not_enrolled[OF ret k2] by blast
qed

theorem revoked_locked_out_witness:
  "\<exists>r1. revoke x_ext renv1 small_pages key1 registry1 = Inr r1 \<and>
    \<not> is_ok (enroll x_ext renv1 small_pages token1 reg1 (registry_step x_ext small_pages r1 (Activate renv1 key1)))"
proof -
  have k: "key1 \<in> dv_nkey ` set (rg_devices registry1)" by (simp add: registry1_def phone1_def)
  have "rg_capacity (revoke_tables key1 registry1) = default_capacity"
    by (simp add: revoke_tables_fields registry1_def)
  then obtain r1 where r1: "revoke x_ext renv1 small_pages key1 registry1 = Inr r1"
    by (simp add: revoke_def registry1_def phone1_def repair_event_def Let_def)
  have c: "key1 \<noteq> cf_control_nkey (co_config callout1)" "co_worker callout1 \<noteq> Some key1"
    by (simp_all add: key1_def callout1_def config1_def)
  have f: "foldl (registry_step x_ext small_pages) r1 [Activate renv1 key1] =
      registry_step x_ext small_pages r1 (Activate renv1 key1)" by simp
  have "rp_nats_public_key (dr_payload reg1) = key1" by (simp add: reg1_def payload1_def)
  with revoked_locked_out[OF x_ext_facts(1) renv1_ok k r1 _ f c] r1 show ?thesis by (simp add: renv1_ok)
qed

section \<open>Backend roles\<close>

text \<open>The runtime roles hold no administrative capability. Whatever the stream, consumer or key is named, the
  authority may not create, update, delete or purge a stream, not pull messages of a consumer, not
  read messages of the chat and mailbox streams, and write only the identity and transparency
  buckets; the worker publishes to reply inboxes only and cannot subscribe to group traffic.\<close>

theorem backend_roles:
  "(\<forall>op stream. op \<in> {''CREATE'', ''UPDATE'', ''DELETE'', ''PURGE''} \<longrightarrow>
     \<not> permits authority_publish (''$JS.API.STREAM.'' @ op @ ''.'' @ stream)) \<and>
   (\<forall>s. \<not> permits authority_publish (''$JS.API.CONSUMER.MSG.NEXT.'' @ s)) \<and>
   (\<forall>stream s. stream \<in> {''CHAT'', ''MAILBOX''} \<longrightarrow> \<not> permits authority_publish (''$JS.API.STREAM.MSG.GET.'' @ stream) \<and>
      \<not> permits authority_publish (''$JS.API.DIRECT.GET.'' @ stream) \<and>
      \<not> permits authority_publish (''$JS.API.DIRECT.GET.'' @ stream @ ''.'' @ s)) \<and>
   (\<forall>bucket key. permits authority_publish (''$KV.'' @ bucket @ ''.'' @ key) \<and> CHR ''.'' \<notin> set bucket \<longrightarrow>
      bucket \<in> {''IDENTITIES'', ''TRANSPARENCY''}) \<and>
   (\<forall>s. permits worker_publish s \<longrightarrow> hd (split_on CHR ''.'' s) = ''_INBOX'') \<and>
   (\<forall>s. \<not> permits worker_subscribe (''epochgrid.v1.group.'' @ s))"
proof (intro conjI)
  show "\<forall>op stream. op \<in> {''CREATE'', ''UPDATE'', ''DELETE'', ''PURGE''} \<longrightarrow>
     \<not> permits authority_publish (''$JS.API.STREAM.'' @ op @ ''.'' @ stream)"
    by (intro allI impI) (rule authority_no_admin)
  show "\<forall>s. \<not> permits authority_publish (''$JS.API.CONSUMER.MSG.NEXT.'' @ s)"
    by (intro allI) (rule authority_no_reads(1))
  show "\<forall>stream s. stream \<in> {''CHAT'', ''MAILBOX''} \<longrightarrow> \<not> permits authority_publish (''$JS.API.STREAM.MSG.GET.'' @ stream) \<and>
      \<not> permits authority_publish (''$JS.API.DIRECT.GET.'' @ stream) \<and>
      \<not> permits authority_publish (''$JS.API.DIRECT.GET.'' @ stream @ ''.'' @ s)"
    by (intro allI impI conjI; rule authority_no_reads(2-4); assumption)
  show "\<forall>bucket key. permits authority_publish (''$KV.'' @ bucket @ ''.'' @ key) \<and> CHR ''.'' \<notin> set bucket \<longrightarrow>
      bucket \<in> {''IDENTITIES'', ''TRANSPARENCY''}"
    by (intro allI impI, elim conjE) (rule authority_buckets)
  show "\<forall>s. permits worker_publish s \<longrightarrow> hd (split_on CHR ''.'' s) = ''_INBOX''"
    by (intro allI impI) (rule worker_publish_inbox)
  show "\<forall>s. \<not> permits worker_subscribe (''epochgrid.v1.group.'' @ s)"
    by (simp add: worker_subscribe_def)
qed

theorem backend_roles_witness:
  "\<not> permits authority_publish ''$JS.API.STREAM.PURGE.CHAT'' \<and> \<not> permits authority_publish ''$JS.API.STREAM.MSG.GET.MAILBOX''"
proof -
  have "\<not> permits authority_publish (''$JS.API.STREAM.'' @ ''PURGE'' @ ''.'' @ ''CHAT'')"
    "\<not> permits authority_publish (''$JS.API.STREAM.MSG.GET.'' @ ''MAILBOX'')"
    using backend_roles by blast+
  then show ?thesis by simp
qed

end
