(* ===== verification/Runtime.thy ===== *)
theory Runtime
  imports Callout
begin

text \<open>
  The operational state of the service (\<open>epochgrid-service/src/diagnostics.rs\<close>): the admission gate,
  the lease of the control worker, the bounded queue of observations for the audit store, and the
  report a local client reads (\<open>epochgrid-core/src/diagnostics.rs\<close>). Instants are nanoseconds of the
  monotonic clock; the locks are never poisoned.
\<close>

section \<open>Reports\<close>

definition MAX_REPORT :: nat where
  "MAX_REPORT = 16 * 1024"

definition STALE_MS :: nat where
  "STALE_MS = 30000"

datatype role = RoleAuthority | RoleControl

datatype readiness = Ready | NotReady | ReadinessUnknown

datatype report_reason = ConfigurationInvalid | AuthorityUnavailable | ObservationTimeout | UnsupportedResponse
  | ReconciliationPending | WorkerAbsent | WorkerLeaseExpired | LeaseUnavailable | AuditUnavailable

datatype availability = Current | Stale | Unavailable

datatype connection = Connected | Disconnected | Pending

record capacity_observation =
  cb_availability :: availability
  cb_age_ms :: "nat option"
  cb_usage :: "usage option"
  cb_collection_ms :: "nat option"

definition capacity_unavailable :: capacity_observation where
  "capacity_unavailable = \<lparr>cb_availability = Unavailable, cb_age_ms = None, cb_usage = None, cb_collection_ms = None\<rparr>"

record audit_health =
  ah_events :: nat
  ah_bytes :: nat
  ah_admission_capacity :: bool
  ah_known_coverage_gaps :: bool
  ah_unresolved_effects :: nat
  ah_observation_loss :: nat
  ah_age_ms :: nat

record observations =
  ob_audit :: "audit_health option"
  ob_reconciled :: bool
  ob_worker_live :: bool
  ob_lease_age_ms :: "nat option"
  ob_lease_limit_ms :: nat
  ob_auth_requests :: counters
  ob_control_requests :: counters
  ob_ipc_disconnects :: nat
  ob_reconciliation_success :: nat
  ob_reconciliation_failure :: nat
  ob_reconciliation_age_ms :: "nat option"
  ob_queue_used :: nat
  ob_queue_limit :: nat
  ob_auth_connection :: "connection option"
  ob_control_connection :: "connection option"
  ob_permission_denied :: bool
  ob_capacity :: "capacity_observation option"

record coverage =
  cv_broker_resources :: bool
  cv_worker_network :: bool
  cv_keyring :: bool
  cv_physical_capacity :: bool
  cv_audit_trail :: bool

definition no_coverage :: coverage where
  "no_coverage = \<lparr>cv_broker_resources = False, cv_worker_network = False, cv_keyring = False, cv_physical_capacity = False,
     cv_audit_trail = False\<rparr>"

record report =
  rp_version :: nat
  rp_role :: role
  rp_readiness :: readiness
  rp_reasons :: "report_reason list"
  rp_instance :: "string option"
  rp_uptime_ms :: "nat option"
  rp_observations :: "observations option"
  rp_coverage :: coverage

definition report_unknown :: "role \<Rightarrow> report_reason \<Rightarrow> report" where
  "report_unknown r why = \<lparr>rp_version = 1, rp_role = r, rp_readiness = ReadinessUnknown, rp_reasons = [why],
     rp_instance = None, rp_uptime_ms = None, rp_observations = None, rp_coverage = no_coverage\<rparr>"

definition exit_code :: "report \<Rightarrow> int" where
  "exit_code r = (case rp_readiness r of Ready \<Rightarrow> 0 | NotReady \<Rightarrow> 1 | ReadinessUnknown \<Rightarrow> 2)"

text \<open>\<open>Report::parse\<close>; \<open>un_json\<close> is \<open>serde_json::from_slice\<close>.\<close>

definition expected_readiness :: "observations \<Rightarrow> readiness" where
  "expected_readiness obs =
     (if ob_reconciled obs \<and> ob_worker_live obs \<and>
         (case ob_audit obs of None \<Rightarrow> True | Some a \<Rightarrow> ah_admission_capacity a \<and> ah_age_ms a \<le> STALE_MS)
      then Ready else NotReady)"

definition report_parse :: "(bytes \<Rightarrow> report option) \<Rightarrow> bytes \<Rightarrow> role \<Rightarrow> report result" where
  "report_parse un_json bs r =
     ensure (length bs \<le> MAX_REPORT) ''diagnostic response too large''
     (bind_r (or_err (un_json bs) (Extern ''serde_json'')) (\<lambda>rep.
      ensure (rp_version rep = 1 \<and> rp_role rep = r) ''unsupported diagnostic response''
      (ensure (length (rp_reasons rep) \<le> 8 \<and> rp_coverage rep = no_coverage) ''invalid diagnostic coverage''
      (case rp_observations rep of
         Some obs \<Rightarrow>
           bind_r (or_err (rp_instance rep) (Anyhow ''missing instance'')) (\<lambda>instance_id.
           ensure (length instance_id = 32 \<and> list_all (\<lambda>ch. is_hex_lower ch \<or> is_hex_upper ch) instance_id \<and>
               rp_uptime_ms rep \<noteq> None) ''invalid runtime instance''
           (ensure (r \<noteq> RoleControl \<or> ob_capacity obs = None) ''invalid control view''
           (ensure (ob_queue_limit obs = 1 \<and> ob_queue_used obs \<le> 1 \<and> ob_lease_limit_ms obs = 5000) ''invalid runtime bounds''
           (ensure (rp_readiness rep = expected_readiness obs \<and> (rp_reasons rep = []) = (expected_readiness obs = Ready))
             ''inconsistent readiness'' (Inr rep)))))
       | None \<Rightarrow>
           ensure (rp_readiness rep = ReadinessUnknown \<and> rp_instance rep = None \<and> rp_uptime_ms rep = None \<and> rp_reasons rep \<noteq> [])
             ''invalid unavailable observation'' (Inr rep)))))"

section \<open>The runtime\<close>

record runtime =
  ru_queue :: "event list"
  ru_loss :: nat
  ru_health :: "(nat \<times> audit_health) option"
  ru_reconciled :: bool
  ru_live :: bool
  ru_last_seen :: nat
  ru_control :: counters
  ru_disconnects :: nat
  ru_repair_ok :: nat
  ru_repair_failed :: nat
  ru_started :: nat
  ru_instance :: string
  ru_completed :: "nat option"
  ru_capacity :: "(nat \<times> usage \<times> nat) option"

text \<open>\<open>Runtime::new\<close> with 16 random bytes.\<close>

definition runtime_new :: "bytes \<Rightarrow> nat \<Rightarrow> runtime" where
  "runtime_new random now = \<lparr>ru_queue = [], ru_loss = 0, ru_health = None, ru_reconciled = False, ru_live = False,
     ru_last_seen = now,
     ru_control = \<lparr>ct_received = 0, ct_accepted = 0, ct_denied = 0, ct_rate_limited = 0, ct_malformed = 0, ct_timeout = 0\<rparr>,
     ru_disconnects = 0, ru_repair_ok = 0, ru_repair_failed = 0, ru_started = now, ru_instance = hex_text random,
     ru_completed = None, ru_capacity = None\<rparr>"

definition millis :: "nat \<Rightarrow> nat" where
  "millis d = min (d div 1000000) U64_MAX"

text \<open>\<open>Runtime::state\<close> on a sample of the cached audit health.\<close>

definition audit_blocked :: "nat \<Rightarrow> (nat \<times> audit_health) option \<Rightarrow> bool" where
  "audit_blocked now health = (case health of None \<Rightarrow> False
     | Some (stamp, h) \<Rightarrow> \<not> ah_admission_capacity h \<or> millis (now - stamp) > STALE_MS)"

definition lease_age :: "nat \<Rightarrow> runtime \<Rightarrow> nat option" where
  "lease_age now u = (if ru_live u then Some (now - ru_last_seen u) else None)"

definition worker_live :: "nat \<Rightarrow> runtime \<Rightarrow> bool" where
  "worker_live now u \<longleftrightarrow> ru_live u \<and> (case lease_age now u of None \<Rightarrow> False | Some age \<Rightarrow> age < 5 * 1000000000)"

definition state_reasons :: "nat \<Rightarrow> (nat \<times> audit_health) option \<Rightarrow> runtime \<Rightarrow> report_reason list" where
  "state_reasons now health u =
     (if audit_blocked now health then [AuditUnavailable] else []) @
     (if \<not> ru_reconciled u then [ReconciliationPending] else []) @
     (if \<not> ru_live u then [WorkerAbsent]
      else if lease_age now u = None then [LeaseUnavailable]
      else if \<not> worker_live now u then [WorkerLeaseExpired] else [])"

definition state_readiness :: "nat \<Rightarrow> (nat \<times> audit_health) option \<Rightarrow> runtime \<Rightarrow> readiness" where
  "state_readiness now health u =
     (if ru_reconciled u \<and> worker_live now u \<and> \<not> audit_blocked now health then Ready else NotReady)"

definition ready :: "nat \<Rightarrow> runtime \<Rightarrow> bool" where
  "ready now u \<longleftrightarrow> state_readiness now (ru_health u) u = Ready"

definition repaired :: "nat \<Rightarrow> bool \<Rightarrow> runtime \<Rightarrow> runtime" where
  "repaired now success u =
     (if success then u\<lparr>ru_repair_ok := increment (ru_repair_ok u), ru_completed := Some now\<rparr>
      else u\<lparr>ru_repair_failed := increment (ru_repair_failed u)\<rparr>)"

definition queue_audit :: "event \<Rightarrow> runtime \<Rightarrow> runtime" where
  "queue_audit ev u =
     (if length (ru_queue u) < 256 then u\<lparr>ru_queue := ru_queue u @ [ev]\<rparr>
      else u\<lparr>ru_loss := increment (ru_loss u)\<rparr>)"

definition gate_event :: "bool \<Rightarrow> event" where
  "gate_event is_open = (committed AdmissionGate)\<lparr>e_stage := Observation, e_outcome := (if is_open then Succeeded else Denied)\<rparr>"

definition gate :: "bool \<Rightarrow> runtime \<Rightarrow> runtime" where
  "gate is_open u =
     (let v = u\<lparr>ru_reconciled := is_open\<rparr> in if ru_reconciled u \<noteq> is_open then queue_audit (gate_event is_open) v else v)"

definition health_of :: "nat \<Rightarrow> nat \<Rightarrow> info \<Rightarrow> nat \<times> audit_health" where
  "health_of now loss st = (now, \<lparr>ah_events = in_events st, ah_bytes = in_bytes st,
     ah_admission_capacity = (\<not> in_degraded st \<and> in_events st < MAX_EVENTS - RESERVE_EVENTS \<and>
       in_bytes st + MAX_EVENT_BYTES \<le> MAX_BYTES - RESERVE_BYTES),
     ah_known_coverage_gaps = in_known_coverage_gaps st, ah_unresolved_effects = in_unresolved_effects st,
     ah_observation_loss = loss, ah_age_ms = 0\<rparr>)"

text \<open>
  \<open>Runtime::refresh\<close>: up to sixteen queued observations go to the audit store in one batch, and the
  health and the usage of the registry are cached. The three clock readings are arguments.
\<close>

definition flush_observations ::
    "'z authority_ext_scheme \<Rightarrow> audit_env list \<Rightarrow> rpager \<Rightarrow> runtime \<Rightarrow> registry \<Rightarrow> runtime \<times> registry" where
  "flush_observations E envs P u r =
     (let n = min (length (ru_queue u)) 16; events = take n (ru_queue u); u = u\<lparr>ru_queue := drop n (ru_queue u)\<rparr> in
      if events = [] then (u, r)
      else case audit_batch E envs (rg_capacity r) (audit_pager P r) events (rg_audit r) of
        Inr (_, a) \<Rightarrow> (u, r\<lparr>rg_audit := a\<rparr>)
      | Inl _ \<Rightarrow> (u\<lparr>ru_loss := (increment ^^ length events) (ru_loss u)\<rparr>, r))"

definition refresh ::
    "'z authority_ext_scheme \<Rightarrow> audit_env list \<Rightarrow> rpager \<Rightarrow> nat \<Rightarrow> nat \<Rightarrow> nat \<Rightarrow> runtime \<Rightarrow> registry \<Rightarrow> runtime \<times> registry" where
  "refresh E envs P start now done_at u r =
     (case flush_observations E envs P u r of (u, r) \<Rightarrow>
       (u\<lparr>ru_health := map_option (health_of now (ru_loss u)) (ok (audit_info (rg_audit r))),
          ru_capacity := map_option (\<lambda>usage. (done_at, usage, millis (done_at - start))) (ok (diagnostic_usage P r))\<rparr>, r))"

section \<open>Snapshots\<close>

definition capacity_view :: "nat \<Rightarrow> runtime \<Rightarrow> capacity_observation" where
  "capacity_view now u = (case ru_capacity u of
     None \<Rightarrow> capacity_unavailable
   | Some (stamp, usage, cost) \<Rightarrow>
       (let age = millis (now - stamp) in
        \<lparr>cb_availability = (if age \<le> STALE_MS then Current else Stale), cb_age_ms = Some age,
          cb_usage = (if age \<le> STALE_MS then Some usage else None), cb_collection_ms = Some cost\<rparr>))"

definition health_view :: "nat \<Rightarrow> (nat \<times> audit_health) option \<Rightarrow> audit_health option" where
  "health_view now health = map_option (\<lambda>(stamp, h). h\<lparr>ah_age_ms := millis (now - stamp)\<rparr>) health"

text \<open>
  \<open>Runtime::snapshot_at\<close>. The cached audit health is read twice, once by \<open>state\<close> and once for the
  observations: \<open>health\<close> is the first reading and \<open>ru_health u\<close> the second. The counters of the callout and
  the states of the two connections are arguments.
\<close>

definition snapshot_at ::
    "role \<Rightarrow> nat \<Rightarrow> nat \<Rightarrow> counters \<Rightarrow> (connection \<times> connection \<times> bool) option \<Rightarrow> (nat \<times> audit_health) option \<Rightarrow> runtime
      \<Rightarrow> report" where
  "snapshot_at r queued now auth connections health u =
     \<lparr>rp_version = 1, rp_role = r, rp_readiness = state_readiness now health u, rp_reasons = state_reasons now health u,
      rp_instance = Some (ru_instance u), rp_uptime_ms = Some (millis (now - ru_started u)),
      rp_observations = Some \<lparr>ob_audit = health_view now (ru_health u),
        ob_reconciled = (ReconciliationPending \<notin> set (state_reasons now health u)),
        ob_worker_live = worker_live now u, ob_lease_age_ms = map_option millis (lease_age now u), ob_lease_limit_ms = 5000,
        ob_auth_requests = auth, ob_control_requests = ru_control u, ob_ipc_disconnects = ru_disconnects u,
        ob_reconciliation_success = ru_repair_ok u, ob_reconciliation_failure = ru_repair_failed u,
        ob_reconciliation_age_ms = map_option (\<lambda>s. millis (now - s)) (ru_completed u),
        ob_queue_used = queued, ob_queue_limit = 1,
        ob_auth_connection = map_option fst connections, ob_control_connection = map_option (fst \<circ> snd) connections,
        ob_permission_denied = (case connections of None \<Rightarrow> False | Some (_, _, denied) \<Rightarrow> denied),
        ob_capacity = (if r = RoleAuthority then Some (capacity_view now u) else None)\<rparr>,
      rp_coverage = no_coverage\<rparr>"

section \<open>Properties of the runtime\<close>

lemma state_reasons_ready: "state_reasons now health u = [] \<longleftrightarrow> state_readiness now health u = Ready"
  by (auto simp: state_reasons_def state_readiness_def worker_live_def lease_age_def)

lemma pending_reason: "ReconciliationPending \<in> set (state_reasons now health u) \<longleftrightarrow> \<not> ru_reconciled u"
  by (auto simp: state_reasons_def)

lemma expected_snapshot:
  assumes "rp_observations (snapshot_at r queued now auth connections (ru_health u) u) = Some obs"
  shows "expected_readiness obs = state_readiness now (ru_health u) u"
  using assms by (auto simp: snapshot_at_def expected_readiness_def state_readiness_def audit_blocked_def health_view_def pending_reason
      split: option.splits)

lemma length_state_reasons: "length (state_reasons now health u) \<le> 3"
  by (simp add: state_reasons_def)

text \<open>A report of one consistent reading is accepted by its readers.\<close>

lemma snapshot_accepted:
  assumes "ru_instance u = hex_text random" "length random = 16" "queued \<le> 1"
    "un_json bs = Some (snapshot_at r queued now auth connections (ru_health u) u)" "length bs \<le> MAX_REPORT"
  shows "report_parse un_json bs r = Inr (snapshot_at r queued now auth connections (ru_health u) u)"
proof -
  let ?rep = "snapshot_at r queued now auth connections (ru_health u) u"
  obtain obs where o: "rp_observations ?rep = Some obs" by (simp add: snapshot_at_def)
  note e = expected_snapshot[OF o]
  have "ob_queue_limit obs = 1" "ob_queue_used obs \<le> 1" "ob_lease_limit_ms obs = 5000" "r \<noteq> RoleControl \<or> ob_capacity obs = None"
    using o assms(3) by (cases r; auto simp: snapshot_at_def)+
  moreover have "list_all (\<lambda>ch. is_hex_lower ch \<or> is_hex_upper ch) (hex_text random)"
    using hex_text_lower[of random] by (auto simp: list_all_iff)
  moreover have f: "rp_version ?rep = 1" "rp_role ?rep = r" "rp_coverage ?rep = no_coverage" "rp_reasons ?rep = state_reasons now (ru_health u) u"
    "rp_instance ?rep = Some (ru_instance u)" "rp_uptime_ms ?rep \<noteq> None" "rp_readiness ?rep = state_readiness now (ru_health u) u"
    by (simp_all add: snapshot_at_def)
  moreover have "length (state_reasons now (ru_health u) u) \<le> 8" using length_state_reasons[of now "ru_health u" u] by simp
  ultimately show ?thesis using assms e state_reasons_ready[of now "ru_health u" u] by (simp add: report_parse_def o)
qed

section \<open>The gate and its observations\<close>

text \<open>The queue of observations is bounded, and no observation disappears unaccounted below the counter's limit.\<close>

definition runtime_ok :: "runtime \<Rightarrow> bool" where
  "runtime_ok u \<longleftrightarrow> length (ru_queue u) \<le> 256 \<and> ru_loss u \<le> U64_MAX"

lemma increment_le [simp]: "increment n \<le> U64_MAX"
  by (simp add: increment_def)

lemma queue_audit_ok: "runtime_ok u \<Longrightarrow> runtime_ok (queue_audit ev u)"
  by (simp add: runtime_ok_def queue_audit_def)

lemma queue_audit_account:
  assumes "ru_loss u < U64_MAX"
  shows "length (ru_queue (queue_audit ev u)) + ru_loss (queue_audit ev u) = length (ru_queue u) + ru_loss u + 1"
  using assms by (simp add: queue_audit_def increment_def)

lemma queue_audit_fields [simp]:
  "ru_reconciled (queue_audit ev u) = ru_reconciled u" "ru_live (queue_audit ev u) = ru_live u"
  "ru_last_seen (queue_audit ev u) = ru_last_seen u"
  by (simp_all add: queue_audit_def)

lemma gate_ok: "runtime_ok u \<Longrightarrow> runtime_ok (gate b u)"
  using queue_audit_ok[of "u\<lparr>ru_reconciled := b\<rparr>"] by (auto simp: gate_def Let_def runtime_ok_def)

lemma gate_reconciled [simp]: "ru_reconciled (gate b u) = b"
  by (simp add: gate_def queue_audit_def Let_def)

lemma repaired_reconciled [simp]: "ru_reconciled (repaired now b u) = ru_reconciled u"
  by (simp add: repaired_def)

lemma refresh_reconciled:
  "refresh E envs P start now done_at u r = (u', r') \<Longrightarrow> ru_reconciled u' = ru_reconciled u"
  by (auto simp: refresh_def flush_observations_def Let_def split: prod.splits sum.splits if_splits)

lemma refresh_audited:
  assumes "refresh E envs P start now done_at u r = (u', r')" "list_all env_ok envs"
  shows "audited E r r'"
  using assms by (auto simp: refresh_def flush_observations_def Let_def split: prod.splits sum.splits if_splits
    intro!: auditedI dest: audit_batch_inv)

lemma ready_reconciled: "ready now u \<Longrightarrow> ru_reconciled u"
  by (simp add: ready_def state_readiness_def split: if_splits)

end
