(* ===== verification/Consumers.thy ===== *)
theory Consumers
  imports Runtime
begin

text \<open>
  The durable consumers of the broker that deliver group traffic and invitations to the devices
  (\<open>authorization/delivery.rs\<close> and \<open>transport.rs\<close>). JetStream's calls are the fields of \<open>js\<close> over the
  broker state; a consumer is named by its stream and its durable name.
\<close>

section \<open>The consumer interface\<close>

datatype ack_policy = AckNone | AckAll | AckExplicit

record consumer_config =
  cc_filter_subject :: string
  cc_filter_subjects :: "string list"
  cc_ack_policy :: ack_policy
  cc_ack_wait :: nat
  cc_max_ack_pending :: int
  cc_max_batch :: int
  cc_deliver_subject :: "string option"

record 's js =
  js_get_stream :: "string \<Rightarrow> 's \<Rightarrow> 's \<times> unit result"
  js_consumer_info :: "string \<Rightarrow> string \<Rightarrow> 's \<Rightarrow> 's \<times> consumer_config option result"
  js_delete_consumer :: "string \<Rightarrow> string \<Rightarrow> 's \<Rightarrow> 's \<times> bool result"
  js_create_consumer :: "string \<Rightarrow> string \<Rightarrow> consumer_config \<Rightarrow> 's \<Rightarrow> 's \<times> unit result"
  js_get_or_create_consumer :: "string \<Rightarrow> string \<Rightarrow> consumer_config \<Rightarrow> 's \<Rightarrow> 's \<times> consumer_config result"
  js_publish :: "string \<Rightarrow> string \<Rightarrow> bytes \<Rightarrow> 's \<Rightarrow> 's \<times> unit result"
  js_last_sequence :: "string \<Rightarrow> 's \<Rightarrow> 's \<times> nat result"

text \<open>
  The lookup answers \<open>None\<close> for a consumer the server does not know, the deletion \<open>False\<close> (status 404).
  The contract for an administrator without competitors: reads change nothing, an answered deletion
  leaves no consumer, an answered creation leaves one that delivers as asked, and an unanswered call
  touches at most the consumer it names.
\<close>

definition same_delivery :: "consumer_config \<Rightarrow> consumer_config \<Rightarrow> bool" where
  "same_delivery a b \<longleftrightarrow> cc_filter_subject a = cc_filter_subject b \<and> cc_filter_subjects a = cc_filter_subjects b \<and>
     cc_ack_policy a = cc_ack_policy b \<and> cc_max_ack_pending a = cc_max_ack_pending b \<and> cc_max_batch a = cc_max_batch b \<and>
     cc_deliver_subject a = cc_deliver_subject b"

type_synonym 's consumer_view = "'s \<Rightarrow> string \<times> string \<Rightarrow> consumer_config option"

definition only_at :: "('k \<Rightarrow> 'v) \<Rightarrow> ('k \<Rightarrow> 'v) \<Rightarrow> 'k \<Rightarrow> bool" where
  "only_at f g k \<longleftrightarrow> (\<forall>j. j \<noteq> k \<longrightarrow> g j = f j)"

definition js_sole :: "('s, 'z) js_scheme \<Rightarrow> 's consumer_view \<Rightarrow> bool" where
  "js_sole J view \<longleftrightarrow>
     (\<forall>st s. view (fst (js_get_stream J st s)) = view s) \<and>
     (\<forall>st s. view (fst (js_last_sequence J st s)) = view s) \<and>
     (\<forall>subj tag bs s. view (fst (js_publish J subj tag bs s)) = view s) \<and>
     (\<forall>st n s s' x. js_consumer_info J st n s = (s', x) \<longrightarrow> view s' = view s \<and> (\<forall>c. x = Inr c \<longrightarrow> c = view s (st, n))) \<and>
     (\<forall>st n s s' x. js_delete_consumer J st n s = (s', x) \<longrightarrow>
        only_at (view s) (view s') (st, n) \<and> (is_ok x \<longrightarrow> view s' (st, n) = None)) \<and>
     (\<forall>st n c s s' x. js_create_consumer J st n c s = (s', x) \<longrightarrow>
        only_at (view s) (view s') (st, n) \<and> (is_ok x \<longrightarrow> (\<exists>c'. view s' (st, n) = Some c' \<and> same_delivery c c'))) \<and>
     (\<forall>st n c s s' x. js_get_or_create_consumer J st n c s = (s', x) \<longrightarrow>
        only_at (view s) (view s') (st, n) \<and> (\<forall>c'. x = Inr c' \<longrightarrow> view s' (st, n) = Some c'))"

text \<open>No call touches an observation \<open>f\<close> of the broker state.\<close>

definition js_frame :: "('s, 'z) js_scheme \<Rightarrow> ('s \<Rightarrow> 'v) \<Rightarrow> bool" where
  "js_frame J f \<longleftrightarrow>
     (\<forall>st s. f (fst (js_get_stream J st s)) = f s) \<and>
     (\<forall>st s. f (fst (js_last_sequence J st s)) = f s) \<and>
     (\<forall>subj tag bs s. f (fst (js_publish J subj tag bs s)) = f s) \<and>
     (\<forall>st n s. f (fst (js_consumer_info J st n s)) = f s) \<and>
     (\<forall>st n s. f (fst (js_delete_consumer J st n s)) = f s) \<and>
     (\<forall>st n c s. f (fst (js_create_consumer J st n c s)) = f s) \<and>
     (\<forall>st n c s. f (fst (js_get_or_create_consumer J st n c s)) = f s)"

section \<open>Mailboxes\<close>

definition device_consumer :: "string \<Rightarrow> string" where
  "device_consumer key = ''device_'' @ key"

definition inbox_subject :: "string \<Rightarrow> string \<Rightarrow> string" where
  "inbox_subject user device = ''epochgrid.v1.user.'' @ user @ ''.'' @ device @ ''.inbox''"

definition mailbox_config :: "string \<Rightarrow> string \<Rightarrow> consumer_config" where
  "mailbox_config user device = \<lparr>cc_filter_subject = inbox_subject user device, cc_filter_subjects = [],
     cc_ack_policy = AckExplicit, cc_ack_wait = 5 * 1000000000, cc_max_ack_pending = 1, cc_max_batch = 1,
     cc_deliver_subject = None\<rparr>"

definition mailbox_safe :: "string \<Rightarrow> string \<Rightarrow> consumer_config \<Rightarrow> bool" where
  "mailbox_safe user device c \<longleftrightarrow> cc_filter_subject c = inbox_subject user device \<and> cc_filter_subjects c = [] \<and>
     cc_max_ack_pending c = 1 \<and> cc_max_batch c = 1 \<and> cc_deliver_subject c = None \<and> cc_ack_policy c = AckExplicit"

definition provision_mailbox ::
    "'z externals_scheme \<Rightarrow> 's js \<Rightarrow> string \<Rightarrow> string \<Rightarrow> 's \<Rightarrow> 's \<times> unit result" where
  "provision_mailbox E J endpoint key s =
     (case split_on CHR ''.'' endpoint of
        [users, user, devices, device] \<Rightarrow>
          ensure_s (users = ''users'' \<and> devices = ''devices'') ''invalid enrollment endpoint'' s
          (bind_s (s, validate_id user) (\<lambda>_ s.
           bind_s (s, validate_id device) (\<lambda>_ s.
           bind_s (s, ensure_e (nkey_ok E key) (Extern ''invalid public key'') (Inr ())) (\<lambda>_ s.
           bind_s (js_get_or_create_consumer J ''MAILBOX'' (device_consumer key) (mailbox_config user device) s) (\<lambda>c s.
           ensure_s (mailbox_safe user device c) ''MAILBOX consumer has unsafe configuration; admission remains closed'' s
             (s, Inr ()))))))
      | _ \<Rightarrow> (s, Inl (Anyhow ''invalid enrollment endpoint'')))"

fun mailboxes_loop ::
    "'z externals_scheme \<Rightarrow> 's js \<Rightarrow> (string \<times> string) list \<Rightarrow> 's \<Rightarrow> 's \<times> unit result" where
  "mailboxes_loop E J [] s = (s, Inr ())"
| "mailboxes_loop E J ((endpoint, key) # rest) s =
     bind_s (provision_mailbox E J endpoint key s) (\<lambda>_ s. mailboxes_loop E J rest s)"

definition provision_mailboxes ::
    "'z externals_scheme \<Rightarrow> 's js \<Rightarrow> (string \<times> string) list \<Rightarrow> 's \<Rightarrow> 's \<times> unit result" where
  "provision_mailboxes E J enrollment s =
     bind_s (js_get_stream J ''MAILBOX'' s) (\<lambda>_ s. mailboxes_loop E J enrollment s)"

text \<open>The consumers of the static development fixture.\<close>

definition chat_all_config :: consumer_config where
  "chat_all_config = \<lparr>cc_filter_subject = ''epochgrid.v1.group.*.*'', cc_filter_subjects = [], cc_ack_policy = AckExplicit,
     cc_ack_wait = 2 * 1000000000, cc_max_ack_pending = 1, cc_max_batch = 1, cc_deliver_subject = None\<rparr>"

fun chat_consumers_loop :: "'s js \<Rightarrow> string list \<Rightarrow> 's \<Rightarrow> 's \<times> unit result" where
  "chat_consumers_loop J [] s = (s, Inr ())"
| "chat_consumers_loop J (key # rest) s =
     bind_s (js_create_consumer J ''CHAT'' (device_consumer key) chat_all_config s) (\<lambda>_ s. chat_consumers_loop J rest s)"

definition provision_chat_consumers :: "'s js \<Rightarrow> (string \<times> string) list \<Rightarrow> 's \<Rightarrow> 's \<times> unit result" where
  "provision_chat_consumers J enrollment s =
     bind_s (js_get_stream J ''CHAT'' s) (\<lambda>_ s. chat_consumers_loop J (map snd enrollment) s)"

section \<open>Reconciliation with the policy\<close>

text \<open>The entries of an enrollment in the order of the \<open>BTreeMap\<close>.\<close>

definition enrollment_entries :: "registry \<Rightarrow> bool \<Rightarrow> (string \<times> string) list" where
  "enrollment_entries r include_revoked =
     List.map_filter (\<lambda>endpoint. map_option (Pair endpoint) (enrollment_records r include_revoked endpoint))
       (sort (remdups (map (\<lambda>d. device_key (dv_user d) (dv_device_id d)) (rg_devices r))))"

definition group_filters :: "string list \<Rightarrow> string list" where
  "group_filters gids =
     (let filters = concat (map (\<lambda>gid. [''epochgrid.v1.group.'' @ gid @ ''.handshake'',
            ''epochgrid.v1.group.'' @ gid @ ''.message'']) gids) in
      if filters = [] then [''epochgrid.v1.group._none_.message''] else filters)"

definition chat_safe :: "string list \<Rightarrow> consumer_config \<Rightarrow> bool" where
  "chat_safe filters c \<longleftrightarrow> cc_filter_subjects c = filters \<and> cc_filter_subject c = [] \<and> cc_max_ack_pending c = 1 \<and>
     cc_max_batch c = 1 \<and> cc_ack_policy c = AckExplicit \<and> cc_deliver_subject c = None"

definition chat_config :: "string list \<Rightarrow> consumer_config" where
  "chat_config filters = \<lparr>cc_filter_subject = [], cc_filter_subjects = filters, cc_ack_policy = AckExplicit,
     cc_ack_wait = 2 * 1000000000, cc_max_ack_pending = 1, cc_max_batch = 1, cc_deliver_subject = None\<rparr>"

text \<open>\<open>delete_consumer(..)?\<close> fails on an absent consumer; the mailbox branch accepts that answer.\<close>

definition delete_present :: "'s js \<Rightarrow> string \<Rightarrow> string \<Rightarrow> 's \<Rightarrow> 's \<times> unit result" where
  "delete_present J st n s = bind_s (js_delete_consumer J st n s) (\<lambda>found s.
     if found then (s, Inr ()) else (s, Inl (Extern ''consumer not found'')))"

definition delete_if_present :: "'s js \<Rightarrow> string \<Rightarrow> string \<Rightarrow> 's \<Rightarrow> 's \<times> unit result" where
  "delete_if_present J st n s = bind_s (js_delete_consumer J st n s) (\<lambda>_ s. (s, Inr ()))"

definition retire_consumers :: "'s js \<Rightarrow> string \<Rightarrow> consumer_config option \<Rightarrow> 's \<Rightarrow> 's \<times> unit result" where
  "retire_consumers J n existing s =
     bind_s (if existing \<noteq> None then delete_present J ''CHAT'' n s else (s, Inr ())) (\<lambda>_ s.
     delete_if_present J ''MAILBOX'' n s)"

definition refresh_consumer ::
    "'s js \<Rightarrow> string \<Rightarrow> string list \<Rightarrow> consumer_config option \<Rightarrow> 's \<Rightarrow> 's \<times> unit result" where
  "refresh_consumer J n filters existing s =
     (case existing of
        Some c \<Rightarrow>
          if chat_safe filters c then (s, Inr ())
          else bind_s (delete_present J ''CHAT'' n s) (\<lambda>_ s. js_create_consumer J ''CHAT'' n (chat_config filters) s)
      | None \<Rightarrow> js_create_consumer J ''CHAT'' n (chat_config filters) s)"

definition reconcile_device ::
    "'z authority_ext_scheme \<Rightarrow> 's js \<Rightarrow> registry \<Rightarrow> string \<Rightarrow> 's \<Rightarrow> 's \<times> unit result" where
  "reconcile_device E J r key s =
     (let n = device_consumer key in
      bind_s (js_consumer_info J ''CHAT'' n s) (\<lambda>existing s.
      if key \<notin> snd ` set (enrollment_entries r False) then retire_consumers J n existing s
      else bind_s (s, authorized_groups E r key) (\<lambda>gids s. refresh_consumer J n (group_filters gids) existing s)))"

fun reconcile_loop ::
    "'z authority_ext_scheme \<Rightarrow> 's js \<Rightarrow> registry \<Rightarrow> string list \<Rightarrow> 's \<Rightarrow> 's \<times> unit result" where
  "reconcile_loop E J r [] s = (s, Inr ())"
| "reconcile_loop E J r (key # rest) s =
     bind_s (reconcile_device E J r key s) (\<lambda>_ s. reconcile_loop E J r rest s)"

definition reconcile_consumers_inner ::
    "'z authority_ext_scheme \<Rightarrow> 's js \<Rightarrow> registry \<Rightarrow> 's \<Rightarrow> 's \<times> unit result" where
  "reconcile_consumers_inner E J r s =
     bind_s (provision_mailboxes E J (enrollment_entries r False) s) (\<lambda>_ s.
     bind_s (js_get_stream J ''CHAT'' s) (\<lambda>_ s.
     bind_s (js_get_stream J ''MAILBOX'' s) (\<lambda>_ s.
     reconcile_loop E J r (map snd (enrollment_entries r True)) s)))"

section \<open>The entries of an enrollment\<close>

lemma fold_map_upd:
  "distinct (map f xs) \<Longrightarrow> fold (\<lambda>d m. m(f d \<mapsto> g d)) xs m e = Some k \<longleftrightarrow>
     (\<exists>d \<in> set xs. f d = e \<and> g d = k) \<or> e \<notin> f ` set xs \<and> m e = Some k"
proof (induction xs arbitrary: m)
  case (Cons x xs)
  then show ?case by (simp add: Cons.IH) (metis image_eqI)
qed simp

lemma device_ok_ids: "device_ok E d \<Longrightarrow> validate_id (dv_user d) = Inr () \<and> validate_id (dv_device_id d) = Inr ()"
  using verify_signature_ok(1,2) by (force simp: device_ok_def)

lemma reg_inv_endpoints:
  assumes "reg_inv E r"
  shows "distinct (map (\<lambda>d. device_key (dv_user d) (dv_device_id d)) (rg_devices r))"
    and "distinct (map dv_nkey (rg_devices r))"
proof -
  have ok: "\<forall>d \<in> set (rg_devices r). device_ok E d" and d: "distinct (map (\<lambda>d. (dv_user d, dv_device_id d)) (rg_devices r))"
    using assms by (auto simp: reg_inv_def reg_tables_def reg_keys_def list_all_iff)
  have "inj_on (\<lambda>d. device_key (dv_user d) (dv_device_id d)) (set (rg_devices r))"
  proof (rule inj_onI)
    fix x y assume "x \<in> set (rg_devices r)" "y \<in> set (rg_devices r)"
      "device_key (dv_user x) (dv_device_id x) = device_key (dv_user y) (dv_device_id y)"
    then show "x = y" using device_key_inj device_ok_ids ok d by (metis (no_types, lifting) distinct_key_eq)
  qed
  moreover have "distinct (rg_devices r)" using d distinct_map by blast
  ultimately show "distinct (map (\<lambda>d. device_key (dv_user d) (dv_device_id d)) (rg_devices r))" by (simp add: distinct_map)
  show "distinct (map dv_nkey (rg_devices r))" using assms by (simp add: reg_inv_def reg_tables_def reg_keys_def)
qed

lemma enrollment_records_iff:
  assumes "reg_inv E r"
  shows "enrollment_records r inc endpoint = Some key \<longleftrightarrow>
    (\<exists>d \<in> set (rg_devices r). (inc \<or> \<not> dv_revoked d) \<and> device_key (dv_user d) (dv_device_id d) = endpoint \<and> dv_nkey d = key)"
  unfolding enrollment_records_def
  by (subst fold_map_upd) (use reg_inv_endpoints(1)[OF assms] distinct_map_filter in \<open>auto\<close>)

lemma enrollment_entries_iff:
  assumes "reg_inv E r"
  shows "(endpoint, key) \<in> set (enrollment_entries r inc) \<longleftrightarrow>
    (\<exists>d \<in> set (rg_devices r). (inc \<or> \<not> dv_revoked d) \<and> device_key (dv_user d) (dv_device_id d) = endpoint \<and> dv_nkey d = key)"
proof -
  have "(endpoint, key) \<in> set (enrollment_entries r inc) \<longleftrightarrow>
    endpoint \<in> (\<lambda>d. device_key (dv_user d) (dv_device_id d)) ` set (rg_devices r) \<and> enrollment_records r inc endpoint = Some key"
    by (auto simp: enrollment_entries_def List.map_filter_def image_iff)
  then show ?thesis using enrollment_records_iff[OF assms] by blast
qed

lemma enrolled_keys:
  assumes "reg_inv E r"
  shows "snd ` set (enrollment_entries r inc) = {dv_nkey d | d. d \<in> set (rg_devices r) \<and> (inc \<or> \<not> dv_revoked d)}"
proof -
  have "snd ` set (enrollment_entries r inc) = {k. \<exists>e. (e, k) \<in> set (enrollment_entries r inc)}" by (auto simp: image_iff) force
  then show ?thesis using enrollment_entries_iff[OF assms] by auto
qed

section \<open>What a reconciliation leaves\<close>

definition device_groups :: "registry \<Rightarrow> string \<Rightarrow> string list" where
  "device_groups r key = sort (map mr_gid (filter (\<lambda>m. mr_nkey m = key) (rg_members r)))"

lemma authorized_groups_ok: "authorized_groups E r key = Inr gids \<Longrightarrow> gids = device_groups r key"
  by (auto simp: authorized_groups_def device_groups_def result_simps)

definition chat_consumer_ok :: "registry \<Rightarrow> device_row \<Rightarrow> (string \<times> string \<Rightarrow> consumer_config option) \<Rightarrow> bool" where
  "chat_consumer_ok r d v \<longleftrightarrow>
     (let c = v (''CHAT'', device_consumer (dv_nkey d)) in
      if dv_revoked d then c = None else (\<exists>x. c = Some x \<and> chat_safe (group_filters (device_groups r (dv_nkey d))) x))"

definition mailbox_consumer_ok :: "device_row \<Rightarrow> (string \<times> string \<Rightarrow> consumer_config option) \<Rightarrow> bool" where
  "mailbox_consumer_ok d v \<longleftrightarrow>
     (let c = v (''MAILBOX'', device_consumer (dv_nkey d)) in
      if dv_revoked d then c = None else (\<exists>x. c = Some x \<and> mailbox_safe (dv_user d) (dv_device_id d) x))"

definition consumers_ok :: "registry \<Rightarrow> (string \<times> string \<Rightarrow> consumer_config option) \<Rightarrow> bool" where
  "consumers_ok r v \<longleftrightarrow> (\<forall>d \<in> set (rg_devices r). chat_consumer_ok r d v \<and> mailbox_consumer_ok d v)"

lemma js_soleD:
  assumes "js_sole J view"
  shows "js_get_stream J st s = (s', x1) \<Longrightarrow> view s' = view s"
    and "js_publish J subj tag bs s = (s', x1) \<Longrightarrow> view s' = view s"
    and "js_last_sequence J st s = (s', x2) \<Longrightarrow> view s' = view s"
    and "js_consumer_info J st n s = (s', x3) \<Longrightarrow> view s' = view s"
    and "js_consumer_info J st n s = (s', Inr c) \<Longrightarrow> c = view s (st, n)"
    and "js_delete_consumer J st n s = (s', x4) \<Longrightarrow> only_at (view s) (view s') (st, n)"
    and "js_delete_consumer J st n s = (s', Inr b) \<Longrightarrow> view s' (st, n) = None"
    and "js_create_consumer J st n cfg s = (s', x5) \<Longrightarrow> only_at (view s) (view s') (st, n)"
    and "js_create_consumer J st n cfg s = (s', Inr u) \<Longrightarrow> \<exists>c'. view s' (st, n) = Some c' \<and> same_delivery cfg c'"
    and "js_get_or_create_consumer J st n cfg s = (s', x6) \<Longrightarrow> only_at (view s) (view s') (st, n)"
    and "js_get_or_create_consumer J st n cfg s = (s', Inr c') \<Longrightarrow> view s' (st, n) = Some c'"
proof -
  note c = assms[unfolded js_sole_def]
  show "js_get_stream J st s = (s', x1) \<Longrightarrow> view s' = view s" using c[THEN conjunct1] by (metis fst_conv)
  show "js_publish J subj tag bs s = (s', x1) \<Longrightarrow> view s' = view s" using c[THEN conjunct2, THEN conjunct2, THEN conjunct1] by (metis fst_conv)
  show "js_last_sequence J st s = (s', x2) \<Longrightarrow> view s' = view s" using c[THEN conjunct2, THEN conjunct1] by (metis fst_conv)
  show "js_consumer_info J st n s = (s', x3) \<Longrightarrow> view s' = view s" using c[THEN conjunct2, THEN conjunct2, THEN conjunct2, THEN conjunct1] by (auto simp: is_ok_def)
  show "js_consumer_info J st n s = (s', Inr c) \<Longrightarrow> c = view s (st, n)" using c[THEN conjunct2, THEN conjunct2, THEN conjunct2, THEN conjunct1] by (auto simp: is_ok_def)
  show "js_delete_consumer J st n s = (s', x4) \<Longrightarrow> only_at (view s) (view s') (st, n)" using c[THEN conjunct2, THEN conjunct2, THEN conjunct2, THEN conjunct2, THEN conjunct1] by (auto simp: is_ok_def)
  show "js_delete_consumer J st n s = (s', Inr b) \<Longrightarrow> view s' (st, n) = None" using c[THEN conjunct2, THEN conjunct2, THEN conjunct2, THEN conjunct2, THEN conjunct1] by (auto simp: is_ok_def)
  show "js_create_consumer J st n cfg s = (s', x5) \<Longrightarrow> only_at (view s) (view s') (st, n)" using c[THEN conjunct2, THEN conjunct2, THEN conjunct2, THEN conjunct2, THEN conjunct2, THEN conjunct1] by (auto simp: is_ok_def)
  show "js_create_consumer J st n cfg s = (s', Inr u) \<Longrightarrow> \<exists>c'. view s' (st, n) = Some c' \<and> same_delivery cfg c'" using c[THEN conjunct2, THEN conjunct2, THEN conjunct2, THEN conjunct2, THEN conjunct2, THEN conjunct1] by (auto simp: is_ok_def)
  show "js_get_or_create_consumer J st n cfg s = (s', x6) \<Longrightarrow> only_at (view s) (view s') (st, n)" using c[THEN conjunct2, THEN conjunct2, THEN conjunct2, THEN conjunct2, THEN conjunct2, THEN conjunct2] by (auto simp: is_ok_def)
  show "js_get_or_create_consumer J st n cfg s = (s', Inr c') \<Longrightarrow> view s' (st, n) = Some c'" using c[THEN conjunct2, THEN conjunct2, THEN conjunct2, THEN conjunct2, THEN conjunct2, THEN conjunct2] by (auto simp: is_ok_def)
qed

lemma provision_mailbox_ok:
  assumes J: "js_sole J view" and ids: "validate_id user = Inr ()" "validate_id device = Inr ()"
    and "provision_mailbox E J (device_key user device) key s = (s', Inr u)"
  shows "only_at (view s) (view s') (''MAILBOX'', device_consumer key)"
    and "\<exists>c. view s' (''MAILBOX'', device_consumer key) = Some c \<and> mailbox_safe user device c"
proof -
  obtain c where "js_get_or_create_consumer J ''MAILBOX'' (device_consumer key) (mailbox_config user device) s = (s', Inr c)"
    "mailbox_safe user device c"
    using assms(4) ids device_key_fields[OF ids[THEN validated_no_separator(1)]]
    by (auto simp: provision_mailbox_def result_simps ensure_e_def)
  then show "only_at (view s) (view s') (''MAILBOX'', device_consumer key)"
    "\<exists>c. view s' (''MAILBOX'', device_consumer key) = Some c \<and> mailbox_safe user device c"
    using js_soleD(10,11)[OF J] by blast+
qed

lemma device_consumer_inj [simp]: "device_consumer a = device_consumer b \<longleftrightarrow> a = b"
  by (simp add: device_consumer_def)

text \<open>An entry of a list stays right when the later entries leave it alone or set it right again.\<close>

definition untouched :: "'k set \<Rightarrow> ('k \<Rightarrow> 'v) \<Rightarrow> ('k \<Rightarrow> 'v) \<Rightarrow> bool" where
  "untouched K f g \<longleftrightarrow> (\<forall>j. j \<notin> K \<longrightarrow> g j = f j)"

lemma untouched_refl [simp, intro]: "untouched K f f"
  by (simp add: untouched_def)

lemma untouched_trans: "untouched K f g \<Longrightarrow> untouched L g h \<Longrightarrow> untouched (K \<union> L) f h"
  by (simp add: untouched_def)

lemma untouched_mono: "untouched K f g \<Longrightarrow> K \<subseteq> L \<Longrightarrow> untouched L f g"
  by (auto simp: untouched_def)

lemma untouchedD: "untouched K f g \<Longrightarrow> j \<notin> K \<Longrightarrow> g j = f j"
  by (simp add: untouched_def)

lemma only_at_untouched: "only_at f g k \<longleftrightarrow> untouched {k} f g"
  by (auto simp: only_at_def untouched_def)

definition valid_entry :: "string \<times> string \<Rightarrow> bool" where
  "valid_entry p \<longleftrightarrow> (\<exists>user device. validate_id user = Inr () \<and> validate_id device = Inr () \<and> fst p = device_key user device)"

lemma mailboxes_loop_ok:
  assumes "js_sole J view" "\<forall>p \<in> set es. valid_entry p"
    and "\<forall>p \<in> set es. \<forall>q \<in> set es. snd p = snd q \<longrightarrow> p = q"
    and "mailboxes_loop E J es s = (s', Inr u)"
  shows "untouched ((\<lambda>p. (''MAILBOX'', device_consumer (snd p))) ` set es) (view s) (view s') \<and>
    (\<forall>user device key. (device_key user device, key) \<in> set es \<longrightarrow> validate_id user = Inr () \<longrightarrow> validate_id device = Inr () \<longrightarrow>
      (\<exists>c. view s' (''MAILBOX'', device_consumer key) = Some c \<and> mailbox_safe user device c))"
  using assms(2-)
proof (induction es arbitrary: s)
  case (Cons p es)
  obtain e k where p: "p = (e, k)" by (cases p)
  obtain user device where v: "validate_id user = Inr ()" "validate_id device = Inr ()" "e = device_key user device"
    using Cons.prems(1) p by (auto simp: valid_entry_def)
  obtain s1 where s1: "provision_mailbox E J (device_key user device) k s = (s1, Inr ())" "mailboxes_loop E J es s1 = (s', Inr u)"
    using Cons.prems(3) by (auto simp: p v(3) result_simps)
  note h = provision_mailbox_ok[OF assms(1) v(1,2) s1(1)]
  note t = Cons.IH[OF _ _ s1(2)]
  have t1: "untouched ((\<lambda>p. (''MAILBOX'', device_consumer (snd p))) ` set es) (view s1) (view s')"
    and t2: "\<And>user device key. (device_key user device, key) \<in> set es \<Longrightarrow> validate_id user = Inr () \<Longrightarrow> validate_id device = Inr () \<Longrightarrow>
      \<exists>c. view s' (''MAILBOX'', device_consumer key) = Some c \<and> mailbox_safe user device c"
    using t Cons.prems(1,2) by auto
  have "\<exists>c. view s' (''MAILBOX'', device_consumer k) = Some c \<and> mailbox_safe user device c"
  proof (cases "k \<in> snd ` set es")
    case True
    then have "(device_key user device, k) \<in> set es" using Cons.prems(2) p v(3) by force
    then show ?thesis using t2 v by blast
  next
    case False
    then have "view s' (''MAILBOX'', device_consumer k) = view s1 (''MAILBOX'', device_consumer k)"
      by (intro untouchedD[OF t1]) force
    then show ?thesis using h(2) by simp
  qed
  moreover have "untouched ((\<lambda>p. (''MAILBOX'', device_consumer (snd p))) ` set (p # es)) (view s) (view s')"
    using untouched_trans[OF h(1)[unfolded only_at_untouched] t1] by (simp add: p)
  moreover have "user' = user \<and> device' = device"
    if "device_key user' device' = e" "validate_id user' = Inr ()" "validate_id device' = Inr ()" for user' device'
    using device_key_inj[OF that(2,3) v(1,2)] that(1) v(3) by simp
  ultimately show ?case using t2 p by auto
qed simp

lemma delete_ok:
  assumes "js_sole J view"
  shows "delete_present J st n s = (s', Inr u) \<Longrightarrow> untouched {(st, n)} (view s) (view s') \<and> view s' (st, n) = None"
    and "delete_if_present J st n s = (s', Inr u) \<Longrightarrow> untouched {(st, n)} (view s) (view s') \<and> view s' (st, n) = None"
  using js_soleD(6,7)[OF assms] by (fastforce simp: delete_present_def delete_if_present_def result_simps only_at_untouched split: if_splits)+

lemma retire_consumers_ok:
  assumes "js_sole J view" "retire_consumers J n (view s (''CHAT'', n)) s = (s', Inr u)"
  shows "untouched {(''CHAT'', n), (''MAILBOX'', n)} (view s) (view s') \<and> view s' (''CHAT'', n) = None \<and> view s' (''MAILBOX'', n) = None"
proof -
  obtain s1 where s1: "(if view s (''CHAT'', n) \<noteq> None then delete_present J ''CHAT'' n s else (s, Inr ())) = (s1, Inr ())"
    and s2: "delete_if_present J ''MAILBOX'' n s1 = (s', Inr ())"
    using assms(2) by (auto simp: retire_consumers_def result_simps)
  have a: "untouched {(''CHAT'', n)} (view s) (view s1) \<and> view s1 (''CHAT'', n) = None"
    using s1 delete_ok(1)[OF assms(1)] by (auto split: if_splits)
  have b: "untouched {(''MAILBOX'', n)} (view s1) (view s') \<and> view s' (''MAILBOX'', n) = None"
    using s2 by (rule delete_ok(2)[OF assms(1)])
  have "view s' (''CHAT'', n) = view s1 (''CHAT'', n)" using b by (auto simp: untouched_def)
  then show ?thesis using a b untouched_trans[of "{(''CHAT'', n)}" "view s" "view s1" "{(''MAILBOX'', n)}" "view s'"]
    by (simp add: insert_commute)
qed

lemma refresh_consumer_ok:
  assumes "js_sole J view" "refresh_consumer J n filters (view s (''CHAT'', n)) s = (s', Inr u)"
  shows "untouched {(''CHAT'', n)} (view s) (view s') \<and> (\<exists>c. view s' (''CHAT'', n) = Some c \<and> chat_safe filters c)"
proof -
  have create: "untouched {(''CHAT'', n)} (view t) (view s') \<and> (\<exists>c. view s' (''CHAT'', n) = Some c \<and> chat_safe filters c)"
    if "js_create_consumer J ''CHAT'' n (chat_config filters) t = (s', Inr u)" for t
    using js_soleD(8)[OF assms(1) that] js_soleD(9)[OF assms(1) that]
    by (auto simp: only_at_untouched same_delivery_def chat_config_def chat_safe_def)
  show ?thesis
  proof (cases "view s (''CHAT'', n)")
    case None
    then show ?thesis using assms(2) create by (simp add: refresh_consumer_def)
  next
    case (Some c)
    show ?thesis
    proof (cases "chat_safe filters c")
      case True
      then show ?thesis using assms(2) Some by (simp add: refresh_consumer_def)
    next
      case False
      then obtain s1 where s1: "delete_present J ''CHAT'' n s = (s1, Inr ())"
        "js_create_consumer J ''CHAT'' n (chat_config filters) s1 = (s', Inr u)"
        using assms(2) Some by (auto simp: refresh_consumer_def result_simps)
      then show ?thesis using create delete_ok(1)[OF assms(1) s1(1)] untouched_trans by fastforce
    qed
  qed
qed

definition both_streams :: "string \<Rightarrow> (string \<times> string) set" where
  "both_streams key = {(''CHAT'', device_consumer key), (''MAILBOX'', device_consumer key)}"

lemma both_streams_mem [simp]: "(st, device_consumer key) \<in> both_streams k \<longleftrightarrow> key = k \<and> (st = ''CHAT'' \<or> st = ''MAILBOX'')"
  by (auto simp: both_streams_def)

lemma active_key:
  assumes "reg_inv E r" "d \<in> set (rg_devices r)"
  shows "dv_nkey d \<in> snd ` set (enrollment_entries r False) \<longleftrightarrow> \<not> dv_revoked d"
  using enrolled_keys[OF assms(1), of False] distinct_key_eq[OF reg_inv_endpoints(2)[OF assms(1)]] assms(2) by auto

lemma reconcile_device_ok:
  assumes "js_sole J view" "reg_inv E r" "d \<in> set (rg_devices r)" "reconcile_device E J r (dv_nkey d) s = (s', Inr u)"
  shows "untouched (both_streams (dv_nkey d)) (view s) (view s') \<and> chat_consumer_ok r d (view s') \<and>
    view s' (''MAILBOX'', device_consumer (dv_nkey d)) =
      (if dv_revoked d then None else view s (''MAILBOX'', device_consumer (dv_nkey d)))"
proof -
  let ?n = "device_consumer (dv_nkey d)"
  obtain s1 x where i: "js_consumer_info J ''CHAT'' ?n s = (s1, Inr x)"
    and k: "(if dv_nkey d \<notin> snd ` set (enrollment_entries r False) then retire_consumers J ?n x s1
      else bind_s (s1, authorized_groups E r (dv_nkey d)) (\<lambda>gids s. refresh_consumer J ?n (group_filters gids) x s)) = (s', Inr u)"
    using assms(4) unfolding reconcile_device_def Let_def bind_s_Inr by blast
  have v: "view s1 = view s" "x = view s1 (''CHAT'', ?n)"
    using js_soleD(4)[OF assms(1) i] js_soleD(5)[OF assms(1) i] by simp_all
  show ?thesis
  proof (cases "dv_revoked d")
    case True
    then have "retire_consumers J ?n (view s1 (''CHAT'', ?n)) s1 = (s', Inr u)" using k v active_key[OF assms(2,3)] by simp
    from retire_consumers_ok[OF assms(1) this] show ?thesis using True v by (simp add: both_streams_def chat_consumer_ok_def)
  next
    case False
    then obtain gids where g: "authorized_groups E r (dv_nkey d) = Inr gids"
      "refresh_consumer J ?n (group_filters gids) (view s1 (''CHAT'', ?n)) s1 = (s', Inr u)"
      using k v active_key[OF assms(2,3)] by (auto simp: result_simps)
    note h = refresh_consumer_ok[OF assms(1) g(2)]
    have "view s' (''MAILBOX'', ?n) = view s1 (''MAILBOX'', ?n)" using h by (auto simp: untouched_def)
    then show ?thesis using h False v authorized_groups_ok[OF g(1)]
      by (auto simp: both_streams_def chat_consumer_ok_def intro: untouched_mono)
  qed
qed

lemma reconcile_loop_ok:
  assumes "js_sole J view" "reg_inv E r" "set keys \<subseteq> dv_nkey ` set (rg_devices r)" "reconcile_loop E J r keys s = (s', Inr u)"
  shows "untouched (\<Union> (both_streams ` set keys)) (view s) (view s') \<and>
    (\<forall>d \<in> set (rg_devices r). (dv_nkey d \<in> set keys \<longrightarrow> chat_consumer_ok r d (view s')) \<and>
       view s' (''MAILBOX'', device_consumer (dv_nkey d)) =
         (if dv_revoked d \<and> dv_nkey d \<in> set keys then None else view s (''MAILBOX'', device_consumer (dv_nkey d))))"
  using assms(3,4)
proof (induction keys arbitrary: s)
  case (Cons key keys)
  obtain x where x: "x \<in> set (rg_devices r)" "dv_nkey x = key" using Cons.prems(1) by auto
  obtain s1 where s1: "reconcile_device E J r (dv_nkey x) s = (s1, Inr ())" "reconcile_loop E J r keys s1 = (s', Inr u)"
    using Cons.prems(2) x(2) by (auto simp: result_simps)
  note h = reconcile_device_ok[OF assms(1,2) x(1) s1(1)]
  have k: "set keys \<subseteq> dv_nkey ` set (rg_devices r)" using Cons.prems(1) by simp
  note t = Cons.IH[OF k s1(2)]
  have row: "d = x" if "d \<in> set (rg_devices r)" "dv_nkey d = key" for d
    using distinct_key_eq[OF reg_inv_endpoints(2)[OF assms(2)] that(1) x(1)] that(2) x(2) by simp
  have chat: "chat_consumer_ok r d (view s')" if d: "d \<in> set (rg_devices r)" "dv_nkey d \<in> set (key # keys)" for d
  proof (cases "dv_nkey d \<in> set keys")
    case True
    then show ?thesis using t d(1) by blast
  next
    case False
    then have e: "d = x" using row d by simp
    have "view s' (''CHAT'', device_consumer (dv_nkey d)) = view s1 (''CHAT'', device_consumer (dv_nkey d))"
      using t False by (intro untouchedD) auto
    then show ?thesis using h e by (simp add: chat_consumer_ok_def)
  qed
  have mail: "view s' (''MAILBOX'', device_consumer (dv_nkey d)) =
      (if dv_revoked d \<and> dv_nkey d \<in> set (key # keys) then None else view s (''MAILBOX'', device_consumer (dv_nkey d)))"
    if d: "d \<in> set (rg_devices r)" for d
  proof (cases "dv_nkey d = key")
    case True
    then show ?thesis using t h d row by auto
  next
    case False
    then have "view s1 (''MAILBOX'', device_consumer (dv_nkey d)) = view s (''MAILBOX'', device_consumer (dv_nkey d))"
      using h x(2) by (intro untouchedD[of "both_streams (dv_nkey x)"]) auto
    then show ?thesis using t d False by auto
  qed
  have "untouched (\<Union> (both_streams ` set (key # keys))) (view s) (view s')"
    using untouched_trans[of _ "view s" "view s1" _ "view s'"] h t x(2) by auto
  then show ?case using chat mail by blast
qed auto

lemma valid_entries:
  assumes "reg_inv E r"
  shows "\<forall>p \<in> set (enrollment_entries r inc). valid_entry p"
    and "\<forall>p \<in> set (enrollment_entries r inc). \<forall>q \<in> set (enrollment_entries r inc). snd p = snd q \<longrightarrow> p = q"
proof -
  have ok: "\<forall>d \<in> set (rg_devices r). device_ok E d" using assms by (simp add: reg_inv_def reg_tables_def list_all_iff)
  show "\<forall>p \<in> set (enrollment_entries r inc). valid_entry p"
  proof
    fix p assume "p \<in> set (enrollment_entries r inc)"
    then obtain d where "d \<in> set (rg_devices r)" "fst p = device_key (dv_user d) (dv_device_id d)"
      using enrollment_entries_iff[OF assms, of "fst p" "snd p" inc] by auto
    then show "valid_entry p" unfolding valid_entry_def using ok device_ok_ids by metis
  qed
  show "\<forall>p \<in> set (enrollment_entries r inc). \<forall>q \<in> set (enrollment_entries r inc). snd p = snd q \<longrightarrow> p = q"
  proof (intro ballI impI)
    fix p q assume pq: "p \<in> set (enrollment_entries r inc)" "q \<in> set (enrollment_entries r inc)" "snd p = snd q"
    obtain d where d: "d \<in> set (rg_devices r)" "fst p = device_key (dv_user d) (dv_device_id d)" "dv_nkey d = snd p"
      using enrollment_entries_iff[OF assms, of "fst p" "snd p" inc] pq(1) by auto
    obtain e where e: "e \<in> set (rg_devices r)" "fst q = device_key (dv_user e) (dv_device_id e)" "dv_nkey e = snd q"
      using enrollment_entries_iff[OF assms, of "fst q" "snd q" inc] pq(2) by auto
    have "d = e" using distinct_key_eq[OF reg_inv_endpoints(2)[OF assms] d(1) e(1)] d(3) e(3) pq(3) by simp
    then show "p = q" using d e pq(3) by (simp add: prod_eq_iff)
  qed
qed

lemma reconcile_consumers_inner_ok:
  assumes "js_sole J view" "reg_inv E r" "reconcile_consumers_inner E J r s = (s', Inr u)"
  shows "consumers_ok r (view s')"
proof -
  obtain s0 s1 s2 s3 where p: "js_get_stream J ''MAILBOX'' s = (s0, Inr ())" "mailboxes_loop E J (enrollment_entries r False) s0 = (s1, Inr ())"
    and q: "js_get_stream J ''CHAT'' s1 = (s2, Inr ())" "js_get_stream J ''MAILBOX'' s2 = (s3, Inr ())"
    and l: "reconcile_loop E J r (map snd (enrollment_entries r True)) s3 = (s', Inr u)"
    using assms(3) by (auto simp: reconcile_consumers_inner_def provision_mailboxes_def result_simps)
  have v: "view s3 = view s1" using js_soleD(1)[OF assms(1)] q by metis
  have keys: "set (map snd (enrollment_entries r True)) = dv_nkey ` set (rg_devices r)"
    using enrolled_keys[OF assms(2), of True] by auto
  note m = mailboxes_loop_ok[OF assms(1) valid_entries[OF assms(2)] p(2)]
  note t = reconcile_loop_ok[OF assms(1,2) equalityD1[OF keys] l]
  have "mailbox_consumer_ok d (view s')" if d: "d \<in> set (rg_devices r)" for d
  proof (cases "dv_revoked d")
    case False
    have "device_ok E d" using d assms(2) by (auto simp: reg_inv_def reg_tables_def list_all_iff)
    then have "\<exists>c. view s1 (''MAILBOX'', device_consumer (dv_nkey d)) = Some c \<and> mailbox_safe (dv_user d) (dv_device_id d) c"
      using m device_ok_ids enrollment_entries_iff[OF assms(2)] d False by blast
    then show ?thesis using t d False v by (auto simp: mailbox_consumer_ok_def)
  qed (use t d keys in \<open>auto simp: mailbox_consumer_ok_def\<close>)
  moreover have "chat_consumer_ok r d (view s')" if "d \<in> set (rg_devices r)" for d
    using t keys that by auto
  ultimately show ?thesis by (simp add: consumers_ok_def)
qed

section \<open>What a reconciliation leaves alone\<close>

text \<open>\<open>observes f v s\<close>: the observation \<open>f\<close> of the state \<open>s\<close> is still \<open>v\<close>.\<close>

definition observes :: "('s \<Rightarrow> 'v) \<Rightarrow> 'v \<Rightarrow> 's \<Rightarrow> bool" where
  "observes f v s \<longleftrightarrow> f s = v"

lemma js_frame_observes:
  assumes "js_frame J f" "observes f v s"
  shows "observes f v (fst (js_get_stream J st s))" "observes f v (fst (js_last_sequence J st s))"
    "observes f v (fst (js_publish J subj tag bs s))" "observes f v (fst (js_consumer_info J st n s))"
    "observes f v (fst (js_delete_consumer J st n s))" "observes f v (fst (js_create_consumer J st n c s))"
    "observes f v (fst (js_get_or_create_consumer J st n c s))"
  using assms by (simp_all add: js_frame_def observes_def)

lemma mailboxes_frame:
  assumes "js_frame J f" "observes f v s"
  shows "observes f v (fst (mailboxes_loop E J es s))"
  using assms(2)
proof (induction es arbitrary: s)
  case (Cons p es)
  have "observes f v (fst (provision_mailbox E J endpoint key s))" if "observes f v s" for endpoint key s
    using that by (auto simp: provision_mailbox_def split: list.split intro!: keeps[where P = "observes f v"] js_frame_observes[OF assms(1)])
  then show ?case using Cons by (cases p) (auto intro!: keeps[where P = "observes f v"])
qed simp

lemma reconcile_loop_frame:
  assumes "js_frame J f" "observes f v s"
  shows "observes f v (fst (reconcile_loop E J r keys s))"
  using assms(2)
proof (induction keys arbitrary: s)
  case (Cons key keys)
  note rules = keeps[where P = "observes f v"] js_frame_observes[OF assms(1)]
  have d: "observes f v (fst (delete_present J st n s))" "observes f v (fst (delete_if_present J st n s))" if "observes f v s" for st n s
    using that by (auto simp: delete_present_def delete_if_present_def intro!: rules)
  have "observes f v (fst (retire_consumers J n x s))" "observes f v (fst (refresh_consumer J n fs x s))" if "observes f v s" for n x fs s
    using that by (auto simp: retire_consumers_def refresh_consumer_def split: option.split intro!: rules d)
  then have "observes f v (fst (reconcile_device E J r key s))" if "observes f v s" for key s
    using that by (auto simp: reconcile_device_def Let_def intro!: rules)
  then show ?case using Cons by (auto intro!: rules)
qed simp

lemma reconcile_consumers_frame:
  assumes "js_frame J f" "observes f v s"
  shows "observes f v (fst (reconcile_consumers_inner E J r s))"
  unfolding reconcile_consumers_inner_def provision_mailboxes_def
  using assms(2) by (auto intro!: keeps[where P = "observes f v"] js_frame_observes[OF assms(1)] mailboxes_frame[OF assms(1)]
    reconcile_loop_frame[OF assms(1)])

end
