(* ===== verification/Service.thy ===== *)
theory Service
  imports Consumers Revocation
begin

text \<open>
  The service's main loop (\<open>epochgrid-service/src/dynamic.rs\<close>): start-up, control requests, the repair of
  interrupted operations and the admission gate around them, over the registry, the two buckets of
  the broker and its consumers. The clocks and the randomness of the calls inside one step are functions
  of a label of the call. A broker call that exceeds the deadline of the step counts as one that fails.
\<close>

section \<open>State\<close>

record 's nats =
  nt_log :: "'s kv"
  nt_directory :: "'s kv"
  nt_js :: "'s js"

record 's backend =
  bk_registry :: registry
  bk_store :: 's

record 's service =
  sv_backend :: "'s backend"
  sv_runtime :: runtime
  sv_control_rate :: rate_limit
  sv_revocation_rate :: rate_limit
  sv_denials :: denials
  sv_callout :: callout

record service_env =
  se_registry :: "string \<Rightarrow> registry_env"
  se_audit :: "string \<Rightarrow> audit_env"

definition on_store :: "('s \<Rightarrow> 's \<times> 'a result) \<Rightarrow> 's backend \<Rightarrow> 's backend \<times> 'a result" where
  "on_store m b = (case m (bk_store b) of (s, x) \<Rightarrow> (b\<lparr>bk_store := s\<rparr>, x))"

text \<open>A registry operation is a transaction of its own.\<close>

definition on_registry :: "(registry \<Rightarrow> registry result) \<Rightarrow> 's backend \<Rightarrow> 's backend \<times> unit result" where
  "on_registry m b = (case m (bk_registry b) of Inl e \<Rightarrow> (b, Inl e) | Inr r \<Rightarrow> (b\<lparr>bk_registry := r\<rparr>, Inr ()))"

definition on_audit :: "(registry \<Rightarrow> audit_db \<times> 'a) \<Rightarrow> 's backend \<Rightarrow> 's backend \<times> 'a" where
  "on_audit m b = (case m (bk_registry b) of (a, x) \<Rightarrow> (b\<lparr>bk_registry := (bk_registry b)\<lparr>rg_audit := a\<rparr>\<rparr>, x))"

definition on_backend :: "('s backend \<Rightarrow> 's backend \<times> 'a) \<Rightarrow> 's service \<Rightarrow> 's service \<times> 'a" where
  "on_backend m v = (case m (sv_backend v) of (b, x) \<Rightarrow> (v\<lparr>sv_backend := b\<rparr>, x))"

section \<open>Effects with an intent and a result\<close>

definition effect_result ::
    "'z authority_ext_scheme \<Rightarrow> rpager \<Rightarrow> audit_env \<Rightarrow> kind \<Rightarrow> string option \<Rightarrow> 's backend \<times> 'a result \<Rightarrow> 's backend \<times> 'a result" where
  "effect_result E P env k operation m =
     (case m of (b, result) \<Rightarrow>
       (fst (on_audit (\<lambda>r. (audit_effect_result E env (rg_capacity r) (audit_pager P r) k operation (is_ok result) (rg_audit r), ())) b),
        result))"

definition publish_registration ::
    "'z authority_ext_scheme \<Rightarrow> rpager \<Rightarrow> 's nats \<Rightarrow> keypair \<Rightarrow> service_env \<Rightarrow> enrollment \<Rightarrow> device_registration \<Rightarrow> bool
      \<Rightarrow> 's backend \<Rightarrow> 's backend \<times> unit result" where
  "publish_registration E P N k env enrollment registration required b =
     (let key = rp_nats_public_key (dr_payload registration) in
      bind_s (on_audit (\<lambda>r. audit_effect_target E (se_audit env (''intent:'' @ key)) (rg_capacity r) (audit_pager P r)
          (reference_device r) RegistrationPublication key required (rg_audit r)) b) (\<lambda>operation b.
      effect_result E P (se_audit env (''result:'' @ key)) RegistrationPublication operation
        (on_store (register E (nt_log N) (nt_directory N) enrollment k registration) b)))"

definition reconcile_consumers ::
    "'z authority_ext_scheme \<Rightarrow> rpager \<Rightarrow> 's nats \<Rightarrow> service_env \<Rightarrow> 's backend \<Rightarrow> 's backend \<times> unit result" where
  "reconcile_consumers E P N env b =
     (case on_audit (\<lambda>r. audit_effect E (se_audit env ''intent'') (rg_capacity r) (audit_pager P r) Reconciliation (rg_audit r)) b of
        (b, operation) \<Rightarrow>
          effect_result E P (se_audit env ''result'') Reconciliation operation
            (on_store (reconcile_consumers_inner E (nt_js N) (bk_registry b)) b))"

section \<open>Applying the published revocations\<close>

definition sorted_log_keys :: "revocation_log \<Rightarrow> string list" where
  "sorted_log_keys l = sort (remdups (map (rq_nkey \<circ> rv_request) (rl_entries l)))"

fun revoke_all ::
    "'z authority_ext_scheme \<Rightarrow> rpager \<Rightarrow> service_env \<Rightarrow> string list \<Rightarrow> 's backend \<Rightarrow> 's backend \<times> unit result" where
  "revoke_all E P env [] b = (b, Inr ())"
| "revoke_all E P env (key # keys) b =
     bind_s (on_registry (revoke E (se_registry env (''revoke:'' @ key)) P key) b) (\<lambda>_ b. revoke_all E P env keys b)"

definition apply_revocations ::
    "'z authority_ext_scheme \<Rightarrow> rpager \<Rightarrow> 's nats \<Rightarrow> service_env \<Rightarrow> 's backend \<Rightarrow> 's backend \<times> (snapshot \<times> revocation_log) result" where
  "apply_revocations E P N env b =
     bind_s (on_store (read_log E (nt_log N)) b) (\<lambda>sn b.
     bind_s (on_store (rev_read E (nt_log N) sn) b) (\<lambda>rl b.
     bind_s (revoke_all E P env (sorted_log_keys rl) b) (\<lambda>_ b.
     (b, Inr (sn, rl)))))"

text \<open>The loop that publishes and activates what an interrupted enrollment left behind.\<close>

fun republish ::
    "'z authority_ext_scheme \<Rightarrow> rpager \<Rightarrow> 's nats \<Rightarrow> keypair \<Rightarrow> service_env \<Rightarrow> enrollment \<Rightarrow> device_registration list
      \<Rightarrow> 's backend \<Rightarrow> 's backend \<times> unit result" where
  "republish E P N k env enrollment [] b = (b, Inr ())"
| "republish E P N k env enrollment (registration # rest) b =
     bind_s (publish_registration E P N k env enrollment registration False b) (\<lambda>_ b.
     bind_s (on_registry (activate E (se_registry env (''activate:'' @ rp_nats_public_key (dr_payload registration))) P
         (rp_nats_public_key (dr_payload registration))) b) (\<lambda>_ b.
     republish E P N k env enrollment rest b))"

definition repair_registrations ::
    "'z authority_ext_scheme \<Rightarrow> rpager \<Rightarrow> 's nats \<Rightarrow> keypair \<Rightarrow> service_env \<Rightarrow> enrollment \<Rightarrow> 's backend \<Rightarrow> 's backend \<times> unit result" where
  "repair_registrations E P N k env enrollment b =
     bind_s (b, registrations E (bk_registry b)) (\<lambda>pending b.
     bind_s (republish E P N k env enrollment pending b) (\<lambda>_ b.
     reconcile_consumers E P N env b))"

definition repair_state ::
    "'z authority_ext_scheme \<Rightarrow> rpager \<Rightarrow> 's nats \<Rightarrow> keypair \<Rightarrow> service_env \<Rightarrow> 's backend \<Rightarrow> 's backend \<times> unit result" where
  "repair_state E P N k env b =
     bind_s (apply_revocations E P N env b) (\<lambda>_ b.
     repair_registrations E P N k env (historical_enrollment (bk_registry b)) b)"

text \<open>
  \<open>serve_inner\<close> between the lookup of the buckets and the opening of the gate: the log is brought in
  step with the directory, the revocation log exists, and the same repairs run.
\<close>

definition serve_start ::
    "'z authority_ext_scheme \<Rightarrow> rpager \<Rightarrow> 's nats \<Rightarrow> keypair \<Rightarrow> service_env \<Rightarrow> 's backend \<Rightarrow> 's backend \<times> unit result" where
  "serve_start E P N k env b =
     (let enrollment = historical_enrollment (bk_registry b); keys = map fst (enrollment_entries (bk_registry b) True) in
      bind_s (on_store (reconcile E (nt_log N) (nt_directory N) enrollment keys k) b) (\<lambda>_ b.
      bind_s (on_store (read_log E (nt_log N)) b) (\<lambda>sn b.
      bind_s (on_store (rev_initialize E (nt_log N) sn k) b) (\<lambda>_ b.
      bind_s (on_store (rev_read E (nt_log N) sn) b) (\<lambda>rl b.
      bind_s (revoke_all E P env (sorted_log_keys rl) b) (\<lambda>_ b.
      repair_registrations E P N k env enrollment b))))))"

section \<open>Control requests\<close>

definition mutating :: "body \<Rightarrow> bool" where
  "mutating request = (case request of GroupPolicy _ \<Rightarrow> True | Enroll _ _ \<Rightarrow> True | Revoke _ \<Rightarrow> True | Register _ \<Rightarrow> True | _ \<Rightarrow> False)"

definition chat_cutoff :: "'s js \<Rightarrow> 's \<Rightarrow> 's \<times> nat result" where
  "chat_cutoff J s = bind_s (js_get_stream J ''CHAT'' s) (\<lambda>_ s. js_last_sequence J ''CHAT'' s)"

text \<open>The id of a validated relay is positive.\<close>

definition relay_tag :: "welcome_relay \<Rightarrow> string" where
  "relay_tag relay = ''welcome:'' @ wr_sender relay @ '':'' @ decimal_text (nat (wr_id relay))"

definition do_relay ::
    "'z authority_ext_scheme \<Rightarrow> 's nats \<Rightarrow> welcome_relay \<Rightarrow> 's backend \<Rightarrow> 's backend \<times> body result" where
  "do_relay E N relay b =
     bind_s (b, relay_validate E (bk_registry b) relay) (\<lambda>recipient b.
     bind_s (on_store (js_publish (nt_js N) recipient (relay_tag relay) (wr_payload relay)) b) (\<lambda>_ b. (b, Inr WelcomeRelayed)))"

definition do_policy ::
    "'z authority_ext_scheme \<Rightarrow> rpager \<Rightarrow> service_env \<Rightarrow> signed_policy \<Rightarrow> 's backend \<Rightarrow> 's backend \<times> body result" where
  "do_policy E P env policy b =
     (case apply_policy E (se_registry env ''policy'') P policy (bk_registry b) of
        (r, Inl e) \<Rightarrow> (b\<lparr>bk_registry := r\<rparr>, Inl e)
      | (r, Inr generation) \<Rightarrow> (b\<lparr>bk_registry := r\<rparr>, Inr (PolicyApplied generation)))"

definition do_enroll ::
    "'z authority_ext_scheme \<Rightarrow> rpager \<Rightarrow> 's nats \<Rightarrow> keypair \<Rightarrow> service_env \<Rightarrow> string \<Rightarrow> device_registration
      \<Rightarrow> 's backend \<Rightarrow> 's backend \<times> body result" where
  "do_enroll E P N k env token registration b =
     bind_s (on_registry (enroll E (se_registry env ''enroll'') P token registration) b) (\<lambda>_ b.
     bind_s (publish_registration E P N k env (active_enrollment (bk_registry b)) registration True b) (\<lambda>_ b.
     bind_s (on_registry (activate E (se_registry env ''activate'') P (rp_nats_public_key (dr_payload registration))) b) (\<lambda>_ b.
     (b, Inr Registered))))"

definition do_register ::
    "'z authority_ext_scheme \<Rightarrow> rpager \<Rightarrow> 's nats \<Rightarrow> keypair \<Rightarrow> service_env \<Rightarrow> device_registration
      \<Rightarrow> 's backend \<Rightarrow> 's backend \<times> body result" where
  "do_register E P N k env registration b =
     bind_s (b, authorize E (bk_registry b) (rp_nats_public_key (dr_payload registration))) (\<lambda>_ b.
     bind_s (publish_registration E P N k env (active_enrollment (bk_registry b)) registration True b) (\<lambda>_ b.
     (b, Inr Registered)))"

definition do_revoke ::
    "'z authority_ext_scheme \<Rightarrow> rpager \<Rightarrow> 's nats \<Rightarrow> keypair \<Rightarrow> service_env \<Rightarrow> snapshot \<Rightarrow> revocation_log \<Rightarrow> revoke_request
      \<Rightarrow> 's backend \<Rightarrow> 's backend \<times> body result" where
  "do_revoke E P N k env sn rl request b =
     bind_s (b, request_validate E request sn (rl_entries rl)) (\<lambda>_ b.
     case on_audit (\<lambda>r. audit_revocation_intent E (se_audit env ''revocation'') (rg_capacity r) (audit_pager P r)
         (reference_device r) (rq_nkey request) (rq_author request) (rg_audit r)) b of (b, operation) \<Rightarrow>
     bind_s (on_store (chat_cutoff (nt_js N)) b) (\<lambda>cutoff b.
     bind_s (effect_result E P (se_audit env ''revoked'') RevocationPublication operation
         (on_store (rev_append E (nt_log N) sn k request cutoff) b)) (\<lambda>revoked b.
     bind_s (revoke_all E P env (sorted_log_keys revoked) b) (\<lambda>_ b. (b, Inr Revoked)))))"

text \<open>The arms of the \<open>match\<close> on subject and request.\<close>

definition dispatch ::
    "'z authority_ext_scheme \<Rightarrow> rpager \<Rightarrow> 's nats \<Rightarrow> keypair \<Rightarrow> service_env \<Rightarrow> snapshot \<Rightarrow> revocation_log \<Rightarrow> string \<Rightarrow> body
      \<Rightarrow> 's backend \<Rightarrow> 's backend \<times> body result" where
  "dispatch E P N k env sn rl subj request b =
     (let r = bk_registry b; active = active_enrollment r in
      case request of
        PolicyQuery gid \<Rightarrow>
          if subj = POLICY_SUBJECT then (b, bind_r (policy_state r gid) (\<lambda>st. Inr (PolicyState st))) else (b, Inr Rejected)
      | RelayWelcome relay \<Rightarrow> if subj = RELAY_SUBJECT then do_relay E N relay b else (b, Inr Rejected)
      | ClaimKeyPackage user device gid \<Rightarrow>
          if subj = KEYPACKAGE then on_store (claim E (nt_directory N) active user device gid) b else (b, Inr Rejected)
      | GroupPolicy policy \<Rightarrow> if subj = POLICY_SUBJECT then do_policy E P env policy b else (b, Inr Rejected)
      | Enroll token registration \<Rightarrow>
          if subj = ENROLL then do_enroll E P N k env token registration b else (b, Inr Rejected)
      | Register registration \<Rightarrow>
          if subj = REGISTER then do_register E P N k env registration b else (b, Inr Rejected)
      | RegistrationAudit \<Rightarrow> (b, Inr (if subj = AUDIT then AuditLog sn else Rejected))
      | Audit \<Rightarrow> (b, Inr (if subj = AUDIT \<and> rl_entries rl = [] then AuditLog sn else Rejected))
      | RevocationAudit \<Rightarrow> (b, Inr (if subj = REVOCATIONS then RevocationLog rl else Rejected))
      | Revoke q \<Rightarrow>
          if subj = REVOKE then do_revoke E P N k env sn rl q b else (b, Inr Rejected)
      | Lookup user device \<Rightarrow>
          if subj = LOOKUP then on_store (find_device E (nt_directory N) active user device) b else (b, Inr Rejected)
      | ListDevices user \<Rightarrow>
          if subj = DEVICES
          then on_store (find_devices E (nt_directory N) active (map fst (enrollment_entries r False)) user) b
          else (b, Inr Rejected)
      | _ \<Rightarrow> (b, Inr Rejected))"

text \<open>The clock readings of one request: the rate limit, the gate's repair stamp, the denial summary.\<close>

record request_env =
  qe_first :: service_env
  qe_repair :: service_env
  qe_rate :: nat
  qe_done :: nat
  qe_repaired :: nat
  qe_denied :: nat
  qe_denial :: audit_env

definition count_control :: "((nat \<Rightarrow> nat) \<Rightarrow> counters \<Rightarrow> counters) \<Rightarrow> 's service \<Rightarrow> 's service" where
  "count_control update v = v\<lparr>sv_runtime := (sv_runtime v)\<lparr>ru_control := update increment (ru_control (sv_runtime v))\<rparr>\<rparr>"

definition set_gate :: "bool \<Rightarrow> 's service \<Rightarrow> 's service" where
  "set_gate is_open v = v\<lparr>sv_runtime := gate is_open (sv_runtime v)\<rparr>"

definition set_repaired :: "nat \<Rightarrow> bool \<Rightarrow> 's service \<Rightarrow> 's service" where
  "set_repaired now success v = v\<lparr>sv_runtime := repaired now success (sv_runtime v)\<rparr>"

definition take_rate :: "string \<Rightarrow> nat \<Rightarrow> 's service \<Rightarrow> 's service \<times> bool" where
  "take_rate subj now v =
     (if subj = REVOKE then (case allow now (sv_revocation_rate v) of (l, allowed) \<Rightarrow> (v\<lparr>sv_revocation_rate := l\<rparr>, allowed))
      else (case allow now (sv_control_rate v) of (l, allowed) \<Rightarrow> (v\<lparr>sv_control_rate := l\<rparr>, allowed)))"

definition perform ::
    "'z authority_ext_scheme \<Rightarrow> rpager \<Rightarrow> 's nats \<Rightarrow> keypair \<Rightarrow> request_env \<Rightarrow> string \<Rightarrow> body \<Rightarrow> 's service \<Rightarrow> 's service \<times> body result" where
  "perform E P N k env subj request v =
     (let v = (if mutating request then set_gate False v else v) in
      bind_s (on_backend (apply_revocations E P N (qe_first env)) v) (\<lambda>(sn, rl) v.
      bind_s (on_backend (dispatch E P N k (qe_first env) sn rl subj request) v) (\<lambda>reply v.
      if mutating request then
        bind_s (on_backend (reconcile_consumers E P N (qe_first env)) v) (\<lambda>_ v.
        (set_repaired (qe_done env) True (set_gate True v), Inr reply))
      else (v, Inr reply))))"

definition handle ::
    "'z authority_ext_scheme \<Rightarrow> rpager \<Rightarrow> 's nats \<Rightarrow> keypair \<Rightarrow> request_env \<Rightarrow> string \<Rightarrow> bytes \<Rightarrow> 's service \<Rightarrow> 's service \<times> body result" where
  "handle E P N k env subj payload v =
     (if length payload > MAX_WIRE then (count_control ct_malformed_update v, Inl (Anyhow ''oversized control request''))
      else case take_rate subj (qe_rate env) v of (v, permitted) \<Rightarrow>
        if \<not> permitted then (count_control ct_rate_limited_update v, Inl (Anyhow ''control overload''))
        else case decode E payload of
            Inl e \<Rightarrow> (count_control ct_malformed_update v, Inl e)
          | Inr request \<Rightarrow> perform E P N k env subj request v)"

text \<open>The repair after a request that left the gate closed.\<close>

definition repair_after ::
    "'z authority_ext_scheme \<Rightarrow> rpager \<Rightarrow> 's nats \<Rightarrow> keypair \<Rightarrow> service_env \<Rightarrow> nat \<Rightarrow> 's service \<Rightarrow> 's service" where
  "repair_after E P N k env now v =
     (if ru_reconciled (sv_runtime v) then v
      else case on_backend (repair_state E P N k env) v of (v, result) \<Rightarrow>
        (let v = set_repaired now (is_ok result) v in if is_ok result then set_gate True v else v))"

definition deny :: "'z authority_ext_scheme \<Rightarrow> rpager \<Rightarrow> request_env \<Rightarrow> 's service \<Rightarrow> 's service \<times> body" where
  "deny E P env v =
     (case on_backend (on_audit (\<lambda>r. prod.swap (observe_denial E (qe_denial env) (rg_capacity r) (audit_pager P r) (qe_denied env)
         (sv_denials v) (rg_audit r)))) (count_control ct_denied_update v) of (v, d) \<Rightarrow> (v\<lparr>sv_denials := d\<rparr>, Rejected))"

definition settle ::
    "'z authority_ext_scheme \<Rightarrow> rpager \<Rightarrow> request_env \<Rightarrow> 's service \<Rightarrow> body result \<Rightarrow> 's service \<times> body" where
  "settle E P env v response =
     (case response of
        Inr reply \<Rightarrow> if reply \<noteq> Rejected then (count_control ct_accepted_update v, reply) else deny E P env v
      | Inl _ \<Rightarrow> deny E P env v)"

definition encode_reply :: "'z externals_scheme \<Rightarrow> body \<Rightarrow> bytes result" where
  "encode_reply E reply = (case encode E reply of Inr bs \<Rightarrow> Inr bs | Inl _ \<Rightarrow> encode E Rejected)"

definition control_request ::
    "'z authority_ext_scheme \<Rightarrow> rpager \<Rightarrow> 's nats \<Rightarrow> keypair \<Rightarrow> request_env \<Rightarrow> string \<Rightarrow> bytes \<Rightarrow> 's service \<Rightarrow> 's service \<times> bytes result" where
  "control_request E P N k env subj payload v =
     (case handle E P N k env subj payload (count_control ct_received_update v) of (v, response) \<Rightarrow>
       (case settle E P env (repair_after E P N k (qe_repair env) (qe_repaired env) v) response of (v, reply) \<Rightarrow>
         (v, encode_reply E reply)))"

section \<open>The service as a machine\<close>

text \<open>
  What the main loop and the tasks beside it react to: a tick of the observation timer, a tick of the
  repair timer, a control request (over the worker's channel or with a reply inbox), a request of the
  callout with the header the server sets, the start of a worker's session, a renewal of its lease and its
  end, an invitation by the operator.
\<close>

datatype service_input =
    RefreshTick "audit_env list" nat nat nat
  | RepairTick service_env nat
  | ControlRequest request_env string bytes "string option" bool
  | AuthRequest callout_env nat "string option" "string option" bytes
  | WorkerLease bool nat
  | WorkerStarted
  | WorkerEnded
  | OperatorInvite registry_env string nat

definition refresh_tick ::
    "'z authority_ext_scheme \<Rightarrow> rpager \<Rightarrow> audit_env list \<Rightarrow> nat \<Rightarrow> nat \<Rightarrow> nat \<Rightarrow> 's service \<Rightarrow> 's service" where
  "refresh_tick E P envs start now done_at v =
     (case refresh E envs P start now done_at (sv_runtime v) (bk_registry (sv_backend v)) of (u, r) \<Rightarrow>
       v\<lparr>sv_runtime := u, sv_backend := (sv_backend v)\<lparr>bk_registry := r\<rparr>\<rparr>)"

definition repair_tick ::
    "'z authority_ext_scheme \<Rightarrow> rpager \<Rightarrow> 's nats \<Rightarrow> keypair \<Rightarrow> service_env \<Rightarrow> nat \<Rightarrow> 's service \<Rightarrow> 's service" where
  "repair_tick E P N k env now v =
     (if ru_reconciled (sv_runtime v) then v
      else case on_backend (repair_state E P N k env) v of (v, result) \<Rightarrow>
        if is_ok result then set_repaired now True (set_gate True v) else set_repaired now False v)"

definition inbox_reply :: "string \<Rightarrow> string option \<Rightarrow> bool" where
  "inbox_reply prefix reply = (case reply of None \<Rightarrow> False | Some to \<Rightarrow> starts_with prefix to)"

definition admission_ready :: "nat \<Rightarrow> 's service \<Rightarrow> bool" where
  "admission_ready now v =
     (if co_worker (sv_callout v) \<noteq> None then ready now (sv_runtime v) else ru_reconciled (sv_runtime v))"

definition auth_request ::
    "'z jwt_ext_scheme \<Rightarrow> rpager \<Rightarrow> callout_env \<Rightarrow> nat \<Rightarrow> string option \<Rightarrow> string option \<Rightarrow> bytes \<Rightarrow> 's service
      \<Rightarrow> 's service \<times> bytes option" where
  "auth_request E P env now reply xkey payload v =
     (if \<not> inbox_reply ''$SYS._INBOX.'' reply then (v, None)
      else case xkey of
          None \<Rightarrow> (v, None)
        | Some x \<Rightarrow>
            (case respond E env P x payload (admission_ready now v) (sv_callout v, bk_registry (sv_backend v)) of ((co, r), result) \<Rightarrow>
              (v\<lparr>sv_callout := co, sv_backend := (sv_backend v)\<lparr>bk_registry := r\<rparr>\<rparr>,
               case result of Inr sealed \<Rightarrow> Some sealed | Inl _ \<Rightarrow> None)))"

text \<open>What the listener of the local socket (\<open>roles.rs\<close>) does to the state of the runtime.\<close>

definition set_lease :: "bool \<Rightarrow> nat \<Rightarrow> 's service \<Rightarrow> 's service" where
  "set_lease live seen v = v\<lparr>sv_runtime := (sv_runtime v)\<lparr>ru_live := live, ru_last_seen := seen\<rparr>\<rparr>"

definition session_event :: "kind \<Rightarrow> event" where
  "session_event what = (committed what)\<lparr>e_actor := BoundWorker, e_stage := Observation\<rparr>"

definition worker_started :: "'s service \<Rightarrow> 's service" where
  "worker_started v = v\<lparr>sv_runtime := queue_audit (session_event WorkerSessionStarted) (sv_runtime v)\<rparr>"

definition worker_ended :: "'s service \<Rightarrow> 's service" where
  "worker_ended v =
     (let u = (sv_runtime v)\<lparr>ru_disconnects := increment (ru_disconnects (sv_runtime v))\<rparr>;
          u = queue_audit (session_event WorkerSessionEnded) u
      in v\<lparr>sv_runtime := u\<lparr>ru_live := False\<rparr>\<rparr>)"

fun service_step ::
    "'z jwt_ext_scheme \<Rightarrow> rpager \<Rightarrow> 's nats \<Rightarrow> keypair \<Rightarrow> 's service \<Rightarrow> service_input \<Rightarrow> 's service" where
  "service_step E P N k v (RefreshTick envs start now done_at) = refresh_tick E P envs start now done_at v"
| "service_step E P N k v (RepairTick env now) = repair_tick E P N k env now v"
| "service_step E P N k v (ControlRequest env subj payload reply local) =
     (if \<not> local \<and> \<not> inbox_reply ''_INBOX.'' reply then v else fst (control_request E P N k env subj payload v))"
| "service_step E P N k v (AuthRequest env now reply xkey payload) = fst (auth_request E P env now reply xkey payload v)"
| "service_step E P N k v (WorkerLease live seen) = set_lease live seen v"
| "service_step E P N k v WorkerStarted = worker_started v"
| "service_step E P N k v WorkerEnded = worker_ended v"
| "service_step E P N k v (OperatorInvite env name ttl) =
     v\<lparr>sv_backend := (sv_backend v)\<lparr>bk_registry := registry_step E P (bk_registry (sv_backend v)) (Invite env name ttl)\<rparr>\<rparr>"

end
