(* ===== verification/Sessions.thy ===== *)
theory Sessions
  imports Service "HOL-Library.Sublist"
begin

text \<open>
  The local control transport between the authority and the worker (\<open>epochgrid-service/src/roles.rs\<close>):
  role bindings, length-prefixed frames on a Unix stream, the session that the authority runs for a
  connected worker, the main loop's intake of queued requests, the worker's own loop, and the status
  socket. A stream is the list of the bytes that have arrived and are not read yet; a read that lacks
  bytes when its deadline passes is an error, as is a write that the peer did not take in full. The JSON
  codec is third-party code: the fields of \<open>ipc_ext\<close>.
\<close>

section \<open>Role bindings\<close>

definition IPC_VERSION :: nat where
  "IPC_VERSION = 1"

definition IPC_LIMIT :: nat where
  "IPC_LIMIT = 512 * 1024"

record bindings =
  bn_version :: nat
  bn_authority_uid :: nat
  bn_worker_uid :: nat
  bn_worker_nkey :: string
  bn_socket :: string

definition bindings_validate :: "'z jwt_ext_scheme \<Rightarrow> bindings \<Rightarrow> unit result" where
  "bindings_validate E b =
     ensure (bn_version b = IPC_VERSION \<and> bn_authority_uid b \<noteq> bn_worker_uid b) ''distinct authority and worker accounts required''
     (ensure (bn_authority_uid b \<noteq> 0 \<and> bn_worker_uid b \<noteq> 0) ''runtime roles must not run as root''
     (ensure (starts_with ''/'' (bn_socket b) \<and> length (bn_socket b) < 100) ''absolute short Unix socket path required''
     (bind_r (or_err (co_key_type E (bn_worker_nkey b)) (Extern ''invalid public key'')) (\<lambda>t.
      ensure (t = UserKey) ''invalid worker public key'' (Inr ())))))"

section \<open>Frames\<close>

datatype ipc_operation = OpReady | OpHeartbeat | OpRequest string bytes | OpResponse bytes | OpInspect
  | OpStatus bool bool | OpDiagnose nat | OpDiagnostic report

record frame =
  fr_version :: nat
  fr_sequence :: nat
  fr_operation :: ipc_operation

record ipc_ext =
  ix_json :: "frame \<Rightarrow> bytes option"
  ix_un_json :: "bytes \<Rightarrow> frame option"

text \<open>\<open>write_u32\<close> of a length \<open>as u32\<close> and \<open>read_u32\<close>: four bytes, the most significant first.\<close>

definition u32_bytes :: "nat \<Rightarrow> bytes" where
  "u32_bytes n = [of_nat (n div 2 ^ 24), of_nat (n div 2 ^ 16), of_nat (n div 2 ^ 8), of_nat n]"

fun read_u32 :: "bytes \<Rightarrow> (nat \<times> bytes) option" where
  "read_u32 (a # b # c # d # rest) = Some (unat a * 2 ^ 24 + unat b * 2 ^ 16 + unat c * 2 ^ 8 + unat d, rest)"
| "read_u32 _ = None"

definition read_limit :: "ipc_ext \<Rightarrow> nat \<Rightarrow> bytes \<Rightarrow> (frame \<times> bytes) result" where
  "read_limit X limit input =
     bind_r (or_err (read_u32 input) (Extern ''IPC read'')) (\<lambda>(size, rest).
     ensure (0 < size \<and> size \<le> limit) ''invalid IPC frame length''
     (ensure_e (size \<le> length rest) (Extern ''IPC read'')
     (bind_r (or_err (ix_un_json X (take size rest)) (Extern ''serde_json'')) (\<lambda>f.
      ensure (fr_version f = IPC_VERSION) ''unsupported IPC version'' (Inr (f, drop size rest))))))"

definition make_frame :: "nat \<Rightarrow> ipc_operation \<Rightarrow> frame" where
  "make_frame sequence operation = \<lparr>fr_version = IPC_VERSION, fr_sequence = sequence, fr_operation = operation\<rparr>"

definition write_frame :: "ipc_ext \<Rightarrow> nat \<Rightarrow> ipc_operation \<Rightarrow> bytes result" where
  "write_frame X sequence operation =
     bind_r (or_err (ix_json X (make_frame sequence operation)) (Extern ''serde_json'')) (\<lambda>bs.
     ensure (length bs \<le> IPC_LIMIT) ''IPC output too large'' (Inr (u32_bytes (length bs) @ bs)))"

text \<open>The documented contract of the codec: what it writes it reads back, and a document is not empty.\<close>

definition frames_roundtrip :: "ipc_ext \<Rightarrow> bool" where
  "frames_roundtrip X \<longleftrightarrow> (\<forall>f bs. ix_json X f = Some bs \<longrightarrow> ix_un_json X bs = Some f \<and> bs \<noteq> [])"

definition allowed :: "string \<Rightarrow> bool" where
  "allowed subj \<longleftrightarrow> subj \<in> set [REGISTER, LOOKUP, DEVICES, KEYPACKAGE, AUDIT, REVOKE, REVOCATIONS, ENROLL, POLICY_SUBJECT, RELAY_SUBJECT]"

section \<open>The authority's session with a worker\<close>

text \<open>
  Where the listener task stands: waiting for a connection, for the handshake, for the frame with the next
  sequence number, for room in the request channel, for the response of the main loop, or about to write it.
\<close>

datatype session_phase = NoSession | Greeting | Open nat | Sending nat string bytes | Waiting nat | Answering nat bytes

text \<open>
  The authority process: the service, the session, the request channel of capacity one with the \<open>active\<close>
  flag that a request shares with its session, and the two directions of the stream.
\<close>

record 's node =
  nd_service :: "'s service"
  nd_phase :: session_phase
  nd_queue :: "(string \<times> bytes \<times> bool) option"
  nd_input :: bytes
  nd_output :: bytes
  nd_running :: bool

definition take_frame :: "ipc_ext \<Rightarrow> 's node \<Rightarrow> 's node \<times> frame result" where
  "take_frame X a = (case read_limit X IPC_LIMIT (nd_input a) of
     Inl e \<Rightarrow> (a, Inl e) | Inr (f, rest) \<Rightarrow> (a\<lparr>nd_input := rest\<rparr>, Inr f))"

text \<open>\<open>accepted\<close> is the number of bytes that the stream takes before the deadline.\<close>

definition put_frame :: "ipc_ext \<Rightarrow> nat \<Rightarrow> nat \<Rightarrow> ipc_operation \<Rightarrow> 's node \<Rightarrow> 's node \<times> unit result" where
  "put_frame X accepted sequence operation a =
     bind_s (a, write_frame X sequence operation) (\<lambda>bs a.
     (a\<lparr>nd_output := nd_output a @ take accepted bs\<rparr>, if length bs \<le> accepted then Inr () else Inl (Extern ''IPC write'')))"

definition renew_lease :: "bool \<Rightarrow> nat \<Rightarrow> 's node \<Rightarrow> 's node" where
  "renew_lease live now a = a\<lparr>nd_service := set_lease live now (nd_service a)\<rparr>"

definition session_first :: "ipc_ext \<Rightarrow> nat \<Rightarrow> nat \<Rightarrow> 's node \<Rightarrow> 's node \<times> session_phase result" where
  "session_first X now accepted a =
     bind_s (take_frame X a) (\<lambda>first a.
     ensure_s (fr_sequence first = 0 \<and> fr_operation first = OpReady) ''worker handshake required'' a
     (bind_s (put_frame X accepted 0 OpHeartbeat a) (\<lambda>_ a.
     (renew_lease True now a, Inr (Open 1)))))"

definition session_reply :: "ipc_ext \<Rightarrow> nat \<Rightarrow> nat \<Rightarrow> ipc_operation \<Rightarrow> 's node \<Rightarrow> 's node \<times> session_phase result" where
  "session_reply X accepted sequence operation a =
     bind_s (put_frame X accepted sequence operation a) (\<lambda>_ a.
     ensure_s (sequence < U64_MAX) ''IPC sequence exhausted'' a (a, Inr (Open (sequence + 1))))"

definition session_frame :: "ipc_ext \<Rightarrow> nat \<Rightarrow> nat \<Rightarrow> nat \<Rightarrow> 's node \<Rightarrow> 's node \<times> session_phase result" where
  "session_frame X now accepted sequence a =
     bind_s (take_frame X a) (\<lambda>f a.
     ensure_s (fr_sequence f = sequence) ''stale IPC sequence'' a
     (let a = renew_lease (ru_live (sv_runtime (nd_service a))) now a in
      case fr_operation f of
        OpHeartbeat \<Rightarrow> session_reply X accepted sequence OpHeartbeat a
      | OpRequest subj payload \<Rightarrow>
          ensure_s (length payload \<le> MAX_WIRE \<and> allowed subj) ''invalid control request'' a
          (a, Inr (Sending sequence subj payload))
      | _ \<Rightarrow> (a, Inl (Anyhow ''unexpected IPC operation''))))"

text \<open>The end of a session: its requests are no longer active and the readiness of the worker is withdrawn.\<close>

definition end_session :: "'s node \<Rightarrow> 's node" where
  "end_session a = a\<lparr>nd_service := worker_ended (nd_service a), nd_phase := NoSession,
     nd_queue := map_option (\<lambda>(subj, payload, _). (subj, payload, False)) (nd_queue a)\<rparr>"

definition session_settle :: "'s node \<times> session_phase result \<Rightarrow> 's node" where
  "session_settle m = (case m of (a, Inr p) \<Rightarrow> a\<lparr>nd_phase := p\<rparr> | (a, Inl _) \<Rightarrow> end_session a)"

definition accept_worker :: "bindings \<Rightarrow> nat \<Rightarrow> 's node \<Rightarrow> 's node" where
  "accept_worker b uid a =
     (if nd_phase a = NoSession \<and> uid = bn_worker_uid b
      then a\<lparr>nd_service := worker_started (nd_service a), nd_phase := Greeting, nd_input := [], nd_output := []\<rparr> else a)"

definition read_session :: "ipc_ext \<Rightarrow> nat \<Rightarrow> nat \<Rightarrow> 's node \<Rightarrow> 's node" where
  "read_session X now accepted a =
     (case nd_phase a of
        Greeting \<Rightarrow> session_settle (session_first X now accepted a)
      | Open sequence \<Rightarrow> session_settle (session_frame X now accepted sequence a)
      | _ \<Rightarrow> a)"

text \<open>\<open>sender.send\<close> completes once the channel has room.\<close>

definition enqueue_request :: "'s node \<Rightarrow> 's node" where
  "enqueue_request a =
     (case (nd_phase a, nd_queue a) of
        (Sending sequence subj payload, None) \<Rightarrow> a\<lparr>nd_phase := Waiting sequence, nd_queue := Some (subj, payload, True)\<rparr>
      | _ \<Rightarrow> a)"

text \<open>
  One iteration of the main loop over the channel: \<open>next_request\<close> discards a request whose session has
  ended, any other one is served and its response goes to the session that waits for it. A response that cannot be
  encoded ends the service, and the listener with it.
\<close>

definition serve_request ::
    "'z authority_ext_scheme \<Rightarrow> rpager \<Rightarrow> 's nats \<Rightarrow> keypair \<Rightarrow> request_env \<Rightarrow> 's node \<Rightarrow> 's node" where
  "serve_request E P N k env a =
     (case nd_queue a of
        None \<Rightarrow> a
      | Some (subj, payload, active) \<Rightarrow>
          (let a = a\<lparr>nd_queue := None\<rparr> in
           if \<not> active then a
           else case control_request E P N k env subj payload (nd_service a) of
               (v, Inl _) \<Rightarrow> a\<lparr>nd_service := set_lease False (ru_last_seen (sv_runtime v)) v, nd_phase := NoSession, nd_running := False\<rparr>
             | (v, Inr bs) \<Rightarrow>
                 (let a = a\<lparr>nd_service := v\<rparr> in
                  case nd_phase a of Waiting sequence \<Rightarrow> a\<lparr>nd_phase := Answering sequence bs\<rparr> | _ \<Rightarrow> a)))"

definition reply_session :: "ipc_ext \<Rightarrow> nat \<Rightarrow> 's node \<Rightarrow> 's node" where
  "reply_session X accepted a =
     (case nd_phase a of
        Answering sequence bs \<Rightarrow> session_settle (session_reply X accepted sequence (OpResponse bs) a)
      | _ \<Rightarrow> a)"

text \<open>What reaches the main loop besides the requests of the local socket.\<close>

definition beside :: "service_input \<Rightarrow> bool" where
  "beside i = (case i of RefreshTick _ _ _ _ \<Rightarrow> True | RepairTick _ _ \<Rightarrow> True | AuthRequest _ _ _ _ _ \<Rightarrow> True
     | OperatorInvite _ _ _ \<Rightarrow> True | _ \<Rightarrow> False)"

datatype node_event = Accept nat | Deliver bytes | ReadFrame nat nat | Enqueue | Serve request_env | Reply nat | Expire
  | Beside service_input

text \<open>\<open>Expire\<close> is the deadline of a read, a send or a response, or a connection that the worker closes.\<close>

fun node_event_step ::
    "ipc_ext \<Rightarrow> 'z jwt_ext_scheme \<Rightarrow> rpager \<Rightarrow> 's nats \<Rightarrow> keypair \<Rightarrow> bindings \<Rightarrow> 's node \<Rightarrow> node_event \<Rightarrow> 's node" where
  "node_event_step X E P N k b a (Accept uid) = accept_worker b uid a"
| "node_event_step X E P N k b a (Deliver bs) = a\<lparr>nd_input := nd_input a @ bs\<rparr>"
| "node_event_step X E P N k b a (ReadFrame now accepted) = read_session X now accepted a"
| "node_event_step X E P N k b a Enqueue = enqueue_request a"
| "node_event_step X E P N k b a (Serve env) = serve_request E P N k env a"
| "node_event_step X E P N k b a (Reply accepted) = reply_session X accepted a"
| "node_event_step X E P N k b a Expire = (if nd_phase a = NoSession then a else end_session a)"
| "node_event_step X E P N k b a (Beside i) =
     (if beside i then a\<lparr>nd_service := service_step E P N k (nd_service a) i\<rparr> else a)"

definition node_step ::
    "ipc_ext \<Rightarrow> 'z jwt_ext_scheme \<Rightarrow> rpager \<Rightarrow> 's nats \<Rightarrow> keypair \<Rightarrow> bindings \<Rightarrow> 's node \<Rightarrow> node_event \<Rightarrow> 's node" where
  "node_step X E P N k b a e = (if nd_running a then node_event_step X E P N k b a e else a)"

section \<open>The worker\<close>

datatype worker_phase = Hello | Idle nat | Expect nat "string option" | Stopped

record worker =
  wk_phase :: worker_phase
  wk_input :: bytes
  wk_output :: bytes
  wk_published :: "(string \<times> bytes) list"

definition worker_send :: "ipc_ext \<Rightarrow> nat \<Rightarrow> nat \<Rightarrow> ipc_operation \<Rightarrow> worker_phase \<Rightarrow> worker \<Rightarrow> worker" where
  "worker_send X accepted sequence operation next w =
     (case write_frame X sequence operation of
        Inl _ \<Rightarrow> w\<lparr>wk_phase := Stopped\<rparr>
      | Inr bs \<Rightarrow> w\<lparr>wk_output := wk_output w @ take accepted bs, wk_phase := (if length bs \<le> accepted then next else Stopped)\<rparr>)"

text \<open>The connection: the account at the other end is the authority's, and the handshake is written.\<close>

definition worker_connect :: "ipc_ext \<Rightarrow> bindings \<Rightarrow> nat \<Rightarrow> nat \<Rightarrow> worker" where
  "worker_connect X b peer accepted =
     (let w = \<lparr>wk_phase = Stopped, wk_input = [], wk_output = [], wk_published = []\<rparr>
      in if peer = bn_authority_uid b then worker_send X accepted 0 OpReady Hello w else w)"

definition worker_tick :: "ipc_ext \<Rightarrow> nat \<Rightarrow> worker \<Rightarrow> worker" where
  "worker_tick X accepted w =
     (case wk_phase w of Idle sequence \<Rightarrow> worker_send X accepted sequence OpHeartbeat (Expect sequence None) w | _ \<Rightarrow> w)"

definition forwardable :: "string \<Rightarrow> bytes \<Rightarrow> string option \<Rightarrow> bool" where
  "forwardable subj payload reply \<longleftrightarrow> inbox_reply ''_INBOX.'' reply \<and> allowed subj \<and> length payload \<le> MAX_WIRE"

definition worker_control :: "ipc_ext \<Rightarrow> nat \<Rightarrow> string \<Rightarrow> bytes \<Rightarrow> string option \<Rightarrow> worker \<Rightarrow> worker" where
  "worker_control X accepted subj payload reply w =
     (case wk_phase w of
        Idle sequence \<Rightarrow>
          if forwardable subj payload reply then worker_send X accepted sequence (OpRequest subj payload) (Expect sequence reply) w else w
      | _ \<Rightarrow> w)"

text \<open>The reading of a response; \<open>delivered\<close> tells whether the publication to the reply subject succeeds.\<close>

definition worker_next :: "nat \<Rightarrow> worker \<Rightarrow> worker" where
  "worker_next sequence w = w\<lparr>wk_phase := (if sequence < U64_MAX then Idle (sequence + 1) else Stopped)\<rparr>"

definition worker_response :: "bool \<Rightarrow> nat \<Rightarrow> string option \<Rightarrow> frame \<Rightarrow> worker \<Rightarrow> worker" where
  "worker_response delivered sequence reply f w =
     (if fr_sequence f \<noteq> sequence then w\<lparr>wk_phase := Stopped\<rparr>
      else case (reply, fr_operation f) of
          (Some to, OpResponse payload) \<Rightarrow>
            if length payload \<le> MAX_WIRE \<and> delivered
            then worker_next sequence (w\<lparr>wk_published := wk_published w @ [(to, payload)]\<rparr>) else w\<lparr>wk_phase := Stopped\<rparr>
        | (None, OpHeartbeat) \<Rightarrow> worker_next sequence w
        | _ \<Rightarrow> w\<lparr>wk_phase := Stopped\<rparr>)"

definition worker_greeted :: "frame \<Rightarrow> worker \<Rightarrow> worker" where
  "worker_greeted f w = w\<lparr>wk_phase := (if fr_sequence f = 0 \<and> fr_operation f = OpHeartbeat then Idle 1 else Stopped)\<rparr>"

definition worker_read :: "ipc_ext \<Rightarrow> bool \<Rightarrow> worker \<Rightarrow> worker" where
  "worker_read X delivered w =
     (case wk_phase w of
        Idle _ \<Rightarrow> w
      | Stopped \<Rightarrow> w
      | p \<Rightarrow>
          (case read_limit X IPC_LIMIT (wk_input w) of
             Inl _ \<Rightarrow> w\<lparr>wk_phase := Stopped\<rparr>
           | Inr (f, rest) \<Rightarrow>
               (let w = w\<lparr>wk_input := rest\<rparr> in
                case p of Expect sequence reply \<Rightarrow> worker_response delivered sequence reply f w | _ \<Rightarrow> worker_greeted f w)))"

section \<open>The status socket\<close>

text \<open>
  The listener of the status socket: the peer's account decides the view, one small frame is read, and
  nothing of the runtime changes. \<open>snapshot\<close> is \<open>Runtime::snapshot\<close>.
\<close>

definition status_role :: "bindings \<Rightarrow> nat \<Rightarrow> role option" where
  "status_role b uid = (if uid = bn_authority_uid b then Some RoleAuthority else if uid = bn_worker_uid b then Some RoleControl else None)"

definition status_answer :: "report \<Rightarrow> ipc_operation \<Rightarrow> ipc_operation result" where
  "status_answer rep operation =
     (case operation of
        OpInspect \<Rightarrow>
          bind_r (or_err (rp_observations rep) (Anyhow ''runtime unavailable'')) (\<lambda>obs.
          Inr (OpStatus (ob_reconciled obs) (ob_worker_live obs)))
      | OpDiagnose version \<Rightarrow> if version = 1 then Inr (OpDiagnostic rep) else Inl (Anyhow ''unsupported status operation'')
      | _ \<Rightarrow> Inl (Anyhow ''unsupported status operation''))"

definition status_reply :: "ipc_ext \<Rightarrow> bindings \<Rightarrow> nat \<Rightarrow> (role \<Rightarrow> report) \<Rightarrow> bytes \<Rightarrow> bytes result" where
  "status_reply X b uid snapshot input =
     bind_r (or_err (status_role b uid) (Extern ''connection closed'')) (\<lambda>r.
     bind_r (read_limit X 256 input) (\<lambda>(request, _).
     ensure (fr_sequence request = 0) ''status sequence required''
     (bind_r (status_answer (snapshot r) (fr_operation request)) (\<lambda>response.
      bind_r (or_err (ix_json X (make_frame 0 response)) (Extern ''serde_json'')) (\<lambda>bs.
      ensure (length bs \<le> MAX_REPORT) ''diagnostic output limit'' (Inr (u32_bytes (length bs) @ bs)))))))"

text \<open>
  The readers. \<open>peer\<close> is the account at the other end of the status socket, or \<open>None\<close> when the
  connection fails; \<open>reply\<close> maps the bytes of the request to the bytes of the answer, and to \<open>None\<close>
  when the deadline passes first.
\<close>

definition inspect :: "ipc_ext \<Rightarrow> bindings \<Rightarrow> nat option \<Rightarrow> (bytes \<Rightarrow> bytes option) \<Rightarrow> bool result" where
  "inspect X b peer reply =
     bind_r (or_err peer (Extern ''connect'')) (\<lambda>uid.
     ensure (uid = bn_authority_uid b) ''unexpected authority peer''
     (bind_r (write_frame X 0 OpInspect) (\<lambda>request.
      bind_r (or_err (reply request) (Anyhow ''role inspection deadline'')) (\<lambda>input.
      bind_r (read_limit X IPC_LIMIT input) (\<lambda>(response, _).
      ensure (fr_sequence response = 0) ''invalid status sequence''
      (case fr_operation response of
         OpStatus reconciled live \<Rightarrow> Inr (reconciled \<and> live)
       | _ \<Rightarrow> Inl (Anyhow ''status response required'')))))))"

definition diagnostic_status ::
    "ipc_ext \<Rightarrow> (report \<Rightarrow> bytes option) \<Rightarrow> (bytes \<Rightarrow> report option) \<Rightarrow> role \<Rightarrow> bindings result \<Rightarrow> nat option
      \<Rightarrow> (bytes \<Rightarrow> bytes option) \<Rightarrow> report" where
  "diagnostic_status X json un_json r config peer reply =
     (case config of
        Inl _ \<Rightarrow> report_unknown r ConfigurationInvalid
      | Inr b \<Rightarrow>
          if peer \<noteq> Some (bn_authority_uid b) then report_unknown r AuthorityUnavailable
          else case write_frame X 0 (OpDiagnose 1) of
              Inl _ \<Rightarrow> report_unknown r AuthorityUnavailable
            | Inr request \<Rightarrow>
                (case reply request of
                   None \<Rightarrow> report_unknown r ObservationTimeout
                 | Some input \<Rightarrow>
                     (case bind_r (read_limit X MAX_REPORT input) (\<lambda>(f, _).
                        ensure (fr_sequence f = 0) ''unsupported''
                        (case fr_operation f of
                           OpDiagnostic rep \<Rightarrow> bind_r (or_err (json rep) (Extern ''serde_json'')) (\<lambda>bs. report_parse un_json bs r)
                         | _ \<Rightarrow> Inl (Anyhow ''unsupported'')))
                      of Inr rep \<Rightarrow> rep | Inl _ \<Rightarrow> report_unknown r UnsupportedResponse)))"

section \<open>Framing\<close>

lemma be_digit: "unat (of_nat n :: byte) = n mod 256"
  by (simp add: unsigned_of_nat take_bit_eq_mod)

lemma read_u32_bytes: "n < 2 ^ 32 \<Longrightarrow> read_u32 (u32_bytes n @ rest) = Some (n, rest)"
proof -
  assume n: "n < 2 ^ 32"
  have d: "n div 65536 = n div 256 div 256" "n div 16777216 = n div 65536 div 256" by (simp_all flip: div_mult2_eq)
  have m: "x = 256 * (x div 256) + x mod 256" for x :: nat by simp
  have "n div 16777216 < 256" using n by (simp add: less_mult_imp_div_less)
  then have a: "n = 256 * (n div 256) + n mod 256" "n div 256 = 256 * (n div 65536) + n div 256 mod 256"
    "n div 65536 = 256 * (n div 16777216) + n div 65536 mod 256" "n div 16777216 mod 256 = n div 16777216"
    unfolding d by simp_all
  have "hi * 16777216 + z * 65536 + y * 256 + x = n" if "n = 256 * lo + x" "lo = 256 * mid + y" "mid = 256 * hi + z" for lo mid hi x y z
    using that by simp
  from this[OF a(1-3)] have "n div 16777216 * 16777216 + n div 65536 mod 256 * 65536 + n div 256 mod 256 * 256 + n mod 256 = n" .
  then show ?thesis using a(4) by (simp add: u32_bytes_def be_digit)
qed

lemma length_u32_bytes [simp]: "length (u32_bytes n) = 4"
  by (simp add: u32_bytes_def)

lemma read_u32_Some: "read_u32 bs = Some (n, rest) \<Longrightarrow> 4 \<le> length bs \<and> rest = drop 4 bs"
  by (cases bs rule: read_u32.cases) auto

lemma read_u32_append: "read_u32 bs = Some (n, rest) \<Longrightarrow> read_u32 (bs @ more_bytes) = Some (n, rest @ more_bytes)"
  by (cases bs rule: read_u32.cases) auto

text \<open>What arrives later does not change a frame that could be read.\<close>

lemma read_limit_append:
  "read_limit X limit bs = Inr (f, rest) \<Longrightarrow> read_limit X limit (bs @ later) = Inr (f, rest @ later)"
  by (force simp: read_limit_def result_simps dest: read_u32_append[of _ _ _ later])

text \<open>A document of admissible length is read back, whatever follows it.\<close>

lemma read_document:
  assumes "frames_roundtrip X" "ix_json X f = Some bs" "fr_version f = IPC_VERSION" "length bs \<le> limit" "limit < 2 ^ 32"
  shows "read_limit X limit ((u32_bytes (length bs) @ bs) @ rest) = Inr (f, rest)"
proof -
  have "ix_un_json X bs = Some f" "bs \<noteq> []" using assms(1,2) by (auto simp: frames_roundtrip_def)
  then show ?thesis using assms(3-5) read_u32_bytes[of "length bs" "bs @ rest"] by (simp add: read_limit_def)
qed

lemma read_written:
  assumes "frames_roundtrip X" "write_frame X sequence operation = Inr bs"
  shows "read_limit X IPC_LIMIT (bs @ rest) = Inr (make_frame sequence operation, rest)"
  using assms read_document[OF assms(1), of "make_frame sequence operation" _ IPC_LIMIT rest]
  by (auto simp: write_frame_def result_simps make_frame_def IPC_LIMIT_def)

text \<open>Of the bytes of one written frame a reader gets that frame, in full, or nothing.\<close>

lemma read_prefix:
  assumes "frames_roundtrip X" "write_frame X sequence operation = Inr bs" "prefix input bs"
    "read_limit X IPC_LIMIT input = Inr (f, rest)"
  shows "f = make_frame sequence operation \<and> rest = [] \<and> input = bs"
proof -
  obtain later where l: "bs = input @ later" using assms(3) by (auto simp: prefix_def)
  have "read_limit X IPC_LIMIT bs = Inr (make_frame sequence operation, [])" using read_written[OF assms(1,2), of "[]"] by simp
  then show ?thesis using read_limit_append[OF assms(4), of later] l by simp
qed

lemma read_nothing [simp]: "\<exists>e. read_limit X limit [] = Inl e"
  by (simp add: read_limit_def)

end
