(* ===== verification/Admission.thy ===== *)
theory Admission
  imports Service Callout_Properties
begin

text \<open>
  The invariant of the service: while its gate is open, every key of the published revocation log is
  retired in the registry and the consumers of the broker deliver what the policy says. The service is the
  only writer of the log and the only administrator of the consumers (it holds the only credentials for
  them); nothing is assumed of calls without an answer beyond the key they name.
\<close>

section \<open>The contract of the broker\<close>

definition kv_sole :: "('s, 'z) kv_scheme \<Rightarrow> ('s \<Rightarrow> string \<Rightarrow> bytes option) \<Rightarrow> bool" where
  "kv_sole K view \<longleftrightarrow>
     (\<forall>key s s' x. kv_entry K key s = (s', x) \<longrightarrow> view s' = view s \<and> (\<forall>v n. x = Inr (Some (v, n)) \<longrightarrow> view s key = Some v)) \<and>
     (\<forall>key s s' x. kv_get K key s = (s', x) \<longrightarrow> view s' = view s \<and> (\<forall>v. x = Inr v \<longrightarrow> view s key = v)) \<and>
     (\<forall>key b n s s' stored. kv_update K key b n s = (s', stored) \<longrightarrow>
        view s' = (view s)(key \<mapsto> b) \<or> \<not> stored \<and> view s' = view s) \<and>
     (\<forall>key b s s' stored. kv_create K key b s = (s', stored) \<longrightarrow>
        view s' = (view s)(key \<mapsto> b) \<or> \<not> stored \<and> view s' = view s)"

definition kv_frame :: "('s, 'z) kv_scheme \<Rightarrow> ('s \<Rightarrow> 'v) \<Rightarrow> bool" where
  "kv_frame K f \<longleftrightarrow>
     (\<forall>key s. f (fst (kv_entry K key s)) = f s) \<and> (\<forall>key s. f (fst (kv_get K key s)) = f s) \<and>
     (\<forall>key b n s. f (fst (kv_update K key b n s)) = f s) \<and> (\<forall>key b s. f (fst (kv_create K key b s)) = f s)"

type_synonym 's log_view = "'s \<Rightarrow> string \<Rightarrow> bytes option"

text \<open>
  The broker as the service sees it: \<open>vlog\<close> is the bucket of the transparency and the revocation log,
  \<open>vcons\<close> the consumers. The three interfaces do not touch each other.
\<close>

locale sole_broker =
  fixes N :: "'s nats" and vlog :: "'s log_view" and vcons :: "'s consumer_view"
  assumes log_sole: "kv_sole (nt_log N) vlog"
    and log_frame: "kv_frame (nt_log N) vcons"
    and directory_frame_log: "kv_frame (nt_directory N) vlog"
    and directory_frame_consumers: "kv_frame (nt_directory N) vcons"
    and consumers_sole: "js_sole (nt_js N) vcons"
    and consumers_frame: "js_frame (nt_js N) vlog"

lemma kv_soleD:
  assumes "kv_sole K view"
  shows "kv_entry K key s = (s', x) \<Longrightarrow> view s' = view s"
    and "kv_entry K key s = (s', Inr (Some (w, n))) \<Longrightarrow> view s key = Some w"
    and "kv_get K key s = (s', y) \<Longrightarrow> view s' = view s"
    and "kv_get K key s = (s', Inr v) \<Longrightarrow> view s key = v"
    and "kv_update K key b m s = (s', stored) \<Longrightarrow> view s' = (view s)(key \<mapsto> b) \<or> \<not> stored \<and> view s' = view s"
    and "kv_create K key b s = (s', stored) \<Longrightarrow> view s' = (view s)(key \<mapsto> b) \<or> \<not> stored \<and> view s' = view s"
proof -
  note c = assms[unfolded kv_sole_def]
  show "kv_entry K key s = (s', x) \<Longrightarrow> view s' = view s" "kv_entry K key s = (s', Inr (Some (w, n))) \<Longrightarrow> view s key = Some w"
    using c[THEN conjunct1] by blast+
  show "kv_get K key s = (s', y) \<Longrightarrow> view s' = view s" "kv_get K key s = (s', Inr v) \<Longrightarrow> view s key = v"
    using c[THEN conjunct2, THEN conjunct1] by blast+
  show "kv_update K key b m s = (s', stored) \<Longrightarrow> view s' = (view s)(key \<mapsto> b) \<or> \<not> stored \<and> view s' = view s"
    using c[THEN conjunct2, THEN conjunct2, THEN conjunct1] by blast
  show "kv_create K key b s = (s', stored) \<Longrightarrow> view s' = (view s)(key \<mapsto> b) \<or> \<not> stored \<and> view s' = view s"
    using c[THEN conjunct2, THEN conjunct2, THEN conjunct2] by blast
qed

lemma kv_sole_acks:
  assumes "kv_sole K view"
  shows "kv_acks K view"
  unfolding kv_acks_def
proof (intro conjI allI impI)
  fix key s s' v n assume e: "kv_entry K key s = (s', Inr (Some (v, n)))"
  show "view s' key = Some v" using kv_soleD(1)[OF assms e] kv_soleD(2)[OF assms e] by simp
next
  fix key s s' v assume e: "kv_get K key s = (s', Inr v)"
  show "view s' key = v" using kv_soleD(3)[OF assms e] kv_soleD(4)[OF assms e] by simp
next
  fix key b n s s' assume e: "kv_update K key b n s = (s', True)"
  show "view s' key = Some b" using kv_soleD(5)[OF assms e] by simp
next
  fix key b s s' assume e: "kv_create K key b s = (s', True)"
  show "view s' key = Some b" using kv_soleD(6)[OF assms e] by simp
qed

lemma kv_frame_observes:
  assumes "kv_frame K f" "observes f v s"
  shows "observes f v (fst (kv_entry K key s))" "observes f v (fst (kv_get K key s))"
    "observes f v (fst (kv_update K key b n s))" "observes f v (fst (kv_create K key b s))"
  using assms by (simp_all add: kv_frame_def observes_def)

section \<open>What the log says\<close>

definition snapshot_keys :: "snapshot \<Rightarrow> string set" where
  "snapshot_keys sn = (\<lambda>r. rp_nats_public_key (dr_payload r)) ` set (sn_entries sn)"

definition logged :: "'z externals_scheme \<Rightarrow> (string \<Rightarrow> bytes option) \<Rightarrow> string set" where
  "logged E m = (case m ''snapshot'' of None \<Rightarrow> {} | Some bs \<Rightarrow>
     (case decode E bs of Inr (AuditLog sn) \<Rightarrow> snapshot_keys sn | _ \<Rightarrow> {}))"

definition published :: "'z externals_scheme \<Rightarrow> (string \<Rightarrow> bytes option) \<Rightarrow> string set" where
  "published E m = (case m ''revocations'' of None \<Rightarrow> {} | Some bs \<Rightarrow>
     (case decode E bs of Inr (RevocationLog l) \<Rightarrow> log_keys l | _ \<Rightarrow> {}))"

lemma logged_upd: "logged E (m(''revocations'' \<mapsto> b)) = logged E m"
  and published_upd: "published E (m(''snapshot'' \<mapsto> b)) = published E m"
  by (simp_all add: logged_def published_def)

text \<open>The calls that append keep the rest of the log and add at most the named key.\<close>

definition grows_to :: "'z externals_scheme \<Rightarrow> string set \<Rightarrow> (string \<Rightarrow> bytes option) \<Rightarrow> (string \<Rightarrow> bytes option) \<Rightarrow> bool" where
  "grows_to E K m m' \<longleftrightarrow> logged E m' \<subseteq> logged E m \<union> K \<and> m' ''revocations'' = m ''revocations''"

lemma grows_to_refl [simp, intro]: "grows_to E K m m"
  by (simp add: grows_to_def)

lemma grows_to_trans: "grows_to E K m m1 \<Longrightarrow> grows_to E K m1 m2 \<Longrightarrow> grows_to E K m m2"
  by (auto simp: grows_to_def)

lemma grows_to_mono: "grows_to E K m m' \<Longrightarrow> K \<subseteq> L \<Longrightarrow> grows_to E L m m'"
  by (auto simp: grows_to_def)

lemma append_loop_grows:
  assumes "kv_sole K view" "postcard_roundtrip E"
  shows "grows_to E {rp_nats_public_key (dr_payload r)} (view s) (view (fst (append_loop n E K k r s)))"
proof (induction n arbitrary: s)
  case (Suc n)
  obtain s1 x where e: "kv_entry K ''snapshot'' s = (s1, x)" by fastforce
  note v1 = kv_soleD(1)[OF assms(1) e]
  show ?case
  proof (cases "\<exists>current rv bs. x = Inr (Some (current, rv)) \<and> append_candidate E k r current = Inr (Some bs)")
    case False
    then have "fst (append_loop (Suc n) E K k r s) = s1"
      by (cases x) (auto simp: e bind_s_def or_err_def split: option.splits sum.splits)
    then show ?thesis by (simp add: v1)
  next
    case True
    then obtain current rv bs where x: "x = Inr (Some (current, rv))" "append_candidate E k r current = Inr (Some bs)" by blast
    obtain s2 stored where u: "kv_update K ''snapshot'' bs rv s1 = (s2, stored)" by fastforce
    obtain sn sn' where c: "decode E current = Inr (AuditLog sn)" "decode E bs = Inr (AuditLog sn')" "sn_entries sn' = sn_entries sn @ [r]"
      using append_candidate_Some[OF assms(2) x(2)] by (auto simp: decode_snapshot_ok)
    have "logged E ((view s1)(''snapshot'' \<mapsto> bs)) = logged E (view s) \<union> {rp_nats_public_key (dr_payload r)}"
      using c kv_soleD(2)[OF assms(1), of "''snapshot''" s s1 current rv] e x
      by (auto simp: logged_def snapshot_keys_def)
    then have "grows_to E {rp_nats_public_key (dr_payload r)} (view s) ((view s1)(''snapshot'' \<mapsto> bs))"
      using v1 by (simp add: grows_to_def)
    then have g: "grows_to E {rp_nats_public_key (dr_payload r)} (view s) (view s2)"
      using kv_soleD(5)[OF assms(1) u] v1 by auto
    have "fst (append_loop (Suc n) E K k r s) = (if stored then s2 else fst (append_loop n E K k r s2))"
      by (simp add: e x u)
    then show ?thesis using g Suc[of s2] by (auto intro: grows_to_trans)
  qed
qed simp

lemma grows_to_observes: "grows_to E K m (view s) \<Longrightarrow> observes view (view s) s' \<Longrightarrow> grows_to E K m (view s')"
  by (simp add: observes_def)

text \<open>Reading or projecting to the directory leaves the log as it is.\<close>

lemma create_or_match_frame:
  assumes "kv_frame D f" "observes f v s"
  shows "observes f v (fst (create_or_match D key bs msg a s))"
proof -
  obtain t stored where t: "kv_create D key bs s = (t, stored)" by fastforce
  then have o: "observes f v t" using kv_frame_observes(4)[OF assms, of key bs] by simp
  have "observes f v (fst (bind_s (kv_get D key t) (\<lambda>existing s. ensure_s (existing = Some bs) msg s (s, Inr a))))"
    by (intro keeping[where P = "observes f v"] kv_frame_observes(2)[OF assms(1)] o)
  then show ?thesis using o by (cases stored) (simp_all add: create_or_match_def t)
qed

lemma directory_frame:
  assumes "kv_frame D f" "observes f v s"
  shows "observes f v (fst (find_device E D enrollment user device s))"
    and "observes f v (fst (accept E D enrollment r s))"
    and "observes f v (fst (claim E D enrollment user device gid s))"
proof -
  note rules = keeping[where P = "observes f v"] kv_frame_observes(2)[OF assms(1)] create_or_match_frame[OF assms(1)]
  have f: "observes f v (fst (find_device E D enrollment user device s))" if "observes f v s" for user device s
    unfolding find_device_def Let_def by (intro rules that)
  show "observes f v (fst (find_device E D enrollment user device s))" by (rule f[OF assms(2)])
  show "observes f v (fst (accept E D enrollment r s))"
    unfolding accept_def project_registration_def Let_def by (intro rules assms(2))
  show "observes f v (fst (claim E D enrollment user device gid s))"
    unfolding claim_def by (intro rules f assms(2))
qed

lemma find_devices_frame:
  assumes "kv_frame D f" "observes f v s"
  shows "observes f v (fst (find_devices E D enrollment keys user s))"
proof -
  have "observes f v (fst (find_devices_loop E D enrollment user keys acc s))" if "observes f v s" for acc s
    using that
  proof (induction keys arbitrary: acc s)
    case (Cons key keys)
    show ?case unfolding find_devices_loop.simps Let_def
      by (intro keeping[where P = "observes f v"] directory_frame(1)[OF assms(1)] Cons)
  qed simp
  then show ?thesis unfolding find_devices_def by (intro keeping[where P = "observes f v"] assms(2))
qed

lemma register_grows:
  assumes "kv_sole L view" "kv_frame D view" "postcard_roundtrip E"
  shows "grows_to E (ran enrollment) (view s) (view (fst (register E L D enrollment k r s)))"
proof (cases "verify E r = Inr () \<and> enrollment (registration_key (dr_payload r)) = Some (rp_nats_public_key (dr_payload r))")
  case False
  then show ?thesis by (cases "verify E r") (auto simp: register_def)
next
  case True
  let ?P = "\<lambda>t. grows_to E (ran enrollment) (view s) (view t)"
  have get: "?P (fst (kv_get D key t))" if "?P t" for key t
    using that assms(2) by (simp add: kv_frame_def)
  have app: "?P (fst (append E L k r t))" if "?P t" for t
    using that grows_to_trans[OF that] append_loop_grows[OF assms(1,3), of r t 4 k] True
    by (auto simp: append_def bind_s_def grows_to_def ran_def)
  have acc: "?P (fst (accept E D enrollment r t))" if "?P t" for t
    by (rule grows_to_observes[OF that directory_frame(2)[OF assms(2)]]) (simp add: observes_def)
  show ?thesis unfolding register_def by (intro keeping[where P = ?P] get app acc) simp_all
qed

lemma import_directory_grows:
  assumes "kv_sole L view" "kv_frame D view" "postcard_roundtrip E" "grows_to E (ran enrollment) m (view s)"
  shows "grows_to E (ran enrollment) m (view (fst (import_directory E L D enrollment k existing keys s)))"
  using assms(4)
proof (induction keys arbitrary: s)
  case (Cons endpoint keys)
  let ?P = "\<lambda>t. grows_to E (ran enrollment) m (view t)"
  have get: "?P (fst (kv_get D key t))" if "?P t" for key t
    using that assms(2) by (simp add: kv_frame_def)
  have reg: "?P (fst (register E L D enrollment k r t))" if "?P t" for r t
    using that register_grows[OF assms(1-3)] grows_to_trans by blast
  show ?case unfolding import_directory.simps by (intro keeping[where P = ?P] get reg Cons)
qed simp

lemma project_all_frame:
  assumes "kv_frame D f" "observes f v s"
  shows "observes f v (fst (project_all E D enrollment rs s))"
  using assms(2)
proof (induction rs arbitrary: s)
  case (Cons r rs)
  show ?case unfolding project_all.simps project_registration_def Let_def
    by (intro keeping[where P = "observes f v"] create_or_match_frame[OF assms(1)] Cons)
qed simp

text \<open>A revocation adds at most a key of the registrations it was checked against.\<close>

lemma rev_append_loop_grows:
  assumes "kv_sole K view" "postcard_roundtrip E"
  shows "logged E (view (fst (rev_append_loop n E K sn k q cutoff s))) = logged E (view s) \<and>
    published E (view (fst (rev_append_loop n E K sn k q cutoff s))) \<subseteq> published E (view s) \<union> snapshot_keys sn"
proof (induction n arbitrary: s)
  case (Suc n)
  obtain s1 x where e: "kv_entry K ''revocations'' s = (s1, x)" by fastforce
  note v1 = kv_soleD(1)[OF assms(1) e]
  show ?case
  proof (cases "\<exists>current rv l bs. x = Inr (Some (current, rv)) \<and> rev_append_candidate E sn k q cutoff current = Inr (l, Some bs)")
    case False
    then have "fst (rev_append_loop (Suc n) E K sn k q cutoff s) = s1"
      by (cases x) (auto simp: e bind_s_def or_err_def split: option.splits sum.splits prod.splits)
    then show ?thesis by (simp add: v1)
  next
    case True
    then obtain current rv l bs where x: "x = Inr (Some (current, rv))"
      and a: "rev_append_candidate E sn k q cutoff current = Inr (l, Some bs)" by blast
    obtain s2 stored where u: "kv_update K ''revocations'' bs rv s1 = (s2, stored)" by fastforce
    obtain old where c: "decode E current = Inr (RevocationLog old)" "encode E (RevocationLog l) = Inr bs"
      "rl_entries l = rl_entries old @ [\<lparr>rv_request = q, rv_chat_cutoff = cutoff\<rparr>]"
      using rev_append_candidate_ok[OF a] by auto
    have q: "rq_nkey q \<in> snapshot_keys sn"
    proof -
      obtain previous where "request_validate E q sn previous = Inr ()" using a by (auto simp: rev_append_candidate_def result_simps)
      from request_validate_ok(2)[OF this] show ?thesis by (force simp: snapshot_keys_def)
    qed
    have "published E ((view s1)(''revocations'' \<mapsto> bs)) = insert (rq_nkey q) (published E (view s))"
      using c kv_soleD(2)[OF assms(1), of "''revocations''" s s1 current rv] e x decode_encode[OF assms(2) c(2)]
      by (auto simp: published_def log_keys_def)
    then have g: "logged E (view s2) = logged E (view s) \<and> published E (view s2) \<subseteq> published E (view s) \<union> snapshot_keys sn"
      using kv_soleD(5)[OF assms(1) u] v1 q by (auto simp: logged_upd)
    have "fst (rev_append_loop (Suc n) E K sn k q cutoff s) =
        (if stored then s2 else fst (rev_append_loop n E K sn k q cutoff s2))"
      by (simp add: e x a u)
    then show ?thesis using g Suc[of s2] by auto
  qed
qed simp

section \<open>Steps of the backend\<close>

definition row_keys :: "'s backend \<Rightarrow> string set" where
  "row_keys b = dv_nkey ` set (rg_devices (bk_registry b))"

definition backend_inv :: "'z authority_ext_scheme \<Rightarrow> 's log_view \<Rightarrow> 's backend \<Rightarrow> bool" where
  "backend_inv E vlog b \<longleftrightarrow> reg_inv E (bk_registry b) \<and> logged E (vlog (bk_store b)) \<subseteq> row_keys b \<and>
     published E (vlog (bk_store b)) \<subseteq> row_keys b"

text \<open>A step is calm when it keeps the invariant, moves the registry upwards and publishes no revocation.\<close>

definition calm :: "'z authority_ext_scheme \<Rightarrow> 's log_view \<Rightarrow> 's backend \<Rightarrow> 's backend \<Rightarrow> bool" where
  "calm E vlog b b' \<longleftrightarrow> (backend_inv E vlog b \<longrightarrow>
     backend_inv E vlog b' \<and> reg_le (bk_registry b) (bk_registry b') \<and>
     published E (vlog (bk_store b')) = published E (vlog (bk_store b)))"

definition all_retired :: "'z externals_scheme \<Rightarrow> 's log_view \<Rightarrow> 's backend \<Rightarrow> bool" where
  "all_retired E vlog b \<longleftrightarrow> (\<forall>key \<in> published E (vlog (bk_store b)). retired (bk_registry b) key)"

lemma calm_refl [simp, intro]: "calm E vlog b b"
  by (simp add: calm_def)

lemma calm_trans: "calm E vlog a b \<Longrightarrow> calm E vlog b c \<Longrightarrow> calm E vlog a c"
  by (auto simp: calm_def intro: reg_le_trans)

lemma calm_bind:
  assumes "calm E vlog b (fst m)" "\<And>b1 x. m = (b1, Inr x) \<Longrightarrow> calm E vlog b b1 \<Longrightarrow> calm E vlog b1 (fst (f x b1))"
  shows "calm E vlog b (fst (bind_s m f))"
  using assms by (cases m) (auto simp: bind_s_def split: sum.splits intro: calm_trans)

lemma calm_retired:
  assumes "calm E vlog b b'" "backend_inv E vlog b" "all_retired E vlog b"
  shows "all_retired E vlog b'"
proof -
  have i: "reg_inv E (bk_registry b')" "reg_le (bk_registry b) (bk_registry b')" "published E (vlog (bk_store b')) = published E (vlog (bk_store b))"
    using assms(1,2) by (auto simp: calm_def backend_inv_def)
  show ?thesis unfolding all_retired_def
  proof
    fix key assume "key \<in> published E (vlog (bk_store b'))"
    then have "retired (bk_registry b) key" "key \<in> dv_nkey ` set (rg_devices (bk_registry b))"
      using assms i(3) by (auto simp: all_retired_def backend_inv_def row_keys_def)
    then show "retired (bk_registry b') key" using retired_le i(1,2) by blast
  qed
qed

lemma calm_registry:
  assumes "reg_inv E (bk_registry b) \<Longrightarrow> reg_good E (bk_registry b) r"
  shows "calm E vlog b (b\<lparr>bk_registry := r\<rparr>)"
  using assms subset_trans[OF _ reg_le_keys[of "bk_registry b" r]]
  by (simp add: calm_def backend_inv_def reg_good_def row_keys_def)

lemma calm_store:
  assumes "backend_inv E vlog b \<Longrightarrow> grows_to E (row_keys b) (vlog (bk_store b)) (vlog s)"
  shows "calm E vlog b (b\<lparr>bk_store := s\<rparr>)"
  using assms by (fastforce simp: calm_def backend_inv_def row_keys_def grows_to_def published_def)

lemma calm_on_audit:
  assumes "\<And>a x. audit_inv E (rg_audit (bk_registry b)) \<Longrightarrow> m (bk_registry b) = (a, x) \<Longrightarrow> audit_inv E a"
  shows "calm E vlog b (fst (on_audit m b))"
proof -
  have "audited E r (r\<lparr>rg_audit := a\<rparr>) \<Longrightarrow> reg_inv E r \<Longrightarrow> reg_good E r (r\<lparr>rg_audit := a\<rparr>)" for r a
    by (auto simp: reg_good_def dest: audited_inv)
  then show ?thesis using assms
    by (auto simp: on_audit_def split: prod.split intro!: calm_registry auditedI)
qed

lemma on_store_simps [simp]:
  "fst (on_store m b) = b\<lparr>bk_store := fst (m (bk_store b))\<rparr>" "snd (on_store m b) = snd (m (bk_store b))"
  by (simp_all add: on_store_def split: prod.split)

lemma on_store_eq: "on_store m b = (b1, x) \<longleftrightarrow> (\<exists>s. m (bk_store b) = (s, x) \<and> b1 = b\<lparr>bk_store := s\<rparr>)"
  by (auto simp: on_store_def split: prod.split)

lemma on_audit_eq:
  "on_audit m b = (b1, x) \<longleftrightarrow> (\<exists>a. m (bk_registry b) = (a, x) \<and> b1 = b\<lparr>bk_registry := (bk_registry b)\<lparr>rg_audit := a\<rparr>\<rparr>)"
  by (auto simp: on_audit_def split: prod.split)

lemma calm_on_store:
  assumes "\<And>s. grows_to E (row_keys b) (vlog s) (vlog (fst (m s)))"
  shows "calm E vlog b (fst (on_store m b))"
  using assms by (simp add: calm_store)

lemma calm_on_registry:
  assumes "\<And>r'. reg_inv E (bk_registry b) \<Longrightarrow> m (bk_registry b) = Inr r' \<Longrightarrow> reg_good E (bk_registry b) r'"
  shows "calm E vlog b (fst (on_registry m b))"
  using assms by (auto simp: on_registry_def split: sum.split intro!: calm_registry)

definition service_env_ok :: "service_env \<Rightarrow> bool" where
  "service_env_ok env \<longleftrightarrow> (\<forall>l. env_ok (re_audit (se_registry env l)) \<and> env_ok (se_audit env l))"

definition request_env_ok :: "request_env \<Rightarrow> bool" where
  "request_env_ok env \<longleftrightarrow> service_env_ok (qe_first env) \<and> service_env_ok (qe_repair env) \<and> env_ok (qe_denial env)"

definition service_input_ok :: "service_input \<Rightarrow> bool" where
  "service_input_ok i = (case i of
     RefreshTick envs _ _ _ \<Rightarrow> list_all env_ok envs
   | RepairTick env _ \<Rightarrow> service_env_ok env
   | ControlRequest env _ _ _ _ \<Rightarrow> request_env_ok env
   | AuthRequest env _ _ _ _ \<Rightarrow> callout_env_ok env
   | WorkerLease _ _ \<Rightarrow> True
   | WorkerStarted \<Rightarrow> True
   | WorkerEnded \<Rightarrow> True
   | OperatorInvite env _ _ \<Rightarrow> env_ok (re_audit env))"

lemma audit_effect_inner_invD:
  "audit_effect_inner E env c P k target reserve who db = (db', x) \<Longrightarrow> env_ok env \<Longrightarrow> audit_inv E db \<Longrightarrow> audit_inv E db'"
  by (metis audit_effect_inner_inv fst_conv)

lemma audit_effect_inv: "env_ok env \<Longrightarrow> audit_inv E db \<Longrightarrow> audit_effect E env c P k db = (db', x) \<Longrightarrow> audit_inv E db'"
  by (auto simp: audit_effect_def split: prod.splits dest: audit_effect_inner_invD)

lemma audit_effect_target_inv:
  "env_ok env \<Longrightarrow> audit_inv E db \<Longrightarrow> audit_effect_target E env c P reference k key required db = (db', x) \<Longrightarrow> audit_inv E db'"
  by (auto simp: audit_effect_target_def split: sum.splits prod.splits dest: audit_effect_inner_invD)

lemma audit_revocation_intent_inv:
  "env_ok env \<Longrightarrow> audit_inv E db \<Longrightarrow> audit_revocation_intent E env c P reference key author db = (db', x) \<Longrightarrow> audit_inv E db'"
  by (auto simp: audit_revocation_intent_def split: prod.splits dest: audit_effect_inner_invD)

lemma calm_effect_result:
  assumes "calm E vlog b (fst m)" "env_ok env"
  shows "calm E vlog b (fst (effect_result E P env k operation m))"
proof -
  have "calm E vlog (fst m) (fst (effect_result E P env k operation m))"
    by (cases m) (auto simp: effect_result_def split: prod.split intro!: calm_on_audit dest: audit_effect_result_inv[OF assms(2)])
  then show ?thesis using assms(1) calm_trans by blast
qed

lemma effect_result_eq:
  "effect_result E P env k operation m = (b1, x) \<Longrightarrow>
     x = snd m \<and> (\<exists>a. b1 = (fst m)\<lparr>bk_registry := (bk_registry (fst m))\<lparr>rg_audit := a\<rparr>\<rparr>)"
  by (cases m) (auto simp: effect_result_def on_audit_def)

lemma row_keys_audit [simp]:
  "row_keys (b\<lparr>bk_store := s\<rparr>) = row_keys b"
  "row_keys (b\<lparr>bk_registry := (bk_registry b)\<lparr>rg_audit := a\<rparr>\<rparr>) = row_keys b"
  by (simp_all add: row_keys_def)

lemma calm_row_keys: "calm E vlog b b' \<Longrightarrow> backend_inv E vlog b \<Longrightarrow> row_keys b \<subseteq> row_keys b'"
  using reg_le_keys by (auto simp: calm_def row_keys_def)

lemma enrollment_row_keys:
  assumes "backend_inv E vlog b"
  shows "ran (enrollment_records (bk_registry b) inc) \<subseteq> row_keys b"
proof -
  have "reg_inv E (bk_registry b)" using assms by (simp add: backend_inv_def)
  from enrollment_records_iff[OF this] show ?thesis by (auto simp: ran_def row_keys_def)
qed

lemma revoke_all_calm: "service_env_ok env \<Longrightarrow> calm E vlog b (fst (revoke_all E P env keys b))"
proof (induction keys arbitrary: b)
  case (Cons key keys)
  then show ?case
    by (auto simp: service_env_ok_def intro!: calm_bind calm_on_registry intro: revoke_good)
qed simp

text \<open>A pass over the published keys retires those that are enrolled; where they are retired already it does nothing.\<close>

lemma revoke_all_retires:
  assumes "service_env_ok env" "revoke_all E P env keys b = (b', Inr u)" "backend_inv E vlog b" "key \<in> set keys" "key \<in> row_keys b"
  shows "retired (bk_registry b') key"
  using assms(2-5)
proof (induction keys arbitrary: b)
  case (Cons x xs)
  obtain b1 where h: "on_registry (revoke E (se_registry env (''revoke:'' @ x)) P x) b = (b1, Inr ())" and t: "revoke_all E P env xs b1 = (b', Inr u)"
    using Cons.prems(1) by (auto simp: result_simps)
  have "calm E vlog b (fst (on_registry (revoke E (se_registry env (''revoke:'' @ x)) P x) b))"
    using assms(1) by (intro calm_on_registry) (auto simp: service_env_ok_def intro: revoke_good)
  then have c: "calm E vlog b b1" unfolding h by simp
  then have i: "backend_inv E vlog b1" "key \<in> row_keys b1"
    using calm_row_keys[OF c Cons.prems(2)] Cons.prems(2,4) by (simp add: calm_def, blast)
  show ?case
  proof (cases "key \<in> set xs")
    case True
    then show ?thesis using Cons.IH[OF t i(1) True i(2)] by simp
  next
    case False
    then have "retired (bk_registry b1) key"
      using Cons.prems(3) h by (auto simp: on_registry_def split: sum.splits intro: revoke_retires)
    moreover have "calm E vlog b1 b'" using revoke_all_calm[OF assms(1), of E vlog b1 P xs] t by simp
    ultimately show ?thesis using retired_le i by (fastforce simp: calm_def backend_inv_def row_keys_def)
  qed
qed simp

lemma revoke_all_nothing:
  assumes "\<forall>key \<in> set keys. retired (bk_registry b) key"
  shows "revoke_all E P env keys b = (b, Inr ())"
proof -
  have "revoke E x P key (bk_registry b) = Inr (bk_registry b)" if "retired (bk_registry b) key" for x key
    using that by (auto simp: revoke_def retired_def list_ex_iff)
  then show ?thesis using assms by (induction keys) (auto simp: on_registry_def)
qed

lemma service_simps [simp]:
  "sv_backend (set_gate g v) = sv_backend v" "ru_reconciled (sv_runtime (set_gate g v)) = g"
  "sv_backend (set_repaired now x v) = sv_backend v" "ru_reconciled (sv_runtime (set_repaired now x v)) = ru_reconciled (sv_runtime v)"
  "sv_backend (count_control u v) = sv_backend v" "ru_reconciled (sv_runtime (count_control u v)) = ru_reconciled (sv_runtime v)"
  by (simp_all add: set_gate_def set_repaired_def count_control_def)

lemma on_backend_eq: "on_backend m v = (v1, x) \<longleftrightarrow> (\<exists>b. m (sv_backend v) = (b, x) \<and> v1 = v\<lparr>sv_backend := b\<rparr>)"
  by (auto simp: on_backend_def split: prod.split)

lemma on_backend_simps [simp]:
  "fst (on_backend m v) = v\<lparr>sv_backend := fst (m (sv_backend v))\<rparr>" "snd (on_backend m v) = snd (m (sv_backend v))"
  by (simp_all add: on_backend_def split: prod.split)

context sole_broker
begin

lemma publish_registration_calm:
  assumes "service_env_ok env" "postcard_roundtrip E" "backend_inv E vlog b \<Longrightarrow> ran enrollment \<subseteq> row_keys b"
  shows "calm E vlog b (fst (publish_registration E P N k env enrollment registration required b))"
proof (cases "backend_inv E vlog b")
  case True
  have e: "env_ok (se_audit env l)" for l using assms(1) by (simp add: service_env_ok_def)
  have g: "calm E vlog b1 (fst (on_store (register E (nt_log N) (nt_directory N) enrollment k registration) b1))"
    if "row_keys b1 = row_keys b" for b1
    using assms(3)[OF True] that
    by (intro calm_on_store grows_to_mono[OF register_grows[OF log_sole directory_frame_log assms(2)]]) simp
  show ?thesis unfolding publish_registration_def Let_def
  proof (rule calm_bind, goal_cases)
    case 1
    show ?case by (rule calm_on_audit) (rule audit_effect_target_inv[OF e])
  next
    case (2 b1 x)
    then have "row_keys b1 = row_keys b" by (auto simp: on_audit_eq)
    then show ?case by (intro calm_effect_result g e)
  qed
qed (simp add: calm_def)

lemma on_store_neutral:
  assumes "\<And>s. observes vlog (vlog s) (fst (m s))"
  shows "calm E vlog b (fst (on_store m b))"
  using assms by (intro calm_on_store) (simp add: observes_def)

lemma reconcile_consumers_calm:
  assumes "service_env_ok env"
  shows "calm E vlog b (fst (reconcile_consumers E P N env b))"
proof -
  have e: "env_ok (se_audit env l)" for l using assms by (simp add: service_env_ok_def)
  obtain b1 operation where a: "on_audit (\<lambda>r. audit_effect E (se_audit env ''intent'') (rg_capacity r) (audit_pager P r) Reconciliation (rg_audit r)) b
    = (b1, operation)" by fastforce
  have "calm E vlog b (fst (on_audit (\<lambda>r. audit_effect E (se_audit env ''intent'') (rg_capacity r) (audit_pager P r) Reconciliation (rg_audit r)) b))"
    by (rule calm_on_audit) (auto dest: audit_effect_inv[OF e])
  then have "calm E vlog b b1" by (simp add: a)
  moreover have "calm E vlog b1 (fst (on_store (reconcile_consumers_inner E (nt_js N) (bk_registry b1)) b1))"
    by (intro on_store_neutral reconcile_consumers_frame[OF consumers_frame]) (simp add: observes_def)
  ultimately have "calm E vlog b (fst (on_store (reconcile_consumers_inner E (nt_js N) (bk_registry b1)) b1))" by (rule calm_trans)
  from calm_effect_result[OF this e] show ?thesis by (simp add: reconcile_consumers_def a)
qed

lemma consumers_ok_audit [simp]: "consumers_ok (r\<lparr>rg_audit := a\<rparr>) v = consumers_ok r v"
  by (simp add: consumers_ok_def chat_consumer_ok_def device_groups_def)

lemma reconcile_consumers_ok:
  assumes "reconcile_consumers E P N env b = (b', Inr u)" "reg_inv E (bk_registry b)" "service_env_ok env"
  shows "consumers_ok (bk_registry b') (vcons (bk_store b'))"
proof -
  have e: "env_ok (se_audit env l)" for l using assms(3) by (simp add: service_env_ok_def)
  obtain a x where a: "audit_effect E (se_audit env ''intent'') (rg_capacity (bk_registry b)) (audit_pager P (bk_registry b)) Reconciliation
    (rg_audit (bk_registry b)) = (a, x)" by fastforce
  let ?r = "(bk_registry b)\<lparr>rg_audit := a\<rparr>"
  have i: "reg_inv E ?r" using assms(2) audit_effect_inv[OF e _ a] by (auto simp: reg_inv_def)
  obtain s a' where s: "reconcile_consumers_inner E (nt_js N) ?r (bk_store b) = (s, Inr u)"
    and b': "b' = b\<lparr>bk_store := s, bk_registry := ?r\<lparr>rg_audit := a'\<rparr>\<rparr>"
    using assms(1) by (auto simp: reconcile_consumers_def on_audit_def a effect_result_def on_store_def split: prod.splits)
  show ?thesis using reconcile_consumers_inner_ok[OF consumers_sole i s] by (simp add: b')
qed

lemma republish_calm:
  assumes "service_env_ok env" "postcard_roundtrip E" "backend_inv E vlog b \<Longrightarrow> ran enrollment \<subseteq> row_keys b"
  shows "calm E vlog b (fst (republish E P N k env enrollment rs b))"
  using assms(3)
proof (induction rs arbitrary: b)
  case (Cons r rs)
  have act: "calm E vlog b1 (fst (on_registry (activate E (se_registry env l) P key) b1))" for b1 l key
    using assms(1) by (intro calm_on_registry) (auto simp: service_env_ok_def intro: activate_good)
  have sub: "calm E vlog b b1 \<Longrightarrow> backend_inv E vlog b \<Longrightarrow> ran enrollment \<subseteq> row_keys b1" for b1
    using Cons.prems calm_row_keys by blast
  show ?case
  proof (cases "backend_inv E vlog b")
    case True
    show ?thesis unfolding republish.simps
    proof (rule calm_bind, goal_cases)
      case 1
      show ?case by (rule publish_registration_calm[OF assms(1,2) Cons.prems])
    next
      case (2 b1 x)
      show ?case
      proof (rule calm_bind, goal_cases)
        case (2 b2 y)
        then show ?case using Cons.IH sub calm_trans True \<open>calm E vlog b b1\<close> by blast
      qed (rule act)
    qed
  qed (simp add: calm_def)
qed simp

lemma repair_registrations_calm:
  assumes "service_env_ok env" "postcard_roundtrip E" "backend_inv E vlog b \<Longrightarrow> ran enrollment \<subseteq> row_keys b"
  shows "calm E vlog b (fst (repair_registrations E P N k env enrollment b))"
  unfolding repair_registrations_def
  by (intro calm_bind reconcile_consumers_calm assms(1)) (auto intro: republish_calm[OF assms])

lemma repair_registrations_ok:
  assumes "repair_registrations E P N k env enrollment b = (b', Inr u)" "service_env_ok env" "postcard_roundtrip E"
    "backend_inv E vlog b" "ran enrollment \<subseteq> row_keys b"
  shows "consumers_ok (bk_registry b') (vcons (bk_store b'))"
proof -
  obtain pending b1 where r: "republish E P N k env enrollment pending b = (b1, Inr ())" and c: "reconcile_consumers E P N env b1 = (b', Inr u)"
    using assms(1) by (auto simp: repair_registrations_def result_simps)
  have "calm E vlog b b1" using republish_calm[OF assms(2,3,5), of P k pending] r by simp
  then have "reg_inv E (bk_registry b1)" using assms(4) by (simp add: calm_def backend_inv_def)
  then show ?thesis using reconcile_consumers_ok[OF c _ assms(2)] by blast
qed

text \<open>Reading the logs changes nothing, and tells what they say.\<close>

lemma read_log_ok:
  assumes "read_log E (nt_log N) s = (s', x)"
  shows "vlog s' = vlog s" "x = Inr sn \<Longrightarrow> snapshot_keys sn = logged E (vlog s)"
proof -
  obtain s1 y where g: "kv_get (nt_log N) ''snapshot'' s = (s1, y)" by fastforce
  have "s' = s1" using assms g by (auto simp: read_log_def bind_s_def split: sum.splits)
  then show "vlog s' = vlog s" using kv_soleD(3)[OF log_sole g] by simp
  assume "x = Inr sn"
  then obtain bs where "y = Inr (Some bs)" "decode E bs = Inr (AuditLog sn)"
    using assms g by (auto simp: read_log_def result_simps decode_snapshot_ok)
  then show "snapshot_keys sn = logged E (vlog s)" using kv_soleD(4)[OF log_sole, of "''snapshot''" s s1 "Some bs"] g by (simp add: logged_def)
qed

lemma rev_read_ok:
  assumes "rev_read E (nt_log N) sn s = (s', x)"
  shows "vlog s' = vlog s" "x = Inr l \<Longrightarrow> log_keys l = published E (vlog s)"
proof -
  obtain s1 y where g: "kv_get (nt_log N) ''revocations'' s = (s1, y)" by fastforce
  have "s' = s1" using assms g by (auto simp: rev_read_def bind_s_def split: sum.splits)
  then show "vlog s' = vlog s" using kv_soleD(3)[OF log_sole g] by simp
  assume "x = Inr l"
  then obtain bs where "y = Inr (Some bs)" "decode E bs = Inr (RevocationLog l)"
    using assms g by (auto simp: rev_read_def result_simps decode_revocations_ok)
  then show "log_keys l = published E (vlog s)" using kv_soleD(4)[OF log_sole, of "''revocations''" s s1 "Some bs"] g by (simp add: published_def)
qed

lemma set_sorted_log_keys [simp]: "set (sorted_log_keys l) = log_keys l"
  by (auto simp: sorted_log_keys_def log_keys_def)

lemma read_calm:
  "calm E vlog b (fst (on_store (read_log E (nt_log N)) b))" "calm E vlog b (fst (on_store (rev_read E (nt_log N) sn) b))"
proof -
  show "calm E vlog b (fst (on_store (read_log E (nt_log N)) b))"
    by (rule on_store_neutral) (simp add: observes_def read_log_ok(1)[OF prod.collapse[symmetric]])
  show "calm E vlog b (fst (on_store (rev_read E (nt_log N) sn) b))"
    by (rule on_store_neutral) (simp add: observes_def rev_read_ok(1)[OF prod.collapse[symmetric]])
qed

lemma apply_revocations_calm:
  assumes "service_env_ok env"
  shows "calm E vlog b (fst (apply_revocations E P N env b))"
  unfolding apply_revocations_def
  by (intro calm_bind read_calm) (auto intro: revoke_all_calm[OF assms])

lemma revoke_published:
  assumes "revoke_all E P env (sorted_log_keys l) b = (b', Inr u)" "service_env_ok env" "backend_inv E vlog b"
    "log_keys l = published E (vlog (bk_store b))"
  shows "all_retired E vlog b'"
proof -
  have "calm E vlog b b'" using revoke_all_calm[OF assms(2), of E vlog b P "sorted_log_keys l"] assms(1) by simp
  then have "published E (vlog (bk_store b')) = log_keys l" using assms(3,4) by (simp add: calm_def)
  moreover have "log_keys l \<subseteq> row_keys b" using assms(3,4) by (simp add: backend_inv_def)
  ultimately show ?thesis using revoke_all_retires[OF assms(2,1,3)] by (auto simp: all_retired_def)
qed

lemma apply_revocations_ok:
  assumes "apply_revocations E P N env b = (b', Inr (sn, l))" "service_env_ok env" "backend_inv E vlog b"
  shows "all_retired E vlog b'" "log_keys l = published E (vlog (bk_store b'))" "snapshot_keys sn \<subseteq> row_keys b'"
    "\<exists>s. revoke_all E P env (sorted_log_keys l) (b\<lparr>bk_store := s\<rparr>) = (b', Inr ()) \<and> vlog s = vlog (bk_store b)"
proof -
  obtain s1 s2 where r: "read_log E (nt_log N) (bk_store b) = (s1, Inr sn)" "rev_read E (nt_log N) sn s1 = (s2, Inr l)"
    and a: "revoke_all E P env (sorted_log_keys l) (b\<lparr>bk_store := s2\<rparr>) = (b', Inr ())"
    using assms(1) by (auto simp: apply_revocations_def result_simps on_store_eq)
  note v = read_log_ok[OF r(1)] rev_read_ok[OF r(2)]
  have i: "backend_inv E vlog (b\<lparr>bk_store := s2\<rparr>)" using assms(3) v by (simp add: backend_inv_def)
  have c: "calm E vlog (b\<lparr>bk_store := s2\<rparr>) b'" using revoke_all_calm[OF assms(2), of E vlog _ P "sorted_log_keys l"] a by (metis fst_conv)
  show "all_retired E vlog b'" using revoke_published[OF a assms(2) i] v by simp
  show "log_keys l = published E (vlog (bk_store b'))" using c i v by (simp add: calm_def)
  have "snapshot_keys sn \<subseteq> row_keys b" using assms(3) v(2) by (simp add: backend_inv_def)
  then show "snapshot_keys sn \<subseteq> row_keys b'" using calm_row_keys[OF c i] by auto
  show "\<exists>s. revoke_all E P env (sorted_log_keys l) (b\<lparr>bk_store := s\<rparr>) = (b', Inr ()) \<and> vlog s = vlog (bk_store b)"
    using a v by auto
qed

text \<open>A repair that succeeds leaves every published key retired and the consumers in step.\<close>

definition settled :: "'z authority_ext_scheme \<Rightarrow> 's backend \<Rightarrow> bool" where
  "settled E b \<longleftrightarrow> all_retired E vlog b \<and> consumers_ok (bk_registry b) (vcons (bk_store b))"

lemma repair_state_calm:
  assumes "service_env_ok env" "postcard_roundtrip E"
  shows "calm E vlog b (fst (repair_state E P N k env b))"
  unfolding repair_state_def historical_enrollment_def
  by (intro calm_bind apply_revocations_calm assms repair_registrations_calm enrollment_row_keys)

lemma repair_state_ok:
  assumes "repair_state E P N k env b = (b', Inr u)" "service_env_ok env" "postcard_roundtrip E" "backend_inv E vlog b"
  shows "settled E b'"
proof -
  obtain b1 sn l where a: "apply_revocations E P N env b = (b1, Inr (sn, l))"
    and r: "repair_registrations E P N k env (historical_enrollment (bk_registry b1)) b1 = (b', Inr u)"
    using assms(1) by (auto simp: repair_state_def result_simps)
  have c: "calm E vlog b b1" using apply_revocations_calm[OF assms(2), of E b P] a by simp
  then have i: "backend_inv E vlog b1" using assms(4) by (simp add: calm_def)
  then have e: "ran (historical_enrollment (bk_registry b1)) \<subseteq> row_keys b1"
    by (simp add: historical_enrollment_def enrollment_row_keys)
  have "calm E vlog b1 b'" using repair_registrations_calm[OF assms(2,3) e, of P k] r by simp
  then show ?thesis
    using calm_retired[OF _ i apply_revocations_ok(1)[OF a assms(2,4)]] repair_registrations_ok[OF r assms(2,3) i e] by (simp add: settled_def)
qed

subsection \<open>The arms of the dispatch\<close>

lemma do_relay_calm: "calm E vlog b (fst (do_relay E N relay b))"
  unfolding do_relay_def
  by (intro calm_bind on_store_neutral js_frame_observes[OF consumers_frame]) (auto simp: observes_def)

lemma do_policy_calm:
  assumes "service_env_ok env"
  shows "calm E vlog b (fst (do_policy E P env policy b))"
proof -
  have "fst (do_policy E P env policy b) = b\<lparr>bk_registry := fst (apply_policy E (se_registry env ''policy'') P policy (bk_registry b))\<rparr>"
    by (simp add: do_policy_def split: prod.split sum.split)
  then show ?thesis using assms by (auto simp: service_env_ok_def intro!: calm_registry apply_policy_good)
qed

lemma do_enroll_calm:
  assumes "service_env_ok env" "postcard_roundtrip E"
  shows "calm E vlog b (fst (do_enroll E P N k env token registration b))"
proof -
  have a: "calm E vlog b (fst (on_registry (activate E (se_registry env l) P key) b))"
    and n: "calm E vlog b (fst (on_registry (enroll E (se_registry env l) P token registration) b))" for b :: "'s backend" and l key
    using assms(1) by (auto simp: service_env_ok_def intro!: calm_on_registry intro: enroll_good activate_good)
  show ?thesis unfolding do_enroll_def active_enrollment_def
    by (intro calm_bind publish_registration_calm assms a n enrollment_row_keys) simp_all
qed

lemma do_register_calm:
  assumes "service_env_ok env" "postcard_roundtrip E"
  shows "calm E vlog b (fst (do_register E P N k env registration b))"
  unfolding do_register_def active_enrollment_def
  by (intro calm_bind publish_registration_calm assms enrollment_row_keys) simp_all

lemma directory_calm:
  "calm E vlog b (fst (on_store (claim E (nt_directory N) active user device gid) b))"
  "calm E vlog b (fst (on_store (find_device E (nt_directory N) active user device) b))"
  "calm E vlog b (fst (on_store (find_devices E (nt_directory N) active keys user) b))"
proof -
  show "calm E vlog b (fst (on_store (claim E (nt_directory N) active user device gid) b))"
    by (rule on_store_neutral, rule directory_frame(3)[OF directory_frame_log]) (simp add: observes_def)
  show "calm E vlog b (fst (on_store (find_device E (nt_directory N) active user device) b))"
    by (rule on_store_neutral, rule directory_frame(1)[OF directory_frame_log]) (simp add: observes_def)
  show "calm E vlog b (fst (on_store (find_devices E (nt_directory N) active keys user) b))"
    by (rule on_store_neutral, rule find_devices_frame[OF directory_frame_log]) (simp add: observes_def)
qed

lemma dispatch_calm:
  assumes "service_env_ok env" "postcard_roundtrip E" "\<forall>q. request \<noteq> Revoke q"
  shows "calm E vlog b (fst (dispatch E P N k env sn l subj request b))"
  using assms(3)
  by (cases request)
    (simp_all add: dispatch_def Let_def do_relay_calm do_policy_calm[OF assms(1)] do_enroll_calm[OF assms(1,2)] do_register_calm[OF assms(1,2)]
      directory_calm del: on_store_simps)

text \<open>A request that does not mutate leaves the registry, the log and the consumers as they are.\<close>

lemma dispatch_still:
  assumes "\<not> mutating request"
  shows "bk_registry (fst (dispatch E P N k env sn l subj request b)) = bk_registry b \<and>
    vlog (bk_store (fst (dispatch E P N k env sn l subj request b))) = vlog (bk_store b) \<and>
    vcons (bk_store (fst (dispatch E P N k env sn l subj request b))) = vcons (bk_store b)"
proof -
  have d: "vlog (fst (claim E (nt_directory N) active user device gid s)) = vlog s"
      "vlog (fst (find_device E (nt_directory N) active user device s)) = vlog s"
      "vlog (fst (find_devices E (nt_directory N) active keys user s)) = vlog s"
      "vcons (fst (claim E (nt_directory N) active user device gid s)) = vcons s"
      "vcons (fst (find_device E (nt_directory N) active user device s)) = vcons s"
      "vcons (fst (find_devices E (nt_directory N) active keys user s)) = vcons s" for active user device gid keys s
    using directory_frame(1,3)[OF directory_frame_log, of "vlog s" s] find_devices_frame[OF directory_frame_log, of "vlog s" s]
      directory_frame(1,3)[OF directory_frame_consumers, of "vcons s" s] find_devices_frame[OF directory_frame_consumers, of "vcons s" s]
    by (simp_all add: observes_def)
  have p: "vlog s' = vlog s" "vcons s' = vcons s" if "js_publish (nt_js N) a t bs s = (s', x)" for a t bs s s' x
    using js_frame_observes(3)[OF consumers_frame, of "vlog s" s a t bs] js_soleD(2)[OF consumers_sole that] that by (simp_all add: observes_def)
  have r: "bk_registry (fst (do_relay E N relay b)) = bk_registry b \<and> vlog (bk_store (fst (do_relay E N relay b))) = vlog (bk_store b) \<and>
      vcons (bk_store (fst (do_relay E N relay b))) = vcons (bk_store b)" for relay
    using p by (auto simp: do_relay_def bind_s_def on_store_def split: sum.split prod.split)
  show ?thesis using assms by (cases request) (simp_all add: mutating_def dispatch_def Let_def d r)
qed

subsection \<open>Publishing a revocation\<close>

definition informed :: "'z authority_ext_scheme \<Rightarrow> snapshot \<Rightarrow> 's backend \<Rightarrow> bool" where
  "informed E sn b \<longleftrightarrow> backend_inv E vlog b \<and> snapshot_keys sn \<subseteq> row_keys b"

lemma calm_informed: "calm E vlog b b' \<Longrightarrow> informed E sn b \<Longrightarrow> informed E sn b'"
  using calm_row_keys[of E vlog b b'] by (auto simp: informed_def calm_def)

lemma rev_append_informed:
  assumes "informed E sn b" "postcard_roundtrip E"
  shows "informed E sn (fst (on_store (rev_append E (nt_log N) sn k q cutoff) b))"
  using rev_append_loop_grows[OF log_sole assms(2), of 4 sn k q cutoff "bk_store b"] assms(1)
  by (auto simp: informed_def backend_inv_def rev_append_def)

lemma on_store_cutoff: "calm E vlog b (fst (on_store (chat_cutoff (nt_js N)) b))"
proof (rule on_store_neutral)
  fix s
  show "observes vlog (vlog s) (fst (chat_cutoff (nt_js N) s))"
    unfolding chat_cutoff_def
    by (intro keeping[where P = "observes vlog (vlog s)"] js_frame_observes[OF consumers_frame]) (simp add: observes_def)
qed

lemma effect_result_informed:
  assumes "informed E sn (fst m)" "env_ok env"
  shows "informed E sn (fst (effect_result E P env k operation m))"
  using calm_informed[OF calm_effect_result[OF calm_refl assms(2)] assms(1)] .

lemma do_revoke_inv:
  assumes "service_env_ok env" "postcard_roundtrip E" "informed E sn b"
  shows "informed E sn (fst (do_revoke E P N k env sn l q b))"
proof -
  have e: "env_ok (se_audit env l)" for l using assms(1) by (simp add: service_env_ok_def)
  obtain b1 operation where a: "on_audit (\<lambda>r. audit_revocation_intent E (se_audit env ''revocation'') (rg_capacity r) (audit_pager P r)
      (reference_device r) (rq_nkey q) (rq_author q) (rg_audit r)) b = (b1, operation)" by fastforce
  have "calm E vlog b (fst (on_audit (\<lambda>r. audit_revocation_intent E (se_audit env ''revocation'') (rg_capacity r) (audit_pager P r)
      (reference_device r) (rq_nkey q) (rq_author q) (rg_audit r)) b))"
    by (rule calm_on_audit) (rule audit_revocation_intent_inv[OF e])
  then have i: "informed E sn b1" using calm_informed assms(3) by (simp add: a)
  have "informed E sn (fst (bind_s (on_store (chat_cutoff (nt_js N)) b1) (\<lambda>cutoff b.
     bind_s (effect_result E P (se_audit env ''revoked'') RevocationPublication operation
         (on_store (rev_append E (nt_log N) sn k q cutoff) b)) (\<lambda>revoked b.
     bind_s (revoke_all E P env (sorted_log_keys revoked) b) (\<lambda>_ b. (b, Inr Revoked))))))"
    by (intro keeping[where P = "informed E sn"] calm_informed[OF on_store_cutoff] effect_result_informed rev_append_informed
        calm_informed[OF revoke_all_calm] assms i e)
  then show ?thesis using assms(3) by (cases "request_validate E q sn (rl_entries l)") (simp_all add: do_revoke_def a)
qed

lemma do_revoke_retired:
  assumes "do_revoke E P N k env sn l q b = (b', Inr reply)" "service_env_ok env" "postcard_roundtrip E" "informed E sn b"
  shows "all_retired E vlog b'"
proof -
  have e: "env_ok (se_audit env l)" for l using assms(2) by (simp add: service_env_ok_def)
  obtain b1 operation where a: "on_audit (\<lambda>r. audit_revocation_intent E (se_audit env ''revocation'') (rg_capacity r) (audit_pager P r)
      (reference_device r) (rq_nkey q) (rq_author q) (rg_audit r)) b = (b1, operation)" by fastforce
  have "calm E vlog b (fst (on_audit (\<lambda>r. audit_revocation_intent E (se_audit env ''revocation'') (rg_capacity r) (audit_pager P r)
      (reference_device r) (rq_nkey q) (rq_author q) (rg_audit r)) b))"
    by (rule calm_on_audit) (rule audit_revocation_intent_inv[OF e])
  then have i1: "informed E sn b1" using calm_informed assms(4) by (simp add: a)
  obtain b2 cutoff b3 revoked where c: "on_store (chat_cutoff (nt_js N)) b1 = (b2, Inr cutoff)"
    and w: "effect_result E P (se_audit env ''revoked'') RevocationPublication operation
         (on_store (rev_append E (nt_log N) sn k q cutoff) b2) = (b3, Inr revoked)"
    and r: "revoke_all E P env (sorted_log_keys revoked) b3 = (b', Inr ())"
    using assms(1) by (auto simp: do_revoke_def a result_simps)
  have i2: "informed E sn b2" using calm_informed[OF on_store_cutoff i1] c by (metis fst_conv)
  have i3: "informed E sn b3" using effect_result_informed[OF rev_append_informed[OF i2 assms(3)] e] w by (metis fst_conv)
  obtain s where s: "rev_append E (nt_log N) sn k q cutoff (bk_store b2) = (s, Inr revoked)" "bk_store b3 = s"
    using effect_result_eq[OF w] by (auto simp: prod_eq_iff)
  then have "log_keys revoked = published E (vlog (bk_store b3))"
    using rev_append_loop_durable[OF assms(3) kv_sole_acks[OF log_sole], of 4 sn k q cutoff "bk_store b2" s revoked]
    by (auto simp: rev_append_def published_def)
  then show ?thesis using revoke_published[OF r assms(2)] i3 by (simp add: informed_def)
qed

lemma dispatch_informed:
  assumes "service_env_ok env" "postcard_roundtrip E" "informed E sn b"
  shows "informed E sn (fst (dispatch E P N k env sn l subj request b))"
proof (cases "\<exists>q. request = Revoke q")
  case True
  then show ?thesis using do_revoke_inv[OF assms] assms(3) by (auto simp: dispatch_def Let_def)
next
  case False
  then show ?thesis using calm_informed[OF dispatch_calm[OF assms(1,2)] assms(3)] by blast
qed

lemma dispatch_retired:
  assumes "dispatch E P N k env sn l subj request b = (b', Inr reply)" "service_env_ok env" "postcard_roundtrip E" "informed E sn b"
    "all_retired E vlog b"
  shows "all_retired E vlog b'"
proof (cases "\<exists>q. request = Revoke q")
  case True
  then show ?thesis using do_revoke_retired assms by (fastforce simp: dispatch_def Let_def split: if_splits)
next
  case False
  then have "calm E vlog b b'" using dispatch_calm[OF assms(2,3), of request b P k sn l subj] assms(1) by simp
  then show ?thesis using calm_retired assms(4,5) by (auto simp: informed_def)
qed

subsection \<open>Requests and repairs\<close>

text \<open>Steps that change nothing but the audit trail and what neither log nor consumers show.\<close>

definition same_views :: "'s backend \<Rightarrow> 's backend \<Rightarrow> bool" where
  "same_views b b' \<longleftrightarrow> bk_registry b' = bk_registry b \<and> vlog (bk_store b') = vlog (bk_store b) \<and> vcons (bk_store b') = vcons (bk_store b)"

lemma same_views_keep:
  assumes "same_views b b'"
  shows "backend_inv E vlog b' = backend_inv E vlog b" "settled E b' = settled E b"
  using assms by (simp_all add: same_views_def backend_inv_def settled_def all_retired_def row_keys_def)

lemma apply_revocations_still:
  assumes "all_retired E vlog b"
  shows "same_views b (fst (apply_revocations E P N env b))"
proof -
  obtain s1 x where r: "read_log E (nt_log N) (bk_store b) = (s1, x)" by fastforce
  have c: "vcons s1 = vcons (bk_store b)"
    using kv_frame_observes(2)[OF log_frame, of "vcons (bk_store b)" "bk_store b" "''snapshot''"] r
    by (auto simp: read_log_def observes_def bind_s_def split: prod.splits sum.splits)
  have v: "vlog s1 = vlog (bk_store b)" by (rule read_log_ok(1)[OF r])
  have rev: "vlog s2 = vlog s1 \<and> vcons s2 = vcons s1" if "rev_read E (nt_log N) sn s1 = (s2, y)" for sn s2 y
    using rev_read_ok(1)[OF that] that kv_frame_observes(2)[OF log_frame, of "vcons s1" s1 "''revocations''"]
    by (auto simp: rev_read_def observes_def bind_s_def split: prod.splits sum.splits)
  have none: "revoke_all E P env (sorted_log_keys l) (b\<lparr>bk_store := s2\<rparr>) = (b\<lparr>bk_store := s2\<rparr>, Inr ())"
    if "rev_read E (nt_log N) sn s1 = (s2, Inr l)" for sn s2 l
    using rev_read_ok(2)[OF that] v assms by (intro revoke_all_nothing) (simp add: all_retired_def)
  show ?thesis
  proof (cases x)
    case (Inl e)
    then show ?thesis using v c by (simp add: apply_revocations_def on_store_def r same_views_def)
  next
    case (Inr sn)
    obtain s2 y where y: "rev_read E (nt_log N) sn s1 = (s2, y)" by fastforce
    show ?thesis using rev[OF y] none v c Inr y
      by (cases y) (simp_all add: apply_revocations_def on_store_def r same_views_def)
  qed
qed

definition service_inv :: "'z authority_ext_scheme \<Rightarrow> 's service \<Rightarrow> bool" where
  "service_inv E v \<longleftrightarrow> backend_inv E vlog (sv_backend v) \<and> (ru_reconciled (sv_runtime v) \<longrightarrow> settled E (sv_backend v))"

lemma perform_reading:
  assumes "service_env_ok (qe_first env)" "postcard_roundtrip E" "\<not> mutating request" "service_inv E v"
  shows "service_inv E (fst (perform E P N k env subj request v))"
proof -
  let ?b = "sv_backend v"
  obtain b1 x where a: "apply_revocations E P N (qe_first env) ?b = (b1, x)" by fastforce
  have c: "calm E vlog ?b b1" using apply_revocations_calm[OF assms(1), of E ?b P] a by simp
  then have i1: "backend_inv E vlog b1" using assms(4) by (simp add: calm_def service_inv_def)
  have st: "settled E b1" if "ru_reconciled (sv_runtime v)"
    using same_views_keep(2)[OF apply_revocations_still] assms(4) that a by (metis fst_conv service_inv_def settled_def)
  have d: "same_views b1 (fst (dispatch E P N k (qe_first env) sn l subj request b1))" for sn l
    using dispatch_still[OF assms(3)] by (simp add: same_views_def)
  show ?thesis
  proof (cases x)
    case (Inl e)
    then show ?thesis using i1 st assms(3) by (simp add: perform_def on_backend_def a service_inv_def)
  next
    case (Inr p)
    obtain sn l where p: "p = (sn, l)" by (cases p)
    obtain b2 y where y: "dispatch E P N k (qe_first env) sn l subj request b1 = (b2, y)" by fastforce
    have "same_views b1 b2" using d[of sn l] y by simp
    then have "backend_inv E vlog b2" "ru_reconciled (sv_runtime v) \<Longrightarrow> settled E b2" using same_views_keep i1 st by blast+
    then show ?thesis using Inr p assms(3) by (cases y) (simp_all add: perform_def on_backend_def a y service_inv_def)
  qed
qed

lemma perform_mutating:
  assumes "service_env_ok (qe_first env)" "postcard_roundtrip E" "mutating request" "backend_inv E vlog (sv_backend v)"
  shows "service_inv E (fst (perform E P N k env subj request v))"
proof -
  let ?b = "sv_backend v"
  obtain b1 x where a: "apply_revocations E P N (qe_first env) ?b = (b1, x)" by fastforce
  have "calm E vlog ?b b1" using apply_revocations_calm[OF assms(1), of E ?b P] a by simp
  then have i1: "backend_inv E vlog b1" using assms(4) by (simp add: calm_def)
  show ?thesis
  proof (cases x)
    case (Inl e)
    then show ?thesis using i1 assms(3) by (simp add: perform_def on_backend_def a service_inv_def)
  next
    case (Inr p)
    obtain sn l where p: "p = (sn, l)" by (cases p)
    note a1 = apply_revocations_ok[OF a[unfolded Inr p] assms(1,4)]
    have n1: "informed E sn b1" using i1 a1(3) by (simp add: informed_def)
    obtain b2 y where y: "dispatch E P N k (qe_first env) sn l subj request b1 = (b2, y)" by fastforce
    have i2: "backend_inv E vlog b2" using dispatch_informed[OF assms(1,2) n1, of P k l subj request] y by (simp add: informed_def)
    show ?thesis
    proof (cases y)
      case (Inl e)
      then show ?thesis using i2 \<open>x = Inr p\<close> p assms(3) by (simp add: perform_def on_backend_def a y service_inv_def)
    next
      case (Inr reply)
      obtain b3 z where z: "reconcile_consumers E P N (qe_first env) b2 = (b3, z)" by fastforce
      have c3: "calm E vlog b2 b3" using reconcile_consumers_calm[OF assms(1), of E b2 P] z by simp
      have i3: "backend_inv E vlog b3" using c3 i2 by (simp add: calm_def)
      have "settled E b3" if "z = Inr u" for u
        using calm_retired[OF c3 i2 dispatch_retired[OF y[unfolded Inr] assms(1,2) n1 a1(1)]]
          reconcile_consumers_ok[OF z[unfolded that] _ assms(1)] i2 by (simp add: settled_def backend_inv_def)
      then show ?thesis using i3 \<open>x = Inr p\<close> p assms(3) Inr
        by (cases z) (simp_all add: perform_def on_backend_def a y z service_inv_def)
    qed
  qed
qed

lemma settled_audit [simp]: "settled E (b\<lparr>bk_registry := (bk_registry b)\<lparr>rg_audit := a\<rparr>\<rparr>) = settled E b"
  by (simp add: settled_def all_retired_def retired_def)

lemma backend_inv_audit:
  "backend_inv E vlog b \<Longrightarrow> audit_inv E a \<Longrightarrow> backend_inv E vlog (b\<lparr>bk_registry := (bk_registry b)\<lparr>rg_audit := a\<rparr>\<rparr>)"
  by (simp add: backend_inv_def reg_inv_def)

lemma audited_service:
  assumes "service_inv E v" "audited E (bk_registry (sv_backend v)) r"
  shows "backend_inv E vlog ((sv_backend v)\<lparr>bk_registry := r\<rparr>)" "settled E ((sv_backend v)\<lparr>bk_registry := r\<rparr>) = settled E (sv_backend v)"
  using assms backend_inv_audit by (auto simp: audited_def service_inv_def backend_inv_def reg_inv_def)

lemma take_rate_inv: "service_inv E v \<Longrightarrow> service_inv E (fst (take_rate subj now v))"
  by (simp add: take_rate_def service_inv_def split: prod.split)

lemma handle_inv:
  assumes "service_env_ok (qe_first env)" "postcard_roundtrip E" "service_inv E v"
  shows "service_inv E (fst (handle E P N k env subj payload v))"
proof -
  have count: "service_inv E (count_control u w) = service_inv E w" for u and w :: "'s service" by (simp add: service_inv_def)
  obtain v1 permitted where t: "take_rate subj (qe_rate env) v = (v1, permitted)" by fastforce
  have i: "service_inv E v1" using take_rate_inv[OF assms(3), of subj "qe_rate env"] t by simp
  then have p: "service_inv E (fst (perform E P N k env subj request v1))" for request
    using perform_reading[OF assms(1,2)] perform_mutating[OF assms(1,2)] by (cases "mutating request") (auto simp: service_inv_def)
  show ?thesis using assms(3) i p by (simp add: handle_def t count split: sum.split)
qed

lemma repaired_inv:
  assumes "service_env_ok env" "postcard_roundtrip E" "service_inv E v" "on_backend (repair_state E P N k env) v = (v', x)"
  shows "backend_inv E vlog (sv_backend v')" "is_ok x \<Longrightarrow> settled E (sv_backend v')" "sv_runtime v' = sv_runtime v"
proof -
  obtain b where b: "repair_state E P N k env (sv_backend v) = (b, x)" and v': "v' = v\<lparr>sv_backend := b\<rparr>"
    using assms(4) by (auto simp: on_backend_eq)
  have i: "backend_inv E vlog (sv_backend v)" using assms(3) by (simp add: service_inv_def)
  show "backend_inv E vlog (sv_backend v')"
    using repair_state_calm[OF assms(1,2), of "sv_backend v" P k] i b by (simp add: calm_def v')
  show "is_ok x \<Longrightarrow> settled E (sv_backend v')" using repair_state_ok[OF _ assms(1,2) i] b by (auto simp: v' is_ok_iff)
  show "sv_runtime v' = sv_runtime v" by (simp add: v')
qed

lemma repair_after_inv:
  assumes "service_env_ok env" "postcard_roundtrip E" "service_inv E v"
  shows "service_inv E (repair_after E P N k env now v)"
proof -
  obtain v' x where r: "on_backend (repair_state E P N k env) v = (v', x)" by fastforce
  note i = repaired_inv[OF assms r]
  show ?thesis using assms(3) i by (auto simp: repair_after_def r Let_def service_inv_def)
qed

lemma repair_tick_inv:
  assumes "service_env_ok env" "postcard_roundtrip E" "service_inv E v"
  shows "service_inv E (repair_tick E P N k env now v)"
proof -
  obtain v' x where r: "on_backend (repair_state E P N k env) v = (v', x)" by fastforce
  note i = repaired_inv[OF assms r]
  show ?thesis using assms(3) i by (auto simp: repair_tick_def r service_inv_def)
qed

lemma settle_inv:
  assumes "env_ok (qe_denial env)" "service_inv E v"
  shows "service_inv E (fst (settle E P env v response))"
proof -
  have "service_inv E (fst (deny E P env v))"
  proof -
    let ?r = "bk_registry (sv_backend v)"
    obtain d a where o: "observe_denial E (qe_denial env) (rg_capacity ?r) (audit_pager P ?r) (qe_denied env) (sv_denials v) (rg_audit ?r) = (d, a)"
      by fastforce
    have "audit_inv E a" using assms o
      by (auto simp: service_inv_def backend_inv_def reg_inv_def observe_denial_def transaction_def split: if_splits sum.splits prod.splits dest: audit_event_inv)
    moreover have "backend_inv E vlog (sv_backend v)" using assms(2) by (simp add: service_inv_def)
    ultimately show ?thesis using assms(2) backend_inv_audit[of E "sv_backend v" a]
      by (simp add: deny_def on_backend_def on_audit_def o service_inv_def)
  qed
  then show ?thesis using assms(2) by (simp add: settle_def service_inv_def split: sum.split)
qed

lemma control_request_inv:
  assumes "request_env_ok env" "postcard_roundtrip E" "service_inv E v"
  shows "service_inv E (fst (control_request E P N k env subj payload v))"
proof -
  obtain v1 response where h: "handle E P N k env subj payload (count_control ct_received_update v) = (v1, response)" by fastforce
  have "service_inv E (count_control ct_received_update v)" using assms(3) by (simp add: service_inv_def)
  then have "service_inv E v1" using handle_inv[OF _ assms(2), of env _ P k subj payload] assms(1) h by (metis fst_conv request_env_ok_def)
  then have "service_inv E (fst (settle E P env (repair_after E P N k (qe_repair env) (qe_repaired env) v1) response))"
    using assms(1,2) by (intro settle_inv repair_after_inv) (simp_all add: request_env_ok_def)
  then show ?thesis by (simp add: control_request_def h case_prod_unfold)
qed

lemma refresh_tick_inv:
  assumes "list_all env_ok envs" "service_inv E v"
  shows "service_inv E (refresh_tick E P envs start now done_at v)"
proof -
  obtain u r where r: "refresh E envs P start now done_at (sv_runtime v) (bk_registry (sv_backend v)) = (u, r)" by fastforce
  note a = audited_service[OF assms(2) refresh_audited[OF r assms(1)]]
  show ?thesis using a refresh_reconciled[OF r] assms(2) by (simp add: refresh_tick_def r service_inv_def)
qed

lemma auth_request_inv:
  assumes "callout_env_ok env" "service_inv E v"
  shows "service_inv E (fst (auth_request E P env now reply xkey payload v))"
proof (cases "inbox_reply ''$SYS._INBOX.'' reply \<and> xkey \<noteq> None")
  case True
  then obtain x where x: "xkey = Some x" by blast
  obtain co r res where c: "respond E env P x payload (admission_ready now v) (sv_callout v, bk_registry (sv_backend v)) = ((co, r), res)"
    by (metis prod.exhaust)
  note a = audited_service[OF assms(2) respond_le(2)[OF assms(1) c]]
  show ?thesis using True a assms(2) by (simp add: auth_request_def x c service_inv_def)
next
  case False
  then show ?thesis using assms(2) by (auto simp: auth_request_def)
qed

lemma invite_inv:
  assumes "env_ok (re_audit env)" "service_inv E v"
  shows "service_inv E (service_step E P N k v (OperatorInvite env name ttl))"
proof -
  let ?r = "bk_registry (sv_backend v)"
  let ?s = "registry_step E P ?r (Invite env name ttl)"
  have i: "reg_inv E ?r" using assms(2) by (simp add: service_inv_def backend_inv_def)
  have g: "reg_good E ?r ?s" using registry_step_good[OF i, of "Invite env name ttl" P] assms(1) by simp
  have "rg_devices ?s = rg_devices ?r \<and> rg_members ?s = rg_members ?r"
  proof (cases "invite E env P name ttl ?r")
    case (Inr p)
    obtain token r' where p: "invite E env P name ttl ?r = Inr (token, r')" using Inr by (cases p) simp
    then obtain uid r1 t a where u: "invite_user E env name ?r = Inr (uid, r1)" and r': "r' = r1\<lparr>rg_tokens := rg_tokens r1 @ [t], rg_audit := a\<rparr>"
      by (rule invite_ok) blast
    have "reg_tables E ?r" using i by (simp add: reg_inv_def)
    then obtain us bs where "r1 = ?r\<lparr>rg_users := us, rg_bindings := bs\<rparr>" using u by (elim invite_user_ok) blast
    then show ?thesis using r' p by (simp add: or_same_def)
  qed (simp add: or_same_def)
  then have s: "settled E ((sv_backend v)\<lparr>bk_registry := ?s\<rparr>) = settled E (sv_backend v)"
    by (simp add: settled_def all_retired_def retired_def consumers_ok_def chat_consumer_ok_def device_groups_def del: registry_step.simps)
  have "calm E vlog (sv_backend v) ((sv_backend v)\<lparr>bk_registry := ?s\<rparr>)" using g by (intro calm_registry)
  then show ?thesis using s assms(2) by (simp add: service_inv_def calm_def del: registry_step.simps)
qed

lemma service_step_inv:
  assumes "postcard_roundtrip E" "service_inv E v" "service_input_ok i"
  shows "service_inv E (service_step E P N k v i)"
proof (cases i)
  case (OperatorInvite env name ttl)
  then show ?thesis using invite_inv assms by (simp add: service_input_ok_def del: service_step.simps)
next
  case (WorkerLease live seen)
  then show ?thesis using assms(2) by (simp add: service_inv_def set_lease_def)
next
  case WorkerStarted
  then show ?thesis using assms(2) by (simp add: service_inv_def worker_started_def)
next
  case WorkerEnded
  then show ?thesis using assms(2) by (simp add: service_inv_def worker_ended_def Let_def)
qed (use assms in \<open>simp_all add: service_input_ok_def refresh_tick_inv repair_tick_inv control_request_inv auth_request_inv\<close>)

subsection \<open>Start-up\<close>

lemma initialize_grows:
  assumes "postcard_roundtrip E"
  shows "grows_to E K (vlog s) (vlog (fst (initialize E (nt_log N) k s)))"
proof -
  let ?P = "\<lambda>t. grows_to E K (vlog s) (vlog t)"
  obtain s1 x where g: "kv_get (nt_log N) ''snapshot'' s = (s1, x)" by fastforce
  have v1: "vlog s1 = vlog s" by (rule kv_soleD(3)[OF log_sole g])
  have r: "?P (fst (read_log E (nt_log N) t))" if "?P t" for t
    using that by (simp add: read_log_ok(1)[OF prod.collapse[symmetric]])
  have c: "?P (fst (kv_create (nt_log N) ''snapshot'' bs s1))"
    if "x = Inr None" "snapshot_signed E [] k = Inr sn" "encode E (AuditLog sn) = Inr bs" for sn bs
  proof -
    obtain s2 stored where k: "kv_create (nt_log N) ''snapshot'' bs s1 = (s2, stored)" by fastforce
    have "logged E ((vlog s1)(''snapshot'' \<mapsto> bs)) = {}"
      using decode_encode[OF assms that(3)] snapshot_signed_ok(2)[OF that(2)] by (simp add: logged_def snapshot_keys_def)
    then show ?thesis using kv_soleD(6)[OF log_sole k] v1 k by (auto simp: grows_to_def)
  qed
  show ?thesis
  proof (cases "x = Inr None")
    case True
    have p: "?P (fst (bind_s (s1, snapshot_signed E [] k) (\<lambda>sn s. bind_s (s, encode E (AuditLog sn)) (\<lambda>bs s.
         (fst (kv_create (nt_log N) ''snapshot'' bs s), Inr ())))))"
      using c[OF True] v1 by (cases "snapshot_signed E [] k"; cases "encode E (AuditLog (projr (snapshot_signed E [] k)))") auto
    show ?thesis unfolding initialize_def g using True
      by simp (intro keeping[where P = ?P] p r)
  next
    case False
    have "?P (fst (bind_s (read_log E (nt_log N) s1) (\<lambda>sn s. ensure_s (cp_signer (sn_checkpoint sn) = public_key k)
        ''directory signer differs from persisted log'' s (s, Inr ()))))" by (intro keeping[where P = ?P] r) (simp_all add: v1)
    then show ?thesis using False v1 by (cases x) (auto simp: initialize_def g)
  qed
qed

lemma reconcile_grows:
  assumes "postcard_roundtrip E"
  shows "grows_to E (ran enrollment) (vlog s) (vlog (fst (reconcile E (nt_log N) (nt_directory N) enrollment keys k s)))"
proof -
  let ?P = "\<lambda>t. grows_to E (ran enrollment) (vlog s) (vlog t)"
  have r: "?P (fst (read_log E (nt_log N) t))" if "?P t" for t
    using that by (simp add: read_log_ok(1)[OF prod.collapse[symmetric]])
  have p: "?P (fst (project_all E (nt_directory N) enrollment rs t))" if "?P t" for rs t
    by (rule grows_to_observes[OF that project_all_frame[OF directory_frame_log]]) (simp add: observes_def)
  show ?thesis unfolding reconcile_def
    by (intro keeping[where P = ?P] r p initialize_grows[OF assms] import_directory_grows[OF log_sole directory_frame_log assms])
qed

lemma rev_initialize_same:
  assumes "postcard_roundtrip E"
  shows "logged E (vlog (fst (rev_initialize E (nt_log N) sn k s))) = logged E (vlog s) \<and>
    published E (vlog (fst (rev_initialize E (nt_log N) sn k s))) = published E (vlog s)"
proof -
  let ?P = "\<lambda>t. logged E (vlog t) = logged E (vlog s) \<and> published E (vlog t) = published E (vlog s)"
  obtain s1 x where g: "kv_get (nt_log N) ''revocations'' s = (s1, x)" by fastforce
  have v1: "vlog s1 = vlog s" by (rule kv_soleD(3)[OF log_sole g])
  have r: "?P (fst (rev_read E (nt_log N) sn t))" if "?P t" for t
    using that by (simp add: rev_read_ok(1)[OF prod.collapse[symmetric]])
  have c: "?P (fst (kv_create (nt_log N) ''revocations'' bs s1))"
    if "x = Inr None" "log_signed E [] k = Inr l" "encode E (RevocationLog l) = Inr bs" for l bs
  proof -
    obtain s2 stored where k: "kv_create (nt_log N) ''revocations'' bs s1 = (s2, stored)" by fastforce
    have "vlog s ''revocations'' = None" using kv_soleD(4)[OF log_sole, of "''revocations''" s s1 None] g that(1) by simp
    then have e: "published E ((vlog s1)(''revocations'' \<mapsto> bs)) = published E (vlog s)"
      using decode_encode[OF assms that(3)] log_signed_ok[OF that(2)] by (simp add: published_def log_keys_def)
    have "vlog s2 = (vlog s1)(''revocations'' \<mapsto> bs) \<or> vlog s2 = vlog s1" using kv_soleD(6)[OF log_sole k] by blast
    then show ?thesis by (elim disjE) (simp_all add: k v1[symmetric] e[folded v1] logged_upd)
  qed
  show ?thesis
  proof (cases "x = Inr None")
    case True
    have p: "?P (fst (bind_s (s1, log_signed E [] k) (\<lambda>l s. bind_s (s, encode E (RevocationLog l)) (\<lambda>bs s.
         (fst (kv_create (nt_log N) ''revocations'' bs s), Inr ())))))"
      using c[OF True] v1 by (cases "log_signed E [] k"; cases "encode E (RevocationLog (projr (log_signed E [] k)))") auto
    have "?P (fst (bind_s (bind_s (s1, log_signed E [] k) (\<lambda>l s. bind_s (s, encode E (RevocationLog l)) (\<lambda>bs s.
         (fst (kv_create (nt_log N) ''revocations'' bs s), Inr ())))) (\<lambda>_ s. bind_s (rev_read E (nt_log N) sn s) (\<lambda>_ s. (s, Inr ())))))"
      by (intro keeping[where P = ?P] p r)
    then show ?thesis using True by (simp add: rev_initialize_def g)
  next
    case False
    have "?P (fst (bind_s (rev_read E (nt_log N) sn s1) (\<lambda>_ s. (s, Inr ()))))" by (intro keeping[where P = ?P] r) (simp add: v1)
    then show ?thesis using False v1 by (cases x) (auto simp: rev_initialize_def g)
  qed
qed

lemma serve_start_inv:
  assumes "service_env_ok env" "postcard_roundtrip E" "backend_inv E vlog b" "serve_start E P N k env b = (b', x)"
  shows "backend_inv E vlog b'" "x = Inr u \<Longrightarrow> settled E b'"
proof -
  let ?en = "historical_enrollment (bk_registry b)"
  let ?P = "\<lambda>c. backend_inv E vlog c \<and> ran ?en \<subseteq> row_keys c"
  have h: "ran ?en \<subseteq> row_keys b" using enrollment_row_keys[OF assms(3)] by (simp add: historical_enrollment_def)
  have calm: "?P c'" if "?P c" "calm E vlog c c'" for c c'
    using that calm_row_keys[OF that(2)] by (auto simp: calm_def)
  have rc: "calm E vlog b (fst (on_store (reconcile E (nt_log N) (nt_directory N) ?en keys k) b))" for keys
    by (intro calm_on_store grows_to_mono[OF reconcile_grows[OF assms(2)] h])
  have ri: "calm E vlog c (fst (on_store (rev_initialize E (nt_log N) sn k) c))" for c sn
    using rev_initialize_same[OF assms(2), of sn k "bk_store c"] by (simp add: calm_def backend_inv_def row_keys_def)
  have "?P (fst (serve_start E P N k env b))"
    unfolding serve_start_def Let_def
    by (intro keeping[where P = ?P] calm[OF _ rc] calm[OF _ read_calm(1)] calm[OF _ ri] calm[OF _ read_calm(2)]
        calm[OF _ revoke_all_calm[OF assms(1)]] calm[OF _ repair_registrations_calm[OF assms(1,2)]]) (use assms(3) h in auto)
  then show "backend_inv E vlog b'" using assms(4) by simp
  assume "x = Inr u"
  with assms(4) have "serve_start E P N k env b = (b', Inr u)" by simp
  then obtain b1 sn b2 b3 b4 l b5 where
    s: "on_store (reconcile E (nt_log N) (nt_directory N) ?en (map fst (enrollment_entries (bk_registry b) True)) k) b = (b1, Inr ())"
    "on_store (read_log E (nt_log N)) b1 = (b2, Inr sn)" "on_store (rev_initialize E (nt_log N) sn k) b2 = (b3, Inr ())"
    "on_store (rev_read E (nt_log N) sn) b3 = (b4, Inr l)" "revoke_all E P env (sorted_log_keys l) b4 = (b5, Inr ())"
    "repair_registrations E P N k env ?en b5 = (b', Inr u)"
    unfolding serve_start_def Let_def bind_s_Inr by auto
  have p: "?P b1" "?P b2" "?P b3" "?P b4" "?P b5"
    using calm[OF _ rc] calm[OF _ read_calm(1)] calm[OF _ ri] calm[OF _ read_calm(2)] calm[OF _ revoke_all_calm[OF assms(1)]] assms(3) h s
    by (metis fst_conv)+
  have "log_keys l = published E (vlog (bk_store b4))"
    using s(4) rev_read_ok(1)[of E sn "bk_store b3"] rev_read_ok(2)[of E sn "bk_store b3"] by (auto simp: on_store_eq)
  then have r5: "all_retired E vlog b5" using revoke_published[OF s(5) assms(1)] p(4) by blast
  have "calm E vlog b5 b'" using repair_registrations_calm[OF assms(1,2), of b5 ?en P k] p(5) s(6) by simp
  then show "settled E b'"
    using calm_retired[OF _ _ r5] repair_registrations_ok[OF s(6) assms(1,2)] p(5) by (simp add: settled_def)
qed

end

text \<open>The service over such a broker is an invariant machine.\<close>

locale sole_service = sole_broker N vlog vcons
  for N :: "'s nats" and vlog :: "'s log_view" and vcons :: "'s consumer_view" +
  fixes E :: "'z jwt_ext_scheme" and P :: rpager and k :: keypair
  assumes codec: "postcard_roundtrip E"

sublocale sole_service \<subseteq> service_run: invariant_machine "service_step E P N k" "service_inv E" service_input_ok
  by unfold_locales (rule service_step_inv[OF codec])

context sole_service
begin

lemma service_runs: "service_inv E v \<Longrightarrow> list_all service_input_ok inputs \<Longrightarrow> service_inv E (foldl (service_step E P N k) v inputs)"
  by (rule service_run.run_inv)

end

text \<open>A failing request that mutates leaves the gate closed.\<close>

lemma perform_closes:
  assumes "perform E P N k env subj request v = (v', Inl e)" "mutating request"
  shows "\<not> ru_reconciled (sv_runtime v')"
proof -
  obtain b1 x where a: "apply_revocations E P N (qe_first env) (sv_backend v) = (b1, x)" by fastforce
  show ?thesis
  proof (cases x)
    case (Inl f)
    then show ?thesis using assms by (auto simp: perform_def on_backend_def a)
  next
    case (Inr p)
    obtain sn l where p: "p = (sn, l)" by (cases p)
    obtain b2 y where y: "dispatch E P N k (qe_first env) sn l subj request b1 = (b2, y)" by fastforce
    obtain b3 z where z: "reconcile_consumers E P N (qe_first env) b2 = (b3, z)" by fastforce
    show ?thesis using assms Inr p by (cases y; cases z) (auto simp: perform_def on_backend_def a y z)
  qed
qed

end
