(* ===== verification/Lockstep.thy ===== *)
theory Lockstep
  imports Sessions Admission
begin

text \<open>
  The separated deployment: the authority process as a machine over the events of its local socket, and
  its worker on the other end of the stream. The authority's runs are runs of the service; worker and
  session advance in lockstep.
\<close>

section \<open>What a session changes\<close>

lemma take_frame_fields:
  assumes "take_frame X a = (a', r)"
  shows "nd_service a' = nd_service a" "nd_phase a' = nd_phase a" "nd_queue a' = nd_queue a" "nd_running a' = nd_running a"
    "nd_output a' = nd_output a"
  using assms by (auto simp: take_frame_def split: sum.splits)

lemma put_frame_fields:
  assumes "put_frame X accepted sequence operation a = (a', r)"
  shows "nd_service a' = nd_service a" "nd_phase a' = nd_phase a" "nd_queue a' = nd_queue a" "nd_running a' = nd_running a"
    "nd_input a' = nd_input a"
  using assms by (cases "write_frame X sequence operation"; auto simp: put_frame_def)+

lemmas session_fields = take_frame_fields put_frame_fields

lemma session_reply_cases:
  assumes "session_reply X accepted sequence operation a = (a', r)"
  obtains (opened) "r = Inr (Open (Suc sequence))" "nd_service a' = nd_service a" "nd_queue a' = nd_queue a" "nd_running a' = nd_running a"
  | (failed) e where "r = Inl e" "nd_service a' = nd_service a" "nd_queue a' = nd_queue a" "nd_running a' = nd_running a"
proof -
  obtain a1 x where p: "put_frame X accepted sequence operation a = (a1, x)" by fastforce
  note f = put_frame_fields[OF p]
  show thesis using assms f that by (cases x) (auto simp: session_reply_def p ensure_s_def split: if_splits)
qed

lemma session_first_cases:
  assumes "session_first X now accepted a = (a', r)"
  obtains (opened) "r = Inr (Open 1)" "nd_service a' = set_lease True now (nd_service a)" "nd_queue a' = nd_queue a" "nd_running a' = nd_running a"
  | (failed) e where "r = Inl e" "nd_service a' = nd_service a" "nd_queue a' = nd_queue a" "nd_running a' = nd_running a"
proof -
  obtain a1 x where t: "take_frame X a = (a1, x)" by fastforce
  obtain a2 y where p: "put_frame X accepted 0 OpHeartbeat a1 = (a2, y)" by fastforce
  note f = take_frame_fields[OF t] put_frame_fields[OF p]
  show thesis using assms f that
    by (cases x; cases y) (auto simp: session_first_def t p ensure_s_def renew_lease_def split: if_splits)
qed

lemma session_frame_cases:
  assumes "session_frame X now accepted sequence a = (a', r)"
  obtains (opened) "r = Inr (Open (Suc sequence))" "nd_service a' = set_lease (ru_live (sv_runtime (nd_service a))) now (nd_service a)"
      "nd_queue a' = nd_queue a" "nd_running a' = nd_running a"
  | (sending) subj payload where "r = Inr (Sending sequence subj payload)" "allowed subj" "length payload \<le> MAX_WIRE"
      "nd_service a' = set_lease (ru_live (sv_runtime (nd_service a))) now (nd_service a)" "nd_queue a' = nd_queue a" "nd_running a' = nd_running a"
  | (failed) e where "r = Inl e" "nd_queue a' = nd_queue a" "nd_running a' = nd_running a"
      "nd_service a' = nd_service a \<or> nd_service a' = set_lease (ru_live (sv_runtime (nd_service a))) now (nd_service a)"
proof -
  obtain a1 x where t: "take_frame X a = (a1, x)" by fastforce
  note f = take_frame_fields[OF t]
  show thesis
  proof (cases "\<exists>m. x = Inr m \<and> fr_sequence m = sequence")
    case False
    then show thesis using assms f that by (cases x) (auto simp: session_frame_def t)
  next
    case True
    then obtain m where m: "x = Inr m" "fr_sequence m = sequence" by blast
    let ?a = "renew_lease (ru_live (sv_runtime (nd_service a1))) now a1"
    have s: "nd_service ?a = set_lease (ru_live (sv_runtime (nd_service a))) now (nd_service a)" "nd_queue ?a = nd_queue a"
      "nd_running ?a = nd_running a" by (simp_all add: renew_lease_def f)
    show thesis
    proof (cases "fr_operation m")
      case OpHeartbeat
      then have "session_reply X accepted sequence OpHeartbeat ?a = (a', r)" using assms m by (simp add: session_frame_def t Let_def)
      then show thesis by (rule session_reply_cases) (use s that in auto)
    qed (use assms m s that in \<open>auto simp: session_frame_def t Let_def ensure_s_def split: if_splits\<close>)
  qed
qed

section \<open>The authority's runs are runs of the service\<close>

definition forwarded_ok :: "string \<Rightarrow> bytes \<Rightarrow> bool" where
  "forwarded_ok subj payload \<longleftrightarrow> allowed subj \<and> length payload \<le> MAX_WIRE"

text \<open>
  Only admissible requests are queued, a request is active exactly while its session waits for it, and the
  worker counts as live only in a session past the handshake.
\<close>

definition node_ok :: "'s node \<Rightarrow> bool" where
  "node_ok a \<longleftrightarrow>
     (\<forall>subj payload active. nd_queue a = Some (subj, payload, active) \<longrightarrow> forwarded_ok subj payload) \<and>
     (\<forall>sequence subj payload. nd_phase a = Sending sequence subj payload \<longrightarrow> forwarded_ok subj payload) \<and>
     ((\<exists>subj payload. nd_queue a = Some (subj, payload, True)) \<longleftrightarrow> (\<exists>sequence. nd_phase a = Waiting sequence)) \<and>
     (ru_live (sv_runtime (nd_service a)) \<longrightarrow> nd_phase a \<noteq> NoSession \<and> nd_phase a \<noteq> Greeting)"

definition node_event_ok :: "node_event \<Rightarrow> bool" where
  "node_event_ok e = (case e of Serve env \<Rightarrow> request_env_ok env | Beside i \<Rightarrow> service_input_ok i | _ \<Rightarrow> True)"

lemma lease_runtime [simp]:
  "ru_live (sv_runtime (set_lease live now v)) = live" "ru_last_seen (sv_runtime (set_lease live now v)) = now"
  "ru_live (sv_runtime (worker_started v)) = ru_live (sv_runtime v)" "ru_last_seen (sv_runtime (worker_started v)) = ru_last_seen (sv_runtime v)"
  "\<not> ru_live (sv_runtime (worker_ended v))"
  by (simp_all add: set_lease_def worker_started_def worker_ended_def Let_def)

definition same_lease :: "'s service \<Rightarrow> 's service \<Rightarrow> bool" where
  "same_lease v v' \<longleftrightarrow> ru_live (sv_runtime v') = ru_live (sv_runtime v) \<and> ru_last_seen (sv_runtime v') = ru_last_seen (sv_runtime v)"

lemma gate_lease [simp]: "ru_live (gate b u) = ru_live u" "ru_last_seen (gate b u) = ru_last_seen u"
  by (simp_all add: gate_def Let_def)

lemma repaired_lease [simp]: "ru_live (repaired now b u) = ru_live u" "ru_last_seen (repaired now b u) = ru_last_seen u"
  by (simp_all add: repaired_def)

lemma refresh_lease:
  "refresh E envs P start now done_at u r = (u', r') \<Longrightarrow> ru_live u' = ru_live u \<and> ru_last_seen u' = ru_last_seen u"
  by (auto simp: refresh_def flush_observations_def Let_def split: prod.splits sum.splits if_splits)

lemma on_backend_lease [simp]: "same_lease v (fst (on_backend m w)) = same_lease v w"
  by (simp add: on_backend_def same_lease_def split: prod.split)

lemma setters_lease [simp]:
  "same_lease v (w\<lparr>sv_backend := b'\<rparr>) = same_lease v w"
  "same_lease v (set_gate b w) = same_lease v w" "same_lease v (set_repaired now b w) = same_lease v w"
  "same_lease v (count_control f w) = same_lease v w"
  by (simp_all add: same_lease_def set_gate_def set_repaired_def count_control_def)

lemma take_rate_lease: "same_lease v (fst (take_rate subj now w)) = same_lease v w"
  by (simp add: take_rate_def same_lease_def split: prod.split)

lemma perform_lease: "same_lease v w \<Longrightarrow> same_lease v (fst (perform E P N k env subj request w))"
  unfolding perform_def Let_def case_prod_unfold by (auto intro!: keeping[where P = "same_lease v"])

lemma handle_lease: "same_lease v w \<Longrightarrow> same_lease v (fst (handle E P N k env subj payload w))"
  using take_rate_lease[of v subj "qe_rate env" w]
  by (auto simp: handle_def case_prod_unfold intro: perform_lease split: sum.split)

lemma repair_after_lease: "same_lease v w \<Longrightarrow> same_lease v (repair_after E P N k env now w)"
  using on_backend_lease[of v "repair_state E P N k env" w] by (simp add: repair_after_def Let_def case_prod_unfold)

lemma settle_lease: "same_lease v w \<Longrightarrow> same_lease v (fst (settle E P env w response))"
proof -
  assume "same_lease v w"
  then have d: "same_lease v (fst (deny E P env w))"
    by (simp add: deny_def case_prod_unfold) (simp add: same_lease_def on_backend_def count_control_def case_prod_unfold)
  then show ?thesis using \<open>same_lease v w\<close> by (simp add: settle_def split: sum.split)
qed

lemma control_request_lease: "same_lease v (fst (control_request E P N k env subj payload v))"
proof -
  let ?h = "handle E P N k env subj payload (count_control ct_received_update v)"
  have "same_lease v (fst ?h)" by (intro handle_lease) (simp add: same_lease_def count_control_def)
  then have "same_lease v (fst (settle E P env (repair_after E P N k (qe_repair env) (qe_repaired env) (fst ?h)) (snd ?h)))"
    by (intro settle_lease repair_after_lease)
  then show ?thesis by (simp add: control_request_def case_prod_unfold)
qed

lemma beside_lease: "beside i \<Longrightarrow> same_lease v (service_step E P N k v i)"
proof (cases i)
  case (RefreshTick envs start now done_at)
  obtain u r where "refresh E envs P start now done_at (sv_runtime v) (bk_registry (sv_backend v)) = (u, r)" by fastforce
  then show ?thesis using refresh_lease RefreshTick by (simp add: refresh_tick_def same_lease_def) blast
next
  case (RepairTick env now)
  then show ?thesis using on_backend_lease[of v "repair_state E P N k env" v] by (simp add: repair_tick_def case_prod_unfold) (simp add: same_lease_def)
qed (simp_all add: beside_def same_lease_def auth_request_def split: option.split prod.split)

text \<open>
  A machine that refines another one: each of its steps is, seen through \<open>abs\<close>, a sequence of
  admissible steps of the abstract machine.
\<close>

locale refined_machine = invariant_machine step inv adm
  for step :: "'s \<Rightarrow> 'o \<Rightarrow> 's" and inv :: "'s \<Rightarrow> bool" and adm :: "'o \<Rightarrow> bool" +
  fixes abs :: "'s \<Rightarrow> 'a" and abs_step :: "'a \<Rightarrow> 'i \<Rightarrow> 'a" and abs_adm :: "'i \<Rightarrow> bool"
  assumes refines: "inv s \<Longrightarrow> adm x \<Longrightarrow> \<exists>is. list_all abs_adm is \<and> abs (step s x) = foldl abs_step (abs s) is"
begin

lemma run_refines: "inv s \<Longrightarrow> list_all adm xs \<Longrightarrow> \<exists>is. list_all abs_adm is \<and> abs (foldl step s xs) = foldl abs_step (abs s) is"
proof (induction xs arbitrary: s)
  case Nil
  show ?case by (rule exI[of _ "[]"]) simp
next
  case (Cons x xs)
  then obtain ys js where "list_all abs_adm ys" "abs (step s x) = foldl abs_step (abs s) ys"
    "list_all abs_adm js" "abs (foldl step (step s x) xs) = foldl abs_step (abs (step s x)) js"
    using refines[of s x] inv_step[of s x] by force
  then show ?case by (intro exI[of _ "ys @ js"]) simp
qed

end

text \<open>The inputs of the service that its local socket produces: control requests of a worker that pass the listener.\<close>

definition local_input :: "service_input \<Rightarrow> bool" where
  "local_input i \<longleftrightarrow> service_input_ok i \<and>
     (\<forall>env subj payload reply local. i = ControlRequest env subj payload reply local \<longrightarrow> local \<and> forwarded_ok subj payload)"

lemma service_step_one: "v' = service_step E P N k v i \<Longrightarrow> local_input i \<Longrightarrow>
  \<exists>is. list_all local_input is \<and> v' = foldl (service_step E P N k) v is"
  by (intro exI[of _ "[i]"]) simp

lemma local_inputs [simp]: "local_input (WorkerLease live now)" "local_input WorkerStarted" "local_input WorkerEnded"
  by (simp_all add: local_input_def service_input_ok_def)

lemma service_step_two: "v' = service_step E P N k (service_step E P N k v i) j \<Longrightarrow> local_input i \<Longrightarrow> local_input j \<Longrightarrow>
  \<exists>is. list_all local_input is \<and> v' = foldl (service_step E P N k) v is"
  by (intro exI[of _ "[i, j]"]) simp

lemma service_step_none: "v' = v \<Longrightarrow>
  \<exists>is. list_all local_input is \<and> v' = foldl (service_step E P N k) v is"
  by (intro exI[of _ "[]"]) simp

lemma end_session_service [simp]: "nd_service (end_session a) = worker_ended (nd_service a)" "nd_phase (end_session a) = NoSession"
  "nd_running (end_session a) = nd_running a"
  "nd_queue (end_session a) = map_option (\<lambda>(subj, payload, _). (subj, payload, False)) (nd_queue a)"
  by (simp_all add: end_session_def)

lemma session_settle_service:
  "nd_service (session_settle m) = (if is_ok (snd m) then nd_service (fst m) else worker_ended (nd_service (fst m)))"
  by (cases m; cases "snd m") (simp_all add: session_settle_def)

lemma end_session_ok: "(\<forall>subj payload active. nd_queue a = Some (subj, payload, active) \<longrightarrow> forwarded_ok subj payload) \<Longrightarrow> node_ok (end_session a)"
  by (auto simp: node_ok_def)

lemma node_ok_queue: "node_ok a \<Longrightarrow> nd_queue a' = nd_queue a \<Longrightarrow>
    (\<forall>subj payload active. nd_queue a' = Some (subj, payload, active) \<longrightarrow> forwarded_ok subj payload)"
  by (simp add: node_ok_def)

lemma read_session_ok:
  assumes "node_ok a"
  shows "node_ok (read_session X now accepted a)"
proof (cases "nd_phase a")
  case Greeting
  obtain a' r where s: "session_first X now accepted a = (a', r)" by fastforce
  then show ?thesis
  proof (cases rule: session_first_cases)
    case opened
    then show ?thesis using assms Greeting by (simp add: read_session_def s session_settle_def node_ok_def)
  next
    case (failed e)
    then show ?thesis using Greeting node_ok_queue[OF assms failed(3)] by (simp add: read_session_def s session_settle_def end_session_ok)
  qed
next
  case (Open n)
  obtain a' r where s: "session_frame X now accepted n a = (a', r)" by fastforce
  then show ?thesis
  proof (cases rule: session_frame_cases)
    case opened
    then show ?thesis using assms Open by (simp add: read_session_def s session_settle_def node_ok_def)
  next
    case (sending subj payload)
    then show ?thesis using assms Open by (simp add: read_session_def s session_settle_def node_ok_def forwarded_ok_def)
  next
    case (failed e)
    then show ?thesis using Open node_ok_queue[OF assms failed(2)] by (simp add: read_session_def s session_settle_def end_session_ok)
  qed
qed (use assms in \<open>simp_all add: read_session_def\<close>)

lemma reply_session_ok:
  assumes "node_ok a"
  shows "node_ok (reply_session X accepted a)"
proof (cases "nd_phase a")
  case (Answering n bs)
  obtain a' r where s: "session_reply X accepted n (OpResponse bs) a = (a', r)" by fastforce
  then show ?thesis
  proof (cases rule: session_reply_cases)
    case opened
    then show ?thesis using assms Answering by (simp add: reply_session_def s session_settle_def node_ok_def)
  next
    case (failed e)
    then show ?thesis using Answering node_ok_queue[OF assms failed(3)] by (simp add: reply_session_def s session_settle_def end_session_ok)
  qed
qed (use assms in \<open>simp_all add: reply_session_def\<close>)

lemma serve_request_ok:
  assumes "node_ok a"
  shows "node_ok (serve_request E P N k env a)"
proof (cases "\<exists>subj payload. nd_queue a = Some (subj, payload, True)")
  case True
  then obtain subj payload where q: "nd_queue a = Some (subj, payload, True)" by blast
  then obtain n where n: "nd_phase a = Waiting n" using assms by (auto simp: node_ok_def)
  obtain v r where c: "control_request E P N k env subj payload (nd_service a) = (v, r)" by fastforce
  have "ru_live (sv_runtime v) = ru_live (sv_runtime (nd_service a))"
    using control_request_lease[of "nd_service a" E P N k env subj payload] by (simp add: c same_lease_def)
  then show ?thesis using assms by (cases r) (simp_all add: serve_request_def q n c Let_def node_ok_def)
next
  case False
  then show ?thesis using assms by (auto simp: serve_request_def node_ok_def Let_def split: option.split)
qed

lemma node_step_ok:
  assumes "node_ok a"
  shows "node_ok (node_step X E P N k b a e)"
proof (cases e)
  case (Accept uid)
  then show ?thesis using assms by (auto simp: node_step_def accept_worker_def node_ok_def)
next
  case (Beside i)
  then show ?thesis using assms beside_lease[of i "nd_service a" E P N k]
    by (auto simp: node_step_def node_ok_def same_lease_def simp del: service_step.simps)
next
  case Enqueue
  then show ?thesis using assms by (auto simp: node_step_def enqueue_request_def node_ok_def split: session_phase.split option.split)
qed (use assms in \<open>simp_all add: node_step_def read_session_ok reply_session_ok serve_request_ok end_session_ok node_ok_queue, simp_all add: node_ok_def\<close>)

lemma session_settle_refines:
  assumes "nd_service (fst m) = nd_service a \<or> nd_service (fst m) = set_lease live now (nd_service a)"
  shows "\<exists>is. list_all local_input is \<and> nd_service (session_settle m) = foldl (service_step E P N k) (nd_service a) is"
proof (cases "snd m")
  case (Inl e)
  then have s: "nd_service (session_settle m) = worker_ended (nd_service (fst m))" by (simp add: session_settle_service)
  from assms show ?thesis
  proof
    assume "nd_service (fst m) = nd_service a"
    then show ?thesis by (intro service_step_one[where i = WorkerEnded]) (simp_all add: s)
  next
    assume "nd_service (fst m) = set_lease live now (nd_service a)"
    then show ?thesis by (intro service_step_two[where i = "WorkerLease live now" and j = WorkerEnded]) (simp_all add: s)
  qed
next
  case (Inr p)
  then have s: "nd_service (session_settle m) = nd_service (fst m)" by (simp add: session_settle_service)
  from assms show ?thesis
  proof
    assume "nd_service (fst m) = nd_service a"
    then show ?thesis by (intro service_step_none) (simp add: s)
  next
    assume "nd_service (fst m) = set_lease live now (nd_service a)"
    then show ?thesis by (intro service_step_one[where i = "WorkerLease live now"]) (simp_all add: s)
  qed
qed

lemma node_step_refines:
  assumes "node_ok a" "node_event_ok e"
  shows "\<exists>is. list_all local_input is \<and> nd_service (node_step X E P N k b a e) = foldl (service_step E P N k) (nd_service a) is"
proof (cases "nd_running a")
  case True
  note run = True
  show ?thesis
  proof (cases e)
    case (Accept uid)
    then show ?thesis using run by (cases "nd_phase a = NoSession \<and> uid = bn_worker_uid b")
        (auto simp: node_step_def accept_worker_def intro: service_step_one[where i = WorkerStarted] service_step_none)
  next
    case (ReadFrame now accepted)
    have "nd_service (fst (session_first X now accepted a)) = nd_service a \<or>
        nd_service (fst (session_first X now accepted a)) = set_lease True now (nd_service a)"
      by (rule session_first_cases[OF prod.collapse[symmetric]]) blast+
    note first = session_settle_refines[OF this]
    have "nd_service (fst (session_frame X now accepted n a)) = nd_service a \<or>
        nd_service (fst (session_frame X now accepted n a)) = set_lease (ru_live (sv_runtime (nd_service a))) now (nd_service a)" for n
      by (rule session_frame_cases[OF prod.collapse[symmetric]]) blast+
    note later = session_settle_refines[OF this]
    show ?thesis using run ReadFrame first later
      by (auto simp: node_step_def read_session_def split: session_phase.split intro: service_step_none)
  next
    case (Reply accepted)
    have "nd_service (fst (session_reply X accepted n op a)) = nd_service a \<or>
        nd_service (fst (session_reply X accepted n op a)) = set_lease True 0 (nd_service a)" for n op
      by (rule session_reply_cases[OF prod.collapse[symmetric]]) blast+
    note reply = session_settle_refines[OF this]
    show ?thesis using run Reply reply
      by (auto simp: node_step_def reply_session_def split: session_phase.split intro: service_step_none)
  next
    case (Serve env)
    show ?thesis
    proof (cases "\<exists>subj payload. nd_queue a = Some (subj, payload, True)")
      case True
      then obtain subj payload where q: "nd_queue a = Some (subj, payload, True)" by blast
      then have f: "forwarded_ok subj payload" using assms(1) unfolding node_ok_def by blast
      obtain v r where c: "control_request E P N k env subj payload (nd_service a) = (v, r)" by fastforce
      have i: "local_input (ControlRequest env subj payload None True)"
        using f assms(2) Serve by (simp add: local_input_def service_input_ok_def node_event_ok_def)
      have v: "service_step E P N k (nd_service a) (ControlRequest env subj payload None True) = v" by (simp add: c)
      show ?thesis
      proof (cases r)
        case (Inl x)
        then show ?thesis using run Serve v i
          by (intro service_step_two[of _ E P N k "nd_service a" "ControlRequest env subj payload None True" "WorkerLease False (ru_last_seen (sv_runtime v))"])
            (simp_all add: node_step_def serve_request_def q c Let_def)
      next
        case (Inr bs)
        then show ?thesis using run Serve v i
          by (intro service_step_one[of _ E P N k "nd_service a" "ControlRequest env subj payload None True"])
            (simp_all add: node_step_def serve_request_def q c Let_def split: session_phase.split)
      qed
    next
      case False
      then show ?thesis using run Serve by (intro service_step_none) (auto simp: node_step_def serve_request_def Let_def split: option.split)
    qed
  next
    case (Beside i)
    have l: "local_input i" if "beside i"
      using that assms(2) Beside by (auto simp: local_input_def node_event_ok_def beside_def)
    show ?thesis
    proof (cases "beside i")
      case True
      then show ?thesis using run Beside l by (intro service_step_one[where i = i]) (simp_all add: node_step_def)
    next
      case False
      then show ?thesis using run Beside by (intro service_step_none) (simp add: node_step_def)
    qed
  qed (use run in \<open>auto simp: node_step_def enqueue_request_def split: session_phase.split option.split
      intro: service_step_none service_step_one[where i = WorkerEnded]\<close>)
qed (simp add: node_step_def service_step_none)

interpretation node_run: refined_machine "node_step X E P N k b" node_ok node_event_ok nd_service "service_step E P N k" local_input
  for X E P N k b
  by unfold_locales (rule node_step_ok node_step_refines; assumption)+

section \<open>The lease\<close>

text \<open>
  The frame a session waits for: the handshake numbered zero, and after it a heartbeat or an admissible request with
  the number the session has reached.
\<close>

definition due_frame :: "ipc_ext \<Rightarrow> 's node \<Rightarrow> frame \<Rightarrow> bool" where
  "due_frame X a f \<longleftrightarrow> nd_running a \<and> (\<exists>rest. read_limit X IPC_LIMIT (nd_input a) = Inr (f, rest)) \<and>
     (nd_phase a = Greeting \<and> fr_sequence f = 0 \<and> fr_operation f = OpReady \<or>
      nd_phase a = Open (fr_sequence f) \<and>
        (fr_operation f = OpHeartbeat \<or>
         (\<exists>subj payload. fr_operation f = OpRequest subj payload \<and> allowed subj \<and> length payload \<le> MAX_WIRE)))"

text \<open>How many due frames a node has read since its session was accepted.\<close>

definition reads_after :: "ipc_ext \<Rightarrow> 's node \<Rightarrow> node_event \<Rightarrow> nat \<Rightarrow> nat" where
  "reads_after X a e c = (case e of
     Accept _ \<Rightarrow> if nd_phase a = NoSession then 0 else c
   | ReadFrame _ _ \<Rightarrow> if \<exists>f. due_frame X a f then Suc c else c
   | _ \<Rightarrow> c)"

fun session_reads ::
    "ipc_ext \<Rightarrow> 'z jwt_ext_scheme \<Rightarrow> rpager \<Rightarrow> 's nats \<Rightarrow> keypair \<Rightarrow> bindings \<Rightarrow> 's node \<Rightarrow> nat \<Rightarrow> node_event list \<Rightarrow> nat" where
  "session_reads X E P N k b a c [] = c"
| "session_reads X E P N k b a c (e # es) = session_reads X E P N k b (node_step X E P N k b a e) (reads_after X a e c) es"

lemma session_reads_snoc:
  "session_reads X E P N k b a c (es @ [e]) =
     reads_after X (foldl (node_step X E P N k b) a es) e (session_reads X E P N k b a c es)"
  by (induction es arbitrary: a c) simp_all

lemma first_due:
  assumes "session_first X now accepted a = (a', Inr p)" "nd_phase a = Greeting" "nd_running a"
  shows "\<exists>f. due_frame X a f"
  using assms by (cases "read_limit X IPC_LIMIT (nd_input a)")
    (auto simp: session_first_def take_frame_def ensure_s_def due_frame_def split: if_splits)

lemma frame_due:
  assumes "session_frame X now accepted sequence a = (a', Inr p)" "nd_phase a = Open sequence" "nd_running a"
  shows "\<exists>f. due_frame X a f"
  using assms by (cases "read_limit X IPC_LIMIT (nd_input a)")
    (auto simp: session_frame_def take_frame_def ensure_s_def due_frame_def Let_def split: if_splits ipc_operation.splits)

text \<open>A session that goes on after a read has read the frame it waited for.\<close>

lemma read_due:
  assumes "nd_running a" "nd_phase a = Greeting \<or> (\<exists>n. nd_phase a = Open n)" "nd_phase (read_session X now accepted a) \<noteq> NoSession"
  shows "\<exists>f. due_frame X a f"
  using assms(2)
proof
  assume g: "nd_phase a = Greeting"
  obtain a' r where s: "session_first X now accepted a = (a', r)" by fastforce
  with g assms(3) obtain p where "r = Inr p" by (cases r) (auto simp: read_session_def session_settle_def)
  with s show ?thesis using first_due g assms(1) by blast
next
  assume "\<exists>n. nd_phase a = Open n"
  then obtain n where g: "nd_phase a = Open n" by blast
  obtain a' r where s: "session_frame X now accepted n a = (a', r)" by fastforce
  with g assms(3) obtain p where "r = Inr p" by (cases r) (auto simp: read_session_def session_settle_def)
  with s show ?thesis using frame_due g assms(1) by blast
qed

text \<open>The number a session has reached is the number of the frames it has read.\<close>

definition reads_counted :: "session_phase \<Rightarrow> nat \<Rightarrow> bool" where
  "reads_counted p c = (case p of NoSession \<Rightarrow> True | Greeting \<Rightarrow> c = 0 | Open n \<Rightarrow> c = n
     | Sending n _ _ \<Rightarrow> c = Suc n | Waiting n \<Rightarrow> c = Suc n | Answering n _ \<Rightarrow> c = Suc n)"

lemma end_session_counted [simp]: "reads_counted (nd_phase (end_session a)) c"
  by (simp add: end_session_def reads_counted_def)

lemma read_counted:
  assumes "nd_running a" "reads_counted (nd_phase a) c"
  shows "reads_counted (nd_phase (read_session X now accepted a)) (reads_after X a (ReadFrame now accepted) c)"
proof (cases "nd_phase (read_session X now accepted a) = NoSession")
  case False
  note went = read_due[OF assms(1) _ False]
  show ?thesis
  proof (cases "nd_phase a")
    case Greeting
    obtain a' r where s: "session_first X now accepted a = (a', r)" by fastforce
    then show ?thesis using went Greeting assms(2) False
      by (cases rule: session_first_cases) (simp_all add: read_session_def s session_settle_def reads_after_def reads_counted_def)
  next
    case (Open n)
    obtain a' r where s: "session_frame X now accepted n a = (a', r)" by fastforce
    then show ?thesis using went Open assms(2) False
      by (cases rule: session_frame_cases) (simp_all add: read_session_def s session_settle_def reads_after_def reads_counted_def)
  qed (use assms(2) in \<open>auto simp: read_session_def reads_after_def reads_counted_def due_frame_def\<close>)
qed (simp add: reads_counted_def)

lemma node_step_counted:
  assumes "reads_counted (nd_phase a) c"
  shows "reads_counted (nd_phase (node_step X E P N k b a e)) (reads_after X a e c)"
proof (cases "nd_running a")
  case run: True
  show ?thesis
  proof (cases e)
    case (ReadFrame now accepted)
    then show ?thesis using read_counted[OF run assms] run by (simp add: node_step_def)
  next
    case (Reply accepted)
    show ?thesis
    proof (cases "nd_phase a")
      case (Answering n bs)
      obtain a' r where s: "session_reply X accepted n (OpResponse bs) a = (a', r)" by fastforce
      then show ?thesis using Reply Answering run assms
        by (cases rule: session_reply_cases)
          (simp_all add: node_step_def reply_session_def s session_settle_def reads_after_def reads_counted_def end_session_def)
    qed (use Reply run assms in \<open>simp_all add: node_step_def reply_session_def reads_after_def reads_counted_def\<close>)
  next
    case (Serve env)
    then show ?thesis using run assms
      by (auto simp: node_step_def serve_request_def Let_def reads_after_def reads_counted_def split: option.split prod.split sum.split session_phase.splits)
  qed (use run assms in \<open>auto simp: node_step_def accept_worker_def enqueue_request_def reads_after_def reads_counted_def
      split: session_phase.splits option.split simp del: service_step.simps\<close>)
next
  case False
  then show ?thesis using assms by (auto simp: node_step_def reads_after_def reads_counted_def due_frame_def split: node_event.split session_phase.splits)
qed

lemma run_counted:
  "reads_counted (nd_phase a) c \<Longrightarrow>
     reads_counted (nd_phase (foldl (node_step X E P N k b) a events)) (session_reads X E P N k b a c events)"
  by (induction events arbitrary: a c) (simp_all add: node_step_counted)

lemma due_frame_counted: "due_frame X a f \<Longrightarrow> reads_counted (nd_phase a) c \<Longrightarrow> fr_sequence f = c"
  by (auto simp: due_frame_def reads_counted_def)

lemma node_step_lease:
  assumes "node_ok a"
  shows "same_lease (nd_service a) (nd_service (node_step X E P N k b a e)) \<or>
    \<not> ru_live (sv_runtime (nd_service (node_step X E P N k b a e))) \<or>
    (\<exists>seen accepted f. e = ReadFrame seen accepted \<and> due_frame X a f \<and>
       ru_last_seen (sv_runtime (nd_service (node_step X E P N k b a e))) = seen)"
proof (cases "nd_running a")
  case True
  note run = True
  have settle: "same_lease (nd_service a) (nd_service (session_settle m)) \<or> \<not> ru_live (sv_runtime (nd_service (session_settle m))) \<or>
      ru_last_seen (sv_runtime (nd_service (session_settle m))) = now"
    if "nd_service (fst m) = nd_service a \<or> nd_service (fst m) = set_lease live now (nd_service a)" for m live now
    using that by (auto simp: session_settle_service same_lease_def)
  show ?thesis
  proof (cases e)
    case (ReadFrame now accepted)
    have "nd_service (fst (session_first X now accepted a)) = nd_service a \<or>
        nd_service (fst (session_first X now accepted a)) = set_lease True now (nd_service a)"
      by (rule session_first_cases[OF prod.collapse[symmetric]]) blast+
    note first = settle[OF this]
    have "nd_service (fst (session_frame X now accepted n a)) = nd_service a \<or>
        nd_service (fst (session_frame X now accepted n a)) = set_lease (ru_live (sv_runtime (nd_service a))) now (nd_service a)" for n
      by (rule session_frame_cases[OF prod.collapse[symmetric]]) blast+
    note later = settle[OF this]
    show ?thesis
    proof (cases "nd_phase (read_session X now accepted a) = NoSession")
      case True
      then show ?thesis using run ReadFrame node_step_ok[OF assms, of X E P N k b e] by (auto simp: node_step_def node_ok_def)
    next
      case False
      show ?thesis using run ReadFrame first later read_due[OF run _ False]
        by (auto simp: node_step_def read_session_def same_lease_def split: session_phase.split)
    qed
  next
    case (Reply accepted)
    have "nd_service (fst (session_reply X accepted n op a)) = nd_service a" for n op
      by (rule session_reply_cases[OF prod.collapse[symmetric]]) blast+
    then show ?thesis using run Reply by (auto simp: node_step_def reply_session_def same_lease_def session_settle_service split: session_phase.split)
  next
    case (Serve env)
    show ?thesis
    proof (cases "\<exists>subj payload. nd_queue a = Some (subj, payload, True)")
      case True
      then obtain subj payload where q: "nd_queue a = Some (subj, payload, True)" by blast
      obtain v r where c: "control_request E P N k env subj payload (nd_service a) = (v, r)" by fastforce
      have "same_lease (nd_service a) v" using control_request_lease[of "nd_service a" E P N k env subj payload] by (simp add: c)
      then show ?thesis using run Serve by (cases r) (auto simp: node_step_def serve_request_def q c Let_def split: session_phase.split)
    next
      case False
      then show ?thesis using run Serve by (auto simp: node_step_def serve_request_def Let_def same_lease_def split: option.split)
    qed
  next
    case (Beside i)
    then show ?thesis using run beside_lease[of i "nd_service a" E P N k] by (auto simp: node_step_def same_lease_def simp del: service_step.simps)
  qed (use run in \<open>auto simp: node_step_def enqueue_request_def accept_worker_def same_lease_def split: session_phase.split option.split\<close>)
qed (simp add: node_step_def same_lease_def)

text \<open>Past the handshake.\<close>

definition established :: "'s node \<Rightarrow> bool" where
  "established a \<longleftrightarrow> nd_phase a \<noteq> NoSession \<and> nd_phase a \<noteq> Greeting"

text \<open>A live worker has sent the frame that renewed its lease in the session that still runs.\<close>

lemma live_since:
  fixes X E P N k b a0
  defines "run \<equiv> foldl (node_step X E P N k b) a0"
  assumes "node_ok a0" "\<not> ru_live (sv_runtime (nd_service a0))" "ru_live (sv_runtime (nd_service (run events)))"
  shows "\<exists>pre accepted post f. events = pre @ ReadFrame (ru_last_seen (sv_runtime (nd_service (run events)))) accepted # post \<and>
    due_frame X (run pre) f \<and>
    (\<forall>n \<le> length post. established (run (pre @ ReadFrame (ru_last_seen (sv_runtime (nd_service (run events)))) accepted # take n post)))"
  using assms(4)
proof (induction events rule: rev_induct)
  case Nil
  then show ?case using assms(3) by (simp add: run_def)
next
  case (snoc e events)
  have ok: "node_ok (run es)" for es using assms(2) unfolding run_def by (induction es arbitrary: a0) (simp_all add: node_step_ok)
  have est: "established (run (events @ [e]))" using ok[of "events @ [e]"] snoc.prems unfolding node_ok_def established_def by blast
  have step: "run (events @ [e]) = node_step X E P N k b (run events) e" by (simp add: run_def)
  consider (same) "same_lease (nd_service (run events)) (nd_service (run (events @ [e])))"
    | (frame) seen accepted f where "e = ReadFrame seen accepted" "due_frame X (run events) f"
      "ru_last_seen (sv_runtime (nd_service (run (events @ [e])))) = seen"
    using node_step_lease[OF ok[of events], of X E P N k b e] snoc.prems unfolding step by blast
  then show ?case
  proof cases
    case same
    then have l: "ru_live (sv_runtime (nd_service (run events)))"
      "ru_last_seen (sv_runtime (nd_service (run (events @ [e])))) = ru_last_seen (sv_runtime (nd_service (run events)))"
      using snoc.prems by (simp_all add: same_lease_def)
    let ?seen = "ru_last_seen (sv_runtime (nd_service (run events)))"
    obtain pre accepted post f where p: "events = pre @ ReadFrame ?seen accepted # post" "due_frame X (run pre) f"
      "\<forall>n \<le> length post. established (run (pre @ ReadFrame ?seen accepted # take n post))"
      using snoc.IH[OF l(1)] by blast
    have "established (run (pre @ ReadFrame ?seen accepted # take n (post @ [e])))" if n: "n \<le> length (post @ [e])" for n
    proof (cases "n \<le> length post")
      case True
      then show ?thesis using p(3) by simp
    next
      case False
      then have "take n (post @ [e]) = post @ [e]" using n by simp
      moreover have "pre @ ReadFrame ?seen accepted # post @ [e] = events @ [e]" by (subst p(1)) simp
      ultimately show ?thesis using est by metis
    qed
    moreover have "events @ [e] = pre @ ReadFrame ?seen accepted # (post @ [e])" by (subst p(1)) simp
    ultimately show ?thesis using p(2) unfolding l(2) by blast
  next
    case frame
    then show ?thesis using est by (intro exI[of _ events] exI[of _ accepted] exI[of _ "[]"] exI[of _ f]) simp
  qed
qed

text \<open>Only the bound account gets a session.\<close>

lemma session_starts:
  "nd_phase a = NoSession \<Longrightarrow> nd_phase (node_step X E P N k b a e) \<noteq> NoSession \<Longrightarrow> e = Accept (bn_worker_uid b)"
  by (cases e) (auto simp: node_step_def accept_worker_def read_session_def enqueue_request_def serve_request_def reply_session_def Let_def
        split: if_splits option.splits prod.splits sum.splits)

lemma session_accepted:
  assumes "nd_phase a0 = NoSession" "nd_phase (foldl (node_step X E P N k b) a0 events) \<noteq> NoSession"
  shows "Accept (bn_worker_uid b) \<in> set events"
  using assms(2)
proof (induction events rule: rev_induct)
  case (snoc e events)
  then show ?case using session_starts[of "foldl (node_step X E P N k b) a0 events" X E P N k b e] by auto
qed (use assms(1) in simp)

end
