(* ===== verification/Exchange.thy ===== *)
theory Exchange
  imports Lockstep
begin

text \<open>
  A worker and the authority's session on the two ends of one connection, under every interleaving of
  their steps, every delay of the bytes between them, every short write and every deadline. The history
  of the requests that the worker forwards and of the responses that the service gives is kept beside the state.
\<close>

section \<open>One connection\<close>

record 's link =
  ln_worker :: worker
  ln_node :: "'s node"
  ln_sent :: "(string \<times> bytes \<times> string) list"
  ln_served :: "(string \<times> bytes \<times> bytes) list"

datatype link_event = WorkerTick nat | WorkerControl nat string bytes string | WorkerIgnores nat string bytes | WorkerReads bool
  | WorkerStops | Carry nat | Return nat | Node node_event

definition served_response ::
    "'z authority_ext_scheme \<Rightarrow> rpager \<Rightarrow> 's nats \<Rightarrow> keypair \<Rightarrow> request_env \<Rightarrow> 's node \<Rightarrow> (string \<times> bytes \<times> bytes) list" where
  "served_response E P N k env a =
     (case nd_queue a of
        Some (subj, payload, True) \<Rightarrow>
          (case control_request E P N k env subj payload (nd_service a) of (_, Inr bs) \<Rightarrow> [(subj, payload, bs)] | _ \<Rightarrow> [])
      | _ \<Rightarrow> [])"

definition on_connection :: "node_event \<Rightarrow> bool" where
  "on_connection e = (case e of Accept _ \<Rightarrow> False | Deliver _ \<Rightarrow> False | _ \<Rightarrow> True)"

fun link_step ::
    "ipc_ext \<Rightarrow> 'z jwt_ext_scheme \<Rightarrow> rpager \<Rightarrow> 's nats \<Rightarrow> keypair \<Rightarrow> bindings \<Rightarrow> 's link \<Rightarrow> link_event \<Rightarrow> 's link" where
  "link_step X E P N k b l (WorkerTick accepted) = l\<lparr>ln_worker := worker_tick X accepted (ln_worker l)\<rparr>"
| "link_step X E P N k b l (WorkerControl accepted subj payload reply) =
     l\<lparr>ln_worker := worker_control X accepted subj payload (Some reply) (ln_worker l),
       ln_sent := ln_sent l @ (case wk_phase (ln_worker l) of
         Idle _ \<Rightarrow> if forwardable subj payload (Some reply) then [(subj, payload, reply)] else [] | _ \<Rightarrow> [])\<rparr>"
| "link_step X E P N k b l (WorkerIgnores accepted subj payload) =
     l\<lparr>ln_worker := worker_control X accepted subj payload None (ln_worker l)\<rparr>"
| "link_step X E P N k b l (WorkerReads delivered) = l\<lparr>ln_worker := worker_read X delivered (ln_worker l)\<rparr>"
| "link_step X E P N k b l WorkerStops = l\<lparr>ln_worker := (ln_worker l)\<lparr>wk_phase := Stopped\<rparr>\<rparr>"
| "link_step X E P N k b l (Carry n) =
     l\<lparr>ln_worker := (ln_worker l)\<lparr>wk_output := drop n (wk_output (ln_worker l))\<rparr>,
       ln_node := (ln_node l)\<lparr>nd_input := nd_input (ln_node l) @ take n (wk_output (ln_worker l))\<rparr>\<rparr>"
| "link_step X E P N k b l (Return n) =
     l\<lparr>ln_worker := (ln_worker l)\<lparr>wk_input := wk_input (ln_worker l) @ take n (nd_output (ln_node l))\<rparr>,
       ln_node := (ln_node l)\<lparr>nd_output := drop n (nd_output (ln_node l))\<rparr>\<rparr>"
| "link_step X E P N k b l (Node e) =
     (if on_connection e \<and> nd_running (ln_node l)
      then l\<lparr>ln_node := node_step X E P N k b (ln_node l) e,
             ln_served := ln_served l @ (case e of Serve env \<Rightarrow> served_response E P N k env (ln_node l) | _ \<Rightarrow> [])\<rparr>
      else l)"

definition link_start :: "ipc_ext \<Rightarrow> bindings \<Rightarrow> nat \<Rightarrow> 's node \<Rightarrow> 's link" where
  "link_start X b accepted a = \<lparr>ln_worker = worker_connect X b (bn_authority_uid b) accepted, ln_node = accept_worker b (bn_worker_uid b) a,
     ln_sent = [], ln_served = []\<rparr>"

section \<open>The stages of an exchange\<close>

definition wire :: "ipc_ext \<Rightarrow> nat \<Rightarrow> ipc_operation \<Rightarrow> bytes" where
  "wire X sequence operation = (case write_frame X sequence operation of Inr bs \<Rightarrow> bs | Inl _ \<Rightarrow> [])"

datatype stage = Greet | Greeted | Rest nat | Asked nat ipc_operation "string option"
  | Answered nat ipc_operation "string option" ipc_operation

definition toward_node :: "'s link \<Rightarrow> bytes" where
  "toward_node l = nd_input (ln_node l) @ wk_output (ln_worker l)"

definition toward_worker :: "'s link \<Rightarrow> bytes" where
  "toward_worker l = wk_input (ln_worker l) @ nd_output (ln_node l)"

fun session_at :: "ipc_ext \<Rightarrow> stage \<Rightarrow> session_phase \<Rightarrow> (string \<times> bytes \<times> bool) option \<Rightarrow> bytes \<Rightarrow> bool" where
  "session_at X Greet p q input \<longleftrightarrow> p = Greeting \<and> prefix input (wire X 0 OpReady)"
| "session_at X Greeted p q input \<longleftrightarrow> p = Open 1 \<and> input = []"
| "session_at X (Rest n) p q input \<longleftrightarrow> p = Open n \<and> input = []"
| "session_at X (Asked n operation reply) p q input \<longleftrightarrow>
     p = Open n \<and> prefix input (wire X n operation) \<or>
     (\<exists>subj payload. operation = OpRequest subj payload \<and> input = [] \<and>
       (p = Sending n subj payload \<or> p = Waiting n \<and> q = Some (subj, payload, True)))"
| "session_at X (Answered n operation reply response) p q input \<longleftrightarrow>
     input = [] \<and> (p = Open (Suc n) \<or> (\<exists>bs. response = OpResponse bs \<and> p = Answering n bs))"

fun worker_at :: "ipc_ext \<Rightarrow> stage \<Rightarrow> worker_phase \<Rightarrow> session_phase \<Rightarrow> bytes \<Rightarrow> bool" where
  "worker_at X Greet w p input \<longleftrightarrow> w = Hello \<and> input = []"
| "worker_at X Greeted w p input \<longleftrightarrow> w = Hello \<and> prefix input (wire X 0 OpHeartbeat)"
| "worker_at X (Rest n) w p input \<longleftrightarrow> w = Idle n \<and> input = []"
| "worker_at X (Asked n operation reply) w p input \<longleftrightarrow> w = Expect n reply \<and> input = []"
| "worker_at X (Answered n operation reply response) w p input \<longleftrightarrow>
     w = Expect n reply \<and> prefix input (wire X n response) \<and> ((\<exists>bs. p = Answering n bs) \<longrightarrow> input = [])"

text \<open>The requests, responses and publications of the completed exchanges.\<close>

type_synonym exchange = "string \<times> bytes \<times> string \<times> bytes"

definition asked :: "exchange \<Rightarrow> string \<times> bytes \<times> string" where
  "asked x = (case x of (subj, payload, reply, response) \<Rightarrow> (subj, payload, reply))"

definition given :: "exchange \<Rightarrow> string \<times> bytes \<times> bytes" where
  "given x = (case x of (subj, payload, reply, response) \<Rightarrow> (subj, payload, response))"

definition told :: "exchange \<Rightarrow> string \<times> bytes" where
  "told x = (case x of (subj, payload, reply, response) \<Rightarrow> (reply, response))"

definition completed :: "exchange list \<Rightarrow> 's link \<Rightarrow> (string \<times> bytes \<times> string) list \<Rightarrow> (string \<times> bytes \<times> bytes) list \<Rightarrow> bool" where
  "completed xs l sent served \<longleftrightarrow> ln_sent l = map asked xs @ sent \<and> ln_served l = map given xs @ served \<and>
     wk_published (ln_worker l) = map told xs"

fun ledger :: "stage \<Rightarrow> exchange list \<Rightarrow> 's link \<Rightarrow> bool" where
  "ledger (Asked n operation reply) xs l \<longleftrightarrow>
     (operation = OpHeartbeat \<and> reply = None \<and> completed xs l [] [] \<or>
      (\<exists>subj payload to. operation = OpRequest subj payload \<and> reply = Some to \<and> completed xs l [(subj, payload, to)] []))"
| "ledger (Answered n operation reply response) xs l \<longleftrightarrow>
     (operation = OpHeartbeat \<and> reply = None \<and> response = OpHeartbeat \<and> completed xs l [] [] \<or>
      (\<exists>subj payload to bs. operation = OpRequest subj payload \<and> reply = Some to \<and> response = OpResponse bs \<and>
        completed xs l [(subj, payload, to)] [(subj, payload, bs)]))"
| "ledger _ xs l \<longleftrightarrow> completed xs l [] []"

definition at_stage :: "ipc_ext \<Rightarrow> stage \<Rightarrow> 's link \<Rightarrow> bool" where
  "at_stage X st l \<longleftrightarrow>
     (nd_phase (ln_node l) = NoSession \<or> session_at X st (nd_phase (ln_node l)) (nd_queue (ln_node l)) (toward_node l)) \<and>
     (wk_phase (ln_worker l) = Stopped \<or> worker_at X st (wk_phase (ln_worker l)) (nd_phase (ln_node l)) (toward_worker l)) \<and>
     (\<exists>xs. ledger st xs l)"

definition link_inv :: "ipc_ext \<Rightarrow> 's link \<Rightarrow> bool" where
  "link_inv X l \<longleftrightarrow> node_ok (ln_node l) \<and> (\<exists>st. at_stage X st l)"

section \<open>Reading and writing\<close>

lemma read_wire:
  assumes "frames_roundtrip X" "prefix (input @ rest') (wire X n operation)" "read_limit X IPC_LIMIT input = Inr (f, rest)"
  shows "f = make_frame n operation \<and> rest = [] \<and> rest' = []"
proof (cases "write_frame X n operation")
  case (Inl e)
  then have "input = []" using assms(2) by (simp add: wire_def)
  then show ?thesis using assms(3) by (simp add: read_limit_def)
next
  case (Inr bs)
  then have p: "prefix (input @ rest') bs" using assms(2) by (simp add: wire_def)
  then have "prefix input bs" by (auto simp: prefix_def)
  from read_prefix[OF assms(1) Inr this assms(3)] show ?thesis using p by (auto simp: prefix_def)
qed

lemma put_frame_output:
  "put_frame X accepted n operation a = (a', r) \<Longrightarrow> \<exists>m. nd_output a' = nd_output a @ take m (wire X n operation)"
  by (cases "write_frame X n operation") (auto simp: put_frame_def wire_def intro: exI[of _ 0])

lemma session_reply_io:
  assumes "session_reply X accepted n operation a = (a', r)"
  shows "nd_input a' = nd_input a" "\<exists>m. nd_output a' = nd_output a @ take m (wire X n operation)"
proof -
  obtain a1 x where p: "put_frame X accepted n operation a = (a1, x)" by fastforce
  have "a' = a1" using assms by (cases x) (auto simp: session_reply_def p ensure_s_def split: if_splits)
  then show "nd_input a' = nd_input a" "\<exists>m. nd_output a' = nd_output a @ take m (wire X n operation)"
    using put_frame_fields(5)[OF p] put_frame_output[OF p] by simp_all
qed

lemma session_first_io:
  assumes "session_first X now accepted a = (a', r)"
  shows "\<exists>m. nd_output a' = nd_output a @ take m (wire X 0 OpHeartbeat)"
    and "r = Inr p \<Longrightarrow> \<exists>f. read_limit X IPC_LIMIT (nd_input a) = Inr (f, nd_input a')"
proof -
  obtain a1 x where t: "take_frame X a = (a1, x)" by fastforce
  obtain a2 y where p: "put_frame X accepted 0 OpHeartbeat a1 = (a2, y)" by fastforce
  note f = take_frame_fields[OF t] put_frame_fields[OF p]
  have z: "\<exists>m. nd_output a = nd_output a @ take m (wire X 0 OpHeartbeat)" by (intro exI[of _ 0]) simp
  show "\<exists>m. nd_output a' = nd_output a @ take m (wire X 0 OpHeartbeat)"
    using assms f put_frame_output[OF p] z by (cases x; cases y) (auto simp: session_first_def t p ensure_s_def renew_lease_def split: if_splits)
  assume "r = Inr p"
  then show "\<exists>f. read_limit X IPC_LIMIT (nd_input a) = Inr (f, nd_input a')" using assms f t
    by (cases x; cases y) (auto simp: session_first_def take_frame_def p ensure_s_def renew_lease_def split: if_splits sum.splits)
qed

text \<open>What a session does with the frame it reads.\<close>

lemma session_frame_io:
  assumes "session_frame X now accepted n a = (a', r)"
  obtains (silent) e where "r = Inl e" "nd_output a' = nd_output a"
  | (heartbeat) f m where "read_limit X IPC_LIMIT (nd_input a) = Inr (f, nd_input a')" "fr_operation f = OpHeartbeat"
      "nd_output a' = nd_output a @ take m (wire X n OpHeartbeat)" "r = Inr (Open (Suc n)) \<or> (\<exists>e. r = Inl e)"
  | (request) f subj payload where "read_limit X IPC_LIMIT (nd_input a) = Inr (f, nd_input a')" "fr_operation f = OpRequest subj payload"
      "r = Inr (Sending n subj payload)" "nd_output a' = nd_output a"
proof -
  show thesis
  proof (cases "read_limit X IPC_LIMIT (nd_input a)")
    case (Inl e)
    then show thesis using assms silent by (auto simp: session_frame_def take_frame_def)
  next
    case (Inr p)
    then obtain f rest where p: "read_limit X IPC_LIMIT (nd_input a) = Inr (f, rest)" by (cases p) auto
    let ?a = "renew_lease (ru_live (sv_runtime (nd_service a))) now (a\<lparr>nd_input := rest\<rparr>)"
    show thesis
    proof (cases "fr_sequence f = n \<and> fr_operation f = OpHeartbeat")
      case True
      then have s: "session_reply X accepted n OpHeartbeat ?a = (a', r)" using assms p by (simp add: session_frame_def take_frame_def Let_def)
      have "nd_input a' = rest" "\<exists>m. nd_output a' = nd_output a @ take m (wire X n OpHeartbeat)"
        using session_reply_io[OF s] by (simp_all add: renew_lease_def)
      moreover have "r = Inr (Open (Suc n)) \<or> (\<exists>e. r = Inl e)" using s by (rule session_reply_cases) blast+
      ultimately show thesis using True p heartbeat by blast
    next
      case False
      then show thesis using assms p silent request
        by (cases "fr_operation f") (auto simp: session_frame_def take_frame_def Let_def ensure_s_def renew_lease_def split: if_splits)
    qed
  qed
qed

section \<open>Every step keeps the two ends in step\<close>

lemma worker_send_io:
  obtains m where "wk_output (worker_send X accepted n operation after w) = wk_output w @ take m (wire X n operation)"
    "wk_phase (worker_send X accepted n operation after w) = after \<or> wk_phase (worker_send X accepted n operation after w) = Stopped"
    "wk_input (worker_send X accepted n operation after w) = wk_input w"
    "wk_published (worker_send X accepted n operation after w) = wk_published w"
proof (cases "write_frame X n operation")
  case (Inl e)
  then show thesis by (intro that[of 0]) (simp_all add: worker_send_def)
next
  case (Inr bs)
  then show thesis by (intro that[of accepted]) (simp_all add: worker_send_def wire_def)
qed

lemma prefix_take: "prefix (take m xs) xs"
  by (metis append_take_drop_id prefixI)

lemma idle_stage: "at_stage X st l \<Longrightarrow> wk_phase (ln_worker l) = Idle n \<Longrightarrow> st = Rest n"
  by (cases st) (auto simp: at_stage_def)

lemma send_keeps:
  assumes "at_stage X (Rest n) l" "wk_phase (ln_worker l) = Idle n"
    "operation = OpHeartbeat \<and> reply = None \<and> sent = [] \<or>
     (\<exists>subj payload to. operation = OpRequest subj payload \<and> reply = Some to \<and> sent = [(subj, payload, to)])"
  shows "at_stage X (Asked n operation reply)
    (l\<lparr>ln_worker := worker_send X accepted n operation (Expect n reply) (ln_worker l), ln_sent := ln_sent l @ sent\<rparr>)"
proof -
  obtain m where m: "wk_output (worker_send X accepted n operation (Expect n reply) (ln_worker l)) = wk_output (ln_worker l) @ take m (wire X n operation)"
    "wk_phase (worker_send X accepted n operation (Expect n reply) (ln_worker l)) = Expect n reply \<or>
     wk_phase (worker_send X accepted n operation (Expect n reply) (ln_worker l)) = Stopped"
    "wk_input (worker_send X accepted n operation (Expect n reply) (ln_worker l)) = wk_input (ln_worker l)"
    "wk_published (worker_send X accepted n operation (Expect n reply) (ln_worker l)) = wk_published (ln_worker l)"
    by (rule worker_send_io)
  obtain xs where "completed xs l [] []" using assms(1) by (auto simp: at_stage_def)
  then have "\<exists>xs. ledger (Asked n operation reply) xs
    (l\<lparr>ln_worker := worker_send X accepted n operation (Expect n reply) (ln_worker l), ln_sent := ln_sent l @ sent\<rparr>)"
    using assms(3) m(4) by (intro exI[of _ xs]) (auto simp: completed_def)
  then show ?thesis using assms(1,2) m by (auto simp: at_stage_def toward_node_def toward_worker_def prefix_take)
qed

lemma worker_tick_keeps:
  assumes "at_stage X st l"
  shows "\<exists>st. at_stage X st (link_step X E P N k b l (WorkerTick accepted))"
proof (cases "wk_phase (ln_worker l)")
  case (Idle n)
  have "at_stage X (Rest n) l" using idle_stage[OF assms Idle] assms by simp
  from send_keeps[OF this Idle, of OpHeartbeat None "[]" accepted] show ?thesis by (auto simp: worker_tick_def Idle)
qed (use assms in \<open>auto simp: worker_tick_def\<close>)

lemma worker_control_keeps:
  assumes "at_stage X st l"
  shows "\<exists>st. at_stage X st (link_step X E P N k b l (WorkerControl accepted subj payload reply))"
proof (cases "wk_phase (ln_worker l)")
  case (Idle n)
  have r: "at_stage X (Rest n) l" using idle_stage[OF assms Idle] assms by simp
  show ?thesis
  proof (cases "forwardable subj payload (Some reply)")
    case True
    then show ?thesis using send_keeps[OF r Idle, of "OpRequest subj payload" "Some reply" "[(subj, payload, reply)]" accepted]
      by (auto simp: worker_control_def Idle)
  qed (use r Idle in \<open>auto simp: worker_control_def\<close>)
qed (use assms in \<open>auto simp: worker_control_def\<close>)

lemma worker_stopped:
  assumes "at_stage X st l" "wk_published w = wk_published (ln_worker l)" "wk_phase w = Stopped" "wk_output w = wk_output (ln_worker l)"
  shows "at_stage X st (l\<lparr>ln_worker := w\<rparr>)"
proof -
  have "ledger st xs (l\<lparr>ln_worker := w\<rparr>) = ledger st xs l" for xs
    using assms(2) by (cases st) (auto simp: completed_def)
  then show ?thesis using assms by (auto simp: at_stage_def toward_node_def)
qed

lemma worker_reads_keeps:
  assumes "frames_roundtrip X" "at_stage X st l"
  shows "\<exists>st. at_stage X st (link_step X E P N k b l (WorkerReads delivered))"
proof -
  let ?w = "ln_worker l"
  have stop: "at_stage X st (l\<lparr>ln_worker := ?w\<lparr>wk_input := rest, wk_phase := Stopped\<rparr>\<rparr>)"
    "at_stage X st (l\<lparr>ln_worker := ?w\<lparr>wk_phase := Stopped\<rparr>\<rparr>)" for rest
    using worker_stopped[OF assms(2)] by simp_all
  show ?thesis
  proof (cases "wk_phase ?w = Hello \<or> (\<exists>n reply. wk_phase ?w = Expect n reply)")
    case False
    then show ?thesis using assms(2) by (cases "wk_phase ?w") (auto simp: worker_read_def)
  next
    case True
    show ?thesis
    proof (cases "read_limit X IPC_LIMIT (wk_input ?w)")
      case (Inl e)
      then show ?thesis using True stop(2) by (auto simp: worker_read_def)
    next
      case (Inr p)
      obtain f rest where f: "read_limit X IPC_LIMIT (wk_input ?w) = Inr (f, rest)" using Inr by (cases p) auto
      have n: "toward_worker l \<noteq> []" using f by (auto simp: toward_worker_def read_limit_def)
      have w: "worker_at X st (wk_phase ?w) (nd_phase (ln_node l)) (toward_worker l)" using assms(2) True by (auto simp: at_stage_def)
      show ?thesis
      proof (cases st)
        case Greeted
        then have "prefix (wk_input ?w @ nd_output (ln_node l)) (wire X 0 OpHeartbeat)" and h: "wk_phase ?w = Hello"
          using w by (simp_all add: toward_worker_def)
        note g = read_wire[OF assms(1) this(1) f]
        have "at_stage X (Rest 1) (l\<lparr>ln_worker := ?w\<lparr>wk_input := rest, wk_phase := Idle 1\<rparr>\<rparr>)"
          using assms(2) Greeted g by (auto simp: at_stage_def toward_node_def toward_worker_def completed_def)
        then show ?thesis using h f g by (auto simp: worker_read_def Let_def worker_greeted_def make_frame_def)
      next
        case (Answered n operation reply response)
        then have "prefix (wk_input ?w @ nd_output (ln_node l)) (wire X n response)" and h: "wk_phase ?w = Expect n reply"
          "\<nexists>bs. nd_phase (ln_node l) = Answering n bs" using w n by (auto simp: toward_worker_def)
        note g = read_wire[OF assms(1) this(1) f]
        obtain xs where x: "ledger st xs l" using assms(2) by (auto simp: at_stage_def)
        have nx: "at_stage X (Rest (Suc n)) (l\<lparr>ln_worker := worker_next n v\<rparr>)"
          if "completed ys (l\<lparr>ln_worker := v\<rparr>) [] []" "wk_input v = []" "wk_output v = wk_output ?w" for v ys
          using that assms(2) Answered h(2) g by (auto simp: at_stage_def toward_node_def toward_worker_def completed_def worker_next_def)
        show ?thesis
        proof (cases reply)
          case None
          then have "completed xs l [] []" "response = OpHeartbeat" using x Answered by auto
          then show ?thesis using nx[of xs "?w\<lparr>wk_input := []\<rparr>"] h f g None
            by (auto simp: worker_read_def Let_def worker_response_def make_frame_def completed_def)
        next
          case (Some to)
          then obtain subj payload bs where c: "response = OpResponse bs" "completed xs l [(subj, payload, to)] [(subj, payload, bs)]"
            using x Answered by auto
          show ?thesis
          proof (cases "length bs \<le> MAX_WIRE \<and> delivered")
            case True
            have "completed (xs @ [(subj, payload, to, bs)]) (l\<lparr>ln_worker := ?w\<lparr>wk_input := [], wk_published := wk_published ?w @ [(to, bs)]\<rparr>\<rparr>) [] []"
              using c(2) by (simp add: completed_def asked_def given_def told_def)
            from nx[OF this] show ?thesis using True h f g Some c(1) by (auto simp: worker_read_def Let_def worker_response_def make_frame_def)
          next
            case False
            then show ?thesis using stop(1) h f g Some c(1) by (auto simp: worker_read_def Let_def worker_response_def make_frame_def)
          qed
        qed
      qed (use w n in auto)
    qed
  qed
qed

lemma ledger_node [simp]: "ledger st xs (l\<lparr>ln_node := a\<rparr>) = ledger st xs l"
  by (cases st) (simp_all add: completed_def)

lemma session_gone:
  assumes "at_stage X st l" "nd_phase a = NoSession" "nd_output a = nd_output (ln_node l)"
  shows "at_stage X st (l\<lparr>ln_node := a\<rparr>)"
  using assms by (cases st) (auto simp: at_stage_def toward_worker_def)

lemma session_unmoved:
  assumes "at_stage X st l" "nd_phase a = nd_phase (ln_node l)" "nd_output a = nd_output (ln_node l)" "nd_input a = nd_input (ln_node l)"
    "(\<exists>n. nd_phase a = Waiting n) \<longrightarrow> nd_queue a = nd_queue (ln_node l)"
  shows "at_stage X st (l\<lparr>ln_node := a\<rparr>)"
  using assms by (cases st) (auto simp: at_stage_def toward_worker_def toward_node_def)

lemma settle_fields [simp]:
  "nd_output (session_settle (a, r)) = nd_output a" "nd_input (session_settle (a, r)) = nd_input a"
  "nd_phase (session_settle (a, Inr p)) = p" "nd_phase (session_settle (a, Inl e)) = NoSession"
  "nd_queue (session_settle (a, Inr p)) = nd_queue a"
  by (cases r; simp add: session_settle_def end_session_def)+

lemma greeting_keeps:
  assumes "frames_roundtrip X" "at_stage X st l" "nd_phase (ln_node l) = Greeting"
  shows "\<exists>st. at_stage X st (l\<lparr>ln_node := read_session X now accepted (ln_node l)\<rparr>)"
proof -
  let ?a = "ln_node l"
  obtain a' r where s: "session_first X now accepted ?a = (a', r)" by fastforce
  have st: "st = Greet" "prefix (nd_input ?a @ wk_output (ln_worker l)) (wire X 0 OpReady)"
    using assms(2,3) by (cases st; auto simp: at_stage_def toward_node_def)+
  obtain m where m: "nd_output a' = nd_output ?a @ take m (wire X 0 OpHeartbeat)" using session_first_io(1)[OF s] by blast
  have w: "wk_phase (ln_worker l) = Stopped \<or> wk_phase (ln_worker l) = Hello \<and> toward_worker l = []"
    and x: "\<exists>xs. completed xs l [] []" using assms(2) st(1) by (auto simp: at_stage_def)
  have "at_stage X Greeted (l\<lparr>ln_node := session_settle (a', r)\<rparr>)"
  proof (cases r)
    case (Inl e)
    then show ?thesis using w x m by (auto simp: at_stage_def toward_worker_def prefix_take completed_def)
  next
    case (Inr p)
    then have o: "p = Open 1" using s by (auto elim: session_first_cases)
    obtain f where "read_limit X IPC_LIMIT (nd_input ?a) = Inr (f, nd_input a')" using session_first_io(2)[OF s Inr] by blast
    then have "nd_input a' = []" "wk_output (ln_worker l) = []" using read_wire[OF assms(1) st(2)] by auto
    then show ?thesis using w x m Inr o by (auto simp: at_stage_def toward_worker_def toward_node_def prefix_take completed_def)
  qed
  then show ?thesis by (auto simp: read_session_def assms(3) s)
qed

lemma open_keeps:
  assumes "frames_roundtrip X" "at_stage X st l" "nd_phase (ln_node l) = Open n"
  shows "\<exists>st. at_stage X st (l\<lparr>ln_node := read_session X now accepted (ln_node l)\<rparr>)"
proof -
  let ?a = "ln_node l"
  obtain a' r where s: "session_frame X now accepted n ?a = (a', r)" by fastforce
  have e: "read_session X now accepted ?a = session_settle (a', r)" by (simp add: read_session_def assms(3) s)
  have sa: "session_at X st (Open n) (nd_queue ?a) (toward_node l)" using assms(2,3) by (auto simp: at_stage_def)
  from s show ?thesis
  proof (cases rule: session_frame_io)
    case (silent err)
    then show ?thesis using session_gone[OF assms(2), of "session_settle (a', r)"] e by auto
  next
    case (heartbeat f m)
    have "toward_node l \<noteq> []" using heartbeat(1) by (auto simp: toward_node_def read_limit_def)
    then obtain operation reply where st: "st = Asked n operation reply"
      and "prefix (nd_input ?a @ wk_output (ln_worker l)) (wire X n operation)" using sa by (cases st) (auto simp: toward_node_def)
    note g = read_wire[OF assms(1) this(2) heartbeat(1)]
    have op: "operation = OpHeartbeat" using g heartbeat(2) by (simp add: make_frame_def)
    have w: "wk_phase (ln_worker l) = Stopped \<or> wk_phase (ln_worker l) = Expect n reply \<and> toward_worker l = []"
      and x: "reply = None" "\<exists>xs. completed xs l [] []" using assms(2) st op by (auto simp: at_stage_def)
    have "at_stage X (Answered n OpHeartbeat None OpHeartbeat) (l\<lparr>ln_node := session_settle (a', r)\<rparr>)"
      using heartbeat(4) w x heartbeat(3) g by (auto simp: at_stage_def toward_worker_def toward_node_def prefix_take completed_def)
    then show ?thesis using e by auto
  next
    case (request f subj payload)
    have "toward_node l \<noteq> []" using request(1) by (auto simp: toward_node_def read_limit_def)
    then obtain operation reply where st: "st = Asked n operation reply"
      and "prefix (nd_input ?a @ wk_output (ln_worker l)) (wire X n operation)" using sa by (cases st) (auto simp: toward_node_def)
    note g = read_wire[OF assms(1) this(2) request(1)]
    have op: "operation = OpRequest subj payload" using g request(2) by (simp add: make_frame_def)
    have "at_stage X st (l\<lparr>ln_node := session_settle (a', r)\<rparr>)"
      using assms(2) st op request(3,4) g by (auto simp: at_stage_def toward_worker_def toward_node_def completed_def)
    then show ?thesis using e by auto
  qed
qed

lemma reply_keeps:
  assumes "at_stage X st l"
  shows "\<exists>st. at_stage X st (l\<lparr>ln_node := reply_session X accepted (ln_node l)\<rparr>)"
proof (cases "nd_phase (ln_node l)")
  case (Answering n bs)
  let ?a = "ln_node l"
  obtain a' r where s: "session_reply X accepted n (OpResponse bs) ?a = (a', r)" by fastforce
  obtain m where m: "nd_output a' = nd_output ?a @ take m (wire X n (OpResponse bs))" using session_reply_io(2)[OF s] by blast
  have r: "r = Inr (Open (Suc n)) \<or> (\<exists>e. r = Inl e)" using s by (rule session_reply_cases) blast+
  have "at_stage X st (l\<lparr>ln_node := session_settle (a', r)\<rparr>)"
    using assms Answering r m session_reply_io(1)[OF s]
    by (cases st) (auto simp: at_stage_def toward_worker_def toward_node_def prefix_take)
  then show ?thesis by (auto simp: reply_session_def Answering s)
qed (use assms in \<open>auto simp: reply_session_def\<close>)

lemma enqueue_keeps:
  assumes "at_stage X st l"
  shows "at_stage X st (l\<lparr>ln_node := enqueue_request (ln_node l)\<rparr>)"
proof (cases "\<exists>n subj payload. nd_phase (ln_node l) = Sending n subj payload \<and> nd_queue (ln_node l) = None")
  case True
  then show ?thesis using assms
    by (cases st) (auto simp: at_stage_def toward_worker_def toward_node_def enqueue_request_def completed_def)
next
  case False
  then have "enqueue_request (ln_node l) = ln_node l"
    by (auto simp: enqueue_request_def split: session_phase.split option.split)
  then show ?thesis using assms by (simp add: session_unmoved)
qed

lemma serve_keeps:
  assumes "at_stage X st l" "node_ok (ln_node l)"
  shows "\<exists>st. at_stage X st (l\<lparr>ln_node := serve_request E P N k env (ln_node l), ln_served := ln_served l @ served_response E P N k env (ln_node l)\<rparr>)"
proof (cases "\<exists>subj payload. nd_queue (ln_node l) = Some (subj, payload, True)")
  case True
  let ?a = "ln_node l"
  obtain subj payload where q: "nd_queue ?a = Some (subj, payload, True)" using True by blast
  then obtain n where n: "nd_phase ?a = Waiting n" using assms(2) unfolding node_ok_def by blast
  obtain reply where st: "st = Asked n (OpRequest subj payload) reply" using assms(1) n q by (cases st) (auto simp: at_stage_def)
  obtain v r where c: "control_request E P N k env subj payload (nd_service ?a) = (v, r)" by fastforce
  show ?thesis
  proof (cases r)
    case (Inl e)
    then have "at_stage X st (l\<lparr>ln_node := serve_request E P N k env ?a\<rparr>)"
      by (intro session_gone[OF assms(1)]) (simp_all add: serve_request_def q c Let_def)
    then show ?thesis using Inl by (auto simp: served_response_def q c)
  next
    case (Inr bs)
    have "at_stage X (Answered n (OpRequest subj payload) reply (OpResponse bs))
      (l\<lparr>ln_node := serve_request E P N k env ?a, ln_served := ln_served l @ served_response E P N k env ?a\<rparr>)"
      using assms(1) st n Inr
      by (auto simp: at_stage_def toward_worker_def toward_node_def serve_request_def served_response_def q c Let_def completed_def)
    then show ?thesis by blast
  qed
next
  case False
  let ?a = "ln_node l"
  have e: "served_response E P N k env ?a = []" using False
    by (auto simp: served_response_def split: option.split prod.split bool.split)
  have "\<nexists>n. nd_phase ?a = Waiting n" using assms(2) False unfolding node_ok_def by blast
  then have "at_stage X st (l\<lparr>ln_node := serve_request E P N k env ?a\<rparr>)"
    using False by (intro session_unmoved[OF assms(1)]) (auto simp: serve_request_def Let_def split: option.split)
  then show ?thesis by (auto simp: e)
qed

lemma node_ok_streams [simp]: "node_ok (a\<lparr>nd_input := i\<rparr>) = node_ok a" "node_ok (a\<lparr>nd_output := i\<rparr>) = node_ok a"
  by (simp_all add: node_ok_def)

lemma link_step_inv:
  assumes "frames_roundtrip X" "link_inv X l"
  shows "link_inv X (link_step X E P N k b l e)"
proof -
  obtain st where st: "at_stage X st l" and ok: "node_ok (ln_node l)" using assms(2) by (auto simp: link_inv_def)
  have "node_ok (ln_node (link_step X E P N k b l e))"
    using ok by (cases e) (simp_all add: node_step_ok)
  moreover have "\<exists>st. at_stage X st (link_step X E P N k b l e)"
  proof (cases e)
    case (WorkerTick accepted)
    then show ?thesis using worker_tick_keeps[OF st] by simp
  next
    case (WorkerControl accepted subj payload reply)
    then show ?thesis using worker_control_keeps[OF st] by simp
  next
    case (WorkerIgnores accepted subj payload)
    then have "link_step X E P N k b l e = l" by (auto simp: worker_control_def forwardable_def inbox_reply_def split: worker_phase.split)
    then show ?thesis using st by auto
  next
    case (WorkerReads delivered)
    then show ?thesis using worker_reads_keeps[OF assms(1) st] by simp
  next
    case WorkerStops
    then show ?thesis using worker_stopped[OF st, of "(ln_worker l)\<lparr>wk_phase := Stopped\<rparr>"] by auto
  next
    case (Carry n)
    then have "at_stage X st (link_step X E P N k b l e)" using st
      by (cases st) (auto simp: at_stage_def toward_node_def toward_worker_def completed_def)
    then show ?thesis by blast
  next
    case (Return n)
    then have "at_stage X st (link_step X E P N k b l e)" using st
      by (cases st) (auto simp: at_stage_def toward_node_def toward_worker_def completed_def)
    then show ?thesis by blast
  next
    case (Node x)
    show ?thesis
    proof (cases "on_connection x \<and> nd_running (ln_node l)")
      case True
      then show ?thesis
      proof (cases x)
        case (ReadFrame now accepted)
        have "\<exists>st. at_stage X st (l\<lparr>ln_node := read_session X now accepted (ln_node l)\<rparr>)"
        proof (cases "nd_phase (ln_node l)")
          case Greeting
          then show ?thesis by (rule greeting_keeps[OF assms(1) st])
        next
          case (Open n)
          then show ?thesis by (rule open_keeps[OF assms(1) st])
        qed (use st in \<open>auto simp: read_session_def intro: session_unmoved\<close>)
        then show ?thesis using True Node ReadFrame by (simp add: node_step_def)
      next
        case Enqueue
        then show ?thesis using True Node enqueue_keeps[OF st] by (auto simp: node_step_def)
      next
        case (Serve env)
        then show ?thesis using True Node serve_keeps[OF st ok] by (simp add: node_step_def)
      next
        case (Reply accepted)
        then show ?thesis using True Node reply_keeps[OF st] by (simp add: node_step_def)
      next
        case Expire
        have "at_stage X st (l\<lparr>ln_node := if nd_phase (ln_node l) = NoSession then ln_node l else end_session (ln_node l)\<rparr>)"
          by (cases "nd_phase (ln_node l) = NoSession")
            (use st in \<open>auto intro!: session_unmoved session_gone simp: end_session_def\<close>)
        then show ?thesis using True Node Expire by (auto simp: node_step_def)
      next
        case (Beside i)
        have "at_stage X st (l\<lparr>ln_node := node_step X E P N k b (ln_node l) x\<rparr>)"
          using True Beside by (intro session_unmoved[OF st]) (simp_all add: node_step_def)
        then show ?thesis using True Node Beside by auto
      qed (auto simp: on_connection_def)
    qed (use st Node in auto)
  qed
  ultimately show ?thesis by (simp add: link_inv_def)
qed

interpretation link_run: invariant_machine "link_step X E P N k b" "link_inv X" "\<lambda>_. frames_roundtrip X"
  for X E P N k b
  by unfold_locales (rule link_step_inv)

lemma link_start_inv:
  assumes "node_ok a" "nd_phase a = NoSession"
  shows "link_inv X (link_start X b accepted a)"
proof -
  let ?w = "worker_connect X b (bn_authority_uid b) accepted"
  have "wk_phase ?w = Hello \<or> wk_phase ?w = Stopped" "prefix (wk_output ?w) (wire X 0 OpReady)" "wk_input ?w = []" "wk_published ?w = []"
    by (auto simp: worker_connect_def worker_send_def wire_def Let_def prefix_take split: sum.split)
  then have "at_stage X Greet (link_start X b accepted a)"
    using assms(2) by (auto simp: at_stage_def link_start_def accept_worker_def toward_node_def toward_worker_def completed_def)
  moreover have "node_ok (accept_worker b (bn_worker_uid b) a)" using assms by (auto simp: accept_worker_def node_ok_def)
  ultimately show ?thesis by (auto simp: link_inv_def link_start_def)
qed

text \<open>At most one request is outstanding, and every publication belongs to a completed exchange.\<close>

lemma link_inv_ledger:
  assumes "link_inv X l"
  shows "\<exists>xs sent served. completed xs l sent served \<and> length sent \<le> 1 \<and>
    (served = [] \<or> (\<exists>subj payload to response. sent = [(subj, payload, to)] \<and> served = [(subj, payload, response)]))"
proof -
  obtain st xs where x: "ledger st xs l" using assms by (auto simp: link_inv_def at_stage_def)
  then show ?thesis by (cases st) (fastforce intro!: exI[of _ xs])+
qed

section \<open>A forwarded request is answered\<close>

text \<open>
  The size of a JSON document: a byte of a payload takes at most three digits and a comma, and everything
  else of a frame with an admissible subject fits in 256 bytes.
\<close>

definition json_sizes :: "ipc_ext \<Rightarrow> bool" where
  "json_sizes X \<longleftrightarrow> (\<forall>n subj payload. n \<le> U64_MAX \<and> allowed subj \<and> length payload \<le> MAX_WIRE \<longrightarrow>
     (\<exists>bs. ix_json X (make_frame n (OpRequest subj payload)) = Some bs \<and> length bs \<le> 256 + 4 * length payload) \<and>
     (\<exists>bs. ix_json X (make_frame n (OpResponse payload)) = Some bs \<and> length bs \<le> 256 + 4 * length payload))"

lemma frames_fit:
  assumes "json_sizes X" "n \<le> U64_MAX" "allowed subj" "length payload \<le> MAX_WIRE"
  shows "\<exists>bs. write_frame X n (OpRequest subj payload) = Inr bs \<and> length bs \<le> 4 + IPC_LIMIT"
    and "\<exists>bs. write_frame X n (OpResponse payload) = Inr bs \<and> length bs \<le> 4 + IPC_LIMIT"
proof -
  have l: "256 + 4 * length payload \<le> IPC_LIMIT" using assms(4) by (simp add: IPC_LIMIT_def MAX_WIRE_def)
  have w: "write_frame X n operation = Inr (u32_bytes (length bs) @ bs) \<and> length (u32_bytes (length bs) @ bs) \<le> 4 + IPC_LIMIT"
    if "ix_json X (make_frame n operation) = Some bs" "length bs \<le> 256 + 4 * length payload" for operation bs
    using that l by (simp add: write_frame_def)
  show "\<exists>bs. write_frame X n (OpRequest subj payload) = Inr bs \<and> length bs \<le> 4 + IPC_LIMIT"
    "\<exists>bs. write_frame X n (OpResponse payload) = Inr bs \<and> length bs \<le> 4 + IPC_LIMIT"
    using assms w unfolding json_sizes_def by blast+
qed

text \<open>Both ends idle before the exchange with number \<open>n\<close>.\<close>

definition both_idle :: "nat \<Rightarrow> 's link \<Rightarrow> bool" where
  "both_idle n l \<longleftrightarrow> wk_phase (ln_worker l) = Idle n \<and> wk_input (ln_worker l) = [] \<and> wk_output (ln_worker l) = [] \<and>
     nd_phase (ln_node l) = Open n \<and> nd_queue (ln_node l) = None \<and> nd_input (ln_node l) = [] \<and> nd_output (ln_node l) = [] \<and>
     nd_running (ln_node l)"

text \<open>The schedule in which every step comes in time; \<open>4 + IPC_LIMIT\<close> bytes are room for any frame.\<close>

definition prompt :: "nat \<Rightarrow> request_env \<Rightarrow> string \<Rightarrow> bytes \<Rightarrow> string \<Rightarrow> link_event list" where
  "prompt now env subj payload reply =
     [WorkerControl (4 + IPC_LIMIT) subj payload reply, Carry (4 + IPC_LIMIT), Node (ReadFrame now (4 + IPC_LIMIT)), Node Enqueue,
      Node (Serve env), Node (Reply (4 + IPC_LIMIT)), Return (4 + IPC_LIMIT), WorkerReads True]"

lemma prompt_exchange:
  assumes "frames_roundtrip X" "json_sizes X" "both_idle n l" "n < U64_MAX" "forwardable subj payload (Some reply)"
    "control_request E P N k env subj payload (set_lease (ru_live (sv_runtime (nd_service (ln_node l)))) now (nd_service (ln_node l))) = (v, Inr bs)"
    "length bs \<le> MAX_WIRE" "foldl (link_step X E P N k b) l (prompt now env subj payload reply) = l'"
  shows "both_idle (Suc n) l' \<and> nd_service (ln_node l') = v \<and> wk_published (ln_worker l') = wk_published (ln_worker l) @ [(reply, bs)]"
proof -
  have f: "allowed subj" "length payload \<le> MAX_WIRE" using assms(5) by (simp_all add: forwardable_def)
  obtain q where q: "write_frame X n (OpRequest subj payload) = Inr q" "length q \<le> 4 + IPC_LIMIT"
    using frames_fit(1)[OF assms(2) _ f, of n] assms(4) by auto
  obtain r where r: "write_frame X n (OpResponse bs) = Inr r" "length r \<le> 4 + IPC_LIMIT"
    using frames_fit(2)[OF assms(2) _ f(1) assms(7), of n] assms(4) by auto
  note rq = read_written[OF assms(1) q(1), of "[]", simplified] and rr = read_written[OF assms(1) r(1), of "[]", simplified]
  note i = assms(3)[unfolded both_idle_def]
  define step where "step = link_step X E P N k b"
  define l1 where "l1 = l\<lparr>ln_worker := (ln_worker l)\<lparr>wk_output := q, wk_phase := Expect n (Some reply)\<rparr>, ln_sent := ln_sent l @ [(subj, payload, reply)]\<rparr>"
  have l1: "step l (WorkerControl (4 + IPC_LIMIT) subj payload reply) = l1"
    using i assms(5) q by (simp add: step_def l1_def worker_control_def worker_send_def)
  define l2 where "l2 = l1\<lparr>ln_worker := (ln_worker l1)\<lparr>wk_output := []\<rparr>, ln_node := (ln_node l1)\<lparr>nd_input := q\<rparr>\<rparr>"
  have l2: "step l1 (Carry (4 + IPC_LIMIT)) = l2" using i q(2) by (simp add: step_def l1_def l2_def)
  define l3 where "l3 = l2\<lparr>ln_node := (ln_node l2)\<lparr>nd_input := [], nd_phase := Sending n subj payload,
      nd_service := set_lease (ru_live (sv_runtime (nd_service (ln_node l)))) now (nd_service (ln_node l))\<rparr>\<rparr>"
  have l3: "step l2 (Node (ReadFrame now (4 + IPC_LIMIT))) = l3"
    using i rq f by (simp add: step_def l1_def l2_def l3_def on_connection_def node_step_def read_session_def session_frame_def take_frame_def
      make_frame_def Let_def renew_lease_def session_settle_def)
  define l4 where "l4 = l3\<lparr>ln_node := (ln_node l3)\<lparr>nd_phase := Waiting n, nd_queue := Some (subj, payload, True)\<rparr>\<rparr>"
  have l4: "step l3 (Node Enqueue) = l4"
    using i by (simp add: step_def l1_def l2_def l3_def l4_def on_connection_def node_step_def enqueue_request_def)
  define l5 where "l5 = l4\<lparr>ln_node := (ln_node l4)\<lparr>nd_phase := Answering n bs, nd_queue := None, nd_service := v\<rparr>,
      ln_served := ln_served l4 @ [(subj, payload, bs)]\<rparr>"
  have l5: "step l4 (Node (Serve env)) = l5"
    using i assms(6) by (simp add: step_def l1_def l2_def l3_def l4_def l5_def on_connection_def node_step_def serve_request_def
      served_response_def Let_def)
  define l6 where "l6 = l5\<lparr>ln_node := (ln_node l5)\<lparr>nd_phase := Open (Suc n), nd_output := r\<rparr>\<rparr>"
  have l6: "step l5 (Node (Reply (4 + IPC_LIMIT))) = l6"
    using i r assms(4) by (simp add: step_def l1_def l2_def l3_def l4_def l5_def l6_def on_connection_def node_step_def reply_session_def
      session_reply_def put_frame_def session_settle_def)
  define l7 where "l7 = l6\<lparr>ln_worker := (ln_worker l6)\<lparr>wk_input := r\<rparr>, ln_node := (ln_node l6)\<lparr>nd_output := []\<rparr>\<rparr>"
  have l7: "step l6 (Return (4 + IPC_LIMIT)) = l7"
    using i r(2) by (simp add: step_def l1_def l2_def l3_def l4_def l5_def l6_def l7_def)
  have "ln_worker (step l7 (WorkerReads True)) = (ln_worker l)\<lparr>wk_published := wk_published (ln_worker l) @ [(reply, bs)], wk_phase := Idle (Suc n)\<rparr> \<and>
      ln_node (step l7 (WorkerReads True)) = ln_node l7"
    using i rr assms(4,7) by (simp add: step_def l1_def l2_def l3_def l4_def l5_def l6_def l7_def worker_read_def Let_def worker_response_def
      make_frame_def worker_next_def)
  moreover have "l' = step l7 (WorkerReads True)"
    using assms(8) by (simp add: prompt_def flip: step_def) (simp add: l1 l2 l3 l4 l5 l6 l7)
  ultimately show ?thesis using i by (simp add: both_idle_def l1_def l2_def l3_def l4_def l5_def l6_def l7_def)
qed

text \<open>The reference: the service answers each message by a call, and nothing is in between.\<close>

record message =
  ms_now :: nat
  ms_env :: request_env
  ms_subject :: string
  ms_payload :: bytes
  ms_reply :: string

fun answer_directly ::
    "'z authority_ext_scheme \<Rightarrow> rpager \<Rightarrow> 's nats \<Rightarrow> keypair \<Rightarrow> 's service \<Rightarrow> message list \<Rightarrow> 's service \<times> (string \<times> bytes) list" where
  "answer_directly E P N k v [] = (v, [])"
| "answer_directly E P N k v (m # ms) =
     (case control_request E P N k (ms_env m) (ms_subject m) (ms_payload m) (set_lease (ru_live (sv_runtime v)) (ms_now m) v) of
        (v, Inl _) \<Rightarrow> (v, [])
      | (v, Inr bs) \<Rightarrow> (case answer_directly E P N k v ms of (v, out) \<Rightarrow> (v, (ms_reply m, bs) # out)))"

definition forward_promptly :: "message \<Rightarrow> link_event list" where
  "forward_promptly m = prompt (ms_now m) (ms_env m) (ms_subject m) (ms_payload m) (ms_reply m)"

lemma control_request_answers:
  assumes "is_ok (encode E Rejected)"
  obtains v' bs where "control_request E P N k env subj payload v = (v', Inr bs)" "length bs \<le> MAX_WIRE"
proof -
  obtain v' r where c: "control_request E P N k env subj payload v = (v', r)" by fastforce
  then obtain reply where r: "r = encode_reply E reply" by (auto simp: control_request_def split: prod.splits)
  obtain bs where "r = Inr bs" "\<exists>body. encode E body = Inr bs"
    using assms r by (cases "encode E reply") (auto simp: encode_reply_def is_ok_iff)
  then show thesis using that c by (auto simp: encode_def result_simps)
qed

lemma prompt_exchanges:
  assumes "frames_roundtrip X" "json_sizes X" "is_ok (encode E Rejected)" "both_idle n l" "n + length ms \<le> U64_MAX"
    "list_all (\<lambda>m. forwardable (ms_subject m) (ms_payload m) (Some (ms_reply m))) ms"
    "answer_directly E P N k (nd_service (ln_node l)) ms = (v, out)"
    "foldl (link_step X E P N k b) l (concat (map forward_promptly ms)) = l'"
  shows "both_idle (n + length ms) l' \<and> nd_service (ln_node l') = v \<and> wk_published (ln_worker l') = wk_published (ln_worker l) @ out \<and>
    map fst out = map ms_reply ms"
  using assms(4-)
proof (induction ms arbitrary: n l out)
  case (Cons m ms)
  let ?v = "nd_service (ln_node l)"
  obtain v1 bs where c: "control_request E P N k (ms_env m) (ms_subject m) (ms_payload m) (set_lease (ru_live (sv_runtime ?v)) (ms_now m) ?v) = (v1, Inr bs)"
    "length bs \<le> MAX_WIRE" by (rule control_request_answers[OF assms(3)])
  define l1 where "l1 = foldl (link_step X E P N k b) l (forward_promptly m)"
  have h: "both_idle (Suc n) l1 \<and> nd_service (ln_node l1) = v1 \<and> wk_published (ln_worker l1) = wk_published (ln_worker l) @ [(ms_reply m, bs)]"
    using Cons.prems(1-3) by (intro prompt_exchange[OF assms(1,2) Cons.prems(1) _ _ c]) (simp_all add: l1_def forward_promptly_def)
  obtain rest where o: "answer_directly E P N k v1 ms = (v, rest)" "out = (ms_reply m, bs) # rest"
    using Cons.prems(4) c(1) by (auto split: prod.splits)
  have "both_idle (Suc n + length ms) l' \<and> nd_service (ln_node l') = v \<and> wk_published (ln_worker l') = wk_published (ln_worker l1) @ rest \<and>
      map fst rest = map ms_reply ms"
    by (rule Cons.IH) (use h o Cons.prems in \<open>simp_all add: l1_def\<close>)
  then show ?case using h o(2) by simp
qed simp

end
