(* ===== verification/Service_Properties.thy ===== *)
theory Service_Properties
  imports Admission Directory_Properties
begin

text \<open>
  The properties of the running service, and a broker kept in memory that meets the contract: two
  buckets and a table of consumers, without other clients.
\<close>

section \<open>A broker in memory\<close>

record mem_world =
  mw_log :: mem
  mw_directory :: mem
  mw_consumers :: "((string \<times> string) \<times> consumer_config) list"

definition part_kv :: "('w \<Rightarrow> mem) \<Rightarrow> (mem \<Rightarrow> 'w \<Rightarrow> 'w) \<Rightarrow> 'w kv" where
  "part_kv get put = \<lparr>
     kv_entry = (\<lambda>key w. (w, snd (kv_entry mem_kv key (get w)))),
     kv_get = (\<lambda>key w. (w, snd (kv_get mem_kv key (get w)))),
     kv_update = (\<lambda>key b rv w. case kv_update mem_kv key b rv (get w) of (m, stored) \<Rightarrow> (put m w, stored)),
     kv_create = (\<lambda>key b w. case kv_create mem_kv key b (get w) of (m, stored) \<Rightarrow> (put m w, stored))\<rparr>"

definition mem_js :: "mem_world js" where
  "mem_js = \<lparr>
     js_get_stream = (\<lambda>st w. (w, Inr ())),
     js_consumer_info = (\<lambda>st n w. (w, Inr (map_of (mw_consumers w) (st, n)))),
     js_delete_consumer = (\<lambda>st n w. (w\<lparr>mw_consumers := filter (\<lambda>c. fst c \<noteq> (st, n)) (mw_consumers w)\<rparr>,
        Inr ((st, n) \<in> fst ` set (mw_consumers w)))),
     js_create_consumer = (\<lambda>st n c w. (w\<lparr>mw_consumers := ((st, n), c) # mw_consumers w\<rparr>, Inr ())),
     js_get_or_create_consumer = (\<lambda>st n c w. case map_of (mw_consumers w) (st, n) of
        Some c' \<Rightarrow> (w, Inr c') | None \<Rightarrow> (w\<lparr>mw_consumers := ((st, n), c) # mw_consumers w\<rparr>, Inr c)),
     js_publish = (\<lambda>subj tag bs w. (w, Inr ())),
     js_last_sequence = (\<lambda>st w. (w, Inr 9))\<rparr>"

definition mem_nats :: "mem_world nats" where
  "mem_nats = \<lparr>nt_log = part_kv mw_log (\<lambda>m w. w\<lparr>mw_log := m\<rparr>), nt_directory = part_kv mw_directory (\<lambda>m w. w\<lparr>mw_directory := m\<rparr>),
     nt_js = mem_js\<rparr>"

definition mem_log :: "mem_world log_view" where
  "mem_log w = mem_view (mw_log w)"

definition mem_consumers :: "mem_world consumer_view" where
  "mem_consumers w = map_of (mw_consumers w)"

lemma map_of_filter_key: "map_of (filter (\<lambda>c. fst c \<noteq> k) cs) j = (if j = k then None else map_of cs j)"
  by (induction cs) auto

lemma mem_view_upd: "mem_view ((key, b, n) # m) = (mem_view m)(key \<mapsto> b)"
  by (auto simp: mem_view_def)

interpretation mem_broker: sole_broker mem_nats mem_log mem_consumers
proof unfold_locales
  show "kv_sole (nt_log mem_nats) mem_log"
    by (auto simp: kv_sole_def mem_nats_def part_kv_def mem_kv_def mem_log_def mem_view_upd mem_view_def split: option.splits if_splits prod.splits)
  show "kv_frame (nt_log mem_nats) mem_consumers" "kv_frame (nt_directory mem_nats) mem_log" "kv_frame (nt_directory mem_nats) mem_consumers"
    by (simp_all add: kv_frame_def mem_nats_def part_kv_def mem_log_def mem_consumers_def split: prod.split)
  show "js_sole (nt_js mem_nats) mem_consumers"
    by (auto simp: js_sole_def mem_nats_def mem_js_def mem_consumers_def only_at_def same_delivery_def map_of_filter_key split: option.splits)
  show "js_frame (nt_js mem_nats) mem_log"
    by (simp add: js_frame_def mem_nats_def mem_js_def mem_log_def split: option.split)
qed

interpretation mem_service: sole_service mem_nats mem_log mem_consumers x_ext small_pages directory_keys
  by unfold_locales (rule x_ext_facts(2))

section \<open>The admission gate\<close>

text \<open>C1: Admission is open only in a settled state. Start the service with its gate closed, in any consistent state of
  registry, log and consumers, and let it run through any sequence of ticks, control requests, callout
  requests, lease changes and invitations, with any broker failures. Whenever the gate is open then, every key
  of the published revocation log is retired in the registry; every active device has a CHAT consumer
  filtered to exactly its authorized groups and a MAILBOX consumer filtered to its own inbox, and a revoked
  device has neither.\<close>

theorem service_admission:
  assumes "sole_broker N vlog vcons" "postcard_roundtrip E" "backend_inv E vlog (sv_backend v0)" "\<not> ru_reconciled (sv_runtime v0)"
    "list_all service_input_ok inputs" "foldl (service_step E P N k) v0 inputs = v" "ru_reconciled (sv_runtime v)"
  shows "(\<forall>key \<in> published E (vlog (bk_store (sv_backend v))). retired (bk_registry (sv_backend v)) key) \<and>
    (\<forall>d \<in> set (rg_devices (bk_registry (sv_backend v))).
      chat_consumer_ok (bk_registry (sv_backend v)) d (vcons (bk_store (sv_backend v))) \<and>
      mailbox_consumer_ok d (vcons (bk_store (sv_backend v))))"
proof -
  have m: "sole_service N vlog vcons E" using assms(1,2) by (simp add: sole_service_def sole_service_axioms_def)
  have "sole_broker.service_inv vlog vcons E v0" using assms(3,4) by (simp add: sole_broker.service_inv_def[OF assms(1)])
  from sole_service.service_runs[OF m this assms(5), of P k] have "sole_broker.service_inv vlog vcons E v" by (simp add: assms(6))
  then show ?thesis using assms(7)
    by (simp add: sole_broker.service_inv_def[OF assms(1)] sole_broker.settled_def[OF assms(1)] all_retired_def consumers_ok_def)
qed

text \<open>C4: A published revocation locks the device out. In every state of such a run, whether the gate is open or not, the
  callout of the service grants a connection with a published key that is neither the control key nor the
  worker's, if anything, the enrollment subject.\<close>

theorem published_locked_out:
  assumes "sole_broker N vlog vcons" "postcard_roundtrip E" "backend_inv E vlog (sv_backend v0)" "\<not> ru_reconciled (sv_runtime v0)"
    "list_all service_input_ok inputs" "foldl (service_step E P N k) v0 inputs = v"
    "key \<in> published E (vlog (bk_store (sv_backend v)))"
    "key \<noteq> cf_control_nkey (co_config (sv_callout v))" "co_worker (sv_callout v) \<noteq> Some key"
  shows "\<forall>env now timestamp q co user. cn_nkey (rc_connect q) = key \<and>
    admission E env (bk_registry (sv_backend v)) (admission_ready now v) timestamp q (sv_callout v) = (co, Inr user) \<longrightarrow>
    uc_publish user = [ENROLL]"
proof (intro allI impI, elim conjE)
  fix env now timestamp q co user
  assume k: "cn_nkey (rc_connect q) = key"
    and a: "admission E env (bk_registry (sv_backend v)) (admission_ready now v) timestamp q (sv_callout v) = (co, Inr user)"
  have m: "sole_service N vlog vcons E" using assms(1,2) by (simp add: sole_service_def sole_service_axioms_def)
  have "sole_broker.service_inv vlog vcons E v0" using assms(3,4) by (simp add: sole_broker.service_inv_def[OF assms(1)])
  from sole_service.service_runs[OF m this assms(5), of P k] have i: "sole_broker.service_inv vlog vcons E v" by (simp add: assms(6))
  have "admission_ready now v" using a k assms(8,9) by (auto simp: admission_def Let_def result_simps)
  then have "ru_reconciled (sv_runtime v)" using ready_reconciled by (auto simp: admission_ready_def split: if_splits)
  then have "retired (bk_registry (sv_backend v)) key"
    using i assms(7) by (simp add: sole_broker.service_inv_def[OF assms(1)] sole_broker.settled_def[OF assms(1)] all_retired_def)
  note r = retired_not_authorized[OF this, of E]
  from a show "uc_publish user = [ENROLL]"
    by (cases rule: admission_roles) (use r k assms(8,9) in auto)
qed

text \<open>C26: A start that succeeds has done the repairs: the invariant holds, every published key is retired and the consumers
  are in step with the registry, whatever the state of the directory, the log and the consumers was.\<close>

theorem service_start:
  assumes "sole_broker N vlog vcons" "postcard_roundtrip E" "backend_inv E vlog b" "service_env_ok env" "serve_start E P N k env b = (b', Inr u)"
  shows "backend_inv E vlog b' \<and> (\<forall>key \<in> published E (vlog (bk_store b')). retired (bk_registry b') key) \<and>
    consumers_ok (bk_registry b') (vcons (bk_store b'))"
  using sole_broker.serve_start_inv[OF assms(1,4,2,3,5)]
  by (simp add: sole_broker.settled_def[OF assms(1)] all_retired_def)

text \<open>C16: A failing request fails closed. When a mutating request returns an error and the repair after it fails too, the
  gate is closed and the callout admits nobody but the control key and the worker, at any time and for any
  request, until a repair succeeds.\<close>

theorem failed_request_closes:
  assumes "perform E P N k env subj request v = (v1, Inl e)" "mutating request"
    "\<not> is_ok (snd (repair_state E P N k renv (sv_backend v1)))" "repair_after E P N k renv done_at v1 = v2"
  shows "\<not> ru_reconciled (sv_runtime v2) \<and>
    (\<forall>cenv r now timestamp q co co' user. admission E cenv r (admission_ready now v2) timestamp q co = (co', Inr user) \<longrightarrow>
      cn_nkey (rc_connect q) = cf_control_nkey (co_config co) \<or> co_worker co = Some (cn_nkey (rc_connect q)))"
proof -
  have c: "\<not> ru_reconciled (sv_runtime v2)"
    using perform_closes[OF assms(1,2)] assms(3,4) by (auto simp: repair_after_def on_backend_def Let_def split: prod.splits if_splits)
  then have "\<not> admission_ready now v2" for now using ready_reconciled by (auto simp: admission_ready_def split: if_splits)
  then show ?thesis using c by (auto simp: admission_def Let_def result_simps)
qed

section \<open>A run in memory\<close>

definition senv1 :: service_env where
  "senv1 = \<lparr>se_registry = (\<lambda>_. renv1), se_audit = (\<lambda>_. env1)\<rparr>"

definition mem1 :: mem_world where
  "mem1 = \<lparr>mw_log = [(''snapshot'', [3], 1), (''revocations'', [5], 1)], mw_directory = [], mw_consumers = []\<rparr>"

definition backend1 :: "mem_world backend" where
  "backend1 = \<lparr>bk_registry = registry1, bk_store = mem1\<rparr>"

definition service1 :: "mem_world service" where
  "service1 = \<lparr>sv_backend = backend1, sv_runtime = runtime_new [] 0, sv_control_rate = rate_new 4 8 0, sv_revocation_rate = rate_new 4 8 0,
     sv_denials = \<lparr>dn_started = 0, dn_count = 0\<rparr>, sv_callout = callout1\<rparr>"

lemma senv1_registry [simp]: "se_registry senv1 l = renv1"
  by (simp add: senv1_def)

lemma senv1_ok: "service_env_ok senv1"
  by (simp add: service_env_ok_def senv1_def renv1_def)

lemma x_decode: "decode x_ext [3] = Inr (AuditLog sn1)" "decode x_ext [5] = Inr (RevocationLog rl1)" "decode_snapshot x_ext [3] = Inr sn1"
  "decode_revocations x_ext msg sn1 [5] = Inr rl1"
proof -
  obtain m where m: "x_ext = s_ext m" by (rule x_ext_s)
  show "decode x_ext [3] = Inr (AuditLog sn1)" "decode x_ext [5] = Inr (RevocationLog rl1)" "decode_snapshot x_ext [3] = Inr sn1"
    "decode_revocations x_ext msg sn1 [5] = Inr rl1"
    by (simp_all add: m decode_snapshot_ok decode_revocations_ok)
qed

lemma logs1: "log_keys rl1 = {key1}" "snapshot_keys sn1 = {key1}" "sorted_log_keys rl1 = [key1]"
  by (simp_all add: log_keys_def snapshot_keys_def sorted_log_keys_def rl1_def sn1_def rev1_def request1_def reg1_def payload1_def)

lemma mem1_reads:
  "read_log x_ext (nt_log mem_nats) (mem1\<lparr>mw_directory := d\<rparr>) = (mem1\<lparr>mw_directory := d\<rparr>, Inr sn1)"
  "rev_read x_ext (nt_log mem_nats) sn1 (mem1\<lparr>mw_directory := d\<rparr>) = (mem1\<lparr>mw_directory := d\<rparr>, Inr rl1)"
  "published x_ext (mem_log (mem1\<lparr>mw_directory := d\<rparr>)) = {key1}" "logged x_ext (mem_log (mem1\<lparr>mw_directory := d\<rparr>)) = {key1}"
  by (simp_all add: read_log_def rev_read_def mem_nats_def part_kv_def mem_kv_def mem_view_def mem1_def published_def logged_def mem_log_def
      x_decode logs1)

lemma mem1_self: "mem1 = mem1\<lparr>mw_directory := []\<rparr>"
  by (simp add: mem1_def)

lemmas mem1_now = mem1_reads[of "[]", folded mem1_self]

lemma backend1_inv: "backend_inv x_ext mem_log backend1"
  using x_ext_facts(1) by (simp add: backend_inv_def backend1_def mem1_now row_keys_def registry1_def phone1_def)

lemma registry1_revoked:
  obtains a where "revoke x_ext renv1 small_pages key1 registry1 =
    Inr (registry1\<lparr>rg_devices := [phone1\<lparr>dv_revoked := True, dv_generation := 2\<rparr>], rg_audit := a\<rparr>)"
proof -
  have "revoke_tables key1 registry1 = registry1\<lparr>rg_devices := [phone1\<lparr>dv_revoked := True, dv_generation := 2\<rparr>]\<rparr>"
    by (simp add: revoke_tables_def mark_revoked_def reassign_coordinator_def remove_member_def bump_groups_def bump_peers_def groups_of_def
        update_where_def delete_where_def registry1_def phone1_def)
  then show thesis
    by (intro that) (simp add: revoke_def registry1_def phone1_def repair_event_def Let_def)
qed

lemma retired_consumers:
  assumes "rg_devices r = [phone1\<lparr>dv_revoked := True, dv_generation := 2\<rparr>]"
  shows "reconcile_consumers_inner x_ext (nt_js mem_nats) r (mem1\<lparr>mw_directory := d\<rparr>) = (mem1\<lparr>mw_directory := d\<rparr>, Inr ())"
proof -
  have e: "enrollment_entries r False = []" "map snd (enrollment_entries r True) = [key1]"
    by (simp_all add: enrollment_entries_def enrollment_records_def assms List.map_filter_def phone1_def)
  show ?thesis
    by (simp add: reconcile_consumers_inner_def provision_mailboxes_def reconcile_device_def retire_consumers_def delete_if_present_def e
        mem_nats_def mem_js_def mem1_def)
qed

text \<open>The repair applies the published revocation and opens the gate.\<close>

lemma backend1_repaired:
  obtains r where "repair_state x_ext small_pages mem_nats directory_keys senv1 backend1 = (\<lparr>bk_registry = r, bk_store = mem1\<rparr>, Inr ())"
proof -
  obtain a where r: "revoke x_ext renv1 small_pages key1 registry1 =
      Inr (registry1\<lparr>rg_devices := [phone1\<lparr>dv_revoked := True, dv_generation := 2\<rparr>], rg_audit := a\<rparr>)" (is "_ = Inr ?r")
    by (rule registry1_revoked)
  have "apply_revocations x_ext small_pages mem_nats senv1 backend1 = (\<lparr>bk_registry = ?r, bk_store = mem1\<rparr>, Inr (sn1, rl1))"
    by (simp add: apply_revocations_def on_store_def on_registry_def mem1_now logs1 backend1_def r)
  moreover have "registrations x_ext ?r = Inr []" by (simp add: registrations_def registry1_def)
  moreover have "\<exists>r. reconcile_consumers x_ext small_pages mem_nats senv1 \<lparr>bk_registry = ?r, bk_store = mem1\<rparr> =
      (\<lparr>bk_registry = r, bk_store = mem1\<rparr>, Inr ())"
    by (simp add: reconcile_consumers_def on_audit_def on_store_def effect_result_def retired_consumers[of _ "[]", folded mem1_self] split: prod.split)
  ultimately show thesis using that by (auto simp: repair_state_def repair_registrations_def)
qed

lemma service1_open:
  obtains r where "service_step x_ext small_pages mem_nats directory_keys service1 (RepairTick senv1 0) =
    set_repaired 0 True (set_gate True (service1\<lparr>sv_backend := \<lparr>bk_registry = r, bk_store = mem1\<rparr>\<rparr>))"
proof -
  obtain r where "repair_state x_ext small_pages mem_nats directory_keys senv1 backend1 = (\<lparr>bk_registry = r, bk_store = mem1\<rparr>, Inr ())"
    by (rule backend1_repaired)
  then show thesis by (intro that[of r]) (simp add: repair_tick_def on_backend_def service1_def runtime_new_def)
qed

theorem service_admission_witness:
  "\<exists>v. foldl (service_step x_ext small_pages mem_nats directory_keys) service1 [RepairTick senv1 0] = v \<and>
     ru_reconciled (sv_runtime v) \<and> retired (bk_registry (sv_backend v)) key1"
proof -
  obtain r where s: "service_step x_ext small_pages mem_nats directory_keys service1 (RepairTick senv1 0) =
    set_repaired 0 True (set_gate True (service1\<lparr>sv_backend := \<lparr>bk_registry = r, bk_store = mem1\<rparr>\<rparr>))" (is "_ = ?v")
    by (rule service1_open)
  have f: "foldl (service_step x_ext small_pages mem_nats directory_keys) service1 [RepairTick senv1 0] = ?v"
    by (simp only: foldl.simps s)
  have o: "ru_reconciled (sv_runtime ?v)" by simp
  have "backend_inv x_ext mem_log (sv_backend service1)" "\<not> ru_reconciled (sv_runtime service1)" "list_all service_input_ok [RepairTick senv1 0]"
    using backend1_inv senv1_ok by (simp_all add: service1_def runtime_new_def service_input_ok_def)
  from service_admission[OF mem_broker.sole_broker_axioms x_ext_facts(2) this f o]
  have "retired (bk_registry (sv_backend ?v)) key1" by (simp add: mem1_now)
  then show ?thesis using f o by blast
qed

theorem published_locked_out_witness:
  "\<exists>v. foldl (service_step x_ext small_pages mem_nats directory_keys) service1 [RepairTick senv1 0] = v \<and> ru_reconciled (sv_runtime v) \<and>
     (\<forall>env now timestamp q co user. cn_nkey (rc_connect q) = key1 \<and>
       admission x_ext env (bk_registry (sv_backend v)) (admission_ready now v) timestamp q (sv_callout v) = (co, Inr user) \<longrightarrow>
       uc_publish user = [ENROLL])"
proof -
  obtain r where s: "service_step x_ext small_pages mem_nats directory_keys service1 (RepairTick senv1 0) =
    set_repaired 0 True (set_gate True (service1\<lparr>sv_backend := \<lparr>bk_registry = r, bk_store = mem1\<rparr>\<rparr>))" (is "_ = ?v")
    by (rule service1_open)
  have f: "foldl (service_step x_ext small_pages mem_nats directory_keys) service1 [RepairTick senv1 0] = ?v"
    by (simp only: foldl.simps s)
  have o: "ru_reconciled (sv_runtime ?v)" by simp
  have h: "backend_inv x_ext mem_log (sv_backend service1)" "\<not> ru_reconciled (sv_runtime service1)" "list_all service_input_ok [RepairTick senv1 0]"
    using backend1_inv senv1_ok by (simp_all add: service1_def runtime_new_def service_input_ok_def)
  have "sv_callout ?v = callout1" by (simp add: set_repaired_def set_gate_def service1_def)
  then have c: "key1 \<noteq> cf_control_nkey (co_config (sv_callout ?v))" "co_worker (sv_callout ?v) \<noteq> Some key1"
    by (simp_all add: callout1_def config1_def key1_def)
  have k: "key1 \<in> published x_ext (mem_log (bk_store (sv_backend ?v)))" by (simp add: mem1_now)
  from published_locked_out[OF mem_broker.sole_broker_axioms x_ext_facts(2) h f k c] show ?thesis using f o by blast
qed

definition service0 :: "mem_world service" where
  "service0 = service1\<lparr>sv_backend := backend1\<lparr>bk_store := mem1\<lparr>mw_log := []\<rparr>\<rparr>, sv_runtime := (runtime_new [] 0)\<lparr>ru_reconciled := True\<rparr>\<rparr>"

definition qenv1 :: request_env where
  "qenv1 = \<lparr>qe_first = senv1, qe_repair = senv1, qe_rate = 0, qe_done = 0, qe_repaired = 0, qe_denied = 0, qe_denial = env1\<rparr>"

lemma no_log:
  assumes "mw_log (bk_store b) = []"
  shows "apply_revocations x_ext small_pages mem_nats senv1 b = (b, Inl (Anyhow ''transparency log missing''))"
  using assms by (simp add: apply_revocations_def on_store_def read_log_def mem_nats_def part_kv_def mem_kv_def mem_view_def)

text \<open>The open gate of a service whose log has gone is closed by the next registration.\<close>

theorem failed_request_closes_witness:
  "\<exists>v1. fst (perform x_ext small_pages mem_nats directory_keys qenv1 REGISTER (Register reg1) service0) = v1 \<and> ru_reconciled (sv_runtime service0) \<and>
     \<not> ru_reconciled (sv_runtime (repair_after x_ext small_pages mem_nats directory_keys senv1 0 v1))"
proof -
  define v1 where "v1 = set_gate False service0"
  have b: "mw_log (bk_store (sv_backend v1)) = []" "sv_backend v1 = sv_backend service0"
    by (simp_all add: v1_def service0_def backend1_def)
  have p: "perform x_ext small_pages mem_nats directory_keys qenv1 REGISTER (Register reg1) service0 = (v1, Inl (Anyhow ''transparency log missing''))"
    using no_log[OF b(1)] b(2) by (simp add: perform_def mutating_def on_backend_def qenv1_def v1_def Let_def set_gate_def)
  have r: "\<not> is_ok (snd (repair_state x_ext small_pages mem_nats directory_keys senv1 (sv_backend v1)))"
    using no_log[OF b(1)] by (simp add: repair_state_def)
  have m: "mutating (Register reg1)" by (simp add: mutating_def)
  have "ru_reconciled (sv_runtime service0)" by (simp add: service0_def)
  then show ?thesis using failed_request_closes[OF p m r, of 0] p by (intro exI[of _ v1]) simp
qed

section \<open>A start in memory\<close>

definition endpoint1 :: string where
  "endpoint1 = device_key user1 ''phone''"

definition projected1 :: mem where
  "projected1 = [(endpoint1, [1], 1)]"

lemma registry1_enrollment:
  "historical_enrollment registry1 = [endpoint1 \<mapsto> key1]" "map fst (enrollment_entries registry1 True) = [endpoint1]"
  by (simp_all add: historical_enrollment_def enrollment_records_def enrollment_entries_def List.map_filter_def registry1_def phone1_def endpoint1_def)

lemma start_reconciles:
  "reconcile x_ext (nt_log mem_nats) (nt_directory mem_nats) [endpoint1 \<mapsto> key1] [endpoint1] directory_keys mem1 =
     (mem1\<lparr>mw_directory := projected1\<rparr>, Inr ())"
proof -
  obtain m where m: "x_ext = s_ext m" by (rule x_ext_s)
  have k: "registration_key (dr_payload reg1) = endpoint1" "rp_nats_public_key (dr_payload reg1) = key1"
    by (simp_all add: registration_key_def reg1_def payload1_def endpoint1_def)
  have e: "encode x_ext (Register reg1) = Inr [1]" by (simp add: m encode_def VERSION_def pc_def MAX_WIRE_def)
  have s: "sn_entries sn1 = [reg1]" "cp_signer (sn_checkpoint sn1) = public_key directory_keys" by (simp_all add: sn1_def cp1_def directory_keys_def)
  have g: "kv_get (nt_log mem_nats) ''snapshot'' mem1 = (mem1, Inr (Some [3]))" "kv_get (nt_directory mem_nats) endpoint1 mem1 = (mem1, Inr None)"
    by (simp_all add: mem_nats_def part_kv_def mem_kv_def mem_view_def mem1_def)
  have c: "kv_create (nt_directory mem_nats) endpoint1 [1] mem1 = (mem1\<lparr>mw_directory := projected1\<rparr>, True)"
    by (simp add: mem_nats_def part_kv_def mem_kv_def mem1_def projected1_def)
  have v: "verify_signature x_ext reg1 = Inr ()" by (simp add: m)
  show ?thesis
    by (simp add: reconcile_def initialize_def g mem1_now s project_registration_def create_or_match_def Let_def k e c v)
qed

theorem service_start_witness:
  "\<exists>b'. serve_start x_ext small_pages mem_nats directory_keys senv1 backend1 = (b', Inr ()) \<and> retired (bk_registry b') key1"
proof -
  let ?w = "mem1\<lparr>mw_directory := projected1\<rparr>"
  obtain a where r: "revoke x_ext renv1 small_pages key1 registry1 =
      Inr (registry1\<lparr>rg_devices := [phone1\<lparr>dv_revoked := True, dv_generation := 2\<rparr>], rg_audit := a\<rparr>)" (is "_ = Inr ?r")
    by (rule registry1_revoked)
  have g: "kv_get (nt_log mem_nats) ''revocations'' ?w = (?w, Inr (Some [5]))"
    by (simp add: mem_nats_def part_kv_def mem_kv_def mem_view_def mem1_def)
  have p: "registrations x_ext ?r = Inr []" by (simp add: registrations_def registry1_def)
  have "\<exists>r. reconcile_consumers x_ext small_pages mem_nats senv1 \<lparr>bk_registry = ?r, bk_store = ?w\<rparr> = (\<lparr>bk_registry = r, bk_store = ?w\<rparr>, Inr ())"
    by (simp add: reconcile_consumers_def on_audit_def on_store_def effect_result_def retired_consumers split: prod.split)
  then obtain r' where "serve_start x_ext small_pages mem_nats directory_keys senv1 backend1 = (\<lparr>bk_registry = r', bk_store = ?w\<rparr>, Inr ())"
    using start_reconciles
    by (auto simp: serve_start_def Let_def backend1_def registry1_enrollment on_store_def mem1_reads rev_initialize_def g logs1 on_registry_def r repair_registrations_def p)
  note s = this
  from service_start[OF mem_broker.sole_broker_axioms x_ext_facts(2) backend1_inv senv1_ok s] show ?thesis
    using s by (simp add: mem1_reads)
qed

section \<open>Reports\<close>

text \<open>Every report of one consistent reading is accepted by its reader: the readiness, the reasons and the observations agree,
  the bounds hold, and the control role never sees the capacity of the registry.\<close>

theorem report_accepted:
  assumes "ru_instance u = hex_text random" "length random = 16" "queued \<le> 1"
    "un_json bs = Some (snapshot_at r queued now auth connections (ru_health u) u)" "length bs \<le> MAX_REPORT"
  shows "report_parse un_json bs r = Inr (snapshot_at r queued now auth connections (ru_health u) u) \<and>
    (exit_code (snapshot_at r queued now auth connections (ru_health u) u) = 0 \<longleftrightarrow> ready now u)"
proof -
  note a = snapshot_accepted[where un_json = un_json and bs = bs, OF assms]
  have "exit_code (snapshot_at r queued now auth connections (ru_health u) u) = 0 \<longleftrightarrow> state_readiness now (ru_health u) u = Ready"
    by (simp add: snapshot_at_def exit_code_def split: readiness.split)
  then show ?thesis using a by (simp add: ready_def)
qed

definition counters0 :: counters where
  "counters0 = \<lparr>ct_received = 0, ct_accepted = 0, ct_denied = 0, ct_rate_limited = 0, ct_malformed = 0, ct_timeout = 0\<rparr>"

definition runtime1 :: runtime where
  "runtime1 = (runtime_new (replicate 16 0) 0)\<lparr>ru_queue := [], ru_loss := 0, ru_health := None, ru_reconciled := True,
      ru_live := True, ru_last_seen := 0, ru_control := counters0, ru_completed := None, ru_capacity := None\<rparr>"

theorem report_accepted_witness:
  "report_parse (\<lambda>_. Some (snapshot_at RoleControl 0 5 counters0 None None runtime1)) [] RoleControl =
     Inr (snapshot_at RoleControl 0 5 counters0 None None runtime1) \<and> ready 5 runtime1"
proof -
  have h: "ru_health runtime1 = None" by (simp add: runtime1_def)
  have "exit_code (snapshot_at RoleControl 0 5 counters0 None None runtime1) = 0"
    by (simp add: snapshot_at_def exit_code_def state_readiness_def runtime1_def worker_live_def lease_age_def audit_blocked_def)
  moreover have "ru_instance runtime1 = hex_text (replicate 16 0)" "length (replicate 16 (0 :: byte)) = 16" "(0 :: nat) \<le> 1"
    by (simp_all add: runtime1_def runtime_new_def)
  ultimately show ?thesis
    using report_accepted[where u = runtime1 and un_json = "\<lambda>_. Some (snapshot_at RoleControl 0 5 counters0 None None runtime1)" and bs = "[]"
        and r = RoleControl and now = 5 and auth = counters0 and connections = None and queued = 0 and random = "replicate 16 0"] h
    by (simp add: MAX_REPORT_def)
qed

text \<open>
  The cached audit health is read twice for one report. When a refresh between the two readings finds the
  audit store full, the report claims readiness and denies it, and its reader refuses it.
\<close>

definition full_health :: audit_health where
  "full_health = \<lparr>ah_events = 99000, ah_bytes = 0, ah_admission_capacity = False, ah_known_coverage_gaps = False,
     ah_unresolved_effects = 0, ah_observation_loss = 0, ah_age_ms = 0\<rparr>"

lemma torn_report_refused:
  "report_parse (\<lambda>_. Some (snapshot_at RoleControl 0 5 counters0 None None (runtime1\<lparr>ru_health := Some (5, full_health)\<rparr>))) [] RoleControl =
     Inl (Anyhow ''inconsistent readiness'')"
proof -
  have "length (hex_text (replicate 16 0)) = 32" "list_all (\<lambda>ch. is_hex_lower ch \<or> is_hex_upper ch) (hex_text (replicate 16 0))"
    using hex_text_lower[of "replicate 16 0"] by (auto simp: list_all_iff)
  then show ?thesis
    by (simp add: report_parse_def snapshot_at_def MAX_REPORT_def runtime1_def runtime_new_def state_reasons_def state_readiness_def
        worker_live_def lease_age_def audit_blocked_def expected_readiness_def health_view_def full_health_def)
qed

end
