(* ===== verification/Session_Properties.thy ===== *)
theory Session_Properties
  imports Exchange Service_Properties
begin

text \<open>
  The properties of the separated deployment, with the service in memory of the previous theory and a small
  codec in place of JSON.
\<close>

section \<open>The authority behind its local socket\<close>

definition fresh_node :: "'s node \<Rightarrow> bool" where
  "fresh_node a \<longleftrightarrow> nd_phase a = NoSession \<and> nd_queue a = None \<and> \<not> ru_live (sv_runtime (nd_service a))"

lemma fresh_node_ok: "fresh_node a \<Longrightarrow> node_ok a"
  by (simp add: fresh_node_def node_ok_def)

text \<open>C5: The separated deployment refines the service. Whatever connects to the local socket, whatever bytes arrive, and
  however deadlines, short writes and the other tasks interleave, what the authority does to the service is a
  sequence of inputs of the service machine, and every control request among them has one of the ten control
  subjects and an admissible size. So every invariant of the service holds behind the socket.\<close>

theorem authority_refines:
  assumes "fresh_node a0" "list_all node_event_ok events"
  shows "\<exists>inputs. list_all service_input_ok inputs \<and>
    nd_service (foldl (node_step X E P N k b) a0 events) = foldl (service_step E P N k) (nd_service a0) inputs \<and>
    (\<forall>env subj payload reply local. ControlRequest env subj payload reply local \<in> set inputs \<longrightarrow> allowed subj \<and> length payload \<le> MAX_WIRE)"
proof -
  obtain inputs where i: "list_all local_input inputs"
    "nd_service (foldl (node_step X E P N k b) a0 events) = foldl (service_step E P N k) (nd_service a0) inputs"
    using node_run.run_refines[OF fresh_node_ok[OF assms(1)] assms(2)] by metis
  have "list_all service_input_ok inputs"
    "\<forall>env subj payload reply local. ControlRequest env subj payload reply local \<in> set inputs \<longrightarrow> allowed subj \<and> length payload \<le> MAX_WIRE"
    using i(1) by (auto simp: list_all_iff local_input_def forwarded_ok_def)
  then show ?thesis using i(2) by blast
qed

text \<open>C7: Readiness needs a worker that is there. If the worker counts as live, then less than five seconds ago the session
  read the frame it was waiting for: in the handshake the readiness numbered zero, after it a heartbeat or an
  admissible request whose number is exactly the number of frames the session had read until then, so that no
  replayed or skipped number renews the lease. Before it the bound account connected, and since then the
  session has not ended.\<close>

theorem lease_current:
  assumes "fresh_node a0" "worker_live now (sv_runtime (nd_service (foldl (node_step X E P N k b) a0 events)))"
  shows "\<exists>pre seen accepted post f. events = pre @ ReadFrame seen accepted # post \<and> now - seen < 5 * 1000000000 \<and>
    due_frame X (foldl (node_step X E P N k b) a0 pre) f \<and> fr_sequence f = session_reads X E P N k b a0 0 pre \<and>
    Accept (bn_worker_uid b) \<in> set pre \<and>
    (\<forall>n \<le> length post. established (foldl (node_step X E P N k b) a0 (pre @ ReadFrame seen accepted # take n post)))"
proof -
  let ?run = "foldl (node_step X E P N k b) a0"
  let ?u = "sv_runtime (nd_service (?run events))"
  have f: "\<not> ru_live (sv_runtime (nd_service a0))" "nd_phase a0 = NoSession" using assms(1) by (simp_all add: fresh_node_def)
  have l: "ru_live ?u" "now - ru_last_seen ?u < 5 * 1000000000" using assms(2) by (simp_all add: worker_live_def lease_age_def split: if_splits)
  obtain pre accepted post m where p: "events = pre @ ReadFrame (ru_last_seen ?u) accepted # post" "due_frame X (?run pre) m"
    "\<forall>n \<le> length post. established (?run (pre @ ReadFrame (ru_last_seen ?u) accepted # take n post))"
    using live_since[OF fresh_node_ok[OF assms(1)] f(1) l(1)] by blast
  have "reads_counted (nd_phase (?run pre)) (session_reads X E P N k b a0 0 pre)"
    by (rule run_counted) (simp add: f(2) reads_counted_def)
  then have "fr_sequence m = session_reads X E P N k b a0 0 pre" by (rule due_frame_counted[OF p(2)])
  moreover have "Accept (bn_worker_uid b) \<in> set pre"
    using p(2) by (intro session_accepted[OF f(2), of X E P N k]) (auto simp: due_frame_def)
  ultimately show ?thesis using p l(2) by blast
qed

section \<open>The two ends of a connection\<close>

text \<open>C6: Every answer goes to the question it belongs to. On one connection, under every interleaving, delay, short write and
  deadline, the worker publishes the responses of the service in the order of the requests it forwarded,
  each to the reply subject of its own request and none twice; at most one request is outstanding.\<close>

theorem answers_in_order:
  assumes "frames_roundtrip X" "node_ok a0" "nd_phase a0 = NoSession" "foldl (link_step X E P N k b) (link_start X b accepted a0) events = l"
  shows "\<exists>xs sent served.
    ln_sent l = map (\<lambda>(subj, payload, reply, response). (subj, payload, reply)) xs @ sent \<and>
    ln_served l = map (\<lambda>(subj, payload, reply, response). (subj, payload, response)) xs @ served \<and>
    wk_published (ln_worker l) = map (\<lambda>(subj, payload, reply, response). (reply, response)) xs \<and>
    length sent \<le> 1 \<and> length served \<le> length sent"
proof -
  have "list_all (\<lambda>_. frames_roundtrip X) events" using assms(1) by (simp add: list_all_iff)
  from link_run.run_inv[OF link_start_inv[OF assms(2,3)] this, of E P N k b b accepted]
  have "link_inv X l" by (simp add: assms(4))
  then obtain xs sent served where x: "completed xs l sent served" "length sent \<le> 1"
    "served = [] \<or> (\<exists>subj payload to response. sent = [(subj, payload, to)] \<and> served = [(subj, payload, response)])"
    using link_inv_ledger by blast
  have "length served \<le> length sent" using x(3) by auto
  then show ?thesis using x(1,2) unfolding completed_def asked_def[abs_def] given_def[abs_def] told_def[abs_def] by blast
qed

text \<open>C10: The separated deployment answers like the service itself. When every step comes in time, the worker publishes for a
  list of messages exactly the answers that calling the service directly gives, and leaves the service in the
  same state; every frame fits the limit of the transport.\<close>

theorem separated_equivalent:
  assumes "frames_roundtrip X" "json_sizes X" "is_ok (encode E Rejected)" "both_idle n l" "n + length ms \<le> U64_MAX"
    "list_all (\<lambda>m. forwardable (ms_subject m) (ms_payload m) (Some (ms_reply m))) ms"
    "foldl (link_step X E P N k b) l (concat (map forward_promptly ms)) = l'"
  shows "(nd_service (ln_node l'), wk_published (ln_worker l')) =
      (fst (answer_directly E P N k (nd_service (ln_node l)) ms),
       wk_published (ln_worker l) @ snd (answer_directly E P N k (nd_service (ln_node l)) ms)) \<and>
    map fst (snd (answer_directly E P N k (nd_service (ln_node l)) ms)) = map ms_reply ms"
  using prompt_exchanges[OF assms(1-6) prod.collapse[symmetric] assms(7)] by simp

section \<open>The status socket\<close>

text \<open>The status a role reads is the state of the authority: the request of the client passes the size limit of the socket,
  the answer passes the client's checks, and the exit code is zero exactly when the service is ready.\<close>

theorem status_round_trip:
  assumes "frames_roundtrip X" "status_role b uid = Some r"
    "ru_instance u = hex_text random" "length random = 16" "queued \<le> 1" "rep = snapshot_at r queued now auth connections (ru_health u) u"
    "ix_json X (make_frame 0 (OpDiagnose 1)) = Some request" "length request \<le> 256"
    "ix_json X (make_frame 0 (OpDiagnostic rep)) = Some answer_bs" "length answer_bs \<le> MAX_REPORT"
    "json rep = Some bs" "un_json bs = Some rep" "length bs \<le> MAX_REPORT"
    "\<And>input. reply input = (case status_reply X b uid (\<lambda>r. snapshot_at r queued now auth connections (ru_health u) u) input of
       Inr out \<Rightarrow> Some out | Inl _ \<Rightarrow> None)"
  shows "diagnostic_status X json un_json r (Inr b) (Some (bn_authority_uid b)) reply = rep \<and> (exit_code rep = 0 \<longleftrightarrow> ready now u)"
proof -
  note a = snapshot_accepted[OF assms(3-5), of un_json bs r now auth connections, folded assms(6), OF assms(12,13)]
  let ?q = "u32_bytes (length request) @ request" and ?o = "u32_bytes (length answer_bs) @ answer_bs"
  have w: "write_frame X 0 (OpDiagnose 1) = Inr ?q" using assms(7,8) by (simp add: write_frame_def IPC_LIMIT_def)
  have q: "read_limit X 256 ?q = Inr (make_frame 0 (OpDiagnose 1), [])"
    using read_document[OF assms(1,7) _ assms(8), of "[]"] by (simp add: make_frame_def)
  have o: "read_limit X MAX_REPORT ?o = Inr (make_frame 0 (OpDiagnostic rep), [])"
    using read_document[OF assms(1,9) _ assms(10), of "[]"] by (simp add: make_frame_def MAX_REPORT_def)
  have "reply ?q = Some ?o" using q assms(2,9,10) by (simp add: assms(14) status_reply_def status_answer_def make_frame_def flip: assms(6))
  then have "diagnostic_status X json un_json r (Inr b) (Some (bn_authority_uid b)) reply = rep"
    using w o a assms(11) by (simp add: diagnostic_status_def make_frame_def)
  moreover have "exit_code rep = 0 \<longleftrightarrow> ready now u"
    by (simp add: assms(6) snapshot_at_def exit_code_def ready_def split: readiness.split)
  ultimately show ?thesis by blast
qed

text \<open>C19: The status command fails closed. It exits with zero only if the bindings are valid, the authority's own account
  answered, and the answer is a well-formed report for the asking role that observes a reconciled registry
  and a live worker.\<close>

theorem status_fails_closed:
  assumes "exit_code (diagnostic_status X json un_json r config peer reply) = 0"
  shows "\<exists>b request input f rest rep obs. config = Inr b \<and> peer = Some (bn_authority_uid b) \<and>
    write_frame X 0 (OpDiagnose 1) = Inr request \<and> reply request = Some input \<and>
    read_limit X MAX_REPORT input = Inr (f, rest) \<and> fr_sequence f = 0 \<and> fr_operation f = OpDiagnostic rep \<and>
    rp_role (diagnostic_status X json un_json r config peer reply) = r \<and>
    rp_observations (diagnostic_status X json un_json r config peer reply) = Some obs \<and> ob_reconciled obs \<and> ob_worker_live obs"
proof -
  have u: "exit_code (report_unknown r why) \<noteq> 0" for why by (simp add: report_unknown_def exit_code_def)
  let ?d = "diagnostic_status X json un_json r config peer reply"
  obtain b request input where c: "config = Inr b" "peer = Some (bn_authority_uid b)" "write_frame X 0 (OpDiagnose 1) = Inr request" "reply request = Some input"
    using assms u by (auto simp: diagnostic_status_def split: sum.splits if_splits option.splits)
  obtain f rest rep bs where p: "read_limit X MAX_REPORT input = Inr (f, rest)" "fr_sequence f = 0" "fr_operation f = OpDiagnostic rep"
    "json rep = Some bs" "report_parse un_json bs r = Inr ?d"
    using assms u c by (fastforce simp: diagnostic_status_def bind_r_def ensure_def ensure_e_def or_err_def
        split: sum.splits if_splits option.splits ipc_operation.splits prod.splits)
  have r: "rp_readiness ?d = Ready" using assms by (auto simp: exit_code_def split: readiness.splits)
  obtain obs where "rp_observations ?d = Some obs" "rp_role ?d = r" "expected_readiness obs = Ready"
    using p(5) r by (auto simp: report_parse_def result_simps split: option.splits)
  then show ?thesis using c p by (auto simp: expected_readiness_def split: if_splits)
qed

section \<open>A connection in memory\<close>

text \<open>A codec in place of JSON: a tag, the sequence number in eight bytes, and the fields.\<close>

fun digits :: "nat \<Rightarrow> nat \<Rightarrow> bytes" where
  "digits 0 n = []"
| "digits (Suc d) n = of_nat n # digits d (n div 256)"

fun number :: "bytes \<Rightarrow> nat" where
  "number [] = 0"
| "number (x # xs) = unat x + 256 * number xs"

lemma length_digits [simp]: "length (digits d n) = d"
  by (induction d arbitrary: n) auto

lemma number_digits: "n < 256 ^ d \<Longrightarrow> number (digits d n) = n"
proof (induction d arbitrary: n)
  case (Suc d)
  have "n div 256 < 256 ^ d" using Suc.prems by (simp add: less_mult_imp_div_less mult.commute)
  then show ?case using Suc.IH by (simp add: be_digit)
qed simp

definition runtime2 :: runtime where
  "runtime2 = runtime1\<lparr>ru_last_seen := 3\<rparr>"

definition report2 :: report where
  "report2 = snapshot_at RoleControl 0 5 counters0 None None runtime2"

definition sample_json :: "frame \<Rightarrow> bytes option" where
  "sample_json f =
     (if fr_version f = IPC_VERSION \<and> fr_sequence f < 256 ^ 8 then
        (case fr_operation f of
           OpReady \<Rightarrow> Some (0 # digits 8 (fr_sequence f))
         | OpHeartbeat \<Rightarrow> Some (1 # digits 8 (fr_sequence f))
         | OpRequest subj payload \<Rightarrow>
             if length subj < 256 then Some (2 # digits 8 (fr_sequence f) @ of_nat (length subj) # as_bytes subj @ payload) else None
         | OpResponse payload \<Rightarrow> Some (3 # digits 8 (fr_sequence f) @ payload)
         | OpDiagnose version \<Rightarrow> if version = 1 then Some (4 # digits 8 (fr_sequence f)) else None
         | OpDiagnostic rep \<Rightarrow> if rep = report2 then Some (5 # digits 8 (fr_sequence f)) else None
         | _ \<Rightarrow> None)
      else None)"

definition sample_un_json :: "bytes \<Rightarrow> frame option" where
  "sample_un_json bs =
     (case bs of
        [] \<Rightarrow> None
      | tag # rest \<Rightarrow>
          (let n = number (take 8 rest); fields = drop 8 rest in
           if tag = 0 then Some (make_frame n OpReady)
           else if tag = 1 then Some (make_frame n OpHeartbeat)
           else if tag = 2 then
             (case fields of [] \<Rightarrow> None | m # text \<Rightarrow> Some (make_frame n (OpRequest (text_of (take (unat m) text)) (drop (unat m) text))))
           else if tag = 3 then Some (make_frame n (OpResponse fields))
           else if tag = 4 then Some (make_frame n (OpDiagnose 1))
           else Some (make_frame n (OpDiagnostic report2))))"

definition sample_ipc :: ipc_ext where
  "sample_ipc = \<lparr>ix_json = sample_json, ix_un_json = sample_un_json\<rparr>"

lemma take_text [simp]: "take (length s) (as_bytes s @ xs) = as_bytes s" "drop (length s) (as_bytes s @ xs) = xs"
  by (simp_all add: as_bytes_def)

lemma sample_roundtrip: "frames_roundtrip sample_ipc"
proof -
  have "sample_un_json bs = Some f \<and> bs \<noteq> []" if "sample_json f = Some bs" for f bs
  proof (cases f)
    case (fields version sequence operation)
    then have v: "version = IPC_VERSION" "number (digits 8 sequence) = sequence" using that by (auto simp: sample_json_def intro: number_digits split: if_splits)
    then show ?thesis using that fields
      by (cases operation) (auto simp: sample_json_def sample_un_json_def make_frame_def Let_def be_digit split: if_splits)
  qed
  then show ?thesis by (simp add: frames_roundtrip_def sample_ipc_def)
qed

lemma allowed_short: "allowed subj \<Longrightarrow> length subj < 64"
  by (auto simp: allowed_def REGISTER_def LOOKUP_def DEVICES_def KEYPACKAGE_def AUDIT_def REVOKE_def REVOCATIONS_def ENROLL_def
      POLICY_SUBJECT_def RELAY_SUBJECT_def)

lemma sample_sizes: "json_sizes sample_ipc"
  unfolding json_sizes_def by (auto simp: sample_ipc_def sample_json_def make_frame_def U64_MAX_def as_bytes_def dest!: allowed_short)

definition bindings1 :: bindings where
  "bindings1 = \<lparr>bn_version = 1, bn_authority_uid = 1000, bn_worker_uid = 1001, bn_worker_nkey = ''UWORKER'', bn_socket = ''/run/e''\<rparr>"

definition node1 :: "mem_world node" where
  "node1 = \<lparr>nd_service = service1, nd_phase = NoSession, nd_queue = None, nd_input = [], nd_output = [], nd_running = True\<rparr>"

lemma node1_fresh: "fresh_node node1"
  by (simp add: fresh_node_def node1_def service1_def runtime_new_def)

lemma sample_frames [simp]:
  "write_frame sample_ipc 0 OpReady = Inr ([0, 0, 0, 9] @ 0 # digits 8 0)"
  "write_frame sample_ipc 0 OpHeartbeat = Inr ([0, 0, 0, 9] @ 1 # digits 8 0)"
  "write_frame sample_ipc 1 OpHeartbeat = Inr ([0, 0, 0, 9] @ 1 # digits 8 1)"
  by (simp_all add: write_frame_def sample_ipc_def sample_json_def make_frame_def IPC_LIMIT_def u32_bytes_def)

text \<open>A worker connects, and its handshake makes it live.\<close>

definition hello_bytes :: bytes where
  "hello_bytes = [0, 0, 0, 9] @ 0 # digits 8 0"

lemma hello_read: "read_limit sample_ipc IPC_LIMIT hello_bytes = Inr (make_frame 0 OpReady, [])"
  using read_written[OF sample_roundtrip sample_frames(1), of "[]"] by (simp only: hello_bytes_def append_Nil2)

definition greeting1 :: "node_event list" where
  "greeting1 = [Accept 1001, Deliver hello_bytes, ReadFrame 7 100]"

lemma node1_greeted:
  "foldl (node_step sample_ipc x_ext small_pages mem_nats directory_keys bindings1) node1 greeting1 =
     node1\<lparr>nd_service := set_lease True 7 (worker_started service1), nd_phase := Open 1, nd_output := [0, 0, 0, 9] @ 1 # digits 8 0\<rparr>"
  by (simp add: greeting1_def node_step_def accept_worker_def bindings1_def node1_def read_session_def session_first_def take_frame_def hello_read
      make_frame_def put_frame_def renew_lease_def session_settle_def)

theorem authority_refines_witness:
  "\<exists>inputs. list_all service_input_ok inputs \<and>
     set_lease True 7 (worker_started service1) = foldl (service_step x_ext small_pages mem_nats directory_keys) service1 inputs"
proof -
  have "list_all node_event_ok greeting1" by (simp add: greeting1_def node_event_ok_def)
  from authority_refines[OF node1_fresh this, of sample_ipc x_ext small_pages mem_nats directory_keys bindings1]
  show ?thesis by (auto simp: node1_greeted) (auto simp: node1_def)
qed

lemma node1_accepted:
  "node_step sample_ipc x_ext small_pages mem_nats directory_keys bindings1 node1 (Accept 1001) =
     node1\<lparr>nd_service := worker_started service1, nd_phase := Greeting\<rparr>"
  by (simp add: node_step_def accept_worker_def bindings1_def node1_def)

theorem lease_current_witness:
  "\<exists>pre seen accepted post f. greeting1 = pre @ ReadFrame seen accepted # post \<and> 9 - seen < 5 * 1000000000 \<and>
     f = make_frame 0 OpReady \<and> seen = 7 \<and> pre = [Accept 1001, Deliver hello_bytes] \<and>
     fr_sequence f = session_reads sample_ipc x_ext small_pages mem_nats directory_keys bindings1 node1 0 pre \<and> Accept 1001 \<in> set pre"
proof -
  have "worker_live 9 (sv_runtime (nd_service (foldl (node_step sample_ipc x_ext small_pages mem_nats directory_keys bindings1) node1 greeting1)))"
    by (simp add: node1_greeted worker_live_def lease_age_def)
  from lease_current[OF node1_fresh this] obtain pre seen accepted post f where p: "greeting1 = pre @ ReadFrame seen accepted # post"
    "9 - seen < 5 * 1000000000" "fr_sequence f = session_reads sample_ipc x_ext small_pages mem_nats directory_keys bindings1 node1 0 pre"
    "due_frame sample_ipc (foldl (node_step sample_ipc x_ext small_pages mem_nats directory_keys bindings1) node1 pre) f" "Accept 1001 \<in> set pre"
    by (auto simp: bindings1_def)
  then have pre: "pre = [Accept 1001, Deliver hello_bytes]" "seen = 7" by (auto simp: greeting1_def Cons_eq_append_conv)
  have "read_limit sample_ipc IPC_LIMIT (nd_input (foldl (node_step sample_ipc x_ext small_pages mem_nats directory_keys bindings1) node1 pre)) =
      Inr (make_frame 0 OpReady, [])"
    by (simp add: pre node1_accepted) (simp add: node_step_def node1_def hello_read)
  then have "f = make_frame 0 OpReady" using p(4) by (auto simp: due_frame_def)
  then show ?thesis using p pre by blast
qed

text \<open>A codec of the wire format that knows the refusal only, so that every request is refused.\<close>

definition refusing_ext :: jwt_ext where
  "refusing_ext = x_ext\<lparr>pc_envelope := (\<lambda>e. if ev_body e = Rejected then Some [9] else None)\<rparr>"

lemma refusing_encode: "encode refusing_ext reply = (if reply = Rejected then Inr [9] else Inl (Protocol Encoding))"
  by (simp add: refusing_ext_def encode_def pc_def MAX_WIRE_def)

lemma refusing_reply: "snd (control_request refusing_ext P N k env subj payload v) = Inr [9]"
  by (simp add: control_request_def encode_reply_def refusing_encode split: prod.split)

definition linked1 :: "link_event list" where
  "linked1 = [Carry 100, Node (ReadFrame 7 100), Return 100, WorkerReads True]"

lemma link1_idle:
  obtains l where "foldl (link_step sample_ipc refusing_ext small_pages mem_nats directory_keys bindings1) (link_start sample_ipc bindings1 100 node1) linked1 = l"
    "both_idle 1 l" "wk_published (ln_worker l) = []"
proof -
  have r: "read_limit sample_ipc IPC_LIMIT ([0, 0, 0, 9] @ 1 # digits 8 0) = Inr (make_frame 0 OpHeartbeat, [])"
    using read_written[OF sample_roundtrip sample_frames(2), of "[]"] by (simp only: append_Nil2)
  have w: "worker_connect sample_ipc bindings1 (bn_authority_uid bindings1) 100 = \<lparr>wk_phase = Hello, wk_input = [], wk_output = hello_bytes, wk_published = []\<rparr>"
    by (simp add: worker_connect_def worker_send_def hello_bytes_def Let_def)
  have h: "length hello_bytes = 13" by (simp add: hello_bytes_def)
  show thesis
    by (rule that[OF refl])
      (simp_all add: linked1_def link_start_def w h hello_read r[simplified] node1_def accept_worker_def on_connection_def node_step_def read_session_def
        session_first_def take_frame_def make_frame_def put_frame_def renew_lease_def session_settle_def worker_read_def worker_greeted_def
        both_idle_def Let_def)
qed

definition message1 :: message where
  "message1 = \<lparr>ms_now = 8, ms_env = qenv1, ms_subject = LOOKUP, ms_payload = [1], ms_reply = ''_INBOX.a''\<rparr>"

lemma message1_forwardable: "forwardable (ms_subject message1) (ms_payload message1) (Some (ms_reply message1))"
  by (simp add: forwardable_def message1_def inbox_reply_def starts_with_def allowed_def MAX_WIRE_def)

lemma message1_direct: "snd (answer_directly refusing_ext small_pages mem_nats directory_keys v [message1]) = [(''_INBOX.a'', [9])]"
proof -
  obtain v' where "control_request refusing_ext small_pages mem_nats directory_keys qenv1 LOOKUP [1] (set_lease (ru_live (sv_runtime v)) 8 v) = (v', Inr [9])"
    by (metis prod.collapse refusing_reply)
  then show ?thesis by (simp add: message1_def)
qed

theorem separated_equivalent_witness:
  "\<exists>l l'. both_idle 1 l \<and>
     foldl (link_step sample_ipc refusing_ext small_pages mem_nats directory_keys bindings1) l (forward_promptly message1) = l' \<and>
     wk_published (ln_worker l') = [(''_INBOX.a'', [9])]"
proof -
  obtain l :: "mem_world link" where l: "both_idle 1 l" "wk_published (ln_worker l) = []" using link1_idle by blast
  have m: "list_all (\<lambda>m. forwardable (ms_subject m) (ms_payload m) (Some (ms_reply m))) [message1]" using message1_forwardable by simp
  have e: "is_ok (encode refusing_ext Rejected)" by (simp add: refusing_encode)
  have n: "1 + length [message1] \<le> U64_MAX" by (simp add: U64_MAX_def)
  from separated_equivalent[OF sample_roundtrip sample_sizes e l(1) n m, of small_pages mem_nats directory_keys bindings1]
  have "wk_published (ln_worker (foldl (link_step sample_ipc refusing_ext small_pages mem_nats directory_keys bindings1) l (forward_promptly message1))) =
      [(''_INBOX.a'', [9])]" using l(2) message1_direct by (simp del: answer_directly.simps)
  then show ?thesis using l(1) by blast
qed

theorem answers_in_order_witness:
  "\<exists>l (xs :: exchange list). foldl (link_step sample_ipc refusing_ext small_pages mem_nats directory_keys bindings1) (link_start sample_ipc bindings1 100 node1)
       (linked1 @ forward_promptly message1) = l \<and>
     wk_published (ln_worker l) = [(''_INBOX.a'', [9])] \<and>
     wk_published (ln_worker l) = map (\<lambda>(subj, payload, reply, response). (reply, response)) xs"
proof -
  obtain l where l: "foldl (link_step sample_ipc refusing_ext small_pages mem_nats directory_keys bindings1) (link_start sample_ipc bindings1 100 node1) linked1 = l"
    "both_idle 1 l" "wk_published (ln_worker l) = []" by (rule link1_idle)
  define l' where "l' = foldl (link_step sample_ipc refusing_ext small_pages mem_nats directory_keys bindings1) l (forward_promptly message1)"
  have r: "foldl (link_step sample_ipc refusing_ext small_pages mem_nats directory_keys bindings1) (link_start sample_ipc bindings1 100 node1)
      (linked1 @ forward_promptly message1) = l'" by (simp add: l(1) l'_def)
  have m: "list_all (\<lambda>m. forwardable (ms_subject m) (ms_payload m) (Some (ms_reply m))) [message1]" using message1_forwardable by simp
  have "is_ok (encode refusing_ext Rejected)" "1 + length [message1] \<le> U64_MAX" by (simp_all add: refusing_encode U64_MAX_def)
  from prompt_exchanges[OF sample_roundtrip sample_sizes this(1) l(2) this(2) m prod.collapse[symmetric], of small_pages mem_nats directory_keys bindings1 l']
  have "wk_published (ln_worker l') = [(''_INBOX.a'', [9])]" using message1_direct l(3) by (simp add: l'_def del: answer_directly.simps)
  moreover have n: "node_ok node1" "nd_phase node1 = NoSession" using fresh_node_ok[OF node1_fresh] by (simp_all add: node1_def)
  moreover obtain xs :: "exchange list" where "wk_published (ln_worker l') = map (\<lambda>(subj, payload, reply, response). (reply, response)) xs"
    using answers_in_order[OF sample_roundtrip n r] by blast
  ultimately show ?thesis using r by (intro exI[of _ l'] exI[of _ xs]) simp
qed

lemma report2_facts:
  "ru_health runtime2 = None" "ru_instance runtime2 = hex_text (replicate 16 0)" "report2 = snapshot_at RoleControl 0 5 counters0 None (ru_health runtime2) runtime2"
  "ix_json sample_ipc (make_frame 0 (OpDiagnose 1)) = Some (4 # digits 8 0)" "ix_json sample_ipc (make_frame 0 (OpDiagnostic report2)) = Some (5 # digits 8 0)"
  "ready 5 runtime2" "exit_code report2 = 0"
  by (simp_all add: report2_def runtime2_def runtime1_def runtime_new_def sample_ipc_def sample_json_def make_frame_def ready_def state_readiness_def
      worker_live_def lease_age_def audit_blocked_def snapshot_at_def exit_code_def)

theorem status_round_trip_witness:
  "diagnostic_status sample_ipc (\<lambda>_. Some []) (\<lambda>_. Some report2) RoleControl (Inr bindings1) (Some 1000)
     (\<lambda>input. case status_reply sample_ipc bindings1 1001 (\<lambda>r. snapshot_at r 0 5 counters0 None None runtime2) input of Inr out \<Rightarrow> Some out | Inl _ \<Rightarrow> None) =
   report2 \<and> ready 5 runtime2"
proof -
  have "status_role bindings1 1001 = Some RoleControl" by (simp add: status_role_def bindings1_def)
  from status_round_trip[OF sample_roundtrip this report2_facts(2) _ _ report2_facts(3,4) _ report2_facts(5), of "\<lambda>_. Some []" "[]" "\<lambda>_. Some report2",
      OF _ _ _ _ refl refl _ refl]
  show ?thesis using report2_facts(6) by (simp add: MAX_REPORT_def bindings1_def report2_facts(1))
qed

theorem status_fails_closed_witness:
  "\<exists>obs. rp_observations (diagnostic_status sample_ipc (\<lambda>_. Some []) (\<lambda>_. Some report2) RoleControl (Inr bindings1) (Some 1000)
      (\<lambda>_. Some (u32_bytes 9 @ 5 # digits 8 0))) = Some obs \<and> ob_reconciled obs \<and> ob_worker_live obs"
proof -
  have w: "write_frame sample_ipc 0 (OpDiagnose 1) = Inr (u32_bytes 9 @ 4 # digits 8 0)"
    using report2_facts(4) by (simp add: write_frame_def IPC_LIMIT_def)
  have r: "read_limit sample_ipc MAX_REPORT (u32_bytes 9 @ 5 # digits 8 0) = Inr (make_frame 0 (OpDiagnostic report2), [])"
    using read_document[OF sample_roundtrip report2_facts(5), of MAX_REPORT "[]"] by (simp add: make_frame_def MAX_REPORT_def)
  have "report_parse (\<lambda>_. Some report2) [] RoleControl = Inr report2"
    using snapshot_accepted[OF report2_facts(2), of 0 "\<lambda>_. Some report2" "[]" RoleControl 5 counters0 None, folded report2_facts(3)] by (simp add: MAX_REPORT_def)
  then have "diagnostic_status sample_ipc (\<lambda>_. Some []) (\<lambda>_. Some report2) RoleControl (Inr bindings1) (Some 1000)
      (\<lambda>_. Some (u32_bytes 9 @ 5 # digits 8 0)) = report2"
    using w r by (simp add: diagnostic_status_def bindings1_def make_frame_def)
  then have "exit_code (diagnostic_status sample_ipc (\<lambda>_. Some []) (\<lambda>_. Some report2) RoleControl (Inr bindings1) (Some 1000)
      (\<lambda>_. Some (u32_bytes 9 @ 5 # digits 8 0))) = 0" using report2_facts(7) by simp
  from status_fails_closed[OF this] show ?thesis by blast
qed

end
