(* ===== verification/Secrets.thy ===== *)
theory Secrets
  imports Callout Machine "HOL-Library.AList"
begin

text \<open>
  Credentials in the keyring of the operating system (\<open>secrets.rs\<close>): the vault keeps, per role, the public
  reference of a secret in a metadata file, and the secret itself in the keyring. Every call may fail
  before or after it takes effect, and the process may stop in between. The keyring is the list of the items
  of this application, the metadata file its decoded contents; deriving a public key from a seed is third-party code.
\<close>

section \<open>Public keys of secrets\<close>

record secret_ext = crypto +
  sx_xkey :: "string \<Rightarrow> string option"
  sx_pair :: "string \<Rightarrow> (key_pair_type \<times> string) option"

definition kind_public :: "'z secret_ext_scheme \<Rightarrow> secret_kind \<Rightarrow> string \<Rightarrow> string result" where
  "kind_public E k secret =
     (if k = KindDatabase then
        ensure (length secret = 64 \<and> list_all is_hex_lower secret) ''invalid database key''
        (bind_r (hash E (as_bytes secret)) (\<lambda>h. Inr (hex_text h)))
      else if k = KindXKey then or_err (sx_xkey E secret) (Anyhow ''invalid XKey credential'')
      else bind_r (or_err (sx_pair E secret) (Anyhow ''invalid NKey credential'')) (\<lambda>(t, key).
        ensure (t = (if k = KindUser then UserKey else AccountKey)) ''credential type mismatch'' (Inr key)))"

definition credential_id_ok :: "string \<Rightarrow> unit result" where
  "credential_id_ok i =
     ensure (length i = 56 \<and> starts_with ''U'' i \<and>
       list_all (\<lambda>c. is_ascii_uppercase c \<or> 50 \<le> byte_of c \<and> byte_of c \<le> 55) i) ''invalid credential reference'' (Inr ())"

section \<open>The keyring\<close>

record keyring_item =
  ki_id :: string
  ki_locked :: bool
  ki_secret :: bytes

record keyring =
  kr_items :: "keyring_item list"
  kr_locked :: bool

datatype keyring_operation = KeyringRead | KeyringCreate string

definition keyring_operate :: "string \<Rightarrow> keyring_operation \<Rightarrow> keyring \<Rightarrow> keyring \<times> string option result" where
  "keyring_operate i operation kr =
     (let found = filter (\<lambda>x. ki_id x = i) (kr_items kr) in
      ensure_s (length found \<le> 1) ''duplicate credential items'' kr
      (ensure_s (list_all (\<lambda>x. \<not> ki_locked x) found) ''keyring is locked'' kr
      (case operation of
         KeyringRead \<Rightarrow>
           (case found of
              [] \<Rightarrow> (kr, Inr None)
            | x # _ \<Rightarrow> (kr, bind_r (or_err (from_utf8 (ki_secret x)) (Anyhow ''invalid credential encoding'')) (\<lambda>s. Inr (Some s))))
       | KeyringCreate secret \<Rightarrow>
           ensure_s (found = []) ''duplicate credential items'' kr
           (ensure_s (\<not> kr_locked kr) ''keyring is locked'' kr
           (kr\<lparr>kr_items := kr_items kr @ [\<lparr>ki_id = i, ki_locked = False, ki_secret = as_bytes secret\<rparr>]\<rparr>, Inr None)))))"

text \<open>A call that fails for another reason: it has no effect, or it is reported as failed, as when its deadline passes, after its effect.\<close>

datatype fault = NoFault | FaultBefore | FaultAfter

definition keyring_run :: "fault \<Rightarrow> string \<Rightarrow> keyring_operation \<Rightarrow> keyring \<Rightarrow> keyring \<times> string option result" where
  "keyring_run flt i operation kr =
     bind_s (kr, credential_id_ok i) (\<lambda>_ kr.
     case flt of
       NoFault \<Rightarrow> keyring_operate i operation kr
     | FaultBefore \<Rightarrow> (kr, Inl (Extern ''Secret Service''))
     | FaultAfter \<Rightarrow> (fst (keyring_operate i operation kr), Inl (Extern ''Secret Service'')))"

section \<open>The vault\<close>

record slot =
  sl_id :: string
  sl_kind :: secret_kind
  sl_public_key :: "string option"

record metadata =
  md_version :: nat
  md_slots :: "(string \<times> slot) list"

record vault =
  va_file :: "metadata option"
  va_keyring :: keyring

definition on_keyring :: "(keyring \<Rightarrow> keyring \<times> 'a) \<Rightarrow> vault \<Rightarrow> vault \<times> 'a" where
  "on_keyring m v = (case m (va_keyring v) of (kr, x) \<Rightarrow> (v\<lparr>va_keyring := kr\<rparr>, x))"

text \<open>\<open>save\<close> writes a temporary file and renames it; the synchronisation of the directory comes after the rename.\<close>

definition save_metadata :: "fault \<Rightarrow> metadata \<Rightarrow> vault \<Rightarrow> vault \<times> unit result" where
  "save_metadata flt md v =
     (case flt of
        NoFault \<Rightarrow> (v\<lparr>va_file := Some md\<rparr>, Inr ())
      | FaultBefore \<Rightarrow> (v, Inl (Extern ''credential file''))
      | FaultAfter \<Rightarrow> (v\<lparr>va_file := Some md\<rparr>, Inl (Extern ''credential file'')))"

record vault_env =
  ve_ready :: bool
  ve_lock :: bool
  ve_id :: string
  ve_secret :: "string result"
  ve_save_slot :: fault
  ve_read :: fault
  ve_create :: fault
  ve_readback :: fault
  ve_save_key :: fault

definition read_secret_with :: "'z secret_ext_scheme \<Rightarrow> fault \<Rightarrow> secret_ref \<Rightarrow> vault \<Rightarrow> vault \<times> string result" where
  "read_secret_with E flt ref v =
     bind_s (v, credential_id_ok (sf_id ref)) (\<lambda>_ v.
     bind_s (on_keyring (keyring_run flt (sf_id ref) KeyringRead) v) (\<lambda>found v.
     bind_s (v, or_err found (Anyhow ''credential missing from keyring'')) (\<lambda>secret v.
     bind_s (v, kind_public E (sf_kind ref) secret) (\<lambda>key v.
     ensure_s (key = sf_public_key ref) ''credential public binding mismatch'' v (v, Inr secret)))))"

definition vault_existing :: "'z secret_ext_scheme \<Rightarrow> fault \<Rightarrow> string \<Rightarrow> secret_kind \<Rightarrow> vault \<Rightarrow> vault \<times> secret_ref result" where
  "vault_existing E flt role k v =
     bind_s (v, or_err (va_file v) (Anyhow ''existing credential metadata required'')) (\<lambda>md v.
     ensure_s (md_version md = 1) ''unsupported credential metadata version'' v
     (bind_s (v, or_err (map_of (md_slots md) role) (Anyhow ''credential role missing'')) (\<lambda>sl v.
      ensure_s (sl_kind sl = k) ''credential role type mismatch'' v
      (bind_s (v, or_err (sl_public_key sl) (Anyhow ''credential initialization incomplete'')) (\<lambda>key v.
       let ref = \<lparr>sf_id = sl_id sl, sf_kind = k, sf_public_key = key\<rparr> in
       bind_s (read_secret_with E flt ref v) (\<lambda>_ v. (v, Inr ref)))))))"

definition stored_slots :: "vault \<Rightarrow> metadata" where
  "stored_slots v = (case va_file v of Some md \<Rightarrow> md | None \<Rightarrow> \<lparr>md_version = 1, md_slots = []\<rparr>)"

text \<open>\<open>ensure\<close>, the common body of \<open>provision\<close> and \<open>import\<close>, part by part: the slot, the secret, the reference.\<close>

definition reserve_slot :: "vault_env \<Rightarrow> string \<Rightarrow> secret_kind \<Rightarrow> metadata \<Rightarrow> vault \<Rightarrow> vault \<times> metadata result" where
  "reserve_slot env role k md v =
     (if role \<notin> fst ` set (md_slots md) then
        (let md = md\<lparr>md_slots := AList.update role \<lparr>sl_id = ve_id env, sl_kind = k, sl_public_key = None\<rparr> (md_slots md)\<rparr> in
         bind_s (save_metadata (ve_save_slot env) md v) (\<lambda>_ v. (v, Inr md)))
      else (v, Inr md))"

definition create_secret ::
    "'z secret_ext_scheme \<Rightarrow> vault_env \<Rightarrow> secret_kind \<Rightarrow> string option \<Rightarrow> slot \<Rightarrow> vault \<Rightarrow> vault \<times> string result" where
  "create_secret E env k imported sl v =
     ensure_s (sl_public_key sl = None) ''credential missing from keyring'' v
     (bind_s (v, case imported of Some s \<Rightarrow> Inr s | None \<Rightarrow> ve_secret env) (\<lambda>secret v.
      bind_s (v, kind_public E k secret) (\<lambda>_ v.
      bind_s (on_keyring (keyring_run (ve_create env) (sl_id sl) (KeyringCreate secret)) v) (\<lambda>_ v.
      bind_s (on_keyring (keyring_run (ve_readback env) (sl_id sl) KeyringRead) v) (\<lambda>found v.
      bind_s (v, or_err found (Anyhow ''credential missing from keyring'')) (\<lambda>readback v.
      ensure_s (secret = readback) ''credential readback mismatch'' v (v, Inr readback)))))))"

definition settle_slot ::
    "'z secret_ext_scheme \<Rightarrow> vault_env \<Rightarrow> string \<Rightarrow> secret_kind \<Rightarrow> string option \<Rightarrow> metadata \<Rightarrow> slot \<Rightarrow> string \<Rightarrow> vault
      \<Rightarrow> vault \<times> secret_ref result" where
  "settle_slot E env role k imported md sl secret v =
     bind_s (v, kind_public E k secret) (\<lambda>key v.
     ensure_s (sl_public_key sl = None \<or> sl_public_key sl = Some key) ''credential public binding mismatch'' v
     (bind_s (v, case imported of None \<Rightarrow> Inr () | Some s \<Rightarrow>
         bind_r (kind_public E k s) (\<lambda>p. ensure (p = key) ''pending restore belongs to a different identity'' (Inr ()))) (\<lambda>_ v.
      bind_s (save_metadata (ve_save_key env) (md\<lparr>md_slots := AList.update role (sl\<lparr>sl_public_key := Some key\<rparr>) (md_slots md)\<rparr>) v) (\<lambda>_ v.
      (v, Inr \<lparr>sf_id = sl_id sl, sf_kind = k, sf_public_key = key\<rparr>)))))"

definition vault_ensure ::
    "'z secret_ext_scheme \<Rightarrow> vault_env \<Rightarrow> string \<Rightarrow> secret_kind \<Rightarrow> string option \<Rightarrow> vault \<Rightarrow> vault \<times> secret_ref result" where
  "vault_ensure E env role k imported v =
     ensure_s (role \<noteq> [] \<and> length role \<le> 64) ''invalid credential role'' v
     (ensure_s (ve_ready env) ''credential directory'' v
     (ensure_s (ve_lock env) ''credential initialization already in progress'' v
     (let md = stored_slots v in
      ensure_s (md_version md = 1) ''unsupported credential metadata version; use fresh state'' v
      (bind_s (reserve_slot env role k md v) (\<lambda>md v.
       bind_s (v, or_err (map_of (md_slots md) role) (Anyhow ''unwrap'')) (\<lambda>sl v.
       ensure_s (sl_kind sl = k) ''credential role type mismatch'' v
       (bind_s (v, credential_id_ok (sl_id sl)) (\<lambda>_ v.
        bind_s (on_keyring (keyring_run (ve_read env) (sl_id sl) KeyringRead) v) (\<lambda>found v.
        bind_s (case found of Some s \<Rightarrow> (v, Inr s) | None \<Rightarrow> create_secret E env k imported sl v) (\<lambda>secret v.
        settle_slot E env role k imported md sl secret v))))))))))"

section \<open>What a vault keeps\<close>

definition slot_of :: "vault \<Rightarrow> string \<Rightarrow> slot option" where
  "slot_of v role = (case va_file v of None \<Rightarrow> None | Some md \<Rightarrow> map_of (md_slots md) role)"

text \<open>Slots stay, with their id, their kind and, once it is known, their public key.\<close>

definition vault_le :: "vault \<Rightarrow> vault \<Rightarrow> bool" where
  "vault_le v w \<longleftrightarrow> (\<forall>role sl. slot_of v role = Some sl \<longrightarrow>
     (\<exists>key. slot_of w role = Some (sl\<lparr>sl_public_key := key\<rparr>) \<and> (sl_public_key sl \<noteq> None \<longrightarrow> key = sl_public_key sl)))"

definition keyring_le :: "vault \<Rightarrow> vault \<Rightarrow> bool" where
  "keyring_le v w \<longleftrightarrow> (\<exists>new. kr_items (va_keyring w) = kr_items (va_keyring v) @ new)"

lemma vault_le_refl: "vault_le v v"
  unfolding vault_le_def by (metis slot.surjective slot.update_convs(3))

lemma vault_le_trans: "vault_le u v \<Longrightarrow> vault_le v w \<Longrightarrow> vault_le u w"
  unfolding vault_le_def
proof (intro allI impI)
  fix role sl
  assume a: "\<forall>role sl. slot_of u role = Some sl \<longrightarrow>
      (\<exists>key. slot_of v role = Some (sl\<lparr>sl_public_key := key\<rparr>) \<and> (sl_public_key sl \<noteq> None \<longrightarrow> key = sl_public_key sl))"
    "\<forall>role sl. slot_of v role = Some sl \<longrightarrow>
      (\<exists>key. slot_of w role = Some (sl\<lparr>sl_public_key := key\<rparr>) \<and> (sl_public_key sl \<noteq> None \<longrightarrow> key = sl_public_key sl))"
    "slot_of u role = Some sl"
  then obtain k1 where k1: "slot_of v role = Some (sl\<lparr>sl_public_key := k1\<rparr>)" "sl_public_key sl \<noteq> None \<longrightarrow> k1 = sl_public_key sl" by blast
  then obtain k2 where k2: "slot_of w role = Some (sl\<lparr>sl_public_key := k1, sl_public_key := k2\<rparr>)" "k1 \<noteq> None \<longrightarrow> k2 = k1" using a(2) by fastforce
  then show "\<exists>key. slot_of w role = Some (sl\<lparr>sl_public_key := key\<rparr>) \<and> (sl_public_key sl \<noteq> None \<longrightarrow> key = sl_public_key sl)"
    using k1(2) by (intro exI[of _ k2]) auto
qed

lemma keyring_le_refl: "keyring_le v v"
  by (simp add: keyring_le_def)

lemma keyring_le_trans: "keyring_le u v \<Longrightarrow> keyring_le v w \<Longrightarrow> keyring_le u w"
  by (auto simp: keyring_le_def)

definition vault_keeps :: "vault \<Rightarrow> vault \<Rightarrow> bool" where
  "vault_keeps v w \<longleftrightarrow> vault_le v w \<and> keyring_le v w"

lemma vault_keeps_refl: "vault_keeps v v"
  by (simp add: vault_keeps_def vault_le_refl keyring_le_refl)

lemma keyring_run_items: "\<exists>new. kr_items (fst (keyring_run flt i operation kr)) = kr_items kr @ new"
  by (cases "credential_id_ok i"; cases flt; cases operation)
    (auto simp: keyring_run_def keyring_operate_def Let_def ensure_s_def split: list.split)

lemma read_items: "fst (keyring_run flt i KeyringRead kr) = kr"
  by (cases "credential_id_ok i"; cases flt) (auto simp: keyring_run_def keyring_operate_def Let_def ensure_s_def split: list.split)

lemma on_keyring_keeps: "vault_keeps u v \<Longrightarrow> vault_keeps u (fst (on_keyring (keyring_run flt i operation) v))"
proof -
  assume u: "vault_keeps u v"
  have "vault_le v (fst (on_keyring (keyring_run flt i operation) v))"
    using vault_le_refl[of v] by (simp add: on_keyring_def vault_le_def slot_of_def split: prod.split)
  moreover have "keyring_le v (fst (on_keyring (keyring_run flt i operation) v))"
    using keyring_run_items[of flt i operation "va_keyring v"] by (simp add: on_keyring_def keyring_le_def case_prod_unfold)
  ultimately show ?thesis using u vault_le_trans keyring_le_trans unfolding vault_keeps_def by blast
qed

text \<open>A file that extends the slots of the present one may be saved.\<close>

lemma save_keeps:
  assumes "vault_keeps u v" "vault_le v (v\<lparr>va_file := Some md\<rparr>)"
  shows "vault_keeps u (fst (save_metadata flt md v))"
proof -
  have "vault_keeps u (v\<lparr>va_file := Some md\<rparr>)"
    using assms vault_le_trans by (auto simp: vault_keeps_def keyring_le_def)
  then show ?thesis using assms(1) by (cases flt) (simp_all add: save_metadata_def)
qed

lemma create_secret_keeps: "vault_keeps u v \<Longrightarrow> vault_keeps u (fst (create_secret E env k imported sl v))"
  unfolding create_secret_def by (intro keeping[where P = "vault_keeps u"] on_keyring_keeps)

lemma create_secret_file: "va_file (fst (create_secret E env k imported sl v)) = va_file v"
proof -
  have k: "va_file (fst (on_keyring m w)) = va_file w" for m w by (simp add: on_keyring_def split: prod.split)
  show ?thesis unfolding create_secret_def
    by (intro keeping[where P = "\<lambda>w. va_file w = va_file v"]) (simp_all add: k)
qed

lemma bind_s_result_keeps:
  assumes "P (fst m)" "\<And>x s. m = (s, Inr x) \<Longrightarrow> P (fst (f x s))"
  shows "P (fst (bind_s m f))"
  using assms by (cases m) (auto simp: bind_s_def split: sum.splits)

lemma ensure_s_guard_keeps: "P s \<Longrightarrow> (c \<Longrightarrow> P (fst k)) \<Longrightarrow> P (fst (ensure_s c msg s k))"
  by (simp add: ensure_s_def)

lemma slot_of_stored: "slot_of v role = map_of (md_slots (stored_slots v)) role"
  by (simp add: slot_of_def stored_slots_def split: option.split)

lemma reserve_slot_ok:
  assumes "reserve_slot env role k (stored_slots v) v = (v', r)"
  shows "vault_keeps v v'" "r = Inr md \<Longrightarrow> va_file v' = Some md \<and> va_keyring v' = va_keyring v"
proof -
  let ?md = "stored_slots v"
  let ?new = "?md\<lparr>md_slots := AList.update role \<lparr>sl_id = ve_id env, sl_kind = k, sl_public_key = None\<rparr> (md_slots ?md)\<rparr>"
  have le: "vault_le v (v\<lparr>va_file := Some ?new\<rparr>)" if "role \<notin> fst ` set (md_slots ?md)"
    unfolding vault_le_def
  proof (intro allI impI)
    fix r sl assume r: "slot_of v r = Some sl"
    then have "r \<noteq> role" using that by (force simp: slot_of_stored dest: map_of_SomeD)
    then show "\<exists>key. slot_of (v\<lparr>va_file := Some ?new\<rparr>) r = Some (sl\<lparr>sl_public_key := key\<rparr>) \<and> (sl_public_key sl \<noteq> None \<longrightarrow> key = sl_public_key sl)"
      using r by (intro exI[of _ "sl_public_key sl"]) (simp add: slot_of_def stored_slots_def update_conv' split: option.splits)
  qed
  show "vault_keeps v v'"
  proof (cases "role \<in> fst ` set (md_slots ?md)")
    case True
    then show ?thesis using assms by (simp add: reserve_slot_def vault_keeps_refl)
  next
    case False
    have "vault_keeps v (fst (reserve_slot env role k ?md v))" unfolding reserve_slot_def Let_def
      by (intro keeping[where P = "vault_keeps v"] save_keeps vault_keeps_refl le[OF False])
    then show ?thesis using assms by simp
  qed
  assume i: "r = Inr md"
  show "va_file v' = Some md \<and> va_keyring v' = va_keyring v"
  proof (cases "role \<in> fst ` set (md_slots ?md)")
    case True
    then have "va_file v \<noteq> None" by (cases "va_file v") (auto simp: stored_slots_def)
    then show ?thesis using True assms i by (auto simp: reserve_slot_def stored_slots_def)
  next
    case False
    then show ?thesis using assms i by (cases "ve_save_slot env") (auto simp: reserve_slot_def save_metadata_def Let_def)
  qed
qed

lemma settle_slot_ok:
  assumes "vault_keeps u v" "va_file v = Some md" "map_of (md_slots md) role = Some sl"
    "settle_slot E env role k imported md sl secret v = (w, r)"
  shows "vault_keeps u w"
    and "r = Inr ref \<Longrightarrow> kind_public E k secret = Inr (sf_public_key ref) \<and> ref = \<lparr>sf_id = sl_id sl, sf_kind = k, sf_public_key = sf_public_key ref\<rparr> \<and>
      w = v\<lparr>va_file := Some (md\<lparr>md_slots := AList.update role (sl\<lparr>sl_public_key := Some (sf_public_key ref)\<rparr>) (md_slots md)\<rparr>)\<rparr>"
proof -
  have le: "vault_le v (v\<lparr>va_file := Some (md\<lparr>md_slots := AList.update role (sl\<lparr>sl_public_key := Some key\<rparr>) (md_slots md)\<rparr>)\<rparr>)"
    if "sl_public_key sl = None \<or> sl_public_key sl = Some key" for key
    unfolding vault_le_def
  proof (intro allI impI)
    fix r s assume "slot_of v r = Some s"
    then show "\<exists>p. slot_of (v\<lparr>va_file := Some (md\<lparr>md_slots := AList.update role (sl\<lparr>sl_public_key := Some key\<rparr>) (md_slots md)\<rparr>)\<rparr>) r =
        Some (s\<lparr>sl_public_key := p\<rparr>) \<and> (sl_public_key s \<noteq> None \<longrightarrow> p = sl_public_key s)"
      using that assms(2,3) by (cases "r = role") (auto simp: slot_of_def update_conv' intro: exI[of _ "sl_public_key s"])
  qed
  have "vault_keeps u (fst (settle_slot E env role k imported md sl secret v))"
    unfolding settle_slot_def
  proof (rule bind_s_result_keeps[where P = "vault_keeps u"])
    fix key v' assume "(v, kind_public E k secret) = (v', Inr key)"
    then have [simp]: "v' = v" by simp
    show "vault_keeps u (fst (ensure_s (sl_public_key sl = None \<or> sl_public_key sl = Some key) ''credential public binding mismatch'' v'
       (bind_s (v', case imported of None \<Rightarrow> Inr () | Some s \<Rightarrow>
           bind_r (kind_public E k s) (\<lambda>p. ensure (p = key) ''pending restore belongs to a different identity'' (Inr ()))) (\<lambda>_ v.
        bind_s (save_metadata (ve_save_key env) (md\<lparr>md_slots := AList.update role (sl\<lparr>sl_public_key := Some key\<rparr>) (md_slots md)\<rparr>) v) (\<lambda>_ v.
        (v, Inr \<lparr>sf_id = sl_id sl, sf_kind = k, sf_public_key = key\<rparr>))))))"
      using assms(1) le
      by (auto intro!: ensure_s_guard_keeps[where P = "vault_keeps u"] bind_s_result_keeps[where P = "vault_keeps u"] save_keeps)
        (auto simp: save_metadata_def vault_keeps_def keyring_le_def intro: vault_le_trans split: fault.splits)
  qed (simp add: assms(1))
  then show "vault_keeps u w" using assms(4) by simp
  assume "r = Inr ref"
  then show "kind_public E k secret = Inr (sf_public_key ref) \<and> ref = \<lparr>sf_id = sl_id sl, sf_kind = k, sf_public_key = sf_public_key ref\<rparr> \<and>
      w = v\<lparr>va_file := Some (md\<lparr>md_slots := AList.update role (sl\<lparr>sl_public_key := Some (sf_public_key ref)\<rparr>) (md_slots md)\<rparr>)\<rparr>"
    using assms(4) by (cases "ve_save_key env") (auto simp: settle_slot_def save_metadata_def result_simps)
qed

section \<open>Provisioning\<close>

definition secret_at :: "string \<Rightarrow> vault \<Rightarrow> string option" where
  "secret_at i v = (case snd (keyring_run NoFault i KeyringRead (va_keyring v)) of Inr found \<Rightarrow> found | Inl _ \<Rightarrow> None)"

lemma on_keyring_read:
  assumes "on_keyring (keyring_run flt i KeyringRead) v = (v', Inr found)"
  shows "v' = v" "found = Some s \<Longrightarrow> secret_at i v = Some s"
proof -
  have k: "fst (keyring_run flt i KeyringRead (va_keyring v)) = va_keyring v" by (rule read_items)
  then show "v' = v" using assms by (auto simp: on_keyring_def split: prod.splits)
  assume f: "found = Some s"
  have "snd (keyring_run flt i KeyringRead (va_keyring v)) = Inr found" using assms by (auto simp: on_keyring_def split: prod.splits)
  then have "snd (keyring_run NoFault i KeyringRead (va_keyring v)) = Inr found"
    by (cases flt; cases "credential_id_ok i") (auto simp: keyring_run_def)
  then show "secret_at i v = Some s" using f by (simp add: secret_at_def)
qed

lemma create_secret_ok:
  assumes "create_secret E env k imported sl v = (w, Inr secret)"
  shows "sl_public_key sl = None" "secret_at (sl_id sl) w = Some secret"
proof -
  obtain v1 found where r: "on_keyring (keyring_run (ve_readback env) (sl_id sl) KeyringRead) v1 = (w, Inr found)" "found = Some secret"
    and "sl_public_key sl = None"
    using assms by (auto simp: create_secret_def result_simps)
  then show "sl_public_key sl = None" "secret_at (sl_id sl) w = Some secret" using on_keyring_read[OF r(1)] by auto
qed

text \<open>The stages of a call: the slot is reserved, the secret read or created, the reference stored.\<close>

lemma vault_ensure_cases:
  assumes "vault_ensure E env role k imported v = (w, r)"
  obtains (refused) e where "w = v" "r = Inl e"
  | (unreserved) e where "reserve_slot env role k (stored_slots v) v = (w, Inl e)"
  | (reserved) md e where "reserve_slot env role k (stored_slots v) v = (w, Inr md)" "r = Inl e"
  | (uncreated) md v1 sl e where "reserve_slot env role k (stored_slots v) v = (v1, Inr md)" "map_of (md_slots md) role = Some sl"
      "create_secret E env k imported sl v1 = (w, Inl e)" "r = Inl e"
  | (found) md v1 sl secret where "reserve_slot env role k (stored_slots v) v = (v1, Inr md)" "map_of (md_slots md) role = Some sl" "sl_kind sl = k"
      "credential_id_ok (sl_id sl) = Inr ()" "secret_at (sl_id sl) v1 = Some secret" "settle_slot E env role k imported md sl secret v1 = (w, r)"
  | (created) md v1 sl secret v2 where "reserve_slot env role k (stored_slots v) v = (v1, Inr md)" "map_of (md_slots md) role = Some sl" "sl_kind sl = k"
      "credential_id_ok (sl_id sl) = Inr ()" "create_secret E env k imported sl v1 = (v2, Inr secret)" "settle_slot E env role k imported md sl secret v2 = (w, r)"
proof (cases "role \<noteq> [] \<and> length role \<le> 64 \<and> ve_ready env \<and> ve_lock env \<and> md_version (stored_slots v) = 1")
  case False
  then show thesis using assms refused by (auto simp: vault_ensure_def ensure_s_def Let_def split: if_splits)
next
  case True
  note guards = True
  obtain v1 x where rs: "reserve_slot env role k (stored_slots v) v = (v1, x)" by fastforce
  show thesis
  proof (cases x)
    case (Inl e)
    then show thesis using assms guards rs unreserved by (auto simp: vault_ensure_def Let_def)
  next
    case (Inr md)
    note rs = rs[unfolded Inr]
    show thesis
    proof (cases "\<exists>sl. map_of (md_slots md) role = Some sl \<and> sl_kind sl = k \<and> credential_id_ok (sl_id sl) = Inr ()")
      case False
      then have "w = v1 \<and> (\<exists>e. r = Inl e)" using assms guards rs
        by (cases "map_of (md_slots md) role"; cases "credential_id_ok (sl_id (the (map_of (md_slots md) role)))") (auto simp: vault_ensure_def Let_def ensure_s_def split: if_splits)
      then show thesis using rs reserved by blast
    next
      case True
      then obtain sl where sl: "map_of (md_slots md) role = Some sl" "sl_kind sl = k" "credential_id_ok (sl_id sl) = Inr ()" by blast
      obtain v2 y where y: "on_keyring (keyring_run (ve_read env) (sl_id sl) KeyringRead) v1 = (v2, y)" by fastforce
      have v2: "v2 = v1" using y read_items by (auto simp: on_keyring_def split: prod.splits) (metis fst_conv vault.surjective vault.update_convs(2))
      have e: "vault_ensure E env role k imported v =
          bind_s (v1, y) (\<lambda>found v. bind_s (case found of Some s \<Rightarrow> (v, Inr s) | None \<Rightarrow> create_secret E env k imported sl v) (\<lambda>secret v.
            settle_slot E env role k imported md sl secret v))"
        using guards rs sl y by (simp add: vault_ensure_def Let_def v2)
      show thesis
      proof (cases y)
        case (Inl err)
        then show thesis using assms e rs reserved by auto
      next
        case (Inr found)
        note y = y[unfolded Inr]
        show thesis
        proof (cases found)
          case (Some secret)
          then show thesis using assms e rs sl on_keyring_read(2)[OF y, of secret] Inr
            by (intro that(5)[of v1 md sl secret]) auto
        next
          case None
          obtain v3 z where z: "create_secret E env k imported sl v1 = (v3, z)" by fastforce
          show thesis
          proof (cases z)
            case (Inl err)
            then show thesis using assms e rs sl z None Inr \<open>y = Inr found\<close> by (intro uncreated[of v1 md sl err]) auto
          next
            case (Inr secret)
            then show thesis using assms e rs sl z None \<open>y = Inr found\<close> by (intro created[of v1 md sl v3 secret]) auto
          qed
        qed
      qed
    qed
  qed
qed

lemma vault_ensure_keeps:
  assumes "vault_ensure E env role k imported v = (w, r)"
  shows "vault_keeps v w"
  using assms
proof (cases rule: vault_ensure_cases)
  case (refused e)
  then show ?thesis by (simp add: vault_keeps_refl)
next
  case (unreserved e)
  then show ?thesis by (rule reserve_slot_ok(1))
next
  case (reserved md e)
  then show ?thesis using reserve_slot_ok(1) by blast
next
  case (uncreated md v1 sl e)
  then show ?thesis using create_secret_keeps[OF reserve_slot_ok(1)[OF uncreated(1)], of E env k imported sl] by simp
next
  case (found md v1 sl secret)
  then show ?thesis using settle_slot_ok(1)[OF reserve_slot_ok(1)[OF found(1)] _ found(2,6)] reserve_slot_ok(2)[OF found(1)] by blast
next
  case (created md v1 sl secret v2)
  have "vault_keeps v v2" "va_file v2 = Some md"
    using create_secret_keeps[OF reserve_slot_ok(1)[OF created(1)], of E env k imported sl] create_secret_file[of E env k imported sl v1]
      created(5) reserve_slot_ok(2)[OF created(1)] by auto
  then show ?thesis using settle_slot_ok(1)[OF _ _ created(2,6)] by blast
qed

text \<open>A call that succeeds leaves an established slot, and the secret of its reference in the keyring.\<close>

lemma vault_ensure_ok:
  assumes "vault_ensure E env role k imported v = (w, Inr ref)"
  shows "sf_kind ref = k \<and> slot_of w role = Some \<lparr>sl_id = sf_id ref, sl_kind = k, sl_public_key = Some (sf_public_key ref)\<rparr> \<and>
    credential_id_ok (sf_id ref) = Inr () \<and> md_version (stored_slots w) = 1 \<and>
    (\<exists>secret. secret_at (sf_id ref) w = Some secret \<and> kind_public E k secret = Inr (sf_public_key ref))"
proof -
  have version: "md_version (stored_slots v) = 1" using assms by (auto simp: vault_ensure_def Let_def result_simps)
  have finish: ?thesis if "reserve_slot env role k (stored_slots v) v = (v1, Inr md)" "va_file v2 = Some md" "map_of (md_slots md) role = Some sl" "sl_kind sl = k"
    "credential_id_ok (sl_id sl) = Inr ()" "secret_at (sl_id sl) v2 = Some secret" "settle_slot E env role k imported md sl secret v2 = (w, Inr ref)"
    for md v1 v2 sl secret
  proof -
    have m: "md_version md = 1" using that(1) version by (cases "ve_save_slot env") (auto simp: reserve_slot_def save_metadata_def Let_def split: if_splits)
    note s = settle_slot_ok(2)[OF vault_keeps_refl[of v2] that(2,3,7) refl]
    then have w: "va_keyring w = va_keyring v2" "stored_slots w = md\<lparr>md_slots := AList.update role (sl\<lparr>sl_public_key := Some (sf_public_key ref)\<rparr>) (md_slots md)\<rparr>"
      by (simp_all add: stored_slots_def)
    have r: "sf_id ref = sl_id sl" "sf_kind ref = k" using s by (metis secret_ref.select_convs)+
    have "slot_of w role = Some (sl\<lparr>sl_public_key := Some (sf_public_key ref)\<rparr>)" by (simp add: slot_of_stored w(2) update_conv')
    moreover have "secret_at (sl_id sl) w = Some secret" using that(6) w(1) by (simp add: secret_at_def)
    ultimately show ?thesis using s r that(4,5) m w(2) by simp
  qed
  from assms show ?thesis
  proof (cases rule: vault_ensure_cases)
    case (found md v1 sl secret)
    then show ?thesis using finish[OF found(1) _ found(2-6)] reserve_slot_ok(2)[OF found(1)] by blast
  next
    case (created md v1 sl secret v2)
    have "va_file v2 = Some md" using create_secret_file[of E env k imported sl v1] created(5) reserve_slot_ok(2)[OF created(1)] by auto
    then show ?thesis using finish[OF created(1) _ created(2-4) create_secret_ok(2)[OF created(5)] created(6)] by blast
  qed (use assms in \<open>auto simp: vault_ensure_def Let_def result_simps\<close>)
qed

text \<open>An established slot never gets another secret.\<close>

lemma vault_ensure_established:
  assumes "vault_ensure E env role k imported v = (w, r)" "slot_of v role = Some sl" "sl_public_key sl = Some key"
  shows "va_keyring w = va_keyring v" "secret_at (sl_id sl) v = None \<Longrightarrow> \<exists>e. r = Inl e"
proof -
  have role: "role \<in> fst ` set (md_slots (stored_slots v))" using assms(2) by (force simp: slot_of_stored dest: map_of_SomeD)
  then have rs: "reserve_slot env role k (stored_slots v) v = (v, Inr (stored_slots v))" by (simp add: reserve_slot_def)
  have sl: "map_of (md_slots (stored_slots v)) role = Some sl" using assms(2) by (simp add: slot_of_stored)
  have keyring: "va_keyring (fst (settle_slot E env role k imported (stored_slots v) sl secret v)) = va_keyring v" for secret
    unfolding settle_slot_def by (intro keeping[where P = "\<lambda>u. va_keyring u = va_keyring v"]) (auto simp: save_metadata_def split: fault.split)
  from assms(1) have "va_keyring w = va_keyring v \<and> (secret_at (sl_id sl) v = None \<longrightarrow> (\<exists>e. r = Inl e))"
  proof (cases rule: vault_ensure_cases)
    case (uncreated md v1 s e)
    then have "s = sl" "v1 = v" using rs sl by auto
    then show ?thesis using uncreated assms(3) by (auto simp: create_secret_def)
  next
    case (found md v1 s secret)
    then have "md = stored_slots v" "s = sl" "v1 = v" using rs sl by auto
    then show ?thesis using found keyring[of secret] by simp
  next
    case (created md v1 s secret v2)
    then have "s = sl" using rs sl by auto
    then show ?thesis using create_secret_ok(1)[OF created(5)] assms(3) by simp
  qed (use rs in auto)
  then show "va_keyring w = va_keyring v" "secret_at (sl_id sl) v = None \<Longrightarrow> \<exists>e. r = Inl e" by blast+
qed

text \<open>A call that imports a secret and succeeds records the identity of that secret.\<close>

lemma vault_ensure_imported:
  assumes "vault_ensure E env role k (Some secret) v = (w, Inr ref)"
  shows "kind_public E k secret = Inr (sf_public_key ref)"
proof -
  obtain md sl found v' where "settle_slot E env role k (Some secret) md sl found v' = (w, Inr ref)"
    using assms by (simp add: vault_ensure_def Let_def result_simps) blast
  then show ?thesis by (auto simp: settle_slot_def result_simps)
qed

section \<open>The vault as a machine\<close>

text \<open>Calls with any faults, and any change of the keyring by somebody else.\<close>

datatype vault_event = VaultCall vault_env string secret_kind "string option" | KeyringChange keyring

fun vault_step :: "'z secret_ext_scheme \<Rightarrow> vault \<Rightarrow> vault_event \<Rightarrow> vault" where
  "vault_step E v (VaultCall env role k imported) = fst (vault_ensure E env role k imported v)"
| "vault_step E v (KeyringChange kr) = v\<lparr>va_keyring := kr\<rparr>"

lemma vault_step_le: "vault_le v (vault_step E v e)"
proof (cases e)
  case (VaultCall env role k imported)
  then show ?thesis using vault_ensure_keeps[of E env role k imported v "fst (vault_ensure E env role k imported v)" "snd (vault_ensure E env role k imported v)"] by (simp add: vault_keeps_def)
next
  case (KeyringChange kr)
  then show ?thesis using vault_le_refl[of v] by (simp add: vault_le_def slot_of_def)
qed

interpretation vault_run: monotone_machine "vault_step E" "\<lambda>_. True" "\<lambda>_. True" vault_le for E
  by unfold_locales (auto intro: vault_le_refl vault_le_trans vault_step_le)

end
