(* ===== verification/Roles.thy ===== *)
theory Roles
  imports Sessions Secrets
begin

text \<open>
  The set-up of the two backend roles (\<open>epochgrid-service/src/roles.rs\<close>): files in private directories that
  bind the accounts, the worker's key and the socket, and the checks with which a role loads them. Paths are
  lists of components. A file is created by renaming a temporary one that must not replace anything; the
  call may fail before or after the rename. The JSON codecs and the resolution of links are parameters.
\<close>

unbundle bit_operations_syntax

section \<open>Files\<close>

type_synonym path = "string list"

datatype file_kind = RegularFile | DirectoryFile | OtherFile

record role_file =
  fl_kind :: file_kind
  fl_uid :: nat
  fl_mode :: "32 word"
  fl_bytes :: bytes

type_synonym files = "path \<rightharpoonup> role_file"

definition private_mode :: "32 word" where
  "private_mode = 384"

definition owned :: "files \<Rightarrow> path \<Rightarrow> nat \<Rightarrow> bool \<Rightarrow> unit result" where
  "owned fs p owner exclusive =
     bind_r (or_err (fs p) (Extern ''metadata'')) (\<lambda>m.
     ensure (fl_kind m = RegularFile \<or> fl_kind m = DirectoryFile) ''role path must be a regular file or directory''
     (ensure (fl_uid m = owner) ''role path ownership mismatch''
     (ensure (fl_mode m AND (if exclusive then 63 else 18) = 0) ''unsafe role path permissions'' (Inr ()))))"

definition new_file :: "nat \<Rightarrow> bytes \<Rightarrow> role_file" where
  "new_file uid bs = \<lparr>fl_kind = RegularFile, fl_uid = uid, fl_mode = private_mode, fl_bytes = bs\<rparr>"

definition read_file :: "files \<Rightarrow> path \<Rightarrow> bytes result" where
  "read_file fs p = bind_r (or_err (fs p) (Extern ''read'')) (\<lambda>f. Inr (fl_bytes f))"

definition publish_file :: "fault \<Rightarrow> nat \<Rightarrow> path \<Rightarrow> bytes \<Rightarrow> files \<Rightarrow> files \<times> unit result" where
  "publish_file flt uid p bs fs =
     (if flt = FaultBefore then (fs, Inl (Extern ''output''))
      else if p \<in> dom fs then (fs, Inl (Anyhow ''output exists; refusing replacement''))
      else (fs(p \<mapsto> new_file uid bs), if flt = NoFault then Inr () else Inl (Extern ''output'')))"

definition add_file :: "path \<Rightarrow> role_file \<Rightarrow> files \<Rightarrow> files" where
  "add_file p f fs = (if p \<in> dom fs then fs else fs(p \<mapsto> f))"

definition lock_file :: "nat \<Rightarrow> path \<Rightarrow> files \<Rightarrow> files" where
  "lock_file uid home fs = add_file (home @ [''runtime.lock'']) (new_file uid []) fs"

text \<open>\<open>runtime_lock\<close> creates the lock file when it is absent; \<open>free\<close> tells whether nobody holds the lock.\<close>

definition runtime_lock :: "nat \<Rightarrow> bool \<Rightarrow> path \<Rightarrow> files \<Rightarrow> files \<times> unit result" where
  "runtime_lock uid free home fs =
     bind_s (fs, owned fs home uid True) (\<lambda>_ fs.
     (let fs = lock_file uid home fs; p = home @ [''runtime.lock''] in
      bind_s (fs, owned fs p uid True) (\<lambda>_ fs.
      ensure_s (map_option fl_kind (fs p) = Some RegularFile) ''runtime lock must be a regular file'' fs
      (ensure_s free ''backend runtime is active; stop it before changing role bindings'' fs (fs, Inr ())))))"

section \<open>Role bindings\<close>

record worker_config =
  wc_version :: nat
  wc_connection :: secret_ref
  wc_bindings :: bindings

text \<open>The public capability artifact: the key of each role with what it may publish and subscribe to.\<close>

record role_permissions =
  pm_nkey :: string
  pm_publish :: "string list"
  pm_subscribe :: "string list"

definition runtime_permissions :: "string \<Rightarrow> string \<Rightarrow> role_permissions \<times> role_permissions" where
  "runtime_permissions control_nkey worker_nkey =
     (\<lparr>pm_nkey = control_nkey, pm_publish = authority_publish, pm_subscribe = [inbox_of control_nkey]\<rparr>,
      \<lparr>pm_nkey = worker_nkey, pm_publish = worker_publish, pm_subscribe = inbox_of worker_nkey # worker_subscribe\<rparr>)"

record role_ext = jwt_ext +
  rx_bindings :: "bindings \<Rightarrow> bytes option"
  rx_un_bindings :: "bytes \<Rightarrow> bindings option"
  rx_capabilities :: "role_permissions \<times> role_permissions \<Rightarrow> bytes option"
  rx_config :: "bytes \<Rightarrow> callout_config option"
  rx_worker :: "worker_config \<Rightarrow> bytes option"
  rx_un_worker :: "bytes \<Rightarrow> worker_config option"
  rx_canonical :: "path \<Rightarrow> path option"

definition BINDINGS :: string where
  "BINDINGS = ''backend-roles.json''"

definition PERMISSIONS :: string where
  "PERMISSIONS = ''runtime-permissions.json''"

definition bindings_load :: "'z role_ext_scheme \<Rightarrow> nat \<Rightarrow> path \<Rightarrow> files \<Rightarrow> bindings result" where
  "bindings_load E uid home fs =
     bind_r (owned fs home uid True) (\<lambda>_.
     bind_r (owned fs (home @ [BINDINGS]) uid True) (\<lambda>_.
     bind_r (read_file fs (home @ [BINDINGS])) (\<lambda>bs.
     bind_r (or_err (rx_un_bindings E bs) (Extern ''serde_json'')) (\<lambda>b.
     bind_r (bindings_validate E b) (\<lambda>_.
     ensure (bn_authority_uid b = uid) ''authority account required'' (Inr b))))))"

definition parent_path :: "path \<Rightarrow> path" where
  "parent_path p = (if butlast p = [] then [''.''] else butlast p)"

definition config_load :: "'z role_ext_scheme \<Rightarrow> int option \<Rightarrow> path \<Rightarrow> files \<Rightarrow> callout_config result" where
  "config_load E t p fs =
     bind_r (read_file fs p) (\<lambda>bs.
     bind_r (or_err (rx_config E bs) (Extern ''serde_json'')) (\<lambda>config. load_inner E t False config))"

text \<open>A file with given contents exists already, or is published now.\<close>

definition keep_or_publish :: "fault \<Rightarrow> nat \<Rightarrow> path \<Rightarrow> bytes \<Rightarrow> string \<Rightarrow> files \<Rightarrow> files \<times> unit result" where
  "keep_or_publish flt uid p bs msg fs =
     (if p \<in> dom fs then
        bind_s (fs, owned fs p uid True) (\<lambda>_ fs.
        bind_s (fs, read_file fs p) (\<lambda>present fs. ensure_s (present = bs) msg fs (fs, Inr ())))
      else publish_file flt uid p bs fs)"

record bind_env =
  be_free :: bool
  be_time :: "int option"
  be_permissions :: fault
  be_marker :: fault

definition chosen_bindings :: "nat \<Rightarrow> nat \<Rightarrow> string \<Rightarrow> string \<Rightarrow> bindings" where
  "chosen_bindings uid worker_uid worker_nkey socket = \<lparr>bn_version = IPC_VERSION, bn_authority_uid = uid, bn_worker_uid = worker_uid,
     bn_worker_nkey = worker_nkey, bn_socket = socket\<rparr>"

text \<open>The permissions are written before the bindings, which mark completion.\<close>

definition write_bindings :: "bind_env \<Rightarrow> nat \<Rightarrow> path \<Rightarrow> bytes \<Rightarrow> bytes \<Rightarrow> files \<Rightarrow> files \<times> unit result" where
  "write_bindings env uid home bs capabilities fs =
     (let bound = (home @ [BINDINGS] \<in> dom fs) in
      bind_s (if bound then keep_or_publish NoFault uid (home @ [BINDINGS]) bs ''role binding already exists with different choices'' fs
        else (fs, Inr ())) (\<lambda>_ fs.
      bind_s (keep_or_publish (be_permissions env) uid (home @ [PERMISSIONS]) capabilities
        ''runtime permission artifact differs; refusing replacement'' fs) (\<lambda>_ fs.
      if bound then (fs, Inr ()) else publish_file (be_marker env) uid (home @ [BINDINGS]) bs fs)))"

definition role_bind ::
    "'z role_ext_scheme \<Rightarrow> bind_env \<Rightarrow> nat \<Rightarrow> path \<Rightarrow> path \<Rightarrow> nat \<Rightarrow> string \<Rightarrow> string \<Rightarrow> files \<Rightarrow> files \<times> unit result" where
  "role_bind E env uid home auth_config worker_uid worker_nkey socket fs =
     (let b = chosen_bindings uid worker_uid worker_nkey socket in
      bind_s (fs, owned fs home uid True) (\<lambda>_ fs.
      bind_s (fs, bindings_validate E b) (\<lambda>_ fs.
      bind_s (runtime_lock uid (be_free env) home fs) (\<lambda>_ fs.
      bind_s (fs, owned fs auth_config uid True) (\<lambda>_ fs.
      bind_s (fs, or_err (rx_canonical E (parent_path auth_config)) (Extern ''canonicalize'')) (\<lambda>parent fs.
      bind_s (fs, or_err (rx_canonical E home) (Extern ''canonicalize'')) (\<lambda>top fs.
      ensure_s (parent = top) ''auth configuration must reside in authority home'' fs
      (bind_s (fs, config_load E (be_time env) auth_config fs) (\<lambda>config fs.
       ensure_s (worker_nkey \<noteq> cf_control_nkey config \<and> worker_nkey \<noteq> sf_public_key (cf_connection config))
         ''worker must have an independent connection identity'' fs
       (bind_s (fs, or_err (rx_bindings E b) (Extern ''serde_json'')) (\<lambda>bs fs.
        bind_s (fs, or_err (rx_capabilities E (runtime_permissions (cf_control_nkey config) worker_nkey)) (Extern ''serde_json'')) (\<lambda>capabilities fs.
        write_bindings env uid home bs capabilities fs))))))))))))"

section \<open>The worker's configuration\<close>

definition worker_init :: "'y secret_ext_scheme \<Rightarrow> vault_env \<Rightarrow> nat \<Rightarrow> vault \<Rightarrow> vault \<times> string result" where
  "worker_init S env uid v =
     ensure_s (uid \<noteq> 0) ''worker must not run as root'' v
     (bind_s (vault_ensure S env ''worker'' KindUser None v) (\<lambda>ref v. (v, Inr (sf_public_key ref))))"

definition worker_configure ::
    "'z role_ext_scheme \<Rightarrow> 'y secret_ext_scheme \<Rightarrow> fault \<Rightarrow> fault \<Rightarrow> nat \<Rightarrow> path \<Rightarrow> path \<Rightarrow> vault \<Rightarrow> files \<Rightarrow> files \<times> unit result" where
  "worker_configure E S keyring_fault output_fault uid home bindings_path vault fs =
     bind_s (fs, read_file fs bindings_path) (\<lambda>bs fs.
     bind_s (fs, or_err (rx_un_bindings E bs) (Extern ''serde_json'')) (\<lambda>b fs.
     bind_s (fs, bindings_validate E b) (\<lambda>_ fs.
     ensure_s (bn_worker_uid b = uid) ''worker account required'' fs
     (bind_s (fs, snd (vault_existing S keyring_fault ''worker'' KindUser vault)) (\<lambda>connection fs.
      ensure_s (sf_public_key connection = bn_worker_nkey b) ''worker binding mismatch'' fs
      (bind_s (fs, or_err (rx_worker E \<lparr>wc_version = IPC_VERSION, wc_connection = connection, wc_bindings = b\<rparr>) (Extern ''serde_json''))
        (\<lambda>out fs. keep_or_publish output_fault uid (home @ [''worker.json'']) out ''worker configuration already differs'' fs))))))) "

definition load_worker_config ::
    "'z role_ext_scheme \<Rightarrow> 'y secret_ext_scheme \<Rightarrow> fault \<Rightarrow> nat \<Rightarrow> path \<Rightarrow> vault \<Rightarrow> files \<Rightarrow> worker_config result" where
  "load_worker_config E S keyring_fault uid home vault fs =
     bind_r (owned fs home uid True) (\<lambda>_.
     bind_r (owned fs (home @ [''worker.json'']) uid True) (\<lambda>_.
     bind_r (read_file fs (home @ [''worker.json''])) (\<lambda>bs.
     bind_r (or_err (rx_un_worker E bs) (Extern ''serde_json'')) (\<lambda>config.
     bind_r (bindings_validate E (wc_bindings config)) (\<lambda>_.
     ensure (wc_version config = IPC_VERSION \<and> bn_worker_uid (wc_bindings config) = uid \<and> sf_kind (wc_connection config) = KindUser \<and>
       sf_public_key (wc_connection config) = bn_worker_nkey (wc_bindings config)) ''worker binding mismatch''
     (bind_r (snd (vault_existing S keyring_fault ''worker'' KindUser vault)) (\<lambda>connection.
      ensure (connection = wc_connection config) ''worker credential mismatch'' (Inr config))))))))"

text \<open>The bindings that a status client uses: no keyring, no lock, and at most 8192 bytes.\<close>

definition diagnostic_bindings :: "'z role_ext_scheme \<Rightarrow> nat \<Rightarrow> path \<Rightarrow> role \<Rightarrow> files \<Rightarrow> bindings result" where
  "diagnostic_bindings E uid home r fs =
     (let p = home @ [if r = RoleAuthority then BINDINGS else ''worker.json''] in
      bind_r (owned fs home uid True) (\<lambda>_.
      bind_r (owned fs p uid True) (\<lambda>_.
      bind_r (or_err (fs p) (Extern ''open'')) (\<lambda>m.
      ensure (fl_kind m = RegularFile \<and> fl_uid m = uid \<and> fl_mode m AND 63 = 0) ''invalid role file''
      (ensure (length (fl_bytes m) \<le> 8192) ''role configuration too large''
      (bind_r (case r of
           RoleAuthority \<Rightarrow> or_err (rx_un_bindings E (fl_bytes m)) (Extern ''serde_json'')
         | RoleControl \<Rightarrow>
             bind_r (or_err (rx_un_worker E (fl_bytes m)) (Extern ''serde_json'')) (\<lambda>config.
             ensure (wc_version config = IPC_VERSION) ''unsupported worker configuration'' (Inr (wc_bindings config)))) (\<lambda>b.
       bind_r (bindings_validate E b) (\<lambda>_.
       ensure (uid = (case r of RoleAuthority \<Rightarrow> bn_authority_uid b | RoleControl \<Rightarrow> bn_worker_uid b)) ''wrong role account'' (Inr b)))))))))"

section \<open>Setting up is restartable\<close>

lemma add_file_le: "fs \<subseteq>\<^sub>m add_file p f fs"
  by (auto simp: add_file_def map_le_def)

lemma add_file_simps [simp]: "p \<in> dom fs \<Longrightarrow> add_file p f fs = fs" "dom (add_file p f fs) = insert p (dom fs)"
  by (auto simp: add_file_def)

lemma map_le_new: "fs \<subseteq>\<^sub>m fs' \<Longrightarrow> p \<notin> dom fs' \<Longrightarrow> fs \<subseteq>\<^sub>m fs'(p \<mapsto> f)"
  by (auto simp: map_le_def) (metis domI domIff)

lemma map_le_read: "fs \<subseteq>\<^sub>m fs' \<Longrightarrow> fs p = Some f \<Longrightarrow> fs' p = Some f"
  by (force simp: map_le_def dom_def)

lemma owned_mono: "owned fs p uid exclusive = Inr () \<Longrightarrow> fs \<subseteq>\<^sub>m fs' \<Longrightarrow> owned fs' p uid exclusive = Inr ()"
  by (auto simp: owned_def result_simps dest: map_le_read)

lemma read_file_mono: "read_file fs p = Inr bs \<Longrightarrow> fs \<subseteq>\<^sub>m fs' \<Longrightarrow> read_file fs' p = Inr bs"
  by (auto simp: read_file_def result_simps dest: map_le_read)

lemma config_load_mono: "config_load E t p fs = Inr config \<Longrightarrow> fs \<subseteq>\<^sub>m fs' \<Longrightarrow> config_load E t p fs' = Inr config"
  by (auto simp: config_load_def result_simps dest: read_file_mono)

lemma load_inner_config: "load_inner E t pending config = Inr c \<Longrightarrow> c = config"
  by (auto simp: load_inner_def ensure_key_type_def result_simps split: option.splits if_splits)

lemma config_load_time: "config_load E t p fs = Inr config \<Longrightarrow> config_load E t' p fs = Inr config' \<Longrightarrow> config' = config"
  by (auto simp: config_load_def result_simps dest!: load_inner_config)

lemma new_file_owned: "fs p = Some (new_file uid bs) \<Longrightarrow> owned fs p uid True = Inr () \<and> read_file fs p = Inr bs"
  by (simp add: owned_def new_file_def private_mode_def read_file_def)

text \<open>A file that is as it should be, or is not there.\<close>

definition as_written :: "nat \<Rightarrow> path \<Rightarrow> bytes \<Rightarrow> files \<Rightarrow> bool" where
  "as_written uid p bs fs \<longleftrightarrow> (p \<in> dom fs \<longrightarrow> owned fs p uid True = Inr () \<and> read_file fs p = Inr bs)"

lemma keep_or_publish_ok:
  "keep_or_publish NoFault uid p bs msg fs = (fs', Inr u) \<longleftrightarrow> as_written uid p bs fs \<and> fs' = add_file p (new_file uid bs) fs"
  by (auto simp: keep_or_publish_def publish_file_def as_written_def add_file_def result_simps)

lemma keep_or_publish_within:
  "as_written uid p bs fs \<Longrightarrow> fst (keep_or_publish flt uid p bs msg fs) = fs \<or> fst (keep_or_publish flt uid p bs msg fs) = add_file p (new_file uid bs) fs"
  by (auto simp: keep_or_publish_def publish_file_def as_written_def add_file_def)

lemma keep_or_publish_done:
  "keep_or_publish flt uid p bs msg fs = (fs', Inr u) \<Longrightarrow> as_written uid p bs fs \<and> fs' = add_file p (new_file uid bs) fs"
  by (cases flt) (auto simp: keep_or_publish_def publish_file_def as_written_def add_file_def result_simps split: if_splits)

lemma write_bindings_ok:
  assumes "be_permissions env = NoFault" "be_marker env = NoFault"
  shows "write_bindings env uid home bs caps fs = (fs', Inr u) \<longleftrightarrow>
    as_written uid (home @ [BINDINGS]) bs fs \<and> as_written uid (home @ [PERMISSIONS]) caps fs \<and>
    fs' = add_file (home @ [BINDINGS]) (new_file uid bs) (add_file (home @ [PERMISSIONS]) (new_file uid caps) fs)"
proof (cases "home @ [BINDINGS] \<in> dom fs")
  case True
  then have d: "home @ [BINDINGS] \<in> dom (add_file (home @ [PERMISSIONS]) f fs)" for f by simp
  show ?thesis using assms True add_file_simps(1)[OF True] add_file_simps(1)[OF d]
    by (auto simp: write_bindings_def Let_def result_simps keep_or_publish_ok)
next
  case False
  then show ?thesis using assms
    by (auto simp: write_bindings_def Let_def result_simps keep_or_publish_ok publish_file_def as_written_def add_file_def BINDINGS_def PERMISSIONS_def)
qed

lemma write_bindings_within:
  assumes "as_written uid (home @ [BINDINGS]) bs fs" "as_written uid (home @ [PERMISSIONS]) caps fs"
  shows "fst (write_bindings env uid home bs caps fs) \<subseteq>\<^sub>m
    add_file (home @ [BINDINGS]) (new_file uid bs) (add_file (home @ [PERMISSIONS]) (new_file uid caps) fs)" (is "_ \<subseteq>\<^sub>m ?all")
proof -
  let ?p = "home @ [PERMISSIONS]" and ?b = "home @ [BINDINGS]"
  have ne: "?p \<noteq> ?b" by (simp add: BINDINGS_def PERMISSIONS_def)
  have k: "(if ?b \<in> dom fs then keep_or_publish NoFault uid ?b bs msg fs else (fs, Inr ())) = (fs, Inr ())" for msg
    using assms(1) by (auto simp: keep_or_publish_def as_written_def)
  have all: "fs \<subseteq>\<^sub>m ?all" "add_file ?p (new_file uid caps) fs \<subseteq>\<^sub>m ?all" using add_file_le map_le_trans by blast+
  obtain g r where g: "keep_or_publish (be_permissions env) uid ?p caps ''runtime permission artifact differs; refusing replacement'' fs = (g, r)" by fastforce
  show ?thesis
  proof (cases r)
    case (Inl e)
    then show ?thesis using keep_or_publish_within[OF assms(2), of "be_permissions env" "''runtime permission artifact differs; refusing replacement''"] all g k
      by (auto simp: write_bindings_def Let_def)
  next
    case (Inr u)
    then have "g = add_file ?p (new_file uid caps) fs" using keep_or_publish_done g by blast
    then have e: "fst (write_bindings env uid home bs caps fs) =
        (if ?b \<in> dom fs then g else fst (publish_file (be_marker env) uid ?b bs g))" using g k Inr by (simp add: write_bindings_def Let_def)
    have "fst (publish_file (be_marker env) uid ?b bs g) = g \<or> ?b \<notin> dom g \<and> fst (publish_file (be_marker env) uid ?b bs g) = ?all"
      using \<open>g = _\<close> by (auto simp: publish_file_def add_file_def)
    then show ?thesis using e all \<open>g = _\<close> by (auto split: if_splits)
  qed
qed

lemma write_bindings_le: "fs \<subseteq>\<^sub>m fst (write_bindings env uid home bs caps fs)"
proof -
  have p: "fs0 \<subseteq>\<^sub>m fst (publish_file flt uid p bs fs)" if "fs0 \<subseteq>\<^sub>m fs" for fs0 flt p bs fs
    using that by (auto simp: publish_file_def intro: map_le_new)
  have k: "fs0 \<subseteq>\<^sub>m fst (keep_or_publish flt uid p bs msg fs)" if "fs0 \<subseteq>\<^sub>m fs" for fs0 flt p bs msg fs
    unfolding keep_or_publish_def by (intro keeping[where P = "\<lambda>g. fs0 \<subseteq>\<^sub>m g"] p) (use that in simp_all)
  show ?thesis unfolding write_bindings_def Let_def by (intro keeping[where P = "\<lambda>g. fs \<subseteq>\<^sub>m g"] p k) simp_all
qed

text \<open>What a binding reads before it writes the two files.\<close>

definition bind_ready ::
    "'z role_ext_scheme \<Rightarrow> bind_env \<Rightarrow> nat \<Rightarrow> path \<Rightarrow> path \<Rightarrow> nat \<Rightarrow> string \<Rightarrow> string \<Rightarrow> bytes \<Rightarrow> bytes \<Rightarrow> files \<Rightarrow> bool" where
  "bind_ready E env uid home auth_config worker_uid worker_nkey socket bs caps fs \<longleftrightarrow>
     (let locked = lock_file uid home fs; b = chosen_bindings uid worker_uid worker_nkey socket in
      owned fs home uid True = Inr () \<and> bindings_validate E b = Inr () \<and> owned locked (home @ [''runtime.lock'']) uid True = Inr () \<and>
      map_option fl_kind (locked (home @ [''runtime.lock''])) = Some RegularFile \<and> be_free env \<and> owned locked auth_config uid True = Inr () \<and>
      rx_canonical E home \<noteq> None \<and> rx_canonical E (parent_path auth_config) = rx_canonical E home \<and>
      (\<exists>config. config_load E (be_time env) auth_config locked = Inr config \<and> worker_nkey \<noteq> cf_control_nkey config \<and>
        worker_nkey \<noteq> sf_public_key (cf_connection config) \<and> rx_bindings E b = Some bs \<and>
        rx_capabilities E (runtime_permissions (cf_control_nkey config) worker_nkey) = Some caps))"

lemma runtime_lock_takes:
  assumes "owned fs home uid True = Inr ()" "owned (lock_file uid home fs) (home @ [''runtime.lock'']) uid True = Inr ()"
    "map_option fl_kind (lock_file uid home fs (home @ [''runtime.lock''])) = Some RegularFile"
  shows "fst (runtime_lock uid free home fs) = lock_file uid home fs" "is_ok (snd (runtime_lock uid free home fs)) = free"
  using assms by (auto simp: runtime_lock_def Let_def ensure_s_def)

lemma runtime_lock_done:
  assumes "runtime_lock uid free home fs = (g, Inr u)"
  shows "g = lock_file uid home fs" "free" "owned g (home @ [''runtime.lock'']) uid True = Inr ()"
    "map_option fl_kind (g (home @ [''runtime.lock''])) = Some RegularFile"
  using assms by (auto simp: runtime_lock_def Let_def result_simps)

lemma role_bind_ready:
  assumes "bind_ready E env uid home auth_config worker_uid worker_nkey socket bs caps fs"
  shows "role_bind E env uid home auth_config worker_uid worker_nkey socket fs = write_bindings env uid home bs caps (lock_file uid home fs)"
proof -
  note r = assms[unfolded bind_ready_def Let_def]
  have "runtime_lock uid (be_free env) home fs = (lock_file uid home fs, Inr ())"
    using r by (simp add: runtime_lock_def Let_def)
  then show ?thesis using r by (auto simp: role_bind_def Let_def)
qed

lemma role_bind_done:
  assumes "role_bind E env uid home auth_config worker_uid worker_nkey socket fs = (fs', Inr u)"
  obtains bs caps where "bind_ready E env uid home auth_config worker_uid worker_nkey socket bs caps fs"
    "write_bindings env uid home bs caps (lock_file uid home fs) = (fs', Inr u)"
proof -
  let ?b = "chosen_bindings uid worker_uid worker_nkey socket"
  obtain g config bs caps top where g: "runtime_lock uid (be_free env) home fs = (g, Inr ())"
    and r: "owned fs home uid True = Inr ()" "bindings_validate E ?b = Inr ()" "owned g auth_config uid True = Inr ()"
      "rx_canonical E (parent_path auth_config) = Some top" "rx_canonical E home = Some top" "config_load E (be_time env) auth_config g = Inr config"
      "worker_nkey \<noteq> cf_control_nkey config" "worker_nkey \<noteq> sf_public_key (cf_connection config)" "rx_bindings E ?b = Some bs"
      "rx_capabilities E (runtime_permissions (cf_control_nkey config) worker_nkey) = Some caps" "write_bindings env uid home bs caps g = (fs', Inr u)"
    using assms by (simp add: role_bind_def Let_def result_simps) blast
  note k = runtime_lock_done[OF g]
  have "bind_ready E env uid home auth_config worker_uid worker_nkey socket bs caps fs"
    using r k unfolding bind_ready_def Let_def k(1) by simp
  then show thesis using that r(11) k(1) by blast
qed

text \<open>Any state between the first one and the complete one can be completed.\<close>

lemma add_file_between:
  assumes "fs \<subseteq>\<^sub>m fs1" "fs1 \<subseteq>\<^sub>m fs0" "add_file p f fs \<subseteq>\<^sub>m fs0"
  shows "add_file p f fs \<subseteq>\<^sub>m add_file p f fs1" "add_file p f fs1 \<subseteq>\<^sub>m fs0"
proof -
  have e: "fs q = fs1 q" if "q \<in> dom fs" for q using assms(1) that by (auto simp: map_le_def)
  have e1: "fs1 q = fs0 q" if "q \<in> dom fs1" for q using assms(2) that by (auto simp: map_le_def)
  have f: "fs0 p = Some f" if "p \<notin> dom fs" by (rule map_le_read[OF assms(3)]) (use that in \<open>simp add: add_file_def\<close>)
  have d: "dom fs \<subseteq> dom fs1" using assms(1) by (rule map_le_implies_dom_le)
  show "add_file p f fs \<subseteq>\<^sub>m add_file p f fs1"
    unfolding map_le_def
  proof
    fix q assume "q \<in> dom (add_file p f fs)"
    then show "add_file p f fs q = add_file p f fs1 q"
      using e e1 f d by (cases "p \<in> dom fs"; cases "p \<in> dom fs1"; cases "q = p") (auto simp: add_file_def)
  qed
  show "add_file p f fs1 \<subseteq>\<^sub>m fs0"
    unfolding map_le_def
  proof
    fix q assume "q \<in> dom (add_file p f fs1)"
    moreover have "fs0 p = Some f" if "p \<notin> dom fs1" using f d that by blast
    ultimately show "add_file p f fs1 q = fs0 q"
      using e1 by (cases "p \<in> dom fs1"; cases "q = p") (auto simp: add_file_def)
  qed
qed

lemma as_written_within: "as_written uid p bs fs0 \<Longrightarrow> fs \<subseteq>\<^sub>m fs0 \<Longrightarrow> as_written uid p bs fs"
proof -
  assume a: "as_written uid p bs fs0" "fs \<subseteq>\<^sub>m fs0"
  have "fs p = fs0 p \<and> p \<in> dom fs0" if "p \<in> dom fs" using a(2) that by (force simp: map_le_def)
  then show ?thesis using a(1) by (auto simp: as_written_def owned_def read_file_def)
qed

lemma as_written_added: "as_written uid p bs fs \<Longrightarrow> as_written uid p bs (add_file p (new_file uid bs) fs)"
  using new_file_owned[of "add_file p (new_file uid bs) fs" p uid bs] by (cases "p \<in> dom fs") (auto simp: as_written_def add_file_def)

lemma as_written_other: "q \<noteq> p \<Longrightarrow> as_written uid p bs (add_file q f fs) = as_written uid p bs fs"
  by (auto simp: as_written_def add_file_def owned_def read_file_def)

lemma role_bind_completes:
  assumes env: "be_permissions env = NoFault" "be_marker env = NoFault"
    and first: "role_bind E env uid home auth_config worker_uid worker_nkey socket fs = (fs0, Inr ())"
    and between: "fs \<subseteq>\<^sub>m fs1" "fs1 \<subseteq>\<^sub>m fs0"
  shows "role_bind E env uid home auth_config worker_uid worker_nkey socket fs1 = (fs0, Inr ())"
proof -
  let ?b = "home @ [BINDINGS]" and ?p = "home @ [PERMISSIONS]"
  have ne: "?b \<noteq> ?p" "?p \<noteq> ?b" by (simp_all add: BINDINGS_def PERMISSIONS_def)
  obtain bs caps where r: "bind_ready E env uid home auth_config worker_uid worker_nkey socket bs caps fs"
    and w: "write_bindings env uid home bs caps (lock_file uid home fs) = (fs0, Inr ())" using first by (rule role_bind_done)
  let ?l = "lock_file uid home fs" and ?l1 = "lock_file uid home fs1"
  let ?add = "\<lambda>g. add_file ?b (new_file uid bs) (add_file ?p (new_file uid caps) g)"
  have w': "as_written uid ?b bs ?l" "as_written uid ?p caps ?l" "fs0 = ?add ?l" using w write_bindings_ok[OF env] by blast+
  have l: "?l \<subseteq>\<^sub>m fs0" using w'(3) add_file_le map_le_trans by metis
  have l1: "?l \<subseteq>\<^sub>m ?l1" "?l1 \<subseteq>\<^sub>m fs0" using add_file_between[OF between] l by (simp_all add: lock_file_def)
  have p1: "add_file ?p (new_file uid caps) ?l \<subseteq>\<^sub>m add_file ?p (new_file uid caps) ?l1" "add_file ?p (new_file uid caps) ?l1 \<subseteq>\<^sub>m fs0"
    using add_file_between[OF l1] w'(3) add_file_le by metis+
  have b1: "?add ?l \<subseteq>\<^sub>m ?add ?l1" "?add ?l1 \<subseteq>\<^sub>m fs0" using add_file_between[OF p1] w'(3) by (metis map_le_refl)+
  have eq: "?add ?l1 = fs0" using b1 w'(3) by (metis map_le_antisym)
  have s0: "as_written uid ?b bs fs0" "as_written uid ?p caps fs0"
    unfolding w'(3) using w'(1,2) as_written_added as_written_other[OF ne(1)] as_written_other[OF ne(2)] by metis+
  have "write_bindings env uid home bs caps ?l1 = (fs0, Inr ())"
    using write_bindings_ok[OF env] as_written_within[OF s0(1) l1(2)] as_written_within[OF s0(2) l1(2)] eq by metis
  moreover have "bind_ready E env uid home auth_config worker_uid worker_nkey socket bs caps fs1"
    using r owned_mono[OF _ between(1)] owned_mono[OF _ l1(1)] config_load_mono[OF _ l1(1)] map_le_read[OF l1(1)]
    by (fastforce simp: bind_ready_def Let_def)
  ultimately show ?thesis using role_bind_ready by metis
qed

lemma role_bind_within:
  assumes env: "be_permissions env0 = NoFault" "be_marker env0 = NoFault"
    and first: "role_bind E env0 uid home auth_config worker_uid worker_nkey socket fs = (fs0, Inr ())"
    and other: "role_bind E env uid home auth_config worker_uid worker_nkey socket fs = (fs1, x)"
  shows "fs \<subseteq>\<^sub>m fs1 \<and> fs1 \<subseteq>\<^sub>m fs0"
proof -
  obtain bs caps where r: "bind_ready E env0 uid home auth_config worker_uid worker_nkey socket bs caps fs"
    and w: "write_bindings env0 uid home bs caps (lock_file uid home fs) = (fs0, Inr ())" using first by (rule role_bind_done)
  let ?l = "lock_file uid home fs"
  have w': "as_written uid (home @ [BINDINGS]) bs ?l" "as_written uid (home @ [PERMISSIONS]) caps ?l"
    "fs0 = add_file (home @ [BINDINGS]) (new_file uid bs) (add_file (home @ [PERMISSIONS]) (new_file uid caps) ?l)"
    using w write_bindings_ok[OF env] by blast+
  have l: "fs \<subseteq>\<^sub>m ?l" "?l \<subseteq>\<^sub>m fs0" using w'(3) add_file_le map_le_trans unfolding lock_file_def by metis+
  obtain config where c: "config_load E (be_time env0) auth_config ?l = Inr config" "rx_capabilities E (runtime_permissions (cf_control_nkey config) worker_nkey) = Some caps"
    using r by (auto simp: bind_ready_def Let_def)
  show ?thesis
  proof (cases "be_free env \<and> (\<exists>config. config_load E (be_time env) auth_config ?l = Inr config)")
    case True
    then obtain config' where c': "config_load E (be_time env) auth_config ?l = Inr config'" by blast
    then have "config' = config" using config_load_time[OF c(1)] by blast
    then have "bind_ready E env uid home auth_config worker_uid worker_nkey socket bs caps fs"
      using r c c' True by (auto simp: bind_ready_def Let_def)
    then have "fs1 = fst (write_bindings env uid home bs caps ?l)" using other role_bind_ready by (metis fst_conv)
    then show ?thesis using write_bindings_within[OF w'(1,2)] write_bindings_le[of ?l] w'(3) l map_le_trans by metis
  next
    case False
    have f: "owned fs home uid True = Inr ()" "bindings_validate E (chosen_bindings uid worker_uid worker_nkey socket) = Inr ()"
      "owned ?l auth_config uid True = Inr ()" "rx_canonical E (parent_path auth_config) = rx_canonical E home" "rx_canonical E home \<noteq> None"
      and k: "fst (runtime_lock uid (be_free env) home fs) = ?l" "is_ok (snd (runtime_lock uid (be_free env) home fs)) = be_free env"
      using r runtime_lock_takes[of fs home uid "be_free env"] by (simp_all add: bind_ready_def Let_def)
    obtain x where x: "runtime_lock uid (be_free env) home fs = (?l, x)" using k(1) by (metis prod.collapse)
    obtain top where top: "rx_canonical E home = Some top" using f(5) by blast
    have "fs1 = ?l"
    proof (cases x)
      case (Inl e)
      then show ?thesis using other f x by (simp add: role_bind_def Let_def)
    next
      case (Inr u)
      then have "be_free env" using k(2) x by simp
      then obtain e where "config_load E (be_time env) auth_config ?l = Inl e" using False by (metis sum.exhaust)
      then show ?thesis using other f x Inr top by (simp add: role_bind_def Let_def)
    qed
    then show ?thesis using l by simp
  qed
qed

lemma role_bind_le: "fs \<subseteq>\<^sub>m fst (role_bind E env uid home auth_config worker_uid worker_nkey socket fs)"
proof -
  have l: "fs \<subseteq>\<^sub>m fst (runtime_lock uid free home g)" if "fs \<subseteq>\<^sub>m g" for free g
    unfolding runtime_lock_def Let_def lock_file_def
    by (intro keeping[where P = "\<lambda>g. fs \<subseteq>\<^sub>m g"]) (use that in \<open>auto intro: map_le_trans[OF _ add_file_le]\<close>)
  have w: "fs \<subseteq>\<^sub>m fst (write_bindings env uid home bs caps g)" if "fs \<subseteq>\<^sub>m g" for bs caps g
    using that write_bindings_le map_le_trans by blast
  show ?thesis unfolding role_bind_def Let_def by (intro keeping[where P = "\<lambda>g. fs \<subseteq>\<^sub>m g"] l w) simp_all
qed

text \<open>The bindings that were written are the ones that are loaded.\<close>

lemma role_bind_loads:
  assumes "be_permissions env = NoFault" "be_marker env = NoFault"
    "role_bind E env uid home auth_config worker_uid worker_nkey socket fs = (fs', Inr ())"
    "\<And>b bs. rx_bindings E b = Some bs \<Longrightarrow> rx_un_bindings E bs = Some b"
  shows "bindings_load E uid home fs' = Inr (chosen_bindings uid worker_uid worker_nkey socket)"
proof -
  obtain bs caps where r: "bind_ready E env uid home auth_config worker_uid worker_nkey socket bs caps fs"
    and w: "write_bindings env uid home bs caps (lock_file uid home fs) = (fs', Inr ())" using assms(3) by (rule role_bind_done)
  let ?b = "chosen_bindings uid worker_uid worker_nkey socket" and ?p = "home @ [BINDINGS]"
  have v: "bindings_validate E ?b = Inr ()" "rx_un_bindings E bs = Some ?b" "owned fs home uid True = Inr ()"
    using r assms(4) by (auto simp: bind_ready_def Let_def)
  have w': "as_written uid ?p bs (lock_file uid home fs)"
    "fs' = add_file ?p (new_file uid bs) (add_file (home @ [PERMISSIONS]) (new_file uid caps) (lock_file uid home fs))"
    using w write_bindings_ok[OF assms(1,2)] by blast+
  have "as_written uid ?p bs (add_file (home @ [PERMISSIONS]) (new_file uid caps) (lock_file uid home fs))"
    using w'(1) by (simp add: as_written_other BINDINGS_def PERMISSIONS_def)
  then have "as_written uid ?p bs fs'" unfolding w'(2) by (rule as_written_added)
  moreover have "?p \<in> dom fs'" by (simp add: w'(2))
  ultimately have "owned fs' ?p uid True = Inr ()" "read_file fs' ?p = Inr bs" by (simp_all add: as_written_def)
  moreover have "owned fs' home uid True = Inr ()" using owned_mono[OF v(3)] role_bind_le[of fs E env uid home auth_config worker_uid worker_nkey socket] assms(3) by simp
  ultimately show ?thesis using v by (simp add: bindings_load_def chosen_bindings_def)
qed

end
