(* ===== verification/Setup_Properties.thy ===== *)
theory Setup_Properties
  imports Session_Properties Roles
begin

text \<open>
  The properties of the credential vault and of the set-up of the two backend roles, each with an instance
  on which its hypotheses hold.
\<close>

section \<open>A concrete vault\<close>

definition vault_ext :: secret_ext where
  "vault_ext = \<lparr>sha256 = s_sha256, nkey_ok = (\<lambda>k. True), nkey_verify = (\<lambda>k m s. True), sx_xkey = (\<lambda>s. None),
     sx_pair = (\<lambda>s. if s = ''q'' then Some (UserKey, ''UWORKER'') else None)\<rparr>"

definition id1 :: string where
  "id1 = CHR ''U'' # replicate 55 (CHR ''A'')"

definition vault_env1 :: vault_env where
  "vault_env1 = \<lparr>ve_ready = True, ve_lock = True, ve_id = id1, ve_secret = Inr ''q'', ve_save_slot = NoFault, ve_read = NoFault,
     ve_create = NoFault, ve_readback = NoFault, ve_save_key = NoFault\<rparr>"

definition vault0 :: vault where
  "vault0 = \<lparr>va_file = None, va_keyring = \<lparr>kr_items = [], kr_locked = False\<rparr>\<rparr>"

definition vault1 :: vault where
  "vault1 = \<lparr>va_file = Some \<lparr>md_version = 1, md_slots = [(''worker'', \<lparr>sl_id = id1, sl_kind = KindUser, sl_public_key = Some ''UWORKER''\<rparr>)]\<rparr>,
     va_keyring = \<lparr>kr_items = [\<lparr>ki_id = id1, ki_locked = False, ki_secret = as_bytes ''q''\<rparr>], kr_locked = False\<rparr>\<rparr>"

definition worker_ref1 :: secret_ref where
  "worker_ref1 = \<lparr>sf_id = id1, sf_kind = KindUser, sf_public_key = ''UWORKER''\<rparr>"

lemma id1_ok: "credential_id_ok id1 = Inr ()"
  by (simp add: credential_id_ok_def id1_def starts_with_def is_ascii_uppercase_def list_all_iff byte_of_def)

lemma vault_ensure1:
  "vault_ensure vault_ext vault_env1 ''worker'' KindUser None vault0 = (vault1, Inr worker_ref1)"
  "vault_ensure vault_ext vault_env1 ''worker'' KindUser None vault1 = (vault1, Inr worker_ref1)"
  by (simp_all add: vault_ensure_def vault0_def vault1_def vault_env1_def worker_ref1_def vault_ext_def stored_slots_def reserve_slot_def save_metadata_def
      id1_ok on_keyring_def keyring_run_def keyring_operate_def create_secret_def settle_slot_def kind_public_def q_utf8 Let_def)

section \<open>The vault\<close>

text \<open>C14: A role has one credential for good: two calls of \<open>provision\<close> or \<open>import\<close> for the same role that succeed, with any
  calls, interruptions and changes of the keyring by others in between, give the same reference, and its secret is in the keyring.\<close>

theorem vault_stable:
  assumes "vault_ensure E env role k imported v = (v1, Inr ref)"
    and "foldl (vault_step E) v1 events = v2"
    and "vault_ensure E env' role k' imported' v2 = (v3, Inr ref')"
  shows "ref' = ref \<and> k' = k \<and> (\<exists>secret. secret_at (sf_id ref) v3 = Some secret \<and> kind_public E k secret = Inr (sf_public_key ref))"
proof -
  note a = vault_ensure_ok[OF assms(1)] and b = vault_ensure_ok[OF assms(3)]
  have "vault_le v1 v2" using vault_run.run_le[of events v1 E] assms(2) by (simp add: list_all_iff)
  moreover have "vault_le v2 v3" using vault_ensure_keeps[OF assms(3)] by (simp add: vault_keeps_def)
  ultimately have "vault_le v1 v3" by (rule vault_le_trans)
  then have "sf_id ref' = sf_id ref \<and> k' = k \<and> sf_public_key ref' = sf_public_key ref" using a b unfolding vault_le_def by fastforce
  then show ?thesis using a b by (metis (full_types) secret_ref.equality unit.exhaust)
qed

theorem vault_stable_witness:
  "\<exists>v3. vault_ensure vault_ext vault_env1 ''worker'' KindUser None
      (foldl (vault_step vault_ext) vault1 [VaultCall (vault_env1\<lparr>ve_save_key := FaultBefore\<rparr>) ''worker'' KindUser None,
        KeyringChange (va_keyring vault1)]) = (v3, Inr worker_ref1) \<and> secret_at id1 v3 = Some ''q''"
proof -
  have "fst (vault_ensure vault_ext (vault_env1\<lparr>ve_save_key := FaultBefore\<rparr>) ''worker'' KindUser None vault1) = vault1"
    by (simp add: vault_ensure_def vault1_def vault_env1_def vault_ext_def stored_slots_def reserve_slot_def save_metadata_def id1_ok on_keyring_def
        keyring_run_def keyring_operate_def settle_slot_def kind_public_def q_utf8)
  then have f: "foldl (vault_step vault_ext) vault1 [VaultCall (vault_env1\<lparr>ve_save_key := FaultBefore\<rparr>) ''worker'' KindUser None,
      KeyringChange (va_keyring vault1)] = vault1" by simp
  from vault_stable[OF vault_ensure1(1) f vault_ensure1(2)] obtain s where
    "secret_at id1 vault1 = Some s" "kind_public vault_ext KindUser s = Inr ''UWORKER''" by (auto simp: worker_ref1_def)
  then have "secret_at id1 vault1 = Some ''q''" by (auto simp: kind_public_def vault_ext_def result_simps split: if_splits)
  then show ?thesis using f vault_ensure1(2) by auto
qed

text \<open>C15: A credential is never replaced: whatever fails, the items of the keyring stay and at most new ones are added; once the
  public key of a role is recorded no secret is ever created for it again, so that a lost secret is an error; and an import that
  succeeds has recorded the identity of the secret that was imported.\<close>

theorem vault_never_replaces:
  assumes "vault_ensure E env role k imported v = (w, r)"
  shows "(\<exists>new. kr_items (va_keyring w) = kr_items (va_keyring v) @ new) \<and>
    (\<forall>sl key. slot_of v role = Some sl \<and> sl_public_key sl = Some key \<longrightarrow>
       va_keyring w = va_keyring v \<and> (secret_at (sl_id sl) v = None \<longrightarrow> (\<exists>e. r = Inl e))) \<and>
    (\<forall>secret ref. imported = Some secret \<and> r = Inr ref \<longrightarrow> kind_public E k secret = Inr (sf_public_key ref))"
proof (intro conjI allI impI)
  show "\<exists>new. kr_items (va_keyring w) = kr_items (va_keyring v) @ new"
    using vault_ensure_keeps[OF assms] by (simp add: vault_keeps_def keyring_le_def)
next
  fix sl key assume "slot_of v role = Some sl \<and> sl_public_key sl = Some key"
  then show "va_keyring w = va_keyring v" using vault_ensure_established(1)[OF assms] by blast
next
  fix sl key assume "slot_of v role = Some sl \<and> sl_public_key sl = Some key" "secret_at (sl_id sl) v = None"
  then show "\<exists>e. r = Inl e" using vault_ensure_established(2)[OF assms] by blast
next
  fix secret ref assume "imported = Some secret \<and> r = Inr ref"
  then show "kind_public E k secret = Inr (sf_public_key ref)" using assms vault_ensure_imported by blast
qed

theorem vault_never_replaces_witness:
  "\<exists>e. snd (vault_ensure vault_ext vault_env1 ''worker'' KindUser None (vault1\<lparr>va_keyring := \<lparr>kr_items = [], kr_locked = False\<rparr>\<rparr>)) = Inl e"
proof -
  let ?v = "vault1\<lparr>va_keyring := \<lparr>kr_items = [], kr_locked = False\<rparr>\<rparr>"
  obtain w r where e: "vault_ensure vault_ext vault_env1 ''worker'' KindUser None ?v = (w, r)" by fastforce
  have "slot_of ?v ''worker'' = Some \<lparr>sl_id = id1, sl_kind = KindUser, sl_public_key = Some ''UWORKER''\<rparr>"
    by (simp add: slot_of_def vault1_def)
  moreover have "secret_at id1 ?v = None" by (simp add: secret_at_def keyring_run_def keyring_operate_def id1_ok)
  ultimately have "\<exists>e. r = Inl e" using vault_never_replaces[OF e] by (metis slot.select_convs(1,3))
  then show ?thesis using e by simp
qed

section \<open>Binding the roles\<close>

text \<open>C20: Binding the roles is restartable: when an undisturbed binding would succeed, one that fails or stops at any point has
  replaced no file, and repeating the binding leads to the files of the undisturbed one, from which the authority loads the
  bindings that were chosen.\<close>

theorem role_bind_restartable:
  assumes "be_permissions env = NoFault" "be_marker env = NoFault"
    and "role_bind E env uid home auth_config worker_uid worker_nkey socket fs = (fs0, Inr ())"
    and "role_bind E env' uid home auth_config worker_uid worker_nkey socket fs = (fs1, r)"
    and "\<And>b bs. rx_bindings E b = Some bs \<Longrightarrow> rx_un_bindings E bs = Some b"
  shows "fs \<subseteq>\<^sub>m fs1 \<and> role_bind E env uid home auth_config worker_uid worker_nkey socket fs1 = (fs0, Inr ()) \<and>
    bindings_load E uid home fs0 = Inr \<lparr>bn_version = IPC_VERSION, bn_authority_uid = uid, bn_worker_uid = worker_uid,
      bn_worker_nkey = worker_nkey, bn_socket = socket\<rparr>"
proof -
  have w: "fs \<subseteq>\<^sub>m fs1" "fs1 \<subseteq>\<^sub>m fs0" using role_bind_within[OF assms(1-4)] by simp_all
  then show ?thesis using role_bind_completes[OF assms(1-3) w] role_bind_loads[OF assms(1-3,5)] by (simp add: chosen_bindings_def)
qed

text \<open>Bindings are coded by the one value that occurs.\<close>

definition sample_roles :: role_ext where
  "sample_roles = jwt_ext.extend x_ext (role_ext.fields (\<lambda>b. if b = bindings1 then Some [1] else None)
     (\<lambda>bs. if bs = [1] then Some bindings1 else None) (\<lambda>c. Some [2]) (\<lambda>bs. if bs = [3] then Some config1 else None)
     (\<lambda>w. None) (\<lambda>bs. None) (\<lambda>p. Some p))"

lemma sample_roles_simps [simp]:
  "co_key_type sample_roles k = Some (if k = ''NSERVER'' then ServerKey else UserKey)"
  "rx_bindings sample_roles b = (if b = bindings1 then Some [1] else None)" "rx_un_bindings sample_roles bs = (if bs = [1] then Some bindings1 else None)"
  "rx_capabilities sample_roles c = Some [2]" "rx_config sample_roles bs = (if bs = [3] then Some config1 else None)" "rx_canonical sample_roles p = Some p"
  by (simp_all add: sample_roles_def jwt_ext.extend_def role_ext.fields_def x_ext_def coded_ext_def authority_ext.extend_def jwt_ext.fields_def full_ext_def s_ext_def
      authority_ext.fields_def)

definition home1 :: path where
  "home1 = [''home'']"

definition files1 :: files where
  "files1 = [home1 \<mapsto> \<lparr>fl_kind = DirectoryFile, fl_uid = 1000, fl_mode = 448, fl_bytes = []\<rparr>,
     home1 @ [''auth.json''] \<mapsto> new_file 1000 [3]]"

definition bind_env1 :: bind_env where
  "bind_env1 = \<lparr>be_free = True, be_time = Some 0, be_permissions = NoFault, be_marker = NoFault\<rparr>"

definition bound1 :: files where
  "bound1 = files1(home1 @ [''runtime.lock''] \<mapsto> new_file 1000 [], home1 @ [PERMISSIONS] \<mapsto> new_file 1000 [2], home1 @ [BINDINGS] \<mapsto> new_file 1000 [1])"

lemma role_bind1:
  "role_bind sample_roles bind_env1 1000 home1 [''home'', ''auth.json''] 1001 ''UWORKER'' ''/run/e'' files1 = (bound1, Inr ())"
proof -
  have b: "chosen_bindings 1000 1001 ''UWORKER'' ''/run/e'' = bindings1" by (simp add: chosen_bindings_def bindings1_def IPC_VERSION_def)
  have v: "bindings_validate sample_roles bindings1 = Inr ()" by (simp add: bindings_validate_def bindings1_def IPC_VERSION_def starts_with_def)
  have c: "load_inner sample_roles t False config1 = Inr config1" for t
    by (simp add: load_inner_def config1_def secret1_def target_account_ok_def is_ascii_uppercase_def byte_of_def)
  show ?thesis
    by (simp add: role_bind_def b v files1_def home1_def owned_def runtime_lock_def lock_file_def add_file_def new_file_def private_mode_def bind_env1_def
        parent_path_def config_load_def read_file_def c write_bindings_def keep_or_publish_def publish_file_def BINDINGS_def PERMISSIONS_def bound1_def)
      (simp add: config1_def secret1_def)
qed

theorem role_bind_restartable_witness:
  "\<exists>fs1 e. role_bind sample_roles (bind_env1\<lparr>be_marker := FaultBefore\<rparr>) 1000 home1 [''home'', ''auth.json''] 1001 ''UWORKER'' ''/run/e'' files1 = (fs1, e) \<and>
     role_bind sample_roles bind_env1 1000 home1 [''home'', ''auth.json''] 1001 ''UWORKER'' ''/run/e'' fs1 = (bound1, Inr ()) \<and>
     bindings_load sample_roles 1000 home1 bound1 = Inr bindings1"
proof -
  obtain fs1 r where r: "role_bind sample_roles (bind_env1\<lparr>be_marker := FaultBefore\<rparr>) 1000 home1 [''home'', ''auth.json''] 1001 ''UWORKER'' ''/run/e'' files1 = (fs1, r)"
    by fastforce
  have f: "be_permissions bind_env1 = NoFault" "be_marker bind_env1 = NoFault" by (simp_all add: bind_env1_def)
  have j: "rx_un_bindings sample_roles bs = Some b" if "rx_bindings sample_roles b = Some bs" for b bs using that by (simp split: if_splits)
  have b: "\<lparr>bn_version = IPC_VERSION, bn_authority_uid = 1000, bn_worker_uid = 1001, bn_worker_nkey = ''UWORKER'', bn_socket = ''/run/e''\<rparr> = bindings1"
    by (simp add: bindings1_def IPC_VERSION_def)
  from role_bind_restartable[OF f role_bind1 r j, unfolded b] show ?thesis using r by blast
qed

end
