(* ===== verification/Deployment.thy ===== *)
theory Deployment
  imports Roles "HOL-Library.List_Lexorder" "HOL-Library.Char_ord"
begin

text \<open>
  The public deployment contract (\<open>deployment.rs\<close>) and the transport policy (\<open>tls.rs\<close>): the manifest with
  its declared replicas and capacity, the stream configurations that follow from it, the comparison of an
  observed stream with them, and the endpoints that a profile allows. A stream configuration has the
  fields that the source sets or compares; those whose structure it never looks into are opaque texts. The
  values of a mismatch, shown to people only, are left out.
\<close>

section \<open>Stream configurations\<close>

datatype storage_type = FileStorage | MemoryStorage

datatype retention_policy = LimitsRetention | InterestRetention | WorkQueueRetention

datatype discard_policy = DiscardOld | DiscardNew

record stream_config =
  st_name :: string
  st_subjects :: "string list"
  st_storage :: storage_type
  st_retention :: retention_policy
  st_num_replicas :: nat
  st_max_message_size :: int
  st_max_messages :: int
  st_max_bytes :: int
  st_max_messages_per_subject :: int
  st_max_consumers :: int
  st_discard :: discard_policy
  st_discard_new_per_subject :: bool
  st_max_age :: nat
  st_no_ack :: bool
  st_persist_async :: bool
  st_sealed :: bool
  st_template_owner :: string
  st_allow_rollup :: bool
  st_deny_delete :: bool
  st_deny_purge :: bool
  st_allow_direct :: bool
  st_republish :: "string option"
  st_mirror :: "string option"
  st_sources :: "string list option"
  st_mirror_direct :: bool
  st_subject_transform :: "string option"
  st_allow_message_ttl :: bool
  st_subject_delete_marker_ttl :: "nat option"
  st_pause_until :: "string option"
  st_allow_message_schedules :: bool
  st_allow_message_counter :: bool
  st_consumer_limits :: "(nat \<times> int) option"

text \<open>\<open>Config::default()\<close>.\<close>

definition default_stream :: stream_config where
  "default_stream = \<lparr>st_name = [], st_subjects = [], st_storage = FileStorage, st_retention = LimitsRetention, st_num_replicas = 0,
     st_max_message_size = 0, st_max_messages = 0, st_max_bytes = 0, st_max_messages_per_subject = 0, st_max_consumers = 0,
     st_discard = DiscardOld, st_discard_new_per_subject = False, st_max_age = 0, st_no_ack = False, st_persist_async = False,
     st_sealed = False, st_template_owner = [], st_allow_rollup = False, st_deny_delete = False, st_deny_purge = False,
     st_allow_direct = False, st_republish = None, st_mirror = None, st_sources = None, st_mirror_direct = False,
     st_subject_transform = None, st_allow_message_ttl = False, st_subject_delete_marker_ttl = None, st_pause_until = None,
     st_allow_message_schedules = False, st_allow_message_counter = False, st_consumer_limits = None\<rparr>"

section \<open>The manifest\<close>

record manifest =
  mf_version :: nat
  mf_replicas :: nat
  mf_capacity :: "capacity option"

definition manifest_new :: "nat \<Rightarrow> manifest result" where
  "manifest_new replicas =
     ensure (replicas = 1 \<or> replicas = 3) ''deployment replicas must be 1 or 3''
     (Inr \<lparr>mf_version = 1, mf_replicas = replicas, mf_capacity = None\<rparr>)"

definition manifest_bounded :: "nat \<Rightarrow> capacity \<Rightarrow> manifest result" where
  "manifest_bounded replicas c =
     bind_r (capacity_validate c) (\<lambda>_.
     bind_r (manifest_new replicas) (\<lambda>m. Inr (m\<lparr>mf_version := 2, mf_capacity := Some c\<rparr>)))"

definition manifest_of_input :: "manifest \<Rightarrow> manifest result" where
  "manifest_of_input input =
     (case (mf_version input, mf_capacity input) of
        (version, None) \<Rightarrow>
          if version = 1 then manifest_new (mf_replicas input) else Inl (Anyhow ''unsupported deployment manifest version/capacity'')
      | (version, Some c) \<Rightarrow>
          if version = 2 then manifest_bounded (mf_replicas input) c else Inl (Anyhow ''unsupported deployment manifest version/capacity''))"

definition MANIFEST_FILE :: string where
  "MANIFEST_FILE = ''deployment.json''"

definition CAPACITY_FILE :: string where
  "CAPACITY_FILE = ''capacity.json''"

record deploy_ext = role_ext +
  dx_manifest :: "bytes \<Rightarrow> manifest option"
  dx_capacity :: "bytes \<Rightarrow> capacity option"
  dx_addr :: "string \<Rightarrow> (string option \<times> string option \<times> bool) option"

definition capacity_load :: "'z deploy_ext_scheme \<Rightarrow> path \<Rightarrow> files \<Rightarrow> capacity result" where
  "capacity_load E home fs =
     bind_r (read_file fs (home @ [CAPACITY_FILE])) (\<lambda>bs.
     ensure (length bs \<le> 8192) ''capacity file too large''
     (bind_r (or_err (dx_capacity E bs) (Extern ''serde_json'')) (\<lambda>policy.
      bind_r (capacity_validate policy) (\<lambda>_. Inr policy))))"

definition manifest_load :: "'z deploy_ext_scheme \<Rightarrow> path \<Rightarrow> files \<Rightarrow> manifest result" where
  "manifest_load E home fs =
     bind_r (read_file fs (home @ [MANIFEST_FILE])) (\<lambda>bs.
     bind_r (or_err (dx_manifest E bs) (Extern ''serde_json'')) (\<lambda>input.
     bind_r (manifest_of_input input) (\<lambda>m.
     bind_r (capacity_load E home fs) (\<lambda>policy.
     case mf_capacity m of
       Some declared \<Rightarrow> ensure (declared = policy) ''capacity differs from deployment manifest'' (Inr m)
     | None \<Rightarrow> manifest_bounded (mf_replicas m) policy))))"

section \<open>Resources\<close>

definition stream_resource :: "nat \<Rightarrow> string \<times> string list \<Rightarrow> stream_config" where
  "stream_resource replicas x = default_stream\<lparr>st_name := fst x, st_subjects := snd x, st_storage := FileStorage, st_retention := LimitsRetention,
     st_num_replicas := replicas, st_max_message_size := 65536, st_max_messages := -1, st_max_bytes := -1,
     st_max_messages_per_subject := -1, st_max_consumers := -1\<rparr>"

definition bucket_resource :: "nat \<Rightarrow> string \<Rightarrow> stream_config" where
  "bucket_resource replicas name = default_stream\<lparr>st_name := ''KV_'' @ name, st_subjects := [''$KV.'' @ name @ ''.>''],
     st_storage := FileStorage, st_retention := LimitsRetention, st_num_replicas := replicas, st_max_messages_per_subject := 1,
     st_max_message_size := (if name = ''TRANSPARENCY'' then 65536 else -1), st_max_messages := -1, st_max_bytes := -1,
     st_max_consumers := -1, st_discard := DiscardNew, st_allow_rollup := True, st_deny_delete := True, st_allow_direct := True\<rparr>"

definition resource_budget :: "capacity \<Rightarrow> string \<Rightarrow> nat" where
  "resource_budget c name =
     (if name = ''CHAT'' then chat_bytes c else if name = ''MAILBOX'' then mailbox_bytes c
      else if name = ''KV_IDENTITIES'' then directory_bytes c else if name = ''KV_CHANNELS'' then channels_bytes c
      else transparency_bytes c)"

text \<open>The policy of a bounded manifest is validated, so the casts of the source to \<open>i64\<close> and \<open>i32\<close> are exact.\<close>

definition bounded_resource :: "capacity \<Rightarrow> stream_config \<Rightarrow> stream_config" where
  "bounded_resource c config = config\<lparr>st_max_bytes := int (resource_budget c (st_name config)),
     st_max_consumers := (if starts_with ''KV_'' (st_name config) then 8 else int (retained_devices c)),
     st_discard := DiscardNew, st_max_message_size := 65536\<rparr>"

definition resources :: "manifest \<Rightarrow> stream_config list" where
  "resources m =
     (let all = map (stream_resource (mf_replicas m))
            [(''CHAT'', [''epochgrid.v1.group.*.message'', ''epochgrid.v1.group.*.handshake'']), (''MAILBOX'', [''epochgrid.v1.user.*.*.inbox''])] @
          map (bucket_resource (mf_replicas m)) [''IDENTITIES'', ''CHANNELS'', ''TRANSPARENCY''] in
      case mf_capacity m of None \<Rightarrow> all | Some c \<Rightarrow> map (bounded_resource c) all)"

section \<open>Comparison\<close>

definition unlimited :: "int \<Rightarrow> bool" where
  "unlimited v \<longleftrightarrow> v = -1 \<or> v = 0"

definition issue :: "bool \<Rightarrow> string \<Rightarrow> string list" where
  "issue fine field = (if fine then [] else [field])"

definition common_issues :: "bool \<Rightarrow> stream_config \<Rightarrow> stream_config \<Rightarrow> string list" where
  "common_issues capped ex ob =
     issue (st_name ex = st_name ob) ''name'' @
     issue (sort (st_subjects ob) = sort (st_subjects ex)) ''subjects'' @
     issue (st_storage ex = st_storage ob) ''storage'' @
     issue (st_retention ex = st_retention ob) ''retention'' @
     issue (st_num_replicas ex = st_num_replicas ob) ''num_replicas'' @
     issue (st_discard ex = st_discard ob) ''discard'' @
     (if capped then issue (st_max_bytes ex = st_max_bytes ob) ''max_bytes'' @
        issue (st_max_consumers ex = st_max_consumers ob) ''max_consumers'' @
        issue (st_max_message_size ex = st_max_message_size ob) ''max_message_size'' else []) @
     issue (st_discard_new_per_subject ex = st_discard_new_per_subject ob) ''discard_new_per_subject'' @
     issue (st_max_age ex = st_max_age ob) ''max_age'' @
     issue (st_no_ack ex = st_no_ack ob) ''no_ack'' @
     issue (\<not> st_persist_async ob) ''persist_mode''"

definition feature_issues :: "stream_config \<Rightarrow> stream_config \<Rightarrow> string list" where
  "feature_issues ex ob =
     issue (st_sealed ex = st_sealed ob) ''sealed'' @
     issue (st_template_owner ex = st_template_owner ob) ''template_owner'' @
     issue (st_allow_rollup ex = st_allow_rollup ob) ''allow_rollup'' @
     issue (st_republish ex = st_republish ob) ''republish'' @
     issue (st_mirror ex = st_mirror ob) ''mirror'' @
     issue (st_sources ob = None \<or> st_sources ob = Some []) ''sources'' @
     issue (st_mirror_direct ex = st_mirror_direct ob) ''mirror_direct'' @
     issue (st_subject_transform ex = st_subject_transform ob) ''subject_transform'' @
     issue (st_allow_message_ttl ex = st_allow_message_ttl ob) ''allow_message_ttl'' @
     issue (st_subject_delete_marker_ttl ex = st_subject_delete_marker_ttl ob) ''subject_delete_marker_ttl'' @
     issue (st_pause_until ex = st_pause_until ob) ''pause_until'' @
     issue (st_allow_message_schedules ex = st_allow_message_schedules ob) ''allow_message_schedules'' @
     issue (st_allow_message_counter ex = st_allow_message_counter ob) ''allow_message_counter''"

definition limit_issues :: "string \<Rightarrow> stream_config \<Rightarrow> stream_config \<Rightarrow> string list" where
  "limit_issues resource ex ob =
     (if starts_with ''KV_'' resource then
        issue (st_max_messages_per_subject ex = st_max_messages_per_subject ob) ''max_messages_per_subject'' @
        issue (st_deny_delete ex = st_deny_delete ob) ''deny_delete'' @
        issue (st_deny_purge ex = st_deny_purge ob) ''deny_purge'' @
        issue (st_allow_direct ex = st_allow_direct ob) ''allow_direct''
      else if \<not> unlimited (st_max_messages_per_subject ob)
      then issue (st_max_messages_per_subject ex = st_max_messages_per_subject ob) ''max_messages_per_subject'' else []) @
     (if resource = ''KV_IDENTITIES'' \<or> resource = ''KV_CHANNELS''
      then issue (unlimited (st_max_message_size ob) \<or> 65536 \<le> st_max_message_size ob) ''max_message_size''
      else issue (st_max_message_size ex = st_max_message_size ob) ''max_message_size'') @
     issue (-1 \<le> st_max_bytes ob) ''max_bytes'' @
     issue (-1 \<le> st_max_messages ob) ''max_messages'' @
     issue (-1 \<le> st_max_consumers ob) ''max_consumers'' @
     issue (case st_consumer_limits ob of None \<Rightarrow> True | Some (threshold, pending) \<Rightarrow> threshold = 0 \<and> -1 \<le> pending) ''consumer_limits''"

record resource_mismatch =
  rm_resource :: string
  rm_field :: string

definition compare_resource :: "manifest \<Rightarrow> string \<Rightarrow> stream_config \<Rightarrow> resource_mismatch list result" where
  "compare_resource m resource ob =
     bind_r (or_err (find (\<lambda>c. st_name c = resource) (resources m)) (Anyhow ''unknown deployment resource'')) (\<lambda>ex.
     Inr (map (\<lambda>field. \<lparr>rm_resource = resource, rm_field = field\<rparr>)
       (common_issues (mf_capacity m \<noteq> None) ex ob @ feature_issues ex ob @ limit_issues resource ex ob)))"

section \<open>Transport policy\<close>

datatype profile = Production | Development

datatype minimum_version = Tls12 | Tls13

record tls_config =
  tl_profile :: profile
  tl_ca_path :: "string option"
  tl_minimum :: minimum_version
  tl_first :: bool

definition from_lookup :: "(string \<Rightarrow> string option result) \<Rightarrow> tls_config result" where
  "from_lookup get =
     bind_r (get ''EPOCHGRID_PROFILE'') (\<lambda>p.
     let p = (case p of Some s \<Rightarrow> s | None \<Rightarrow> ''production'') in
     bind_r (if p = ''production'' then Inr Production else if p = ''development'' then Inr Development
       else Inl (Anyhow ''EPOCHGRID_PROFILE must be production or development'')) (\<lambda>profile.
     bind_r (get ''EPOCHGRID_TLS_MIN_VERSION'') (\<lambda>v.
     let v = (case v of Some s \<Rightarrow> s | None \<Rightarrow> ''1.3'') in
     bind_r (if v = ''1.2'' then Inr Tls12 else if v = ''1.3'' then Inr Tls13
       else Inl (Anyhow ''EPOCHGRID_TLS_MIN_VERSION must be 1.2 or 1.3'')) (\<lambda>minimum.
     bind_r (get ''EPOCHGRID_TLS_FIRST'') (\<lambda>f.
     let f = (case f of Some s \<Rightarrow> s | None \<Rightarrow> ''false'') in
     bind_r (if f = ''true'' then Inr True else if f = ''false'' then Inr False
       else Inl (Anyhow ''EPOCHGRID_TLS_FIRST must be true or false'')) (\<lambda>first.
     bind_r (get ''EPOCHGRID_TLS_CA_PATH'') (\<lambda>ca_path.
     ensure (ca_path \<noteq> Some []) ''EPOCHGRID_TLS_CA_PATH cannot be empty''
     (Inr \<lparr>tl_profile = profile, tl_ca_path = ca_path, tl_minimum = minimum, tl_first = first\<rparr>))))))))"

definition validate_endpoint :: "'z deploy_ext_scheme \<Rightarrow> tls_config \<Rightarrow> string \<Rightarrow> bool result" where
  "validate_endpoint E tls url =
     ensure (starts_with ''tls://'' url \<or> starts_with ''nats://'' url) ''use an explicit tls:// endpoint (nats:// only in development)''
     (bind_r (or_err (dx_addr E url) (Anyhow ''invalid NATS endpoint'')) (\<lambda>(username, password, required).
      ensure (username = None \<and> password = None) ''endpoint URLs must not contain credentials''
      (ensure (required \<or> tl_profile tls = Development) ''production requires tls://''
      (ensure (required \<or> \<not> tl_first tls) ''TLS-first requires a tls:// endpoint''
      (ensure (required \<or> tl_ca_path tls = None) ''a CA bundle requires a tls:// endpoint'' (Inr required))))))"

definition check_transport :: "'z deploy_ext_scheme \<Rightarrow> (string \<Rightarrow> string option result) \<Rightarrow> callout_config \<Rightarrow> string \<Rightarrow> unit result" where
  "check_transport E get config url =
     bind_r (from_lookup get) (\<lambda>tls.
     bind_r (validate_endpoint E tls url) (\<lambda>_.
     ensure (\<not> cf_development_plaintext config \<or> tl_profile tls = Development) ''development_plaintext requires EPOCHGRID_PROFILE=development''
     (ensure (cf_development_plaintext config \<or> starts_with ''tls://'' url) ''TLS required; development_plaintext is a development-only bypass''
     (Inr ()))))"

text \<open>
  \<open>client_config\<close> up to the protocol versions: the certificates of the configured bundle, or of the platform, each read or
  refused; \<open>bundle\<close> is the bundle's certificates, \<open>None\<close> when the file cannot be read.
\<close>

definition validate_local :: "tls_config \<Rightarrow> (string \<Rightarrow> bool list option) \<Rightarrow> bool list option \<Rightarrow> unit result" where
  "validate_local tls bundle platform =
     bind_r (case tl_ca_path tls of
         Some p \<Rightarrow> or_err (bundle p) (Anyhow ''read EPOCHGRID_TLS_CA_PATH'')
       | None \<Rightarrow> or_err platform (Anyhow ''platform trust store could not be loaded'')) (\<lambda>certificates.
     ensure (list_all id certificates) ''invalid CA certificate''
     (ensure (certificates \<noteq> []) ''TLS trust store contains no certificates'' (Inr ())))"

section \<open>Correctness of the comparison\<close>

lemma issue_Nil [simp]: "issue fine field = [] \<longleftrightarrow> fine"
  by (simp add: issue_def)

lemma resource_names: "map st_name (resources m) = [''CHAT'', ''MAILBOX'', ''KV_IDENTITIES'', ''KV_CHANNELS'', ''KV_TRANSPARENCY'']"
  by (simp add: resources_def Let_def stream_resource_def bucket_resource_def bounded_resource_def default_stream_def split: option.split)

lemma distinct_resources: "distinct (map st_name (resources m))"
  unfolding resource_names by simp

lemma find_resource:
  assumes "c \<in> set (resources m)"
  shows "find (\<lambda>x. st_name x = st_name c) (resources m) = Some c"
proof -
  have "find (\<lambda>x. f x = f c) xs = Some c" if "c \<in> set xs" "distinct (map f xs)" for f :: "stream_config \<Rightarrow> string" and xs
    using that by (induction xs) (auto simp: rev_image_eqI)
  then show ?thesis using assms distinct_resources by blast
qed

lemma compare_clean:
  "compare_resource m resource ob = Inr [] \<longleftrightarrow>
    (\<exists>ex \<in> set (resources m). st_name ex = resource \<and> common_issues (mf_capacity m \<noteq> None) ex ob = [] \<and>
      feature_issues ex ob = [] \<and> limit_issues resource ex ob = [])"
proof -
  have "find (\<lambda>c. st_name c = resource) (resources m) = Some ex \<longleftrightarrow> ex \<in> set (resources m) \<and> st_name ex = resource" for ex
    using find_resource[of ex m] by (auto simp: find_Some_iff)
  then show ?thesis by (auto simp: compare_resource_def result_simps)
qed

lemma resource_cases:
  assumes "ex \<in> set (resources m)"
  obtains (stream) "\<not> starts_with ''KV_'' (st_name ex)" "st_max_messages_per_subject ex = -1" "st_max_message_size ex = 65536" "\<not> st_allow_rollup ex"
      "mf_capacity m = None \<Longrightarrow> st_discard ex = DiscardOld"
  | (bucket) "starts_with ''KV_'' (st_name ex)" "st_max_messages_per_subject ex = 1" "st_deny_delete ex" "st_discard ex = DiscardNew"
      "st_name ex = ''KV_TRANSPARENCY'' \<Longrightarrow> st_max_message_size ex = 65536"
  using assms that
  by (auto simp: resources_def Let_def stream_resource_def bucket_resource_def bounded_resource_def default_stream_def starts_with_def split: option.splits)

lemma resource_fields:
  assumes "ex \<in> set (resources m)"
  shows "st_storage ex = FileStorage" "st_retention ex = LimitsRetention" "st_num_replicas ex = mf_replicas m" "st_max_age ex = 0"
    "\<not> st_no_ack ex" "\<not> st_persist_async ex" "\<not> st_sealed ex" "st_mirror ex = None" "st_sources ex = None" "st_republish ex = None"
    "st_subject_transform ex = None" "st_pause_until ex = None" "st_consumer_limits ex = None"
    "-1 \<le> st_max_bytes ex" "-1 \<le> st_max_messages ex" "-1 \<le> st_max_consumers ex"
    "mf_capacity m = Some c \<Longrightarrow> st_max_bytes ex = int (resource_budget c (st_name ex)) \<and> st_discard ex = DiscardNew \<and> st_max_message_size ex = 65536"
  using assms
  by (auto simp: resources_def Let_def stream_resource_def bucket_resource_def bounded_resource_def default_stream_def split: option.splits)

end
