(* ===== verification/Validation.thy ===== *)
theory Validation
  imports Deployment "HOL-Library.Sublist"
begin

text \<open>
  Validation of a deployment (\<open>validation.rs\<close>, \<open>validation/online.rs\<close>, \<open>validate\<close> of
  \<open>epochgrid-service/src/roles.rs\<close>). A report is a list of checks with their status; the texts of a check for
  people (expected, observed, remediation) are left out, since only status and requirement decide the
  outcome. The files, the decoded credential metadata, what the inspection of the encrypted databases
  (\<open>database/inspection.rs\<close>) finds and what the broker answers are arguments.
\<close>

unbundle bit_operations_syntax

section \<open>Reports\<close>

datatype check_status = CheckPassed | CheckFailed | NotChecked

record check =
  ck_id :: string
  ck_status :: check_status
  ck_required :: bool

record validation_report =
  vr_version :: nat
  vr_mode :: string
  vr_success :: bool
  vr_checks :: "check list"

definition outcome :: "check list \<Rightarrow> bool" where
  "outcome cs \<longleftrightarrow> list_all (\<lambda>c. ck_status c = CheckPassed) (filter ck_required cs)"

definition make_report :: "string \<Rightarrow> check list \<Rightarrow> validation_report" where
  "make_report mode cs = \<lparr>vr_version = 1, vr_mode = mode, vr_success = outcome cs, vr_checks = cs\<rparr>"

definition validation_parse :: "(bytes \<Rightarrow> validation_report option) \<Rightarrow> bytes \<Rightarrow> validation_report result" where
  "validation_parse un_json bs =
     bind_r (or_err (un_json bs) (Extern ''serde_json'')) (\<lambda>rep.
     ensure (vr_version rep = 1 \<and> vr_mode rep \<in> {''offline'', ''online'', ''startup''}) ''unsupported validation report''
     (ensure (length (remdups (map ck_id (vr_checks rep))) = length (vr_checks rep) \<and> vr_checks rep \<noteq> []) ''invalid validation checks''
     (ensure (vr_success rep = outcome (vr_checks rep)) ''inconsistent validation outcome'' (Inr rep))))"

text \<open>\<open>Report::check\<close> and \<open>Report::skip\<close>, as the check that they append.\<close>

definition ran_check :: "string \<Rightarrow> 'a result \<Rightarrow> check" where
  "ran_check i r = \<lparr>ck_id = i, ck_status = (if is_ok r then CheckPassed else CheckFailed), ck_required = True\<rparr>"

definition skipped :: "string \<Rightarrow> bool \<Rightarrow> check" where
  "skipped i required = \<lparr>ck_id = i, ck_status = NotChecked, ck_required = required\<rparr>"

definition ran_or_skipped :: "bool \<Rightarrow> string \<Rightarrow> 'a result \<Rightarrow> check" where
  "ran_or_skipped can i r = (if can then ran_check i r else skipped i True)"

definition value_of :: "'a result \<Rightarrow> 'a option" where
  "value_of r = (case r of Inr x \<Rightarrow> Some x | Inl _ \<Rightarrow> None)"

section \<open>Local checks\<close>

definition private_path :: "files \<Rightarrow> nat \<Rightarrow> path \<Rightarrow> bool \<Rightarrow> unit result" where
  "private_path fs uid p directory =
     bind_r (or_err (fs p) (Extern ''not found'')) (\<lambda>m.
     ensure (fl_kind m = (if directory then DirectoryFile else RegularFile)) ''unsafe_file_type''
     (ensure (fl_uid m = uid) ''wrong_file_owner''
     (ensure (fl_mode m AND 63 = 0) ''permissions_too_open''
     (let required = (if directory then 320 else 256) in
      ensure (fl_mode m AND required = required) ''permissions_insufficient'' (Inr ())))))"

definition state_files :: "string \<Rightarrow> (string \<times> string) list" where
  "state_files r = [(''credentials'', ''credentials.json''), (''metadata'', r @ ''.database.json''), (''database'', r @ ''.sqlite'')]"

definition sidecars :: "string \<Rightarrow> (string \<times> string) list" where
  "sidecars r = map (\<lambda>e. (e, r @ ''.sqlite-'' @ e)) [''wal'', ''shm'', ''journal'']"

definition permission_check :: "files \<Rightarrow> nat \<Rightarrow> path \<Rightarrow> string \<Rightarrow> string \<times> string \<Rightarrow> check" where
  "permission_check fs uid base pre x = ran_check (''local.permissions.'' @ pre @ ''.'' @ fst x) (private_path fs uid (base @ [snd x]) False)"

text \<open>\<open>files\<close>: the checks that it appends, and whether the files may be inspected. A missing file may; a sidecar is checked when present.\<close>

definition file_checks :: "files \<Rightarrow> nat \<Rightarrow> path \<Rightarrow> string \<Rightarrow> string \<Rightarrow> check list \<times> bool" where
  "file_checks fs uid base r pre =
     (let present = filter (\<lambda>x. base @ [snd x] \<in> dom fs) (sidecars r) in
      (map (permission_check fs uid base pre) (state_files r) @ map (permission_check fs uid base pre) present,
       list_all (\<lambda>x. is_ok (private_path fs uid (base @ [snd x]) False) \<or> base @ [snd x] \<notin> dom fs) (state_files r) \<and>
       list_all (\<lambda>x. is_ok (private_path fs uid (base @ [snd x]) False)) present))"

record offline_env =
  oe_uid :: nat
  oe_time :: "int option"
  oe_vault :: vault
  oe_control_vault :: vault
  oe_keyring :: "string \<Rightarrow> fault"
  oe_registry :: "registry result"
  oe_pager :: rpager
  oe_auth_database :: "unit result"
  oe_control_database :: "string \<Rightarrow> unit result"
  oe_lookup :: "string \<Rightarrow> string option result"
  oe_bundle :: "string \<Rightarrow> bool list option"
  oe_platform :: "bool list option"

definition inspect_config :: "'z deploy_ext_scheme \<Rightarrow> offline_env \<Rightarrow> path \<Rightarrow> path \<Rightarrow> files \<Rightarrow> callout_config result" where
  "inspect_config E env home auth_config fs =
     bind_r (private_path fs (oe_uid env) auth_config False) (\<lambda>_.
     bind_r (or_err (rx_canonical E (parent_path auth_config)) (Extern ''canonicalize'')) (\<lambda>parent.
     bind_r (or_err (rx_canonical E home) (Extern ''canonicalize'')) (\<lambda>base.
     ensure (parent = base) ''auth_config_location''
     (bind_r (read_file fs auth_config) (\<lambda>bs.
      bind_r (or_err (rx_config E bs) (Extern ''serde_json'')) (\<lambda>parsed.
      bind_r (load_inner E (oe_time env) True parsed) (\<lambda>config.
      ensure (\<not> (case cf_operator_jwt config of None \<Rightarrow> False | Some operator \<Rightarrow> oj_connection_jwt operator = [])) ''operator_setup_incomplete''
      (Inr config))))))))"

definition inspect_manifest :: "'z deploy_ext_scheme \<Rightarrow> offline_env \<Rightarrow> path \<Rightarrow> files \<Rightarrow> manifest result" where
  "inspect_manifest E env home fs =
     bind_r (private_path fs (oe_uid env) (home @ [MANIFEST_FILE]) False) (\<lambda>_. manifest_load E home fs)"

definition inspect_capacity :: "'z deploy_ext_scheme \<Rightarrow> offline_env \<Rightarrow> path \<Rightarrow> files \<Rightarrow> unit result" where
  "inspect_capacity E env home fs =
     bind_r (private_path fs (oe_uid env) (home @ [CAPACITY_FILE]) False) (\<lambda>_.
     bind_r (capacity_load E home fs) (\<lambda>policy.
     bind_r (capacity_validate policy) (\<lambda>_.
     bind_r (oe_registry env) (\<lambda>r. check_registry (oe_pager env) (r\<lparr>rg_capacity := policy\<rparr>)))))"

text \<open>The six established credentials: check, vault, role in the vault and kind.\<close>

definition credential_roles :: "(string \<times> bool \<times> string \<times> secret_kind) list" where
  "credential_roles =
     [(''issuer'', False, ''issuer'', KindAccount), (''encryption'', False, ''encryption'', KindXKey),
      (''connection'', False, ''connection'', KindUser), (''auth_database'', False, ''database-auth'', KindDatabase),
      (''control'', True, ''device'', KindUser), (''control_database'', True, ''database-identity'', KindDatabase)]"

definition expected_reference :: "callout_config \<Rightarrow> string \<Rightarrow> secret_ref option" where
  "expected_reference config i =
     (if i = ''issuer'' then Some (cf_issuer config) else if i = ''encryption'' then Some (cf_encryption config)
      else if i = ''connection'' then Some (cf_connection config) else None)"

definition inspect_credential ::
    "'y secret_ext_scheme \<Rightarrow> offline_env \<Rightarrow> callout_config option \<Rightarrow> string \<times> bool \<times> string \<times> secret_kind \<Rightarrow> secret_ref result" where
  "inspect_credential S env config x =
     (case x of (i, control, r, k) \<Rightarrow>
      bind_r (snd (vault_existing S (oe_keyring env i) r k (if control then oe_control_vault env else oe_vault env))) (\<lambda>ref.
      case config of
        None \<Rightarrow> Inr ref
      | Some c \<Rightarrow>
          ensure (case expected_reference c i of None \<Rightarrow> True | Some expected \<Rightarrow> expected = ref) ''credential_binding_mismatch''
          (if i = ''control'' then ensure (sf_public_key ref = cf_control_nkey c) ''control_identity_mismatch'' (Inr ref) else Inr ref)))"

definition independent :: "secret_ref list \<Rightarrow> unit result" where
  "independent refs = ensure (length (remdups (map sf_id refs)) = 6 \<and> length (remdups (map sf_public_key refs)) = 6) ''credential_reuse'' (Inr ())"

definition inspect_tls :: "offline_env \<Rightarrow> callout_config option \<Rightarrow> tls_config result" where
  "inspect_tls env config =
     bind_r (from_lookup (oe_lookup env)) (\<lambda>tls.
     bind_r (validate_local tls (oe_bundle env) (oe_platform env)) (\<lambda>_.
     ensure (case config of None \<Rightarrow> True | Some c \<Rightarrow> \<not> cf_development_plaintext c \<or> tl_profile tls = Development)
       ''development_transport_in_production'' (Inr tls)))"

definition inspect_endpoint :: "'z deploy_ext_scheme \<Rightarrow> offline_env \<Rightarrow> tls_config \<Rightarrow> callout_config \<Rightarrow> string \<Rightarrow> unit result" where
  "inspect_endpoint E env tls config endpoint =
     bind_r (validate_endpoint E tls endpoint) (\<lambda>_. check_transport E (oe_lookup env) config endpoint)"

definition endpoint_check ::
    "'z deploy_ext_scheme \<Rightarrow> offline_env \<Rightarrow> tls_config option \<Rightarrow> callout_config option \<Rightarrow> string option \<Rightarrow> check" where
  "endpoint_check E env tls config endpoint =
     (case endpoint of
        None \<Rightarrow> skipped ''local.transport.endpoint'' False
      | Some e \<Rightarrow>
          (case (tls, config) of
             (Some t, Some c) \<Rightarrow> ran_check ''local.transport.endpoint'' (inspect_endpoint E env t c e)
           | _ \<Rightarrow> skipped ''local.transport.endpoint'' True))"

text \<open>\<open>offline\<close>: the checks before the credentials, with what they decide, and the rest.\<close>

record local_state =
  ls_config :: "callout_config option"
  ls_auth_files :: bool
  ls_control_files :: bool

definition file_stage :: "'z deploy_ext_scheme \<Rightarrow> offline_env \<Rightarrow> path \<Rightarrow> path \<Rightarrow> files \<Rightarrow> check list \<times> local_state" where
  "file_stage E env home auth_config fs =
     (let uid = oe_uid env;
          home_result = private_path fs uid home True;
          home_ok = is_ok home_result;
          config_result = inspect_config E env home auth_config fs;
          auth_files = (if home_ok then file_checks fs uid home ''auth'' ''auth'' else ([], False));
          control_root = home @ [''control''];
          control_result = private_path fs uid control_root True;
          control_ok = (home_ok \<and> is_ok control_result);
          control_files = (if control_ok then file_checks fs uid control_root ''identity'' ''control'' else ([], False)) in
      ([ran_check ''local.home'' home_result,
        ran_or_skipped home_ok ''local.auth_config'' config_result,
        ran_or_skipped home_ok ''local.deployment_manifest'' (inspect_manifest E env home fs),
        ran_check ''local.capacity'' (inspect_capacity E env home fs)] @
       fst auth_files @
       [ran_or_skipped home_ok ''local.control_home'' control_result] @
       fst control_files,
       \<lparr>ls_config = (if home_ok then value_of config_result else None), ls_auth_files = snd auth_files, ls_control_files = snd control_files\<rparr>))"

definition credential_ready :: "local_state \<Rightarrow> string \<times> bool \<times> string \<times> secret_kind \<Rightarrow> bool" where
  "credential_ready st x = (if fst (snd x) then ls_control_files st else ls_auth_files st)"

definition credential_check ::
    "'y secret_ext_scheme \<Rightarrow> offline_env \<Rightarrow> local_state \<Rightarrow> string \<times> bool \<times> string \<times> secret_kind \<Rightarrow> check" where
  "credential_check S env st x = ran_or_skipped (credential_ready st x) (''local.credentials.'' @ fst x) (inspect_credential S env (ls_config st) x)"

definition references :: "'y secret_ext_scheme \<Rightarrow> offline_env \<Rightarrow> local_state \<Rightarrow> secret_ref list" where
  "references S env st =
     List.map_filter (\<lambda>x. if credential_ready st x then value_of (inspect_credential S env (ls_config st) x) else None) credential_roles"

definition credential_stage :: "'y secret_ext_scheme \<Rightarrow> offline_env \<Rightarrow> local_state \<Rightarrow> check list" where
  "credential_stage S env st =
     map (credential_check S env st) credential_roles @
     [ran_or_skipped (length (references S env st) = 6) ''local.credentials.independent'' (independent (references S env st))]"

definition final_stage ::
    "'z deploy_ext_scheme \<Rightarrow> offline_env \<Rightarrow> string option \<Rightarrow> local_state \<Rightarrow> check list" where
  "final_stage E env endpoint st =
     (let tls_result = inspect_tls env (ls_config st) in
      [ran_or_skipped (ls_auth_files st) ''local.database.auth'' (oe_auth_database env),
       (case ls_config st of
          Some c \<Rightarrow> ran_or_skipped (ls_control_files st) ''local.database.control'' (oe_control_database env (cf_control_nkey c))
        | None \<Rightarrow> skipped ''local.database.control'' True),
       ran_check ''local.transport.inputs'' tls_result,
       endpoint_check E env (value_of tls_result) (ls_config st) endpoint,
       skipped ''coverage.network'' False,
       skipped ''coverage.operator'' False])"

definition offline_checks ::
    "'z deploy_ext_scheme \<Rightarrow> 'y secret_ext_scheme \<Rightarrow> offline_env \<Rightarrow> path \<Rightarrow> path \<Rightarrow> string option \<Rightarrow> files \<Rightarrow> check list" where
  "offline_checks E S env home auth_config endpoint fs =
     (case file_stage E env home auth_config fs of (cs, st) \<Rightarrow> cs @ credential_stage S env st @ final_stage E env endpoint st)"

definition offline ::
    "'z deploy_ext_scheme \<Rightarrow> 'y secret_ext_scheme \<Rightarrow> offline_env \<Rightarrow> path \<Rightarrow> path \<Rightarrow> string option \<Rightarrow> files \<Rightarrow> validation_report" where
  "offline E S env home auth_config endpoint fs = make_report ''offline'' (offline_checks E S env home auth_config endpoint fs)"

section \<open>Inspection of the broker\<close>

record peer_info =
  pe_current :: bool
  pe_offline :: bool
  pe_lag :: "nat option"

record cluster_info =
  cu_leader :: "string option"
  cu_replicas :: "peer_info list"

definition healthy :: "cluster_info option \<Rightarrow> nat \<Rightarrow> bool" where
  "healthy cluster replicas =
     (case cluster of
        None \<Rightarrow> replicas = 1
      | Some c \<Rightarrow> (case cu_leader c of None \<Rightarrow> False | Some v \<Rightarrow> v \<noteq> []) \<and> length (cu_replicas c) = replicas - 1 \<and>
          list_all (\<lambda>p. pe_current p \<and> \<not> pe_offline p \<and> (case pe_lag p of None \<Rightarrow> 0 | Some n \<Rightarrow> n) = 0) (cu_replicas c))"

text \<open>A decoded answer of the JetStream API: an error with its code, an account, a stream, or another value.\<close>

record stream_info =
  in_config :: stream_config
  in_cluster :: "cluster_info option"

datatype api_value = ApiError "nat option" | ApiAccount | ApiStream stream_info | ApiOther

datatype request_outcome = RequestElapsed | NoResponders | RequestTimedOut | RequestFailed | Answered bytes

text \<open>A request as it ran: whether a permission error was recorded before it and after it, and its outcome.\<close>

record request_run =
  rq_denied_before :: bool
  rq_outcome :: request_outcome
  rq_denied_after :: bool

definition monitor_failure :: "bool \<Rightarrow> string \<Rightarrow> string" where
  "monitor_failure denied fallback = (if denied then ''permission_denied'' else fallback)"

definition api_request :: "(bytes \<Rightarrow> api_value option) \<Rightarrow> request_run \<Rightarrow> string + api_value" where
  "api_request un_json rq =
     (if rq_denied_before rq then Inl ''permission_denied''
      else case rq_outcome rq of
          RequestElapsed \<Rightarrow> Inl (monitor_failure (rq_denied_after rq) ''timeout'')
        | NoResponders \<Rightarrow> Inl (monitor_failure (rq_denied_after rq) ''service_unavailable'')
        | RequestTimedOut \<Rightarrow> Inl (monitor_failure (rq_denied_after rq) ''timeout'')
        | RequestFailed \<Rightarrow> Inl (monitor_failure (rq_denied_after rq) ''request_failed'')
        | Answered payload \<Rightarrow>
            (case un_json payload of
               None \<Rightarrow> Inl ''response_invalid''
             | Some (ApiError code) \<Rightarrow>
                 Inl (if code = Some 401 \<or> code = Some 403 then ''permission_denied'' else if code = Some 404 then ''resource_missing''
                   else if code = Some 503 then ''service_unavailable'' else ''inspection_failed'')
             | Some v \<Rightarrow> Inr v))"

text \<open>\<open>record\<close> of \<open>online.rs\<close>, as the check that it appends.\<close>

definition recorded :: "string \<Rightarrow> bool \<Rightarrow> check" where
  "recorded i fine = \<lparr>ck_id = i, ck_status = (if fine then CheckPassed else CheckFailed), ck_required = True\<rparr>"

record broker_view =
  bv_decode :: "bytes \<Rightarrow> api_value option"
  bv_request :: "string \<Rightarrow> request_run"
  bv_server_version :: string
  bv_max_payload :: nat

definition account_ok :: "broker_view \<Rightarrow> bool" where
  "account_ok B \<longleftrightarrow> api_request (bv_decode B) (bv_request B ''$JS.API.INFO'') = Inr ApiAccount"

definition server_ok :: "broker_view \<Rightarrow> bool" where
  "server_ok B \<longleftrightarrow> bv_server_version B = ''2.14.5'' \<and> bv_max_payload B = 65536"

definition stream_answer :: "broker_view \<Rightarrow> string \<Rightarrow> stream_info option" where
  "stream_answer B name =
     (case api_request (bv_decode B) (bv_request B (''$JS.API.STREAM.INFO.'' @ name)) of Inr (ApiStream info) \<Rightarrow> Some info | _ \<Rightarrow> None)"

definition resource_checks :: "broker_view \<Rightarrow> manifest \<Rightarrow> string \<Rightarrow> stream_config \<Rightarrow> check list" where
  "resource_checks B m pre ex =
     (let i = pre @ ''.resources.'' @ st_name ex in
      case stream_answer B (st_name ex) of
        None \<Rightarrow> [recorded i False, skipped (i @ ''.replicas'') True]
      | Some info \<Rightarrow>
          [recorded i (compare_resource m (st_name ex) (in_config info) = Inr []),
           recorded (i @ ''.replicas'') (healthy (in_cluster info) (mf_replicas m))])"

text \<open>\<open>resources\<close>: the checks that are appended after each request, for the account and then for every resource.\<close>

definition resource_steps :: "broker_view \<Rightarrow> manifest \<Rightarrow> string \<Rightarrow> check list list" where
  "resource_steps B m pre =
     [recorded (pre @ ''.jetstream'') (account_ok B), recorded (pre @ ''.server'') (server_ok B)] #
     map (resource_checks B m pre) (resources m)"

text \<open>A run of steps under a deadline: all of them, or those before the deadline and a failed check for it.\<close>

definition until_deadline :: "string \<Rightarrow> nat option \<Rightarrow> check list list \<Rightarrow> check list" where
  "until_deadline i deadline steps =
     (case deadline of None \<Rightarrow> concat steps | Some n \<Rightarrow> concat (take n steps) @ [recorded i False])"

definition inspect_resources :: "broker_view \<Rightarrow> manifest \<Rightarrow> nat option \<Rightarrow> validation_report" where
  "inspect_resources B m deadline = make_report ''startup'' (until_deadline ''startup.deadline'' deadline (resource_steps B m ''startup''))"

section \<open>Online validation\<close>

text \<open>
  What happens at one endpoint: whether connection options could be built from the credentials, whether the authentication
  service connected and flushed, whether the control identity was admitted, and the broker that answers it.
\<close>

record endpoint_run =
  er_options :: bool
  er_auth :: bool
  er_control :: bool
  er_broker :: broker_view

definition endpoint_prefix :: "nat \<Rightarrow> string" where
  "endpoint_prefix n = ''online.endpoints.'' @ decimal_text n"

definition endpoint_steps ::
    "'z deploy_ext_scheme \<Rightarrow> offline_env \<Rightarrow> callout_config \<Rightarrow> manifest \<Rightarrow> (nat \<Rightarrow> endpoint_run) \<Rightarrow> nat \<times> string \<Rightarrow> check list list" where
  "endpoint_steps E env config m run x =
     (case x of (n, endpoint) \<Rightarrow>
      let pre = endpoint_prefix n in
      if \<not> (is_ok (check_transport E (oe_lookup env) config endpoint) \<and> er_options (run n)) then [[recorded (pre @ ''.transport'') False]]
      else [recorded (pre @ ''.auth'') (er_auth (run n))] #
        (if er_control (run n) then resource_steps (er_broker (run n)) m pre else [[recorded (pre @ ''.control'') False]]))"

record online_env =
  on_offline :: offline_env
  on_device :: fault
  on_seed :: bool
  on_run :: "nat \<Rightarrow> endpoint_run"
  on_deadline :: "nat option"

text \<open>The inputs that are read again after the local checks passed; \<open>on_seed\<close> tells whether the seed was read and decoded.\<close>

definition online_inputs ::
    "'z deploy_ext_scheme \<Rightarrow> 'y secret_ext_scheme \<Rightarrow> online_env \<Rightarrow> path \<Rightarrow> path \<Rightarrow> files \<Rightarrow> (callout_config \<times> manifest) result" where
  "online_inputs E S env home auth_config fs =
     bind_r (config_load E (oe_time (on_offline env)) auth_config fs) (\<lambda>config.
     bind_r (manifest_load E home fs) (\<lambda>m.
     bind_r (snd (vault_existing S (on_device env) ''device'' KindUser (oe_control_vault (on_offline env)))) (\<lambda>ref.
     ensure (sf_public_key ref = cf_control_nkey config) ''control binding changed''
     (ensure (on_seed env) ''seed'' (Inr (config, m))))))"

definition local_checks ::
    "'z deploy_ext_scheme \<Rightarrow> 'y secret_ext_scheme \<Rightarrow> online_env \<Rightarrow> path \<Rightarrow> path \<Rightarrow> string list \<Rightarrow> files \<Rightarrow> check list" where
  "local_checks E S env home auth_config endpoints fs =
     filter (\<lambda>c. ck_id c \<noteq> ''coverage.network'' \<and> ck_id c \<noteq> ''local.transport.endpoint'')
       (vr_checks (offline E S (on_offline env) home auth_config None fs)) @
     [recorded ''online.endpoints'' (endpoints \<noteq> [] \<and> length endpoints \<le> 8)]"

definition online ::
    "'z deploy_ext_scheme \<Rightarrow> 'y secret_ext_scheme \<Rightarrow> online_env \<Rightarrow> path \<Rightarrow> path \<Rightarrow> string list \<Rightarrow> files \<Rightarrow> validation_report" where
  "online E S env home auth_config endpoints fs =
     (let cs = local_checks E S env home auth_config endpoints fs in
      make_report ''online''
        (if \<not> outcome cs then cs @ [skipped ''coverage.network'' True]
         else case online_inputs E S env home auth_config fs of
             Inl _ \<Rightarrow> cs @ [recorded ''online.credentials'' False]
           | Inr (config, m) \<Rightarrow>
               cs @ until_deadline ''online.deadline'' (on_deadline env)
                 (concat (map (endpoint_steps E (on_offline env) config m (on_run env)) (enumerate 0 endpoints))) @
               [skipped ''coverage.discovery'' False]))"

section \<open>Validation of a role\<close>

definition role_checks ::
    "bindings result \<Rightarrow> bool \<Rightarrow> bool option \<Rightarrow> bool \<Rightarrow> (bindings \<Rightarrow> bool result) \<Rightarrow> check list" where
  "role_checks config trust endpoint online_mode inspection =
     (let live = (if online_mode then (case config of Inr b \<Rightarrow> value_of (inspection b) | Inl _ \<Rightarrow> None) else None) in
      [ran_check ''local.backend_role'' config, recorded ''local.role_trust'' trust] @
      (case endpoint of None \<Rightarrow> [] | Some fine \<Rightarrow> [recorded ''local.role_transport'' fine]) @
      [\<lparr>ck_id = ''runtime.backend_role'',
         ck_status = (if \<not> online_mode then NotChecked else if live = Some True then CheckPassed else CheckFailed), ck_required = online_mode\<rparr>,
       skipped ''coverage.role_network'' False])"

definition role_validate ::
    "'z deploy_ext_scheme \<Rightarrow> 'y secret_ext_scheme \<Rightarrow> ipc_ext \<Rightarrow> offline_env \<Rightarrow> path \<Rightarrow> bool \<Rightarrow> bool \<Rightarrow> string option \<Rightarrow> nat option
      \<Rightarrow> (bytes \<Rightarrow> bytes option) \<Rightarrow> files \<Rightarrow> validation_report" where
  "role_validate E S X env home worker_role online_mode endpoint peer reply fs =
     (let config = (if worker_role
            then bind_r (load_worker_config E S (oe_keyring env ''worker'') (oe_uid env) home (oe_vault env) fs) (\<lambda>c. Inr (wc_bindings c))
            else bindings_load E (oe_uid env) home fs);
          tls = from_lookup (oe_lookup env) in
      make_report (if online_mode then ''online'' else ''offline'')
        (role_checks config (is_ok (bind_r tls (\<lambda>t. validate_local t (oe_bundle env) (oe_platform env))))
          (map_option (\<lambda>e. is_ok (bind_r tls (\<lambda>t. validate_endpoint E t e))) endpoint) online_mode (\<lambda>b. inspect X b peer reply)))"

section \<open>The checks of a report have distinct identifiers\<close>

lemma ck_fields [simp]:
  "ck_id (ran_check i r) = i" "ck_id (skipped i required) = i" "ck_id (recorded i fine) = i" "ck_id (ran_or_skipped can i r) = i"
  "ck_required (ran_check i r)" "ck_required (recorded i fine)" "ck_required (skipped i required) = required" "ck_required (ran_or_skipped can i r)"
  "ck_status (ran_check i r) = CheckPassed \<longleftrightarrow> is_ok r" "ck_status (recorded i fine) = CheckPassed \<longleftrightarrow> fine" "ck_status (skipped i required) \<noteq> CheckPassed"
  "ck_status (ran_or_skipped can i r) = CheckPassed \<longleftrightarrow> can \<and> is_ok r"
  by (simp_all add: ran_check_def skipped_def recorded_def ran_or_skipped_def)

lemma outcome_iff: "outcome cs \<longleftrightarrow> (\<forall>c \<in> set cs. ck_required c \<longrightarrow> ck_status c = CheckPassed)"
  by (auto simp: outcome_def list_all_iff)

lemma subseq_distinct: "subseq xs ys \<Longrightarrow> distinct ys \<Longrightarrow> distinct xs"
  by (auto simp: subseq_conv_nths)

lemma make_report_parses:
  assumes "distinct (map ck_id cs)" "cs \<noteq> []" "mode \<in> {''offline'', ''online'', ''startup''}" "un_json bs = Some (make_report mode cs)"
  shows "validation_parse un_json bs = Inr (make_report mode cs)"
  using assms by (auto simp: validation_parse_def make_report_def distinct_remdups_id)

definition permission_ids :: "string \<Rightarrow> string list" where
  "permission_ids pre = map (\<lambda>x. ''local.permissions.'' @ pre @ ''.'' @ x) [''credentials'', ''metadata'', ''database'', ''wal'', ''shm'', ''journal'']"

definition offline_ids :: "string list" where
  "offline_ids = [''local.home'', ''local.auth_config'', ''local.deployment_manifest'', ''local.capacity''] @ permission_ids ''auth'' @
     [''local.control_home''] @ permission_ids ''control'' @ map (\<lambda>x. ''local.credentials.'' @ fst x) credential_roles @
     [''local.credentials.independent'', ''local.database.auth'', ''local.database.control'', ''local.transport.inputs'',
      ''local.transport.endpoint'', ''coverage.network'', ''coverage.operator'']"

lemma file_checks_ids: "subseq (map ck_id (fst (file_checks fs uid base r pre))) (permission_ids pre)"
proof -
  let ?f = "\<lambda>x. ''local.permissions.'' @ pre @ ''.'' @ fst x"
  have "map ck_id (fst (file_checks fs uid base r pre)) =
      map ?f (state_files r) @ map ?f (filter (\<lambda>x. base @ [snd x] \<in> dom fs) (sidecars r))"
    by (simp add: file_checks_def Let_def permission_check_def)
  moreover have "permission_ids pre = map ?f (state_files r) @ map ?f (sidecars r)"
    by (simp add: permission_ids_def state_files_def sidecars_def)
  ultimately show ?thesis by (simp add: subseq_append' subseq_map)
qed

lemma offline_checks_ids: "subseq (map ck_id (offline_checks E S env home auth_config endpoint fs)) offline_ids"
proof -
  obtain cs st where st: "file_stage E env home auth_config fs = (cs, st)" by fastforce
  let ?first = "[''local.home'', ''local.auth_config'', ''local.deployment_manifest'', ''local.capacity'']"
  let ?last = "[''local.database.auth'', ''local.database.control'', ''local.transport.inputs'', ''local.transport.endpoint'', ''coverage.network'', ''coverage.operator'']"
  obtain as bs where "map ck_id cs = ?first @ as @ [''local.control_home''] @ bs" "subseq as (permission_ids ''auth'')" "subseq bs (permission_ids ''control'')"
    using st file_checks_ids by (fastforce simp: file_stage_def Let_def split: if_splits)
  then have "subseq (map ck_id cs) (?first @ permission_ids ''auth'' @ [''local.control_home''] @ permission_ids ''control'')"
    by (simp only: list_emb_append_mono subseq_order.order_refl)
  moreover have "map ck_id (credential_stage S env st) = map (\<lambda>x. ''local.credentials.'' @ fst x) credential_roles @ [''local.credentials.independent'']"
    by (simp add: credential_stage_def credential_check_def)
  moreover have "map ck_id (final_stage E env endpoint st) = ?last"
    by (simp add: final_stage_def Let_def endpoint_check_def split: option.split)
  ultimately have "subseq (map ck_id cs @ map ck_id (credential_stage S env st) @ map ck_id (final_stage E env endpoint st))
      ((?first @ permission_ids ''auth'' @ [''local.control_home''] @ permission_ids ''control'') @
       (map (\<lambda>x. ''local.credentials.'' @ fst x) credential_roles @ [''local.credentials.independent'']) @ ?last)"
    by (metis list_emb_append_mono subseq_order.order_refl)
  then show ?thesis by (simp add: offline_checks_def st offline_ids_def)
qed

lemma offline_ids_distinct: "distinct offline_ids"
  by (simp add: offline_ids_def permission_ids_def credential_roles_def)

section \<open>Identifiers of the online checks\<close>

definition resource_suffixes :: "string list" where
  "resource_suffixes = [''.jetstream'', ''.server''] @
     concat (map (\<lambda>r. [''.resources.'' @ r, ''.resources.'' @ r @ ''.replicas'']) [''CHAT'', ''MAILBOX'', ''KV_IDENTITIES'', ''KV_CHANNELS'', ''KV_TRANSPARENCY''])"

definition endpoint_suffixes :: "string list" where
  "endpoint_suffixes = [''.transport'', ''.auth'', ''.control''] @ resource_suffixes"

lemma resource_steps_ids: "map ck_id (concat (resource_steps B m pre)) = map (\<lambda>x. pre @ x) resource_suffixes"
proof -
  have "map ck_id (resource_checks B m pre ex) = [pre @ ''.resources.'' @ st_name ex, pre @ ''.resources.'' @ st_name ex @ ''.replicas'']" for ex
    by (simp add: resource_checks_def Let_def split: option.split)
  then have "map ck_id (concat (map (resource_checks B m pre) xs)) =
      concat (map (\<lambda>r. [pre @ ''.resources.'' @ r, pre @ ''.resources.'' @ r @ ''.replicas'']) (map st_name xs))" for xs
    by (induction xs) simp_all
  from this[of "resources m"] show ?thesis unfolding resource_names by (simp add: resource_steps_def resource_suffixes_def)
qed

lemma endpoint_steps_ids:
  "subseq (map ck_id (concat (endpoint_steps E env config m run (n, endpoint)))) (map (\<lambda>x. endpoint_prefix n @ x) endpoint_suffixes)"
proof -
  let ?p = "\<lambda>x. endpoint_prefix n @ x"
  have "subseq (?p ''.auth'' # map ?p resource_suffixes) (map ?p endpoint_suffixes)" by (simp add: endpoint_suffixes_def list_emb_Cons)
  moreover have "subseq [?p ''.transport''] (map ?p endpoint_suffixes)" "subseq [?p ''.auth'', ?p ''.control''] (map ?p endpoint_suffixes)"
    by (simp_all add: endpoint_suffixes_def)
  ultimately show ?thesis
    by (simp add: endpoint_steps_def Let_def resource_steps_ids[unfolded map_concat] map_concat)
qed

lemma until_deadline_ids: "subseq (map ck_id (until_deadline i deadline steps)) (map ck_id (concat steps) @ [i])"
proof (cases deadline)
  case (Some n)
  have "concat steps = concat (take n steps) @ concat (drop n steps)" by (metis append_take_drop_id concat_append)
  then have "subseq (map ck_id (concat (take n steps))) (map ck_id (concat steps))" by (metis map_append subseq_rev_drop_many subseq_order.order_refl)
  then show ?thesis using Some by (simp add: until_deadline_def list_emb_append_mono)
qed (simp add: until_deadline_def subseq_rev_drop_many)

lemma endpoints_ids:
  assumes "k + length endpoints \<le> n"
  shows "subseq (map ck_id (concat (concat (map (endpoint_steps E env config m run) (enumerate k endpoints)))))
    (concat (map (\<lambda>i. map (\<lambda>x. endpoint_prefix i @ x) endpoint_suffixes) [k..<n]))"
  using assms
proof (induction endpoints arbitrary: k)
  case (Cons e endpoints)
  then have "[k..<n] = k # [Suc k..<n]" by (simp add: upt_conv_Cons)
  then show ?case using Cons endpoint_steps_ids[of E env config m run k e] by (simp add: list_emb_append_mono)
qed simp

definition online_ids :: "string list \<Rightarrow> string list" where
  "online_ids middle = filter (\<lambda>i. i \<noteq> ''coverage.network'' \<and> i \<noteq> ''local.transport.endpoint'') offline_ids @
     [''online.endpoints'', ''coverage.network'', ''online.credentials''] @ middle @ [''online.deadline'', ''coverage.discovery'']"

definition endpoint_ids :: "string list" where
  "endpoint_ids = concat (map (\<lambda>i. map (\<lambda>x. endpoint_prefix i @ x) endpoint_suffixes) [0..<8])"

lemma suffixes_distinct: "distinct endpoint_suffixes" "distinct (''.deadline'' # resource_suffixes)"
  by (simp_all add: endpoint_suffixes_def resource_suffixes_def)

lemma endpoint_prefix_eq:
  assumes "i < 8" "j < 8" "endpoint_prefix i @ x = endpoint_prefix j @ y"
  shows "i = j"
proof -
  have "i \<in> {0, 1, 2, 3, 4, 5, 6, 7}" "j \<in> {0, 1, 2, 3, 4, 5, 6, 7}" using assms(1,2) by auto
  moreover have "[char_of (48 + i mod 10)] @ x = [char_of (48 + j mod 10)] @ y"
    using assms by (simp add: endpoint_prefix_def decimal_text.simps)
  then have "char_of (48 + i) = (char_of (48 + j) :: char)" using assms(1,2) by simp
  then have "(48 + i) mod 256 = (48 + j) mod 256" by (metis of_char_of)
  then show ?thesis using assms(1,2) by simp
qed

lemma endpoint_ids_distinct: "distinct endpoint_ids"
proof -
  have "distinct (concat (map (\<lambda>i. map (\<lambda>x. endpoint_prefix i @ x) endpoint_suffixes) ns))" if "set ns \<subseteq> {0..<8}" "distinct ns" for ns
    using that
  proof (induction ns)
    case (Cons n ns)
    let ?ids = "\<lambda>i. map (\<lambda>x. endpoint_prefix i @ x) endpoint_suffixes"
    have "set (?ids n) \<inter> set (?ids i) = {}" if "i \<in> set ns" for i
    proof -
      have "i \<noteq> n" "i < 8" "n < 8" using that Cons.prems by auto
      then show ?thesis using endpoint_prefix_eq by auto
    qed
    then have "set (?ids n) \<inter> set (concat (map ?ids ns)) = {}" by (simp add: Int_UN_distrib)
    moreover have "distinct (?ids n)" using suffixes_distinct(1) by (simp add: distinct_map inj_on_def)
    ultimately show ?case using Cons by simp
  qed simp
  from this[of "[0..<8]"] show ?thesis by (simp add: endpoint_ids_def)
qed

lemma online_ids_distinct: "distinct (online_ids endpoint_ids)"
proof -
  let ?p = "''online.endpoints.''"
  have "starts_with ?p i" if "i \<in> set endpoint_ids" for i
    using that by (auto simp: endpoint_ids_def endpoint_prefix_def starts_with_def)
  moreover have "list_all (\<lambda>i. \<not> starts_with ?p i) (online_ids [])"
    by (simp add: online_ids_def offline_ids_def permission_ids_def credential_roles_def starts_with_def)
  moreover have "distinct (online_ids [])"
    by (simp add: online_ids_def offline_ids_def permission_ids_def credential_roles_def)
  ultimately show ?thesis using endpoint_ids_distinct unfolding online_ids_def by (fastforce simp: list_all_iff)
qed

lemma local_checks_ids:
  "subseq (map ck_id (local_checks E S env home auth_config endpoints fs))
    (filter (\<lambda>i. i \<noteq> ''coverage.network'' \<and> i \<noteq> ''local.transport.endpoint'') offline_ids @ [''online.endpoints''])"
  using subseq_filter[OF offline_checks_ids[of E S "on_offline env" home auth_config None fs], of "\<lambda>i. i \<noteq> ''coverage.network'' \<and> i \<noteq> ''local.transport.endpoint''"]
  by (simp add: local_checks_def offline_def make_report_def filter_map o_def list_emb_append_mono)

lemma local_checks_endpoints: "outcome (local_checks E S env home auth_config endpoints fs) \<Longrightarrow> endpoints \<noteq> [] \<and> length endpoints \<le> 8"
  by (auto simp: outcome_iff local_checks_def)

lemma online_checks_ids: "distinct (map ck_id (vr_checks (online E S env home auth_config endpoints fs)))"
proof -
  let ?cs = "local_checks E S env home auth_config endpoints fs"
  let ?l = "filter (\<lambda>i. i \<noteq> ''coverage.network'' \<and> i \<noteq> ''local.transport.endpoint'') offline_ids @ [''online.endpoints'']"
  note local_part = local_checks_ids[of E S env home auth_config endpoints fs]
  have m: "distinct (map ck_id ?cs @ rest)" if "subseq rest ([''coverage.network'', ''online.credentials''] @ endpoint_ids @ [''online.deadline'', ''coverage.discovery''])" for rest
    using subseq_distinct[OF list_emb_append_mono[OF local_part that]] online_ids_distinct by (simp add: online_ids_def)
  show ?thesis
  proof (cases "outcome ?cs")
    case False
    then show ?thesis using m[of "[''coverage.network'']"] by (simp add: online_def make_report_def Let_def)
  next
    case True
    note few = local_checks_endpoints[OF True]
    show ?thesis
    proof (cases "online_inputs E S env home auth_config fs")
      case (Inl e)
      then show ?thesis using True m[of "[''online.credentials'']"] by (simp add: online_def make_report_def Let_def)
    next
      case (Inr inputs)
      obtain config mf where i: "inputs = (config, mf)" by fastforce
      let ?steps = "concat (map (endpoint_steps E (on_offline env) config mf (on_run env)) (enumerate 0 endpoints))"
      let ?u = "until_deadline ''online.deadline'' (on_deadline env) ?steps"
      have "subseq (map ck_id (concat ?steps)) endpoint_ids"
        using endpoints_ids[of 0 endpoints 8] few by (simp add: endpoint_ids_def)
      then have "subseq (map ck_id ?u) (endpoint_ids @ [''online.deadline''])"
        using until_deadline_ids by (meson list_emb_append_mono subseq_order.order_refl subseq_order.order_trans)
      then have "subseq (map ck_id ?u @ [''coverage.discovery'']) ((endpoint_ids @ [''online.deadline'']) @ [''coverage.discovery''])"
        by (rule list_emb_append_mono) simp
      then have "subseq (map ck_id ?u @ [''coverage.discovery'']) ([''coverage.network'', ''online.credentials''] @ endpoint_ids @ [''online.deadline'', ''coverage.discovery''])"
        using subseq_drop_many[of _ _ "[''coverage.network'', ''online.credentials'']"] by (simp only: append_assoc append_Cons append_Nil)
      from m[OF this] show ?thesis using True Inr i by (simp add: online_def make_report_def Let_def)
    qed
  qed
qed

lemma startup_checks_ids: "distinct (map ck_id (vr_checks (inspect_resources B m deadline)))"
proof -
  have "map ck_id (concat (resource_steps B m ''startup'')) @ [''startup.deadline''] = map (\<lambda>x. ''startup'' @ x) (resource_suffixes @ [''.deadline''])"
    by (simp add: resource_steps_ids)
  moreover have "distinct (map (\<lambda>x. ''startup'' @ x) (resource_suffixes @ [''.deadline'']))"
    using suffixes_distinct(2) by (subst distinct_map) (auto simp: inj_on_def)
  ultimately show ?thesis using subseq_distinct[OF until_deadline_ids[of "''startup.deadline''" deadline "resource_steps B m ''startup''"]]
    by (simp add: inspect_resources_def make_report_def)
qed

end
