(* ===== verification/Deployment_Properties.thy ===== *)
theory Deployment_Properties
  imports Setup_Properties Validation
begin

text \<open>
  The properties of the deployment contract and of its validation, each with an instance on which its
  hypotheses hold.
\<close>

section \<open>The contract of the broker's resources\<close>

lemma own_resource_clean:
  assumes "ex \<in> set (resources m)"
  shows "compare_resource m (st_name ex) ex = Inr []"
proof -
  note f = resource_fields[OF assms]
  have "common_issues (mf_capacity m \<noteq> None) ex ex = []" using f(6) by (simp add: common_issues_def)
  moreover have "feature_issues ex ex = []" using f(9) by (simp add: feature_issues_def)
  moreover have "limit_issues (st_name ex) ex ex = []"
  proof (cases "mf_capacity m")
    case None
    then have "st_max_message_size ex = -1 \<or> st_max_message_size ex = 65536"
      using assms by (auto simp: resources_def Let_def stream_resource_def bucket_resource_def)
    then show ?thesis using f(13-16) by (auto simp: limit_issues_def unlimited_def)
  next
    case (Some c)
    then show ?thesis using f(13-17) by (simp add: limit_issues_def)
  qed
  ultimately show ?thesis using assms compare_clean by blast
qed

lemma limits_clean:
  assumes "ex \<in> set (resources m)" "limit_issues (st_name ex) ex ob = []"
  shows "unlimited (st_max_message_size ob) \<or> 65536 \<le> st_max_message_size ob"
    and "if starts_with ''KV_'' (st_name ex) then st_max_messages_per_subject ob = 1 \<and> st_deny_delete ob else unlimited (st_max_messages_per_subject ob)"
proof -
  show "unlimited (st_max_message_size ob) \<or> 65536 \<le> st_max_message_size ob"
    using assms(1)
  proof (cases rule: resource_cases)
    case stream
    then show ?thesis using assms(2) by (auto simp: limit_issues_def starts_with_def split: if_splits)
  next
    case bucket
    have "st_name ex \<in> set (map st_name (resources m))" using assms(1) by simp
    then have "st_name ex \<in> {''KV_IDENTITIES'', ''KV_CHANNELS'', ''KV_TRANSPARENCY''}"
      using bucket(1) unfolding resource_names by (auto simp: starts_with_def)
    then show ?thesis using bucket(5) assms(2) by (auto simp: limit_issues_def split: if_splits)
  qed
  show "if starts_with ''KV_'' (st_name ex) then st_max_messages_per_subject ob = 1 \<and> st_deny_delete ob else unlimited (st_max_messages_per_subject ob)"
    using assms(1)
  proof (cases rule: resource_cases)
    case stream
    then show ?thesis using assms(2) by (auto simp: limit_issues_def unlimited_def split: if_splits)
  next
    case bucket
    then show ?thesis using assms(2) by (auto simp: limit_issues_def split: if_splits)
  qed
qed

text \<open>C21: The comparison accepts the manifest's own resources and nothing weaker: a stream found compatible is the one asked for, with
  its subjects, on disk, with the declared replicas, acknowledged and synchronous writes, no expiry, no
  sealing, no mirror, source, republication or transformation; it takes messages of the full wire size; a
  bucket keeps one value per key and denies deletion; and under a capacity policy its byte budget is exactly
  the declared one and new messages are refused when it is used up.\<close>

theorem contract_durable:
  "(\<forall>ex \<in> set (resources m). compare_resource m (st_name ex) ex = Inr []) \<and>
   (\<forall>resource ob. compare_resource m resource ob = Inr [] \<longrightarrow>
     (\<exists>ex \<in> set (resources m). st_name ex = resource \<and> st_name ob = resource \<and> sort (st_subjects ob) = sort (st_subjects ex)) \<and>
     st_storage ob = FileStorage \<and> st_retention ob = LimitsRetention \<and> st_num_replicas ob = mf_replicas m \<and> st_max_age ob = 0 \<and>
     \<not> st_no_ack ob \<and> \<not> st_persist_async ob \<and> \<not> st_sealed ob \<and> st_mirror ob = None \<and> st_sources ob \<in> {None, Some []} \<and>
     st_republish ob = None \<and> st_subject_transform ob = None \<and>
     (unlimited (st_max_message_size ob) \<or> 65536 \<le> st_max_message_size ob) \<and>
     (if starts_with ''KV_'' resource then st_max_messages_per_subject ob = 1 \<and> st_deny_delete ob else unlimited (st_max_messages_per_subject ob)) \<and>
     (\<forall>c. mf_capacity m = Some c \<longrightarrow> st_max_bytes ob = int (resource_budget c resource) \<and> st_discard ob = DiscardNew))"
proof (intro conjI allI impI)
  show "\<forall>ex \<in> set (resources m). compare_resource m (st_name ex) ex = Inr []" using own_resource_clean by blast
next
  fix resource ob assume "compare_resource m resource ob = Inr []"
  then obtain ex where ex: "ex \<in> set (resources m)" "st_name ex = resource" "common_issues (mf_capacity m \<noteq> None) ex ob = []"
    "feature_issues ex ob = []" "limit_issues resource ex ob = []" unfolding compare_clean by blast
  note f = resource_fields[OF ex(1)]
  have c: "st_name ob = st_name ex" "sort (st_subjects ob) = sort (st_subjects ex)" "st_storage ob = st_storage ex" "st_retention ob = st_retention ex"
    "st_num_replicas ob = st_num_replicas ex" "st_max_age ob = st_max_age ex" "st_no_ack ob = st_no_ack ex" "\<not> st_persist_async ob" "st_discard ob = st_discard ex"
    "mf_capacity m \<noteq> None \<Longrightarrow> st_max_bytes ob = st_max_bytes ex"
    using ex(3) by (auto simp: common_issues_def)
  have g: "st_sealed ob = st_sealed ex" "st_mirror ob = st_mirror ex" "st_sources ob \<in> {None, Some []}" "st_republish ob = st_republish ex"
    "st_subject_transform ob = st_subject_transform ex"
    using ex(4) by (auto simp: feature_issues_def)
  show "\<exists>ex \<in> set (resources m). st_name ex = resource \<and> st_name ob = resource \<and> sort (st_subjects ob) = sort (st_subjects ex)"
    using ex(1,2) c(1,2) by auto
  show "st_storage ob = FileStorage" "st_retention ob = LimitsRetention" "st_num_replicas ob = mf_replicas m" "st_max_age ob = 0" "\<not> st_no_ack ob"
    "\<not> st_persist_async ob" "\<not> st_sealed ob" "st_mirror ob = None" "st_sources ob \<in> {None, Some []}" "st_republish ob = None" "st_subject_transform ob = None"
    using c g f by simp_all
  show "unlimited (st_max_message_size ob) \<or> 65536 \<le> st_max_message_size ob"
    "if starts_with ''KV_'' resource then st_max_messages_per_subject ob = 1 \<and> st_deny_delete ob else unlimited (st_max_messages_per_subject ob)"
    using limits_clean[OF ex(1)] ex(2,5) by auto
next
  fix resource ob c assume "compare_resource m resource ob = Inr []" and m: "mf_capacity m = Some c"
  then obtain ex where ex: "ex \<in> set (resources m)" "st_name ex = resource" "common_issues True ex ob = []" unfolding compare_clean by auto
  note f = resource_fields(17)[OF ex(1) m]
  show "st_max_bytes ob = int (resource_budget c resource)" "st_discard ob = DiscardNew" using f ex(2,3) by (auto simp: common_issues_def)
qed

section \<open>Soundness of a passed validation\<close>

lemma outcome_simps [simp]:
  "outcome []" "outcome (c # cs) \<longleftrightarrow> (ck_required c \<longrightarrow> ck_status c = CheckPassed) \<and> outcome cs" "outcome (cs @ ds) \<longleftrightarrow> outcome cs \<and> outcome ds"
  "outcome (concat css) \<longleftrightarrow> (\<forall>cs \<in> set css. outcome cs)"
  by (auto simp: outcome_iff)

lemma steps_complete:
  assumes "outcome (until_deadline i deadline steps)"
  shows "deadline = None" "outcome (concat steps)"
  using assms by (cases deadline; simp add: until_deadline_def)+

lemma resource_steps_sound:
  assumes "outcome (concat (resource_steps B m pre))"
  shows "account_ok B \<and> server_ok B \<and>
    (\<forall>ex \<in> set (resources m). \<exists>info. stream_answer B (st_name ex) = Some info \<and> compare_resource m (st_name ex) (in_config info) = Inr [] \<and>
      healthy (in_cluster info) (mf_replicas m))"
proof -
  have a: "account_ok B" "server_ok B" "\<forall>ex \<in> set (resources m). outcome (resource_checks B m pre ex)"
    using assms by (auto simp: resource_steps_def)
  have "\<exists>info. stream_answer B (st_name ex) = Some info \<and> compare_resource m (st_name ex) (in_config info) = Inr [] \<and> healthy (in_cluster info) (mf_replicas m)"
    if "outcome (resource_checks B m pre ex)" for ex
    using that by (cases "stream_answer B (st_name ex)") (auto simp: resource_checks_def Let_def)
  then show ?thesis using a by blast
qed

text \<open>C17: A passed inspection of the broker saw everything: it met no deadline, the account answered, the server has the qualified
  version and payload limit, and each of the five resources was answered for, matches the contract and has
  all its replicas current, with a leader where the broker reports a cluster. The same holds at each endpoint of a passed online validation, where
  both identities were also admitted.\<close>

theorem inspection_sound:
  assumes "vr_success (inspect_resources B m deadline)"
    and "vr_success (online E S env home auth_config endpoints fs)"
  shows "deadline = None \<and> account_ok B \<and> server_ok B \<and>
    (\<forall>ex \<in> set (resources m). \<exists>info. stream_answer B (st_name ex) = Some info \<and> compare_resource m (st_name ex) (in_config info) = Inr [] \<and>
      healthy (in_cluster info) (mf_replicas m)) \<and>
    on_deadline env = None \<and> endpoints \<noteq> [] \<and> length endpoints \<le> 8 \<and>
    (\<exists>config m'. online_inputs E S env home auth_config fs = Inr (config, m') \<and>
      (\<forall>n < length endpoints. is_ok (check_transport E (oe_lookup (on_offline env)) config (endpoints ! n)) \<and>
        er_auth (on_run env n) \<and> er_control (on_run env n) \<and> account_ok (er_broker (on_run env n)) \<and> server_ok (er_broker (on_run env n)) \<and>
        (\<forall>ex \<in> set (resources m'). \<exists>info. stream_answer (er_broker (on_run env n)) (st_name ex) = Some info \<and>
          compare_resource m' (st_name ex) (in_config info) = Inr [] \<and> healthy (in_cluster info) (mf_replicas m'))))"
proof -
  have b: "outcome (until_deadline ''startup.deadline'' deadline (resource_steps B m ''startup''))"
    using assms(1) by (simp add: inspect_resources_def make_report_def)
  note startup = steps_complete(1)[OF b] resource_steps_sound[OF steps_complete(2)[OF b]]
  let ?cs = "local_checks E S env home auth_config endpoints fs"
  have l: "outcome ?cs"
  proof (rule ccontr)
    assume "\<not> outcome ?cs"
    then show False using assms(2) by (simp add: online_def make_report_def)
  qed
  note few = local_checks_endpoints[OF l]
  obtain config m' where i: "online_inputs E S env home auth_config fs = Inr (config, m')"
    using assms(2) l by (cases "online_inputs E S env home auth_config fs") (auto simp: online_def make_report_def)
  let ?steps = "endpoint_steps E (on_offline env) config m' (on_run env)"
  have o: "outcome (until_deadline ''online.deadline'' (on_deadline env) (concat (map ?steps (enumerate 0 endpoints))))"
    using assms(2) l i by (simp add: online_def make_report_def)
  have "is_ok (check_transport E (oe_lookup (on_offline env)) config (endpoints ! n)) \<and>
      er_auth (on_run env n) \<and> er_control (on_run env n) \<and> outcome (concat (resource_steps (er_broker (on_run env n)) m' (endpoint_prefix n)))"
    if "n < length endpoints" for n
  proof -
    have "(n, endpoints ! n) \<in> set (enumerate 0 endpoints)" using that by (simp add: in_set_enumerate_eq)
    then have "outcome (concat (?steps (n, endpoints ! n)))" using steps_complete(2)[OF o] by fastforce
    then show ?thesis by (simp add: endpoint_steps_def Let_def split: if_splits)
  qed
  then show ?thesis using startup few i steps_complete(1)[OF o] resource_steps_sound by blast
qed

lemma value_of_Some: "value_of r = Some x \<longleftrightarrow> r = Inr x"
  by (cases r) (simp_all add: value_of_def)

lemma file_checks_sound: "outcome (fst (file_checks fs uid base r pre)) \<Longrightarrow> list_all (\<lambda>x. private_path fs uid (base @ [snd x]) False = Inr ()) (state_files r)"
  by (simp add: file_checks_def Let_def permission_check_def state_files_def is_ok_iff)

lemma file_stage_sound:
  assumes "file_stage E env home auth_config fs = (cs, st)" "outcome cs"
  shows "private_path fs (oe_uid env) home True = Inr () \<and> (\<exists>config. inspect_config E env home auth_config fs = Inr config \<and> ls_config st = Some config) \<and>
    is_ok (inspect_manifest E env home fs) \<and> is_ok (inspect_capacity E env home fs) \<and>
    list_all (\<lambda>x. private_path fs (oe_uid env) (home @ [snd x]) False = Inr ()) (state_files ''auth'') \<and>
    list_all (\<lambda>x. private_path fs (oe_uid env) (home @ [''control'', snd x]) False = Inr ()) (state_files ''identity'')"
proof -
  have h: "is_ok (private_path fs (oe_uid env) home True)" using assms by (auto simp: file_stage_def Let_def)
  have c: "is_ok (private_path fs (oe_uid env) (home @ [''control'']) True)" using assms h by (auto simp: file_stage_def Let_def)
  have "cs = [ran_check ''local.home'' (private_path fs (oe_uid env) home True), ran_or_skipped True ''local.auth_config'' (inspect_config E env home auth_config fs),
        ran_or_skipped True ''local.deployment_manifest'' (inspect_manifest E env home fs), ran_check ''local.capacity'' (inspect_capacity E env home fs)] @
       fst (file_checks fs (oe_uid env) home ''auth'' ''auth'') @
       [ran_or_skipped True ''local.control_home'' (private_path fs (oe_uid env) (home @ [''control'']) True)] @
       fst (file_checks fs (oe_uid env) (home @ [''control'']) ''identity'' ''control'') \<and> ls_config st = value_of (inspect_config E env home auth_config fs)"
    using assms(1) h c by (auto simp: file_stage_def Let_def)
  then have "is_ok (inspect_config E env home auth_config fs)" "is_ok (inspect_manifest E env home fs)" "is_ok (inspect_capacity E env home fs)"
    "outcome (fst (file_checks fs (oe_uid env) home ''auth'' ''auth''))" "outcome (fst (file_checks fs (oe_uid env) (home @ [''control'']) ''identity'' ''control''))"
    "ls_config st = value_of (inspect_config E env home auth_config fs)"
    using assms(2) by auto
  then show ?thesis using h file_checks_sound[of fs "oe_uid env" home "''auth''" "''auth''"]
      file_checks_sound[of fs "oe_uid env" "home @ [''control'']" "''identity''" "''control''"]
    by (auto simp: is_ok_iff value_of_Some)
qed

lemma independent_distinct: "is_ok (independent refs) \<Longrightarrow> length refs = 6 \<Longrightarrow> distinct (map sf_id refs) \<and> distinct (map sf_public_key refs)"
proof -
  assume a: "is_ok (independent refs)" "length refs = 6"
  have "distinct xs" if "length (remdups xs) = 6" "length xs = 6" for xs :: "string list"
    using that length_remdups_eq[of xs] remdups_id_iff_distinct[of xs] by simp
  then show ?thesis using a by (auto simp: independent_def is_ok_iff result_simps)
qed

lemma credential_stage_sound:
  assumes "outcome (credential_stage S env st)" "ls_config st = Some config"
  obtains refs where "list_all2 (\<lambda>(i, control, r, k) ref.
      snd (vault_existing S (oe_keyring env i) r k (if control then oe_control_vault env else oe_vault env)) = Inr ref) credential_roles refs"
    "distinct (map sf_id refs)" "distinct (map sf_public_key refs)" "refs ! 0 = cf_issuer config" "refs ! 1 = cf_encryption config"
    "refs ! 2 = cf_connection config" "sf_public_key (refs ! 4) = cf_control_nkey config"
proof -
  define f where "f x = the (value_of (inspect_credential S env (Some config) x))" for x
  have checks: "\<forall>x \<in> set credential_roles. credential_ready st x \<and> inspect_credential S env (Some config) x = Inr (f x)"
    using assms by (auto simp: credential_stage_def credential_check_def outcome_iff is_ok_iff f_def value_of_def)
  have filtered: "List.map_filter g xs = map f xs" if "\<forall>x \<in> set xs. g x = Some (f x)" for g xs
    using that by (induction xs) (simp_all add: List.map_filter_simps)
  have refs: "references S env st = map f credential_roles" unfolding references_def
    by (rule filtered) (use checks assms(2) in \<open>simp add: value_of_def\<close>)
  have "is_ok (independent (map f credential_roles))" using assms(1) by (simp add: credential_stage_def refs)
  moreover have "length credential_roles = 6" by (simp add: credential_roles_def)
  ultimately have d: "distinct (map sf_id (map f credential_roles))" "distinct (map sf_public_key (map f credential_roles))"
    using independent_distinct by (metis length_map)+
  have each: "snd (vault_existing S (oe_keyring env i) r k (if control then oe_control_vault env else oe_vault env)) = Inr (f (i, control, r, k)) \<and>
      (expected_reference config i \<noteq> None \<longrightarrow> expected_reference config i = Some (f (i, control, r, k))) \<and>
      (i = ''control'' \<longrightarrow> sf_public_key (f (i, control, r, k)) = cf_control_nkey config)" if "(i, control, r, k) \<in> set credential_roles" for i control r k
    using checks that by (fastforce simp: inspect_credential_def result_simps split: option.splits if_splits)
  have bound: "f (''issuer'', False, ''issuer'', KindAccount) = cf_issuer config" "f (''encryption'', False, ''encryption'', KindXKey) = cf_encryption config"
    "f (''connection'', False, ''connection'', KindUser) = cf_connection config" "sf_public_key (f (''control'', True, ''device'', KindUser)) = cf_control_nkey config"
    using each[of "''issuer''" False "''issuer''" KindAccount] each[of "''encryption''" False "''encryption''" KindXKey]
      each[of "''connection''" False "''connection''" KindUser] each[of "''control''" True "''device''" KindUser]
    by (simp_all add: credential_roles_def expected_reference_def)
  show thesis
  proof (rule that[of "map f credential_roles"])
    show "list_all2 (\<lambda>(i, control, r, k) ref.
      snd (vault_existing S (oe_keyring env i) r k (if control then oe_control_vault env else oe_vault env)) = Inr ref) credential_roles (map f credential_roles)"
      using each by (auto simp: list_all2_map2 intro!: list.rel_refl_strong)
    show "distinct (map sf_id (map f credential_roles))" "distinct (map sf_public_key (map f credential_roles))" by (fact d)+
    show "map f credential_roles ! 0 = cf_issuer config" "map f credential_roles ! 1 = cf_encryption config" "map f credential_roles ! 2 = cf_connection config"
      "sf_public_key (map f credential_roles ! 4) = cf_control_nkey config"
      using bound by (simp_all add: credential_roles_def)
  qed
qed

lemma manifest_bounded_ok: "manifest_bounded n c = Inr m \<Longrightarrow> mf_capacity m = Some c \<and> (mf_replicas m = 1 \<or> mf_replicas m = 3)"
  by (auto simp: manifest_bounded_def manifest_new_def result_simps)

lemma manifest_of_input_ok: "manifest_of_input i = Inr m \<Longrightarrow> mf_replicas m = 1 \<or> mf_replicas m = 3"
  by (cases "mf_capacity i") (auto simp: manifest_of_input_def manifest_new_def result_simps dest: manifest_bounded_ok split: if_splits)

lemma manifest_load_ok:
  assumes "manifest_load E home fs = Inr m"
  shows "\<exists>policy. capacity_load E home fs = Inr policy \<and> mf_capacity m = Some policy \<and> (mf_replicas m = 1 \<or> mf_replicas m = 3)"
proof -
  obtain input declared policy where "manifest_of_input input = Inr declared" "capacity_load E home fs = Inr policy"
    "(case mf_capacity declared of Some c \<Rightarrow> ensure (c = policy) ''capacity differs from deployment manifest'' (Inr declared)
      | None \<Rightarrow> manifest_bounded (mf_replicas declared) policy) = Inr m"
    using assms by (simp add: manifest_load_def result_simps) blast
  then show ?thesis by (cases "mf_capacity declared") (auto simp: result_simps dest: manifest_bounded_ok manifest_of_input_ok)
qed

text \<open>C18: A passed offline validation vouches for the local state: the home, the configuration and the state files are private to
  the backend account; configuration, manifest and capacity policy are valid and agree, and the registry is
  within its limits; six independent credentials are present in their vaults, the configured ones and the
  control identity among them; both databases passed their inspection; and a production profile excludes
  development plaintext.\<close>

theorem offline_sound:
  assumes "vr_success (offline E S env home auth_config endpoint fs)"
  shows "\<exists>config m policy r refs tls.
    private_path fs (oe_uid env) home True = Inr () \<and> inspect_config E env home auth_config fs = Inr config \<and>
    manifest_load E home fs = Inr m \<and> mf_capacity m = Some policy \<and> (mf_replicas m = 1 \<or> mf_replicas m = 3) \<and>
    capacity_validate policy = Inr () \<and> oe_registry env = Inr r \<and> check_registry (oe_pager env) (r\<lparr>rg_capacity := policy\<rparr>) = Inr () \<and>
    list_all (\<lambda>x. private_path fs (oe_uid env) (home @ [snd x]) False = Inr ()) (state_files ''auth'') \<and>
    list_all (\<lambda>x. private_path fs (oe_uid env) (home @ [''control'', snd x]) False = Inr ()) (state_files ''identity'') \<and>
    list_all2 (\<lambda>(i, control, r, k) ref.
      snd (vault_existing S (oe_keyring env i) r k (if control then oe_control_vault env else oe_vault env)) = Inr ref) credential_roles refs \<and>
    distinct (map sf_id refs) \<and> distinct (map sf_public_key refs) \<and> refs ! 0 = cf_issuer config \<and> refs ! 1 = cf_encryption config \<and>
    refs ! 2 = cf_connection config \<and> sf_public_key (refs ! 4) = cf_control_nkey config \<and>
    oe_auth_database env = Inr () \<and> oe_control_database env (cf_control_nkey config) = Inr () \<and>
    from_lookup (oe_lookup env) = Inr tls \<and> (tl_profile tls = Production \<longrightarrow> \<not> cf_development_plaintext config) \<and>
    (\<forall>e. endpoint = Some e \<longrightarrow> inspect_endpoint E env tls config e = Inr ())"
proof -
  obtain cs st where st: "file_stage E env home auth_config fs = (cs, st)" by fastforce
  have o: "outcome cs" "outcome (credential_stage S env st)" "outcome (final_stage E env endpoint st)"
    using assms by (simp_all add: offline_def make_report_def offline_checks_def st)
  obtain config where f: "private_path fs (oe_uid env) home True = Inr ()" "inspect_config E env home auth_config fs = Inr config" "ls_config st = Some config"
    "is_ok (inspect_manifest E env home fs)" "is_ok (inspect_capacity E env home fs)"
    "list_all (\<lambda>x. private_path fs (oe_uid env) (home @ [snd x]) False = Inr ()) (state_files ''auth'')"
    "list_all (\<lambda>x. private_path fs (oe_uid env) (home @ [''control'', snd x]) False = Inr ()) (state_files ''identity'')"
    using file_stage_sound[OF st o(1)] by blast
  obtain m where m: "manifest_load E home fs = Inr m" using f(4) by (auto simp: inspect_manifest_def is_ok_iff result_simps)
  obtain policy r where p: "capacity_load E home fs = Inr policy" "oe_registry env = Inr r" "check_registry (oe_pager env) (r\<lparr>rg_capacity := policy\<rparr>) = Inr ()"
    "capacity_validate policy = Inr ()"
    using f(5) by (auto simp: inspect_capacity_def is_ok_iff result_simps)
  have mp: "mf_capacity m = Some policy" "mf_replicas m = 1 \<or> mf_replicas m = 3"
    using manifest_load_ok[OF m] p(1) by auto
  obtain refs where refs: "list_all2 (\<lambda>(i, control, r, k) ref.
      snd (vault_existing S (oe_keyring env i) r k (if control then oe_control_vault env else oe_vault env)) = Inr ref) credential_roles refs"
    "distinct (map sf_id refs)" "distinct (map sf_public_key refs)" "refs ! 0 = cf_issuer config" "refs ! 1 = cf_encryption config"
    "refs ! 2 = cf_connection config" "sf_public_key (refs ! 4) = cf_control_nkey config"
    using credential_stage_sound[OF o(2) f(3)] by blast
  obtain tls where t: "inspect_tls env (Some config) = Inr tls" using o(3) f(3) by (auto simp: final_stage_def Let_def is_ok_iff)
  have d: "oe_auth_database env = Inr ()" "oe_control_database env (cf_control_nkey config) = Inr ()"
    using o(3) f(3) by (auto simp: final_stage_def Let_def is_ok_iff)
  have e: "inspect_endpoint E env tls config e = Inr ()" if "endpoint = Some e" for e
    using o(3) f(3) t that by (auto simp: final_stage_def Let_def endpoint_check_def value_of_def is_ok_iff)
  have l: "from_lookup (oe_lookup env) = Inr tls" "tl_profile tls = Production \<Longrightarrow> \<not> cf_development_plaintext config"
    using t by (auto simp: inspect_tls_def result_simps)
  show ?thesis
    by (rule exI[of _ config], rule exI[of _ m], rule exI[of _ policy], rule exI[of _ r], rule exI[of _ refs], rule exI[of _ tls])
      (intro conjI f(1,2,6,7) m p(2-4) mp refs d l(1) allI impI l(2) e)
qed

section \<open>Reports survive their transport\<close>

text \<open>C34: Whatever is validated and whatever fails, the report that a validation writes is accepted by the reader that rejects unknown
  versions, repeated or missing checks and an outcome at odds with the checks: for the local state, for up to
  eight endpoints, at start-up and for a role.\<close>

theorem reports_parse:
  assumes "rep \<in> {offline E S env home auth_config endpoint fs, online E S oenv home auth_config endpoints fs, inspect_resources B m deadline,
      role_validate E S X env home worker_role online_mode endpoint peer reply fs}"
    and "un_json bs = Some rep"
  shows "validation_parse un_json bs = Inr rep"
proof -
  have r: "un_json bs = Some rep \<longrightarrow> validation_parse un_json bs = Inr rep"
    if "distinct (map ck_id (vr_checks rep))" "vr_checks rep \<noteq> []" "rep = make_report mode (vr_checks rep)" "mode \<in> {''offline'', ''online'', ''startup''}" for rep mode
    using make_report_parses[OF that(1,2,4), of un_json bs] that(3) by metis
  have "distinct (map ck_id (offline_checks E S env home auth_config endpoint fs))" using subseq_distinct[OF offline_checks_ids offline_ids_distinct] .
  moreover have "offline_checks E S env home auth_config endpoint fs \<noteq> []" by (simp add: offline_checks_def credential_stage_def split: prod.split)
  ultimately have a: "un_json bs = Some (offline E S env home auth_config endpoint fs) \<longrightarrow> validation_parse un_json bs = Inr (offline E S env home auth_config endpoint fs)"
    by (intro r[where mode = "''offline''"]) (simp_all add: offline_def make_report_def)
  have ne: "local_checks E S oenv home auth_config endpoints fs \<noteq> []" by (simp add: local_checks_def)
  have b: "un_json bs = Some (online E S oenv home auth_config endpoints fs) \<longrightarrow> validation_parse un_json bs = Inr (online E S oenv home auth_config endpoints fs)"
    by (intro r[where mode = "''online''"] online_checks_ids) (simp_all add: online_def Let_def make_report_def ne split: sum.split prod.split)
  have "until_deadline ''startup.deadline'' deadline (resource_steps B m ''startup'') \<noteq> []"
    by (simp add: until_deadline_def resource_steps_def split: option.split)
  then have c: "un_json bs = Some (inspect_resources B m deadline) \<longrightarrow> validation_parse un_json bs = Inr (inspect_resources B m deadline)"
    by (intro r[where mode = "''startup''"] startup_checks_ids) (simp_all add: inspect_resources_def make_report_def)
  have "distinct (map ck_id (role_checks config trust e online_mode f)) \<and> role_checks config trust e online_mode f \<noteq> []" for config trust e f
    by (simp add: role_checks_def Let_def split: option.split)
  then have "un_json bs = Some (role_validate E S X env home worker_role online_mode endpoint peer reply fs) \<longrightarrow> validation_parse un_json bs = Inr (role_validate E S X env home worker_role online_mode endpoint peer reply fs)"
    by (intro r[where mode = "if online_mode then ''online'' else ''offline''"]) (simp_all add: role_validate_def Let_def make_report_def)
  then show ?thesis using a b c assms by blast
qed

section \<open>A concrete deployment\<close>

lemma utf8_ascii: "list_all (\<lambda>c. byte_of c < 128) s \<Longrightarrow> from_utf8 (as_bytes s) = Some s"
proof -
  have chunks: "list_all fst (utf8_chunks bs)" if "list_all (\<lambda>b. b < 128) bs" for bs
    using that
  proof (induction bs rule: utf8_chunks.induct)
    case (2 b rest)
    have "utf8_width b = 1" using 2(2) by (simp add: utf8_width_def)
    then have p: "utf8_prefix b rest = 1" by (cases rest) (simp_all add: utf8_prefix_def)
    then show ?case using 2(1)[OF refl] 2(2) \<open>utf8_width b = 1\<close> by simp
  qed simp
  assume "list_all (\<lambda>c. byte_of c < 128) s"
  then have "list_all (\<lambda>b. b < 128) (map unat (as_bytes s))"
    by (auto simp: list_all_iff as_bytes_def byte_of_def unat_of_char)
  then have "utf8_valid (as_bytes s)" using chunks by (simp add: utf8_valid_def)
  then show ?thesis by (simp add: from_utf8_def)
qed

definition letter_id :: "char \<Rightarrow> string" where
  "letter_id c = CHR ''U'' # replicate 55 c"

lemma letter_id_simps [simp]: "letter_id c = letter_id d \<longleftrightarrow> c = d" "is_ascii_uppercase c \<Longrightarrow> credential_id_ok (letter_id c) = Inr ()"
  by (auto simp: letter_id_def credential_id_ok_def starts_with_def list_all_iff is_ascii_uppercase_def byte_of_def)

definition letter_ext :: secret_ext where
  "letter_ext = \<lparr>sha256 = (\<lambda>bs. Some (replicate 32 (hd bs))), nkey_ok = (\<lambda>k. True), nkey_verify = (\<lambda>k m s. True), sx_xkey = (\<lambda>s. Some (''X'' @ s)),
     sx_pair = (\<lambda>s. Some (if s = ''A'' then AccountKey else UserKey, ''K'' @ s))\<rparr>"

definition letter_secret :: "secret_kind \<Rightarrow> char \<Rightarrow> string" where
  "letter_secret k c = (if k = KindDatabase then replicate 64 c else [c])"

definition letter_key :: "secret_kind \<Rightarrow> char \<Rightarrow> string" where
  "letter_key k c = (if k = KindDatabase then hex_text (replicate 32 (of_char c)) else if k = KindXKey then ''X'' @ [c] else ''K'' @ [c])"

definition letter_ref :: "secret_kind \<Rightarrow> char \<Rightarrow> char \<Rightarrow> secret_ref" where
  "letter_ref k i c = \<lparr>sf_id = letter_id i, sf_kind = k, sf_public_key = letter_key k c\<rparr>"

definition letter_slot :: "secret_kind \<Rightarrow> char \<Rightarrow> char \<Rightarrow> slot" where
  "letter_slot k i c = \<lparr>sl_id = letter_id i, sl_kind = k, sl_public_key = Some (letter_key k c)\<rparr>"

definition letter_item :: "secret_kind \<Rightarrow> char \<Rightarrow> char \<Rightarrow> keyring_item" where
  "letter_item k i c = \<lparr>ki_id = letter_id i, ki_locked = False, ki_secret = as_bytes (letter_secret k c)\<rparr>"

definition keyring6 :: keyring where
  "keyring6 = \<lparr>kr_items = [letter_item KindAccount CHR ''A'' CHR ''A'', letter_item KindXKey CHR ''B'' CHR ''B'', letter_item KindUser CHR ''C'' CHR ''C'',
     letter_item KindDatabase CHR ''D'' CHR ''d'', letter_item KindUser CHR ''E'' CHR ''E'', letter_item KindDatabase CHR ''F'' CHR ''f''], kr_locked = False\<rparr>"

definition auth_vault :: vault where
  "auth_vault = \<lparr>va_file = Some \<lparr>md_version = 1, md_slots = [(''issuer'', letter_slot KindAccount CHR ''A'' CHR ''A''),
     (''encryption'', letter_slot KindXKey CHR ''B'' CHR ''B''), (''connection'', letter_slot KindUser CHR ''C'' CHR ''C''),
     (''database-auth'', letter_slot KindDatabase CHR ''D'' CHR ''d'')]\<rparr>, va_keyring = keyring6\<rparr>"

definition control_vault :: vault where
  "control_vault = \<lparr>va_file = Some \<lparr>md_version = 1, md_slots = [(''device'', letter_slot KindUser CHR ''E'' CHR ''E''),
     (''database-identity'', letter_slot KindDatabase CHR ''F'' CHR ''f'')]\<rparr>, va_keyring = keyring6\<rparr>"

lemma letter_public:
  "kind_public letter_ext KindAccount ''A'' = Inr (letter_key KindAccount CHR ''A'')" "kind_public letter_ext KindXKey [c] = Inr (letter_key KindXKey c)"
  "c \<noteq> CHR ''A'' \<Longrightarrow> kind_public letter_ext KindUser [c] = Inr (letter_key KindUser c)"
  "is_hex_lower c \<Longrightarrow> kind_public letter_ext KindDatabase (replicate 64 c) = Inr (letter_key KindDatabase c)"
  by (simp_all add: kind_public_def letter_ext_def letter_key_def hash_def as_bytes_def list_all_iff)

lemma letter_utf8: "byte_of c < 128 \<Longrightarrow> from_utf8 (as_bytes (letter_secret k c)) = Some (letter_secret k c)"
  by (rule utf8_ascii) (simp add: letter_secret_def list_all_iff)

lemma existing_letters:
  "snd (vault_existing letter_ext NoFault ''issuer'' KindAccount auth_vault) = Inr (letter_ref KindAccount CHR ''A'' CHR ''A'')"
  "snd (vault_existing letter_ext NoFault ''encryption'' KindXKey auth_vault) = Inr (letter_ref KindXKey CHR ''B'' CHR ''B'')"
  "snd (vault_existing letter_ext NoFault ''connection'' KindUser auth_vault) = Inr (letter_ref KindUser CHR ''C'' CHR ''C'')"
  "snd (vault_existing letter_ext NoFault ''database-auth'' KindDatabase auth_vault) = Inr (letter_ref KindDatabase CHR ''D'' CHR ''d'')"
  "snd (vault_existing letter_ext NoFault ''device'' KindUser control_vault) = Inr (letter_ref KindUser CHR ''E'' CHR ''E'')"
  "snd (vault_existing letter_ext NoFault ''database-identity'' KindDatabase control_vault) = Inr (letter_ref KindDatabase CHR ''F'' CHR ''f'')"
  by (simp_all add: vault_existing_def read_secret_with_def auth_vault_def control_vault_def keyring6_def letter_slot_def letter_item_def letter_ref_def
      on_keyring_def keyring_run_def keyring_operate_def is_ascii_uppercase_def byte_of_def letter_utf8)
    (simp_all add: letter_secret_def letter_public is_hex_lower_def is_ascii_digit_def byte_of_def)

definition config2 :: callout_config where
  "config2 = config1\<lparr>cf_issuer := letter_ref KindAccount CHR ''A'' CHR ''A'', cf_encryption := letter_ref KindXKey CHR ''B'' CHR ''B'',
     cf_connection := letter_ref KindUser CHR ''C'' CHR ''C'', cf_control_nkey := ''KE'', cf_development_plaintext := False\<rparr>"

definition manifest1 :: manifest where
  "manifest1 = \<lparr>mf_version = 2, mf_replicas = 1, mf_capacity = Some default_capacity\<rparr>"

definition sample_deploy :: deploy_ext where
  "sample_deploy = role_ext.extend (sample_roles\<lparr>rx_config := (\<lambda>bs. Some config2)\<rparr>)
     (deploy_ext.fields (\<lambda>bs. Some manifest1) (\<lambda>bs. Some default_capacity) (\<lambda>url. Some (None, None, True)))"

lemma sample_deploy_simps [simp]:
  "rx_config sample_deploy bs = Some config2" "rx_canonical sample_deploy p = Some p" "dx_manifest sample_deploy bs = Some manifest1"
  "dx_capacity sample_deploy bs = Some default_capacity" "dx_addr sample_deploy url = Some (None, None, True)"
  by (simp_all add: sample_deploy_def role_ext.extend_def deploy_ext.fields_def sample_roles_def jwt_ext.extend_def role_ext.fields_def)

definition deployed_files :: files where
  "deployed_files p = (if p = [''home''] \<or> p = [''home'', ''control''] then Some \<lparr>fl_kind = DirectoryFile, fl_uid = 1000, fl_mode = 448, fl_bytes = []\<rparr>
     else if p \<in> {[''home'', ''auth.json''], [''home'', ''deployment.json''], [''home'', ''capacity.json''], [''home'', ''credentials.json''],
       [''home'', ''auth.database.json''], [''home'', ''auth.sqlite''], [''home'', ''control'', ''credentials.json''],
       [''home'', ''control'', ''identity.database.json''], [''home'', ''control'', ''identity.sqlite'']} then Some (new_file 1000 [1]) else None)"

definition offline_env1 :: offline_env where
  "offline_env1 = \<lparr>oe_uid = 1000, oe_time = Some 0, oe_vault = auth_vault, oe_control_vault = control_vault, oe_keyring = (\<lambda>i. NoFault),
     oe_registry = Inr registry1, oe_pager = small_pages, oe_auth_database = Inr (), oe_control_database = (\<lambda>k. Inr ()),
     oe_lookup = (\<lambda>name. Inr None), oe_bundle = (\<lambda>p. None), oe_platform = Some [True]\<rparr>"

lemma deployed_private:
  "private_path deployed_files 1000 [''home''] True = Inr ()" "private_path deployed_files 1000 [''home'', ''control''] True = Inr ()"
  "deployed_files p = Some (new_file 1000 [1]) \<Longrightarrow> private_path deployed_files 1000 p False = Inr ()"
  by (simp_all add: private_path_def deployed_files_def new_file_def private_mode_def)

lemma config2_loads: "load_inner sample_deploy t pending config2 = Inr config2"
  by (simp add: load_inner_def config2_def config1_def letter_ref_def target_account_ok_def is_ascii_uppercase_def byte_of_def)

lemma deployed_reads:
  "read_file deployed_files [''home'', ''auth.json''] = Inr [1]" "read_file deployed_files [''home'', ''deployment.json''] = Inr [1]"
  "read_file deployed_files [''home'', ''capacity.json''] = Inr [1]"
  by (simp_all add: read_file_def deployed_files_def new_file_def)

lemma deployed_loads:
  "inspect_config sample_deploy offline_env1 home1 [''home'', ''auth.json''] deployed_files = Inr config2"
  "capacity_load sample_deploy home1 deployed_files = Inr default_capacity" "manifest_load sample_deploy home1 deployed_files = Inr manifest1"
  by (simp_all add: inspect_config_def offline_env1_def home1_def parent_path_def deployed_reads config2_loads capacity_load_def CAPACITY_FILE_def
      default_capacity_valid manifest_load_def MANIFEST_FILE_def manifest_of_input_def manifest_bounded_def manifest_new_def manifest1_def deployed_private)
    (simp_all add: config2_def config1_def deployed_private deployed_files_def)

lemma registry1_within: "check_registry small_pages (registry1\<lparr>rg_capacity := default_capacity\<rparr>) = Inr ()"
  using registry1_audit(2) x_ext_facts(1) by (simp add: check_registry_def reg_inv_def reg_limits_def registry_usage_def)

definition state1 :: local_state where
  "state1 = \<lparr>ls_config = Some config2, ls_auth_files = True, ls_control_files = True\<rparr>"

lemma deployed_stage:
  obtains cs where "file_stage sample_deploy offline_env1 home1 [''home'', ''auth.json''] deployed_files = (cs, state1)" "outcome cs"
proof -
  have p: "private_path deployed_files 1000 [''home'', f] False = Inr ()"
    if "f \<in> {''deployment.json'', ''capacity.json'', ''credentials.json'', ''auth.database.json'', ''auth.sqlite''}" for f
    by (rule deployed_private(3)) (use that in \<open>auto simp: deployed_files_def\<close>)
  have c: "private_path deployed_files 1000 [''home'', ''control'', f] False = Inr ()"
    if "f \<in> {''credentials.json'', ''identity.database.json'', ''identity.sqlite''}" for f
    by (rule deployed_private(3)) (use that in \<open>auto simp: deployed_files_def\<close>)
  have none: "filter (\<lambda>x. [''home'', snd x] \<in> dom deployed_files) (sidecars ''auth'') = []"
    "filter (\<lambda>x. [''home'', ''control'', snd x] \<in> dom deployed_files) (sidecars ''identity'') = []"
    by (simp_all add: sidecars_def deployed_files_def domIff)
  have a: "snd (file_checks deployed_files 1000 [''home''] ''auth'' ''auth'') \<and> outcome (fst (file_checks deployed_files 1000 [''home''] ''auth'' ''auth''))"
    using none(1) by (simp add: file_checks_def Let_def state_files_def permission_check_def p)
  have b: "snd (file_checks deployed_files 1000 [''home'', ''control''] ''identity'' ''control'') \<and>
      outcome (fst (file_checks deployed_files 1000 [''home'', ''control''] ''identity'' ''control''))"
    using none(2) by (simp add: file_checks_def Let_def state_files_def permission_check_def c)
  have m: "inspect_manifest sample_deploy offline_env1 home1 deployed_files = Inr manifest1"
    using deployed_loads(3) by (simp add: inspect_manifest_def offline_env1_def home1_def MANIFEST_FILE_def p)
  have k: "inspect_capacity sample_deploy offline_env1 home1 deployed_files = Inr ()"
    using deployed_loads(2) registry1_within by (simp add: inspect_capacity_def offline_env1_def home1_def CAPACITY_FILE_def p default_capacity_valid)
  show thesis
    by (rule that[of "fst (file_stage sample_deploy offline_env1 home1 [''home'', ''auth.json''] deployed_files)"])
      (use a b m k deployed_loads(1) in \<open>simp_all add: file_stage_def Let_def home1_def deployed_private state1_def value_of_def offline_env1_def\<close>)
qed

lemma deployed_credentials: "outcome (credential_stage letter_ext offline_env1 state1)"
proof -
  let ?refs = "[letter_ref KindAccount CHR ''A'' CHR ''A'', letter_ref KindXKey CHR ''B'' CHR ''B'', letter_ref KindUser CHR ''C'' CHR ''C'',
    letter_ref KindDatabase CHR ''D'' CHR ''d'', letter_ref KindUser CHR ''E'' CHR ''E'', letter_ref KindDatabase CHR ''F'' CHR ''f'']"
  have i: "map (inspect_credential letter_ext offline_env1 (Some config2)) credential_roles = map Inr ?refs"
    by (simp add: credential_roles_def inspect_credential_def offline_env1_def existing_letters expected_reference_def config2_def)
      (simp add: letter_ref_def letter_key_def)
  have r: "references letter_ext offline_env1 state1 = ?refs"
    using i by (simp add: references_def credential_roles_def credential_ready_def state1_def List.map_filter_simps value_of_def)
  have d: "letter_key KindDatabase CHR ''d'' \<noteq> letter_key KindDatabase CHR ''f''"
  proof
    assume "letter_key KindDatabase CHR ''d'' = letter_key KindDatabase CHR ''f''"
    then have "replicate 32 (of_char CHR ''d'' :: byte) = replicate 32 (of_char CHR ''f'')" 
      unfolding letter_key_def by (intro hex_text_inj) (simp only: simp_thms if_True)
    then show False by simp
  qed
  have n: "letter_key KindDatabase c \<noteq> [x, y]" for c x y
  proof
    assume "letter_key KindDatabase c = [x, y]"
    then have "length (letter_key KindDatabase c) = 2" by simp
    then show False by (simp add: letter_key_def)
  qed
  have k: "letter_key KindAccount c = [CHR ''K'', c]" "letter_key KindUser c = [CHR ''K'', c]" "letter_key KindXKey c = [CHR ''X'', c]" for c
    by (simp_all add: letter_key_def)
  have "independent ?refs = Inr ()"
    by (simp add: independent_def letter_ref_def k n n[symmetric] d)
  then show ?thesis using i r by (simp add: credential_stage_def credential_check_def credential_ready_def credential_roles_def state1_def)
qed

lemma deployed_offline: "outcome (offline_checks sample_deploy letter_ext offline_env1 home1 [''home'', ''auth.json''] None deployed_files)"
proof -
  obtain cs where "file_stage sample_deploy offline_env1 home1 [''home'', ''auth.json''] deployed_files = (cs, state1)" "outcome cs" by (rule deployed_stage)
  moreover have "from_lookup (oe_lookup offline_env1) = Inr \<lparr>tl_profile = Production, tl_ca_path = None, tl_minimum = Tls13, tl_first = False\<rparr>"
    by (simp add: from_lookup_def offline_env1_def)
  then have "inspect_tls offline_env1 (Some config2) = Inr \<lparr>tl_profile = Production, tl_ca_path = None, tl_minimum = Tls13, tl_first = False\<rparr>"
    by (simp add: inspect_tls_def validate_local_def config2_def offline_env1_def)
  then have "outcome (final_stage sample_deploy offline_env1 None state1)"
    by (simp add: final_stage_def Let_def state1_def endpoint_check_def offline_env1_def)
  ultimately show ?thesis using deployed_credentials by (simp add: offline_checks_def)
qed

definition broker1 :: broker_view where
  "broker1 = \<lparr>bv_decode = (\<lambda>bs. if bs = [] then Some ApiAccount else
       map_option (\<lambda>ex. ApiStream \<lparr>in_config = ex, in_cluster = None\<rparr>) (find (\<lambda>ex. st_name ex = text_of bs) (resources manifest1))),
     bv_request = (\<lambda>subj. \<lparr>rq_denied_before = False, rq_outcome = Answered (if subj = ''$JS.API.INFO'' then [] else as_bytes (drop 20 subj)), rq_denied_after = False\<rparr>),
     bv_server_version = ''2.14.5'', bv_max_payload = 65536\<rparr>"

lemma broker1_steps: "outcome (concat (resource_steps broker1 manifest1 pre))"
proof -
  have "stream_answer broker1 (st_name ex) = Some \<lparr>in_config = ex, in_cluster = None\<rparr>" if "ex \<in> set (resources manifest1)" for ex
  proof -
    have "st_name ex \<in> set (map st_name (resources manifest1))" using that by simp
    then have "st_name ex \<noteq> []" unfolding resource_names by auto
    then have "as_bytes (st_name ex) \<noteq> []" by (simp add: as_bytes_def)
    then show ?thesis using find_resource[OF that] by (simp add: stream_answer_def api_request_def broker1_def)
  qed
  then have "outcome (resource_checks broker1 manifest1 pre ex)" if "ex \<in> set (resources manifest1)" for ex
    using that own_resource_clean by (simp add: resource_checks_def Let_def healthy_def manifest1_def)
  then show ?thesis by (simp add: resource_steps_def account_ok_def server_ok_def api_request_def broker1_def)
qed

definition online_env1 :: online_env where
  "online_env1 = \<lparr>on_offline = offline_env1, on_device = NoFault, on_seed = True,
     on_run = (\<lambda>n. \<lparr>er_options = True, er_auth = True, er_control = True, er_broker = broker1\<rparr>), on_deadline = None\<rparr>"

lemma deployed_online: "vr_success (online sample_deploy letter_ext online_env1 home1 [''home'', ''auth.json''] [''tls://broker''] deployed_files)"
proof -
  have l: "outcome (local_checks sample_deploy letter_ext online_env1 home1 [''home'', ''auth.json''] [''tls://broker''] deployed_files)"
    using deployed_offline by (auto simp: local_checks_def offline_def make_report_def online_env1_def outcome_iff)
  have i: "online_inputs sample_deploy letter_ext online_env1 home1 [''home'', ''auth.json''] deployed_files = Inr (config2, manifest1)"
    using deployed_loads(3)
    by (simp add: online_inputs_def config_load_def deployed_reads config2_loads online_env1_def offline_env1_def existing_letters)
      (simp add: config2_def letter_ref_def letter_key_def)
  have t: "check_transport sample_deploy (oe_lookup offline_env1) config2 ''tls://broker'' = Inr ()"
    by (simp add: check_transport_def from_lookup_def validate_endpoint_def offline_env1_def starts_with_def config2_def)
  have "outcome (concat (endpoint_steps sample_deploy offline_env1 config2 manifest1 (on_run online_env1) (0, ''tls://broker'')))"
    using broker1_steps t by (simp add: endpoint_steps_def Let_def online_env1_def)
  then show ?thesis using l i by (simp add: online_def make_report_def Let_def until_deadline_def online_env1_def)
qed

theorem contract_durable_witness:
  "compare_resource manifest1 ''CHAT'' (hd (resources manifest1)) = Inr [] \<and> st_max_bytes (hd (resources manifest1)) = 67108864"
proof -
  have h: "hd (resources manifest1) \<in> set (resources manifest1)" "st_name (hd (resources manifest1)) = ''CHAT''"
    by (simp_all add: resources_def Let_def manifest1_def stream_resource_def bounded_resource_def)
  have d: "mf_capacity manifest1 = Some default_capacity" by (simp add: manifest1_def)
  have c: "compare_resource manifest1 ''CHAT'' (hd (resources manifest1)) = Inr []" using contract_durable[of manifest1] h by metis
  then have "st_max_bytes (hd (resources manifest1)) = int (resource_budget default_capacity ''CHAT'')" using contract_durable[of manifest1] d by blast
  then show ?thesis using c by (simp add: resource_budget_def default_capacity_def)
qed

theorem inspection_sound_witness:
  "account_ok broker1 \<and> (\<exists>config m. online_inputs sample_deploy letter_ext online_env1 home1 [''home'', ''auth.json''] deployed_files = Inr (config, m))"
proof -
  have "vr_success (inspect_resources broker1 manifest1 None)"
    using broker1_steps by (simp add: inspect_resources_def make_report_def until_deadline_def)
  from inspection_sound[OF this deployed_online] show ?thesis by blast
qed

theorem offline_sound_witness:
  "\<exists>config m. inspect_config sample_deploy offline_env1 home1 [''home'', ''auth.json''] deployed_files = Inr config \<and>
     manifest_load sample_deploy home1 deployed_files = Inr m \<and> oe_auth_database offline_env1 = Inr ()"
proof -
  have "vr_success (offline sample_deploy letter_ext offline_env1 home1 [''home'', ''auth.json''] None deployed_files)"
    using deployed_offline by (simp add: offline_def make_report_def)
  from offline_sound[OF this] show ?thesis by blast
qed

theorem reports_parse_witness:
  "validation_parse (\<lambda>bs. Some (inspect_resources broker1 manifest1 None)) [] = Inr (inspect_resources broker1 manifest1 None)"
  using reports_parse[of "inspect_resources broker1 manifest1 None" sample_deploy letter_ext offline_env1 home1 "[]" None deployed_files online_env1 "[]"
      broker1 manifest1 None sample_ipc False False None "\<lambda>_. None" "\<lambda>bs. Some (inspect_resources broker1 manifest1 None)" "[]"]
  by simp

end
