(* ===== verification/Spec2Isabelle.thy ===== *)
theory Spec2Isabelle
  imports Directory_Properties Audit_Properties Registry_Properties Trust_Properties Chat_Properties Callout_Properties Session_Properties Deployment_Properties
begin

text \<open>
  EpochGrid is an end-to-end encrypted group messenger over a NATS broker. A service holds the
  authority registry (who is enrolled, which device belongs to which group), publishes an
  append-only transparency log of device registrations and a revocation log, and answers signed
  control requests. A client keeps its MLS groups, an outbox, the received history and its trust in
  other devices in an encrypted SQLite database. This development models the logic of the core
  crate (\<open>src/crates/epochgrid-core/src\<close>) and of the service's request handling, and proves what
  makes them correct.

  \<^bold>\<open>Conventions.\<close> A Rust \<open>Result\<close> is the sum \<open>error + 'a\<close> (\<open>Prelude\<close>), \<open>ensure!\<close> and \<open>?\<close>
  are \<open>ensure\<close> and \<open>bind_r\<close>; an operation whose state survives its errors threads the state with
  \<open>bind_s\<close>; an SQL transaction is \<open>transaction\<close>, whose error leaves the state as it was. A table is
  the list of its rows, with \<open>insert_row\<close> refusing a duplicate primary key. A \<open>str\<close> is the list of
  its UTF-8 bytes. Integers are \<open>nat\<close> or \<open>int\<close> with the overflow checks of the source written out,
  and machine words where the source saturates (\<open>Capacity\<close>). Code outside the repository (SHA-256,
  NKey signatures, postcard, JSON, OpenMLS, AEAD, JWT, the NATS client, SQLite's page counts, clocks,
  randomness) is a field of a parameter record or an argument; what a theorem relies on is a named
  hypothesis: \<open>postcard_roundtrip\<close>, \<open>json_roundtrip\<close>, \<open>event_roundtrip\<close>, \<open>manifest_roundtrip\<close>,
  \<open>checkpoint_roundtrip\<close>, \<open>aead_roundtrip\<close> (reading back what was written), \<open>kv_acks\<close> (an
  acknowledged write is stored), \<open>collision_free\<close> (the hash inputs at hand do not collide),
  \<open>frames_roundtrip\<close> and \<open>json_sizes\<close> (JSON reads back a frame, and its size is bounded by that of the
  fields), \<open>env_ok\<close> (clock and random identifiers have the shape the operating system gives them). Each has
  a concrete instance in \<open>Sample\<close> or in the theory of the witnesses.

  \<^bold>\<open>Theories and sources.\<close>
  \<^item> \<open>Prelude\<close>, \<open>Machine\<close>, \<open>Text\<close>, \<open>Merkle\<close>: results, tables, runs of operations as locales,
    UTF-8 and hexadecimal, Merkle trees. \<open>Machine\<close> states the interfaces (an invariant along a run, a
    preorder along a run, rollback); every stateful component interprets them on its own steps.
  \<^item> \<open>Wire\<close> (\<open>wire.rs\<close>), \<open>Identity\<close> (\<open>identity.rs\<close>, \<open>groups.rs\<close>, \<open>devices.rs\<close>), \<open>Broker\<close>
    (\<open>transport.rs\<close>): envelopes, identifiers, verified registrations, the key-value directory.
  \<^item> \<open>Transparency\<close> and \<open>Revocation\<close> (\<open>transparency.rs\<close>, \<open>revocation.rs\<close>): signed logs, appended
    under compare-and-swap; \<open>log_step\<close> interleaves several writers.
  \<^item> \<open>Capacity\<close> (\<open>capacity.rs\<close>), \<open>AuditLog\<close> (\<open>audit.rs\<close>), \<open>Registry\<close> (\<open>identity_model.rs\<close>), \<open>Policy\<close>
    (\<open>authorization.rs\<close>, \<open>authorization/delivery.rs\<close>): the authority's database.
  \<^item> \<open>Callout\<close> (\<open>auth_callout.rs\<close>, \<open>backend_roles.rs\<close>): the NATS Auth Callout adapter, from the
    encrypted request to the sealed response, and the subjects each role is granted.
  \<^item> \<open>Runtime\<close> (\<open>diagnostics.rs\<close> of both crates), \<open>Consumers\<close> (\<open>authorization/delivery.rs\<close>,
    \<open>transport.rs\<close>), \<open>Service\<close> (\<open>epochgrid-service/src/dynamic.rs\<close>): the gate and the reports, the
    consumers of the broker, and the main loop over registry, buckets and consumers, with its start-up,
    control requests and repairs. \<open>Admission\<close> proves its invariant in the locale \<open>sole_broker\<close>, the
    contract of a broker whose log and consumers have no other administrator; a broker in memory
    (\<open>Service_Properties\<close>) interprets it.
  \<^item> \<open>Sessions\<close> (\<open>epochgrid-service/src/roles.rs\<close>): the frames, the session that the authority runs for
    its worker, the worker's loop and the status socket. \<open>Lockstep\<close> states a simulation between two
    machines as the locale \<open>refined_machine\<close> and interprets it on the authority and the service;
    \<open>Exchange\<close> joins both ends of a connection into one machine.
  \<^item> \<open>Secrets\<close> (\<open>secrets.rs\<close>) and \<open>Roles\<close> (\<open>epochgrid-service/src/roles.rs\<close>): the credential vault over the
    keyring, and the files that bind the two backend roles.
  \<^item> \<open>Deployment\<close> (\<open>deployment.rs\<close>, \<open>tls.rs\<close>) and \<open>Validation\<close> (\<open>validation.rs\<close>,
    \<open>validation/online.rs\<close>, \<open>validate\<close> of \<open>roles.rs\<close>): the contract of the broker's resources, the transport
    policy, and the reports of the local, start-up, online and role validation.
  \<^item> \<open>Store\<close> and \<open>Trust\<close> (\<open>identity.rs\<close>, \<open>trust.rs\<close>): the client's database as one record, and its
    pins, checkpoints and revocations.
  \<^item> \<open>Channels\<close> (\<open>groups.rs\<close>, \<open>rekey.rs\<close>, \<open>epochs.rs\<close>), \<open>Attachments\<close>, \<open>Relationships\<close>, \<open>Outbox\<close>
    (\<open>delivery.rs\<close>, \<open>groups.rs\<close>, \<open>rekey.rs\<close>, \<open>participants.rs\<close>, \<open>authorization/delivery.rs\<close>),
    \<open>Messaging\<close> (\<open>messaging.rs\<close>, \<open>receipts.rs\<close>), \<open>History\<close> (\<open>history.rs\<close>, \<open>participants.rs\<close>),
    \<open>Ephemeral\<close> (\<open>ephemeral.rs\<close>): the client's messaging. \<open>Durability\<close> has the frame rules that
    carry the invariants of the client, that of its trust state included, through all of them.
  \<^item> The \<open>*_Properties\<close> theories hold the properties with their witnesses; \<open>Sample\<close> has concrete
    third-party functions, keys and registrations for them.

  \<^bold>\<open>What is proved.\<close> For each stateful component an invariant that every operation keeps on
  every branch, and an order in which no operation moves back: registry rows, retained audit
  records, pinned trust, the outbox and history of a client (\<open>registry_history\<close>, \<open>audit_history\<close>,
  \<open>trust_history\<close>, \<open>chat_history\<close>). On top of them: revocation is final, tokens are used once,
  policies, commits, relays and edits come from those who may issue them, logs grow only at their
  end and rewritten history is refused, messages are sent and ciphertexts opened under their
  guards, encodings are canonical, loops end and do all of their work, the audit reserve suffices,
  the token bucket at machine width refines the one over natural numbers.
  The callout answers a connection once, grants each role its permissions and lifetime, a device exactly
  the subjects of its groups, and nothing but enrollment to a revoked key; the backend roles have no administrative subject.
  While the gate of the service is open, for every sequence of requests, ticks and broker failures, every
  key of the published revocation log is retired and each consumer of the broker is filtered to what
  its device may read (\<open>service_admission\<close>); a failing request fails closed; a report is accepted by its
  reader when it was taken from one reading, and one taken from two can be refused
  (\<open>torn_report_refused\<close>).
  Behind its local socket the authority refines the service, a worker counts as live only on the
  frames its session waits for, numbered without a gap or a repetition, the worker publishes each answer to the reply subject of its question and in order, and
  without delays the separated deployment answers exactly as the service does (\<open>authority_refines\<close>,
  \<open>lease_current\<close>, \<open>answers_in_order\<close>, \<open>separated_equivalent\<close>). A role keeps one credential through
  every interruption, no secret is replaced, and the binding of the roles can be repeated after a failure at
  any point (\<open>vault_stable\<close>, \<open>vault_never_replaces\<close>, \<open>role_bind_restartable\<close>). A validation that
  passed vouches for the local state, the broker's resources and each endpoint, and every report is accepted
  by its reader (\<open>offline_sound\<close>, \<open>inspection_sound\<close>, \<open>contract_durable\<close>, \<open>reports_parse\<close>).

  \<^bold>\<open>Bounds.\<close> The appends to the logs make the four attempts of the source. The other loops are
  total functions with a measure: the export loop counts the rows after its cursor, the flush loop
  the ids up to the highest one, the processing loop the pending deliveries, the Merkle root the
  length of its list.

  \<^bold>\<open>Not modelled.\<close> Sockets, tasks and timers, connection set-up, stream provisioning, TLS, the
  terminal user interface and the command lines, schema migrations of old databases,
  backup archives, the schema inspection of the databases, the rendering of
  deployment artifacts and the commands that publish them. SQLite's row identifiers are
  natural numbers without their upper end. A control request or a repair of the service is one step: the
  callout task, which in the source may run between two of its broker calls, runs before or after it, and a
  deadline that expires is a broker call that fails. Cryptography is a parameter throughout; secrecy is not
  stated.
\<close>

end
